(* ===== verification/Prelude.thy ===== *)
theory Prelude
  imports Main "HOL-Library.Word" "HOL-Library.Signed_Division"
begin

text \<open>
  Vocabulary shared by every theory of the development: the machine integers of the Rust
  source, its \<open>Result\<close> type, its ordered maps and its checked integer arithmetic, with the
  generic facts the component theories use.
\<close>

unbundle bit_operations_syntax

named_theorems rust_arith \<open>the definitions of the integer operations of the source\<close>
named_theorems bt_simps \<open>lookups in an ordered map after an update\<close>

section \<open>Machine integers\<close>

type_synonym u8 = "8 word"
type_synonym u16 = "16 word"
type_synonym u32 = "32 word"
type_synonym u64 = "64 word"

text \<open>
  A Rust \<open>iN\<close> and \<open>uN\<close> are the same bits; \<open>sint\<close> reads them as signed and \<open>uint\<close> as
  unsigned. \<open>rust_sdiv\<close> and \<open>rust_srem\<close> are \<open>a / b\<close> and \<open>a % b\<close> on signed integers: \<open>None\<close>
  is the panic of a zero divisor and of \<open>MIN / -1\<close>, in every build profile.
\<close>

definition rust_sdiv :: "'a::len word \<Rightarrow> 'a word \<Rightarrow> 'a word option" where
  "rust_sdiv a b =
     (if b = 0 then None
      else if b = - 1 \<and> sint a = - (2 ^ (LENGTH('a) - 1)) then None
      else Some (word_of_int (sint a sdiv sint b)))"

definition rust_srem :: "'a::len word \<Rightarrow> 'a word \<Rightarrow> 'a word option" where
  "rust_srem a b =
     (if b = 0 then None
      else if b = - 1 \<and> sint a = - (2 ^ (LENGTH('a) - 1)) then None
      else Some (word_of_int (sint a smod sint b)))"

text \<open>\<open>a.wrapping_rem(b)\<close> for \<open>b \<noteq> 0\<close>: 0 where \<open>%\<close> would overflow, which is what \<open>smod\<close> gives.\<close>

definition wrapping_srem :: "'a::len word \<Rightarrow> 'a word \<Rightarrow> 'a word" where
  "wrapping_srem a b = word_of_int (sint a smod sint b)"

lemma rust_sdiv_Some_iff:
  "(\<exists>c. rust_sdiv a b = Some c) \<longleftrightarrow> b \<noteq> 0 \<and> \<not> (b = - 1 \<and> sint a = - (2 ^ (LENGTH('a) - 1)))"
  for a b :: "'a::len word"
  by (auto simp: rust_sdiv_def)

lemma rust_srem_wrapping: "rust_srem a b = Some c \<Longrightarrow> c = wrapping_srem a b"
  by (auto simp: rust_srem_def wrapping_srem_def split: if_splits)

section \<open>Results\<close>

text \<open>A Rust \<open>Result\<close> is a sum with the error on the left; \<open>rbind\<close> is the \<open>?\<close> operator.\<close>

definition rbind :: "'e + 'a \<Rightarrow> ('a \<Rightarrow> 'e + 'b) \<Rightarrow> 'e + 'b" where
  "rbind r f = (case r of Inl e \<Rightarrow> Inl e | Inr a \<Rightarrow> f a)"

lemma rbind_simps [simp]:
  "rbind (Inl e) f = Inl e"
  "rbind (Inr a) f = f a"
  by (simp_all add: rbind_def)

lemma rbind_Inr_iff: "rbind r f = Inr b \<longleftrightarrow> (\<exists>a. r = Inr a \<and> f a = Inr b)"
  by (cases r) auto

lemma rbind_Inl_iff: "rbind r f = Inl e \<longleftrightarrow> r = Inl e \<or> (\<exists>a. r = Inr a \<and> f a = Inl e)"
  by (cases r) auto

lemma rbind_assoc: "rbind (rbind r f) g = rbind r (\<lambda>a. rbind (f a) g)"
  by (cases r) auto

lemma rbind_cong [fundef_cong]:
  "r = r' \<Longrightarrow> (\<And>a. r' = Inr a \<Longrightarrow> f a = g a) \<Longrightarrow> rbind r f = rbind r' g"
  by (cases r') auto

definition ok_or :: "'e \<Rightarrow> 'a option \<Rightarrow> 'e + 'a" where
  "ok_or e x = (case x of None \<Rightarrow> Inl e | Some a \<Rightarrow> Inr a)"

lemma ok_or_simps [simp]: "ok_or e None = Inl e" "ok_or e (Some a) = Inr a"
  by (simp_all add: ok_or_def)

section \<open>Ordered maps\<close>

text \<open>
  A \<open>BTreeMap\<close> is the list of its entries in key order, so that iterating over it is the
  list itself and \<open>map_of\<close> is its \<open>get\<close>. \<open>bt_insert\<close> is \<open>insert\<close>, \<open>bt_retain\<close> is \<open>retain\<close>
  on the key, \<open>bt_modify\<close> is a write through \<open>get_mut\<close>, \<open>bt_map\<close> a loop over \<open>values_mut\<close>.
\<close>

definition bt_wf :: "('k::linorder \<times> 'v) list \<Rightarrow> bool" where
  "bt_wf m \<longleftrightarrow> sorted_wrt (<) (map fst m)"

fun bt_insert :: "'k::linorder \<Rightarrow> 'v \<Rightarrow> ('k \<times> 'v) list \<Rightarrow> ('k \<times> 'v) list" where
  "bt_insert k v [] = [(k, v)]"
| "bt_insert k v ((k', v') # m) =
     (if k < k' then (k, v) # (k', v') # m
      else if k = k' then (k, v) # m
      else (k', v') # bt_insert k v m)"

definition bt_retain :: "('k \<Rightarrow> bool) \<Rightarrow> ('k \<times> 'v) list \<Rightarrow> ('k \<times> 'v) list" where
  "bt_retain p m = filter (\<lambda>(k, v). p k) m"

definition bt_map :: "('v \<Rightarrow> 'w) \<Rightarrow> ('k \<times> 'v) list \<Rightarrow> ('k \<times> 'w) list" where
  "bt_map f m = map (\<lambda>(k, v). (k, f v)) m"

definition bt_modify :: "'k \<Rightarrow> ('v \<Rightarrow> 'v) \<Rightarrow> ('k \<times> 'v) list \<Rightarrow> ('k \<times> 'v) list" where
  "bt_modify k f m = map (\<lambda>(k', v). (k', if k' = k then f v else v)) m"

lemma map_of_bt_insert [bt_simps]: "map_of (bt_insert k v m) = (map_of m)(k \<mapsto> v)"
  by (induction k v m rule: bt_insert.induct) (auto simp: fun_eq_iff)

lemma set_fst_bt_insert: "fst ` set (bt_insert k v m) = insert k (fst ` set m)"
  by (induction k v m rule: bt_insert.induct) auto

lemma bt_wf_insert: "bt_wf m \<Longrightarrow> bt_wf (bt_insert k v m)"
proof (induction k v m rule: bt_insert.induct)
  case (1 k v)
  then show ?case by (simp add: bt_wf_def)
next
  case (2 k v k' v' m)
  have rest: "bt_wf m" and above: "\<forall>x \<in> fst ` set m. k' < x"
    using "2.prems" by (auto simp: bt_wf_def)
  show ?case
  proof (cases "k < k' \<or> k = k'")
    case True
    then show ?thesis using "2.prems" by (auto simp: bt_wf_def)
  next
    case False
    then have "bt_wf (bt_insert k v m)" using "2.IH" rest by auto
    moreover have "\<forall>x \<in> fst ` set (bt_insert k v m). k' < x"
      using above False by (auto simp: set_fst_bt_insert)
    ultimately show ?thesis using False by (auto simp: bt_wf_def)
  qed
qed

lemma bt_wf_distinct: "bt_wf m \<Longrightarrow> distinct (map fst m)"
  by (induction m) (auto simp: bt_wf_def)

lemma bt_wf_retain: "bt_wf m \<Longrightarrow> bt_wf (bt_retain p m)"
  by (induction m) (auto simp: bt_wf_def bt_retain_def)

lemma map_fst_bt_map [simp]: "map fst (bt_map f m) = map fst m"
  by (simp add: bt_map_def comp_def case_prod_beta)

lemma map_fst_bt_modify [simp]: "map fst (bt_modify k f m) = map fst m"
  by (simp add: bt_modify_def comp_def case_prod_beta)

lemma bt_wf_map [simp]: "bt_wf (bt_map f m) = bt_wf m"
  by (simp add: bt_wf_def)

lemma bt_wf_modify [simp]: "bt_wf (bt_modify k f m) = bt_wf m"
  by (simp add: bt_wf_def)

lemma map_of_bt_map [bt_simps]: "map_of (bt_map f m) k = map_option f (map_of m k)"
  by (induction m) (auto simp: bt_map_def)

lemma map_of_bt_modify [bt_simps]:
  "map_of (bt_modify k f m) k' = (if k' = k then map_option f (map_of m k) else map_of m k')"
  by (induction m) (auto simp: bt_modify_def)

lemma map_of_bt_retain [bt_simps]:
  "map_of (bt_retain p m) k = (if p k then map_of m k else None)"
  by (induction m) (auto simp: bt_retain_def)

lemma snd_set_bt_map: "snd ` set (bt_map f m) = f ` snd ` set m"
  by (force simp: bt_map_def)

lemma map_of_SomeD_snd: "map_of m k = Some v \<Longrightarrow> v \<in> snd ` set m"
  by (force dest: map_of_SomeD)

section \<open>Lists\<close>

text \<open>A loop that returns the first result it finds.\<close>

fun first_some :: "('a \<Rightarrow> 'b option) \<Rightarrow> 'a list \<Rightarrow> 'b option" where
  "first_some f [] = None"
| "first_some f (x # xs) = (case f x of Some y \<Rightarrow> Some y | None \<Rightarrow> first_some f xs)"

lemma find_Some_in: "List.find p xs = Some x \<Longrightarrow> x \<in> set xs \<and> p x"
  by (induction xs) (auto split: if_splits)

lemma find_cong_set:
  "xs = ys \<Longrightarrow> (\<And>x. x \<in> set ys \<Longrightarrow> p x = q x) \<Longrightarrow> List.find p xs = List.find q ys"
  by (induction ys arbitrary: xs) auto

end
