(* ===== verification/FloatBits.thy ===== *)
theory FloatBits
  imports Prelude
begin

text \<open>
  The IEEE-754 arithmetic of Rust's \<open>f32\<close> and \<open>f64\<close>, on bit patterns. A pattern decodes to a
  NaN, an infinity or a finite value \<open>\<plusminus>m * 2^e\<close>; an operation computes the exact rational result
  and rounds it once, to nearest with ties to even. A NaN result is the canonical quiet NaN: the
  language leaves its payload open. \<open>mb\<close> is the number of stored mantissa bits and \<open>eb\<close> of
  exponent bits: (23, 8) for \<open>f32\<close>, (52, 11) for \<open>f64\<close>.
\<close>

datatype fl = FNaN | FInf bool | FFin bool int int

section \<open>Decoding and encoding\<close>

definition fl_decode :: "nat \<Rightarrow> nat \<Rightarrow> int \<Rightarrow> fl" where
  "fl_decode mb eb w =
     (let s = odd (w div 2 ^ (mb + eb)); e = (w div 2 ^ mb) mod 2 ^ eb; m = w mod 2 ^ mb;
          bias = 2 ^ (eb - 1) - 1
      in if e = 2 ^ eb - 1 then (if m = 0 then FInf s else FNaN)
         else if e = 0 then FFin s m (1 - bias - int mb)
         else FFin s (m + 2 ^ mb) (e - bias - int mb))"

definition fl_nan :: "nat \<Rightarrow> nat \<Rightarrow> int" where
  "fl_nan mb eb = (2 ^ eb - 1) * 2 ^ mb + 2 ^ (mb - 1)"

definition fl_inf :: "nat \<Rightarrow> nat \<Rightarrow> bool \<Rightarrow> int" where
  "fl_inf mb eb s = (if s then 2 ^ (mb + eb) else 0) + (2 ^ eb - 1) * 2 ^ mb"

function bit_length :: "int \<Rightarrow> int" where
  "bit_length n = (if n \<le> 0 then 0 else 1 + bit_length (n div 2))"
  by pat_completeness auto
termination
  by (relation "measure nat") auto

declare bit_length.simps [simp del]

definition shift_ge :: "int \<Rightarrow> int \<Rightarrow> int \<Rightarrow> bool" where
  "shift_ge n d k = (if 0 \<le> k then d * 2 ^ nat k \<le> n else d \<le> n * 2 ^ nat (- k))"

text \<open>\<open>\<lfloor>log2 (n / d)\<rfloor>\<close> for positive \<open>n\<close> and \<open>d\<close>.\<close>

definition floor_log2 :: "int \<Rightarrow> int \<Rightarrow> int" where
  "floor_log2 n d =
     (let k = bit_length n - bit_length d in if shift_ge n d k then k else k - 1)"

text \<open>The rational \<open>\<plusminus>n / d\<close> rounded to the format.\<close>

definition fl_round :: "nat \<Rightarrow> nat \<Rightarrow> bool \<Rightarrow> int \<Rightarrow> int \<Rightarrow> int" where
  "fl_round mb eb s n d =
     (let sign = (if s then 2 ^ (mb + eb) else 0); bias = 2 ^ (eb - 1) - 1;
          emin = 1 - bias - int mb
      in if n = 0 then sign
         else
           let e = max emin (floor_log2 n d - int mb);
               num = (if 0 \<le> e then n else n * 2 ^ nat (- e));
               den = (if 0 \<le> e then d * 2 ^ nat e else d);
               q = num div den; r = num mod den;
               m = (if den < 2 * r \<or> (den = 2 * r \<and> odd q) then q + 1 else q);
               e' = (if m = 2 ^ (mb + 1) then e + 1 else e);
               m' = (if m = 2 ^ (mb + 1) then 2 ^ mb else m)
           in if m' < 2 ^ mb then sign + m'
              else let be = e' + bias + int mb
                   in if 2 ^ eb - 1 \<le> be then fl_inf mb eb s
                      else sign + be * 2 ^ mb + (m' - 2 ^ mb))"

section \<open>Arithmetic\<close>

text \<open>The signed numerator of a finite value over the denominator \<open>2 ^ nat (- e0)\<close>, \<open>e0 \<le> e\<close>.\<close>

definition fl_num :: "bool \<Rightarrow> int \<Rightarrow> int \<Rightarrow> int \<Rightarrow> int" where
  "fl_num s m e e0 = (if s then - 1 else 1) * m * 2 ^ nat (e - e0)"

definition pow2_den :: "int \<Rightarrow> int" where
  "pow2_den e = (if 0 \<le> e then 1 else 2 ^ nat (- e))"

definition pow2_num :: "int \<Rightarrow> int" where
  "pow2_num e = (if 0 \<le> e then 2 ^ nat e else 1)"

definition fl_round_int :: "nat \<Rightarrow> nat \<Rightarrow> bool \<Rightarrow> int \<Rightarrow> int \<Rightarrow> int" where
  "fl_round_int mb eb zero_sign n d =
     fl_round mb eb (if n = 0 then zero_sign else n < 0) \<bar>n\<bar> d"

fun fl_add :: "nat \<Rightarrow> nat \<Rightarrow> fl \<Rightarrow> fl \<Rightarrow> int" where
  "fl_add mb eb FNaN _ = fl_nan mb eb"
| "fl_add mb eb _ FNaN = fl_nan mb eb"
| "fl_add mb eb (FInf s) (FInf t) = (if s = t then fl_inf mb eb s else fl_nan mb eb)"
| "fl_add mb eb (FInf s) _ = fl_inf mb eb s"
| "fl_add mb eb _ (FInf t) = fl_inf mb eb t"
| "fl_add mb eb (FFin s m e) (FFin t n f) =
     (let e0 = min 0 (min e f)
      in fl_round_int mb eb (s \<and> t) (fl_num s m e e0 + fl_num t n f e0) (pow2_den e0))"

fun fl_neg :: "fl \<Rightarrow> fl" where
  "fl_neg FNaN = FNaN"
| "fl_neg (FInf s) = FInf (\<not> s)"
| "fl_neg (FFin s m e) = FFin (\<not> s) m e"

definition fl_sub :: "nat \<Rightarrow> nat \<Rightarrow> fl \<Rightarrow> fl \<Rightarrow> int" where
  "fl_sub mb eb x y = fl_add mb eb x (fl_neg y)"

fun fl_mul :: "nat \<Rightarrow> nat \<Rightarrow> fl \<Rightarrow> fl \<Rightarrow> int" where
  "fl_mul mb eb FNaN _ = fl_nan mb eb"
| "fl_mul mb eb _ FNaN = fl_nan mb eb"
| "fl_mul mb eb (FInf s) (FInf t) = fl_inf mb eb (s \<noteq> t)"
| "fl_mul mb eb (FInf s) (FFin t n f) =
     (if n = 0 then fl_nan mb eb else fl_inf mb eb (s \<noteq> t))"
| "fl_mul mb eb (FFin s m e) (FInf t) =
     (if m = 0 then fl_nan mb eb else fl_inf mb eb (s \<noteq> t))"
| "fl_mul mb eb (FFin s m e) (FFin t n f) =
     fl_round mb eb (s \<noteq> t) (m * n * pow2_num (e + f)) (pow2_den (e + f))"

fun fl_div :: "nat \<Rightarrow> nat \<Rightarrow> fl \<Rightarrow> fl \<Rightarrow> int" where
  "fl_div mb eb FNaN _ = fl_nan mb eb"
| "fl_div mb eb _ FNaN = fl_nan mb eb"
| "fl_div mb eb (FInf s) (FInf t) = fl_nan mb eb"
| "fl_div mb eb (FInf s) (FFin t n f) = fl_inf mb eb (s \<noteq> t)"
| "fl_div mb eb (FFin s m e) (FInf t) = fl_round mb eb (s \<noteq> t) 0 1"
| "fl_div mb eb (FFin s m e) (FFin t n f) =
     (if n = 0 then (if m = 0 then fl_nan mb eb else fl_inf mb eb (s \<noteq> t))
      else fl_round mb eb (s \<noteq> t) (m * pow2_num (e - f)) (n * pow2_den (e - f)))"

text \<open>\<open>x.trunc()\<close>, \<open>x.floor()\<close> and \<open>x.ceil()\<close> as exact integers, and \<open>x % y\<close> of two floats.\<close>

definition fl_trunc_int :: "bool \<Rightarrow> int \<Rightarrow> int \<Rightarrow> int" where
  "fl_trunc_int s m e = (if s then - 1 else 1) * (m * pow2_num e div pow2_den e)"

fun fl_trunc :: "nat \<Rightarrow> nat \<Rightarrow> fl \<Rightarrow> int" where
  "fl_trunc mb eb FNaN = fl_nan mb eb"
| "fl_trunc mb eb (FInf s) = fl_inf mb eb s"
| "fl_trunc mb eb (FFin s m e) = fl_round_int mb eb s (fl_trunc_int s m e) 1"

fun fl_fmod :: "nat \<Rightarrow> nat \<Rightarrow> fl \<Rightarrow> fl \<Rightarrow> int" where
  "fl_fmod mb eb FNaN _ = fl_nan mb eb"
| "fl_fmod mb eb _ FNaN = fl_nan mb eb"
| "fl_fmod mb eb (FInf s) _ = fl_nan mb eb"
| "fl_fmod mb eb (FFin s m e) (FInf t) = fl_round mb eb s (m * pow2_num e) (pow2_den e)"
| "fl_fmod mb eb (FFin s m e) (FFin t n f) =
     (if n = 0 then fl_nan mb eb
      else let e0 = min 0 (min e f)
           in fl_round mb eb s (fl_num False m e e0 mod fl_num False n f e0)
                (pow2_den e0))"

text \<open>\<open>x.mul_add(y, z)\<close>: the exact \<open>x * y + z\<close>, rounded once.\<close>

definition fl_prod :: "fl \<Rightarrow> fl \<Rightarrow> fl" where
  "fl_prod x y =
     (case (x, y) of
        (FNaN, _) \<Rightarrow> FNaN
      | (_, FNaN) \<Rightarrow> FNaN
      | (FInf s, FInf t) \<Rightarrow> FInf (s \<noteq> t)
      | (FInf s, FFin t n f) \<Rightarrow> if n = 0 then FNaN else FInf (s \<noteq> t)
      | (FFin s m e, FInf t) \<Rightarrow> if m = 0 then FNaN else FInf (s \<noteq> t)
      | (FFin s m e, FFin t n f) \<Rightarrow> FFin (s \<noteq> t) (m * n) (e + f))"

definition fl_fma :: "nat \<Rightarrow> nat \<Rightarrow> fl \<Rightarrow> fl \<Rightarrow> fl \<Rightarrow> int" where
  "fl_fma mb eb x y z = fl_add mb eb (fl_prod x y) z"

text \<open>
  The square root: the integer root of the mantissa scaled to an even exponent and to \<open>mb + 3\<close>
  or more bits of root; half a unit stands for the part an inexact root leaves out.
\<close>

function isqrt :: "int \<Rightarrow> int" where
  "isqrt n =
     (if n \<le> 0 then 0
      else let r = 2 * isqrt (n div 4) in if (r + 1) * (r + 1) \<le> n then r + 1 else r)"
  by pat_completeness auto
termination
  by (relation "measure nat") auto

declare isqrt.simps [simp del]

fun fl_sqrt :: "nat \<Rightarrow> nat \<Rightarrow> fl \<Rightarrow> int" where
  "fl_sqrt mb eb FNaN = fl_nan mb eb"
| "fl_sqrt mb eb (FInf s) = (if s then fl_nan mb eb else fl_inf mb eb False)"
| "fl_sqrt mb eb (FFin s m e) =
     (if m = 0 then fl_round mb eb s 0 1
      else if s then fl_nan mb eb
      else let k = 2 * int mb + 6 + e mod 2; M = m * 2 ^ nat k; r = isqrt M; h = (e - k) div 2
           in fl_round mb eb False
                ((if r * r = M then 2 * r else 2 * r + 1) * pow2_num (h - 1)) (pow2_den (h - 1)))"

fun fl_floor :: "nat \<Rightarrow> nat \<Rightarrow> fl \<Rightarrow> int" where
  "fl_floor mb eb FNaN = fl_nan mb eb"
| "fl_floor mb eb (FInf s) = fl_inf mb eb s"
| "fl_floor mb eb (FFin s m e) =
     fl_round_int mb eb s ((if s then - 1 else 1) * m * pow2_num e div pow2_den e) 1"

fun fl_ceil :: "nat \<Rightarrow> nat \<Rightarrow> fl \<Rightarrow> int" where
  "fl_ceil mb eb FNaN = fl_nan mb eb"
| "fl_ceil mb eb (FInf s) = fl_inf mb eb s"
| "fl_ceil mb eb (FFin s m e) =
     fl_round_int mb eb s (- ((if s then 1 else - 1) * m * pow2_num e div pow2_den e)) 1"

lemma isqrt_bounds: "0 \<le> n \<Longrightarrow> 0 \<le> isqrt n \<and> isqrt n * isqrt n \<le> n \<and> n < (isqrt n + 1) * (isqrt n + 1)"
proof (induction n rule: isqrt.induct)
  case (1 n)
  show ?case
  proof (cases "n \<le> 0")
    case True
    then show ?thesis using "1.prems" by (simp add: isqrt.simps)
  next
    case False
    let ?q = "isqrt (n div 4)"
    have IH: "0 \<le> ?q" "?q * ?q \<le> n div 4" "n div 4 < (?q + 1) * (?q + 1)"
      using "1.IH" False by auto
    have lo: "4 * (?q * ?q) \<le> n" using IH(2) by linarith
    have "n div 4 + 1 \<le> (?q + 1) * (?q + 1)" using IH(3) by linarith
    then have hi: "n < 4 * ((?q + 1) * (?q + 1))" by linarith
    have r: "isqrt n = (if (2 * ?q + 1) * (2 * ?q + 1) \<le> n then 2 * ?q + 1 else 2 * ?q)"
      using False by (subst isqrt.simps) (simp add: Let_def)
    show ?thesis
      using IH(1) lo hi by (auto simp: r algebra_simps)
  qed
qed

section \<open>Comparison\<close>

fun fl_eq :: "fl \<Rightarrow> fl \<Rightarrow> bool" where
  "fl_eq FNaN _ = False"
| "fl_eq _ FNaN = False"
| "fl_eq (FInf s) (FInf t) = (s = t)"
| "fl_eq (FFin s m e) (FFin t n f) =
     (let e0 = min e f in fl_num s m e e0 = fl_num t n f e0)"
| "fl_eq _ _ = False"

fun fl_lt :: "fl \<Rightarrow> fl \<Rightarrow> bool" where
  "fl_lt FNaN _ = False"
| "fl_lt _ FNaN = False"
| "fl_lt (FInf s) (FInf t) = (s \<and> \<not> t)"
| "fl_lt (FInf s) (FFin t n f) = s"
| "fl_lt (FFin s m e) (FInf t) = (\<not> t)"
| "fl_lt (FFin s m e) (FFin t n f) =
     (let e0 = min e f in fl_num s m e e0 < fl_num t n f e0)"

definition fl_le :: "fl \<Rightarrow> fl \<Rightarrow> bool" where
  "fl_le x y = (fl_lt x y \<or> fl_eq x y)"

definition fl_is_nan :: "fl \<Rightarrow> bool" where
  "fl_is_nan x = (x = FNaN)"

lemma fl_eq_not_lt: "fl_eq x y \<Longrightarrow> \<not> fl_lt x y"
  by (cases "(x, y)" rule: fl_eq.cases) (auto simp: Let_def)

lemma fl_lt_asym: "fl_lt x y \<Longrightarrow> \<not> fl_lt y x"
  by (cases "(x, y)" rule: fl_lt.cases) (auto simp: Let_def min.commute)

lemma fl_trichotomy:
  "\<not> fl_is_nan x \<Longrightarrow> \<not> fl_is_nan y \<Longrightarrow> fl_lt x y \<or> fl_eq x y \<or> fl_lt y x"
  by (cases x; cases y) (auto simp: fl_is_nan_def Let_def min.commute)

section \<open>The two formats\<close>

definition f32_of :: "u32 \<Rightarrow> fl" where
  "f32_of w = fl_decode 23 8 (uint w)"

definition f64_of :: "u64 \<Rightarrow> fl" where
  "f64_of w = fl_decode 52 11 (uint w)"

definition f64_add :: "u64 \<Rightarrow> u64 \<Rightarrow> u64" where
  "f64_add a b = word_of_int (fl_add 52 11 (f64_of a) (f64_of b))"

definition f64_sub :: "u64 \<Rightarrow> u64 \<Rightarrow> u64" where
  "f64_sub a b = word_of_int (fl_sub 52 11 (f64_of a) (f64_of b))"

definition f64_mul :: "u64 \<Rightarrow> u64 \<Rightarrow> u64" where
  "f64_mul a b = word_of_int (fl_mul 52 11 (f64_of a) (f64_of b))"

definition f64_div :: "u64 \<Rightarrow> u64 \<Rightarrow> u64" where
  "f64_div a b = word_of_int (fl_div 52 11 (f64_of a) (f64_of b))"

definition f64_fmod :: "u64 \<Rightarrow> u64 \<Rightarrow> u64" where
  "f64_fmod a b = word_of_int (fl_fmod 52 11 (f64_of a) (f64_of b))"

definition f64_trunc :: "u64 \<Rightarrow> u64" where
  "f64_trunc a = word_of_int (fl_trunc 52 11 (f64_of a))"

definition f32_add :: "u32 \<Rightarrow> u32 \<Rightarrow> u32" where
  "f32_add a b = word_of_int (fl_add 23 8 (f32_of a) (f32_of b))"

definition f32_sub :: "u32 \<Rightarrow> u32 \<Rightarrow> u32" where
  "f32_sub a b = word_of_int (fl_sub 23 8 (f32_of a) (f32_of b))"

definition f32_mul :: "u32 \<Rightarrow> u32 \<Rightarrow> u32" where
  "f32_mul a b = word_of_int (fl_mul 23 8 (f32_of a) (f32_of b))"

definition f32_div :: "u32 \<Rightarrow> u32 \<Rightarrow> u32" where
  "f32_div a b = word_of_int (fl_div 23 8 (f32_of a) (f32_of b))"

definition f32_trunc :: "u32 \<Rightarrow> u32" where
  "f32_trunc a = word_of_int (fl_trunc 23 8 (f32_of a))"

definition f64_fma :: "u64 \<Rightarrow> u64 \<Rightarrow> u64 \<Rightarrow> u64" where
  "f64_fma a b c = word_of_int (fl_fma 52 11 (f64_of a) (f64_of b) (f64_of c))"

definition f32_fma :: "u32 \<Rightarrow> u32 \<Rightarrow> u32 \<Rightarrow> u32" where
  "f32_fma a b c = word_of_int (fl_fma 23 8 (f32_of a) (f32_of b) (f32_of c))"

definition f64_sqrt :: "u64 \<Rightarrow> u64" where
  "f64_sqrt a = word_of_int (fl_sqrt 52 11 (f64_of a))"

definition f32_sqrt :: "u32 \<Rightarrow> u32" where
  "f32_sqrt a = word_of_int (fl_sqrt 23 8 (f32_of a))"

definition f64_floor :: "u64 \<Rightarrow> u64" where
  "f64_floor a = word_of_int (fl_floor 52 11 (f64_of a))"

definition f32_floor :: "u32 \<Rightarrow> u32" where
  "f32_floor a = word_of_int (fl_floor 23 8 (f32_of a))"

definition f64_ceil :: "u64 \<Rightarrow> u64" where
  "f64_ceil a = word_of_int (fl_ceil 52 11 (f64_of a))"

definition f32_ceil :: "u32 \<Rightarrow> u32" where
  "f32_ceil a = word_of_int (fl_ceil 23 8 (f32_of a))"

text \<open>Negation and absolute value act on the sign bit alone.\<close>

definition f64_neg :: "u64 \<Rightarrow> u64" where
  "f64_neg a = a XOR 0x8000000000000000"

definition f32_neg :: "u32 \<Rightarrow> u32" where
  "f32_neg a = a XOR 0x80000000"

definition f64_abs :: "u64 \<Rightarrow> u64" where
  "f64_abs a = a AND 0x7FFFFFFFFFFFFFFF"

definition f32_abs :: "u32 \<Rightarrow> u32" where
  "f32_abs a = a AND 0x7FFFFFFF"

text \<open>Conversions between the formats and from integers.\<close>

fun fl_convert :: "nat \<Rightarrow> nat \<Rightarrow> fl \<Rightarrow> int" where
  "fl_convert mb eb FNaN = fl_nan mb eb"
| "fl_convert mb eb (FInf s) = fl_inf mb eb s"
| "fl_convert mb eb (FFin s m e) = fl_round mb eb s (m * pow2_num e) (pow2_den e)"

definition f64_of_f32 :: "u32 \<Rightarrow> u64" where
  "f64_of_f32 w = word_of_int (fl_convert 52 11 (f32_of w))"

definition f32_of_f64 :: "u64 \<Rightarrow> u32" where
  "f32_of_f64 w = word_of_int (fl_convert 23 8 (f64_of w))"

definition f64_of_int :: "int \<Rightarrow> u64" where
  "f64_of_int i = word_of_int (fl_round_int 52 11 False i 1)"

text \<open>
  \<open>v as iN\<close>: the truncated value clamped to the range \<open>lo..hi\<close>, and 0 for NaN.
\<close>

fun fl_as_int :: "int \<Rightarrow> int \<Rightarrow> fl \<Rightarrow> int" where
  "fl_as_int lo hi FNaN = 0"
| "fl_as_int lo hi (FInf s) = (if s then lo else hi)"
| "fl_as_int lo hi (FFin s m e) = max lo (min hi (fl_trunc_int s m e))"

lemma fl_as_int_range: "lo \<le> 0 \<Longrightarrow> 0 \<le> hi \<Longrightarrow> lo \<le> fl_as_int lo hi x \<and> fl_as_int lo hi x \<le> hi"
  by (cases x) auto

end
