(* ===== verification/MirTypes.thy ===== *)
theory MirTypes
  imports FloatBits
begin

text \<open>
  The types and constants of MIR (\<open>compiler/src/ir/types.rs\<close>) and the machine types the
  interpreter gives them (\<open>Mt\<close> and the register helpers of
  \<open>codegen/mir_interpreter/decode.rs\<close>). \<open>usize\<close> is 64 bits wide. Register, block, function
  and global ids are \<open>u32\<close> newtypes of the source that are only compared and counted up; they
  are natural numbers here.
\<close>

type_synonym IrId = nat
type_synonym IrBlockId = nat
type_synonym IrFunctionId = nat
type_synonym IrGlobalId = nat

section \<open>MIR types\<close>

datatype IrType =
    TyVoid
  | TyBool
  | TyI8 | TyI16 | TyI32 | TyI64
  | TyU8 | TyU16 | TyU32 | TyU64
  | TyF32 | TyF64
  | TyDynamic
  | TyPtr IrType
  | TyRef IrType
  | TyArray IrType nat
  | TySlice IrType
  | TyVector IrType nat
  | TyString
  | TyFunction "IrType list" IrType bool
  | TyStruct string "StructField list"
  | TyUnion string "UnionVariant list"
  | TyOpaque string nat nat
  | TyTypeVar string
  | TyGeneric IrType "IrType list"
  | TyAny
  | TyNullInt
and StructField = StructField (sf_name: string) (sf_ty: IrType) (sf_offset: nat)
and UnionVariant = UnionVariant (uv_name: string) (uv_tag: nat) (uv_fields: "IrType list")

text \<open>Sums and maxima over components, any of which may panic.\<close>

definition opt_sum :: "nat option list \<Rightarrow> nat option" where
  "opt_sum xs = (if None \<in> set xs then None else Some (sum_list (map the xs)))"

definition opt_max :: "nat \<Rightarrow> nat option list \<Rightarrow> nat option" where
  "opt_max z xs = (if None \<in> set xs then None
                   else Some (if xs = [] then z else Max (set (map the xs))))"

lemma opt_sum_simps [simp]:
  "opt_sum [] = Some 0"
  "opt_sum (x # xs) = (case x of None \<Rightarrow> None | Some n \<Rightarrow> map_option ((+) n) (opt_sum xs))"
  by (auto simp: opt_sum_def split: option.splits)

text \<open>
  \<open>IrType::size\<close>: \<open>None\<close> is its panic on a generic type that reaches it before
  monomorphization.
\<close>

fun ir_size :: "IrType \<Rightarrow> nat option"
  and field_ir_size :: "StructField \<Rightarrow> nat option"
  and variant_ir_size :: "UnionVariant \<Rightarrow> nat option" where
  "ir_size TyVoid = Some 0"
| "ir_size TyBool = Some 1"
| "ir_size TyI8 = Some 1"
| "ir_size TyU8 = Some 1"
| "ir_size TyI16 = Some 2"
| "ir_size TyU16 = Some 2"
| "ir_size TyI32 = Some 4"
| "ir_size TyU32 = Some 4"
| "ir_size TyF32 = Some 4"
| "ir_size TyI64 = Some 8"
| "ir_size TyU64 = Some 8"
| "ir_size TyF64 = Some 8"
| "ir_size TyNullInt = Some 8"
| "ir_size TyDynamic = Some 8"
| "ir_size (TyPtr t) = Some 8"
| "ir_size (TyRef t) = Some 8"
| "ir_size (TyArray t n) = map_option (\<lambda>s. s * n) (ir_size t)"
| "ir_size (TySlice t) = Some 16"
| "ir_size TyString = Some 24"
| "ir_size (TyFunction ps r v) = Some 8"
| "ir_size (TyStruct n fs) = opt_sum (map field_ir_size fs)"
| "ir_size (TyUnion n vs) = map_option (\<lambda>m. 4 + m) (opt_max 0 (map variant_ir_size vs))"
| "ir_size (TyOpaque n s a) = Some s"
| "ir_size (TyVector t n) = map_option (\<lambda>s. s * n) (ir_size t)"
| "ir_size (TyTypeVar v) = Some 8"
| "ir_size (TyGeneric b ts) = None"
| "ir_size TyAny = Some 16"
| "field_ir_size (StructField n t off) = ir_size t"
| "variant_ir_size (UnionVariant n tag ts) = opt_sum (map ir_size ts)"

text \<open>\<open>IrType::align\<close>; a vector aligns to its size or to its element, whichever is larger.\<close>

fun ir_align :: "IrType \<Rightarrow> nat option"
  and field_ir_align :: "StructField \<Rightarrow> nat option" where
  "ir_align TyVoid = Some 1"
| "ir_align TyBool = Some 1"
| "ir_align TyI8 = Some 1"
| "ir_align TyU8 = Some 1"
| "ir_align TyI16 = Some 2"
| "ir_align TyU16 = Some 2"
| "ir_align TyI32 = Some 4"
| "ir_align TyU32 = Some 4"
| "ir_align TyF32 = Some 4"
| "ir_align TyI64 = Some 8"
| "ir_align TyU64 = Some 8"
| "ir_align TyF64 = Some 8"
| "ir_align TyNullInt = Some 8"
| "ir_align TyDynamic = Some 8"
| "ir_align (TyPtr t) = Some 8"
| "ir_align (TyRef t) = Some 8"
| "ir_align (TyArray t n) = ir_align t"
| "ir_align (TySlice t) = Some 8"
| "ir_align TyString = Some 8"
| "ir_align TyAny = Some 8"
| "ir_align (TyFunction ps r v) = Some 8"
| "ir_align (TyStruct n fs) = opt_max 1 (map field_ir_align fs)"
| "ir_align (TyUnion n vs) = Some 4"
| "ir_align (TyOpaque n s a) = Some a"
| "ir_align (TyVector t n) =
     (case ir_size t of None \<Rightarrow> None
      | Some s \<Rightarrow> map_option (\<lambda>a. max (s * n) a) (ir_align t))"
| "ir_align (TyTypeVar v) = Some 8"
| "ir_align (TyGeneric b ts) = None"
| "field_ir_align (StructField n t off) = ir_align t"

section \<open>Type predicates\<close>

definition is_primitive :: "IrType \<Rightarrow> bool" where
  "is_primitive t = (t \<in> {TyVoid, TyBool, TyI8, TyI16, TyI32, TyI64, TyU8, TyU16, TyU32, TyU64,
                          TyF32, TyF64, TyNullInt})"

fun is_pointer :: "IrType \<Rightarrow> bool" where
  "is_pointer (TyPtr _) = True"
| "is_pointer (TyRef _) = True"
| "is_pointer _ = False"

definition is_integer :: "IrType \<Rightarrow> bool" where
  "is_integer t = (t \<in> {TyI8, TyI16, TyI32, TyI64, TyU8, TyU16, TyU32, TyU64})"

definition is_float :: "IrType \<Rightarrow> bool" where
  "is_float t = (t \<in> {TyF32, TyF64})"

definition is_signed_integer :: "IrType \<Rightarrow> bool" where
  "is_signed_integer t = (t \<in> {TyI8, TyI16, TyI32, TyI64})"

fun is_vector :: "IrType \<Rightarrow> bool" where
  "is_vector (TyVector _ _) = True"
| "is_vector _ = False"

fun vector_element :: "IrType \<Rightarrow> IrType option" where
  "vector_element (TyVector t n) = Some t"
| "vector_element _ = None"

fun vector_count :: "IrType \<Rightarrow> nat option" where
  "vector_count (TyVector t n) = Some n"
| "vector_count _ = None"

definition is_vectorizable :: "IrType \<Rightarrow> bool" where
  "is_vectorizable t =
     (t \<in> {TyI8, TyI16, TyI32, TyI64, TyU8, TyU16, TyU32, TyU64, TyF32, TyF64})"

lemmas type_predicates =
  is_primitive_def is_integer_def is_float_def is_signed_integer_def is_vectorizable_def

section \<open>Constants\<close>

text \<open>Float constants are kept as their bits.\<close>

datatype IrValue =
    VVoid
  | VUndef
  | VNull
  | VBool bool
  | VI8 u8 | VI16 u16 | VI32 u32 | VI64 u64
  | VU8 u8 | VU16 u16 | VU32 u32 | VU64 u64
  | VF32 u32 | VF64 u64
  | VString string
  | VArray "IrValue list"
  | VStruct "IrValue list"
  | VFunction IrFunctionId
  | VClosure IrFunctionId IrValue

definition NULL_INT :: u64 where
  "NULL_INT = push_bit 32 1"

fun default_value :: "IrType \<Rightarrow> IrValue" where
  "default_value TyVoid = VVoid"
| "default_value TyBool = VBool False"
| "default_value TyI8 = VI8 0"
| "default_value TyI16 = VI16 0"
| "default_value TyI32 = VI32 0"
| "default_value TyI64 = VI64 0"
| "default_value TyNullInt = VI64 NULL_INT"
| "default_value TyU8 = VU8 0"
| "default_value TyU16 = VU16 0"
| "default_value TyU32 = VU32 0"
| "default_value TyU64 = VU64 0"
| "default_value TyF32 = VF32 0"
| "default_value TyF64 = VF64 0"
| "default_value (TyPtr t) = VNull"
| "default_value (TyRef t) = VNull"
| "default_value TyString = VString []"
| "default_value _ = VUndef"

section \<open>Machine types\<close>

datatype Mt = MtI8 | MtI16 | MtI32 | MtI64 | MtF32 | MtF64 | MtV128

fun mt_of_ty :: "IrType \<Rightarrow> Mt option" where
  "mt_of_ty TyVoid = None"
| "mt_of_ty TyI8 = Some MtI8"
| "mt_of_ty TyU8 = Some MtI8"
| "mt_of_ty TyBool = Some MtI8"
| "mt_of_ty TyI16 = Some MtI16"
| "mt_of_ty TyU16 = Some MtI16"
| "mt_of_ty TyI32 = Some MtI32"
| "mt_of_ty TyU32 = Some MtI32"
| "mt_of_ty TyF32 = Some MtF32"
| "mt_of_ty TyF64 = Some MtF64"
| "mt_of_ty (TyVector t n) = Some MtV128"
| "mt_of_ty _ = Some MtI64"

text \<open>\<open>Mt::phi\<close>: a phi's block parameter type, which maps fewer types than \<open>Mt::of\<close>.\<close>

fun mt_phi :: "IrType \<Rightarrow> Mt" where
  "mt_phi TyI8 = MtI8"
| "mt_phi TyBool = MtI8"
| "mt_phi TyI16 = MtI16"
| "mt_phi TyI32 = MtI32"
| "mt_phi TyF32 = MtF32"
| "mt_phi TyF64 = MtF64"
| "mt_phi (TyVector t n) = MtV128"
| "mt_phi _ = MtI64"

fun mt_bits :: "Mt \<Rightarrow> nat" where
  "mt_bits MtI8 = 8"
| "mt_bits MtI16 = 16"
| "mt_bits MtI32 = 32"
| "mt_bits MtF32 = 32"
| "mt_bits MtI64 = 64"
| "mt_bits MtF64 = 64"
| "mt_bits MtV128 = 128"

definition mt_bytes :: "Mt \<Rightarrow> nat" where
  "mt_bytes m = mt_bits m div 8"

definition mt_is_int :: "Mt \<Rightarrow> bool" where
  "mt_is_int m = (m \<in> {MtI8, MtI16, MtI32, MtI64})"

definition mt_is_float :: "Mt \<Rightarrow> bool" where
  "mt_is_float m = (m \<in> {MtF32, MtF64})"

text \<open>The low bits of a register, zero-extended, and their sign extension.\<close>

fun canon :: "u64 \<Rightarrow> Mt \<Rightarrow> u64" where
  "canon b MtI8 = b AND 0xff"
| "canon b MtI16 = b AND 0xffff"
| "canon b MtI32 = b AND 0xffffffff"
| "canon b MtF32 = b AND 0xffffffff"
| "canon b _ = b"

fun sext :: "u64 \<Rightarrow> Mt \<Rightarrow> u64" where
  "sext b MtI8 = scast (ucast b :: u8)"
| "sext b MtI16 = scast (ucast b :: u16)"
| "sext b MtI32 = scast (ucast b :: u32)"
| "sext b _ = b"

text \<open>A register read as a float, widened to \<open>f64\<close> bits, and a float written to a register.\<close>

definition mt_float :: "u64 \<Rightarrow> Mt \<Rightarrow> u64" where
  "mt_float b m = (if m = MtF32 then f64_of_f32 (ucast b) else b)"

definition mt_float_bits :: "u64 \<Rightarrow> Mt \<Rightarrow> u64" where
  "mt_float_bits v m = (if m = MtF32 then ucast (f32_of_f64 v) else v)"

section \<open>Facts\<close>

text \<open>Holding a register canonically is a projection: it truncates to the width of its type.\<close>

lemma canon_take_bit: "canon b m = take_bit (min 64 (mt_bits m)) b"
proof -
  have "take_bit 64 b = b"
    by (simp add: take_bit_word_eq_self)
  then show ?thesis
    by (cases m) (simp_all add: take_bit_eq_mask mask_eq_exp_minus_1)
qed

lemma canon_idem [simp]: "canon (canon b m) m = canon b m"
  by (simp add: canon_take_bit)

lemma canon_ucast8: "canon b MtI8 = ucast (ucast b :: u8)"
  by (rule bit_word_eqI) (simp add: canon_take_bit bit_simps del: canon.simps)

lemma canon_ucast16: "canon b MtI16 = ucast (ucast b :: u16)"
  by (rule bit_word_eqI) (simp add: canon_take_bit bit_simps del: canon.simps)

lemma canon_ucast32: "canon b MtI32 = ucast (ucast b :: u32)"
  by (rule bit_word_eqI) (simp add: canon_take_bit bit_simps del: canon.simps)

lemma signed_take_bit_63: "signed_take_bit 63 (b :: u64) = b"
proof (rule bit_word_eqI)
  fix n
  assume "n < LENGTH(64)"
  then have "n = 63 \<or> n < 63" by auto
  then show "bit (signed_take_bit 63 b) n = bit b n" by (auto simp: bit_simps)
qed

lemma sext_signed_take_bit: "mt_is_int m \<Longrightarrow> sext b m = signed_take_bit (mt_bits m - 1) b"
  by (cases m; (rule bit_word_eqI)?) (auto simp: bit_simps mt_is_int_def min_def signed_take_bit_63)

lemma canon_sext: "canon (sext b m) m = canon b m"
proof (cases "mt_is_int m")
  case True
  then show ?thesis
    by (cases m) (simp_all add: canon_take_bit sext_signed_take_bit take_bit_signed_take_bit
        del: canon.simps sext.simps)
next
  case False
  then show ?thesis by (cases m) (simp_all add: mt_is_int_def)
qed

lemma sext_canon: "mt_is_int m \<Longrightarrow> sext (canon b m) m = sext b m"
  by (cases m) (simp_all add: canon_take_bit sext_signed_take_bit signed_take_bit_take_bit
      mt_is_int_def del: canon.simps sext.simps)

end
