(* ===== verification/MirInstr.thy ===== *)
theory MirInstr
  imports MirTypes
begin

text \<open>
  MIR instructions (\<open>compiler/src/ir/instructions.rs\<close>): the instruction set, the registers an
  instruction defines and reads, its classification, and the rewriting of its operands that the
  optimization passes share (\<open>InstructionExt::replace_uses\<close> of \<open>ir/optimization.rs\<close>).
\<close>

section \<open>Operators\<close>

datatype BinaryOp =
    BAdd | BSub | BMul | BDiv | BRem
  | BAnd | BOr | BXor | BShl | BShr | BUshr
  | BFAdd | BFSub | BFMul | BFDiv | BFRem

datatype UnaryOp = UNeg | UNot | UFNeg

datatype CompareOp =
    CEq | CNe | CLt | CLe | CGt | CGe
  | CULt | CULe | CUGt | CUGe
  | CFEq | CFNe | CFLt | CFLe | CFGt | CFGe
  | CFOrd | CFUno

datatype VectorUnaryOpKind = VuSqrt | VuAbs | VuNeg | VuCeil | VuFloor | VuTrunc | VuRound

datatype VectorMinMaxKind = VmMin | VmMax

datatype VectorConvertKind = FpToSi | SiToFp

datatype AtomicRmwOp = RmwAdd | RmwSub | RmwAnd | RmwOr | RmwXor | RmwXchg

datatype OwnershipMode = OwnMove | OwnBorrowImmutable | OwnBorrowMutable | OwnCopy | OwnClone

datatype LandingPadClause = LpCatch IrType | LpFilter "IrType list"

datatype ArrayField = AfData | AfLen | AfFlags

fun byte_offset :: "ArrayField \<Rightarrow> int" where
  "byte_offset AfData = 0"
| "byte_offset AfLen = 8"
| "byte_offset AfFlags = 32"

fun array_field_type :: "ArrayField \<Rightarrow> IrType" where
  "array_field_type AfData = TyPtr TyU8"
| "array_field_type AfLen = TyI64"
| "array_field_type AfFlags = TyI64"

record IrSourceLocation =
  loc_file_id :: nat
  loc_line :: nat
  loc_column :: nat

record StructFieldRef =
  sfr_struct_name :: string
  sfr_field_name :: string
  sfr_field_index :: nat

type_synonym LifetimeId = nat

section \<open>Instructions\<close>

text \<open>
  One datatype per section of the source's enum; arguments are the fields of the variants, in
  their order. The abbreviations \<open>I...\<close> give every variant its flat name.
\<close>

datatype ValueInst =
    KConst IrId IrValue
  | KCopy IrId IrId
  | KSsaBarrier IrId IrId IrType
  | KMove IrId IrId
  | KMarkMoved IrId
  | KCheckLive IrId IrSourceLocation
  | KBorrowImmutable IrId IrId LifetimeId
  | KBorrowMutable IrId IrId LifetimeId
  | KClone IrId IrId
  | KEndBorrow IrId
  | KLoad IrId IrId IrType
  | KStore IrId IrId "IrType option"
  | KLoadGlobal IrId IrGlobalId IrType
  | KStoreGlobal IrGlobalId IrId
  | KBinOp IrId BinaryOp IrId IrId
  | KUnOp IrId UnaryOp IrId
  | KCmp IrId CompareOp IrId IrId

datatype ControlInst =
    KJump IrId
  | KBranch IrId IrId IrId
  | KSwitch IrId IrId "(IrValue \<times> IrId) list"
  | KCallDirect "IrId option" IrFunctionId "IrId list" "OwnershipMode list" "IrType list" bool
  | KCallIndirect "IrId option" IrId "IrId list" IrType "OwnershipMode list" bool
  | KReturn "IrId option"
  | KThrow IrId
  | KLandingPad IrId IrType "LandingPadClause list"
  | KResume IrId
  | KPhi IrId "(IrId \<times> IrId) list"
  | KPanic "string option"
  | KDebugLoc IrSourceLocation
  | KInlineAsm "IrId option" string "(string \<times> IrId) list" "(string \<times> IrType) list" "string list"

datatype MemoryInst =
    KAlloc IrId IrType "IrId option"
  | KFree IrId
  | KGetElementPtr IrId IrId "IrId list" IrType "StructFieldRef option"
  | KMemCopy IrId IrId IrId
  | KMemSet IrId IrId IrId
  | KCast IrId IrId IrType IrType
  | KBitCast IrId IrId IrType
  | KPtrAdd IrId IrId IrId IrType
  | KUndef IrId IrType
  | KFunctionRef IrId IrFunctionId
  | KArrayHeader IrId IrId ArrayField bool

datatype AggregateInst =
    KSelect IrId IrId IrId IrId
  | KExtractValue IrId IrId "nat list"
  | KInsertValue IrId IrId IrId "nat list"
  | KMakeClosure IrId IrFunctionId "IrId list"
  | KClosureFunc IrId IrId
  | KClosureEnv IrId IrId
  | KCreateUnion IrId nat IrId IrType
  | KExtractDiscriminant IrId IrId
  | KExtractUnionValue IrId IrId nat IrType
  | KCreateStruct IrId IrType "IrId list"

datatype VectorInst =
    KVectorLoad IrId IrId IrType
  | KVectorStore IrId IrId IrType
  | KVectorBinOp IrId BinaryOp IrId IrId IrType
  | KVectorSplat IrId IrId IrType
  | KVectorExtract IrId IrId nat IrType
  | KVectorInsert IrId IrId IrId nat IrType
  | KVectorReduce IrId BinaryOp IrId IrType
  | KVectorUnaryOp IrId VectorUnaryOpKind IrId IrType
  | KVectorMinMax IrId VectorMinMaxKind IrId IrId IrType
  | KVectorDot IrId IrId IrId IrId bool bool
  | KVectorShuffle IrId IrId IrId nat IrType
  | KVectorConvert IrId VectorConvertKind IrId IrType IrType
  | KVectorNarrow IrId IrId IrId IrType IrType

datatype AtomicInst =
    KAtomicLoad IrId IrId IrType
  | KAtomicStore IrId IrId IrType
  | KAtomicRmw IrId AtomicRmwOp IrId IrId IrType
  | KAtomicCas IrId IrId IrId IrId IrType

datatype IrInstruction =
    ValueI ValueInst
  | ControlI ControlInst
  | MemoryI MemoryInst
  | AggregateI AggregateInst
  | VectorI VectorInst
  | AtomicI AtomicInst

abbreviation "IConst a b \<equiv> ValueI (KConst a b)"
abbreviation "ICopy a b \<equiv> ValueI (KCopy a b)"
abbreviation "ISsaBarrier a b c \<equiv> ValueI (KSsaBarrier a b c)"
abbreviation "IMove a b \<equiv> ValueI (KMove a b)"
abbreviation "IMarkMoved a \<equiv> ValueI (KMarkMoved a)"
abbreviation "ICheckLive a b \<equiv> ValueI (KCheckLive a b)"
abbreviation "IBorrowImmutable a b c \<equiv> ValueI (KBorrowImmutable a b c)"
abbreviation "IBorrowMutable a b c \<equiv> ValueI (KBorrowMutable a b c)"
abbreviation "IClone a b \<equiv> ValueI (KClone a b)"
abbreviation "IEndBorrow a \<equiv> ValueI (KEndBorrow a)"
abbreviation "ILoad a b c \<equiv> ValueI (KLoad a b c)"
abbreviation "IStore a b c \<equiv> ValueI (KStore a b c)"
abbreviation "ILoadGlobal a b c \<equiv> ValueI (KLoadGlobal a b c)"
abbreviation "IStoreGlobal a b \<equiv> ValueI (KStoreGlobal a b)"
abbreviation "IBinOp a b c d \<equiv> ValueI (KBinOp a b c d)"
abbreviation "IUnOp a b c \<equiv> ValueI (KUnOp a b c)"
abbreviation "ICmp a b c d \<equiv> ValueI (KCmp a b c d)"
abbreviation "IJump a \<equiv> ControlI (KJump a)"
abbreviation "IBranch a b c \<equiv> ControlI (KBranch a b c)"
abbreviation "ISwitch a b c \<equiv> ControlI (KSwitch a b c)"
abbreviation "ICallDirect a b c d e f \<equiv> ControlI (KCallDirect a b c d e f)"
abbreviation "ICallIndirect a b c d e f \<equiv> ControlI (KCallIndirect a b c d e f)"
abbreviation "IReturn a \<equiv> ControlI (KReturn a)"
abbreviation "IThrow a \<equiv> ControlI (KThrow a)"
abbreviation "ILandingPad a b c \<equiv> ControlI (KLandingPad a b c)"
abbreviation "IResume a \<equiv> ControlI (KResume a)"
abbreviation "IPhi a b \<equiv> ControlI (KPhi a b)"
abbreviation "IPanic a \<equiv> ControlI (KPanic a)"
abbreviation "IDebugLoc a \<equiv> ControlI (KDebugLoc a)"
abbreviation "IInlineAsm a b c d e \<equiv> ControlI (KInlineAsm a b c d e)"
abbreviation "IAlloc a b c \<equiv> MemoryI (KAlloc a b c)"
abbreviation "IFree a \<equiv> MemoryI (KFree a)"
abbreviation "IGetElementPtr a b c d e \<equiv> MemoryI (KGetElementPtr a b c d e)"
abbreviation "IMemCopy a b c \<equiv> MemoryI (KMemCopy a b c)"
abbreviation "IMemSet a b c \<equiv> MemoryI (KMemSet a b c)"
abbreviation "ICast a b c d \<equiv> MemoryI (KCast a b c d)"
abbreviation "IBitCast a b c \<equiv> MemoryI (KBitCast a b c)"
abbreviation "IPtrAdd a b c d \<equiv> MemoryI (KPtrAdd a b c d)"
abbreviation "IUndef a b \<equiv> MemoryI (KUndef a b)"
abbreviation "IFunctionRef a b \<equiv> MemoryI (KFunctionRef a b)"
abbreviation "IArrayHeader a b c d \<equiv> MemoryI (KArrayHeader a b c d)"
abbreviation "ISelect a b c d \<equiv> AggregateI (KSelect a b c d)"
abbreviation "IExtractValue a b c \<equiv> AggregateI (KExtractValue a b c)"
abbreviation "IInsertValue a b c d \<equiv> AggregateI (KInsertValue a b c d)"
abbreviation "IMakeClosure a b c \<equiv> AggregateI (KMakeClosure a b c)"
abbreviation "IClosureFunc a b \<equiv> AggregateI (KClosureFunc a b)"
abbreviation "IClosureEnv a b \<equiv> AggregateI (KClosureEnv a b)"
abbreviation "ICreateUnion a b c d \<equiv> AggregateI (KCreateUnion a b c d)"
abbreviation "IExtractDiscriminant a b \<equiv> AggregateI (KExtractDiscriminant a b)"
abbreviation "IExtractUnionValue a b c d \<equiv> AggregateI (KExtractUnionValue a b c d)"
abbreviation "ICreateStruct a b c \<equiv> AggregateI (KCreateStruct a b c)"
abbreviation "IVectorLoad a b c \<equiv> VectorI (KVectorLoad a b c)"
abbreviation "IVectorStore a b c \<equiv> VectorI (KVectorStore a b c)"
abbreviation "IVectorBinOp a b c d e \<equiv> VectorI (KVectorBinOp a b c d e)"
abbreviation "IVectorSplat a b c \<equiv> VectorI (KVectorSplat a b c)"
abbreviation "IVectorExtract a b c d \<equiv> VectorI (KVectorExtract a b c d)"
abbreviation "IVectorInsert a b c d e \<equiv> VectorI (KVectorInsert a b c d e)"
abbreviation "IVectorReduce a b c d \<equiv> VectorI (KVectorReduce a b c d)"
abbreviation "IVectorUnaryOp a b c d \<equiv> VectorI (KVectorUnaryOp a b c d)"
abbreviation "IVectorMinMax a b c d e \<equiv> VectorI (KVectorMinMax a b c d e)"
abbreviation "IVectorDot a b c d e f \<equiv> VectorI (KVectorDot a b c d e f)"
abbreviation "IVectorShuffle a b c d e \<equiv> VectorI (KVectorShuffle a b c d e)"
abbreviation "IVectorConvert a b c d e \<equiv> VectorI (KVectorConvert a b c d e)"
abbreviation "IVectorNarrow a b c d e \<equiv> VectorI (KVectorNarrow a b c d e)"
abbreviation "IAtomicLoad a b c \<equiv> AtomicI (KAtomicLoad a b c)"
abbreviation "IAtomicStore a b c \<equiv> AtomicI (KAtomicStore a b c)"
abbreviation "IAtomicRmw a b c d e \<equiv> AtomicI (KAtomicRmw a b c d e)"
abbreviation "IAtomicCas a b c d e \<equiv> AtomicI (KAtomicCas a b c d e)"

text \<open>\<open>IrInstruction::dest\<close>. The pointer a \<open>MemCopy\<close> or \<open>MemSet\<close> writes through counts as one.\<close>

fun dest :: "IrInstruction \<Rightarrow> IrId option" where
  "dest (IConst d _) = Some d"
| "dest (ICopy d _) = Some d"
| "dest (ISsaBarrier d _ _) = Some d"
| "dest (IMove d _) = Some d"
| "dest (IBorrowImmutable d _ _) = Some d"
| "dest (IBorrowMutable d _ _) = Some d"
| "dest (IClone d _) = Some d"
| "dest (ILoad d _ _) = Some d"
| "dest (ILoadGlobal d _ _) = Some d"
| "dest (IBinOp d _ _ _) = Some d"
| "dest (IUnOp d _ _) = Some d"
| "dest (ICmp d _ _ _) = Some d"
| "dest (IAlloc d _ _) = Some d"
| "dest (IGetElementPtr d _ _ _ _) = Some d"
| "dest (IMemCopy d _ _) = Some d"
| "dest (IMemSet d _ _) = Some d"
| "dest (ICast d _ _ _) = Some d"
| "dest (IBitCast d _ _) = Some d"
| "dest (ILandingPad d _ _) = Some d"
| "dest (IPhi d _) = Some d"
| "dest (ISelect d _ _ _) = Some d"
| "dest (IExtractValue d _ _) = Some d"
| "dest (IInsertValue d _ _ _) = Some d"
| "dest (IMakeClosure d _ _) = Some d"
| "dest (IClosureFunc d _) = Some d"
| "dest (IClosureEnv d _) = Some d"
| "dest (ICreateUnion d _ _ _) = Some d"
| "dest (IExtractDiscriminant d _) = Some d"
| "dest (IExtractUnionValue d _ _ _) = Some d"
| "dest (ICreateStruct d _ _) = Some d"
| "dest (IPtrAdd d _ _ _) = Some d"
| "dest (IArrayHeader d _ _ _) = Some d"
| "dest (IUndef d _) = Some d"
| "dest (IFunctionRef d _) = Some d"
| "dest (IVectorLoad d _ _) = Some d"
| "dest (IVectorBinOp d _ _ _ _) = Some d"
| "dest (IVectorSplat d _ _) = Some d"
| "dest (IVectorExtract d _ _ _) = Some d"
| "dest (IVectorInsert d _ _ _ _) = Some d"
| "dest (IVectorReduce d _ _ _) = Some d"
| "dest (IVectorUnaryOp d _ _ _) = Some d"
| "dest (IVectorMinMax d _ _ _ _) = Some d"
| "dest (IVectorDot d _ _ _ _ _) = Some d"
| "dest (IVectorShuffle d _ _ _ _) = Some d"
| "dest (IVectorConvert d _ _ _ _) = Some d"
| "dest (IVectorNarrow d _ _ _ _) = Some d"
| "dest (IAtomicLoad d _ _) = Some d"
| "dest (IAtomicRmw d _ _ _ _) = Some d"
| "dest (IAtomicCas d _ _ _ _) = Some d"
| "dest (ICallDirect d _ _ _ _ _) = d"
| "dest (ICallIndirect d _ _ _ _ _) = d"
| "dest (IInlineAsm d _ _ _ _) = d"
| "dest _ = None"

fun replace_dest :: "IrInstruction \<Rightarrow> IrId \<Rightarrow> IrInstruction" where
  "replace_dest (IConst _ v) n = IConst n v"
| "replace_dest (ICopy _ s) n = ICopy n s"
| "replace_dest (ISsaBarrier _ s t) n = ISsaBarrier n s t"
| "replace_dest (IMove _ s) n = IMove n s"
| "replace_dest (IBorrowImmutable _ s l) n = IBorrowImmutable n s l"
| "replace_dest (IBorrowMutable _ s l) n = IBorrowMutable n s l"
| "replace_dest (IClone _ s) n = IClone n s"
| "replace_dest (ILoad _ p t) n = ILoad n p t"
| "replace_dest (ILoadGlobal _ g t) n = ILoadGlobal n g t"
| "replace_dest (IMemCopy _ s z) n = IMemCopy n s z"
| "replace_dest (IMemSet _ v z) n = IMemSet n v z"
| "replace_dest (IBinOp _ op l r) n = IBinOp n op l r"
| "replace_dest (IUnOp _ op x) n = IUnOp n op x"
| "replace_dest (ICmp _ op l r) n = ICmp n op l r"
| "replace_dest (IAlloc _ t c) n = IAlloc n t c"
| "replace_dest (IGetElementPtr _ p is t sc) n = IGetElementPtr n p is t sc"
| "replace_dest (ICast _ s a b) n = ICast n s a b"
| "replace_dest (IBitCast _ s t) n = IBitCast n s t"
| "replace_dest (ILandingPad _ t cs) n = ILandingPad n t cs"
| "replace_dest (IPhi _ inc) n = IPhi n inc"
| "replace_dest (ISelect _ c a b) n = ISelect n c a b"
| "replace_dest (IExtractValue _ a is) n = IExtractValue n a is"
| "replace_dest (IInsertValue _ a v is) n = IInsertValue n a v is"
| "replace_dest (IMakeClosure _ f cs) n = IMakeClosure n f cs"
| "replace_dest (IClosureFunc _ c) n = IClosureFunc n c"
| "replace_dest (IClosureEnv _ c) n = IClosureEnv n c"
| "replace_dest (ICreateUnion _ k v t) n = ICreateUnion n k v t"
| "replace_dest (IExtractDiscriminant _ u) n = IExtractDiscriminant n u"
| "replace_dest (IExtractUnionValue _ u k t) n = IExtractUnionValue n u k t"
| "replace_dest (ICreateStruct _ t fs) n = ICreateStruct n t fs"
| "replace_dest (IPtrAdd _ p off t) n = IPtrAdd n p off t"
| "replace_dest (IArrayHeader _ a fld g) n = IArrayHeader n a fld g"
| "replace_dest (IUndef _ t) n = IUndef n t"
| "replace_dest (IFunctionRef _ f) n = IFunctionRef n f"
| "replace_dest (IVectorLoad _ p t) n = IVectorLoad n p t"
| "replace_dest (IVectorBinOp _ op l r t) n = IVectorBinOp n op l r t"
| "replace_dest (IVectorSplat _ s t) n = IVectorSplat n s t"
| "replace_dest (IVectorExtract _ v k t) n = IVectorExtract n v k t"
| "replace_dest (IVectorInsert _ v s k t) n = IVectorInsert n v s k t"
| "replace_dest (IVectorReduce _ op v t) n = IVectorReduce n op v t"
| "replace_dest (IVectorUnaryOp _ op x t) n = IVectorUnaryOp n op x t"
| "replace_dest (IVectorMinMax _ op l r t) n = IVectorMinMax n op l r t"
| "replace_dest (IVectorDot _ acc a b i7 u) n = IVectorDot n acc a b i7 u"
| "replace_dest (IVectorShuffle _ a idx bl t) n = IVectorShuffle n a idx bl t"
| "replace_dest (IVectorConvert _ k x s t) n = IVectorConvert n k x s t"
| "replace_dest (IVectorNarrow _ lo hi s t) n = IVectorNarrow n lo hi s t"
| "replace_dest (IAtomicLoad _ p t) n = IAtomicLoad n p t"
| "replace_dest (IAtomicRmw _ op p v t) n = IAtomicRmw n op p v t"
| "replace_dest (IAtomicCas _ p e r t) n = IAtomicCas n p e r t"
| "replace_dest (ICallDirect _ f args own ta tc) n = ICallDirect (Some n) f args own ta tc"
| "replace_dest (ICallIndirect _ f args sg own tc) n = ICallIndirect (Some n) f args sg own tc"
| "replace_dest (IInlineAsm _ s ins outs cl) n = IInlineAsm (Some n) s ins outs cl"
| "replace_dest i n = i"

end
