(* ===== verification/MirUses.thy ===== *)
theory MirUses
  imports MirInstr
begin

text \<open>
  The registers an instruction reads (\<open>IrInstruction::uses\<close>), its classification
  (\<open>is_terminator\<close>, \<open>has_side_effects\<close>) and the rewriting of its operands
  (\<open>InstructionExt::replace_uses\<close> of \<open>ir/optimization.rs\<close>), with what the rewriting does to the
  registers read and defined. \<open>skips_replace\<close> names the instructions that read registers and
  that \<open>replace_uses\<close> leaves alone.
\<close>

section \<open>Registers read\<close>

fun uses :: "IrInstruction \<Rightarrow> IrId list" where
  "uses (ICopy _ s) = [s]"
| "uses (ISsaBarrier _ s _) = [s]"
| "uses (ILoad _ p _) = [p]"
| "uses (IStore p v _) = [p, v]"
| "uses (IBinOp _ _ l r) = [l, r]"
| "uses (IUnOp _ _ x) = [x]"
| "uses (ICmp _ _ l r) = [l, r]"
| "uses (IBranch c _ _) = [c]"
| "uses (ISwitch v _ _) = [v]"
| "uses (ICallDirect _ _ args _ _ _) = args"
| "uses (ICallIndirect _ f args _ _ _) = f # args"
| "uses (IReturn v) = (case v of None \<Rightarrow> [] | Some r \<Rightarrow> [r])"
| "uses (IAlloc _ _ c) = (case c of None \<Rightarrow> [] | Some r \<Rightarrow> [r])"
| "uses (IFree p) = [p]"
| "uses (IGetElementPtr _ p is _ _) = p # is"
| "uses (IMemCopy d s z) = [d, s, z]"
| "uses (IMemSet d v z) = [d, v, z]"
| "uses (ICast _ s _ _) = [s]"
| "uses (IBitCast _ s _) = [s]"
| "uses (IThrow e) = [e]"
| "uses (IResume e) = [e]"
| "uses (IPhi _ inc) = map fst inc"
| "uses (ISelect _ c a b) = [c, a, b]"
| "uses (IExtractValue _ a _) = [a]"
| "uses (IInsertValue _ a v _) = [a, v]"
| "uses (IInlineAsm _ _ ins _ _) = map snd ins"
| "uses (IVectorLoad _ p _) = [p]"
| "uses (IVectorStore p v _) = [p, v]"
| "uses (IVectorBinOp _ _ l r _) = [l, r]"
| "uses (IVectorSplat _ s _) = [s]"
| "uses (IVectorExtract _ v _ _) = [v]"
| "uses (IVectorInsert _ v s _ _) = [v, s]"
| "uses (IVectorReduce _ _ v _) = [v]"
| "uses (IVectorUnaryOp _ _ x _) = [x]"
| "uses (IVectorMinMax _ _ l r _) = [l, r]"
| "uses (IVectorDot _ acc a b _ _) = [acc, a, b]"
| "uses (IVectorShuffle _ a idx _ _) = [a, idx]"
| "uses (IVectorConvert _ _ x _ _) = [x]"
| "uses (IVectorNarrow _ lo hi _ _) = [lo, hi]"
| "uses (IAtomicLoad _ p _) = [p]"
| "uses (IAtomicStore p v _) = [p, v]"
| "uses (IAtomicRmw _ _ p v _) = [p, v]"
| "uses (IAtomicCas _ p e r _) = [p, e, r]"
| "uses (IMove _ s) = [s]"
| "uses (IMarkMoved s) = [s]"
| "uses (ICheckLive s _) = [s]"
| "uses (IBorrowImmutable _ s _) = [s]"
| "uses (IBorrowMutable _ s _) = [s]"
| "uses (IClone _ s) = [s]"
| "uses (IEndBorrow b) = [b]"
| "uses (IMakeClosure _ _ cs) = cs"
| "uses (IClosureFunc _ c) = [c]"
| "uses (IClosureEnv _ c) = [c]"
| "uses (ICreateUnion _ _ v _) = [v]"
| "uses (IExtractDiscriminant _ u) = [u]"
| "uses (IExtractUnionValue _ u _ _) = [u]"
| "uses (ICreateStruct _ _ fs) = fs"
| "uses (IPtrAdd _ p off _) = [p, off]"
| "uses (IArrayHeader _ a _ _) = [a]"
| "uses (ILoadGlobal _ _ _) = []"
| "uses (IStoreGlobal _ v) = [v]"
| "uses (IConst _ _) = []"
| "uses (IJump _) = []"
| "uses (ILandingPad _ _ _) = []"
| "uses (IUndef _ _) = []"
| "uses (IFunctionRef _ _) = []"
| "uses (IPanic _) = []"
| "uses (IDebugLoc _) = []"

section \<open>Classification\<close>

fun is_terminator :: "IrInstruction \<Rightarrow> bool" where
  "is_terminator (IJump _) = True"
| "is_terminator (IBranch _ _ _) = True"
| "is_terminator (ISwitch _ _ _) = True"
| "is_terminator (IReturn _) = True"
| "is_terminator (IThrow _) = True"
| "is_terminator (IResume _) = True"
| "is_terminator _ = False"

fun has_side_effects :: "IrInstruction \<Rightarrow> bool" where
  "has_side_effects (IAlloc _ _ _) = True"
| "has_side_effects (IStore _ _ _) = True"
| "has_side_effects (IStoreGlobal _ _) = True"
| "has_side_effects (ICallDirect _ _ _ _ _ _) = True"
| "has_side_effects (ICallIndirect _ _ _ _ _ _) = True"
| "has_side_effects (IFree _) = True"
| "has_side_effects (IMemCopy _ _ _) = True"
| "has_side_effects (IMemSet _ _ _) = True"
| "has_side_effects (IThrow _) = True"
| "has_side_effects (IInlineAsm _ _ _ _ _) = True"
| "has_side_effects (IAtomicStore _ _ _) = True"
| "has_side_effects (IAtomicRmw _ _ _ _ _) = True"
| "has_side_effects (IAtomicCas _ _ _ _ _) = True"
| "has_side_effects (IAtomicLoad _ _ _) = True"
| "has_side_effects _ = False"

section \<open>Rewriting operands\<close>

text \<open>The closure \<open>replace\<close>: a register through the replacement map.\<close>

definition rep :: "(IrId \<rightharpoonup> IrId) \<Rightarrow> IrId \<Rightarrow> IrId" where
  "rep \<rho> r = (case \<rho> r of None \<Rightarrow> r | Some r' \<Rightarrow> r')"

fun replace_uses :: "(IrId \<rightharpoonup> IrId) \<Rightarrow> IrInstruction \<Rightarrow> IrInstruction" where
  "replace_uses \<rho> (ICopy d s) = ICopy d (rep \<rho> s)"
| "replace_uses \<rho> (ILoad d p t) = ILoad d (rep \<rho> p) t"
| "replace_uses \<rho> (IStore p v t) = IStore (rep \<rho> p) (rep \<rho> v) t"
| "replace_uses \<rho> (IBinOp d op l r) = IBinOp d op (rep \<rho> l) (rep \<rho> r)"
| "replace_uses \<rho> (IUnOp d op x) = IUnOp d op (rep \<rho> x)"
| "replace_uses \<rho> (ICmp d op l r) = ICmp d op (rep \<rho> l) (rep \<rho> r)"
| "replace_uses \<rho> (ICallDirect d f args own ta tc) =
     ICallDirect d f (map (rep \<rho>) args) own ta tc"
| "replace_uses \<rho> (ICallIndirect d f args sg own tc) =
     ICallIndirect d (rep \<rho> f) (map (rep \<rho>) args) sg own tc"
| "replace_uses \<rho> (ICast d s a b) = ICast d (rep \<rho> s) a b"
| "replace_uses \<rho> (IBitCast d s t) = IBitCast d (rep \<rho> s) t"
| "replace_uses \<rho> (ISelect d c a b) = ISelect d (rep \<rho> c) (rep \<rho> a) (rep \<rho> b)"
| "replace_uses \<rho> (IFree p) = IFree (rep \<rho> p)"
| "replace_uses \<rho> (IAlloc d t c) = IAlloc d t (map_option (rep \<rho>) c)"
| "replace_uses \<rho> (IGetElementPtr d p is t sc) =
     IGetElementPtr d (rep \<rho> p) (map (rep \<rho>) is) t sc"
| "replace_uses \<rho> (IMemCopy d s z) = IMemCopy (rep \<rho> d) (rep \<rho> s) (rep \<rho> z)"
| "replace_uses \<rho> (IMemSet d v z) = IMemSet (rep \<rho> d) (rep \<rho> v) (rep \<rho> z)"
| "replace_uses \<rho> (IPtrAdd d p off t) = IPtrAdd d (rep \<rho> p) (rep \<rho> off) t"
| "replace_uses \<rho> (IArrayHeader d a fld g) = IArrayHeader d (rep \<rho> a) fld g"
| "replace_uses \<rho> (IMakeClosure d f cs) = IMakeClosure d f (map (rep \<rho>) cs)"
| "replace_uses \<rho> (IClosureFunc d c) = IClosureFunc d (rep \<rho> c)"
| "replace_uses \<rho> (IExtractValue d a is) = IExtractValue d (rep \<rho> a) is"
| "replace_uses \<rho> (IInsertValue d a v is) = IInsertValue d (rep \<rho> a) (rep \<rho> v) is"
| "replace_uses \<rho> (IReturn v) = IReturn (map_option (rep \<rho>) v)"
| "replace_uses \<rho> (IThrow e) = IThrow (rep \<rho> e)"
| "replace_uses \<rho> (IResume e) = IResume (rep \<rho> e)"
| "replace_uses \<rho> (IPhi d inc) = IPhi d (map (\<lambda>(v, b). (rep \<rho> v, b)) inc)"
| "replace_uses \<rho> (IBranch c t f) = IBranch (rep \<rho> c) t f"
| "replace_uses \<rho> (ISwitch v dt cs) = ISwitch (rep \<rho> v) dt cs"
| "replace_uses \<rho> (IInlineAsm d s ins outs cl) =
     IInlineAsm d s (map (\<lambda>(c, r). (c, rep \<rho> r)) ins) outs cl"
| "replace_uses \<rho> (IClosureEnv d c) = IClosureEnv d (rep \<rho> c)"
| "replace_uses \<rho> (IVectorLoad d p t) = IVectorLoad d (rep \<rho> p) t"
| "replace_uses \<rho> (IVectorStore p v t) = IVectorStore (rep \<rho> p) (rep \<rho> v) t"
| "replace_uses \<rho> (IVectorBinOp d op l r t) = IVectorBinOp d op (rep \<rho> l) (rep \<rho> r) t"
| "replace_uses \<rho> (IVectorSplat d s t) = IVectorSplat d (rep \<rho> s) t"
| "replace_uses \<rho> (IVectorExtract d v k t) = IVectorExtract d (rep \<rho> v) k t"
| "replace_uses \<rho> (IVectorInsert d v s k t) = IVectorInsert d (rep \<rho> v) (rep \<rho> s) k t"
| "replace_uses \<rho> (IVectorReduce d op v t) = IVectorReduce d op (rep \<rho> v) t"
| "replace_uses \<rho> (IVectorUnaryOp d op x t) = IVectorUnaryOp d op (rep \<rho> x) t"
| "replace_uses \<rho> (IVectorMinMax d op l r t) = IVectorMinMax d op (rep \<rho> l) (rep \<rho> r) t"
| "replace_uses \<rho> (IVectorDot d acc a b i7 u) =
     IVectorDot d (rep \<rho> acc) (rep \<rho> a) (rep \<rho> b) i7 u"
| "replace_uses \<rho> (IVectorShuffle d a idx bl t) = IVectorShuffle d (rep \<rho> a) (rep \<rho> idx) bl t"
| "replace_uses \<rho> (IVectorConvert d k x s t) = IVectorConvert d k (rep \<rho> x) s t"
| "replace_uses \<rho> (IVectorNarrow d lo hi s t) = IVectorNarrow d (rep \<rho> lo) (rep \<rho> hi) s t"
| "replace_uses \<rho> (IAtomicLoad d p t) = IAtomicLoad d (rep \<rho> p) t"
| "replace_uses \<rho> (IAtomicStore p v t) = IAtomicStore (rep \<rho> p) (rep \<rho> v) t"
| "replace_uses \<rho> (IAtomicRmw d op p v t) = IAtomicRmw d op (rep \<rho> p) (rep \<rho> v) t"
| "replace_uses \<rho> (IAtomicCas d p e r t) = IAtomicCas d (rep \<rho> p) (rep \<rho> e) (rep \<rho> r) t"
| "replace_uses \<rho> (IMove d s) = IMove d (rep \<rho> s)"
| "replace_uses \<rho> (IClone d s) = IClone d (rep \<rho> s)"
| "replace_uses \<rho> (IStoreGlobal g v) = IStoreGlobal g (rep \<rho> v)"
| "replace_uses \<rho> i = i"

text \<open>
  The instructions that read registers and fall into the last case of \<open>replace_uses\<close>, and the
  two whose written pointer is both read and reported as their destination.
\<close>

fun skips_replace :: "IrInstruction \<Rightarrow> bool" where
  "skips_replace (ISsaBarrier _ _ _) = True"
| "skips_replace (IMarkMoved _) = True"
| "skips_replace (ICheckLive _ _) = True"
| "skips_replace (IBorrowImmutable _ _ _) = True"
| "skips_replace (IBorrowMutable _ _ _) = True"
| "skips_replace (IEndBorrow _) = True"
| "skips_replace (ICreateUnion _ _ _ _) = True"
| "skips_replace (IExtractDiscriminant _ _) = True"
| "skips_replace (IExtractUnionValue _ _ _ _) = True"
| "skips_replace (ICreateStruct _ _ _) = True"
| "skips_replace _ = False"

fun writes_through_dest :: "IrInstruction \<Rightarrow> bool" where
  "writes_through_dest (IMemCopy _ _ _) = True"
| "writes_through_dest (IMemSet _ _ _) = True"
| "writes_through_dest _ = False"

section \<open>Facts\<close>

lemma rep_simps [simp]:
  "\<rho> r = None \<Longrightarrow> rep \<rho> r = r"
  "\<rho> r = Some r' \<Longrightarrow> rep \<rho> r = r'"
  by (simp_all add: rep_def)

lemma rep_empty [simp]: "rep Map.empty = id"
  by (simp add: rep_def fun_eq_iff)

lemma map_rep_outside: "set rs \<inter> dom \<rho> = {} \<Longrightarrow> map (rep \<rho>) rs = rs"
  by (rule map_idI) (auto simp: rep_def split: option.splits)

lemma map_option_rep_outside: "(\<And>r. v = Some r \<Longrightarrow> \<rho> r = None) \<Longrightarrow> map_option (rep \<rho>) v = v"
  by (cases v) auto

lemma uses_replace_uses:
  "uses (replace_uses \<rho> i) = (if skips_replace i then uses i else map (rep \<rho>) (uses i))"
  by (cases i rule: uses.cases) (auto split: option.splits)

lemma dest_replace_uses:
  "dest (replace_uses \<rho> i) = (if writes_through_dest i then map_option (rep \<rho>) (dest i) else dest i)"
  by (cases i rule: uses.cases) simp_all

lemma has_side_effects_replace_uses [simp]:
  "has_side_effects (replace_uses \<rho> i) = has_side_effects i"
  by (cases i rule: uses.cases) simp_all

lemma is_terminator_replace_uses [simp]:
  "is_terminator (replace_uses \<rho> i) = is_terminator i"
  by (cases i rule: uses.cases) simp_all

lemma replace_uses_outside:
  "set (uses i) \<inter> dom \<rho> = {} \<Longrightarrow> replace_uses \<rho> i = i"
  by (cases i rule: uses.cases)
     (auto simp: map_rep_outside disjoint_iff domIff rep_def map_idI split: option.splits
           intro!: map_idI map_option_rep_outside)

lemma dest_replace_dest:
  "dest (replace_dest i n) = Some n" if "dest i \<noteq> None"
  using that by (cases i rule: uses.cases) simp_all

lemma replace_dest_no_dest:
  "dest i = None \<Longrightarrow> dest (replace_dest i n) \<noteq> None \<Longrightarrow>
     (\<exists>f args own ta tc. i = ICallDirect None f args own ta tc) \<or>
     (\<exists>f args sg own tc. i = ICallIndirect None f args sg own tc) \<or>
     (\<exists>s ins outs cl. i = IInlineAsm None s ins outs cl)"
  by (cases i rule: uses.cases) simp_all

lemma uses_replace_dest:
  "\<not> writes_through_dest i \<Longrightarrow> uses (replace_dest i n) = uses i"
  by (cases i rule: uses.cases) simp_all

lemma has_side_effects_replace_dest [simp]:
  "has_side_effects (replace_dest i n) = has_side_effects i"
  by (cases i rule: uses.cases) simp_all

lemma side_effect_without_dest:
  "dest i = None \<Longrightarrow> \<not> has_side_effects i \<Longrightarrow>
     is_terminator i \<or>
     i \<in> range IMarkMoved \<or> i \<in> range (\<lambda>(s, l). ICheckLive s l) \<or> i \<in> range IEndBorrow \<or>
     i \<in> range IPanic \<or> i \<in> range IDebugLoc \<or> i \<in> range (\<lambda>(p, v, t). IVectorStore p v t)"
  by (cases i rule: uses.cases) (auto simp: image_iff)

end
