(* ===== verification/MirCfg.thy ===== *)
theory MirCfg
  imports MirUses
begin

text \<open>
  Basic blocks, terminators and the control flow graph (\<open>compiler/src/ir/blocks.rs\<close>) and the
  parts of functions and modules the passes and the interpreter read (\<open>ir/functions.rs\<close>,
  \<open>ir/modules.rs\<close>). The blocks of a graph are the entries of its \<open>BTreeMap\<close> in id order.
  \<open>verify\<close> reports the first defect in that order; \<open>wf_cfg\<close> is what it accepts.
\<close>

section \<open>Blocks and terminators\<close>

datatype IrTerminator =
    TBranch IrBlockId
  | TCondBranch IrId IrBlockId IrBlockId
  | TSwitch IrId "(u64 \<times> IrBlockId) list" IrBlockId
  | TReturn "IrId option"
  | TUnreachable
  | TNoReturn IrId

record IrPhiNode =
  phi_dest :: IrId
  phi_incoming :: "(IrBlockId \<times> IrId) list"
  phi_ty :: IrType

datatype OptimizationHint = LikelyPath | UnlikelyPath | HotPath | ColdPath | CustomHint string

record BlockMetadata =
  frequency_hint :: "u8 option"
  is_loop_header :: bool
  in_exception_handler :: bool
  optimization_hints :: "OptimizationHint list"

record IrBasicBlock =
  bb_id :: IrBlockId
  bb_label :: "string option"
  bb_instructions :: "IrInstruction list"
  bb_terminator :: IrTerminator
  bb_phi_nodes :: "IrPhiNode list"
  bb_source_location :: IrSourceLocation
  bb_predecessors :: "IrBlockId list"
  bb_metadata :: BlockMetadata
  bb_terminator_explicit :: bool

definition unknown_location :: IrSourceLocation where
  "unknown_location = \<lparr>loc_file_id = 0, loc_line = 0, loc_column = 0\<rparr>"

definition new_block :: "IrBlockId \<Rightarrow> IrBasicBlock" where
  "new_block i =
     \<lparr>bb_id = i, bb_label = None, bb_instructions = [], bb_terminator = TUnreachable,
      bb_phi_nodes = [], bb_source_location = unknown_location, bb_predecessors = [],
      bb_metadata = \<lparr>frequency_hint = None, is_loop_header = False,
                     in_exception_handler = False, optimization_hints = []\<rparr>,
      bb_terminator_explicit = False\<rparr>"

definition add_instruction :: "IrInstruction \<Rightarrow> IrBasicBlock \<Rightarrow> IrBasicBlock" where
  "add_instruction i b = b\<lparr>bb_instructions := bb_instructions b @ [i]\<rparr>"

definition add_phi :: "IrPhiNode \<Rightarrow> IrBasicBlock \<Rightarrow> IrBasicBlock" where
  "add_phi p b = b\<lparr>bb_phi_nodes := bb_phi_nodes b @ [p]\<rparr>"

definition set_terminator :: "IrTerminator \<Rightarrow> IrBasicBlock \<Rightarrow> IrBasicBlock" where
  "set_terminator t b = b\<lparr>bb_terminator := t\<rparr>"

fun term_successors :: "IrTerminator \<Rightarrow> IrBlockId list" where
  "term_successors (TBranch t) = [t]"
| "term_successors (TCondBranch c t f) = [t, f]"
| "term_successors (TSwitch v cs d) = map snd cs @ [d]"
| "term_successors (TReturn v) = []"
| "term_successors TUnreachable = []"
| "term_successors (TNoReturn c) = []"

definition successors :: "IrBasicBlock \<Rightarrow> IrBlockId list" where
  "successors b = term_successors (bb_terminator b)"

definition is_terminated :: "IrBasicBlock \<Rightarrow> bool" where
  "is_terminated b = (bb_terminator b \<noteq> TUnreachable)"

section \<open>The control flow graph\<close>

record IrControlFlowGraph =
  cfg_blocks :: "(IrBlockId \<times> IrBasicBlock) list"
  cfg_entry_block :: IrBlockId
  cfg_next_block_id :: nat

definition new_cfg :: IrControlFlowGraph where
  "new_cfg = \<lparr>cfg_blocks = [(0, new_block 0)], cfg_entry_block = 0, cfg_next_block_id = 1\<rparr>"

definition get_block :: "IrControlFlowGraph \<Rightarrow> IrBlockId \<Rightarrow> IrBasicBlock option" where
  "get_block g i = map_of (cfg_blocks g) i"

definition create_block :: "IrControlFlowGraph \<Rightarrow> IrBlockId \<times> IrControlFlowGraph" where
  "create_block g =
     (let i = cfg_next_block_id g
      in (i, g\<lparr>cfg_next_block_id := i + 1, cfg_blocks := bt_insert i (new_block i) (cfg_blocks g)\<rparr>))"

definition push_predecessor :: "IrBlockId \<Rightarrow> IrBasicBlock \<Rightarrow> IrBasicBlock" where
  "push_predecessor from b =
     (if from \<in> set (bb_predecessors b) then b
      else b\<lparr>bb_predecessors := bb_predecessors b @ [from]\<rparr>)"

definition connect_blocks ::
  "IrBlockId \<Rightarrow> IrBlockId \<Rightarrow> IrControlFlowGraph \<Rightarrow> IrControlFlowGraph" where
  "connect_blocks from to g = g\<lparr>cfg_blocks := bt_modify to (push_predecessor from) (cfg_blocks g)\<rparr>"

definition cfg_edges :: "IrControlFlowGraph \<Rightarrow> (IrBlockId \<times> IrBlockId) list" where
  "cfg_edges g = concat (map (\<lambda>(from, b). map (Pair from) (successors b)) (cfg_blocks g))"

definition recompute_predecessors :: "IrControlFlowGraph \<Rightarrow> IrControlFlowGraph" where
  "recompute_predecessors g =
     fold (\<lambda>(from, to). connect_blocks from to) (cfg_edges g)
       (g\<lparr>cfg_blocks := bt_map (\<lambda>b. b\<lparr>bb_predecessors := []\<rparr>) (cfg_blocks g)\<rparr>)"

text \<open>\<open>IrControlFlowGraph::verify\<close>, its messages as constructors.\<close>

datatype cfg_error =
    EntryNotFound
  | NotTerminated IrBlockId
  | MissingSuccessor IrBlockId IrBlockId
  | PhiNonPredecessor IrBlockId IrBlockId

fun first_error :: "('a \<Rightarrow> cfg_error option) \<Rightarrow> 'a list \<Rightarrow> cfg_error option" where
  "first_error f [] = None"
| "first_error f (x # xs) = (case f x of Some e \<Rightarrow> Some e | None \<Rightarrow> first_error f xs)"

definition verify_block ::
  "IrControlFlowGraph \<Rightarrow> IrBlockId \<times> IrBasicBlock \<Rightarrow> cfg_error option" where
  "verify_block g ib =
     (let (i, b) = ib in
      if \<not> is_terminated b then Some (NotTerminated i)
      else case first_error
                  (\<lambda>s. if get_block g s = None then Some (MissingSuccessor i s) else None)
                  (successors b) of
             Some e \<Rightarrow> Some e
           | None \<Rightarrow>
               first_error
                 (\<lambda>p. first_error
                    (\<lambda>(pred, v). if pred \<in> set (bb_predecessors b) then None
                                 else Some (PhiNonPredecessor i pred))
                    (phi_incoming p))
                 (bb_phi_nodes b))"

definition verify :: "IrControlFlowGraph \<Rightarrow> cfg_error + unit" where
  "verify g =
     (if get_block g (cfg_entry_block g) = None then Inl EntryNotFound
      else case first_error (verify_block g) (cfg_blocks g) of
             Some e \<Rightarrow> Inl e | None \<Rightarrow> Inr ())"

definition wf_cfg :: "IrControlFlowGraph \<Rightarrow> bool" where
  "wf_cfg g \<longleftrightarrow>
     get_block g (cfg_entry_block g) \<noteq> None \<and>
     (\<forall>(i, b) \<in> set (cfg_blocks g).
        is_terminated b \<and>
        (\<forall>s \<in> set (successors b). get_block g s \<noteq> None) \<and>
        (\<forall>p \<in> set (bb_phi_nodes b). \<forall>(pred, v) \<in> set (phi_incoming p).
           pred \<in> set (bb_predecessors b)))"

text \<open>The blocks control can get to from a block. A target that is not a block has no successors.\<close>

definition block_succs :: "IrControlFlowGraph \<Rightarrow> IrBlockId \<Rightarrow> IrBlockId list" where
  "block_succs g i = (case get_block g i of Some b \<Rightarrow> successors b | None \<Rightarrow> [])"

inductive cfg_reach :: "IrControlFlowGraph \<Rightarrow> IrBlockId \<Rightarrow> IrBlockId \<Rightarrow> bool"
  for g :: IrControlFlowGraph and e :: IrBlockId where
  reach_entry: "cfg_reach g e e"
| reach_step: "cfg_reach g e i \<Longrightarrow> s \<in> set (block_succs g i) \<Longrightarrow> cfg_reach g e s"

section \<open>Functions\<close>

datatype CallingConvention = CcHaxe | CcC | CcFast | CcNative

record IrParameter =
  par_name :: string
  par_ty :: IrType
  par_reg :: IrId
  par_by_ref :: bool

record IrFunctionSignature =
  sig_parameters :: "IrParameter list"
  sig_return_type :: IrType
  sig_calling_convention :: CallingConvention
  sig_can_throw :: bool
  sig_type_params :: "(string \<times> string list) list"
  sig_uses_sret :: bool

datatype AllocationHint = AhStack | AhHeap | AhRegister | AhAuto

record IrLocal =
  local_name :: string
  local_ty :: IrType
  local_mutable :: bool
  local_location :: IrSourceLocation
  local_allocation :: AllocationHint

datatype Linkage = LkPrivate | LkInternal | LkPublic | LkExternal

datatype InlineHint = IhNever | IhAuto | IhHint | IhAlways

datatype FunctionKind = FkUserDefined | FkMirWrapper | FkExternC | FkIntrinsic

record FunctionAttributes =
  at_linkage :: Linkage
  at_inline :: InlineHint
  at_pure :: bool
  at_no_return :: bool
  at_optimize_size :: bool
  at_custom :: "(string \<times> string) list"

definition default_attributes :: FunctionAttributes where
  "default_attributes =
     \<lparr>at_linkage = LkPrivate, at_inline = IhAuto, at_pure = False, at_no_return = False,
      at_optimize_size = False, at_custom = []\<rparr>"

record IrFunction =
  fn_id :: IrFunctionId
  fn_name :: string
  fn_qualified_name :: "string option"
  fn_signature :: IrFunctionSignature
  fn_cfg :: IrControlFlowGraph
  fn_locals :: "(IrId \<times> IrLocal) list"
  fn_register_types :: "(IrId \<times> IrType) list"
  fn_attributes :: FunctionAttributes
  fn_kind :: FunctionKind
  fn_next_reg_id :: nat

text \<open>\<open>IrFunction::new\<close> numbers the parameters from 0 and records their types.\<close>

definition alloc_reg :: "IrFunction \<Rightarrow> IrId \<times> IrFunction" where
  "alloc_reg f = (fn_next_reg_id f, f\<lparr>fn_next_reg_id := fn_next_reg_id f + 1\<rparr>)"

definition assign_param :: "nat \<Rightarrow> IrFunction \<Rightarrow> IrFunction" where
  "assign_param i f =
     (let (reg, f1) = alloc_reg f; p = sig_parameters (fn_signature f1) ! i;
          sg = fn_signature f1
      in f1\<lparr>fn_signature := sg\<lparr>sig_parameters := (sig_parameters sg)[i := p\<lparr>par_reg := reg\<rparr>]\<rparr>,
            fn_register_types := bt_insert reg (par_ty p) (fn_register_types f1)\<rparr>)"

definition new_function :: "IrFunctionId \<Rightarrow> string \<Rightarrow> IrFunctionSignature \<Rightarrow> IrFunction" where
  "new_function i nm sg =
     fold assign_param [0..<length (sig_parameters sg)]
       \<lparr>fn_id = i, fn_name = nm, fn_qualified_name = None, fn_signature = sg, fn_cfg = new_cfg,
        fn_locals = [], fn_register_types = [], fn_attributes = default_attributes,
        fn_kind = FkUserDefined, fn_next_reg_id = 0\<rparr>"

definition declare_local :: "string \<Rightarrow> IrType \<Rightarrow> IrFunction \<Rightarrow> IrId \<times> IrFunction" where
  "declare_local nm ty f =
     (let (reg, f1) = alloc_reg f
      in (reg, f1\<lparr>fn_locals := bt_insert reg
              \<lparr>local_name = nm, local_ty = ty, local_mutable = True,
               local_location = unknown_location, local_allocation = AhAuto\<rparr> (fn_locals f1)\<rparr>))"

definition is_forward_stub :: "IrFunction \<Rightarrow> bool" where
  "is_forward_stub f =
     (length (cfg_blocks (fn_cfg f)) = 1 \<and>
      (\<forall>(i, b) \<in> set (cfg_blocks (fn_cfg f)).
         bb_instructions b = [] \<and> bb_terminator b = TUnreachable))"

definition entry_block :: "IrFunction \<Rightarrow> IrBlockId" where
  "entry_block f = cfg_entry_block (fn_cfg f)"

text \<open>Rewriting every block of a function in place.\<close>

definition map_blocks :: "(IrBasicBlock \<Rightarrow> IrBasicBlock) \<Rightarrow> IrFunction \<Rightarrow> IrFunction" where
  "map_blocks h f = f\<lparr>fn_cfg := (fn_cfg f)\<lparr>cfg_blocks := bt_map h (cfg_blocks (fn_cfg f))\<rparr>\<rparr>"

definition fn_blocks :: "IrFunction \<Rightarrow> IrBasicBlock list" where
  "fn_blocks f = map snd (cfg_blocks (fn_cfg f))"

text \<open>All instructions of a function, in the order of its blocks.\<close>

definition fn_insts :: "IrFunction \<Rightarrow> IrInstruction list" where
  "fn_insts f = concat (map bb_instructions (fn_blocks f))"

definition is_leaf :: "IrFunction \<Rightarrow> bool" where
  "is_leaf f =
     (\<forall>b \<in> set (fn_blocks f). \<forall>i \<in> set (bb_instructions b).
        case i of ICallDirect _ _ _ _ _ _ \<Rightarrow> False | ICallIndirect _ _ _ _ _ _ \<Rightarrow> False | _ \<Rightarrow> True)"

datatype fn_error = FnCfg cfg_error | EntryHasPhis

definition fn_verify :: "IrFunction \<Rightarrow> fn_error + unit" where
  "fn_verify f =
     (if cfg_blocks (fn_cfg f) = [] then Inr ()
      else case verify (fn_cfg f) of
             Inl e \<Rightarrow> Inl (FnCfg e)
           | Inr _ \<Rightarrow>
               (case get_block (fn_cfg f) (entry_block f) of
                  Some b \<Rightarrow> if bb_phi_nodes b \<noteq> [] then Inl EntryHasPhis else Inr ()
                | None \<Rightarrow> Inr ()))"

section \<open>Facts\<close>

lemma get_block_dom: "get_block g i \<noteq> None \<longleftrightarrow> i \<in> fst ` set (cfg_blocks g)"
  by (simp add: get_block_def map_of_eq_None_iff)

lemma block_succs_simps [simp]:
  "get_block g i = None \<Longrightarrow> block_succs g i = []"
  "get_block g i = Some b \<Longrightarrow> block_succs g i = successors b"
  by (simp_all add: block_succs_def)

text \<open>A closed set that contains the entry contains what is reachable, and conversely.\<close>

definition succ_closed :: "IrControlFlowGraph \<Rightarrow> IrBlockId set \<Rightarrow> bool" where
  "succ_closed g S \<longleftrightarrow> (\<forall>i \<in> S. set (block_succs g i) \<subseteq> S)"

lemma cfg_reach_closed: "cfg_reach g e i \<Longrightarrow> e \<in> S \<Longrightarrow> succ_closed g S \<Longrightarrow> i \<in> S"
  by (induction rule: cfg_reach.induct) (auto simp: succ_closed_def)

lemma succ_closed_reach: "succ_closed g {i. cfg_reach g e i}"
  by (auto simp: succ_closed_def intro: reach_step)

lemma first_error_None_iff: "first_error f xs = None \<longleftrightarrow> (\<forall>x \<in> set xs. f x = None)"
  by (induction xs) (auto split: option.splits)

lemma or_else_None_iff:
  "(case x of Some e \<Rightarrow> Some e | None \<Rightarrow> y) = None \<longleftrightarrow> x = None \<and> y = None"
  by (cases x) auto

lemma first_error_Some: "first_error f xs = Some e \<Longrightarrow> \<exists>x \<in> set xs. f x = Some e"
  by (induction xs) (auto split: option.splits)

lemma verify_block_None_iff:
  "verify_block g (i, b) = None \<longleftrightarrow>
     is_terminated b \<and> (\<forall>s \<in> set (successors b). get_block g s \<noteq> None) \<and>
     (\<forall>p \<in> set (bb_phi_nodes b). \<forall>(pred, v) \<in> set (phi_incoming p).
        pred \<in> set (bb_predecessors b))"
  by (auto simp: verify_block_def or_else_None_iff first_error_None_iff case_prod_beta
           split: if_splits)

lemma verify_iff: "verify g = Inr () \<longleftrightarrow> wf_cfg g"
proof -
  have "verify g = Inr () \<longleftrightarrow>
      get_block g (cfg_entry_block g) \<noteq> None \<and> first_error (verify_block g) (cfg_blocks g) = None"
    by (simp add: verify_def split: option.splits)
  also have "\<dots> \<longleftrightarrow> wf_cfg g"
    unfolding wf_cfg_def first_error_None_iff
    by (intro conj_cong ball_cong refl) (clarsimp simp only: verify_block_None_iff split_paired_all prod.case)
  finally show ?thesis .
qed

text \<open>The invariant of a graph that only \<open>new\<close>, \<open>create_block\<close> and \<open>connect_blocks\<close> build.\<close>

definition cfg_ids_ok :: "IrControlFlowGraph \<Rightarrow> bool" where
  "cfg_ids_ok g \<longleftrightarrow>
     bt_wf (cfg_blocks g) \<and>
     (\<forall>(i, b) \<in> set (cfg_blocks g). i < cfg_next_block_id g \<and> bb_id b = i) \<and>
     get_block g (cfg_entry_block g) \<noteq> None"

lemma cfg_ids_ok_new: "cfg_ids_ok new_cfg"
  by (simp add: cfg_ids_ok_def new_cfg_def new_block_def bt_wf_def get_block_def)

lemma set_bt_insert_subset: "set (bt_insert k v m) \<subseteq> insert (k, v) (set m)"
  by (induction k v m rule: bt_insert.induct) auto

lemma cfg_ids_ok_create:
  assumes "cfg_ids_ok g" and "create_block g = (i, g')"
  shows "cfg_ids_ok g' \<and> get_block g i = None \<and> get_block g' i = Some (new_block i)"
proof -
  from assms(2) have i: "i = cfg_next_block_id g"
    and g': "g' = g\<lparr>cfg_next_block_id := i + 1, cfg_blocks := bt_insert i (new_block i) (cfg_blocks g)\<rparr>"
    by (auto simp: create_block_def Let_def)
  have fresh: "get_block g i = None"
  proof (rule ccontr)
    assume "get_block g i \<noteq> None"
    then obtain b where "(i, b) \<in> set (cfg_blocks g)"
      by (auto simp: get_block_def dest: map_of_SomeD)
    then show False using assms(1) i by (auto simp: cfg_ids_ok_def)
  qed
  moreover have "cfg_ids_ok g'"
    using assms(1) set_bt_insert_subset [of i "new_block i" "cfg_blocks g"] i
    by (fastforce simp: g' cfg_ids_ok_def bt_wf_insert get_block_def bt_simps new_block_def)
  ultimately show ?thesis by (simp add: g' get_block_def bt_simps)
qed

lemma get_block_connect:
  "get_block (connect_blocks from to g) i =
     (if i = to then map_option (push_predecessor from) (get_block g i) else get_block g i)"
  by (simp add: get_block_def connect_blocks_def bt_simps)

lemma cfg_ids_ok_connect: "cfg_ids_ok g \<Longrightarrow> cfg_ids_ok (connect_blocks from to g)"
  by (fastforce simp: cfg_ids_ok_def connect_blocks_def bt_modify_def push_predecessor_def
        get_block_def bt_simps [unfolded bt_modify_def] bt_wf_modify [unfolded bt_modify_def])

lemma push_predecessor_facts [simp]:
  "bb_terminator (push_predecessor p b) = bb_terminator b"
  "bb_phi_nodes (push_predecessor p b) = bb_phi_nodes b"
  "bb_instructions (push_predecessor p b) = bb_instructions b"
  "set (bb_predecessors (push_predecessor p b)) = insert p (set (bb_predecessors b))"
  "distinct (bb_predecessors b) \<Longrightarrow> distinct (bb_predecessors (push_predecessor p b))"
  by (auto simp: push_predecessor_def)

text \<open>Adding a list of edges adds exactly their sources to each target's predecessors.\<close>

lemma fold_connect:
  "get_block g i = Some b \<Longrightarrow> distinct (bb_predecessors b) \<Longrightarrow>
   \<exists>b'. get_block (fold (\<lambda>(from, to). connect_blocks from to) es g) i = Some b' \<and>
        distinct (bb_predecessors b') \<and>
        set (bb_predecessors b') = set (bb_predecessors b) \<union> {from. (from, i) \<in> set es} \<and>
        bb_terminator b' = bb_terminator b \<and> bb_phi_nodes b' = bb_phi_nodes b \<and>
        bb_instructions b' = bb_instructions b"
proof (induction es arbitrary: g b)
  case Nil
  then show ?case by simp
next
  case (Cons e es)
  obtain p t where e: "e = (p, t)" by fastforce
  let ?b = "if i = t then push_predecessor p b else b"
  have "get_block (connect_blocks p t g) i = Some ?b"
    using Cons.prems(1) by (auto simp: get_block_connect)
  moreover have "distinct (bb_predecessors ?b)"
    using Cons.prems(2) by auto
  ultimately obtain b' where
    "get_block (fold (\<lambda>(from, to). connect_blocks from to) es (connect_blocks p t g)) i = Some b'"
    "distinct (bb_predecessors b')"
    "set (bb_predecessors b') = set (bb_predecessors ?b) \<union> {from. (from, i) \<in> set es}"
    "bb_terminator b' = bb_terminator ?b" "bb_phi_nodes b' = bb_phi_nodes ?b"
    "bb_instructions b' = bb_instructions ?b"
    using Cons.IH by blast
  then show ?case by (auto simp: e)
qed

lemma cfg_edges_iff:
  "bt_wf (cfg_blocks g) \<Longrightarrow>
     (p, s) \<in> set (cfg_edges g) \<longleftrightarrow> (\<exists>b. get_block g p = Some b \<and> s \<in> set (successors b))"
  by (force simp: cfg_edges_def get_block_def dest: map_of_SomeD bt_wf_distinct
            intro: map_of_is_SomeI)

lemma recompute_predecessors_block:
  assumes "bt_wf (cfg_blocks g)" and "get_block g i = Some b"
  shows "\<exists>b'. get_block (recompute_predecessors g) i = Some b' \<and>
           distinct (bb_predecessors b') \<and>
           set (bb_predecessors b') =
             {p. \<exists>pb. get_block g p = Some pb \<and> i \<in> set (successors pb)} \<and>
           bb_terminator b' = bb_terminator b \<and> bb_phi_nodes b' = bb_phi_nodes b \<and>
           bb_instructions b' = bb_instructions b"
proof -
  let ?g = "g\<lparr>cfg_blocks := bt_map (\<lambda>b. b\<lparr>bb_predecessors := []\<rparr>) (cfg_blocks g)\<rparr>"
  have "get_block ?g i = Some (b\<lparr>bb_predecessors := []\<rparr>)"
    using assms(2) by (simp add: get_block_def bt_simps)
  from fold_connect [OF this, of "cfg_edges g"] assms(1) show ?thesis
    by (simp add: recompute_predecessors_def cfg_edges_iff)
qed

end
