(* ===== verification/OptPasses.thy ===== *)
theory OptPasses
  imports MirCfg
begin

text \<open>
  The scalar passes of \<open>compiler/src/ir/optimization.rs\<close>: dead code elimination, constant
  folding, copy propagation, unreachable block elimination and control flow simplification,
  each as the rewriting of one function (the passes visit the functions of a module one by one),
  and trivial phi elimination's rewriting step (\<open>ir/trivial_phi.rs\<close>). A panic of the compiler is
  the left result.
\<close>

datatype panic = Panic

section \<open>Terminators\<close>

fun terminator_uses :: "IrTerminator \<Rightarrow> IrId list" where
  "terminator_uses (TCondBranch c t f) = [c]"
| "terminator_uses (TSwitch v cs d) = [v]"
| "terminator_uses (TReturn (Some v)) = [v]"
| "terminator_uses (TNoReturn c) = [c]"
| "terminator_uses _ = []"

fun replace_terminator_uses :: "(IrId \<rightharpoonup> IrId) \<Rightarrow> IrTerminator \<Rightarrow> IrTerminator" where
  "replace_terminator_uses \<rho> (TCondBranch c t f) = TCondBranch (rep \<rho> c) t f"
| "replace_terminator_uses \<rho> (TSwitch v cs d) = TSwitch (rep \<rho> v) cs d"
| "replace_terminator_uses \<rho> (TReturn (Some v)) = TReturn (Some (rep \<rho> v))"
| "replace_terminator_uses \<rho> (TNoReturn c) = TNoReturn (rep \<rho> c)"
| "replace_terminator_uses \<rho> t = t"

fun collect_terminator_uses :: "IrTerminator \<Rightarrow> IrId set \<Rightarrow> IrId set" where
  "collect_terminator_uses (TReturn (Some v)) S = insert v S"
| "collect_terminator_uses (TCondBranch c t f) S = insert c S"
| "collect_terminator_uses (TSwitch v cs d) S = insert v S"
| "collect_terminator_uses _ S = S"

section \<open>Dead code elimination\<close>

definition block_used :: "IrBasicBlock \<Rightarrow> IrId set" where
  "block_used b =
     (\<Union>p \<in> set (bb_phi_nodes b). snd ` set (phi_incoming p)) \<union>
     (\<Union>i \<in> set (bb_instructions b). set (uses i)) \<union>
     set (terminator_uses (bb_terminator b))"

definition find_used_registers :: "IrFunction \<Rightarrow> IrId set" where
  "find_used_registers f = (\<Union>b \<in> set (fn_blocks f). block_used b)"

definition dce_keeps :: "IrId set \<Rightarrow> IrInstruction \<Rightarrow> bool" where
  "dce_keeps used i =
     (case dest i of Some d \<Rightarrow> d \<in> used \<or> has_side_effects i | None \<Rightarrow> True)"

definition dce_block :: "IrId set \<Rightarrow> IrBasicBlock \<Rightarrow> IrBasicBlock" where
  "dce_block used b =
     b\<lparr>bb_phi_nodes := filter (\<lambda>p. phi_dest p \<in> used) (bb_phi_nodes b),
       bb_instructions := filter (dce_keeps used) (bb_instructions b)\<rparr>"

definition eliminate_dead_instructions :: "IrFunction \<Rightarrow> IrFunction \<times> nat" where
  "eliminate_dead_instructions f =
     (let used = find_used_registers f; f' = map_blocks (dce_block used) f
      in (f', sum_list (map (\<lambda>b. length (bb_instructions b)
                                 - length (filter (dce_keeps used) (bb_instructions b)))
                            (fn_blocks f))))"

section \<open>Constant folding\<close>

definition F64_EPSILON :: u64 where
  "F64_EPSILON = 0x3CB0000000000000"

fun fold_int_op :: "BinaryOp \<Rightarrow> u32 \<Rightarrow> u32 \<Rightarrow> panic + IrValue option" where
  "fold_int_op BAdd a b = Inr (Some (VI32 (a + b)))"
| "fold_int_op BSub a b = Inr (Some (VI32 (a - b)))"
| "fold_int_op BMul a b = Inr (Some (VI32 (a * b)))"
| "fold_int_op BDiv a b =
     (if b \<noteq> 0 then (case rust_sdiv a b of None \<Rightarrow> Inl Panic | Some c \<Rightarrow> Inr (Some (VI32 c)))
      else Inr None)"
| "fold_int_op BRem a b =
     (if b \<noteq> 0 then (case rust_srem a b of None \<Rightarrow> Inl Panic | Some c \<Rightarrow> Inr (Some (VI32 c)))
      else Inr None)"
| "fold_int_op BAnd a b = Inr (Some (VI32 (a AND b)))"
| "fold_int_op BOr a b = Inr (Some (VI32 (a OR b)))"
| "fold_int_op BXor a b = Inr (Some (VI32 (a XOR b)))"
| "fold_int_op BShl a b =
     (if 0 \<le> sint b \<and> sint b < 32 then Inr (Some (VI32 (push_bit (nat (sint b)) a))) else Inr None)"
| "fold_int_op BShr a b =
     (if 0 \<le> sint b \<and> sint b < 32 then Inr (Some (VI32 (signed_drop_bit (nat (sint b)) a)))
      else Inr None)"
| "fold_int_op _ a b = Inr None"

fun fold_float_op :: "BinaryOp \<Rightarrow> u64 \<Rightarrow> u64 \<Rightarrow> IrValue option" where
  "fold_float_op BFAdd a b = Some (VF64 (f64_add a b))"
| "fold_float_op BFSub a b = Some (VF64 (f64_sub a b))"
| "fold_float_op BFMul a b = Some (VF64 (f64_mul a b))"
| "fold_float_op BFDiv a b =
     (if \<not> fl_eq (f64_of b) (f64_of 0) then Some (VF64 (f64_div a b)) else None)"
| "fold_float_op _ a b = None"

text \<open>The arms of \<open>fold_binary_op\<close> ask for two \<open>I32\<close> or two \<open>F64\<close>: the two groups above.\<close>

definition fold_binary_op :: "BinaryOp \<Rightarrow> IrValue \<Rightarrow> IrValue \<Rightarrow> panic + IrValue option" where
  "fold_binary_op op l r =
     (case l of
        VI32 a \<Rightarrow> (case r of VI32 b \<Rightarrow> fold_int_op op a b | _ \<Rightarrow> Inr None)
      | VF64 a \<Rightarrow> (case r of VF64 b \<Rightarrow> Inr (fold_float_op op a b) | _ \<Rightarrow> Inr None)
      | _ \<Rightarrow> Inr None)"

definition f64_close :: "u64 \<Rightarrow> u64 \<Rightarrow> bool" where
  "f64_close a b = fl_lt (f64_of (f64_abs (f64_sub a b))) (f64_of F64_EPSILON)"

definition f64_far :: "u64 \<Rightarrow> u64 \<Rightarrow> bool" where
  "f64_far a b = fl_le (f64_of F64_EPSILON) (f64_of (f64_abs (f64_sub a b)))"

fun fold_int_cmp :: "CompareOp \<Rightarrow> u32 \<Rightarrow> u32 \<Rightarrow> bool option" where
  "fold_int_cmp CEq a b = Some (a = b)"
| "fold_int_cmp CNe a b = Some (a \<noteq> b)"
| "fold_int_cmp CLt a b = Some (sint a < sint b)"
| "fold_int_cmp CLe a b = Some (sint a \<le> sint b)"
| "fold_int_cmp CGt a b = Some (sint a > sint b)"
| "fold_int_cmp CGe a b = Some (sint a \<ge> sint b)"
| "fold_int_cmp _ a b = None"

fun fold_float_cmp :: "CompareOp \<Rightarrow> u64 \<Rightarrow> u64 \<Rightarrow> bool option" where
  "fold_float_cmp CFEq a b = Some (f64_close a b)"
| "fold_float_cmp CFNe a b = Some (f64_far a b)"
| "fold_float_cmp CFLt a b = Some (fl_lt (f64_of a) (f64_of b))"
| "fold_float_cmp CFLe a b = Some (fl_le (f64_of a) (f64_of b))"
| "fold_float_cmp CFGt a b = Some (fl_lt (f64_of b) (f64_of a))"
| "fold_float_cmp CFGe a b = Some (fl_le (f64_of b) (f64_of a))"
| "fold_float_cmp _ a b = None"

fun fold_bool_cmp :: "CompareOp \<Rightarrow> bool \<Rightarrow> bool \<Rightarrow> bool option" where
  "fold_bool_cmp CEq a b = Some (a = b)"
| "fold_bool_cmp CNe a b = Some (a \<noteq> b)"
| "fold_bool_cmp _ a b = None"

definition fold_comparison :: "CompareOp \<Rightarrow> IrValue \<Rightarrow> IrValue \<Rightarrow> IrValue option" where
  "fold_comparison op l r = map_option VBool
     (case l of
        VI32 a \<Rightarrow> (case r of VI32 b \<Rightarrow> fold_int_cmp op a b | _ \<Rightarrow> None)
      | VF64 a \<Rightarrow> (case r of VF64 b \<Rightarrow> fold_float_cmp op a b | _ \<Rightarrow> None)
      | VBool a \<Rightarrow> (case r of VBool b \<Rightarrow> fold_bool_cmp op a b | _ \<Rightarrow> None)
      | _ \<Rightarrow> None)"

type_synonym const_map = "IrId \<rightharpoonup> IrValue"

fun collect_const :: "IrInstruction \<Rightarrow> const_map \<Rightarrow> const_map" where
  "collect_const (IConst d v) C = C(d \<mapsto> v)"
| "collect_const _ C = C"

definition collect_constants :: "IrFunction \<Rightarrow> const_map" where
  "collect_constants f =
     fold (\<lambda>b C. fold collect_const (bb_instructions b) C) (fn_blocks f) Map.empty"

text \<open>One instruction of the second pass: its replacement and the constants from then on.\<close>

fun fold_inst :: "const_map \<Rightarrow> IrInstruction \<Rightarrow> panic + (IrInstruction \<times> const_map)" where
  "fold_inst C (IBinOp d op l r) =
     (case (C l, C r) of
        (Some lv, Some rv) \<Rightarrow>
          rbind (fold_binary_op op lv rv)
            (\<lambda>x. case x of Some v \<Rightarrow> Inr (IConst d v, C(d \<mapsto> v))
                         | None \<Rightarrow> Inr (IBinOp d op l r, C))
      | _ \<Rightarrow> Inr (IBinOp d op l r, C))"
| "fold_inst C (ICmp d op l r) =
     (case (C l, C r) of
        (Some lv, Some rv) \<Rightarrow>
          (case fold_comparison op lv rv of
             Some v \<Rightarrow> Inr (IConst d v, C(d \<mapsto> v))
           | None \<Rightarrow> Inr (ICmp d op l r, C))
      | _ \<Rightarrow> Inr (ICmp d op l r, C))"
| "fold_inst C i = Inr (i, C)"

fun fold_insts :: "const_map \<Rightarrow> IrInstruction list \<Rightarrow> panic + (IrInstruction list \<times> const_map)" where
  "fold_insts C [] = Inr ([], C)"
| "fold_insts C (i # is) =
     rbind (fold_inst C i) (\<lambda>(i', C'). rbind (fold_insts C' is) (\<lambda>(is', C''). Inr (i' # is', C'')))"

fun fold_blocks ::
  "const_map \<Rightarrow> (IrBlockId \<times> IrBasicBlock) list \<Rightarrow> panic + (IrBlockId \<times> IrBasicBlock) list" where
  "fold_blocks C [] = Inr []"
| "fold_blocks C ((i, b) # bs) =
     rbind (fold_insts C (bb_instructions b))
       (\<lambda>(is, C'). rbind (fold_blocks C' bs) (\<lambda>bs'. Inr ((i, b\<lparr>bb_instructions := is\<rparr>) # bs')))"

definition constant_folding :: "IrFunction \<Rightarrow> panic + IrFunction" where
  "constant_folding f =
     rbind (fold_blocks (collect_constants f) (cfg_blocks (fn_cfg f)))
       (\<lambda>bs. Inr (f\<lparr>fn_cfg := (fn_cfg f)\<lparr>cfg_blocks := bs\<rparr>\<rparr>))"

section \<open>Copy propagation\<close>

text \<open>The copies found, in block order, and the registers more than one of them defines.\<close>

fun collect_copy :: "IrInstruction \<Rightarrow> (IrId \<times> IrId) list \<times> IrId set \<Rightarrow> (IrId \<times> IrId) list \<times> IrId set" where
  "collect_copy (ICopy d s) (cs, multi) =
     (bt_insert d s cs, if map_of cs d \<noteq> None then insert d multi else multi)"
| "collect_copy _ acc = acc"

definition collect_copies :: "IrFunction \<Rightarrow> (IrId \<times> IrId) list \<times> IrId set" where
  "collect_copies f = fold (\<lambda>b. fold collect_copy (bb_instructions b)) (fn_blocks f) ([], {})"

fun chase :: "nat \<Rightarrow> (IrId \<rightharpoonup> IrId) \<Rightarrow> IrId \<Rightarrow> IrId \<Rightarrow> IrId" where
  "chase 0 cs dst root = root"
| "chase (Suc n) cs dst root =
     (case cs root of
        Some nxt \<Rightarrow> if nxt \<noteq> dst then chase n cs dst nxt else root
      | None \<Rightarrow> root)"

definition copy_roots :: "(IrId \<times> IrId) list \<Rightarrow> (IrId \<times> IrId) list" where
  "copy_roots cs = map (\<lambda>(d, s). (d, chase (length cs) (map_of cs) d s)) cs"

definition copy_map :: "IrFunction \<Rightarrow> (IrId \<times> IrId) list" where
  "copy_map f = (let (cs, multi) = collect_copies f in copy_roots (bt_retain (\<lambda>d. d \<notin> multi) cs))"

definition copy_block :: "(IrId \<rightharpoonup> IrId) \<Rightarrow> IrBasicBlock \<Rightarrow> IrBasicBlock" where
  "copy_block \<rho> b =
     b\<lparr>bb_instructions := map (replace_uses \<rho>) (bb_instructions b),
       bb_terminator := replace_terminator_uses \<rho> (bb_terminator b)\<rparr>"

definition copy_propagation :: "IrFunction \<Rightarrow> IrFunction \<times> bool" where
  "copy_propagation f =
     (let cs = copy_map f
      in if cs \<noteq> [] then (map_blocks (copy_block (map_of cs)) f, True) else (f, False))"

section \<open>Unreachable blocks\<close>

text \<open>
  The worklist of \<open>find_reachable\<close> is a stack: \<open>pop\<close> takes the last element pushed, so its head
  is the top. A target that is not a block is marked and not expanded.
\<close>

function reach_loop :: "IrControlFlowGraph \<Rightarrow> IrBlockId set \<Rightarrow> IrBlockId list \<Rightarrow> IrBlockId set" where
  "reach_loop g R [] = R"
| "reach_loop g R (i # wl) =
     (if i \<in> R then reach_loop g R wl
      else reach_loop g (insert i R) (rev (block_succs g i) @ wl))"
  by pat_completeness auto
termination
proof (relation "measures [\<lambda>(g, R, wl). card (fst ` set (cfg_blocks g) - R), \<lambda>(g, R, wl). length wl]",
       goal_cases)
  case (3 g R i wl)
  let ?D = "fst ` set (cfg_blocks g)"
  show ?case
  proof (cases "i \<in> ?D")
    case False
    then have "block_succs g i = []" "?D - insert i R = ?D - R"
      using get_block_dom [of g i] by auto
    then show ?thesis by simp
  next
    case True
    with 3 have "card (?D - insert i R) < card (?D - R)"
      by (intro psubset_card_mono) auto
    then show ?thesis by simp
  qed
qed auto

definition find_reachable :: "IrFunction \<Rightarrow> IrBlockId set" where
  "find_reachable f = reach_loop (fn_cfg f) {} [entry_block f]"

lemma reach_loop_closed:
  "\<forall>i \<in> R. set (block_succs g i) \<subseteq> R \<union> set wl \<Longrightarrow>
     R \<union> set wl \<subseteq> reach_loop g R wl \<and> succ_closed g (reach_loop g R wl)"
proof (induction g R wl rule: reach_loop.induct)
  case (1 g R)
  then show ?case by (auto simp: succ_closed_def)
next
  case (2 g R i wl)
  then show ?case by (cases "i \<in> R") auto
qed

lemma reach_loop_least:
  "R \<union> set wl \<subseteq> S \<Longrightarrow> succ_closed g S \<Longrightarrow> reach_loop g R wl \<subseteq> S"
proof (induction g R wl rule: reach_loop.induct)
  case (2 g R i wl)
  then show ?case by (cases "i \<in> R") (auto simp: succ_closed_def)
qed auto

lemma find_reachable_iff: "i \<in> find_reachable f \<longleftrightarrow> cfg_reach (fn_cfg f) (entry_block f) i"
proof -
  let ?R = "reach_loop (fn_cfg f) {} [entry_block f]" and ?S = "{i. cfg_reach (fn_cfg f) (entry_block f) i}"
  have "?R \<subseteq> ?S" by (rule reach_loop_least) (auto simp: succ_closed_reach reach_entry)
  moreover have "?S \<subseteq> ?R"
    using reach_loop_closed [of "{}" "fn_cfg f" "[entry_block f]"] by (auto dest: cfg_reach_closed)
  ultimately show ?thesis by (auto simp: find_reachable_def)
qed

definition prune_block :: "IrBlockId set \<Rightarrow> IrBasicBlock \<Rightarrow> IrBasicBlock" where
  "prune_block R b =
     b\<lparr>bb_predecessors := filter (\<lambda>p. p \<in> R) (bb_predecessors b),
       bb_phi_nodes := map (\<lambda>p. p\<lparr>phi_incoming := filter (\<lambda>(pb, v). pb \<in> R) (phi_incoming p)\<rparr>)
                           (bb_phi_nodes b)\<rparr>"

definition unreachable_block_elimination :: "IrFunction \<Rightarrow> IrFunction \<times> nat" where
  "unreachable_block_elimination f =
     (let R = find_reachable f; bs = cfg_blocks (fn_cfg f); bs' = bt_retain (\<lambda>i. i \<in> R) bs;
          eliminated = length bs - length bs'
      in (f\<lparr>fn_cfg := (fn_cfg f)\<lparr>cfg_blocks :=
              (if 0 < eliminated then bt_map (prune_block R) bs' else bs')\<rparr>\<rparr>, eliminated))"

section \<open>Control flow simplification\<close>

definition simplify_terminator :: "const_map \<Rightarrow> IrTerminator \<Rightarrow> IrTerminator" where
  "simplify_terminator C t =
     (case t of
        TCondBranch c tt ff \<Rightarrow>
          (case C c of Some (VBool v) \<Rightarrow> TBranch (if v then tt else ff) | _ \<Rightarrow> t)
      | _ \<Rightarrow> t)"

definition simplify_conditional_branches :: "IrFunction \<Rightarrow> IrFunction" where
  "simplify_conditional_branches f =
     (let C = collect_constants f
      in map_blocks (\<lambda>b. b\<lparr>bb_terminator := simplify_terminator C (bb_terminator b)\<rparr>) f)"

section \<open>Trivial phis\<close>

text \<open>
  The rewriting of \<open>trivial_phi::eliminate\<close> by the map from removed phis to their values, which
  \<open>loop_unswitch::renamings\<close> computes.
\<close>

definition trivial_phi_block :: "(IrId \<rightharpoonup> IrId) \<Rightarrow> IrBasicBlock \<Rightarrow> IrBasicBlock" where
  "trivial_phi_block \<rho> b =
     b\<lparr>bb_phi_nodes :=
         map (\<lambda>p. p\<lparr>phi_incoming := map (\<lambda>(pb, v). (pb, rep \<rho> v)) (phi_incoming p)\<rparr>)
             (filter (\<lambda>p. \<rho> (phi_dest p) = None) (bb_phi_nodes b)),
       bb_instructions := map (replace_uses \<rho>) (bb_instructions b),
       bb_terminator := replace_terminator_uses \<rho> (bb_terminator b)\<rparr>"

end
