(* ===== verification/MirAbi.thy ===== *)
theory MirAbi
  imports MirCfg
begin

text \<open>
  Modules (\<open>ir/modules.rs\<close>, the tables of functions) and the hidden parameters of a function
  (\<open>ir/abi.rs\<close>): which functions are reached through a pointer, and which therefore carry a
  closure environment before their declared parameters.
\<close>

record IrExternFunction =
  ext_id :: IrFunctionId
  ext_name :: string
  ext_signature :: IrFunctionSignature
  ext_source :: string

record IrModule =
  mod_name :: string
  mod_functions :: "(IrFunctionId \<times> IrFunction) list"
  mod_externs :: "(IrFunctionId \<times> IrExternFunction) list"

section \<open>Functions reached other than by name\<close>

fun indirect_of_inst :: "bool \<Rightarrow> IrInstruction \<Rightarrow> IrFunctionId set" where
  "indirect_of_inst vtable (IFunctionRef _ f) = {f}"
| "indirect_of_inst vtable (IMakeClosure _ f _) = {f}"
| "indirect_of_inst vtable (ICallDirect _ f _ _ _ _) = (if vtable then {f} else {})"
| "indirect_of_inst vtable _ = {}"

definition collect_indirect_targets :: "IrModule \<Rightarrow> IrFunctionId set" where
  "collect_indirect_targets md =
     (\<Union>(i, f) \<in> set (mod_functions md). \<Union>b \<in> set (fn_blocks f). \<Union>inst \<in> set (bb_instructions b).
        indirect_of_inst (fn_name f = ''__vtable_init__'') inst)"

definition indirect_targets :: "IrModule list \<Rightarrow> IrFunctionId set" where
  "indirect_targets mds = (\<Union>md \<in> set mds. collect_indirect_targets md)"

section \<open>Hidden environments\<close>

definition starts_with :: "string \<Rightarrow> string \<Rightarrow> bool" where
  "starts_with s p = (take (length p) s = p)"

definition is_entry :: "IrFunction \<Rightarrow> bool" where
  "is_entry f =
     (fn_name f = ''main'' \<or> fn_name f = ''__vtable_init__'' \<or> fn_name f = ''__init__'' \<or>
      starts_with (fn_name f) ''Main'')"

definition is_extern :: "IrFunction \<Rightarrow> bool" where
  "is_extern f = (cfg_blocks (fn_cfg f) = [])"

definition names_env :: "IrFunction \<Rightarrow> bool" where
  "names_env f =
     (case sig_parameters (fn_signature f) of p # _ \<Rightarrow> par_name p = ''env'' | [] \<Rightarrow> False)"

definition carries_hidden_env :: "IrFunction \<Rightarrow> bool" where
  "carries_hidden_env f =
     (\<not> is_extern f \<and> \<not> names_env f \<and> sig_calling_convention (fn_signature f) \<noteq> CcC)"

definition needs_env_param :: "IrFunction \<Rightarrow> IrFunctionId \<Rightarrow> IrFunctionId set \<Rightarrow> bool" where
  "needs_env_param f i indirect = (carries_hidden_env f \<and> (i \<in> indirect \<or> is_entry f))"

lemma indirect_targets_append:
  "indirect_targets (ms @ ns) = indirect_targets ms \<union> indirect_targets ns"
  by (simp add: indirect_targets_def)

lemma needs_env_param_mono:
  "needs_env_param f i I \<Longrightarrow> I \<subseteq> J \<Longrightarrow> needs_env_param f i J"
  by (auto simp: needs_env_param_def)

end
