(* ===== verification/MirOps.thy ===== *)
theory MirOps
  imports MirInstr
begin

text \<open>
  The typed form the MIR interpreter runs (\<open>codegen/mir_interpreter/decode.rs\<close>): conversions,
  operations, edges and terminators, and the value each pure operation computes
  (\<open>Conv::apply\<close>, and \<open>ibin\<close>, \<open>fbin\<close>, \<open>icmp\<close>, \<open>fcmp\<close> and \<open>math\<close> of \<open>exec.rs\<close>). The source's
  one enum of operations is split into those that only read and write registers, those that touch
  memory and those that leave the frame.
\<close>

type_synonym Reg = nat

section \<open>Errors\<close>

text \<open>
  What the decoder refuses, one constructor per message; the decoded function traps there.
\<close>

datatype DecodeError =
    DePanic string
  | DeLoadVoid
  | DeCastVoid
  | DeBitcastVoid
  | DeAtomicVoid
  | DeIndices nat
  | DePtrAdd IrType
  | DeSignature IrType
  | DeClosureStruct
  | DeCast Mt Mt
  | DeBitcast Mt Mt
  | DeNotStruct IrType
  | DeNoAggregate IrId
  | DeFieldIndex nat
  | DeUnsupported IrInstruction
  | DeConstant IrValue
  | DeUnresolved string
  | DeNoFunction IrFunctionId
  | DeNoGlobals
  | DeNoType IrId
  | DeFloatCompare CompareOp
  | DeIntCompare CompareOp
  | DeArgCount string nat nat
  | DeSetJmp
  | DeNoBlock IrBlockId
  | DeNoIncoming IrId IrBlockId
  | DeMissingReturn

text \<open>The message of a trap: a decoding error in the named function, or a terminator's own.\<close>

datatype TrapMsg =
    TrapIn DecodeError string
  | TrapTerm DecodeError
  | TrapUnreachable
  | TrapNoReturn

text \<open>
  The \<open>InterpError\<close>s a run ends in, one constructor per message. \<open>NullThrown\<close> is a null access
  inside a \<open>try\<close>, which throws instead of returning; \<open>Undefined\<close> is an access to memory that is
  not mapped, where the source has undefined behaviour.
\<close>

datatype InterpError =
    BadConversion
  | IntegerOverflow
  | DivisionByZero
  | NullRead u64
  | NullWrite u64
  | NullAtomic
  | NullArrayHeader
  | NullClone
  | NullCall
  | NullThrown
  | VectorAccess
  | VectorCode
  | UseAfterMove string
  | Fault TrapMsg
  | OutOfMemory
  | StackOverflow
  | PoppedOutside
  | NativeFailed string
  | Undefined

section \<open>Conversions\<close>

datatype Conv =
    CvSext Mt Mt
  | CvUext Mt Mt
  | CvReduce Mt
  | CvSToF Mt Mt
  | CvUToF Mt Mt
  | CvFToS Mt Mt
  | CvFToU Mt Mt
  | CvFToSSat Mt Mt
  | CvFPromote
  | CvFDemote
  | CvBits Mt

fun conv_to :: "Conv \<Rightarrow> Mt" where
  "conv_to (CvSext _ t) = t"
| "conv_to (CvUext _ t) = t"
| "conv_to (CvSToF _ t) = t"
| "conv_to (CvUToF _ t) = t"
| "conv_to (CvFToS _ t) = t"
| "conv_to (CvFToU _ t) = t"
| "conv_to (CvFToSSat _ t) = t"
| "conv_to (CvReduce t) = t"
| "conv_to (CvBits t) = t"
| "conv_to CvFPromote = MtF64"
| "conv_to CvFDemote = MtF32"

text \<open>The bounds of \<open>v as iN\<close> for the integer types a saturating conversion goes to.\<close>

definition sat_bits :: "Mt \<Rightarrow> nat" where
  "sat_bits m = (case m of MtI8 \<Rightarrow> 8 | MtI16 \<Rightarrow> 16 | MtI32 \<Rightarrow> 32 | _ \<Rightarrow> 64)"

definition f64_as_signed :: "nat \<Rightarrow> u64 \<Rightarrow> int" where
  "f64_as_signed n v = fl_as_int (- (2 ^ (n - 1))) (2 ^ (n - 1) - 1) (f64_of v)"

definition f64_as_unsigned :: "nat \<Rightarrow> u64 \<Rightarrow> int" where
  "f64_as_unsigned n v = fl_as_int 0 (2 ^ n - 1) (f64_of v)"

definition f64_pow2 :: "nat \<Rightarrow> u64" where
  "f64_pow2 n = f64_of_int (2 ^ n)"

fun conv_apply :: "Conv \<Rightarrow> u64 \<Rightarrow> InterpError + u64" where
  "conv_apply (CvSext from t) b = Inr (canon (sext b from) t)"
| "conv_apply (CvUext from t) b = Inr (canon b t)"
| "conv_apply (CvReduce t) b = Inr (canon b t)"
| "conv_apply (CvBits t) b = Inr (canon b t)"
| "conv_apply (CvSToF from t) b = Inr (mt_float_bits (f64_of_int (sint (sext b from))) t)"
| "conv_apply (CvUToF from t) b = Inr (mt_float_bits (f64_of_int (uint b)) t)"
| "conv_apply (CvFToS from t) b =
     (let v = mt_float b from; tr = f64_trunc v; half = f64_pow2 (mt_bits t - 1)
      in if fl_is_nan (f64_of v) then Inl BadConversion
         else if fl_lt (f64_of tr) (f64_of (f64_neg half)) \<or> fl_le (f64_of half) (f64_of tr)
         then Inl IntegerOverflow
         else Inr (canon (word_of_int (f64_as_signed 64 tr)) t))"
| "conv_apply (CvFToU from t) b =
     (let v = mt_float b from; tr = f64_trunc v
      in if fl_is_nan (f64_of v) then Inl BadConversion
         else if fl_lt (f64_of tr) (f64_of 0) \<or> fl_le (f64_of (f64_pow2 (mt_bits t))) (f64_of tr)
         then Inl IntegerOverflow
         else Inr (canon (word_of_int (f64_as_unsigned 64 tr)) t))"
| "conv_apply (CvFToSSat from t) b =
     Inr (canon (word_of_int (f64_as_signed (sat_bits t) (mt_float b from))) t)"
| "conv_apply CvFPromote b = Inr (f64_of_f32 (ucast b))"
| "conv_apply CvFDemote b = Inr (ucast (f32_of_f64 b))"

definition convert :: "u64 \<Rightarrow> Conv option \<Rightarrow> Conv option \<Rightarrow> InterpError + u64" where
  "convert v c1 c2 =
     rbind (case c1 of Some c \<Rightarrow> conv_apply c v | None \<Rightarrow> Inr v)
       (\<lambda>v. case c2 of Some c \<Rightarrow> conv_apply c v | None \<Rightarrow> Inr v)"

section \<open>Operators\<close>

datatype IntOp =
    IoAdd | IoSub | IoMul | IoSDiv | IoUDiv | IoSRem | IoURem
  | IoAnd | IoOr | IoXor | IoShl | IoSShr | IoUShr

datatype FloatOp = FoAdd | FoSub | FoMul | FoDiv | FoRem

datatype IntCc = IcEq | IcNe | IcSlt | IcSle | IcSgt | IcSge | IcUlt | IcUle | IcUgt | IcUge

datatype FloatCc = FcEq | FcNe | FcLt | FcLe | FcGt | FcGe | FcOrd | FcUno

datatype Intrinsic = InSqrt | InAbs | InFloor | InCeil | InRound

text \<open>A shift count is masked by the width less one, as Cranelift does.\<close>

definition shift_mask :: "Mt \<Rightarrow> u64 \<Rightarrow> nat" where
  "shift_mask m b = unat (b AND (word_of_nat (mt_bits m) - 1))"

definition sext_min :: "Mt \<Rightarrow> u64" where
  "sext_min m = sext (push_bit (mt_bits m - 1) 1) m"

fun ibin_raw :: "IntOp \<Rightarrow> Mt \<Rightarrow> u64 \<Rightarrow> u64 \<Rightarrow> InterpError + u64" where
  "ibin_raw IoAdd m a b = Inr (a + b)"
| "ibin_raw IoSub m a b = Inr (a - b)"
| "ibin_raw IoMul m a b = Inr (a * b)"
| "ibin_raw IoSDiv m a b =
     (let x = sext a m; y = sext b m
      in if y = 0 then Inl DivisionByZero
         else if y = - 1 \<and> x = sext_min m then Inl IntegerOverflow
         else Inr (word_of_int (sint x sdiv sint y)))"
| "ibin_raw IoUDiv m a b = (if b = 0 then Inl DivisionByZero else Inr (a div b))"
| "ibin_raw IoSRem m a b =
     (let x = sext a m; y = sext b m
      in if y = 0 then Inl DivisionByZero else Inr (wrapping_srem x y))"
| "ibin_raw IoURem m a b = (if b = 0 then Inl DivisionByZero else Inr (a mod b))"
| "ibin_raw IoAnd m a b = Inr (a AND b)"
| "ibin_raw IoOr m a b = Inr (a OR b)"
| "ibin_raw IoXor m a b = Inr (a XOR b)"
| "ibin_raw IoShl m a b = Inr (push_bit (shift_mask m b) a)"
| "ibin_raw IoSShr m a b = Inr (signed_drop_bit (shift_mask m b) (sext a m))"
| "ibin_raw IoUShr m a b = Inr (drop_bit (shift_mask m b) a)"

definition ibin :: "IntOp \<Rightarrow> Mt \<Rightarrow> u64 \<Rightarrow> u64 \<Rightarrow> InterpError + u64" where
  "ibin op m a b = rbind (ibin_raw op m a b) (\<lambda>v. Inr (canon v m))"

fun fbin32 :: "FloatOp \<Rightarrow> u32 \<Rightarrow> u32 \<Rightarrow> u32" where
  "fbin32 FoAdd x y = f32_add x y"
| "fbin32 FoSub x y = f32_sub x y"
| "fbin32 FoMul x y = f32_mul x y"
| "fbin32 FoDiv x y = f32_div x y"
| "fbin32 FoRem x y = f32_sub x (f32_mul (f32_trunc (f32_div x y)) y)"

fun fbin64 :: "FloatOp \<Rightarrow> u64 \<Rightarrow> u64 \<Rightarrow> u64" where
  "fbin64 FoAdd x y = f64_add x y"
| "fbin64 FoSub x y = f64_sub x y"
| "fbin64 FoMul x y = f64_mul x y"
| "fbin64 FoDiv x y = f64_div x y"
| "fbin64 FoRem x y = f64_sub x (f64_mul (f64_trunc (f64_div x y)) y)"

definition fbin :: "FloatOp \<Rightarrow> Mt \<Rightarrow> u64 \<Rightarrow> u64 \<Rightarrow> u64" where
  "fbin op m a b = (if m = MtF32 then ucast (fbin32 op (ucast a) (ucast b)) else fbin64 op a b)"

fun icmp :: "IntCc \<Rightarrow> Mt \<Rightarrow> u64 \<Rightarrow> u64 \<Rightarrow> bool" where
  "icmp IcEq m a b = (canon a m = canon b m)"
| "icmp IcNe m a b = (canon a m \<noteq> canon b m)"
| "icmp IcSlt m a b = (sint (sext a m) < sint (sext b m))"
| "icmp IcSle m a b = (sint (sext a m) \<le> sint (sext b m))"
| "icmp IcSgt m a b = (sint (sext a m) > sint (sext b m))"
| "icmp IcSge m a b = (sint (sext a m) \<ge> sint (sext b m))"
| "icmp IcUlt m a b = (uint (canon a m) < uint (canon b m))"
| "icmp IcUle m a b = (uint (canon a m) \<le> uint (canon b m))"
| "icmp IcUgt m a b = (uint (canon a m) > uint (canon b m))"
| "icmp IcUge m a b = (uint (canon a m) \<ge> uint (canon b m))"

fun fcmp :: "FloatCc \<Rightarrow> Mt \<Rightarrow> u64 \<Rightarrow> u64 \<Rightarrow> bool" where
  "fcmp FcEq m a b = fl_eq (f64_of (mt_float a m)) (f64_of (mt_float b m))"
| "fcmp FcNe m a b = (\<not> fl_eq (f64_of (mt_float a m)) (f64_of (mt_float b m)))"
| "fcmp FcLt m a b = fl_lt (f64_of (mt_float a m)) (f64_of (mt_float b m))"
| "fcmp FcLe m a b = fl_le (f64_of (mt_float a m)) (f64_of (mt_float b m))"
| "fcmp FcGt m a b = fl_lt (f64_of (mt_float b m)) (f64_of (mt_float a m))"
| "fcmp FcGe m a b = fl_le (f64_of (mt_float b m)) (f64_of (mt_float a m))"
| "fcmp FcOrd m a b =
     (\<not> fl_is_nan (f64_of (mt_float a m)) \<and> \<not> fl_is_nan (f64_of (mt_float b m)))"
| "fcmp FcUno m a b =
     (fl_is_nan (f64_of (mt_float a m)) \<or> fl_is_nan (f64_of (mt_float b m)))"

definition bool_bits :: "bool \<Rightarrow> u64" where
  "bool_bits b = (if b then 1 else 0)"

text \<open>\<open>r as i32\<close> saturates; \<open>Round\<close> rounds a half up.\<close>

definition f32_as_i32 :: "u32 \<Rightarrow> u64" where
  "f32_as_i32 r = canon (word_of_int (fl_as_int (- (2 ^ 31)) (2 ^ 31 - 1) (f32_of r))) MtI32"

definition f64_as_i32 :: "u64 \<Rightarrow> u64" where
  "f64_as_i32 r = canon (word_of_int (f64_as_signed 32 r)) MtI32"

definition f32_round_half_up :: "u32 \<Rightarrow> u32" where
  "f32_round_half_up x =
     (let down = f32_floor x
      in if fl_le (f32_of 0x3F000000) (f32_of (f32_sub x down)) then f32_add down 0x3F800000
         else down)"

definition f64_round_half_up :: "u64 \<Rightarrow> u64" where
  "f64_round_half_up x =
     (let down = f64_floor x
      in if fl_le (f64_of 0x3FE0000000000000) (f64_of (f64_sub x down))
         then f64_add down 0x3FF0000000000000 else down)"

fun math32 :: "Intrinsic \<Rightarrow> u32 \<Rightarrow> u64" where
  "math32 InSqrt x = ucast (f32_sqrt x)"
| "math32 InAbs x = ucast (f32_abs x)"
| "math32 InFloor x = f32_as_i32 (f32_floor x)"
| "math32 InCeil x = f32_as_i32 (f32_ceil x)"
| "math32 InRound x = f32_as_i32 (f32_round_half_up x)"

fun math64 :: "Intrinsic \<Rightarrow> u64 \<Rightarrow> u64" where
  "math64 InSqrt x = f64_sqrt x"
| "math64 InAbs x = f64_abs x"
| "math64 InFloor x = f64_as_i32 (f64_floor x)"
| "math64 InCeil x = f64_as_i32 (f64_ceil x)"
| "math64 InRound x = f64_as_i32 (f64_round_half_up x)"

definition math :: "Intrinsic \<Rightarrow> Mt \<Rightarrow> u64 \<Rightarrow> u64" where
  "math k m b = (if m = MtF32 then math32 k (ucast b) else math64 k b)"

section \<open>Operations\<close>

datatype Src = SrcReg Reg | SrcImm u64 | SrcSlot nat

datatype Target = TgInterp nat IrFunctionId | TgNative u64

record Call =
  call_target :: Target
  call_args :: "(Src \<times> Mt) list"
  call_ret :: "Mt option"
  call_sret :: "(nat \<times> nat) option"
  call_dest :: "Reg option"

record IndirectCall =
  ic_closure :: Reg
  ic_args :: "(Reg \<times> Mt) list"
  ic_ret :: "Mt option"
  ic_dest :: "Reg option"

datatype GlobalSlot = GsAddress u64 | GsRuntime IrGlobalId u64 u64

datatype FnRef = FrAddress u64 | FrFunction nat IrFunctionId

datatype RegOp =
    RConst Reg u64
  | RCopy Reg Reg
  | RConv Reg Reg Conv
  | RIBin Reg IntOp Mt Reg Reg
  | RFBin Reg FloatOp Mt Reg Reg
  | RFma Reg Mt Reg Reg Reg bool bool
  | RICmp Reg IntCc Mt Reg Reg
  | RFCmp Reg FloatCc Mt Reg Reg
  | RINeg Reg Mt Reg
  | RFNeg Reg Mt Reg
  | RBNot Reg Mt Reg
  | RIsZero Reg Reg
  | RSelect Reg Reg Reg Reg
  | RSlotAddr Reg nat
  | RAddrIndex Reg Reg Reg Mt int
  | RMath Reg Intrinsic Reg Mt
  | REnv Reg

datatype MemOp =
    MLoad Reg Mt Reg int
  | MStore Mt Reg Reg int
  | MArrayHeader Reg Reg int bool
  | MArrayGetPtr Reg Reg Reg Mt
  | MGlobalLoad Reg Mt GlobalSlot
  | MGlobalStore Reg Mt GlobalSlot
  | MMemCopy Reg Reg Reg Mt
  | MMemSet Reg Reg Reg Mt
  | MAtomicLoad Reg Mt Reg
  | MAtomicStore Mt Reg Reg
  | MAtomicRmw Reg Mt AtomicRmwOp Reg Reg
  | MAtomicCas Reg Mt Reg Reg Reg
  | MCloneObject Reg Reg
  | MFree Reg
  | MClosure Reg FnRef "(Reg \<times> Mt) list"
  | MFnAddr Reg nat IrFunctionId
  | MStr Reg u64 u64 nat
  | MMarkMoved nat
  | MCheckLive nat string nat

datatype CtlOp =
    CtCall Call
  | CtCallIndirect IndirectCall
  | CtSetJmp Reg Reg
  | CtHandlerPopped
  | CtBail
  | CtTrap TrapMsg

datatype Op = OReg RegOp | OMem MemOp | OCtl CtlOp

record Edge =
  edge_block :: nat
  edge_moves :: "(Reg \<times> Reg \<times> Conv option \<times> Conv option) list"

datatype Term =
    TmJump Edge
  | TmBrif Reg Edge Edge
  | TmSwitch Reg Mt "(u64 \<times> Edge) list" Edge
  | TmReturn "Reg option"
  | TmReturnSret Reg "(int \<times> Mt) list"
  | TmTrap TrapMsg

record Block =
  blk_ops :: "Op list"
  blk_term :: Term

record Abi =
  abi_sret :: bool
  abi_hidden_env :: bool
  abi_params :: "Mt list"
  abi_ret :: "Mt option"

record Function =
  f_id :: IrFunctionId
  f_name :: string
  f_module :: nat
  f_block_ids :: "IrBlockId list"
  f_reg_mts :: "Mt list"
  f_abi :: Abi
  f_return_type :: IrType
  f_params :: "(Reg \<times> Mt) list"
  f_explicit_env :: bool
  f_registers :: nat
  f_slot_words :: nat
  f_live_slots :: nat
  f_entry :: nat
  f_blocks :: "Block list"

end
