(* ===== verification/MirDecode.thy ===== *)
theory MirDecode
  imports MirAbi MirOps
begin

text \<open>
  From MIR to the interpreter's typed form (\<open>codegen/mir_interpreter/decode.rs\<close>). The decoder's
  state holds the operations emitted so far for the block; what it reads from the module and the
  process is the context \<open>cx\<close>. A conversion the Cranelift lowering inserts implicitly is an
  operation of its own here, through a temporary register. What an instruction refuses becomes a
  trap at that instruction.
\<close>

section \<open>Layouts\<close>

fun field_size :: "IrType \<Rightarrow> nat" where
  "field_size TyI8 = 1"
| "field_size TyU8 = 1"
| "field_size TyBool = 1"
| "field_size TyI16 = 2"
| "field_size TyU16 = 2"
| "field_size TyI32 = 4"
| "field_size TyU32 = 4"
| "field_size TyF32 = 4"
| "field_size TyVoid = 0"
| "field_size (TyVector t n) = field_size t * n"
| "field_size _ = 8"

fun alloca_size :: "IrType \<Rightarrow> nat" where
  "alloca_size TyI8 = 1"
| "alloca_size TyU8 = 1"
| "alloca_size TyBool = 1"
| "alloca_size TyI16 = 2"
| "alloca_size TyU16 = 2"
| "alloca_size TyI32 = 4"
| "alloca_size TyU32 = 4"
| "alloca_size TyF32 = 4"
| "alloca_size (TyArray t n) = alloca_size t * n"
| "alloca_size _ = 8"

definition mt_of_default :: "IrType \<Rightarrow> Mt" where
  "mt_of_default t = (case mt_of_ty t of Some m \<Rightarrow> m | None \<Rightarrow> MtI64)"

definition as_i32 :: "nat \<Rightarrow> int" where
  "as_i32 n = sint (word_of_nat n :: u32)"

text \<open>The fields of a struct with their offsets, machine types and sizes.\<close>

fun layout_from :: "nat \<Rightarrow> StructField list \<Rightarrow> (int \<times> Mt \<times> nat) list" where
  "layout_from off [] = []"
| "layout_from off (f # fs) =
     (as_i32 off, mt_of_default (sf_ty f), field_size (sf_ty f))
       # layout_from (off + field_size (sf_ty f)) fs"

fun struct_layout :: "IrType \<Rightarrow> (int \<times> Mt \<times> nat) list option" where
  "struct_layout (TyStruct n fs) = Some (layout_from 0 fs)"
| "struct_layout _ = None"

definition layout_size :: "(int \<times> Mt \<times> nat) list \<Rightarrow> nat" where
  "layout_size l = sum_list (map (\<lambda>(off, m, s). s) l)"

definition struct_size :: "IrType \<Rightarrow> nat" where
  "struct_size t = (case struct_layout t of Some l \<Rightarrow> layout_size l | None \<Rightarrow> 8)"

section \<open>Coercions\<close>

definition is_signed :: "IrType \<Rightarrow> bool" where
  "is_signed t = (t \<in> {TyI8, TyI16, TyI32, TyI64})"

definition is_unsigned :: "IrType \<Rightarrow> bool" where
  "is_unsigned t = (t \<in> {TyU8, TyU16, TyU32, TyU64})"

definition is_primitive_int :: "IrType \<Rightarrow> bool" where
  "is_primitive_int t = (is_signed t \<or> is_unsigned t \<or> t = TyBool)"

fun int_register_mt :: "IrType option \<Rightarrow> Mt" where
  "int_register_mt (Some TyI8) = MtI8"
| "int_register_mt (Some TyU8) = MtI8"
| "int_register_mt (Some TyBool) = MtI8"
| "int_register_mt (Some TyI16) = MtI16"
| "int_register_mt (Some TyU16) = MtI16"
| "int_register_mt (Some TyI32) = MtI32"
| "int_register_mt (Some TyU32) = MtI32"
| "int_register_mt _ = MtI64"

definition resize :: "Mt \<Rightarrow> Mt \<Rightarrow> bool \<Rightarrow> Conv option" where
  "resize from to is_sg =
     (if from = to \<or> \<not> mt_is_int from \<or> \<not> mt_is_int to then None
      else if mt_bits from > mt_bits to then Some (CvReduce to)
      else if is_sg then Some (CvSext from to) else Some (CvUext from to))"

definition phi_coercion :: "Mt \<Rightarrow> Mt \<Rightarrow> Conv option \<times> Conv option" where
  "phi_coercion from to =
     (if from = to then (None, None)
      else if (from, to) \<in> {(MtI64, MtI32), (MtI64, MtI8), (MtI32, MtI8)} then (Some (CvReduce to), None)
      else if (from, to) \<in> {(MtI32, MtI64), (MtI8, MtI32), (MtI8, MtI64)}
      then (Some (CvSext from to), None)
      else if from \<in> {MtI8, MtI32, MtI64} \<and> mt_is_float to then (Some (CvSToF from to), None)
      else if mt_is_float from \<and> to = MtI8
      then (Some (CvFToS from MtI32), Some (CvReduce MtI8))
      else if mt_is_float from \<and> to \<in> {MtI32, MtI64} then (Some (CvFToS from to), None)
      else if from = MtF32 \<and> to = MtF64 then (Some CvFPromote, None)
      else if from = MtF64 \<and> to = MtF32 then (Some CvFDemote, None)
      else (Some (CvBits to), None))"

definition indirect_arg_coercion :: "Mt \<Rightarrow> Mt \<Rightarrow> Conv option" where
  "indirect_arg_coercion from to =
     (if from = to then None
      else if mt_is_int from \<and> mt_is_int to then
        (if mt_bits from < mt_bits to
         then (if from = MtI8 then Some (CvUext from to) else Some (CvSext from to))
         else Some (CvReduce to))
      else if mt_is_int from \<and> mt_is_float to then Some (CvSToF from to)
      else if from = MtF32 \<and> to = MtF64 then Some CvFPromote
      else if from = MtF64 \<and> to = MtF32 then Some CvFDemote
      else None)"

definition haxe_arg_coercion :: "Mt \<Rightarrow> Mt \<Rightarrow> Conv option" where
  "haxe_arg_coercion from to =
     (if from = to then None
      else if from = MtI32 \<and> to = MtI64 then Some (CvSext MtI32 MtI64)
      else if from = MtI64 \<and> to = MtI32 then Some (CvReduce MtI32)
      else if from \<in> {MtI32, MtI64} \<and> mt_is_float to then Some (CvSToF from to)
      else if from = MtF64 \<and> to \<in> {MtI64, MtI32} then Some (CvFToS MtF64 to)
      else None)"

definition c_extern_arg_coercion :: "Mt \<Rightarrow> IrType \<Rightarrow> Conv option" where
  "c_extern_arg_coercion from param =
     (if from \<in> {MtI32, MtI8} then
        (if param \<in> {TyI32, TyI64, TyNullInt, TyBool} then Some (CvSext from MtI64)
         else if param \<in> {TyU32, TyU64} then Some (CvUext from MtI64)
         else if param = TyF64 then Some (CvSToF from MtF64)
         else if param = TyF32 then Some (CvSToF from MtF32)
         else None)
      else if from = MtI64 then
        (if param = TyF64 then Some (CvSToF MtI64 MtF64)
         else if param = TyF32 then Some (CvSToF MtI64 MtF32)
         else None)
      else None)"

text \<open>\<open>abi_of\<close>: the native signature of a function.\<close>

definition widened_param :: "IrType \<Rightarrow> bool" where
  "widened_param t = (t \<in> {TyI32, TyU32, TyBool, TyI8})"

definition declared_mt :: "bool \<Rightarrow> IrParameter \<Rightarrow> Mt" where
  "declared_mt widen p =
     (if widen \<and> widened_param (par_ty p) then MtI64 else mt_of_default (par_ty p))"

definition abi_of :: "bool \<Rightarrow> IrFunction \<Rightarrow> bool \<Rightarrow> Abi" where
  "abi_of windows f hidden_env =
     (let sg = fn_signature f;
          c_extern = (is_extern f \<and> sig_calling_convention sg = CcC \<and> \<not> windows)
      in \<lparr>abi_sret = sig_uses_sret sg, abi_hidden_env = hidden_env,
          abi_params = (if sig_uses_sret sg then [MtI64] else []) @
                       (if hidden_env then [MtI64] else []) @
                       map (declared_mt c_extern) (sig_parameters sg),
          abi_ret = (if sig_uses_sret sg then None else mt_of_ty (sig_return_type sg))\<rparr>)"

section \<open>The decoder's state\<close>

record DecodeCtx =
  cx_module :: IrModule
  cx_module_addr :: nat
  cx_function :: IrFunction
  cx_indirect :: "IrFunctionId set"
  cx_symbol :: "string \<Rightarrow> u64 option"
  cx_literal :: "string \<Rightarrow> u64 \<times> nat"
  cx_global_slot :: "IrGlobalId \<Rightarrow> u64"
  cx_fma :: bool
  cx_windows :: bool

record Dec =
  dc_mts :: "Reg \<rightharpoonup> Mt"
  dc_next_reg :: nat
  dc_consts :: "Reg \<rightharpoonup> u64"
  dc_fmuls :: "Reg \<rightharpoonup> (Reg \<times> Reg \<times> nat)"
  dc_slot_bytes :: nat
  dc_live :: "IrId \<rightharpoonup> nat"
  dc_block_index :: "IrBlockId \<rightharpoonup> nat"
  dc_current_block :: nat
  dc_env_param :: bool
  dc_ops :: "Op list"

type_synonym 'a decoded = "(DecodeError + 'a) \<times> Dec"

definition set_mt :: "Reg \<Rightarrow> Mt \<Rightarrow> Dec \<Rightarrow> Dec" where
  "set_mt r m D = D\<lparr>dc_mts := (dc_mts D)(r \<mapsto> m)\<rparr>"

definition reg_mt :: "Dec \<Rightarrow> Reg \<Rightarrow> Mt" where
  "reg_mt D r = (case dc_mts D r of Some m \<Rightarrow> m | None \<Rightarrow> MtI64)"

definition temp :: "Mt \<Rightarrow> Dec \<Rightarrow> Reg \<times> Dec" where
  "temp m D = (dc_next_reg D, set_mt (dc_next_reg D) m (D\<lparr>dc_next_reg := dc_next_reg D + 1\<rparr>))"

definition emit :: "Op \<Rightarrow> Dec \<Rightarrow> Dec" where
  "emit op D = D\<lparr>dc_ops := dc_ops D @ [op]\<rparr>"

abbreviation emit_reg :: "RegOp \<Rightarrow> Dec \<Rightarrow> Dec" where
  "emit_reg op \<equiv> emit (OReg op)"

abbreviation emit_mem :: "MemOp \<Rightarrow> Dec \<Rightarrow> Dec" where
  "emit_mem op \<equiv> emit (OMem op)"

definition coerce :: "Reg \<Rightarrow> Conv option \<Rightarrow> Dec \<Rightarrow> Reg \<times> Dec" where
  "coerce src conv D =
     (case conv of
        None \<Rightarrow> (src, D)
      | Some c \<Rightarrow> let (d, D') = temp (conv_to c) D in (d, emit_reg (RConv d src c) D'))"

definition slot :: "nat \<Rightarrow> Dec \<Rightarrow> nat \<times> Dec" where
  "slot sz D =
     (let off = (dc_slot_bytes D + 7) div 8 * 8
      in (off mod 2 ^ 32, D\<lparr>dc_slot_bytes := off + max sz 1\<rparr>))"

definition reg_type :: "DecodeCtx \<Rightarrow> IrId \<Rightarrow> IrType option" where
  "reg_type cx r = map_of (fn_register_types (cx_function cx)) r"

definition local_type :: "DecodeCtx \<Rightarrow> IrId \<Rightarrow> IrType option" where
  "local_type cx r = map_option local_ty (map_of (fn_locals (cx_function cx)) r)"

definition fn_phis :: "IrFunction \<Rightarrow> IrPhiNode list" where
  "fn_phis f = concat (map bb_phi_nodes (fn_blocks f))"

definition phi_type :: "DecodeCtx \<Rightarrow> IrId list \<Rightarrow> IrType option" where
  "phi_type cx regs =
     map_option phi_ty (List.find (\<lambda>p. phi_dest p \<in> set regs) (fn_phis (cx_function cx)))"

definition or_else :: "'a option \<Rightarrow> 'a option \<Rightarrow> 'a option" where
  "or_else x y = (case x of None \<Rightarrow> y | Some a \<Rightarrow> Some a)"

definition fn_symbol :: "DecodeCtx \<Rightarrow> string \<Rightarrow> DecodeError + u64" where
  "fn_symbol cx nm = ok_or (DeUnresolved nm) (cx_symbol cx nm)"

definition fn_ref :: "DecodeCtx \<Rightarrow> IrFunctionId \<Rightarrow> DecodeError + FnRef" where
  "fn_ref cx i =
     (case map_of (mod_functions (cx_module cx)) i of
        Some f \<Rightarrow> if is_extern f then rbind (fn_symbol cx (fn_name f)) (\<lambda>a. Inr (FrAddress a))
                  else Inr (FrFunction (cx_module_addr cx) i)
      | None \<Rightarrow>
          (case map_of (mod_externs (cx_module cx)) i of
             Some e \<Rightarrow> rbind (fn_symbol cx (ext_name e)) (\<lambda>a. Inr (FrAddress a))
           | None \<Rightarrow> Inl (DeNoFunction i)))"

definition move_conv :: "Reg \<Rightarrow> Reg \<Rightarrow> Conv option \<Rightarrow> Dec \<Rightarrow> Dec" where
  "move_conv d s conv D =
     (case conv of None \<Rightarrow> emit_reg (RCopy d s) D | Some c \<Rightarrow> emit_reg (RConv d s c) D)"

definition zero_for :: "DecodeCtx \<Rightarrow> Reg \<Rightarrow> Mt \<times> u64" where
  "zero_for cx r =
     (let ty = reg_type cx r in
      if ty = Some TyNullInt then (MtI64, NULL_INT)
      else case Option.bind ty mt_of_ty of
             None \<Rightarrow> (MtI64, 0)
           | Some m \<Rightarrow> if m = MtV128 then (MtI64, 0) else (m, 0))"

section \<open>Constants\<close>

text \<open>The machine type and the bits of a scalar constant.\<close>

fun const_bits :: "IrValue \<Rightarrow> (Mt \<times> u64) option" where
  "const_bits (VI8 v) = Some (MtI8, ucast v)"
| "const_bits (VU8 v) = Some (MtI8, ucast v)"
| "const_bits (VBool b) = Some (MtI8, bool_bits b)"
| "const_bits (VI16 v) = Some (MtI16, ucast v)"
| "const_bits (VU16 v) = Some (MtI16, ucast v)"
| "const_bits (VI32 v) = Some (MtI32, ucast v)"
| "const_bits (VU32 v) = Some (MtI32, ucast v)"
| "const_bits (VI64 v) = Some (MtI64, v)"
| "const_bits (VU64 v) = Some (MtI64, v)"
| "const_bits (VF32 v) = Some (MtF32, ucast v)"
| "const_bits (VF64 v) = Some (MtF64, v)"
| "const_bits VNull = Some (MtI64, 0)"
| "const_bits _ = None"

fun decode_constant :: "DecodeCtx \<Rightarrow> Reg \<Rightarrow> IrValue \<Rightarrow> Dec \<Rightarrow> unit decoded" where
  "decode_constant cx d (VString s) D =
     (case fn_symbol cx ''haxe_string_literal'' of
        Inl e \<Rightarrow> (Inl e, D)
      | Inr lit \<Rightarrow> let (p, n) = cx_literal cx s
                  in (Inr (), emit_mem (MStr d lit p n) (set_mt d MtI64 D)))"
| "decode_constant cx d (VFunction f) D =
     (let D1 = set_mt d MtI64 D in
      case fn_ref cx f of
        Inl e \<Rightarrow> (Inl e, D1)
      | Inr (FrAddress a) \<Rightarrow> (Inr (), emit_reg (RConst d a) D1)
      | Inr (FrFunction md fn) \<Rightarrow> (Inr (), emit_mem (MFnAddr d md fn) D1))"
| "decode_constant cx d v D =
     (case const_bits v of
        None \<Rightarrow> (Inl (DeConstant v), D)
      | Some (m, b) \<Rightarrow>
          (Inr (), emit_reg (RConst d b)
             (set_mt d m (if mt_is_int m then D\<lparr>dc_consts := (dc_consts D)(d \<mapsto> sext b m)\<rparr> else D))))"

end
