(* ===== verification/MirDecodeInst.thy ===== *)
theory MirDecodeInst
  imports MirDecode
begin

text \<open>
  The instructions of \<open>codegen/mir_interpreter/decode.rs\<close>: \<open>binop\<close>, \<open>unop\<close>, \<open>cmp\<close>, direct calls
  with their intrinsics, and \<open>try_instruction\<close>.
\<close>

section \<open>Binary operators\<close>

definition binop_type :: "DecodeCtx \<Rightarrow> IrId \<Rightarrow> IrId \<Rightarrow> IrId \<Rightarrow> IrType option" where
  "binop_type cx d l r =
     or_else (reg_type cx d) (or_else (reg_type cx l) (or_else (reg_type cx r)
       (or_else (local_type cx d) (phi_type cx [l, r]))))"

definition expected_mt :: "IrType \<Rightarrow> Mt" where
  "expected_mt t =
     (if t \<in> {TyI32, TyU32, TyBool} then MtI32
      else if t = TyF32 then MtF32 else if t = TyF64 then MtF64 else MtI64)"

definition integer_only :: "BinaryOp \<Rightarrow> bool" where
  "integer_only op = (op \<in> {BAnd, BOr, BXor, BShl, BShr, BUshr})"

definition float_named :: "BinaryOp \<Rightarrow> bool" where
  "float_named op = (op \<in> {BFAdd, BFSub, BFMul, BFDiv, BFRem})"

definition larger_mt :: "Mt \<Rightarrow> Mt \<Rightarrow> Mt" where
  "larger_mt l r = (if mt_bits l \<ge> mt_bits r then l else r)"

definition binop_op_ty :: "BinaryOp \<Rightarrow> Mt \<Rightarrow> Mt \<Rightarrow> Mt \<Rightarrow> Mt" where
  "binop_op_ty op l r expected =
     (let both_int = (mt_is_int l \<and> mt_is_int r); larger = larger_mt l r in
      if integer_only op then
        (let operand = (if both_int then larger else if mt_is_int l then l
                        else if mt_is_int r then r
                        else if mt_is_int expected then expected else MtI32)
         in if mt_is_int expected \<and> mt_bits expected > mt_bits operand then expected else operand)
      else if both_int \<and> \<not> mt_is_int expected then larger
      else if mt_is_int larger \<and> mt_is_int expected \<and> mt_bits larger > mt_bits expected then larger
      else expected)"

definition binop_use_float :: "BinaryOp \<Rightarrow> Mt \<Rightarrow> Mt \<Rightarrow> Mt \<Rightarrow> bool" where
  "binop_use_float op l r op_ty =
     (\<not> integer_only op \<and>
      (mt_is_float l \<or> mt_is_float r \<or> mt_is_float op_ty \<or> float_named op))"

text \<open>The conversion of the operand with machine type \<open>v\<close>; \<open>other\<close> is the other operand's.\<close>

definition operand_conv :: "BinaryOp \<Rightarrow> IrType \<Rightarrow> Mt \<Rightarrow> bool \<Rightarrow> Mt \<Rightarrow> Mt \<Rightarrow> Conv option" where
  "operand_conv op ty op_ty use_float v other =
     (let sg = is_signed ty; signed_coercion = (op = BShr \<or> sg \<or> \<not> is_unsigned ty) in
      if integer_only op then
        (if v = op_ty then None
         else if mt_is_float v
         then Some (if signed_coercion then CvFToS v op_ty else CvFToU v op_ty)
         else resize v op_ty signed_coercion)
      else if use_float \<and> mt_is_int v then
        (let float_ty = (if mt_is_float other then other else MtF64)
         in Some (if sg \<or> v = MtI32 \<or> v = MtI64 then CvSToF v float_ty else CvUToF v float_ty))
      else if v \<noteq> op_ty \<and> mt_is_int v \<and> mt_is_int op_ty
      then Some (if sg then CvSext v op_ty else CvUext v op_ty)
      else None)"

fun float_op :: "BinaryOp \<Rightarrow> FloatOp" where
  "float_op BAdd = FoAdd"
| "float_op BFAdd = FoAdd"
| "float_op BSub = FoSub"
| "float_op BFSub = FoSub"
| "float_op BMul = FoMul"
| "float_op BFMul = FoMul"
| "float_op BDiv = FoDiv"
| "float_op BFDiv = FoDiv"
| "float_op _ = FoRem"

fun int_op :: "bool \<Rightarrow> BinaryOp \<Rightarrow> IntOp" where
  "int_op sg BAdd = IoAdd"
| "int_op sg BFAdd = IoAdd"
| "int_op sg BSub = IoSub"
| "int_op sg BFSub = IoSub"
| "int_op sg BMul = IoMul"
| "int_op sg BFMul = IoMul"
| "int_op sg BDiv = (if sg then IoSDiv else IoUDiv)"
| "int_op sg BFDiv = (if sg then IoSDiv else IoUDiv)"
| "int_op sg BRem = (if sg then IoSRem else IoURem)"
| "int_op sg BFRem = (if sg then IoSRem else IoURem)"
| "int_op sg BAnd = IoAnd"
| "int_op sg BOr = IoOr"
| "int_op sg BXor = IoXor"
| "int_op sg BShl = IoShl"
| "int_op sg BShr = IoSShr"
| "int_op sg BUshr = IoUShr"

text \<open>With \<open>RAYZOR_FMA\<close>, a sum of a product of the same block becomes one fused operation.\<close>

definition fused_with :: "Dec \<Rightarrow> Reg \<Rightarrow> (Reg \<times> Reg) option" where
  "fused_with D r =
     (case dc_fmuls D r of
        Some (x, y, blk) \<Rightarrow> if blk = dc_current_block D then Some (x, y) else None
      | None \<Rightarrow> None)"

definition fused :: "DecodeCtx \<Rightarrow> Dec \<Rightarrow> FloatOp \<Rightarrow> Reg \<Rightarrow> Reg \<Rightarrow> (Reg \<times> Reg \<times> Reg \<times> bool \<times> bool) option" where
  "fused cx D fop a b =
     (if \<not> cx_fma cx then None
      else case fop of
        FoAdd \<Rightarrow>
          (case fused_with D a of
             Some (x, y) \<Rightarrow> Some (x, y, b, False, False)
           | None \<Rightarrow> map_option (\<lambda>(x, y). (x, y, a, False, False)) (fused_with D b))
      | FoSub \<Rightarrow>
          (case fused_with D a of
             Some (x, y) \<Rightarrow> Some (x, y, b, False, True)
           | None \<Rightarrow> map_option (\<lambda>(x, y). (x, y, a, True, False)) (fused_with D b))
      | _ \<Rightarrow> None)"

definition widen_float :: "Mt \<Rightarrow> Reg \<Rightarrow> Dec \<Rightarrow> Reg \<times> Dec" where
  "widen_float m a D = coerce a (if reg_mt D a = m then None else Some CvFPromote) D"

text \<open>The operation at the wider float type, its result in a temporary.\<close>

definition float_binop :: "DecodeCtx \<Rightarrow> BinaryOp \<Rightarrow> Reg \<Rightarrow> Reg \<Rightarrow> Dec \<Rightarrow> Reg \<times> Dec" where
  "float_binop cx op a b D =
     (let m = (if reg_mt D a = MtF64 \<or> reg_mt D b = MtF64 then MtF64 else MtF32);
          (a', D1) = widen_float m a D; (b', D2) = widen_float m b D1;
          fop = float_op op; (res, D3) = temp m D2
      in case fused cx D3 fop a' b' of
           Some (x, y, c, na, nc) \<Rightarrow> (res, emit_reg (RFma res m x y c na nc) D3)
         | None \<Rightarrow>
             (let D4 = emit_reg (RFBin res fop m a' b') D3
              in (res, if fop = FoMul
                       then D4\<lparr>dc_fmuls := (dc_fmuls D4)(res \<mapsto> (a', b', dc_current_block D4))\<rparr>
                       else D4)))"

definition int_binop :: "BinaryOp \<Rightarrow> bool \<Rightarrow> Mt \<Rightarrow> Reg \<Rightarrow> Reg \<Rightarrow> Dec \<Rightarrow> Reg \<times> Dec" where
  "int_binop op sg op_ty a b D =
     (let m = (if mt_is_int (reg_mt D a) then reg_mt D a else op_ty); (res, D1) = temp m D
      in (res, emit_reg (RIBin res (int_op sg op) m a b) D1))"

text \<open>The conversion of the result back to the expected width.\<close>

definition final_conv :: "bool \<Rightarrow> Mt \<Rightarrow> Mt \<Rightarrow> Conv option" where
  "final_conv sg result expected =
     (if mt_is_float result \<and> mt_is_int expected
      then Some (if sg then CvFToS result expected else CvFToU result expected)
      else if mt_is_int result \<and> mt_is_int expected \<and> result \<noteq> expected
      then (if mt_bits result < mt_bits expected
            then Some (if sg then CvSext result expected else CvUext result expected)
            else Some (CvReduce expected))
      else None)"

definition decode_binop ::
  "DecodeCtx \<Rightarrow> IrId \<Rightarrow> BinaryOp \<Rightarrow> IrId \<Rightarrow> IrId \<Rightarrow> Dec \<Rightarrow> unit decoded" where
  "decode_binop cx d op l r D =
     (case binop_type cx d l r of
        None \<Rightarrow> (Inl (DeNoType d), D)
      | Some ty \<Rightarrow>
          (let lm = reg_mt D l; rm = reg_mt D r in
           if lm = MtV128 \<or> rm = MtV128 then (Inr (), emit (OCtl CtBail) (set_mt d MtV128 D))
           else
             (let expected = expected_mt ty; op_ty = binop_op_ty op lm rm expected;
                  uf = binop_use_float op lm rm op_ty; sg = is_signed ty;
                  (a, D1) = coerce l (operand_conv op ty op_ty uf lm rm) D;
                  (b, D2) = coerce r (operand_conv op ty op_ty uf rm lm) D1;
                  (res, D3) = (if uf \<and> mt_is_float (reg_mt D2 a) \<and> mt_is_float (reg_mt D2 b)
                               then float_binop cx op a b D2 else int_binop op sg op_ty a b D2);
                  rm' = reg_mt D3 res; fc = final_conv sg rm' expected;
                  D4 = set_mt d (case fc of Some c \<Rightarrow> conv_to c | None \<Rightarrow> rm') D3;
                  D5 = (case (fc, dc_fmuls D4 res) of
                          (None, Some m) \<Rightarrow> D4\<lparr>dc_fmuls := (dc_fmuls D4)(d \<mapsto> m)\<rparr>
                        | _ \<Rightarrow> D4)
              in (Inr (), move_conv d res fc D5))))"

section \<open>Unary operators and comparisons\<close>

definition neg_conv :: "Mt \<Rightarrow> Mt \<Rightarrow> Conv option" where
  "neg_conv v float_ty =
     (if mt_is_int v then Some (CvSToF v float_ty)
      else if v = MtF32 \<and> float_ty = MtF64 then Some CvFPromote
      else if v = MtF64 \<and> float_ty = MtF32 then Some CvFDemote
      else None)"

definition decode_unop :: "DecodeCtx \<Rightarrow> IrId \<Rightarrow> UnaryOp \<Rightarrow> IrId \<Rightarrow> Dec \<Rightarrow> unit decoded" where
  "decode_unop cx d op x D =
     (case or_else (reg_type cx d) (or_else (reg_type cx x)
             (or_else (local_type cx d) (phi_type cx [x]))) of
        None \<Rightarrow> (Inl (DeNoType d), D)
      | Some ty \<Rightarrow>
          (let ty_float = (ty \<in> {TyF32, TyF64});
               (v, D1) = (if op \<in> {UNeg, UFNeg} \<and> ty_float
                          then coerce x (neg_conv (reg_mt D x) (if ty = TyF32 then MtF32 else MtF64)) D
                          else (x, D));
               m = reg_mt D1 v
           in (Inr (),
               if op = UNeg \<and> ty_float \<or> op = UFNeg then emit_reg (RFNeg d m v) (set_mt d m D1)
               else if op = UNeg then emit_reg (RINeg d m v) (set_mt d m D1)
               else if ty = TyBool then emit_reg (RIsZero d v) (set_mt d MtI8 D1)
               else emit_reg (RBNot d m v) (set_mt d m D1))))"

definition is_float_cmp :: "CompareOp \<Rightarrow> bool" where
  "is_float_cmp op = (op \<in> {CFEq, CFNe, CFLt, CFLe, CFGt, CFGe, CFOrd, CFUno})"

fun float_cc :: "CompareOp \<Rightarrow> FloatCc option" where
  "float_cc CEq = Some FcEq"
| "float_cc CFEq = Some FcEq"
| "float_cc CNe = Some FcNe"
| "float_cc CFNe = Some FcNe"
| "float_cc CLt = Some FcLt"
| "float_cc CFLt = Some FcLt"
| "float_cc CLe = Some FcLe"
| "float_cc CFLe = Some FcLe"
| "float_cc CGt = Some FcGt"
| "float_cc CFGt = Some FcGt"
| "float_cc CGe = Some FcGe"
| "float_cc CFGe = Some FcGe"
| "float_cc CFOrd = Some FcOrd"
| "float_cc CFUno = Some FcUno"
| "float_cc _ = None"

fun int_cc :: "CompareOp \<Rightarrow> IntCc option" where
  "int_cc CEq = Some IcEq"
| "int_cc CNe = Some IcNe"
| "int_cc CLt = Some IcSlt"
| "int_cc CLe = Some IcSle"
| "int_cc CGt = Some IcSgt"
| "int_cc CGe = Some IcSge"
| "int_cc CULt = Some IcUlt"
| "int_cc CULe = Some IcUle"
| "int_cc CUGt = Some IcUgt"
| "int_cc CUGe = Some IcUge"
| "int_cc _ = None"

text \<open>\<open>lm\<close> and \<open>rm\<close> are the operands' machine types before the result's is set.\<close>

definition float_cmp ::
  "IrId \<Rightarrow> CompareOp \<Rightarrow> Mt \<Rightarrow> Mt \<Rightarrow> Reg \<Rightarrow> Reg \<Rightarrow> Dec \<Rightarrow> unit decoded" where
  "float_cmp d op lm rm l r D =
     (let (b, D1) = coerce r (if mt_is_float lm \<and> mt_is_int rm then Some (CvSToF rm lm) else None) D;
          (a, D2) = coerce l (if mt_is_int lm \<and> mt_is_float rm then Some (CvSToF lm rm) else None) D1;
          m = (if reg_mt D2 a = MtF64 \<or> reg_mt D2 b = MtF64 then MtF64 else MtF32);
          (a', D3) = widen_float m a D2; (b', D4) = widen_float m b D3
      in case float_cc op of
           Some cc \<Rightarrow> (Inr (), emit_reg (RFCmp d cc m a' b') D4)
         | None \<Rightarrow> (Inl (DeFloatCompare op), D4))"

definition int_cmp ::
  "IrId \<Rightarrow> CompareOp \<Rightarrow> bool \<Rightarrow> Mt \<Rightarrow> Mt \<Rightarrow> Reg \<Rightarrow> Reg \<Rightarrow> Dec \<Rightarrow> unit decoded" where
  "int_cmp d op sg lm rm l r D =
     (let sat = (\<lambda>m. if mt_is_float m then Some (CvFToSSat m MtI64) else None);
          (a, D1) = coerce l (sat lm) D; (b, D2) = coerce r (sat rm) D1;
          am = reg_mt D2 a; bm = reg_mt D2 b;
          differ = (am \<noteq> bm \<and> mt_is_int am \<and> mt_is_int bm);
          (b', D3) = coerce b (if differ \<and> mt_bits am > mt_bits bm then resize bm am sg else None) D2;
          (a', D4) = coerce a (if differ \<and> \<not> mt_bits am > mt_bits bm then resize am bm sg else None) D3
      in case int_cc op of
           Some cc \<Rightarrow> (Inr (), emit_reg (RICmp d cc (reg_mt D4 a') a' b') D4)
         | None \<Rightarrow> (Inl (DeIntCompare op), D4))"

definition decode_cmp ::
  "DecodeCtx \<Rightarrow> IrId \<Rightarrow> CompareOp \<Rightarrow> IrId \<Rightarrow> IrId \<Rightarrow> Dec \<Rightarrow> unit decoded" where
  "decode_cmp cx d op l r D =
     (case or_else (reg_type cx l) (or_else (local_type cx l) (phi_type cx [l])) of
        None \<Rightarrow> (Inl (DeNoType l), D)
      | Some ty \<Rightarrow>
          (let lm = reg_mt D l; rm = reg_mt D r; D1 = set_mt d MtI8 D in
           if mt_is_float lm \<and> mt_is_float rm \<or>
              is_float_cmp op \<and> (mt_is_float lm \<or> mt_is_float rm)
           then float_cmp d op lm rm l r D1
           else int_cmp d op (is_signed ty) lm rm l r D1))"

section \<open>Calls\<close>

text \<open>Arguments coerced from left to right, the \<open>i\<close>-th by \<open>conv i\<close> of its machine type.\<close>

fun coerce_args ::
  "(nat \<Rightarrow> Mt \<Rightarrow> Conv option) \<Rightarrow> nat \<Rightarrow> IrId list \<Rightarrow> Dec \<Rightarrow> (Reg \<times> Mt) list \<times> Dec" where
  "coerce_args conv i [] D = ([], D)"
| "coerce_args conv i (a # as) D =
     (let (r, D1) = coerce a (conv i (reg_mt D a)) D; m = reg_mt D1 r;
          (rs, D2) = coerce_args conv (i + 1) as D1
      in ((r, m) # rs, D2))"

definition nth_opt :: "'a list \<Rightarrow> nat \<Rightarrow> 'a option" where
  "nth_opt xs i = (if i < length xs then Some (xs ! i) else None)"

definition pad :: "(Reg \<times> Mt) list \<Rightarrow> Mt list \<Rightarrow> bool list \<Rightarrow> (Src \<times> Mt) list" where
  "pad args declared null_int =
     map (\<lambda>(r, m). (SrcReg r, m)) args @
     map (\<lambda>i. (SrcImm (if nth_opt null_int i = Some True then NULL_INT else 0), declared ! i))
         [length args..<length declared]"

definition emit_call ::
  "DecodeCtx \<Rightarrow> Target \<Rightarrow> (Src \<times> Mt) list \<Rightarrow> Mt option \<Rightarrow> (nat \<times> nat) option \<Rightarrow> Reg option
    \<Rightarrow> Dec \<Rightarrow> Dec" where
  "emit_call cx target args ret sret d D =
     (let c = \<lparr>call_target = target, call_args = args, call_ret = ret, call_sret = sret,
               call_dest = d\<rparr>
      in case d of
           None \<Rightarrow> emit (OCtl (CtCall c)) D
         | Some d \<Rightarrow>
             (let D1 = set_mt d (if sret \<noteq> None then MtI64
                                 else case ret of Some m \<Rightarrow> m | None \<Rightarrow> fst (zero_for cx d)) D
              in if ret = None \<and> sret = None
                 then emit_reg (RConst d (snd (zero_for cx d)))
                        (emit (OCtl (CtCall (c\<lparr>call_dest := None\<rparr>))) D1)
                 else emit (OCtl (CtCall c)) D1))"

definition decode_setjmp :: "Reg option \<Rightarrow> (Reg \<times> Mt) list \<Rightarrow> Dec \<Rightarrow> unit decoded" where
  "decode_setjmp d args D =
     (case args of
        [] \<Rightarrow> (Inl DeSetJmp, D)
      | (buf, m) # _ \<Rightarrow>
          (let (r, D1) = (case d of Some r \<Rightarrow> (r, D) | None \<Rightarrow> temp MtI32 D)
           in (Inr (), emit (OCtl (CtSetJmp r buf)) (set_mt r MtI32 D1))))"

definition intrinsic_kind :: "string \<Rightarrow> Intrinsic option" where
  "intrinsic_kind nm =
     (if nm = ''haxe_math_sqrt'' then Some InSqrt
      else if nm = ''haxe_math_abs'' then Some InAbs
      else if nm = ''haxe_math_floor'' then Some InFloor
      else if nm = ''haxe_math_ceil'' then Some InCeil
      else if nm = ''haxe_math_round'' then Some InRound else None)"

definition math_intrinsic ::
  "Intrinsic \<Rightarrow> Reg option \<Rightarrow> (Reg \<times> Mt) list \<Rightarrow> Dec \<Rightarrow> Dec option" where
  "math_intrinsic k d args D =
     (case args of
        [(arg, m)] \<Rightarrow>
          if \<not> (mt_is_float m \<or> m = MtI32 \<or> m = MtI64) then None
          else (let (a, D1) = coerce arg (if mt_is_float m then None else Some (CvSToF m MtF64)) D;
                    am = reg_mt D1 a;
                    rm = (if k = InSqrt \<or> k = InAbs then am else MtI32);
                    (r, D2) = (case d of Some r \<Rightarrow> (r, D1) | None \<Rightarrow> temp rm D1)
                in Some (emit_reg (RMath r k a am) (set_mt r rm D2)))
      | _ \<Rightarrow> None)"

definition std_int_intrinsic :: "Reg option \<Rightarrow> (Reg \<times> Mt) list \<Rightarrow> Dec \<Rightarrow> Dec option" where
  "std_int_intrinsic d args D =
     (case args of
        [(arg, m)] \<Rightarrow>
          (let conv = (if mt_is_float m then Some (CvFToSSat m MtI32)
                       else if m = MtI64 then Some (CvReduce MtI32) else None)
           in Some (case d of
                None \<Rightarrow> D
              | Some r \<Rightarrow>
                  move_conv r arg conv
                    (set_mt r (case conv of Some c \<Rightarrow> conv_to c | None \<Rightarrow> m) D)))
      | _ \<Rightarrow> None)"

text \<open>\<open>None\<close>: the call goes to the runtime after all.\<close>

definition intrinsic :: "string \<Rightarrow> Reg option \<Rightarrow> (Reg \<times> Mt) list \<Rightarrow> Dec \<Rightarrow> Dec option" where
  "intrinsic nm d args D =
     (case intrinsic_kind nm of
        Some k \<Rightarrow> math_intrinsic k d args D
      | None \<Rightarrow>
          if nm = ''haxe_std_int'' then std_int_intrinsic d args D
          else if nm = ''haxe_array_length'' then
            (case args of
               [(arr, m)] \<Rightarrow>
                 Some (case d of None \<Rightarrow> D
                       | Some r \<Rightarrow> emit_mem (MLoad r MtI64 arr 8) (set_mt r MtI64 D))
             | _ \<Rightarrow> None)
          else if nm = ''haxe_array_get_ptr'' then
            (case args of
               [(arr, m), (idx, im)] \<Rightarrow>
                 Some (case d of None \<Rightarrow> D
                       | Some r \<Rightarrow> emit_mem (MArrayGetPtr r arr idx im) (set_mt r MtI64 D))
             | _ \<Rightarrow> None)
          else None)"

text \<open>A call to a function of the extern table.\<close>

definition extern_declared :: "bool \<Rightarrow> IrFunctionSignature \<Rightarrow> Mt list" where
  "extern_declared c_conv sg =
     map (\<lambda>p. if c_conv \<and> par_ty p \<in> {TyI32, TyU32} then MtI64 else mt_of_default (par_ty p))
       (sig_parameters sg)"

definition extern_arg_conv :: "bool \<Rightarrow> IrFunctionSignature \<Rightarrow> nat \<Rightarrow> Mt \<Rightarrow> Conv option" where
  "extern_arg_conv c_conv sg i from =
     (if \<not> c_conv then None
      else if from \<in> {MtI32, MtI8} \<and> nth_opt (extern_declared c_conv sg) i = Some MtI64
      then Some (CvSext from MtI64)
      else case map_option par_ty (nth_opt (sig_parameters sg) i) of
             Some TyF64 \<Rightarrow> if from \<in> {MtI32, MtI64} then Some (CvSToF from MtF64) else None
           | Some TyF32 \<Rightarrow> if from \<in> {MtI32, MtI64} then Some (CvSToF from MtF32) else None
           | _ \<Rightarrow> None)"

definition call_extern ::
  "DecodeCtx \<Rightarrow> IrExternFunction \<Rightarrow> Reg option \<Rightarrow> IrId list \<Rightarrow> Dec \<Rightarrow> unit decoded" where
  "call_extern cx ext d args D =
     (let sg = ext_signature ext;
          c_conv = (sig_calling_convention sg = CcC \<and> \<not> cx_windows cx);
          (coerced, D1) = coerce_args (extern_arg_conv c_conv sg) 0 args D
      in if ext_name ext = ''_setjmp'' then decode_setjmp d coerced D1
         else case intrinsic (ext_name ext) d coerced D1 of
           Some D2 \<Rightarrow> (Inr (), D2)
         | None \<Rightarrow>
             (case fn_symbol cx (ext_name ext) of
                Inl e \<Rightarrow> (Inl e, D1)
              | Inr addr \<Rightarrow>
                  (Inr (), emit_call cx (TgNative addr) (pad coerced (extern_declared c_conv sg) [])
                             (mt_of_ty (sig_return_type sg)) None d D1)))"

text \<open>A call to a function of the module: a declaration without a body, or one to enter.\<close>

definition call_adds_env :: "DecodeCtx \<Rightarrow> IrFunctionId \<Rightarrow> IrFunction \<Rightarrow> bool" where
  "call_adds_env cx i f =
     (\<not> is_extern f \<and> \<not> starts_with (fn_name f) ''<lambda'' \<and>
      sig_calling_convention (fn_signature f) \<noteq> CcC \<and> needs_env_param f i (cx_indirect cx))"

definition function_arg_conv :: "DecodeCtx \<Rightarrow> IrFunction \<Rightarrow> nat \<Rightarrow> Mt \<Rightarrow> Conv option" where
  "function_arg_conv cx f i from =
     (let sg = fn_signature f;
          c_extern = (sig_calling_convention sg = CcC \<and>
                      (is_extern f \<or> at_linkage (fn_attributes f) = LkExternal) \<and> \<not> cx_windows cx)
      in case nth_opt (sig_parameters sg) i of
           Some p \<Rightarrow> if c_extern then c_extern_arg_coercion from (par_ty p)
                     else haxe_arg_coercion from (mt_of_default (par_ty p))
         | None \<Rightarrow> haxe_arg_coercion from MtI64)"

definition return_conv :: "IrType option \<Rightarrow> IrType \<Rightarrow> Conv option" where
  "return_conv dest_ty ret_ty =
     (let ret_mt = mt_of_default ret_ty; expected = int_register_mt dest_ty in
      if is_primitive_int ret_ty \<and> (case dest_ty of Some t \<Rightarrow> is_primitive_int t | None \<Rightarrow> False) \<and>
         ret_mt \<noteq> expected \<and> mt_is_int ret_mt
      then (if mt_bits ret_mt > mt_bits expected then Some (CvReduce expected)
            else Some (CvSext ret_mt expected))
      else None)"

text \<open>The call itself, once its target and arguments are known.\<close>

definition finish_call ::
  "DecodeCtx \<Rightarrow> IrFunction \<Rightarrow> Target \<Rightarrow> (Src \<times> Mt) list \<Rightarrow> Reg option \<Rightarrow> Dec \<Rightarrow> Dec" where
  "finish_call cx f target args d D =
     (let sg = fn_signature f; uses_sret = (sig_uses_sret sg \<and> \<not> is_extern f);
          ret = mt_of_ty (sig_return_type sg)
      in if sig_return_type sg = TyVoid then
           (let D1 = emit_call cx target args None None None D
            in case d of
                 None \<Rightarrow> D1
               | Some r \<Rightarrow> emit_reg (RConst r (snd (zero_for cx r))) (set_mt r (fst (zero_for cx r)) D1))
         else if uses_sret then
           (let sz = max (struct_size (sig_return_type sg)) 8; (off, D1) = slot sz D
            in emit_call cx target (args[0 := (SrcSlot off, MtI64)]) None
                 (Some (off, sz mod 2 ^ 32)) d D1)
         else case d of
           None \<Rightarrow> emit_call cx target args ret None None D
         | Some r \<Rightarrow>
             (case return_conv (reg_type cx r) (sig_return_type sg) of
                None \<Rightarrow> emit_call cx target args ret None (Some r) D
              | Some c \<Rightarrow>
                  (let (raw, D1) = temp (mt_of_default (sig_return_type sg)) D;
                       D2 = emit_call cx target args ret None (Some raw) D1
                   in emit_reg (RConv r raw c) (set_mt r (conv_to c) D2))))"

definition hidden_args :: "bool \<Rightarrow> bool \<Rightarrow> (Src \<times> Mt) list" where
  "hidden_args sret env =
     (if sret then [(SrcImm 0, MtI64)] else []) @ (if env then [(SrcImm 0, MtI64)] else [])"

definition call_function ::
  "DecodeCtx \<Rightarrow> IrFunctionId \<Rightarrow> IrFunction \<Rightarrow> Reg option \<Rightarrow> IrId list \<Rightarrow> Dec \<Rightarrow> unit decoded" where
  "call_function cx i f d args D =
     (let sg = fn_signature f; ext = is_extern f; nm = fn_name f;
          libc = (ext \<and> nm \<in> {''malloc'', ''realloc'', ''free''});
          (coerced, D1) = coerce_args (function_arg_conv cx f) 0 args D
      in if ext \<and> nm = ''_setjmp'' then decode_setjmp d coerced D1
         else case (if ext then intrinsic nm d coerced D1 else None) of
           Some D2 \<Rightarrow> (Inr (), D2)
         | None \<Rightarrow>
             (let widen = (ext \<and> sig_calling_convention sg = CcC \<and> \<not> cx_windows cx);
                  declared = map (declared_mt widen) (sig_parameters sg);
                  null_int = map (\<lambda>p. par_ty p = TyNullInt) (sig_parameters sg)
              in if length coerced > length declared
                 then (Inl (DeArgCount nm (length coerced) (length declared)), D1)
                 else
                   (let call_args = hidden_args (sig_uses_sret sg \<and> \<not> ext)
                                      (call_adds_env cx i f \<and> \<not> libc) @
                                    pad coerced declared null_int
                    in case (if ext \<or> libc then rbind (fn_symbol cx nm) (\<lambda>a. Inr (TgNative a))
                             else Inr (TgInterp (cx_module_addr cx) i)) of
                         Inl e \<Rightarrow> (Inl e, D1)
                       | Inr target \<Rightarrow> (Inr (), finish_call cx f target call_args d D1))))"

definition call_direct ::
  "DecodeCtx \<Rightarrow> Reg option \<Rightarrow> IrFunctionId \<Rightarrow> IrId list \<Rightarrow> Dec \<Rightarrow> unit decoded" where
  "call_direct cx d i args D =
     (case map_of (mod_externs (cx_module cx)) i of
        Some ext \<Rightarrow> call_extern cx ext d args D
      | None \<Rightarrow>
          (case map_of (mod_functions (cx_module cx)) i of
             None \<Rightarrow> (Inl (DeNoFunction i), D)
           | Some f \<Rightarrow> call_function cx i f d args D))"

definition closure_call ::
  "DecodeCtx \<Rightarrow> Reg option \<Rightarrow> IrId \<Rightarrow> IrId list \<Rightarrow> Mt list \<Rightarrow> Mt option \<Rightarrow> Dec \<Rightarrow> Dec" where
  "closure_call cx d fptr args expected ret D =
     (let (coerced, D1) =
            coerce_args (\<lambda>i from. indirect_arg_coercion from
                           (case nth_opt expected i of Some m \<Rightarrow> m | None \<Rightarrow> from)) 0 args D;
          D2 = (case d of
                  None \<Rightarrow> D1
                | Some r \<Rightarrow> set_mt r (case ret of Some m \<Rightarrow> m | None \<Rightarrow> fst (zero_for cx r)) D1);
          c = \<lparr>ic_closure = fptr, ic_args = coerced, ic_ret = ret, ic_dest = d\<rparr>
      in case (ret, d) of
           (None, Some r) \<Rightarrow>
             emit_reg (RConst r (snd (zero_for cx r)))
               (emit (OCtl (CtCallIndirect (c\<lparr>ic_dest := None\<rparr>))) D2)
         | _ \<Rightarrow> emit (OCtl (CtCallIndirect c)) D2)"

definition call_indirect_decode ::
  "DecodeCtx \<Rightarrow> Reg option \<Rightarrow> IrId \<Rightarrow> IrId list \<Rightarrow> IrType \<Rightarrow> Dec \<Rightarrow> unit decoded" where
  "call_indirect_decode cx d fptr args sg D =
     (case sg of
        TyFunction params ret_ty va \<Rightarrow>
          (case ret_ty of
             TyStruct n fs \<Rightarrow> (Inl DeClosureStruct, D)
           | _ \<Rightarrow>
               (Inr (), closure_call cx d fptr args (List.map_filter mt_of_ty params)
                          (mt_of_ty ret_ty) D))
      | _ \<Rightarrow> (Inl (DeSignature sg), D))"

section \<open>Instructions\<close>

definition decode_copy :: "Reg \<Rightarrow> Reg \<Rightarrow> Dec \<Rightarrow> Dec" where
  "decode_copy d s D =
     (let D1 = set_mt d (reg_mt D s) D;
          D2 = (case dc_consts D1 s of
                  Some c \<Rightarrow> D1\<lparr>dc_consts := (dc_consts D1)(d \<mapsto> c)\<rparr> | None \<Rightarrow> D1)
      in emit_reg (RCopy d s) D2)"

text \<open>Every register a \<open>MarkMoved\<close> or \<open>CheckLive\<close> names is numbered before decoding starts.\<close>

definition live_slot :: "Dec \<Rightarrow> IrId \<Rightarrow> nat" where
  "live_slot D r = (case dc_live D r of Some n \<Rightarrow> n | None \<Rightarrow> 0)"

definition live_name :: "DecodeCtx \<Rightarrow> IrId \<Rightarrow> string" where
  "live_name cx r =
     (let nonempty = (\<lambda>s. if s = [] then None else Some s);
          f = cx_function cx;
          from_local = Option.bind (map_of (fn_locals f) r) (\<lambda>l. nonempty (local_name l));
          from_param = Option.bind (List.find (\<lambda>p. par_reg p = r) (sig_parameters (fn_signature f)))
                         (\<lambda>p. nonempty (par_name p))
      in case or_else from_local from_param of Some s \<Rightarrow> s | None \<Rightarrow> ''<anon>'')"

definition decode_store :: "DecodeCtx \<Rightarrow> IrId \<Rightarrow> IrId \<Rightarrow> IrType option \<Rightarrow> Dec \<Rightarrow> Dec" where
  "decode_store cx p v sty D =
     (let m = reg_mt D v;
          field = (case reg_type cx p of Some (TyPtr t) \<Rightarrow> t \<noteq> TyU8 \<and> t \<noteq> TyI8 | _ \<Rightarrow> False);
          float_field = (sty = Some TyF64 \<or> sty = Some TyF32 \<or> mt_is_float m)
      in if field \<and> mt_is_int m \<and> mt_bits m < 64 \<and> \<not> float_field
         then (let (r, D1) = coerce v (Some (CvSext m MtI64)) D
               in emit_mem (MStore MtI64 p r 0) D1)
         else emit_mem (MStore m p v 0) D)"

definition alloc_bytes :: "IrType \<Rightarrow> IrId option \<Rightarrow> Dec \<Rightarrow> nat" where
  "alloc_bytes t cnt D =
     (case cnt of
        Some c \<Rightarrow>
          (alloca_size t * unat (case dc_consts D c of Some n \<Rightarrow> n | None \<Rightarrow> 1)) mod 2 ^ 64
      | None \<Rightarrow>
          (case t of TyAny \<Rightarrow> alloca_size t * 16 | TyPtr _ \<Rightarrow> alloca_size t * 16
           | TyRef _ \<Rightarrow> alloca_size t * 16 | _ \<Rightarrow> alloca_size t))"

definition decode_alloc :: "IrId \<Rightarrow> IrType \<Rightarrow> IrId option \<Rightarrow> Dec \<Rightarrow> Dec" where
  "decode_alloc d t cnt D =
     (let (off, D1) = slot (alloc_bytes t cnt D) D in emit_reg (RSlotAddr d off) (set_mt d MtI64 D1))"

text \<open>The index's machine type is read after the result's is set.\<close>

definition decode_addr :: "IrId \<Rightarrow> IrId \<Rightarrow> IrId \<Rightarrow> int \<Rightarrow> Dec \<Rightarrow> Dec" where
  "decode_addr d base idx scale D =
     (let D1 = set_mt d MtI64 D in emit_reg (RAddrIndex d base idx (reg_mt D1 idx) scale) D1)"

definition cast_conv :: "Mt \<Rightarrow> Mt \<Rightarrow> IrType \<Rightarrow> DecodeError + Conv option" where
  "cast_conv from to from_ty =
     (if from = to then Inr None
      else if from \<in> {MtI32, MtI64} \<and> mt_is_float to then Inr (Some (CvSToF from to))
      else if mt_is_float from \<and> to \<in> {MtI32, MtI64} then Inr (Some (CvFToS from to))
      else if from = MtF32 \<and> to = MtF64 then Inr (Some CvFPromote)
      else if from = MtF64 \<and> to = MtF32 then Inr (Some CvFDemote)
      else if from = MtI8 \<and> mt_is_float to then Inr (Some (CvSToF MtI8 to))
      else if from = MtI32 \<and> to = MtI64
      then Inr (Some (if from_ty = TyU32 then CvUext MtI32 MtI64 else CvSext MtI32 MtI64))
      else if from = MtI64 \<and> to = MtI32 then Inr (Some (CvReduce MtI32))
      else if from = MtI8 \<and> to \<in> {MtI32, MtI64} then Inr (Some (CvUext MtI8 to))
      else if from \<in> {MtI32, MtI64} \<and> to = MtI8 then Inr (Some (CvReduce MtI8))
      else Inl (DeCast from to))"

definition bitcast_conv :: "Mt \<Rightarrow> Mt \<Rightarrow> DecodeError + Conv option" where
  "bitcast_conv from to =
     (if (from, to) \<in> {(MtF64, MtI64), (MtF32, MtI32), (MtI64, MtF64), (MtI32, MtF32)}
      then Inr (Some (CvBits to))
      else if from = MtI32 \<and> to = MtI64 then Inr (Some (CvSext MtI32 MtI64))
      else if from = MtI64 \<and> to = MtI32 then Inr (Some (CvReduce MtI32))
      else if mt_is_int from \<and> mt_is_int to \<and> mt_bits to > mt_bits from
      then Inr (Some (CvUext from to))
      else if mt_is_int from \<and> mt_is_int to \<and> mt_bits to < mt_bits from
      then Inr (Some (CvReduce to))
      else if from = to then Inr None
      else Inl (DeBitcast from to))"

definition decode_conversion ::
  "IrId \<Rightarrow> IrId \<Rightarrow> DecodeError + Mt \<Rightarrow> (Mt \<Rightarrow> Mt \<Rightarrow> DecodeError + Conv option) \<Rightarrow> Dec \<Rightarrow> unit decoded" where
  "decode_conversion d s to_mt conv D =
     (case rbind to_mt (\<lambda>t. rbind (conv (reg_mt D s) t) (\<lambda>c. Inr (t, c))) of
        Inl e \<Rightarrow> (Inl e, D)
      | Inr (t, c) \<Rightarrow> (Inr (), move_conv d s c (set_mt d t D)))"

fun store_fields :: "Reg \<Rightarrow> IrId list \<Rightarrow> (int \<times> Mt \<times> nat) list \<Rightarrow> Dec \<Rightarrow> Dec" where
  "store_fields d (f # fs) ((off, m, s) # ls) D =
     store_fields d fs ls (emit_mem (MStore (reg_mt D f) d f off) D)"
| "store_fields d _ _ D = D"

definition create_struct :: "IrId \<Rightarrow> IrType \<Rightarrow> IrId list \<Rightarrow> Dec \<Rightarrow> unit decoded" where
  "create_struct d t fs D =
     (case struct_layout t of
        None \<Rightarrow> (Inl (DeNotStruct t), D)
      | Some l \<Rightarrow>
          (let (off, D1) = slot (layout_size l) D
           in (Inr (), store_fields d fs l (emit_reg (RSlotAddr d off) (set_mt d MtI64 D1)))))"

definition create_union :: "IrId \<Rightarrow> nat \<Rightarrow> IrId \<Rightarrow> Dec \<Rightarrow> Dec" where
  "create_union d tag v D =
     (let (off, D1) = slot 16 D; (t, D2) = temp MtI32 (set_mt d MtI64 D1);
          D3 = emit_reg (RConst t (word_of_nat tag)) (emit_reg (RSlotAddr d off) D2)
      in emit_mem (MStore (reg_mt D3 v) d v 8) (emit_mem (MStore MtI32 d t 0) D3))"

text \<open>\<open>aggregate_type\<close>: the parameter, the local or the first load that declares the register.\<close>

fun load_type :: "IrId \<Rightarrow> IrInstruction \<Rightarrow> IrType option" where
  "load_type a (ILoad d p t) = (if d = a then Some t else None)"
| "load_type a _ = None"

definition aggregate_type :: "DecodeCtx \<Rightarrow> IrId \<Rightarrow> IrType option" where
  "aggregate_type cx a =
     (let f = cx_function cx in
      or_else (map_option par_ty (List.find (\<lambda>p. par_reg p = a) (sig_parameters (fn_signature f))))
        (or_else (local_type cx a)
           (first_some (load_type a) (concat (map bb_instructions (fn_blocks f))))))"

definition extract_value :: "DecodeCtx \<Rightarrow> IrId \<Rightarrow> IrId \<Rightarrow> nat list \<Rightarrow> Dec \<Rightarrow> unit decoded" where
  "extract_value cx d a is D =
     (case is of
        [i] \<Rightarrow>
          (case rbind (ok_or (DeNoAggregate a) (aggregate_type cx a)) (\<lambda>t.
                rbind (ok_or (DeNotStruct t) (struct_layout t)) (\<lambda>l.
                  ok_or (DeFieldIndex i) (nth_opt l i))) of
             Inl e \<Rightarrow> (Inl e, D)
           | Inr (off, m, s) \<Rightarrow> (Inr (), emit_mem (MLoad d m a off) (set_mt d m D)))
      | _ \<Rightarrow> (Inl (DeIndices (length is)), D))"

definition capture_conv :: "nat \<Rightarrow> Mt \<Rightarrow> Conv option" where
  "capture_conv i m = (if m \<in> {MtI32, MtI8} then Some (CvSext m MtI64) else None)"

definition make_closure_decode ::
  "DecodeCtx \<Rightarrow> IrId \<Rightarrow> IrFunctionId \<Rightarrow> IrId list \<Rightarrow> Dec \<Rightarrow> unit decoded" where
  "make_closure_decode cx d i cs D =
     (case fn_ref cx i of
        Inl e \<Rightarrow> (Inl e, D)
      | Inr f \<Rightarrow>
          (let (captures, D1) = coerce_args capture_conv 0 cs D
           in (Inr (), emit_mem (MClosure d f captures) (set_mt d MtI64 D1))))"

definition undef_bits :: "IrType \<Rightarrow> Mt \<times> u64" where
  "undef_bits t =
     (if t = TyNullInt then (MtI64, NULL_INT)
      else case mt_of_ty t of None \<Rightarrow> (MtI64, 0)
           | Some m \<Rightarrow> if m = MtV128 then (MtI64, 0) else (m, 0))"

definition global_mt :: "IrType \<Rightarrow> Mt" where
  "global_mt t =
     (if t = TyI32 then MtI32 else if t = TyF32 then MtF32 else if t = TyF64 then MtF64
      else if t = TyBool then MtI8 else MtI64)"

definition global_slot :: "DecodeCtx \<Rightarrow> IrGlobalId \<Rightarrow> DecodeError + GlobalSlot" where
  "global_slot cx i =
     (if cx_symbol cx ''rayzor_global_slot'' \<noteq> None then Inr (GsAddress (cx_global_slot cx i))
      else case (cx_symbol cx ''rayzor_global_load'', cx_symbol cx ''rayzor_global_store'') of
             (Some ld, Some st) \<Rightarrow> Inr (GsRuntime i ld st)
           | _ \<Rightarrow> Inl DeNoGlobals)"

definition with_result :: "(DecodeError + 'a) \<Rightarrow> ('a \<Rightarrow> Dec) \<Rightarrow> Dec \<Rightarrow> unit decoded" where
  "with_result r k D = (case r of Inl e \<Rightarrow> (Inl e, D) | Inr a \<Rightarrow> (Inr (), k a))"

definition called_name :: "DecodeCtx \<Rightarrow> IrFunctionId \<Rightarrow> string option" where
  "called_name cx i =
     or_else (map_option ext_name (map_of (mod_externs (cx_module cx)) i))
       (map_option fn_name (map_of (mod_functions (cx_module cx)) i))"

fun decode_value_inst :: "DecodeCtx \<Rightarrow> ValueInst \<Rightarrow> Dec \<Rightarrow> unit decoded" where
  "decode_value_inst cx (KConst d v) D = decode_constant cx d v D"
| "decode_value_inst cx (KCopy d s) D = (Inr (), decode_copy d s D)"
| "decode_value_inst cx (KMove d s) D = (Inr (), decode_copy d s D)"
| "decode_value_inst cx (KSsaBarrier d s t) D = (Inr (), decode_copy d s D)"
| "decode_value_inst cx (KBorrowImmutable d s lt) D = (Inr (), decode_copy d s D)"
| "decode_value_inst cx (KBorrowMutable d s lt) D = (Inr (), decode_copy d s D)"
| "decode_value_inst cx (KClone d s) D = (Inr (), emit_mem (MCloneObject d s) (set_mt d MtI64 D))"
| "decode_value_inst cx (KEndBorrow b) D = (Inr (), D)"
| "decode_value_inst cx (KMarkMoved s) D = (Inr (), emit_mem (MMarkMoved (live_slot D s)) D)"
| "decode_value_inst cx (KCheckLive s loc) D =
     (Inr (), emit_mem (MCheckLive (live_slot D s) (live_name cx s) (loc_line loc)) D)"
| "decode_value_inst cx (KBinOp d op l r) D = decode_binop cx d op l r D"
| "decode_value_inst cx (KUnOp d op x) D = decode_unop cx d op x D"
| "decode_value_inst cx (KCmp d op l r) D = decode_cmp cx d op l r D"
| "decode_value_inst cx (KLoad d p t) D =
     with_result (ok_or DeLoadVoid (mt_of_ty t)) (\<lambda>m. emit_mem (MLoad d m p 0) (set_mt d m D)) D"
| "decode_value_inst cx (KStore p v sty) D = (Inr (), decode_store cx p v sty D)"
| "decode_value_inst cx (KLoadGlobal d g t) D =
     with_result (global_slot cx g)
       (\<lambda>s. emit_mem (MGlobalLoad d (global_mt t) s) (set_mt d (global_mt t) D)) D"
| "decode_value_inst cx (KStoreGlobal g v) D =
     with_result (global_slot cx g) (\<lambda>s. emit_mem (MGlobalStore v (reg_mt D v) s) D) D"

fun decode_control_inst :: "DecodeCtx \<Rightarrow> ControlInst \<Rightarrow> Dec \<Rightarrow> unit decoded" where
  "decode_control_inst cx (KCallDirect d i args own ta tc) D =
     (case call_direct cx d i args D of
        (Inl e, D1) \<Rightarrow> (Inl e, D1)
      | (Inr u, D1) \<Rightarrow>
          (Inr (), if called_name cx i = Some ''rayzor_exception_pop_handler''
                   then emit (OCtl CtHandlerPopped) D1 else D1))"
| "decode_control_inst cx (KCallIndirect d fptr args sg own tc) D =
     call_indirect_decode cx d fptr args sg D"
| "decode_control_inst cx (KPanic msg) D =
     (Inl (DePanic (case msg of Some m \<Rightarrow> m | None \<Rightarrow> ''panic'')), D)"
| "decode_control_inst cx (KJump t) D = (Inr (), D)"
| "decode_control_inst cx (KBranch c t f) D = (Inr (), D)"
| "decode_control_inst cx (KSwitch v d cs) D = (Inr (), D)"
| "decode_control_inst cx (KReturn v) D = (Inr (), D)"
| "decode_control_inst cx (KPhi d inc) D = (Inr (), D)"
| "decode_control_inst cx (KDebugLoc loc) D = (Inr (), D)"
| "decode_control_inst cx i D = (Inl (DeUnsupported (ControlI i)), D)"

fun decode_memory_inst :: "DecodeCtx \<Rightarrow> MemoryInst \<Rightarrow> Dec \<Rightarrow> unit decoded" where
  "decode_memory_inst cx (KAlloc d t c) D = (Inr (), decode_alloc d t c D)"
| "decode_memory_inst cx (KFree p) D = (Inr (), emit_mem (MFree p) D)"
| "decode_memory_inst cx (KGetElementPtr d p is t sc) D =
     (case is of
        [i] \<Rightarrow> (Inr (), decode_addr d p i (if t = TyPtr TyI8 then 1 else 8) D)
      | _ \<Rightarrow> (Inl (DeIndices (length is)), D))"
| "decode_memory_inst cx (KPtrAdd d p off t) D =
     (case t of
        TyPtr pointee \<Rightarrow> (Inr (), decode_addr d p off (int (field_size pointee)) D)
      | _ \<Rightarrow> (Inl (DePtrAdd t), D))"
| "decode_memory_inst cx (KArrayHeader d a fld g) D =
     (Inr (), emit_mem (MArrayHeader d a (byte_offset fld) g) (set_mt d MtI64 D))"
| "decode_memory_inst cx (KMemCopy d s n) D = (Inr (), emit_mem (MMemCopy d s n (reg_mt D n)) D)"
| "decode_memory_inst cx (KMemSet d v n) D = (Inr (), emit_mem (MMemSet d v n (reg_mt D n)) D)"
| "decode_memory_inst cx (KCast d s from_ty to_ty) D =
     decode_conversion d s (ok_or DeCastVoid (mt_of_ty to_ty))
       (\<lambda>from to. cast_conv from to from_ty) D"
| "decode_memory_inst cx (KBitCast d s t) D =
     decode_conversion d s (ok_or DeBitcastVoid (mt_of_ty t)) bitcast_conv D"
| "decode_memory_inst cx (KUndef d t) D =
     (Inr (), emit_reg (RConst d (snd (undef_bits t))) (set_mt d (fst (undef_bits t)) D))"
| "decode_memory_inst cx (KFunctionRef d i) D =
     with_result (fn_ref cx i) (\<lambda>f. emit_mem (MClosure d f []) (set_mt d MtI64 D)) D"

fun decode_aggregate_inst :: "DecodeCtx \<Rightarrow> AggregateInst \<Rightarrow> Dec \<Rightarrow> unit decoded" where
  "decode_aggregate_inst cx (KSelect d c a b) D =
     (Inr (), emit_reg (RSelect d c a b) (set_mt d (reg_mt D a) D))"
| "decode_aggregate_inst cx (KExtractValue d a is) D = extract_value cx d a is D"
| "decode_aggregate_inst cx (KInsertValue d a v is) D =
     (Inl (DeUnsupported (IInsertValue d a v is)), D)"
| "decode_aggregate_inst cx (KMakeClosure d i cs) D = make_closure_decode cx d i cs D"
| "decode_aggregate_inst cx (KClosureFunc d c) D = (Inr (), decode_copy d c D)"
| "decode_aggregate_inst cx (KClosureEnv d c) D =
     (Inr (), emit_reg (if dc_env_param D then REnv d else RConst d 0) (set_mt d MtI64 D))"
| "decode_aggregate_inst cx (KCreateUnion d tag v t) D = (Inr (), create_union d tag v D)"
| "decode_aggregate_inst cx (KExtractDiscriminant d u) D =
     (Inr (), emit_mem (MLoad d MtI32 u 0) (set_mt d MtI32 D))"
| "decode_aggregate_inst cx (KExtractUnionValue d u k t) D =
     (Inr (), emit_mem (MLoad d (mt_of_default t) u 8) (set_mt d (mt_of_default t) D))"
| "decode_aggregate_inst cx (KCreateStruct d t fs) D = create_struct d t fs D"

text \<open>Vector code is handed to compiled code.\<close>

fun vector_dest :: "VectorInst \<Rightarrow> (IrId \<times> Mt) option" where
  "vector_dest (KVectorLoad d p t) = Some (d, MtV128)"
| "vector_dest (KVectorBinOp d op l r t) = Some (d, MtV128)"
| "vector_dest (KVectorSplat d s t) = Some (d, MtV128)"
| "vector_dest (KVectorInsert d v s k t) = Some (d, MtV128)"
| "vector_dest (KVectorUnaryOp d op x t) = Some (d, MtV128)"
| "vector_dest (KVectorMinMax d op l r t) = Some (d, MtV128)"
| "vector_dest (KVectorDot d acc a b i7 u) = Some (d, MtV128)"
| "vector_dest (KVectorShuffle d a idx bl t) = Some (d, MtV128)"
| "vector_dest (KVectorConvert d k x s t) = Some (d, MtV128)"
| "vector_dest (KVectorNarrow d lo hi s t) = Some (d, MtV128)"
| "vector_dest (KVectorExtract d v k t) = Some (d, mt_of_default t)"
| "vector_dest (KVectorReduce d op v t) = Some (d, mt_of_default t)"
| "vector_dest (KVectorStore p v t) = None"

definition decode_vector_inst :: "VectorInst \<Rightarrow> Dec \<Rightarrow> unit decoded" where
  "decode_vector_inst i D =
     (Inr (), emit (OCtl CtBail)
        (case vector_dest i of Some (d, m) \<Rightarrow> set_mt d m D | None \<Rightarrow> D))"

fun decode_atomic_inst :: "AtomicInst \<Rightarrow> Dec \<Rightarrow> unit decoded" where
  "decode_atomic_inst (KAtomicLoad d p t) D =
     with_result (ok_or DeAtomicVoid (mt_of_ty t))
       (\<lambda>m. emit_mem (MAtomicLoad d m p) (set_mt d m D)) D"
| "decode_atomic_inst (KAtomicStore p v t) D =
     (Inr (), emit_mem (MAtomicStore (reg_mt D v) p v) D)"
| "decode_atomic_inst (KAtomicRmw d op p v t) D =
     with_result (ok_or DeAtomicVoid (mt_of_ty t))
       (\<lambda>m. emit_mem (MAtomicRmw d m op p v) (set_mt d m D)) D"
| "decode_atomic_inst (KAtomicCas d p e n t) D =
     (Inr (), emit_mem (MAtomicCas d (reg_mt D e) p e n) (set_mt d (reg_mt D e) D))"

fun try_instruction :: "DecodeCtx \<Rightarrow> IrInstruction \<Rightarrow> Dec \<Rightarrow> unit decoded" where
  "try_instruction cx (ValueI i) D = decode_value_inst cx i D"
| "try_instruction cx (ControlI i) D = decode_control_inst cx i D"
| "try_instruction cx (MemoryI i) D = decode_memory_inst cx i D"
| "try_instruction cx (AggregateI i) D = decode_aggregate_inst cx i D"
| "try_instruction cx (VectorI i) D = decode_vector_inst i D"
| "try_instruction cx (AtomicI i) D = decode_atomic_inst i D"

definition shown_name :: "IrFunction \<Rightarrow> string" where
  "shown_name f = (case fn_qualified_name f of Some q \<Rightarrow> q | None \<Rightarrow> fn_name f)"

text \<open>A refused instruction traps; its register still gets a machine type.\<close>

definition decode_instruction :: "DecodeCtx \<Rightarrow> IrInstruction \<Rightarrow> Dec \<Rightarrow> Dec" where
  "decode_instruction cx i D =
     (case try_instruction cx i D of
        (Inr u, D1) \<Rightarrow> D1
      | (Inl e, D1) \<Rightarrow>
          (let D2 = (case dest i of
                       Some d \<Rightarrow> if dc_mts D1 d = None then set_mt d MtI64 D1 else D1
                     | None \<Rightarrow> D1)
           in emit (OCtl (CtTrap (TrapIn e (shown_name (cx_function cx))))) D2))"

end
