(* ===== verification/MirExec.thy ===== *)
theory MirExec
  imports MirOps
begin

text \<open>
  The interpreter's machine (\<open>codegen/mir_interpreter/exec.rs\<close>): frames, memory, and one step of
  the topmost frame. Memory is a partial map of bytes. What the interpreter calls and is not MIR
  (the allocator, native code, the compiled code's addresses, the runtime's exception handlers)
  is the parameter \<open>rt\<close>. The machine runs without a JIT, so it never suspends.
\<close>

section \<open>Memory\<close>

type_synonym memory = "u64 \<rightharpoonup> u8"

fun load_le :: "memory \<Rightarrow> u64 \<Rightarrow> nat \<Rightarrow> u64 option" where
  "load_le m a 0 = Some 0"
| "load_le m a (Suc n) =
     (case m a of
        None \<Rightarrow> None
      | Some b \<Rightarrow> map_option (\<lambda>w. ucast b OR push_bit 8 w) (load_le m (a + 1) n))"

fun store_le :: "memory \<Rightarrow> u64 \<Rightarrow> nat \<Rightarrow> u64 \<Rightarrow> memory option" where
  "store_le m a 0 v = Some m"
| "store_le m a (Suc n) v =
     (if m a = None then None else store_le (m(a \<mapsto> ucast v)) (a + 1) n (drop_bit 8 v))"

record 'x World =
  w_mem :: memory
  w_ext :: 'x

datatype Ret = RetSret u64 nat | RetValue Mt | RetVoid

record 'x Runtime =
  rt_malloc :: "nat \<Rightarrow> 'x World \<Rightarrow> u64 \<times> 'x World"
  rt_free :: "u64 \<Rightarrow> 'x World \<Rightarrow> 'x World"
  rt_native :: "u64 \<Rightarrow> (u64 \<times> Mt) list \<Rightarrow> Ret \<Rightarrow> 'x World \<Rightarrow> (InterpError + u64) \<times> 'x World"
  rt_c_call :: "u64 \<Rightarrow> u64 list \<Rightarrow> 'x World \<Rightarrow> u64 \<times> 'x World"
  rt_has_handler :: "'x World \<Rightarrow> bool"
  rt_slots :: "nat \<Rightarrow> 'x World \<Rightarrow> u64 \<times> 'x World"
  rt_drop_slots :: "u64 \<Rightarrow> nat \<Rightarrow> 'x World \<Rightarrow> 'x World"
  rt_function_address :: "nat \<Rightarrow> IrFunctionId \<Rightarrow> InterpError + u64"
  rt_native_code :: "IrFunctionId \<Rightarrow> u64 option"
  rt_function_at :: "nat \<Rightarrow> IrFunctionId \<Rightarrow> InterpError + Function"
  rt_trampoline :: "u64 \<Rightarrow> (nat \<times> IrFunctionId) option"

text \<open>\<open>null_fault\<close>: inside a \<open>try\<close> a null access throws.\<close>

definition null_fault :: "'x Runtime \<Rightarrow> 'x World \<Rightarrow> InterpError \<Rightarrow> InterpError" where
  "null_fault rt w e = (if rt_has_handler rt w then NullThrown else e)"

definition mem_read :: "'x Runtime \<Rightarrow> 'x World \<Rightarrow> u64 \<Rightarrow> Mt \<Rightarrow> InterpError + u64" where
  "mem_read rt w addr m =
     (if uint addr < 4096 then Inl (null_fault rt w (NullRead addr))
      else if m = MtV128 then Inl VectorAccess
      else ok_or Undefined (load_le (w_mem w) addr (mt_bytes m)))"

definition mem_write ::
  "'x Runtime \<Rightarrow> 'x World \<Rightarrow> u64 \<Rightarrow> Mt \<Rightarrow> u64 \<Rightarrow> InterpError + 'x World" where
  "mem_write rt w addr m bits =
     (if uint addr < 4096 then Inl (null_fault rt w (NullWrite addr))
      else if m = MtV128 then Inl VectorAccess
      else rbind (ok_or Undefined (store_le (w_mem w) addr (mt_bytes m) bits))
             (\<lambda>m'. Inr (w\<lparr>w_mem := m'\<rparr>)))"

definition malloc :: "'x Runtime \<Rightarrow> nat \<Rightarrow> 'x World \<Rightarrow> InterpError + (u64 \<times> 'x World)" where
  "malloc rt n w =
     (let (p, w') = rt_malloc rt n w in if p = 0 then Inl OutOfMemory else Inr (p, w'))"

text \<open>\<open>atomic_rmw\<close> and \<open>atomic_cas\<close>; an unexpected machine type accesses eight bytes.\<close>

definition atomic_bytes :: "Mt \<Rightarrow> nat" where
  "atomic_bytes m = (case m of MtI8 \<Rightarrow> 1 | MtI16 \<Rightarrow> 2 | MtI32 \<Rightarrow> 4 | MtF32 \<Rightarrow> 4 | _ \<Rightarrow> 8)"

fun rmw_value :: "AtomicRmwOp \<Rightarrow> u64 \<Rightarrow> u64 \<Rightarrow> u64" where
  "rmw_value RmwAdd a v = a + v"
| "rmw_value RmwSub a v = a - v"
| "rmw_value RmwAnd a v = a AND v"
| "rmw_value RmwOr a v = a OR v"
| "rmw_value RmwXor a v = a XOR v"
| "rmw_value RmwXchg a v = v"

definition atomic_rmw ::
  "'x Runtime \<Rightarrow> 'x World \<Rightarrow> Mt \<Rightarrow> AtomicRmwOp \<Rightarrow> u64 \<Rightarrow> u64 \<Rightarrow> InterpError + (u64 \<times> 'x World)" where
  "atomic_rmw rt w m op ptr v =
     (if uint ptr < 4096 then Inl (null_fault rt w NullAtomic)
      else rbind (ok_or Undefined (load_le (w_mem w) ptr (atomic_bytes m))) (\<lambda>old.
           rbind (ok_or Undefined (store_le (w_mem w) ptr (atomic_bytes m) (rmw_value op old v)))
             (\<lambda>m'. Inr (old, w\<lparr>w_mem := m'\<rparr>))))"

definition atomic_cas ::
  "'x Runtime \<Rightarrow> 'x World \<Rightarrow> Mt \<Rightarrow> u64 \<Rightarrow> u64 \<Rightarrow> u64 \<Rightarrow> InterpError + (u64 \<times> 'x World)" where
  "atomic_cas rt w m ptr expected new =
     (if uint ptr < 4096 then Inl (null_fault rt w NullAtomic)
      else rbind (ok_or Undefined (load_le (w_mem w) ptr (atomic_bytes m))) (\<lambda>old.
             if old = take_bit (8 * atomic_bytes m) expected
             then rbind (ok_or Undefined (store_le (w_mem w) ptr (atomic_bytes m) new))
                    (\<lambda>m'. Inr (old, w\<lparr>w_mem := m'\<rparr>))
             else Inr (old, w)))"

section \<open>Frames\<close>

record Pending =
  pd_dest :: "Reg option"
  pd_ret :: "Mt option"
  pd_sret :: "nat option"

definition no_pending :: Pending where
  "no_pending = \<lparr>pd_dest = None, pd_ret = None, pd_sret = None\<rparr>"

text \<open>
  A frame. Its registers start at 0 and every index the decoded function holds is below their
  number, so they are a total map; its slots are in memory from \<open>fr_slots\<close> on.
\<close>

record Frame =
  fr_f :: Function
  fr_regs :: "Reg \<Rightarrow> u64"
  fr_slots :: u64
  fr_live :: "nat \<Rightarrow> bool"
  fr_env :: u64
  fr_sret :: u64
  fr_block :: nat
  fr_pc :: nat
  fr_caught :: nat
  fr_pending :: Pending

fun set_params :: "(Reg \<times> Mt) list \<Rightarrow> u64 list \<Rightarrow> (Reg \<Rightarrow> u64) \<Rightarrow> Reg \<Rightarrow> u64" where
  "set_params [] args R = R"
| "set_params ((r, m) # ps) [] R = set_params ps [] (R(r := canon 0 m))"
| "set_params ((r, m) # ps) (a # as) R = set_params ps as (R(r := canon a m))"

text \<open>The next argument, or 0 when the call passed too few.\<close>

definition next_arg :: "u64 list \<Rightarrow> u64 \<times> u64 list" where
  "next_arg as = (case as of [] \<Rightarrow> (0, []) | a # as' \<Rightarrow> (a, as'))"

definition new_frame :: "Function \<Rightarrow> u64 \<Rightarrow> u64 list \<Rightarrow> Frame" where
  "new_frame f slots args =
     (let (sret, args1) = (if abi_sret (f_abi f) then next_arg args else (0, args));
          (env, args2) = (if abi_hidden_env (f_abi f) then next_arg args1 else (0, args1));
          regs = set_params (f_params f) args2 (\<lambda>_. 0);
          env' = (if f_explicit_env f
                  then (case f_params f of (r, m) # _ \<Rightarrow> regs r | [] \<Rightarrow> env) else env)
      in \<lparr>fr_f = f, fr_regs = regs, fr_slots = slots, fr_live = (\<lambda>_. True), fr_env = env',
          fr_sret = sret, fr_block = f_entry f, fr_pc = 0, fr_caught = 0,
          fr_pending = no_pending\<rparr>)"

definition deliver :: "u64 \<Rightarrow> Frame \<Rightarrow> Frame" where
  "deliver v fr =
     (let p = fr_pending fr; fr1 = fr\<lparr>fr_pending := no_pending\<rparr>
      in case pd_dest p of
           None \<Rightarrow> fr1
         | Some d \<Rightarrow>
             fr1\<lparr>fr_regs := (fr_regs fr)(d :=
               (case pd_sret p of
                  Some off \<Rightarrow> fr_slots fr + word_of_nat off
                | None \<Rightarrow> (case pd_ret p of Some m \<Rightarrow> canon v m | None \<Rightarrow> 0)))\<rparr>)"

definition set_reg :: "Reg \<Rightarrow> u64 \<Rightarrow> Frame \<Rightarrow> Frame" where
  "set_reg d v fr = fr\<lparr>fr_regs := (fr_regs fr)(d := v)\<rparr>"

definition src_value :: "Frame \<Rightarrow> Src \<Rightarrow> u64" where
  "src_value fr s =
     (case s of SrcReg r \<Rightarrow> fr_regs fr r | SrcImm v \<Rightarrow> v | SrcSlot off \<Rightarrow> fr_slots fr + word_of_nat off)"

section \<open>Operations on registers\<close>

fun reg_dest :: "RegOp \<Rightarrow> Reg" where
  "reg_dest (RConst d _) = d"
| "reg_dest (RCopy d _) = d"
| "reg_dest (RConv d _ _) = d"
| "reg_dest (RIBin d _ _ _ _) = d"
| "reg_dest (RFBin d _ _ _ _) = d"
| "reg_dest (RFma d _ _ _ _ _ _) = d"
| "reg_dest (RICmp d _ _ _ _) = d"
| "reg_dest (RFCmp d _ _ _ _) = d"
| "reg_dest (RINeg d _ _) = d"
| "reg_dest (RFNeg d _ _) = d"
| "reg_dest (RBNot d _ _) = d"
| "reg_dest (RIsZero d _) = d"
| "reg_dest (RSelect d _ _ _) = d"
| "reg_dest (RSlotAddr d _) = d"
| "reg_dest (RAddrIndex d _ _ _ _) = d"
| "reg_dest (RMath d _ _ _) = d"
| "reg_dest (REnv d) = d"

definition fma_bits :: "Mt \<Rightarrow> u64 \<Rightarrow> u64 \<Rightarrow> u64 \<Rightarrow> bool \<Rightarrow> bool \<Rightarrow> u64" where
  "fma_bits m a b c neg_a neg_c =
     (let x = mt_float a m; y = mt_float b m; z = mt_float c m;
          x' = (if neg_a then f64_neg x else x); z' = (if neg_c then f64_neg z else z)
      in if m = MtF32 then ucast (f32_fma (f32_of_f64 x') (f32_of_f64 y) (f32_of_f64 z'))
         else f64_fma x' y z')"

text \<open>The value an operation gives its register, from the registers, the slots and the environment.\<close>

fun reg_value :: "(Reg \<Rightarrow> u64) \<Rightarrow> u64 \<Rightarrow> u64 \<Rightarrow> RegOp \<Rightarrow> InterpError + u64" where
  "reg_value R slots env (RConst d b) = Inr b"
| "reg_value R slots env (RCopy d s) = Inr (R s)"
| "reg_value R slots env (RConv d s c) = conv_apply c (R s)"
| "reg_value R slots env (RIBin d op m a b) = ibin op m (R a) (R b)"
| "reg_value R slots env (RFBin d op m a b) = Inr (fbin op m (R a) (R b))"
| "reg_value R slots env (RFma d m a b c na nc) = Inr (fma_bits m (R a) (R b) (R c) na nc)"
| "reg_value R slots env (RICmp d cc m a b) = Inr (bool_bits (icmp cc m (R a) (R b)))"
| "reg_value R slots env (RFCmp d cc m a b) = Inr (bool_bits (fcmp cc m (R a) (R b)))"
| "reg_value R slots env (RINeg d m a) = Inr (canon (- R a) m)"
| "reg_value R slots env (RFNeg d m a) =
     Inr (R a XOR push_bit (if m = MtF32 then 31 else 63) 1)"
| "reg_value R slots env (RBNot d m a) = Inr (canon (NOT (R a)) m)"
| "reg_value R slots env (RIsZero d a) = Inr (bool_bits (R a = 0))"
| "reg_value R slots env (RSelect d c a b) = Inr (if R c \<noteq> 0 then R a else R b)"
| "reg_value R slots env (RSlotAddr d off) = Inr (slots + word_of_nat off)"
| "reg_value R slots env (RAddrIndex d base idx m scale) =
     Inr (R base + sext (R idx) m * word_of_int scale)"
| "reg_value R slots env (RMath d k a m) = Inr (math k m (R a))"
| "reg_value R slots env (REnv d) = Inr env"

section \<open>Operations on memory\<close>

text \<open>An array header is 32 bytes: data pointer, length, capacity and element size.\<close>

definition array_get_ptr ::
  "'x Runtime \<Rightarrow> 'x World \<Rightarrow> u64 \<Rightarrow> u64 \<Rightarrow> Mt \<Rightarrow> InterpError + u64" where
  "array_get_ptr rt w a idx m =
     rbind (mem_read rt w a MtI64) (\<lambda>data.
     rbind (mem_read rt w (a + 24) MtI64) (\<lambda>elem.
       Inr (data + sext idx m * elem)))"

fun write_captures ::
  "'x Runtime \<Rightarrow> (Reg \<Rightarrow> u64) \<Rightarrow> u64 \<Rightarrow> (Reg \<times> Mt) list \<Rightarrow> 'x World \<Rightarrow> InterpError + 'x World" where
  "write_captures rt R a [] w = Inr w"
| "write_captures rt R a ((r, m) # cs) w =
     rbind (mem_write rt w a m (R r)) (\<lambda>w'. write_captures rt R (a + 8) cs w')"

definition fn_code :: "'x Runtime \<Rightarrow> FnRef \<Rightarrow> InterpError + u64" where
  "fn_code rt f =
     (case f of FrAddress a \<Rightarrow> Inr a | FrFunction md fn \<Rightarrow> rt_function_address rt md fn)"

definition make_closure ::
  "'x Runtime \<Rightarrow> (Reg \<Rightarrow> u64) \<Rightarrow> FnRef \<Rightarrow> (Reg \<times> Mt) list \<Rightarrow> 'x World
    \<Rightarrow> InterpError + (u64 \<times> 'x World)" where
  "make_closure rt R f captures w =
     rbind (fn_code rt f) (\<lambda>code.
     rbind (if captures = [] then Inr (0, w)
            else rbind (malloc rt (length captures * 8) w) (\<lambda>(env, w1).
                 rbind (write_captures rt R env captures w1) (\<lambda>w2. Inr (env, w2))))
       (\<lambda>(env, w2).
     rbind (malloc rt 16 w2) (\<lambda>(obj, w3).
     rbind (mem_write rt w3 obj MtI64 code) (\<lambda>w4.
     rbind (mem_write rt w4 (obj + 8) MtI64 env) (\<lambda>w5. Inr (obj, w5))))))"

fun load_bytes :: "memory \<Rightarrow> u64 \<Rightarrow> nat \<Rightarrow> u8 list option" where
  "load_bytes m a 0 = Some []"
| "load_bytes m a (Suc n) =
     (case m a of None \<Rightarrow> None | Some b \<Rightarrow> map_option ((#) b) (load_bytes m (a + 1) n))"

fun store_bytes :: "memory \<Rightarrow> u64 \<Rightarrow> u8 list \<Rightarrow> memory option" where
  "store_bytes m a [] = Some m"
| "store_bytes m a (b # bs) =
     (if m a = None then None else store_bytes (m(a \<mapsto> b)) (a + 1) bs)"

text \<open>\<open>ptr::copy\<close> of \<open>n\<close> bytes, which may overlap: all bytes are read before any is written.\<close>

definition copy_bytes :: "u64 \<Rightarrow> u64 \<Rightarrow> nat \<Rightarrow> 'x World \<Rightarrow> InterpError + 'x World" where
  "copy_bytes src dst n w =
     rbind (ok_or Undefined (load_bytes (w_mem w) src n)) (\<lambda>bs.
     rbind (ok_or Undefined (store_bytes (w_mem w) dst bs)) (\<lambda>m'. Inr (w\<lparr>w_mem := m'\<rparr>)))"

text \<open>A size operand, sign-extended; a negative one copies nothing.\<close>

definition size_of_reg :: "u64 \<Rightarrow> Mt \<Rightarrow> nat" where
  "size_of_reg b m = nat (sint (sext b m))"

definition clone_object :: "'x Runtime \<Rightarrow> u64 \<Rightarrow> 'x World \<Rightarrow> InterpError + (u64 \<times> 'x World)" where
  "clone_object rt s w =
     (if s = 0 then Inl NullClone
      else rbind (malloc rt 64 w) (\<lambda>(p, w1).
           rbind (copy_bytes s p 64 w1) (\<lambda>w2. Inr (p, w2))))"

definition global_load :: "'x Runtime \<Rightarrow> GlobalSlot \<Rightarrow> 'x World \<Rightarrow> InterpError + (u64 \<times> 'x World)" where
  "global_load rt g w =
     (case g of
        GsAddress a \<Rightarrow> rbind (ok_or Undefined (load_le (w_mem w) a 8)) (\<lambda>v. Inr (v, w))
      | GsRuntime i ld st \<Rightarrow> Inr (rt_c_call rt ld [word_of_nat i] w))"

definition global_store ::
  "'x Runtime \<Rightarrow> GlobalSlot \<Rightarrow> u64 \<Rightarrow> 'x World \<Rightarrow> InterpError + 'x World" where
  "global_store rt g v w =
     (case g of
        GsAddress a \<Rightarrow>
          rbind (ok_or Undefined (store_le (w_mem w) a 8 v)) (\<lambda>m'. Inr (w\<lparr>w_mem := m'\<rparr>))
      | GsRuntime i ld st \<Rightarrow> Inr (snd (rt_c_call rt st [word_of_nat i, v] w)))"

definition to_reg ::
  "Reg \<Rightarrow> Frame \<Rightarrow> InterpError + (u64 \<times> 'x World) \<Rightarrow> InterpError + (Frame \<times> 'x World)" where
  "to_reg d fr r = rbind r (\<lambda>(v, w). Inr (set_reg d v fr, w))"

definition keep_frame ::
  "Frame \<Rightarrow> InterpError + 'x World \<Rightarrow> InterpError + (Frame \<times> 'x World)" where
  "keep_frame fr r = rbind r (\<lambda>w. Inr (fr, w))"

definition value_only ::
  "'x World \<Rightarrow> InterpError + u64 \<Rightarrow> InterpError + (u64 \<times> 'x World)" where
  "value_only w r = rbind r (\<lambda>v. Inr (v, w))"

fun exec_mem ::
  "'x Runtime \<Rightarrow> MemOp \<Rightarrow> Frame \<Rightarrow> 'x World \<Rightarrow> InterpError + (Frame \<times> 'x World)" where
  "exec_mem rt (MLoad d m p off) fr w =
     to_reg d fr (value_only w (mem_read rt w (fr_regs fr p + word_of_int off) m))"
| "exec_mem rt (MStore m p v off) fr w =
     keep_frame fr (mem_write rt w (fr_regs fr p + word_of_int off) m (fr_regs fr v))"
| "exec_mem rt (MArrayHeader d a off guarded) fr w =
     to_reg d fr (value_only w
       (if fr_regs fr a = 0 then (if guarded then Inr 0 else Inl NullArrayHeader)
        else mem_read rt w (fr_regs fr a + word_of_int off) MtI64))"
| "exec_mem rt (MArrayGetPtr d a i m) fr w =
     to_reg d fr (value_only w (array_get_ptr rt w (fr_regs fr a) (fr_regs fr i) m))"
| "exec_mem rt (MGlobalLoad d m g) fr w =
     to_reg d fr (rbind (global_load rt g w) (\<lambda>(v, w'). Inr (canon v m, w')))"
| "exec_mem rt (MGlobalStore s m g) fr w =
     keep_frame fr (global_store rt g (canon (fr_regs fr s) m) w)"
| "exec_mem rt (MMemCopy d s n m) fr w =
     keep_frame fr (copy_bytes (fr_regs fr s) (fr_regs fr d) (size_of_reg (fr_regs fr n) m) w)"
| "exec_mem rt (MMemSet d v n m) fr w =
     keep_frame fr
       (rbind (ok_or Undefined
                 (store_bytes (w_mem w) (fr_regs fr d)
                    (replicate (size_of_reg (fr_regs fr n) m) (ucast (fr_regs fr v)))))
          (\<lambda>m'. Inr (w\<lparr>w_mem := m'\<rparr>)))"
| "exec_mem rt (MAtomicLoad d m p) fr w = to_reg d fr (atomic_rmw rt w m RmwOr (fr_regs fr p) 0)"
| "exec_mem rt (MAtomicStore m p v) fr w =
     keep_frame fr (rbind (atomic_rmw rt w m RmwXchg (fr_regs fr p) (fr_regs fr v))
                      (\<lambda>(old, w'). Inr w'))"
| "exec_mem rt (MAtomicRmw d m op p v) fr w =
     to_reg d fr (atomic_rmw rt w m op (fr_regs fr p) (fr_regs fr v))"
| "exec_mem rt (MAtomicCas d m p e n) fr w =
     to_reg d fr (atomic_cas rt w m (fr_regs fr p) (fr_regs fr e) (fr_regs fr n))"
| "exec_mem rt (MCloneObject d s) fr w = to_reg d fr (clone_object rt (fr_regs fr s) w)"
| "exec_mem rt (MFree p) fr w = Inr (fr, rt_free rt (fr_regs fr p) w)"
| "exec_mem rt (MClosure d f cs) fr w = to_reg d fr (make_closure rt (fr_regs fr) f cs w)"
| "exec_mem rt (MFnAddr d md fn) fr w =
     to_reg d fr (value_only w (rt_function_address rt md fn))"
| "exec_mem rt (MStr d lit p n) fr w =
     to_reg d fr (Inr (rt_c_call rt lit [p, word_of_nat n] w))"
| "exec_mem rt (MMarkMoved s) fr w = Inr (fr\<lparr>fr_live := (fr_live fr)(s := False)\<rparr>, w)"
| "exec_mem rt (MCheckLive s nm line) fr w =
     (if fr_live fr s then Inr (fr, w) else Inl (UseAfterMove nm))"

section \<open>Calls\<close>

datatype 'x Action =
    AcNext Frame "'x World"
  | AcCall Function "u64 list" Pending "'x World"
  | AcSetJmp Reg Reg

definition native_result ::
  "Frame \<Rightarrow> Pending \<Rightarrow> (InterpError + u64) \<times> 'x World \<Rightarrow> InterpError + 'x Action" where
  "native_result fr pend r =
     rbind (fst r) (\<lambda>v. Inr (AcNext (deliver v (fr\<lparr>fr_pending := pend\<rparr>)) (snd r)))"

definition call_op ::
  "'x Runtime \<Rightarrow> Call \<Rightarrow> Frame \<Rightarrow> 'x World \<Rightarrow> InterpError + 'x Action" where
  "call_op rt c fr w =
     (let args = map (\<lambda>(s, m). (canon (src_value fr s) m, m)) (call_args c);
          pend = \<lparr>pd_dest = call_dest c, pd_ret = call_ret c,
                  pd_sret = map_option fst (call_sret c)\<rparr>;
          ret = (case call_sret c of
                   Some (off, sz) \<Rightarrow> RetSret (fr_slots fr + word_of_nat off) sz
                 | None \<Rightarrow> (case call_ret c of Some m \<Rightarrow> RetValue m | None \<Rightarrow> RetVoid));
          native = (\<lambda>code. native_result fr pend (rt_native rt code args ret w))
      in case call_target c of
           TgNative code \<Rightarrow> native code
         | TgInterp md fn \<Rightarrow>
             (case rt_native_code rt fn of
                Some code \<Rightarrow> native code
              | None \<Rightarrow>
                  rbind (rt_function_at rt md fn) (\<lambda>g. Inr (AcCall g (map fst args) pend w))))"

definition call_indirect ::
  "'x Runtime \<Rightarrow> IndirectCall \<Rightarrow> Frame \<Rightarrow> 'x World \<Rightarrow> InterpError + 'x Action" where
  "call_indirect rt c fr w =
     (let closure = fr_regs fr (ic_closure c) in
      if closure = 0 then Inl (null_fault rt w NullCall)
      else rbind (mem_read rt w closure MtI64) (\<lambda>code.
           rbind (mem_read rt w (closure + 8) MtI64) (\<lambda>env.
             let args = (env, MtI64) # map (\<lambda>(r, m). (fr_regs fr r, m)) (ic_args c);
                 pend = \<lparr>pd_dest = ic_dest c, pd_ret = ic_ret c, pd_sret = None\<rparr>
             in case rt_trampoline rt code of
                  Some (md, fn) \<Rightarrow>
                    rbind (rt_function_at rt md fn) (\<lambda>g. Inr (AcCall g (map fst args) pend w))
                | None \<Rightarrow>
                    native_result fr pend
                      (rt_native rt code args
                         (case ic_ret c of Some m \<Rightarrow> RetValue m | None \<Rightarrow> RetVoid) w))))"

fun exec_ctl ::
  "'x Runtime \<Rightarrow> CtlOp \<Rightarrow> Frame \<Rightarrow> 'x World \<Rightarrow> InterpError + 'x Action" where
  "exec_ctl rt (CtCall c) fr w = call_op rt c fr w"
| "exec_ctl rt (CtCallIndirect c) fr w = call_indirect rt c fr w"
| "exec_ctl rt (CtSetJmp d buf) fr w = Inr (AcSetJmp d buf)"
| "exec_ctl rt CtHandlerPopped fr w = Inr (AcNext (fr\<lparr>fr_caught := fr_caught fr - 1\<rparr>) w)"
| "exec_ctl rt CtBail fr w = Inl VectorCode"
| "exec_ctl rt (CtTrap msg) fr w = Inl (Fault msg)"

definition exec_reg :: "RegOp \<Rightarrow> Frame \<Rightarrow> InterpError + Frame" where
  "exec_reg op fr =
     rbind (reg_value (fr_regs fr) (fr_slots fr) (fr_env fr) op)
       (\<lambda>v. Inr (set_reg (reg_dest op) v fr))"

definition exec_op :: "'x Runtime \<Rightarrow> Op \<Rightarrow> Frame \<Rightarrow> 'x World \<Rightarrow> InterpError + 'x Action" where
  "exec_op rt op fr w =
     (case op of
        OReg q \<Rightarrow> rbind (exec_reg q fr) (\<lambda>fr'. Inr (AcNext fr' w))
      | OMem q \<Rightarrow> rbind (exec_mem rt q fr w) (\<lambda>(fr', w'). Inr (AcNext fr' w'))
      | OCtl q \<Rightarrow> exec_ctl rt q fr w)"

section \<open>Edges and terminators\<close>

type_synonym Moves = "(Reg \<times> Reg \<times> Conv option \<times> Conv option) list"

fun move_values :: "(Reg \<Rightarrow> u64) \<Rightarrow> Moves \<Rightarrow> InterpError + u64 list" where
  "move_values R [] = Inr []"
| "move_values R ((d, s, c1, c2) # ms) =
     rbind (convert (R s) c1 c2) (\<lambda>v. rbind (move_values R ms) (\<lambda>vs. Inr (v # vs)))"

fun assign_moves :: "Moves \<Rightarrow> u64 list \<Rightarrow> (Reg \<Rightarrow> u64) \<Rightarrow> Reg \<Rightarrow> u64" where
  "assign_moves ((d, s, c1, c2) # ms) (v # vs) R = assign_moves ms vs (R(d := v))"
| "assign_moves _ _ R = R"

text \<open>\<open>take\<close>, with its case for one move written out.\<close>

definition take_edge :: "Frame \<Rightarrow> Edge \<Rightarrow> InterpError + Frame" where
  "take_edge fr e =
     (case edge_moves e of
        [] \<Rightarrow> Inr (fr\<lparr>fr_block := edge_block e, fr_pc := 0\<rparr>)
      | [(d, s, c1, c2)] \<Rightarrow>
          rbind (convert (fr_regs fr s) c1 c2)
            (\<lambda>v. Inr ((set_reg d v fr)\<lparr>fr_block := edge_block e, fr_pc := 0\<rparr>))
      | ms \<Rightarrow>
          rbind (move_values (fr_regs fr) ms)
            (\<lambda>vs. Inr (fr\<lparr>fr_regs := assign_moves ms vs (fr_regs fr),
                         fr_block := edge_block e, fr_pc := 0\<rparr>)))"

fun copy_fields ::
  "'x Runtime \<Rightarrow> u64 \<Rightarrow> u64 \<Rightarrow> (int \<times> Mt) list \<Rightarrow> 'x World \<Rightarrow> InterpError + 'x World" where
  "copy_fields rt src dst [] w = Inr w"
| "copy_fields rt src dst ((off, m) # fs) w =
     rbind (mem_read rt w (src + word_of_int off) m) (\<lambda>v.
     rbind (mem_write rt w (dst + word_of_int off) m v) (\<lambda>w'.
       copy_fields rt src dst fs w'))"

datatype 'x TermAction = TaGoto Frame | TaReturn u64 "'x World"

fun exec_term ::
  "'x Runtime \<Rightarrow> Term \<Rightarrow> Frame \<Rightarrow> 'x World \<Rightarrow> InterpError + 'x TermAction" where
  "exec_term rt (TmJump e) fr w = rbind (take_edge fr e) (\<lambda>fr'. Inr (TaGoto fr'))"
| "exec_term rt (TmBrif c t f) fr w =
     rbind (take_edge fr (if fr_regs fr c \<noteq> 0 then t else f)) (\<lambda>fr'. Inr (TaGoto fr'))"
| "exec_term rt (TmSwitch r m cases d) fr w =
     (let v = sext (fr_regs fr r) m;
          e = (case List.find (\<lambda>(c, e). c = v) cases of Some (c, e) \<Rightarrow> e | None \<Rightarrow> d)
      in rbind (take_edge fr e) (\<lambda>fr'. Inr (TaGoto fr')))"
| "exec_term rt (TmReturn None) fr w = Inr (TaReturn 0 w)"
| "exec_term rt (TmReturn (Some r)) fr w = Inr (TaReturn (fr_regs fr r) w)"
| "exec_term rt (TmReturnSret r fs) fr w =
     rbind (copy_fields rt (fr_regs fr r) (fr_sret fr) fs w) (\<lambda>w'. Inr (TaReturn (fr_sret fr) w'))"
| "exec_term rt (TmTrap msg) fr w = Inl (Fault msg)"

section \<open>The machine\<close>

definition MAX_DEPTH :: nat where
  "MAX_DEPTH = 200000"

datatype 'x Outcome =
    OutNext "Frame list" "'x World"
  | OutDone u64 "'x World"
  | OutSetJmp "Frame list" "'x World"
  | OutFail InterpError

definition enter_function ::
  "'x Runtime \<Rightarrow> Function \<Rightarrow> u64 list \<Rightarrow> 'x World \<Rightarrow> Frame \<times> 'x World" where
  "enter_function rt f args w =
     (let (p, w') = rt_slots rt (f_slot_words f) w in (new_frame f p args, w'))"

text \<open>One operation or terminator of the topmost frame, and the call stack's push and pop.\<close>

fun machine_step :: "'x Runtime \<Rightarrow> Frame list \<Rightarrow> 'x World \<Rightarrow> 'x Outcome" where
  "machine_step rt [] w = OutFail PoppedOutside"
| "machine_step rt (fr # rest) w =
     (let b = f_blocks (fr_f fr) ! fr_block fr in
      if fr_pc fr < length (blk_ops b) then
        (case exec_op rt (blk_ops b ! fr_pc fr) fr w of
           Inl e \<Rightarrow> OutFail e
         | Inr (AcNext fr' w') \<Rightarrow> OutNext (fr'\<lparr>fr_pc := fr_pc fr + 1\<rparr> # rest) w'
         | Inr (AcCall g args pend w') \<Rightarrow>
             if MAX_DEPTH \<le> length (fr # rest) then OutFail StackOverflow
             else let (fr', w'') = enter_function rt g args w'
                  in OutNext (fr' # fr\<lparr>fr_pc := fr_pc fr + 1, fr_pending := pend\<rparr> # rest) w''
         | Inr (AcSetJmp d buf) \<Rightarrow> OutSetJmp (fr # rest) w)
      else
        (case exec_term rt (blk_term b) fr w of
           Inl e \<Rightarrow> OutFail e
         | Inr (TaGoto fr') \<Rightarrow> OutNext (fr' # rest) w
         | Inr (TaReturn v w') \<Rightarrow>
             let w'' = rt_drop_slots rt (fr_slots fr) (f_slot_words (fr_f fr)) w'
             in case rest of
                  [] \<Rightarrow> OutDone v w''
                | caller # rest' \<Rightarrow> OutNext (deliver v caller # rest') w''))"

fun machine_run :: "nat \<Rightarrow> 'x Runtime \<Rightarrow> Frame list \<Rightarrow> 'x World \<Rightarrow> 'x Outcome" where
  "machine_run 0 rt fs w = OutNext fs w"
| "machine_run (Suc n) rt fs w =
     (case machine_step rt fs w of OutNext fs' w' \<Rightarrow> machine_run n rt fs' w' | out \<Rightarrow> out)"

definition interp_call :: "nat \<Rightarrow> 'x Runtime \<Rightarrow> Function \<Rightarrow> u64 list \<Rightarrow> 'x World \<Rightarrow> 'x Outcome" where
  "interp_call n rt f args w =
     (let (fr, w') = enter_function rt f args w in machine_run n rt [fr] w')"

end
