(* ===== verification/MirDecodeFn.thy ===== *)
theory MirDecodeFn
  imports MirDecodeInst MirExec
begin

text \<open>
  Whole functions (\<open>codegen/mir_interpreter/decode.rs\<close>): the order of the blocks, edges with the
  moves into the target's phis, terminators, and \<open>decode\<close>.
\<close>

section \<open>Block order\<close>

text \<open>
  The depth-first search of \<open>reverse_post_order\<close>. The head of the stack is its top; an entry is
  a block and whether its successors are done. A finished block goes on the front of the result,
  which is the source's list reversed.
\<close>

definition rpo_weight :: "(IrBlockId \<times> bool) list \<Rightarrow> nat" where
  "rpo_weight st = sum_list (map (\<lambda>(i, done). if done then 1 else 2) st)"

function rpo_loop ::
  "IrControlFlowGraph \<Rightarrow> IrBlockId set \<Rightarrow> (IrBlockId \<times> bool) list \<Rightarrow> IrBlockId list
    \<Rightarrow> IrBlockId set \<times> IrBlockId list" where
  "rpo_loop g V [] acc = (V, acc)"
| "rpo_loop g V ((i, True) # st) acc =
     rpo_loop g V st (if get_block g i \<noteq> None then i # acc else acc)"
| "rpo_loop g V ((i, False) # st) acc =
     (if i \<in> V then rpo_loop g V st acc
      else rpo_loop g (insert i V)
             (map (\<lambda>s. (s, False)) (filter (\<lambda>s. s \<notin> insert i V) (block_succs g i))
                @ (i, True) # st) acc)"
  by pat_completeness auto
termination
proof (relation "measures [\<lambda>(g, V, st, acc). card (fst ` set (cfg_blocks g) - V),
                           \<lambda>(g, V, st, acc). rpo_weight st]", goal_cases)
  case (4 g V i st acc)
  let ?D = "fst ` set (cfg_blocks g)"
  show ?case
  proof (cases "i \<in> ?D")
    case True
    with 4 have "card (?D - insert i V) < card (?D - V)" by (intro psubset_card_mono) auto
    then show ?thesis by simp
  next
    case False
    then have "block_succs g i = []" "?D - insert i V = ?D - V"
      using get_block_dom [of g i] by (auto simp: block_succs_def)
    then show ?thesis by (simp add: rpo_weight_def)
  qed
qed (auto simp: rpo_weight_def)

definition reverse_post_order :: "IrFunction \<Rightarrow> IrBlockId list" where
  "reverse_post_order f =
     (let g = fn_cfg f; (V, rpo) = rpo_loop g {} [(cfg_entry_block g, False)] []
      in rpo @ filter (\<lambda>i. i \<notin> V) (map fst (cfg_blocks g)))"

text \<open>Facts about the search, by its induction.\<close>

lemma rpo_loop_append:
  "rpo_loop g V (st @ st') acc = (case rpo_loop g V st acc of (V', acc') \<Rightarrow> rpo_loop g V' st' acc')"
  by (induction g V st acc rule: rpo_loop.induct) auto

definition marked :: "(IrBlockId \<times> bool) list \<Rightarrow> IrBlockId list" where
  "marked st = map fst (filter snd st)"

definition pending_ids :: "(IrBlockId \<times> bool) list \<Rightarrow> IrBlockId set" where
  "pending_ids st = fst ` set (filter (\<lambda>x. \<not> snd x) st)"

lemma marked_simps [simp]:
  "marked [] = []"
  "marked ((i, d) # st) = (if d then i # marked st else marked st)"
  "marked (st @ st') = marked st @ marked st'"
  "marked (map (\<lambda>s. (s, False)) xs) = []"
  by (simp_all add: marked_def filter_map comp_def)

lemma pending_simps [simp]:
  "pending_ids [] = {}"
  "pending_ids ((i, d) # st) = (if d then pending_ids st else insert i (pending_ids st))"
  "pending_ids (st @ st') = pending_ids st \<union> pending_ids st'"
  "pending_ids (map (\<lambda>s. (s, False)) xs) = set xs"
  by (auto simp: pending_ids_def filter_map comp_def image_iff)

lemma rpo_loop_order:
  assumes "rpo_loop g V st acc = (V', acc')"
    and "distinct (acc @ marked st)" and "set acc \<subseteq> fst ` set (cfg_blocks g)"
    and "V \<inter> fst ` set (cfg_blocks g) = set acc \<union> (set (marked st) \<inter> fst ` set (cfg_blocks g))"
    and "set (marked st) \<subseteq> V"
  shows "distinct acc' \<and> set acc' = V' \<inter> fst ` set (cfg_blocks g)"
  using assms
proof (induction g V st acc rule: rpo_loop.induct)
  case (1 g V acc)
  then show ?case by auto
next
  case (2 g V i st acc)
  then show ?case
  proof (cases "get_block g i = None")
    case True
    then have "i \<notin> fst ` set (cfg_blocks g)" using get_block_dom by blast
    with 2 True show ?thesis by auto
  next
    case False
    then have "i \<in> fst ` set (cfg_blocks g)" using get_block_dom by blast
    with 2 False show ?thesis by auto
  qed
next
  case (3 g V i st acc)
  show ?case
  proof (cases "i \<in> V")
    case True
    with 3 show ?thesis by auto
  next
    case False
    let ?D = "fst ` set (cfg_blocks g)"
    let ?st = "map (\<lambda>s. (s, False)) (filter (\<lambda>s. s \<notin> insert i V) (block_succs g i)) @ (i, True) # st"
    have "rpo_loop g (insert i V) ?st acc = (V', acc')" using 3 False by simp
    moreover have "i \<notin> set acc" "i \<notin> set (marked st)" using 3 False by auto
    then have "distinct (acc @ marked ?st)" using "3.prems"(2) by auto
    moreover have "insert i V \<inter> ?D = set acc \<union> (set (marked ?st) \<inter> ?D)"
      using "3.prems"(4) by auto
    moreover have "set (marked ?st) \<subseteq> insert i V" using "3.prems"(5) by auto
    ultimately show ?thesis using "3.IH"(2) [OF False] "3.prems"(3) by blast
  qed
qed

lemma rpo_loop_closed:
  assumes "rpo_loop g V st acc = (V', acc')"
    and "\<forall>i \<in> V. set (block_succs g i) \<subseteq> V \<union> pending_ids st"
  shows "V \<union> pending_ids st \<subseteq> V' \<and> succ_closed g V'"
  using assms
proof (induction g V st acc rule: rpo_loop.induct)
  case (1 g V acc)
  then show ?case by (auto simp: succ_closed_def)
next
  case (2 g V i st acc)
  then show ?case by simp
next
  case (3 g V i st acc)
  then show ?case by (cases "i \<in> V") auto
qed

lemma rpo_loop_least:
  assumes "rpo_loop g V st acc = (V', acc')" and "V \<union> pending_ids st \<subseteq> S" and "succ_closed g S"
  shows "V' \<subseteq> S"
  using assms
proof (induction g V st acc rule: rpo_loop.induct)
  case (3 g V i st acc)
  then show ?case by (cases "i \<in> V") (auto simp: succ_closed_def)
qed auto

lemma rpo_loop_reach:
  assumes "rpo_loop g {} [(e, False)] [] = (V, acc)"
  shows "V = {i. cfg_reach g e i} \<and> distinct acc \<and>
         set acc = {i. cfg_reach g e i} \<inter> fst ` set (cfg_blocks g)"
proof -
  have "V \<subseteq> {i. cfg_reach g e i}"
    by (rule rpo_loop_least [OF assms]) (auto simp: succ_closed_reach reach_entry)
  moreover have "e \<in> V" "succ_closed g V"
    using rpo_loop_closed [OF assms] by auto
  then have "{i. cfg_reach g e i} \<subseteq> V" by (auto dest: cfg_reach_closed)
  ultimately have "V = {i. cfg_reach g e i}" by blast
  with rpo_loop_order [OF assms] show ?thesis by auto
qed

lemma rpo_loop_entry_first:
  assumes "rpo_loop g {} [(e, False)] [] = (V, acc)" and "get_block g e \<noteq> None"
  shows "acc \<noteq> [] \<and> hd acc = e"
proof -
  have "rpo_loop g {} [(e, False)] [] =
      rpo_loop g {e} (map (\<lambda>s. (s, False)) (filter (\<lambda>s. s \<notin> {e}) (block_succs g e)) @ [(e, True)]) []"
    by simp
  with assms show ?thesis by (auto simp: rpo_loop_append split: prod.splits)
qed

lemma reverse_post_order_facts:
  assumes "bt_wf (cfg_blocks (fn_cfg f))"
  obtains reached rest where
    "reverse_post_order f = reached @ rest"
    "set reached = {i. cfg_reach (fn_cfg f) (entry_block f) i} \<inter> fst ` set (cfg_blocks (fn_cfg f))"
    "set rest = fst ` set (cfg_blocks (fn_cfg f)) - {i. cfg_reach (fn_cfg f) (entry_block f) i}"
    "distinct (reached @ rest)"
    "get_block (fn_cfg f) (entry_block f) \<noteq> None \<Longrightarrow> reached \<noteq> [] \<and> hd reached = entry_block f"
proof -
  let ?g = "fn_cfg f"
  obtain V acc where loop: "rpo_loop ?g {} [(entry_block f, False)] [] = (V, acc)" by fastforce
  let ?rest = "filter (\<lambda>i. i \<notin> V) (map fst (cfg_blocks ?g))"
  from rpo_loop_reach [OF loop]
  have V: "V = {i. cfg_reach ?g (entry_block f) i}" and acc: "distinct acc"
    "set acc = {i. cfg_reach ?g (entry_block f) i} \<inter> fst ` set (cfg_blocks ?g)" by auto
  show thesis
  proof (rule that)
    show "reverse_post_order f = acc @ ?rest"
      using loop by (simp add: reverse_post_order_def entry_block_def Let_def)
    show "set ?rest = fst ` set (cfg_blocks ?g) - {i. cfg_reach ?g (entry_block f) i}"
      by (auto simp: V)
    show "distinct (acc @ ?rest)"
      using acc bt_wf_distinct [OF assms] by (auto simp: V)
    show "get_block ?g (entry_block f) \<noteq> None \<Longrightarrow> acc \<noteq> [] \<and> hd acc = entry_block f"
      by (rule rpo_loop_entry_first [OF loop])
  qed (rule acc(2))
qed

section \<open>Edges and terminators\<close>

text \<open>An edge's phi arguments are chosen by its source block: the first entry for it.\<close>

definition phi_move ::
  "Dec \<Rightarrow> IrBlockId \<Rightarrow> IrPhiNode \<Rightarrow> DecodeError + (Reg \<times> Reg \<times> Conv option \<times> Conv option)" where
  "phi_move D from p =
     rbind (ok_or (DeNoIncoming (phi_dest p) from)
              (List.find (\<lambda>(b, v). b = from) (phi_incoming p)))
       (\<lambda>(b, v). let (c1, c2) = phi_coercion (reg_mt D v) (mt_phi (phi_ty p))
                 in Inr (phi_dest p, v, c1, c2))"

fun rmap :: "('a \<Rightarrow> 'e + 'b) \<Rightarrow> 'a list \<Rightarrow> 'e + 'b list" where
  "rmap f [] = Inr []"
| "rmap f (x # xs) = rbind (f x) (\<lambda>y. rbind (rmap f xs) (\<lambda>ys. Inr (y # ys)))"

definition decode_edge ::
  "DecodeCtx \<Rightarrow> IrBlockId \<Rightarrow> IrBlockId \<Rightarrow> Dec \<Rightarrow> DecodeError + Edge" where
  "decode_edge cx from to D =
     rbind (ok_or (DeNoBlock to) (dc_block_index D to)) (\<lambda>idx.
     rbind (ok_or (DeNoBlock to) (get_block (fn_cfg (cx_function cx)) to)) (\<lambda>target.
     rbind (rmap (phi_move D from) (bb_phi_nodes target)) (\<lambda>ms.
       Inr \<lparr>edge_block = idx, edge_moves = ms\<rparr>)))"

definition return_value_conv :: "Mt \<Rightarrow> IrType \<Rightarrow> Conv option" where
  "return_value_conv from ret_ty =
     (if from = MtI64 \<and> mt_of_ty ret_ty = Some MtI32 then Some (CvReduce MtI32)
      else if from = MtI32 \<and> mt_of_ty ret_ty = Some MtI64 then Some (CvSext MtI32 MtI64)
      else None)"

definition decode_return :: "DecodeCtx \<Rightarrow> IrId option \<Rightarrow> Dec \<Rightarrow> Term decoded" where
  "decode_return cx v D =
     (let sg = fn_signature (cx_function cx) in
      if sig_uses_sret sg then
        (case v of
           None \<Rightarrow> (Inr (TmReturn None), D)
         | Some r \<Rightarrow>
             (case rbind (ok_or (DeNoType r) (or_else (reg_type cx r) (local_type cx r))) (\<lambda>t.
                   ok_or (DeNotStruct t) (struct_layout t)) of
                Inl e \<Rightarrow> (Inl e, D)
              | Inr l \<Rightarrow> (Inr (TmReturnSret r (map (\<lambda>(off, m, s). (off, m)) l)), D)))
      else
        (case v of
           Some r \<Rightarrow>
             (let (r', D1) = coerce r (return_value_conv (reg_mt D r) (sig_return_type sg)) D
              in (Inr (TmReturn (Some r')), D1))
         | None \<Rightarrow> if sig_return_type sg \<noteq> TyVoid then (Inl DeMissingReturn, D)
                   else (Inr (TmReturn None), D)))"

definition pure_term :: "DecodeError + Term \<Rightarrow> Dec \<Rightarrow> Term decoded" where
  "pure_term r D = (r, D)"

fun try_terminator :: "DecodeCtx \<Rightarrow> IrBlockId \<Rightarrow> IrTerminator \<Rightarrow> Dec \<Rightarrow> Term decoded" where
  "try_terminator cx from (TBranch t) D =
     pure_term (rbind (decode_edge cx from t D) (\<lambda>e. Inr (TmJump e))) D"
| "try_terminator cx from (TCondBranch c t f) D =
     pure_term (rbind (decode_edge cx from t D) (\<lambda>e1.
                rbind (decode_edge cx from f D) (\<lambda>e2. Inr (TmBrif c e1 e2)))) D"
| "try_terminator cx from (TSwitch v cs d) D =
     pure_term (rbind (rmap (\<lambda>(k, t). rbind (decode_edge cx from t D) (\<lambda>e. Inr (k, e))) cs) (\<lambda>es.
                rbind (decode_edge cx from d D) (\<lambda>ed. Inr (TmSwitch v (reg_mt D v) es ed)))) D"
| "try_terminator cx from (TReturn v) D = decode_return cx v D"
| "try_terminator cx from TUnreachable D = (Inr (TmTrap TrapUnreachable), D)"
| "try_terminator cx from (TNoReturn c) D = (Inr (TmTrap TrapNoReturn), D)"

definition decode_terminator :: "DecodeCtx \<Rightarrow> IrBlockId \<Rightarrow> IrTerminator \<Rightarrow> Dec \<Rightarrow> Term \<times> Dec" where
  "decode_terminator cx from t D =
     (case try_terminator cx from t D of
        (Inl e, D1) \<Rightarrow> (TmTrap (TrapTerm e), D1)
      | (Inr tm, D1) \<Rightarrow> (tm, D1))"

section \<open>Functions\<close>

definition decode_block :: "DecodeCtx \<Rightarrow> nat \<Rightarrow> IrBlockId \<Rightarrow> IrBasicBlock \<Rightarrow> Dec \<Rightarrow> Block \<times> Dec" where
  "decode_block cx idx i b D =
     (let D1 = fold (decode_instruction cx) (bb_instructions b)
                 (D\<lparr>dc_current_block := idx, dc_ops := []\<rparr>);
          (tm, D2) = decode_terminator cx i (bb_terminator b) D1
      in (\<lparr>blk_ops = dc_ops D2, blk_term = tm\<rparr>, D2))"

fun decode_blocks :: "DecodeCtx \<Rightarrow> nat \<Rightarrow> (IrBlockId \<times> IrBasicBlock) list \<Rightarrow> Dec \<Rightarrow> Block list \<times> Dec" where
  "decode_blocks cx idx [] D = ([], D)"
| "decode_blocks cx idx ((i, b) # bs) D =
     (let (blk, D1) = decode_block cx idx i b D; (blks, D2) = decode_blocks cx (idx + 1) bs D1
      in (blk # blks, D2))"

text \<open>Every register named anywhere gets a slot; \<open>u32::MAX\<close> is the invalid id.\<close>

definition reg_valid :: "IrId \<Rightarrow> bool" where
  "reg_valid r = (r \<noteq> 2 ^ 32 - 1)"

definition bumped_terminator :: "IrTerminator \<Rightarrow> IrId list" where
  "bumped_terminator t =
     (case t of TCondBranch c a b \<Rightarrow> [c] | TSwitch v cs d \<Rightarrow> [v] | TReturn (Some v) \<Rightarrow> [v] | _ \<Rightarrow> [])"

definition named_registers :: "IrFunction \<Rightarrow> IrId list" where
  "named_registers f =
     map par_reg (sig_parameters (fn_signature f)) @
     concat (map (\<lambda>b.
       concat (map (\<lambda>p. phi_dest p # map snd (phi_incoming p)) (bb_phi_nodes b)) @
       concat (map (\<lambda>i. (case dest i of Some d \<Rightarrow> [d] | None \<Rightarrow> []) @ uses i) (bb_instructions b)) @
       bumped_terminator (bb_terminator b)) (fn_blocks f))"

definition max_reg :: "IrFunction \<Rightarrow> nat" where
  "max_reg f = fold (\<lambda>r m. if reg_valid r then max m (r + 1) else m) (named_registers f)
                 (fn_next_reg_id f)"

fun live_registers :: "IrInstruction \<Rightarrow> IrId list" where
  "live_registers (IMarkMoved s) = [s]"
| "live_registers (ICheckLive s loc) = [s]"
| "live_registers _ = []"

definition fn_live :: "IrFunction \<Rightarrow> IrId list" where
  "fn_live f =
     remdups (rev (concat (map (\<lambda>b. concat (map live_registers (bb_instructions b))) (fn_blocks f))))"

text \<open>\<open>live.entry(src).or_insert(live.len())\<close>: numbers in the order of first appearance.\<close>

definition number_live :: "IrFunction \<Rightarrow> IrId \<rightharpoonup> nat" where
  "number_live f =
     (let rs = rev (fn_live f) in map_of (zip rs [0..<length rs]))"

definition initial_mts :: "IrFunction \<Rightarrow> Reg \<rightharpoonup> Mt" where
  "initial_mts f =
     (map_of (map (\<lambda>p. (par_reg p, mt_of_default (par_ty p))) (rev (sig_parameters (fn_signature f)))))
       ++ map_of (map (\<lambda>p. (phi_dest p, mt_phi (phi_ty p))) (rev (fn_phis f)))"

definition initial_dec :: "IrFunction \<Rightarrow> bool \<Rightarrow> Dec" where
  "initial_dec f hidden_env =
     (let order = reverse_post_order f
      in \<lparr>dc_mts = initial_mts f, dc_next_reg = max_reg f, dc_consts = Map.empty,
          dc_fmuls = Map.empty, dc_slot_bytes = 0, dc_live = number_live f,
          dc_block_index = map_of (zip order [0..<length order]), dc_current_block = 0,
          dc_env_param = (hidden_env \<or> names_env f), dc_ops = []\<rparr>)"

datatype decode_fail = FunctionNotFound | NoBody string

definition ordered_blocks :: "IrFunction \<Rightarrow> (IrBlockId \<times> IrBasicBlock) list" where
  "ordered_blocks f =
     List.map_filter (\<lambda>i. map_option (Pair i) (get_block (fn_cfg f) i)) (reverse_post_order f)"

definition decode_function :: "DecodeCtx \<Rightarrow> IrFunctionId \<Rightarrow> decode_fail + Function" where
  "decode_function cx i =
     (case map_of (mod_functions (cx_module cx)) i of
        None \<Rightarrow> Inl FunctionNotFound
      | Some f \<Rightarrow>
          if is_extern f then Inl (NoBody (fn_name f))
          else
            (let hidden_env = needs_env_param f i (cx_indirect cx);
                 D0 = initial_dec f hidden_env;
                 (blocks, D) = decode_blocks (cx\<lparr>cx_function := f\<rparr>) 0 (ordered_blocks f) D0
             in Inr \<lparr>f_id = i, f_name = fn_name f, f_module = cx_module_addr cx,
                     f_block_ids = reverse_post_order f,
                     f_reg_mts = map (reg_mt D) [0..<dc_next_reg D],
                     f_abi = abi_of (cx_windows cx) f hidden_env,
                     f_return_type = sig_return_type (fn_signature f),
                     f_params = map (\<lambda>p. (par_reg p, mt_of_default (par_ty p)))
                                  (sig_parameters (fn_signature f)),
                     f_explicit_env = names_env f,
                     f_registers = dc_next_reg D,
                     f_slot_words = (dc_slot_bytes D + 7) div 8,
                     f_live_slots = length (fn_live f),
                     f_entry = (case dc_block_index D (entry_block f) of Some k \<Rightarrow> k | None \<Rightarrow> 0),
                     f_blocks = blocks\<rparr>))"

end
