(* ===== verification/MirSem.thy ===== *)
theory MirSem
  imports OptPasses MirDecodeFn
begin

text \<open>
  What a function computes, block by block, over any meaning of its instructions: the interface
  the optimization passes rely on. The locale \<open>mir_sem\<close> asks that an instruction reads the
  registers \<open>uses\<close> reports and writes the one \<open>dest\<close> reports, and that a terminator reads its
  own; the passes are proved to keep every run inside it, once.
\<close>

datatype ('v, 'w, 'e) mresult = MRet 'v 'w | MErr 'e | MFuel

datatype ('v, 'w) mstep = StGoto IrBlockId | StRet 'v 'w

text \<open>\<open>decode_edge\<close> finds the target and an incoming value for each of its phis.\<close>

definition edge_ok :: "IrControlFlowGraph \<Rightarrow> IrBlockId \<Rightarrow> IrBlockId \<Rightarrow> bool" where
  "edge_ok g from to =
     (case get_block g to of
        None \<Rightarrow> False
      | Some b \<Rightarrow> \<forall>p \<in> set (bb_phi_nodes b). List.find (\<lambda>(q, v). q = from) (phi_incoming p) \<noteq> None)"

definition write_dest :: "IrInstruction \<Rightarrow> 'v option \<Rightarrow> (IrId \<Rightarrow> 'v) \<Rightarrow> IrId \<Rightarrow> 'v" where
  "write_dest i v R = (case (dest i, v) of (Some d, Some x) \<Rightarrow> R(d := x) | _ \<Rightarrow> R)"

fun assign_all :: "IrId list \<Rightarrow> 'v list \<Rightarrow> (IrId \<Rightarrow> 'v) \<Rightarrow> IrId \<Rightarrow> 'v" where
  "assign_all (d # ds) (v # vs) R = assign_all ds vs (R(d := v))"
| "assign_all _ _ R = R"

text \<open>
  Known constants. The passes that use the function-wide map of constants are right where the
  constant has been computed when it is used, which single assignment and dominance give. A
  certificate \<open>A\<close> lists, per block, registers that hold their constant on entry;
  \<open>const_cert\<close> checks it, edge by edge.
\<close>

fun const_step :: "const_map \<Rightarrow> IrInstruction \<Rightarrow> IrId set \<Rightarrow> IrId set" where
  "const_step C (IConst d v) A = (if C d = Some v then insert d A else A - {d})"
| "const_step C i A = (case dest i of Some d \<Rightarrow> A - {d} | None \<Rightarrow> A)"

definition const_out :: "const_map \<Rightarrow> IrInstruction list \<Rightarrow> IrId set \<Rightarrow> IrId set" where
  "const_out C is A = fold (const_step C) is A"

definition const_edges_ok ::
  "const_map \<Rightarrow> (IrBlockId \<Rightarrow> IrId list) \<Rightarrow> IrControlFlowGraph \<Rightarrow> IrBlockId \<times> IrBasicBlock \<Rightarrow> bool" where
  "const_edges_ok C A g ib =
     (case ib of (i, b) \<Rightarrow>
        list_all (\<lambda>s. case get_block g s of
            None \<Rightarrow> True
          | Some b' \<Rightarrow>
              list_all (\<lambda>d. d \<in> const_out C (bb_instructions b) (set (A i)) \<and>
                            d \<notin> phi_dest ` set (bb_phi_nodes b')) (A s))
          (successors b))"

definition const_cert :: "const_map \<Rightarrow> (IrBlockId \<Rightarrow> IrId list) \<Rightarrow> IrControlFlowGraph \<Rightarrow> bool" where
  "const_cert C A g = list_all (const_edges_ok C A g) (cfg_blocks g)"

text \<open>The conditions the control flow pass decides are known where they are tested.\<close>

definition branch_cert :: "const_map \<Rightarrow> (IrBlockId \<Rightarrow> IrId list) \<Rightarrow> IrControlFlowGraph \<Rightarrow> bool" where
  "branch_cert C A g =
     list_all (\<lambda>(i, b).
        case bb_terminator b of
          TCondBranch c t f \<Rightarrow>
            (case C c of Some (VBool v) \<Rightarrow> c \<in> const_out C (bb_instructions b) (set (A i)) | _ \<Rightarrow> True)
        | _ \<Rightarrow> True) (cfg_blocks g)"

text \<open>
  An instruction and what constant folding made of it: itself, or the constant its operands,
  known at that point, fold to.
\<close>

fun folded_to :: "const_map \<Rightarrow> IrId set \<Rightarrow> IrInstruction \<Rightarrow> IrInstruction \<Rightarrow> bool" where
  "folded_to C A (IBinOp d op l r) (IConst d' v) =
     (d' = d \<and> l \<in> A \<and> r \<in> A \<and>
      (case (C l, C r) of
         (Some lv, Some rv) \<Rightarrow> fold_binary_op op lv rv = Inr (Some v) | _ \<Rightarrow> False))"
| "folded_to C A (ICmp d op l r) (IConst d' v) =
     (d' = d \<and> l \<in> A \<and> r \<in> A \<and>
      (case (C l, C r) of
         (Some lv, Some rv) \<Rightarrow> fold_comparison op lv rv = Some v | _ \<Rightarrow> False))"
| "folded_to C A i i' = False"

fun fold_cert_insts :: "const_map \<Rightarrow> IrId set \<Rightarrow> IrInstruction list \<Rightarrow> IrInstruction list \<Rightarrow> bool" where
  "fold_cert_insts C A [] [] = True"
| "fold_cert_insts C A (i # is) (i' # is') =
     ((i' = i \<or> folded_to C A i i') \<and> fold_cert_insts C (const_step C i' A) is is')"
| "fold_cert_insts C A _ _ = False"

text \<open>The same blocks, edge by edge, with the instructions of \<open>g'\<close> folded from those of \<open>g\<close>.\<close>

definition fold_cert ::
  "const_map \<Rightarrow> (IrBlockId \<Rightarrow> IrId list) \<Rightarrow> IrControlFlowGraph \<Rightarrow> IrControlFlowGraph \<Rightarrow> bool" where
  "fold_cert C A g g' =
     (const_cert C A g' \<and>
      list_all2 (\<lambda>(i, b) (i', b').
          i' = i \<and> b' = b\<lparr>bb_instructions := bb_instructions b'\<rparr> \<and>
          fold_cert_insts C (set (A i)) (bb_instructions b) (bb_instructions b'))
        (cfg_blocks g) (cfg_blocks g'))"

text \<open>
  The meaning of what a block consists of: instructions, the two kinds of branches, the conversion
  of an incoming value of a phi, returns, the failure of the other terminators, and the word of a
  constant.
\<close>

record ('v, 'w, 'e) mir_meaning =
  mm_inst :: "IrInstruction \<Rightarrow> (IrId \<Rightarrow> 'v) \<Rightarrow> 'w \<Rightarrow> 'e + ('v option \<times> 'w)"
  mm_cond :: "'v \<Rightarrow> bool"
  mm_switch :: "IrId \<Rightarrow> 'v \<Rightarrow> u64"
  mm_phi :: "IrType \<Rightarrow> IrId \<Rightarrow> 'v \<Rightarrow> 'e + 'v"
  mm_ret :: "IrId option \<Rightarrow> (IrId \<Rightarrow> 'v) \<Rightarrow> 'w \<Rightarrow> 'e + ('v \<times> 'w)"
  mm_trap :: "IrTerminator \<Rightarrow> 'e"
  mm_const :: "IrValue \<Rightarrow> 'v option"

fun run_insts ::
  "('v, 'w, 'e) mir_meaning \<Rightarrow> IrInstruction list \<Rightarrow> (IrId \<Rightarrow> 'v) \<Rightarrow> 'w \<Rightarrow> 'e + ((IrId \<Rightarrow> 'v) \<times> 'w)" where
  "run_insts M [] R w = Inr (R, w)"
| "run_insts M (i # is) R w =
     rbind (mm_inst M i R w) (\<lambda>(v, w'). run_insts M is (write_dest i v R) w')"

definition phi_value ::
  "('v, 'w, 'e) mir_meaning \<Rightarrow> IrBlockId \<Rightarrow> (IrId \<Rightarrow> 'v) \<Rightarrow> IrPhiNode \<Rightarrow> 'e + 'v" where
  "phi_value M from R p =
     (case List.find (\<lambda>(q, v). q = from) (phi_incoming p) of
        Some (q, v) \<Rightarrow> mm_phi M (phi_ty p) v (R v)
      | None \<Rightarrow> Inl (mm_trap M (TBranch from)))"

definition take_phis ::
  "('v, 'w, 'e) mir_meaning \<Rightarrow> IrControlFlowGraph \<Rightarrow> IrBlockId \<Rightarrow> IrBlockId \<Rightarrow> (IrId \<Rightarrow> 'v)
    \<Rightarrow> 'e + (IrId \<Rightarrow> 'v)" where
  "take_phis M g from to R =
     (case get_block g to of
        None \<Rightarrow> Inl (mm_trap M (TBranch to))
      | Some b \<Rightarrow> rbind (rmap (phi_value M from R) (bb_phi_nodes b))
                   (\<lambda>vs. Inr (assign_all (map phi_dest (bb_phi_nodes b)) vs R)))"

definition term_step ::
  "('v, 'w, 'e) mir_meaning \<Rightarrow> IrTerminator \<Rightarrow> (IrId \<Rightarrow> 'v) \<Rightarrow> 'w \<Rightarrow> 'e + ('v, 'w) mstep" where
  "term_step M t R w =
     (case t of
        TBranch t' \<Rightarrow> Inr (StGoto t')
      | TCondBranch c a b \<Rightarrow> Inr (StGoto (if mm_cond M (R c) then a else b))
      | TSwitch v cs d \<Rightarrow>
          Inr (StGoto (case List.find (\<lambda>(k, t'). k = mm_switch M v (R v)) cs of
                         Some (k, t') \<Rightarrow> t' | None \<Rightarrow> d))
      | TReturn r \<Rightarrow> rbind (mm_ret M r R w) (\<lambda>(v, w'). Inr (StRet v w'))
      | t \<Rightarrow> Inl (mm_trap M t))"

definition block_step ::
  "('v, 'w, 'e) mir_meaning \<Rightarrow> IrControlFlowGraph \<Rightarrow> IrBlockId \<Rightarrow> (IrId \<Rightarrow> 'v) \<Rightarrow> 'w
    \<Rightarrow> 'e + (('v, 'w) mstep \<times> (IrId \<Rightarrow> 'v) \<times> 'w)" where
  "block_step M g i R w =
     (case get_block g i of
        None \<Rightarrow> Inl (mm_trap M (TBranch i))
      | Some b \<Rightarrow>
          rbind (run_insts M (bb_instructions b) R w) (\<lambda>(R', w').
            if \<forall>s \<in> set (successors b). edge_ok g i s
            then rbind (term_step M (bb_terminator b) R' w') (\<lambda>st. Inr (st, R', w'))
            else Inl (mm_trap M (bb_terminator b))))"

text \<open>A run of at most \<open>n\<close> blocks from the block \<open>i\<close>, whose phis are already taken.\<close>

fun mrun ::
  "('v, 'w, 'e) mir_meaning \<Rightarrow> nat \<Rightarrow> IrControlFlowGraph \<Rightarrow> IrBlockId \<Rightarrow> (IrId \<Rightarrow> 'v) \<Rightarrow> 'w
    \<Rightarrow> ('v, 'w, 'e) mresult" where
  "mrun M 0 g i R w = MFuel"
| "mrun M (Suc n) g i R w =
     (case block_step M g i R w of
        Inl e \<Rightarrow> MErr e
      | Inr (StRet v w', R', w'') \<Rightarrow> MRet v w'
      | Inr (StGoto t, R', w') \<Rightarrow>
          (case take_phis M g i t R' of
             Inl e \<Rightarrow> MErr e
           | Inr R'' \<Rightarrow> mrun M n g t R'' w'))"

text \<open>The registers \<open>X\<close> hold their constants.\<close>

definition holds :: "('v, 'w, 'e) mir_meaning \<Rightarrow> const_map \<Rightarrow> IrId set \<Rightarrow> (IrId \<Rightarrow> 'v) \<Rightarrow> bool" where
  "holds M C X R \<longleftrightarrow> (\<forall>d \<in> X. \<forall>v x. C d = Some v \<longrightarrow> mm_const M v = Some x \<longrightarrow> R d = x)"

text \<open>The contract of a meaning that the passes rely on.\<close>

locale mir_sem =
  fixes M :: "('v, 'w, 'e) mir_meaning"
    and pure_inst :: "IrInstruction \<Rightarrow> bool"
  assumes isem_uses:
      "(\<And>u. u \<in> set (uses i) \<Longrightarrow> R u = S u) \<Longrightarrow> mm_inst M i R w = mm_inst M i S w"
    and pure_world: "pure_inst i \<Longrightarrow> mm_inst M i R w = Inr (v, w') \<Longrightarrow> w' = w"
    and ret_uses: "(\<And>u. r = Some u \<Longrightarrow> R u = S u) \<Longrightarrow> mm_ret M r R w = mm_ret M r S w"
    and const_sem: "mm_const M c = Some x \<Longrightarrow> mm_inst M (IConst d c) R w = Inr (Some x, w)"
    and const_bool: "\<exists>x. mm_const M (VBool b) = Some x \<and> mm_cond M x = b"
begin

section \<open>Simulation\<close>

text \<open>
  A step of \<open>g\<close> that does not fail is matched by \<open>g'\<close> under a relation of the registers before
  each block: then every run of \<open>g\<close> that does not fail is a run of \<open>g'\<close> with the same result.
\<close>

lemma mrun_simulation:
  assumes step: "\<And>i R S w st R' w'. Q i R S \<Longrightarrow> block_step M g i R w = Inr (st, R', w') \<Longrightarrow>
        \<exists>S'. block_step M g' i S w = Inr (st, S', w') \<and>
             (\<forall>t R''. st = StGoto t \<longrightarrow> take_phis M g i t R' = Inr R'' \<longrightarrow>
                (\<exists>S''. take_phis M g' i t S' = Inr S'' \<and> Q t R'' S''))"
    and init: "Q i R S" and ok: "\<And>e. mrun M n g i R w \<noteq> MErr e"
  shows "mrun M n g' i S w = mrun M n g i R w"
  using init ok
proof (induction n arbitrary: i R S w)
  case 0
  then show ?case by simp
next
  case (Suc n)
  from Suc.prems(2) obtain st R' w' where b: "block_step M g i R w = Inr (st, R', w')"
    by (cases "block_step M g i R w") auto
  from step [OF Suc.prems(1) b] obtain S' where b': "block_step M g' i S w = Inr (st, S', w')"
    and cont: "\<And>t R''. st = StGoto t \<Longrightarrow> take_phis M g i t R' = Inr R'' \<Longrightarrow>
       \<exists>S''. take_phis M g' i t S' = Inr S'' \<and> Q t R'' S''" by blast
  show ?case
  proof (cases st)
    case (StRet v x)
    then show ?thesis by (simp add: b b')
  next
    case (StGoto t)
    from Suc.prems(2) obtain R'' where t: "take_phis M g i t R' = Inr R''"
      by (cases "take_phis M g i t R'") (auto simp: b StGoto)
    from cont [OF StGoto t] obtain S'' where t': "take_phis M g' i t S' = Inr S''" "Q t R'' S''" by blast
    have "mrun M n g t R'' w' \<noteq> MErr e" for e using Suc.prems(2) by (auto simp: b StGoto t)
    from Suc.IH [OF t'(2) this] show ?thesis by (simp add: b b' StGoto t t')
  qed
qed

lemma find_key_in:
  "List.find (\<lambda>(k, t'). k = x) cs = Some (k, t') \<Longrightarrow> t' \<in> snd ` set cs"
  by (force dest: find_Some_in)

lemma term_step_successor:
  assumes "term_step M t R w = Inr (StGoto t')"
  shows "t' \<in> set (term_successors t)"
  using assms
proof (cases t)
  case (TSwitch v cs d)
  with assms show ?thesis
    by (cases "List.find (\<lambda>(k, t'). k = mm_switch M v (R v)) cs")
       (auto simp: term_step_def dest: find_key_in)
qed (auto simp: term_step_def rbind_Inr_iff split: if_splits)

lemma block_step_goto:
  "block_step M g i R w = Inr (StGoto t, R', w') \<Longrightarrow> t \<in> set (block_succs g i)"
  by (auto simp: block_step_def rbind_Inr_iff successors_def split: option.splits if_splits prod.splits
      dest!: term_step_successor)

section \<open>Unreachable blocks\<close>

text \<open>A block the pass keeps, before and after: the incoming values of kept edges are the same.\<close>

definition same_for :: "IrBlockId set \<Rightarrow> IrPhiNode \<Rightarrow> IrPhiNode \<Rightarrow> bool" where
  "same_for K p p' \<longleftrightarrow> phi_dest p' = phi_dest p \<and> phi_ty p' = phi_ty p \<and>
     (\<forall>from \<in> K. List.find (\<lambda>(q, v). q = from) (phi_incoming p') =
                 List.find (\<lambda>(q, v). q = from) (phi_incoming p))"

definition same_block :: "IrBlockId set \<Rightarrow> IrBasicBlock \<Rightarrow> IrBasicBlock \<Rightarrow> bool" where
  "same_block K b b' \<longleftrightarrow>
     bb_instructions b' = bb_instructions b \<and> bb_terminator b' = bb_terminator b \<and>
     list_all2 (same_for K) (bb_phi_nodes b) (bb_phi_nodes b')"

lemma find_filter_key:
  "from \<in> K \<Longrightarrow> List.find (\<lambda>(q, v). q = from) (filter (\<lambda>(q, v). q \<in> K) xs) =
     List.find (\<lambda>(q, v). q = from) xs"
  by (induction xs) auto

lemma same_block_prune: "same_block K b (prune_block K b)"
  by (auto simp: same_block_def prune_block_def same_for_def list_all2_map2 find_filter_key
      intro!: list.rel_refl_strong)

lemma same_block_refl: "same_block K b b"
  by (auto simp: same_block_def same_for_def intro!: list.rel_refl_strong)

lemma ube_get_block:
  assumes "i \<in> find_reachable f"
  shows "rel_option (same_block (find_reachable f)) (get_block (fn_cfg f) i)
           (get_block (fn_cfg (fst (unreachable_block_elimination f))) i)"
  using assms
  by (cases "get_block (fn_cfg f) i")
     (auto simp: unreachable_block_elimination_def Let_def get_block_def bt_simps
        same_block_prune same_block_refl)

lemma edge_ok_same:
  assumes "rel_option (same_block K) (get_block g s) (get_block g' s)" and "from \<in> K"
  shows "edge_ok g' from s = edge_ok g from s"
proof (cases "get_block g s")
  case None
  with assms(1) show ?thesis by (simp add: edge_ok_def)
next
  case (Some b)
  with assms(1) obtain b' where b': "get_block g' s = Some b'" "same_block K b b'"
    by (auto simp: option_rel_Some1)
  then have "list_all2 (same_for K) (bb_phi_nodes b) (bb_phi_nodes b')" by (simp add: same_block_def)
  then have "(\<forall>p \<in> set (bb_phi_nodes b'). List.find (\<lambda>(q, v). q = from) (phi_incoming p) \<noteq> None) =
      (\<forall>p \<in> set (bb_phi_nodes b). List.find (\<lambda>(q, v). q = from) (phi_incoming p) \<noteq> None)"
    by (induction rule: list_all2_induct) (use assms(2) in \<open>auto simp: same_for_def\<close>)
  with Some b'(1) show ?thesis by (simp add: edge_ok_def)
qed

lemma phi_value_same: "same_for K p p' \<Longrightarrow> from \<in> K \<Longrightarrow> phi_value M from R p' = phi_value M from R p"
  by (auto simp: same_for_def phi_value_def split: option.splits)

lemma take_phis_same:
  assumes "rel_option (same_block K) (get_block g s) (get_block g' s)" and "from \<in> K"
  shows "take_phis M g' from s R = take_phis M g from s R"
proof (cases "get_block g s")
  case None
  with assms(1) show ?thesis by (simp add: take_phis_def)
next
  case (Some b)
  with assms(1) obtain b' where b': "get_block g' s = Some b'" "same_block K b b'"
    by (auto simp: option_rel_Some1)
  then have "list_all2 (same_for K) (bb_phi_nodes b) (bb_phi_nodes b')" by (simp add: same_block_def)
  then have "rmap (phi_value M from R) (bb_phi_nodes b') = rmap (phi_value M from R) (bb_phi_nodes b) \<and>
      map phi_dest (bb_phi_nodes b') = map phi_dest (bb_phi_nodes b)"
    by (induction rule: list_all2_induct)
       (use assms(2) in \<open>auto simp: phi_value_same same_for_def\<close>)
  with Some b'(1) show ?thesis by (simp add: take_phis_def)
qed

lemma find_reachable_succ:
  "i \<in> find_reachable f \<Longrightarrow> s \<in> set (block_succs (fn_cfg f) i) \<Longrightarrow> s \<in> find_reachable f"
  by (auto simp: find_reachable_iff intro: reach_step)

theorem ube_preserves:
  assumes "i \<in> find_reachable f"
  shows "mrun M n (fn_cfg (fst (unreachable_block_elimination f))) i R w = mrun M n (fn_cfg f) i R w"
  using assms
proof (induction n arbitrary: i R w)
  case 0
  then show ?case by simp
next
  case (Suc n)
  let ?g = "fn_cfg f" and ?g' = "fn_cfg (fst (unreachable_block_elimination f))"
  let ?K = "find_reachable f"
  have rel: "rel_option (same_block ?K) (get_block ?g s) (get_block ?g' s)" if "s \<in> ?K" for s
    by (rule ube_get_block [OF that])
  have step: "block_step M ?g' i R w = block_step M ?g i R w"
  proof (cases "get_block ?g i")
    case None
    with rel [OF Suc.prems] show ?thesis by (simp add: block_step_def)
  next
    case (Some b)
    with rel [OF Suc.prems] obtain b' where b': "get_block ?g' i = Some b'" "same_block ?K b b'"
      by (auto simp: option_rel_Some1)
    have "(\<forall>s \<in> set (successors b). edge_ok ?g' i s) = (\<forall>s \<in> set (successors b). edge_ok ?g i s)"
      using edge_ok_same [OF rel Suc.prems] find_reachable_succ [OF Suc.prems] Some by simp
    moreover have "successors b' = successors b" "bb_instructions b' = bb_instructions b"
        "bb_terminator b' = bb_terminator b"
      using b'(2) by (simp_all add: same_block_def successors_def)
    ultimately show ?thesis by (simp add: block_step_def Some b'(1) cong: if_cong)
  qed
  have "take_phis M ?g' i t R' = take_phis M ?g i t R' \<and> t \<in> ?K"
    if "block_step M ?g i R w = Inr (StGoto t, R', w')" for t R' w'
  proof -
    have "t \<in> ?K" using block_step_goto [OF that] find_reachable_succ [OF Suc.prems] by blast
    then show ?thesis using take_phis_same [OF rel Suc.prems] by blast
  qed
  then show ?case
    using Suc.IH step by (auto split: sum.splits mstep.splits prod.splits)
qed

section \<open>Dead code\<close>

definition agree_on :: "IrId set \<Rightarrow> (IrId \<Rightarrow> 'v) \<Rightarrow> (IrId \<Rightarrow> 'v) \<Rightarrow> bool" where
  "agree_on U R S \<longleftrightarrow> (\<forall>u \<in> U. R u = S u)"

lemma agree_on_write: "agree_on U R S \<Longrightarrow> agree_on U (write_dest i v R) (write_dest i v S)"
  by (auto simp: agree_on_def write_dest_def split: option.splits)

lemma agree_on_dead:
  "agree_on U R S \<Longrightarrow> \<not> dce_keeps U i \<Longrightarrow> agree_on U (write_dest i v R) S"
  by (auto simp: agree_on_def write_dest_def dce_keeps_def split: option.splits)

lemma isem_agree: "set (uses i) \<subseteq> U \<Longrightarrow> agree_on U R S \<Longrightarrow> mm_inst M i R w = mm_inst M i S w"
  by (rule isem_uses) (auto simp: agree_on_def)

lemma run_insts_dce:
  assumes "\<And>i. i \<in> set is \<Longrightarrow> set (uses i) \<subseteq> U"
    and "\<And>i. i \<in> set is \<Longrightarrow> \<not> dce_keeps U i \<Longrightarrow> pure_inst i"
    and "agree_on U R S" and "run_insts M is R w = Inr (R', w')"
  shows "\<exists>S'. run_insts M (filter (dce_keeps U) is) S w = Inr (S', w') \<and> agree_on U R' S'"
  using assms
proof (induction "is" arbitrary: R S w)
  case Nil
  then show ?case by simp
next
  case (Cons i "is")
  from Cons.prems(4) obtain v w1 where i: "mm_inst M i R w = Inr (v, w1)"
    and rest: "run_insts M is (write_dest i v R) w1 = Inr (R', w')"
    by (auto simp: rbind_Inr_iff)
  show ?case
  proof (cases "dce_keeps U i")
    case True
    have "mm_inst M i S w = Inr (v, w1)"
      using isem_agree [OF _ Cons.prems(3)] Cons.prems(1) i by simp
    with True show ?thesis
      using Cons.IH [OF _ _ agree_on_write [OF Cons.prems(3)] rest] Cons.prems(1,2) by simp
  next
    case False
    with Cons.prems(2) have "w1 = w" by (auto intro: pure_world [OF _ i])
    with False show ?thesis
      using Cons.IH [OF _ _ agree_on_dead [OF Cons.prems(3) False] rest] Cons.prems(1,2) by simp
  qed
qed

lemma phi_value_agree:
  assumes "snd ` set (phi_incoming p) \<subseteq> U" and "agree_on U R S"
  shows "phi_value M from R p = phi_value M from S p"
  using assms
  by (auto simp: phi_value_def agree_on_def split: option.splits dest!: find_Some_in)

lemma assign_dead_phis:
  assumes "\<And>p. p \<in> set ps \<Longrightarrow> snd ` set (phi_incoming p) \<subseteq> U" and "agree_on U R S"
    and "rmap (phi_value M from R) ps = Inr vs" and "agree_on U R0 S0"
  shows "\<exists>vs'. rmap (phi_value M from S) (filter (\<lambda>p. phi_dest p \<in> U) ps) = Inr vs' \<and>
     agree_on U (assign_all (map phi_dest ps) vs R0)
       (assign_all (map phi_dest (filter (\<lambda>p. phi_dest p \<in> U) ps)) vs' S0)"
  using assms
proof (induction ps arbitrary: vs R0 S0)
  case Nil
  then show ?case by simp
next
  case (Cons p ps)
  from Cons.prems(3) obtain x xs where x: "phi_value M from R p = Inr x"
    and xs: "rmap (phi_value M from R) ps = Inr xs" "vs = x # xs"
    by (auto simp: rbind_Inr_iff)
  have x': "phi_value M from S p = Inr x"
    using phi_value_agree [of p U R S] Cons.prems(1,2) x by simp
  have a: "agree_on U (R0(phi_dest p := x)) (if phi_dest p \<in> U then S0(phi_dest p := x) else S0)"
    using Cons.prems(4) by (auto simp: agree_on_def)
  have "\<And>p. p \<in> set ps \<Longrightarrow> snd ` set (phi_incoming p) \<subseteq> U" using Cons.prems(1) by simp
  from Cons.IH [OF this Cons.prems(2) xs(1) a]
  show ?case by (cases "phi_dest p \<in> U") (auto simp: x' xs(2) simp del: fun_upd_apply)
qed

lemma term_step_agree:
  "set (terminator_uses t) \<subseteq> U \<Longrightarrow> agree_on U R S \<Longrightarrow> term_step M t R w = term_step M t S w"
proof (cases t)
  case (TReturn r)
  assume "set (terminator_uses t) \<subseteq> U" "agree_on U R S"
  then have "mm_ret M r R w = mm_ret M r S w"
    by (intro ret_uses) (auto simp: TReturn agree_on_def)
  then show ?thesis by (simp add: TReturn term_step_def)
qed (auto simp: term_step_def agree_on_def)

lemma get_block_map_blocks:
  "get_block (fn_cfg (map_blocks h f)) i = map_option h (get_block (fn_cfg f) i)"
  by (simp add: map_blocks_def get_block_def bt_simps)

lemma get_block_fn_blocks: "get_block (fn_cfg f) i = Some b \<Longrightarrow> b \<in> set (fn_blocks f)"
  by (auto simp: get_block_def fn_blocks_def dest: map_of_SomeD_snd)

lemma block_used_parts:
  assumes "b \<in> set (fn_blocks f)"
  shows "p \<in> set (bb_phi_nodes b) \<Longrightarrow> snd ` set (phi_incoming p) \<subseteq> find_used_registers f"
    "i \<in> set (bb_instructions b) \<Longrightarrow> set (uses i) \<subseteq> find_used_registers f"
    "set (terminator_uses (bb_terminator b)) \<subseteq> find_used_registers f"
  using assms by (auto simp: find_used_registers_def block_used_def)

theorem dce_preserves:
  assumes removed: "\<And>b i. b \<in> set (fn_blocks f) \<Longrightarrow> i \<in> set (bb_instructions b) \<Longrightarrow>
      \<not> dce_keeps (find_used_registers f) i \<Longrightarrow> pure_inst i"
    and ok: "\<And>e. mrun M n (fn_cfg f) i R w \<noteq> MErr e"
  shows "mrun M n (fn_cfg (fst (eliminate_dead_instructions f))) i R w = mrun M n (fn_cfg f) i R w"
proof (rule mrun_simulation [where Q = "\<lambda>i. agree_on (find_used_registers f)"])
  let ?U = "find_used_registers f" and ?g = "fn_cfg f"
  have g': "fst (eliminate_dead_instructions f) = map_blocks (dce_block ?U) f"
    by (simp add: eliminate_dead_instructions_def Let_def)
  let ?g' = "fn_cfg (map_blocks (dce_block ?U) f)"
  have edge: "edge_ok ?g i s \<Longrightarrow> edge_ok ?g' i s" for i s
    by (auto simp: edge_ok_def get_block_map_blocks dce_block_def split: option.splits)
  fix i R S w st R' w'
  assume agree: "agree_on ?U R S" and step: "block_step M ?g i R w = Inr (st, R', w')"
  from step obtain b where b: "get_block ?g i = Some b"
    by (auto simp: block_step_def split: option.splits)
  have bf: "b \<in> set (fn_blocks f)" by (rule get_block_fn_blocks [OF b])
  from step b have run: "run_insts M (bb_instructions b) R w = Inr (R', w')"
    and edges: "\<forall>s \<in> set (successors b). edge_ok ?g i s"
    and tstep: "term_step M (bb_terminator b) R' w' = Inr st"
    by (auto simp: block_step_def rbind_Inr_iff split: if_splits)
  from run_insts_dce [OF block_used_parts(2) [OF bf] removed [OF bf] agree run]
  obtain S' where run': "run_insts M (filter (dce_keeps ?U) (bb_instructions b)) S w = Inr (S', w')"
    and agree': "agree_on ?U R' S'" by blast
  have "term_step M (bb_terminator b) S' w' = Inr st"
    using term_step_agree [OF block_used_parts(3) [OF bf] agree'] tstep by metis
  then have "block_step M ?g' i S w = Inr (st, S', w')"
    using b run' edges edge by (simp add: block_step_def get_block_map_blocks dce_block_def successors_def)
  moreover have "\<exists>S''. take_phis M ?g' i t S' = Inr S'' \<and> agree_on ?U R'' S''"
    if "take_phis M ?g i t R' = Inr R''" for t R''
  proof -
    from that obtain tb vs where tb: "get_block ?g t = Some tb"
      and vs: "rmap (phi_value M i R') (bb_phi_nodes tb) = Inr vs"
      and R'': "R'' = assign_all (map phi_dest (bb_phi_nodes tb)) vs R'"
      by (auto simp: take_phis_def rbind_Inr_iff split: option.splits)
    from assign_dead_phis [OF block_used_parts(1) [OF get_block_fn_blocks [OF tb]] agree' vs agree']
    show ?thesis
      by (auto simp: take_phis_def get_block_map_blocks tb dce_block_def R'')
  qed
  ultimately show "\<exists>S'. block_step M (fn_cfg (fst (eliminate_dead_instructions f))) i S w = Inr (st, S', w') \<and>
      (\<forall>t R''. st = StGoto t \<longrightarrow> take_phis M ?g i t R' = Inr R'' \<longrightarrow>
         (\<exists>S''. take_phis M (fn_cfg (fst (eliminate_dead_instructions f))) i t S' = Inr S'' \<and> agree_on ?U R'' S''))"
    by (auto simp: g')
qed (simp_all add: agree_on_def ok)

section \<open>Known constants\<close>

lemma holds_mono: "holds M C X R \<Longrightarrow> Y \<subseteq> X \<Longrightarrow> holds M C Y R"
  by (auto simp: holds_def)

lemma const_step_other:
  assumes "\<And>d v. i \<noteq> IConst d v"
  shows "const_step C i A = (case dest i of Some d \<Rightarrow> A - {d} | None \<Rightarrow> A)"
  using assms by (cases "(C, i, A)" rule: const_step.cases) auto

lemma holds_step:
  assumes "holds M C A R" and "mm_inst M i R w = Inr (v, w')"
  shows "holds M C (const_step C i A) (write_dest i v R)"
proof (cases "\<exists>d c. i = IConst d c")
  case True
  then obtain d c where i: "i = IConst d c" by blast
  show ?thesis
  proof (cases "mm_const M c")
    case None
    with assms(1) show ?thesis
      by (auto simp: i holds_def write_dest_def split: option.splits)
  next
    case (Some x)
    with assms(2) have "v = Some x" using const_sem [OF Some] by (simp add: i)
    with assms(1) Some show ?thesis by (auto simp: i holds_def write_dest_def)
  qed
next
  case False
  with assms(1) show ?thesis
    by (auto simp: const_step_other holds_def write_dest_def split: option.splits)
qed

lemma holds_run:
  "holds M C A R \<Longrightarrow> run_insts M is R w = Inr (R', w') \<Longrightarrow> holds M C (const_out C is A) R'"
proof (induction "is" arbitrary: A R w)
  case Nil
  then show ?case by (simp add: const_out_def)
next
  case (Cons i "is")
  then obtain v w1 where i: "mm_inst M i R w = Inr (v, w1)"
    and rest: "run_insts M is (write_dest i v R) w1 = Inr (R', w')"
    by (auto simp: rbind_Inr_iff)
  from Cons.IH [OF holds_step [OF Cons.prems(1) i] rest] show ?case
    by (simp add: const_out_def)
qed

lemma assign_all_outside: "u \<notin> set ds \<Longrightarrow> assign_all ds vs R u = R u"
  by (induction ds vs R rule: assign_all.induct) auto

lemma holds_edge:
  assumes "const_cert C A g" and "get_block g i = Some b" and "t \<in> set (successors b)"
    and "holds M C (const_out C (bb_instructions b) (set (A i))) R'"
    and "take_phis M g' i t R' = Inr R''" 
    and "map_option (map phi_dest \<circ> bb_phi_nodes) (get_block g' t) =
         map_option (map phi_dest \<circ> bb_phi_nodes) (get_block g t)"
  shows "holds M C (set (A t)) R''"
proof -
  from assms(5) obtain tb vs where tb: "get_block g' t = Some tb"
    and R'': "R'' = assign_all (map phi_dest (bb_phi_nodes tb)) vs R'"
    by (auto simp: take_phis_def rbind_Inr_iff split: option.splits)
  from assms(6) tb obtain tb' where tb': "get_block g t = Some tb'"
    and ds: "map phi_dest (bb_phi_nodes tb) = map phi_dest (bb_phi_nodes tb')"
    by (cases "get_block g t") auto
  from ds have dset: "phi_dest ` set (bb_phi_nodes tb') = set (map phi_dest (bb_phi_nodes tb))"
    by (metis set_map)
  have "const_edges_ok C A g (i, b)"
    using assms(1,2) by (auto simp: const_cert_def list_all_iff get_block_def dest: map_of_SomeD)
  with assms(3) tb' have "d \<in> const_out C (bb_instructions b) (set (A i)) \<and>
      d \<notin> phi_dest ` set (bb_phi_nodes tb')" if "d \<in> set (A t)" for d
    using that by (fastforce simp: const_edges_ok_def list_all_iff)
  then show ?thesis
    using assms(4) by (auto simp: holds_def R'' dset assign_all_outside)
qed

section \<open>Control flow simplification\<close>

lemma cfs_get_block:
  "get_block (fn_cfg (simplify_conditional_branches f)) i =
     map_option (\<lambda>b. b\<lparr>bb_terminator := simplify_terminator (collect_constants f) (bb_terminator b)\<rparr>)
       (get_block (fn_cfg f) i)"
  by (simp add: simplify_conditional_branches_def Let_def get_block_map_blocks)

lemma simplify_terminator_successors:
  "set (term_successors (simplify_terminator C t)) \<subseteq> set (term_successors t)"
  by (cases t) (auto simp: simplify_terminator_def split: option.splits IrValue.splits)

lemma simplify_terminator_step:
  assumes "\<And>c a b v. t = TCondBranch c a b \<Longrightarrow> C c = Some (VBool v) \<Longrightarrow> c \<in> X" and "holds M C X R"
  shows "term_step M (simplify_terminator C t) R w = term_step M t R w"
proof (cases "\<exists>c a b v. t = TCondBranch c a b \<and> C c = Some (VBool v)")
  case True
  then obtain c a b v where t: "t = TCondBranch c a b" "C c = Some (VBool v)" by blast
  from const_bool obtain x where x: "mm_const M (VBool v) = Some x" "mm_cond M x = v" by blast
  have "R c = x" using assms(1) [OF t] assms(2) t(2) x(1) by (auto simp: holds_def)
  with t x(2) show ?thesis by (simp add: simplify_terminator_def term_step_def)
next
  case False
  then have "simplify_terminator C t = t"
    by (auto simp: simplify_terminator_def split: IrTerminator.splits option.splits IrValue.splits)
  then show ?thesis by simp
qed

theorem cfs_preserves:
  assumes cert: "const_cert (collect_constants f) A (fn_cfg f)"
    and br: "branch_cert (collect_constants f) A (fn_cfg f)"
    and init: "holds M (collect_constants f) (set (A i)) R"
    and ok: "\<And>e. mrun M n (fn_cfg f) i R w \<noteq> MErr e"
  shows "mrun M n (fn_cfg (simplify_conditional_branches f)) i R w = mrun M n (fn_cfg f) i R w"
proof (rule mrun_simulation [where Q = "\<lambda>i R S. S = R \<and> holds M (collect_constants f) (set (A i)) R"])
  let ?C = "collect_constants f" and ?g = "fn_cfg f" and ?g' = "fn_cfg (simplify_conditional_branches f)"
  have edge: "edge_ok ?g' i s = edge_ok ?g i s" for i s
    by (auto simp: edge_ok_def cfs_get_block split: option.splits)
  have take: "take_phis M ?g' i s R = take_phis M ?g i s R" for i s R
    by (auto simp: take_phis_def cfs_get_block split: option.splits)
  fix i R S w st R' w'
  assume Q: "S = R \<and> holds M ?C (set (A i)) R" and step: "block_step M ?g i R w = Inr (st, R', w')"
  from step obtain b where b: "get_block ?g i = Some b"
    by (auto simp: block_step_def split: option.splits)
  from step b have run: "run_insts M (bb_instructions b) R w = Inr (R', w')"
    and edges: "\<forall>s \<in> set (successors b). edge_ok ?g i s"
    and tstep: "term_step M (bb_terminator b) R' w' = Inr st"
    by (auto simp: block_step_def rbind_Inr_iff split: if_splits)
  have h: "holds M ?C (const_out ?C (bb_instructions b) (set (A i))) R'"
    using holds_run [OF _ run] Q by blast
  have known: "c \<in> const_out ?C (bb_instructions b) (set (A i))"
    if "bb_terminator b = TCondBranch c t f'" "?C c = Some (VBool v)" for c t f' v
  proof -
    have "(i, b) \<in> set (cfg_blocks ?g)" using b by (auto simp: get_block_def dest: map_of_SomeD)
    with br that show ?thesis by (force simp: branch_cert_def list_all_iff)
  qed
  let ?b = "b\<lparr>bb_terminator := simplify_terminator ?C (bb_terminator b)\<rparr>"
  have "term_step M (simplify_terminator ?C (bb_terminator b)) R' w' = term_step M (bb_terminator b) R' w'"
    by (rule simplify_terminator_step [OF known h])
  then have "term_step M (bb_terminator ?b) R' w' = Inr st" using tstep by simp
  moreover have "set (successors ?b) \<subseteq> set (successors b)"
    using simplify_terminator_successors by (simp add: successors_def)
  ultimately have "block_step M ?g' i S w = Inr (st, R', w')"
    using Q b run edges edge by (auto simp: block_step_def cfs_get_block)
  moreover have "holds M ?C (set (A t)) R''" if "st = StGoto t" "take_phis M ?g i t R' = Inr R''" for t R''
    by (rule holds_edge [OF cert b _ h that(2)])
       (use block_step_goto [OF step [unfolded that(1)]] b in auto)
  ultimately show "\<exists>S'. block_step M ?g' i S w = Inr (st, S', w') \<and>
      (\<forall>t R''. st = StGoto t \<longrightarrow> take_phis M ?g i t R' = Inr R'' \<longrightarrow>
         (\<exists>S''. take_phis M ?g' i t S' = Inr S'' \<and> S'' = R'' \<and> holds M ?C (set (A t)) R''))"
    by (auto simp: take)
qed (simp_all add: init ok)

end

text \<open>
  Constant folding, over a meaning whose foldable instructions (\<open>foldable\<close>: those whose operand
  types are the types of the constants) compute what the pass computes.
\<close>

locale mir_fold = mir_sem +
  fixes foldable :: "const_map \<Rightarrow> IrInstruction \<Rightarrow> bool"
  assumes fold_bin:
      "foldable C (IBinOp d op l r) \<Longrightarrow> C l = Some lv \<Longrightarrow> C r = Some rv \<Longrightarrow>
         fold_binary_op op lv rv = Inr (Some c) \<Longrightarrow>
         mm_const M lv = Some (R l) \<Longrightarrow> mm_const M rv = Some (R r) \<Longrightarrow>
         mm_const M c \<noteq> None \<and> mm_inst M (IBinOp d op l r) R w = Inr (mm_const M c, w)"
    and fold_cmp:
      "foldable C (ICmp d cop l r) \<Longrightarrow> C l = Some lv \<Longrightarrow> C r = Some rv \<Longrightarrow>
         fold_comparison cop lv rv = Some c \<Longrightarrow>
         mm_const M lv = Some (R l) \<Longrightarrow> mm_const M rv = Some (R r) \<Longrightarrow>
         mm_const M c \<noteq> None \<and> mm_inst M (ICmp d cop l r) R w = Inr (mm_const M c, w)"
    and fold_operands:
      "fold_binary_op op lv rv = Inr (Some c) \<Longrightarrow> mm_const M lv \<noteq> None \<and> mm_const M rv \<noteq> None"
      "fold_comparison cop lv rv = Some c \<Longrightarrow> mm_const M lv \<noteq> None \<and> mm_const M rv \<noteq> None"
begin

lemma folded_to_cases:
  assumes "folded_to C A i i'"
  obtains (bin) d op l r v lv rv where "i = IBinOp d op l r" "i' = IConst d v" "l \<in> A" "r \<in> A"
      "C l = Some lv" "C r = Some rv" "fold_binary_op op lv rv = Inr (Some v)"
    | (cmp) d op l r v lv rv where "i = ICmp d op l r" "i' = IConst d v" "l \<in> A" "r \<in> A"
      "C l = Some lv" "C r = Some rv" "fold_comparison op lv rv = Some v"
  using assms
  by (cases "(C, A, i, i')" rule: folded_to.cases) (auto split: option.splits)

lemma holds_operands:
  "holds M C A R \<Longrightarrow> l \<in> A \<Longrightarrow> C l = Some lv \<Longrightarrow> mm_const M lv \<noteq> None \<Longrightarrow> mm_const M lv = Some (R l)"
  by (auto simp: holds_def)

lemma folded_to_sem:
  assumes "folded_to C A i i'" and "foldable C i" and "holds M C A R"
  shows "mm_inst M i R w = mm_inst M i' R w \<and> dest i = dest i'"
  using assms(1)
proof (cases rule: folded_to_cases)
  case (bin d op l r v lv rv)
  then have "mm_const M lv = Some (R l)" "mm_const M rv = Some (R r)"
    using holds_operands [OF assms(3)] fold_operands(1) by auto
  then have "mm_const M v \<noteq> None" "mm_inst M i R w = Inr (mm_const M v, w)"
    using fold_bin [OF _ bin(5,6,7)] assms(2) bin(1) by auto
  then show ?thesis using const_sem bin(1,2) by fastforce
next
  case (cmp d op l r v lv rv)
  then have "mm_const M lv = Some (R l)" "mm_const M rv = Some (R r)"
    using holds_operands [OF assms(3)] fold_operands(2) by auto
  then have "mm_const M v \<noteq> None" "mm_inst M i R w = Inr (mm_const M v, w)"
    using fold_cmp [OF _ cmp(5,6,7)] assms(2) cmp(1) by auto
  then show ?thesis using const_sem cmp(1,2) by fastforce
qed

lemma fold_run:
  "fold_cert_insts C A is is' \<Longrightarrow> (\<And>i i'. (i, i') \<in> set (zip is is') \<Longrightarrow> i \<noteq> i' \<Longrightarrow> foldable C i) \<Longrightarrow>
     holds M C A R \<Longrightarrow> run_insts M is' R w = run_insts M is R w"
proof (induction C A "is" is' arbitrary: R w rule: fold_cert_insts.induct)
  case (2 C A i "is" i' is')
  have i: "mm_inst M i' R w = mm_inst M i R w \<and> dest i' = dest i"
  proof (cases "i' = i")
    case False
    with "2.prems" have "folded_to C A i i'" "foldable C i" by auto
    then show ?thesis using folded_to_sem "2.prems"(3) by metis
  qed simp
  have rest: "run_insts M is' (write_dest i' v R) w' = run_insts M is (write_dest i v R) w'"
    if "mm_inst M i' R w = Inr (v, w')" for v w'
  proof -
    have "write_dest i v R = write_dest i' v R" using i by (simp add: write_dest_def)
    moreover have h: "holds M C (const_step C i' A) (write_dest i' v R)"
      by (rule holds_step [OF "2.prems"(3) that])
    moreover have "fold_cert_insts C (const_step C i' A) is is'" using "2.prems"(1) by simp
    moreover have "\<And>i i'. (i, i') \<in> set (zip is is') \<Longrightarrow> i \<noteq> i' \<Longrightarrow> foldable C i"
      using "2.prems"(2) by auto
    ultimately show ?thesis using "2.IH" by metis
  qed
  show ?case
  proof (cases "mm_inst M i R w")
    case (Inl e)
    with i show ?thesis by simp
  next
    case (Inr x)
    with i rest show ?thesis by (cases x) simp
  qed
qed auto

theorem fold_preserves:
  assumes fold: "constant_folding f = Inr f'"
    and cert: "fold_cert C A (fn_cfg f) (fn_cfg f')"
    and typed: "\<And>b b' j i i'. get_block (fn_cfg f) j = Some b \<Longrightarrow> get_block (fn_cfg f') j = Some b' \<Longrightarrow>
        (i, i') \<in> set (zip (bb_instructions b) (bb_instructions b')) \<Longrightarrow> i \<noteq> i' \<Longrightarrow> foldable C i"
    and init: "holds M C (set (A i)) R"
    and ok: "\<And>e. mrun M n (fn_cfg f) i R w \<noteq> MErr e"
  shows "mrun M n (fn_cfg f') i R w = mrun M n (fn_cfg f) i R w"
proof (rule mrun_simulation [where Q = "\<lambda>i R S. S = R \<and> holds M C (set (A i)) R"])
  let ?g = "fn_cfg f" and ?g' = "fn_cfg f'"
  have blocks: "list_all2 (\<lambda>(i, b) (i', b').
          i' = i \<and> b' = b\<lparr>bb_instructions := bb_instructions b'\<rparr> \<and>
          fold_cert_insts C (set (A i)) (bb_instructions b) (bb_instructions b'))
        (cfg_blocks ?g) (cfg_blocks ?g')"
    using cert by (simp add: fold_cert_def)
  have rel: "rel_option (\<lambda>b b'. b' = b\<lparr>bb_instructions := bb_instructions b'\<rparr> \<and>
          fold_cert_insts C (set (A j)) (bb_instructions b) (bb_instructions b'))
        (get_block ?g j) (get_block ?g' j)" for j
    unfolding get_block_def using blocks by (induction rule: list_all2_induct) auto
  have none: "get_block ?g' j = None \<longleftrightarrow> get_block ?g j = None" for j
    using rel [of j] by (auto simp: rel_option_iff split: option.splits)
  have same: "bb_phi_nodes b' = bb_phi_nodes b \<and> bb_terminator b' = bb_terminator b \<and>
      successors b' = successors b \<and>
      fold_cert_insts C (set (A j)) (bb_instructions b) (bb_instructions b')"
    if "get_block ?g j = Some b" "get_block ?g' j = Some b'" for j b b'
  proof -
    have eq: "b' = b\<lparr>bb_instructions := bb_instructions b'\<rparr>"
      and c: "fold_cert_insts C (set (A j)) (bb_instructions b) (bb_instructions b')"
      using rel [of j] that by auto
    have "bb_phi_nodes b' = bb_phi_nodes b" "bb_terminator b' = bb_terminator b"
      using arg_cong [OF eq, of bb_phi_nodes] arg_cong [OF eq, of bb_terminator] by simp_all
    with c show ?thesis by (simp add: successors_def)
  qed
  have phis: "map_option bb_phi_nodes (get_block ?g' j) = map_option bb_phi_nodes (get_block ?g j)" for j
  proof (cases "get_block ?g j")
    case None
    with none [of j] show ?thesis by simp
  next
    case (Some b)
    with none [of j] obtain b' where "get_block ?g' j = Some b'" by fastforce
    with same [OF Some this] Some show ?thesis by simp
  qed
  have edge: "edge_ok ?g' j s = edge_ok ?g j s" for j s
    using phis [of s] none [of s]
    by (cases "get_block ?g s"; cases "get_block ?g' s") (auto simp: edge_ok_def)
  have take: "take_phis M ?g' j s R = take_phis M ?g j s R" for j s R
    using phis [of s] none [of s]
    by (cases "get_block ?g s"; cases "get_block ?g' s") (auto simp: take_phis_def)
  have cc: "const_cert C A ?g'" using cert by (simp add: fold_cert_def)
  fix i R S w st R' w'
  assume Q: "S = R \<and> holds M C (set (A i)) R" and step: "block_step M ?g i R w = Inr (st, R', w')"
  from step obtain b where b: "get_block ?g i = Some b"
    by (auto simp: block_step_def split: option.splits)
  with none [of i] obtain b' where b': "get_block ?g' i = Some b'" by fastforce
  note s = same [OF b b']
  from step b have run: "run_insts M (bb_instructions b) R w = Inr (R', w')"
    and edges: "\<forall>s \<in> set (successors b). edge_ok ?g i s"
    and tstep: "term_step M (bb_terminator b) R' w' = Inr st"
    by (auto simp: block_step_def rbind_Inr_iff split: if_splits)
  have run': "run_insts M (bb_instructions b') R w = Inr (R', w')"
    using fold_run [of C "set (A i)" "bb_instructions b" "bb_instructions b'" R w] s
      typed [OF b b'] Q run by simp
  have h: "holds M C (const_out C (bb_instructions b') (set (A i))) R'"
    using holds_run [OF _ run'] Q by blast
  have "block_step M ?g' i S w = Inr (st, R', w')"
    using Q b' run' edges edge tstep s by (simp add: block_step_def)
  moreover have "holds M C (set (A t)) R''" if "st = StGoto t" "take_phis M ?g i t R' = Inr R''" for t R''
    by (rule holds_edge [OF cc b' _ h that(2) [folded take]])
       (use block_step_goto [OF step [unfolded that(1)]] b s in auto)
  ultimately show "\<exists>S'. block_step M ?g' i S w = Inr (st, S', w') \<and>
      (\<forall>t R''. st = StGoto t \<longrightarrow> take_phis M ?g i t R' = Inr R'' \<longrightarrow>
         (\<exists>S''. take_phis M ?g' i t S' = Inr S'' \<and> S'' = R'' \<and> holds M C (set (A t)) R''))"
    by (auto simp: take)
qed (simp_all add: init ok)

end

end
