(* ===== verification/MirFrame.thy ===== *)
theory MirFrame
  imports MirDecodeFn
begin

text \<open>
  Which registers the operations of an instruction read and write. The contract between
  \<open>IrInstruction::uses\<close>, \<open>IrInstruction::dest\<close> and the decoder: the operations of an instruction
  read its uses and the temporaries they have written, and write its destination and fresh
  temporaries. The passes rewrite instructions by what \<open>uses\<close> and \<open>dest\<close> report; this is why
  the interpreter does not notice.
\<close>

named_theorems frame_intros \<open>how the decoder's steps extend the emitted operations\<close>

section \<open>Registers of operations\<close>

fun reg_reads :: "RegOp \<Rightarrow> Reg set" where
  "reg_reads (RConst d b) = {}"
| "reg_reads (RCopy d s) = {s}"
| "reg_reads (RConv d s c) = {s}"
| "reg_reads (RIBin d op m a b) = {a, b}"
| "reg_reads (RFBin d op m a b) = {a, b}"
| "reg_reads (RFma d m a b c na nc) = {a, b, c}"
| "reg_reads (RICmp d cc m a b) = {a, b}"
| "reg_reads (RFCmp d cc m a b) = {a, b}"
| "reg_reads (RINeg d m a) = {a}"
| "reg_reads (RFNeg d m a) = {a}"
| "reg_reads (RBNot d m a) = {a}"
| "reg_reads (RIsZero d a) = {a}"
| "reg_reads (RSelect d c a b) = {c, a, b}"
| "reg_reads (RSlotAddr d off) = {}"
| "reg_reads (RAddrIndex d base idx m scale) = {base, idx}"
| "reg_reads (RMath d k a m) = {a}"
| "reg_reads (REnv d) = {}"

fun mem_reads :: "MemOp \<Rightarrow> Reg set" where
  "mem_reads (MLoad d m p off) = {p}"
| "mem_reads (MStore m p v off) = {p, v}"
| "mem_reads (MArrayHeader d a off g) = {a}"
| "mem_reads (MArrayGetPtr d a i m) = {a, i}"
| "mem_reads (MGlobalLoad d m g) = {}"
| "mem_reads (MGlobalStore s m g) = {s}"
| "mem_reads (MMemCopy d s n m) = {d, s, n}"
| "mem_reads (MMemSet d v n m) = {d, v, n}"
| "mem_reads (MAtomicLoad d m p) = {p}"
| "mem_reads (MAtomicStore m p v) = {p, v}"
| "mem_reads (MAtomicRmw d m op p v) = {p, v}"
| "mem_reads (MAtomicCas d m p e n) = {p, e, n}"
| "mem_reads (MCloneObject d s) = {s}"
| "mem_reads (MFree p) = {p}"
| "mem_reads (MClosure d f cs) = fst ` set cs"
| "mem_reads (MFnAddr d md fn) = {}"
| "mem_reads (MStr d lit p n) = {}"
| "mem_reads (MMarkMoved s) = {}"
| "mem_reads (MCheckLive s nm line) = {}"

fun mem_dest :: "MemOp \<Rightarrow> Reg option" where
  "mem_dest (MLoad d m p off) = Some d"
| "mem_dest (MArrayHeader d a off g) = Some d"
| "mem_dest (MArrayGetPtr d a i m) = Some d"
| "mem_dest (MGlobalLoad d m g) = Some d"
| "mem_dest (MAtomicLoad d m p) = Some d"
| "mem_dest (MAtomicRmw d m op p v) = Some d"
| "mem_dest (MAtomicCas d m p e n) = Some d"
| "mem_dest (MCloneObject d s) = Some d"
| "mem_dest (MClosure d f cs) = Some d"
| "mem_dest (MFnAddr d md fn) = Some d"
| "mem_dest (MStr d lit p n) = Some d"
| "mem_dest _ = None"

definition src_reads :: "Src \<Rightarrow> Reg set" where
  "src_reads s = (case s of SrcReg r \<Rightarrow> {r} | _ \<Rightarrow> {})"

fun ctl_reads :: "CtlOp \<Rightarrow> Reg set" where
  "ctl_reads (CtCall c) = (\<Union>(s, m) \<in> set (call_args c). src_reads s)"
| "ctl_reads (CtCallIndirect c) = insert (ic_closure c) (fst ` set (ic_args c))"
| "ctl_reads (CtSetJmp d buf) = {buf}"
| "ctl_reads _ = {}"

fun ctl_dest :: "CtlOp \<Rightarrow> Reg option" where
  "ctl_dest (CtCall c) = call_dest c"
| "ctl_dest (CtCallIndirect c) = ic_dest c"
| "ctl_dest (CtSetJmp d buf) = Some d"
| "ctl_dest _ = None"

fun op_reads :: "Op \<Rightarrow> Reg set" where
  "op_reads (OReg q) = reg_reads q"
| "op_reads (OMem q) = mem_reads q"
| "op_reads (OCtl q) = ctl_reads q"

fun op_dest :: "Op \<Rightarrow> Reg option" where
  "op_dest (OReg q) = Some (reg_dest q)"
| "op_dest (OMem q) = mem_dest q"
| "op_dest (OCtl q) = ctl_dest q"

definition op_dests :: "Op list \<Rightarrow> Reg set" where
  "op_dests ops = (\<Union>op \<in> set ops. set_option (op_dest op))"

lemma op_dests_simps [simp]:
  "op_dests [] = {}"
  "op_dests (op # ops) = set_option (op_dest op) \<union> op_dests ops"
  "op_dests (ops @ ops') = op_dests ops \<union> op_dests ops'"
  by (auto simp: op_dests_def)

text \<open>Every register read is in \<open>U\<close> or was written before.\<close>

fun reads_ok :: "Reg set \<Rightarrow> Op list \<Rightarrow> bool" where
  "reads_ok U [] = True"
| "reads_ok U (op # ops) =
     (op_reads op \<subseteq> U \<and> reads_ok (set_option (op_dest op) \<union> U) ops)"

lemma reads_ok_mono: "reads_ok U ops \<Longrightarrow> U \<subseteq> V \<Longrightarrow> reads_ok V ops"
proof (induction ops arbitrary: U V)
  case (Cons op ops)
  from Cons.prems have "reads_ok (set_option (op_dest op) \<union> U) ops" by simp
  then have "reads_ok (set_option (op_dest op) \<union> V) ops"
    by (rule Cons.IH) (use Cons.prems in blast)
  moreover have "op_reads op \<subseteq> V" using Cons.prems by simp blast
  ultimately show ?case by simp
qed simp

lemma reads_ok_append: "reads_ok U (ops @ ops') \<longleftrightarrow> reads_ok U ops \<and> reads_ok (op_dests ops \<union> U) ops'"
proof (induction ops arbitrary: U)
  case (Cons op ops)
  have "op_dests ops \<union> (set_option (op_dest op) \<union> U) = op_dests (op # ops) \<union> U" by auto
  with Cons.IH [of "set_option (op_dest op) \<union> U"] show ?case
    by (simp only: append_Cons reads_ok.simps conj_assoc)
qed simp

section \<open>Running operations in one frame\<close>

text \<open>
  An operation in its frame, a call it makes run to its end with fuel \<open>N\<close>. \<open>OpStuck\<close>: the fuel
  was too little, or a \<open>setjmp\<close> was reached.
\<close>

datatype op_stop = OpError InterpError | OpStuck

definition run_op ::
  "nat \<Rightarrow> 'x Runtime \<Rightarrow> Op \<Rightarrow> Frame \<times> 'x World \<Rightarrow> op_stop + (Frame \<times> 'x World)" where
  "run_op N rt op s =
     (case exec_op rt op (fst s) (snd s) of
        Inl e \<Rightarrow> Inl (OpError e)
      | Inr (AcNext fr w) \<Rightarrow> Inr (fr, w)
      | Inr (AcCall g args pend w) \<Rightarrow>
          (case interp_call N rt g args w of
             OutDone v w' \<Rightarrow> Inr (deliver v ((fst s)\<lparr>fr_pending := pend\<rparr>), w')
           | OutFail e \<Rightarrow> Inl (OpError e)
           | _ \<Rightarrow> Inl OpStuck)
      | Inr (AcSetJmp d buf) \<Rightarrow> Inl OpStuck)"

fun run_ops ::
  "nat \<Rightarrow> 'x Runtime \<Rightarrow> Op list \<Rightarrow> Frame \<times> 'x World \<Rightarrow> op_stop + (Frame \<times> 'x World)" where
  "run_ops N rt [] s = Inr s"
| "run_ops N rt (op # ops) s = rbind (run_op N rt op s) (run_ops N rt ops)"

text \<open>
  Grafting: the frame a run ends in, for a run that starts from the registers \<open>R\<close> and has
  written those of \<open>X\<close>.
\<close>

definition graft :: "Reg set \<Rightarrow> (Reg \<Rightarrow> u64) \<Rightarrow> Frame \<Rightarrow> Frame" where
  "graft X R fr = fr\<lparr>fr_regs := (\<lambda>x. if x \<in> X then fr_regs fr x else R x)\<rparr>"

definition graft_result ::
  "Reg set \<Rightarrow> (Reg \<Rightarrow> u64) \<Rightarrow> 'e + (Frame \<times> 'w) \<Rightarrow> 'e + (Frame \<times> 'w)" where
  "graft_result X R r = rbind r (\<lambda>(fr, w). Inr (graft X R fr, w))"

lemma graft_result_simps [simp]:
  "graft_result X R (Inl e) = Inl e"
  "graft_result X R (Inr (fr, w)) = Inr (graft X R fr, w)"
  by (simp_all add: graft_result_def)

lemma reg_value_cong:
  "(\<And>x. x \<in> reg_reads op \<Longrightarrow> R x = S x) \<Longrightarrow> reg_value R sl env op = reg_value S sl env op"
  by (cases op) auto

lemma write_captures_cong:
  "(\<And>x. x \<in> fst ` set cs \<Longrightarrow> R x = S x) \<Longrightarrow>
     write_captures rt R a cs w = write_captures rt S a cs w"
proof (induction cs arbitrary: a w)
  case (Cons c cs)
  obtain r m where c: "c = (r, m)" by fastforce
  have "write_captures rt R a' cs w' = write_captures rt S a' cs w'" for a' w'
    using Cons.prems by (intro Cons.IH) auto
  then show ?case using Cons.prems by (auto simp: c intro!: rbind_cong)
qed simp

lemma make_closure_cong:
  assumes "\<And>x. x \<in> fst ` set cs \<Longrightarrow> R x = S x"
  shows "make_closure rt R f cs w = make_closure rt S f cs w"
proof -
  have "write_captures rt R a cs w = write_captures rt S a cs w" for a w
    using assms by (rule write_captures_cong)
  then show ?thesis by (simp add: make_closure_def)
qed

lemma exec_reg_graft:
  assumes "\<And>x. x \<in> reg_reads op \<Longrightarrow> R x = fr_regs fr x"
  shows "exec_reg op (fr\<lparr>fr_regs := R\<rparr>) =
         rbind (exec_reg op fr) (\<lambda>fr'. Inr (graft {reg_dest op} R fr'))"
proof -
  have "reg_value R (fr_slots fr) (fr_env fr) op = reg_value (fr_regs fr) (fr_slots fr) (fr_env fr) op"
    using assms by (rule reg_value_cong)
  then show ?thesis
    by (cases "reg_value (fr_regs fr) (fr_slots fr) (fr_env fr) op")
       (simp_all add: exec_reg_def set_reg_def graft_def fun_upd_def cong: if_cong)
qed

lemma to_reg_graft:
  "to_reg d (fr\<lparr>fr_regs := R\<rparr>) r = graft_result {d} R (to_reg d fr r)"
  by (cases r) (auto simp: to_reg_def set_reg_def graft_def fun_upd_def cong: if_cong)

lemma keep_frame_graft:
  "keep_frame (fr\<lparr>fr_regs := R\<rparr>) r = graft_result {} R (keep_frame fr r)"
  by (cases r) (auto simp: keep_frame_def graft_def)

lemma exec_mem_graft:
  assumes "\<And>x. x \<in> mem_reads op \<Longrightarrow> R x = fr_regs fr x"
  shows "exec_mem rt op (fr\<lparr>fr_regs := R\<rparr>) w =
         graft_result (set_option (mem_dest op)) R (exec_mem rt op fr w)"
proof (cases op)
  case (MClosure d f cs)
  then have "make_closure rt R f cs w = make_closure rt (fr_regs fr) f cs w"
    using assms by (intro make_closure_cong) simp
  then show ?thesis by (simp add: MClosure to_reg_graft)
qed (use assms in \<open>simp_all add: to_reg_graft keep_frame_graft graft_def\<close>)

lemma deliver_graft:
  "deliver v (fr\<lparr>fr_regs := R, fr_pending := p\<rparr>) =
     graft (set_option (pd_dest p)) R (deliver v (fr\<lparr>fr_pending := p\<rparr>))"
  by (auto simp: deliver_def graft_def Let_def fun_eq_iff split: option.splits)

lemma map_src_cong:
  assumes "\<And>x. x \<in> (\<Union>(s, m) \<in> set as. src_reads s) \<Longrightarrow> R x = fr_regs fr x"
  shows "map (\<lambda>(s, m). (canon (src_value (fr\<lparr>fr_regs := R\<rparr>) s) m, m)) as =
         map (\<lambda>(s, m). (canon (src_value fr s) m, m)) as"
  using assms
  by (intro map_cong refl) (force simp: src_value_def src_reads_def split: Src.splits)

text \<open>What a control operation does, its call run to the end.\<close>

definition finish_action ::
  "nat \<Rightarrow> 'x Runtime \<Rightarrow> Frame \<Rightarrow> InterpError + 'x Action \<Rightarrow> op_stop + (Frame \<times> 'x World)" where
  "finish_action N rt fr r =
     (case r of
        Inl e \<Rightarrow> Inl (OpError e)
      | Inr (AcNext fr' w) \<Rightarrow> Inr (fr', w)
      | Inr (AcCall g args pend w) \<Rightarrow>
          (case interp_call N rt g args w of
             OutDone v w' \<Rightarrow> Inr (deliver v (fr\<lparr>fr_pending := pend\<rparr>), w')
           | OutFail e \<Rightarrow> Inl (OpError e)
           | _ \<Rightarrow> Inl OpStuck)
      | Inr (AcSetJmp d buf) \<Rightarrow> Inl OpStuck)"

lemma run_op_finish: "run_op N rt op s = finish_action N rt (fst s) (exec_op rt op (fst s) (snd s))"
  by (simp add: run_op_def finish_action_def)

lemma native_result_graft:
  "finish_action N rt (fr\<lparr>fr_regs := R\<rparr>) (native_result (fr\<lparr>fr_regs := R\<rparr>) p r) =
     graft_result (set_option (pd_dest p)) R (finish_action N rt fr (native_result fr p r))"
  by (cases "fst r") (simp_all add: native_result_def finish_action_def deliver_graft)

lemma call_graft:
  "finish_action N rt (fr\<lparr>fr_regs := R\<rparr>) (rbind r (\<lambda>g. Inr (AcCall g args p w))) =
     graft_result (set_option (pd_dest p)) R
       (finish_action N rt fr (rbind r (\<lambda>g. Inr (AcCall g args p w))))"
proof (cases r)
  case (Inr g)
  then show ?thesis
    by (cases "interp_call N rt g args w") (simp_all add: finish_action_def deliver_graft)
qed (simp add: finish_action_def)

lemma exec_ctl_graft:
  assumes "\<And>x. x \<in> ctl_reads op \<Longrightarrow> R x = fr_regs fr x"
  shows "finish_action N rt (fr\<lparr>fr_regs := R\<rparr>) (exec_ctl rt op (fr\<lparr>fr_regs := R\<rparr>) w) =
         graft_result (set_option (ctl_dest op)) R (finish_action N rt fr (exec_ctl rt op fr w))"
proof (cases op)
  case (CtCall c)
  have args: "map (\<lambda>(s, m). (canon (src_value (fr\<lparr>fr_regs := R\<rparr>) s) m, m)) (call_args c) =
      map (\<lambda>(s, m). (canon (src_value fr s) m, m)) (call_args c)"
    using assms by (intro map_src_cong) (simp add: CtCall)
  show ?thesis
    by (simp add: CtCall call_op_def Let_def args native_result_graft call_graft
        split: Target.splits option.splits)
next
  case (CtCallIndirect c)
  have cl: "R (ic_closure c) = fr_regs fr (ic_closure c)" using assms by (simp add: CtCallIndirect)
  have args: "map (\<lambda>(r, m). (R r, m)) (ic_args c) = map (\<lambda>(r, m). (fr_regs fr r, m)) (ic_args c)"
  proof -
    have "R r = fr_regs fr r" if "(r, m) \<in> set (ic_args c)" for r m
    proof -
      have "r \<in> fst ` set (ic_args c)" using that by force
      then show ?thesis using assms by (simp add: CtCallIndirect)
    qed
    then show ?thesis by (intro map_cong refl) auto
  qed
  let ?a = "fr_regs fr (ic_closure c)"
  show ?thesis
  proof (cases "?a = 0 \<or> (\<exists>e. mem_read rt w ?a MtI64 = Inl e) \<or> (\<exists>e. mem_read rt w (?a + 8) MtI64 = Inl e)")
    case True
    then show ?thesis
      by (cases "mem_read rt w ?a MtI64")
         (auto simp: CtCallIndirect call_indirect_def Let_def cl finish_action_def)
  next
    case False
    then obtain code env where "mem_read rt w ?a MtI64 = Inr code" "mem_read rt w (?a + 8) MtI64 = Inr env"
      by (meson old.sum.exhaust)
    with False show ?thesis
      by (cases "rt_trampoline rt code")
         (auto simp: CtCallIndirect call_indirect_def Let_def cl args native_result_graft call_graft)
  qed
qed (simp_all add: finish_action_def graft_def)

lemma run_op_graft:
  assumes "\<And>x. x \<in> op_reads op \<Longrightarrow> R x = fr_regs fr x"
  shows "run_op N rt op (fr\<lparr>fr_regs := R\<rparr>, w) =
         graft_result (set_option (op_dest op)) R (run_op N rt op (fr, w))"
proof (cases op)
  case (OReg q)
  then show ?thesis using exec_reg_graft [of q R fr] assms
    by (cases "exec_reg q fr") (simp_all add: run_op_def exec_op_def)
next
  case (OMem q)
  then show ?thesis using exec_mem_graft [of q R fr rt w] assms
    by (cases "exec_mem rt q fr w") (auto simp: run_op_def exec_op_def)
next
  case (OCtl q)
  then show ?thesis using exec_ctl_graft [of q R fr N rt w] assms
    by (simp add: run_op_finish exec_op_def)
qed

text \<open>No operation writes another register.\<close>

lemma run_op_keeps:
  assumes "run_op N rt op (fr, w) = Inr (fr', w')" and "op_dest op \<noteq> Some x"
  shows "fr_regs fr' x = fr_regs fr x"
proof -
  have "fr\<lparr>fr_regs := fr_regs fr\<rparr> = fr" by simp
  with run_op_graft [of op "fr_regs fr" fr N rt w] assms
  have "Inr (fr', w') = graft_result (set_option (op_dest op)) (fr_regs fr) (Inr (fr', w') :: op_stop + _)"
    by simp
  then have "fr' = graft (set_option (op_dest op)) (fr_regs fr) fr'"
    by (simp only: graft_result_simps sum.inject prod.inject)
  then have "fr_regs fr' x = fr_regs (graft (set_option (op_dest op)) (fr_regs fr) fr') x"
    by (rule arg_cong)
  then have "fr_regs fr' x = (if x \<in> set_option (op_dest op) then fr_regs fr' x else fr_regs fr x)"
    by (simp add: graft_def)
  then show ?thesis using assms(2) by (auto split: if_splits)
qed

lemma run_ops_keeps:
  "run_ops N rt ops s = Inr s' \<Longrightarrow> x \<notin> op_dests ops \<Longrightarrow> fr_regs (fst s') x = fr_regs (fst s) x"
proof (induction ops arbitrary: s)
  case (Cons op ops)
  obtain fr w where s: "s = (fr, w)" by fastforce
  from Cons.prems obtain fr1 w1 where 1: "run_op N rt op (fr, w) = Inr (fr1, w1)"
    and 2: "run_ops N rt ops (fr1, w1) = Inr s'"
    by (auto simp: s rbind_Inr_iff)
  have "op_dest op \<noteq> Some x" using Cons.prems(2) by auto
  with run_op_keeps [OF 1] have "fr_regs fr1 x = fr_regs fr x" by blast
  with Cons.IH [OF 2] Cons.prems(2) show ?case by (simp add: s)
qed simp

lemma run_ops_graft:
  assumes "reads_ok U ops" and "\<And>x. x \<in> U \<Longrightarrow> R x = fr_regs fr x"
  shows "run_ops N rt ops (fr\<lparr>fr_regs := R\<rparr>, w) =
         graft_result (op_dests ops) R (run_ops N rt ops (fr, w))"
  using assms
proof (induction ops arbitrary: U R fr w)
  case Nil
  then show ?case by (simp add: graft_def)
next
  case (Cons op ops)
  have step: "run_op N rt op (fr\<lparr>fr_regs := R\<rparr>, w) =
      graft_result (set_option (op_dest op)) R (run_op N rt op (fr, w))"
    using Cons.prems by (intro run_op_graft) auto
  show ?case
  proof (cases "run_op N rt op (fr, w)")
    case (Inl e)
    with step show ?thesis by simp
  next
    case (Inr s)
    obtain fr' w' where s: "s = (fr', w')" by fastforce
    let ?R = "\<lambda>x. if x \<in> set_option (op_dest op) then fr_regs fr' x else R x"
    have keep: "fr_regs fr' x = fr_regs fr x" if "x \<notin> set_option (op_dest op)" for x
      using run_op_keeps [OF Inr [unfolded s]] that by auto
    have "run_ops N rt ops (fr'\<lparr>fr_regs := ?R\<rparr>, w') =
        graft_result (op_dests ops) ?R (run_ops N rt ops (fr', w'))"
      using Cons.prems by (intro Cons.IH [of "set_option (op_dest op) \<union> U"]) (auto simp: keep)
    moreover have "graft (op_dests ops) ?R a = graft (op_dests (op # ops)) R a"
      if "run_ops N rt ops (fr', w') = Inr (a, b)" for a b
    proof -
      have "fr_regs a x = fr_regs fr' x" if "x \<notin> op_dests ops" for x
        using run_ops_keeps [OF \<open>run_ops N rt ops (fr', w') = Inr (a, b)\<close>] that by simp
      then have "(\<lambda>x. if x \<in> op_dests ops then fr_regs a x else ?R x) =
          (\<lambda>x. if x \<in> op_dests (op # ops) then fr_regs a x else R x)"
        by (auto simp: fun_eq_iff)
      then show ?thesis by (simp only: graft_def)
    qed
    moreover have "run_op N rt op (fr\<lparr>fr_regs := R\<rparr>, w) = Inr (fr'\<lparr>fr_regs := ?R\<rparr>, w')"
      using step Inr by (simp only: s graft_result_simps graft_def)
    ultimately show ?thesis
      using Inr by (cases "run_ops N rt ops (fr', w')") (auto simp only: s run_ops.simps rbind_simps graft_result_simps)
  qed
qed

section \<open>What the decoder emits\<close>

text \<open>
  From \<open>D\<close> to \<open>D'\<close> the decoder only appends operations that read registers of \<open>U\<close> and write
  registers of \<open>W\<close> or temporaries numbered from \<open>lo\<close>; afterwards those of \<open>V\<close> can be read.
  The numbers of the blocks stay as they are.
\<close>

definition extends :: "Reg set \<Rightarrow> Reg set \<Rightarrow> nat \<Rightarrow> Dec \<Rightarrow> Dec \<Rightarrow> Reg set \<Rightarrow> bool" where
  "extends U W lo D D' V \<longleftrightarrow>
     lo \<le> dc_next_reg D \<and> dc_next_reg D \<le> dc_next_reg D' \<and>
     dc_block_index D' = dc_block_index D \<and>
     (\<exists>ops. dc_ops D' = dc_ops D @ ops \<and> reads_ok U ops \<and>
            op_dests ops \<subseteq> W \<union> {lo..<dc_next_reg D'} \<and> V \<subseteq> U \<union> op_dests ops)"

lemma extends_refl: "lo \<le> dc_next_reg D \<Longrightarrow> V \<subseteq> U \<Longrightarrow> extends U W lo D D V"
  by (simp add: extends_def)

lemma extends_trans:
  assumes "extends U W lo D D1 V1" and "extends V1 W lo D1 D2 V2"
  shows "extends U W lo D D2 (U \<union> V1 \<union> V2)"
proof -
  obtain ops1 ops2 where 1: "dc_ops D1 = dc_ops D @ ops1" "reads_ok U ops1"
      "op_dests ops1 \<subseteq> W \<union> {lo..<dc_next_reg D1}" "V1 \<subseteq> U \<union> op_dests ops1"
    and 2: "dc_ops D2 = dc_ops D1 @ ops2" "reads_ok V1 ops2"
      "op_dests ops2 \<subseteq> W \<union> {lo..<dc_next_reg D2}" "V2 \<subseteq> V1 \<union> op_dests ops2"
    using assms by (auto simp: extends_def)
  have "reads_ok (op_dests ops1 \<union> U) ops2"
    by (rule reads_ok_mono [OF 2(2)]) (use 1(4) in auto)
  with 1 2 have "reads_ok U (ops1 @ ops2)" by (simp add: reads_ok_append)
  moreover have "dc_next_reg D1 \<le> dc_next_reg D2" using assms by (simp add: extends_def)
  then have "op_dests (ops1 @ ops2) \<subseteq> W \<union> {lo..<dc_next_reg D2}" using 1(3) 2(3) by fastforce
  moreover have "U \<union> V1 \<union> V2 \<subseteq> U \<union> op_dests (ops1 @ ops2)" using 1(4) 2(4) by auto
  ultimately show ?thesis using assms 1(1) 2(1) unfolding extends_def by auto
qed

lemma extends_weaken: "extends U W lo D D' V \<Longrightarrow> V' \<subseteq> U \<union> V \<Longrightarrow> extends U W lo D D' V'"
  by (fastforce simp: extends_def)

lemma extends_set_mt [simp]:
  "extends U W lo D (set_mt r m D') V = extends U W lo D D' V"
  "extends U W lo (set_mt r m D) D' V = extends U W lo D D' V"
  by (simp_all add: extends_def set_mt_def)

lemma extends_emit:
  assumes "extends U W lo D D' V" and "op_reads op \<subseteq> U \<union> V"
    and "set_option (op_dest op) \<subseteq> W \<union> {lo..<dc_next_reg D'}"
  shows "extends U W lo D (emit op D') (V \<union> set_option (op_dest op))"
proof -
  obtain ops where ops: "dc_ops D' = dc_ops D @ ops" "reads_ok U ops"
      "op_dests ops \<subseteq> W \<union> {lo..<dc_next_reg D'}" "V \<subseteq> U \<union> op_dests ops"
    using assms(1) by (auto simp: extends_def)
  have "op_reads op \<subseteq> op_dests ops \<union> U" using assms(2) ops(4) by auto
  then have "reads_ok U (ops @ [op])" using ops by (simp add: reads_ok_append)
  then show ?thesis
    using assms(1,3) ops unfolding extends_def emit_def
    by (auto intro!: exI [of _ "ops @ [op]"])
qed

lemma next_reg_simps [simp]:
  "dc_next_reg (set_mt r m D) = dc_next_reg D"
  "dc_next_reg (emit op D) = dc_next_reg D"
  "dc_mts (emit op D) = dc_mts D"
  "reg_mt (emit op D) r = reg_mt D r"
  by (simp_all add: set_mt_def emit_def reg_mt_def)

lemma extends_temp:
  assumes "extends U W lo D D' V" and "temp m D' = (r, D'')"
  shows "extends U W lo D D'' V \<and> r \<in> {lo..<dc_next_reg D''}"
proof -
  have "r = dc_next_reg D'" "dc_next_reg D'' = dc_next_reg D' + 1" "dc_ops D'' = dc_ops D'"
      "dc_block_index D'' = dc_block_index D'"
    using assms(2) by (auto simp: temp_def set_mt_def)
  then show ?thesis using assms(1) by (fastforce simp: extends_def)
qed

lemma extends_coerce:
  assumes "extends U W lo D D' V" and "s \<in> U \<union> V" and "coerce s c D' = (r, D'')"
  shows "extends U W lo D D'' (V \<union> {r})"
proof (cases c)
  case None
  with assms show ?thesis by (auto simp: coerce_def intro: extends_weaken)
next
  case (Some cv)
  obtain d D1 where t: "temp (conv_to cv) D' = (d, D1)" by fastforce
  with assms(3) Some have r: "r = d" "D'' = emit_reg (RConv d s cv) D1" by (auto simp: coerce_def)
  from extends_temp [OF assms(1) t] have "extends U W lo D D1 V" "d \<in> {lo..<dc_next_reg D1}" by auto
  with extends_emit [of U W lo D D1 V "OReg (RConv d s cv)"] assms(2) r show ?thesis by simp
qed

lemma extends_slot:
  assumes "extends U W lo D D' V" and "slot n D' = (off, D'')"
  shows "extends U W lo D D'' V"
  using assms by (auto simp: extends_def slot_def Let_def)

lemma extends_move_conv:
  assumes "extends U W lo D D' V" and "s \<in> U \<union> V" and "d \<in> W"
  shows "extends U W lo D (move_conv d s c D') (V \<union> {d})"
  using extends_emit [OF assms(1), of "OReg (RCopy d s)"]
    extends_emit [OF assms(1), of "OReg (RConv d s (the c))"] assms(2,3)
  by (cases c) (auto simp: move_conv_def)

lemma extends_more: "extends U W lo D D' V \<Longrightarrow> V' \<subseteq> V \<Longrightarrow> extends U W lo D D' V'"
  by (rule extends_weaken) auto

lemma extends_widen:
  "extends U W lo D D' V \<Longrightarrow> a \<in> U \<union> V \<Longrightarrow> widen_float m a D' = (r, D'') \<Longrightarrow>
     extends U W lo D D'' (V \<union> {r})"
  unfolding widen_float_def by (rule extends_coerce)

lemma extends_fmuls [simp]:
  "extends U W lo D (D'\<lparr>dc_fmuls := x\<rparr>) V = extends U W lo D D' V"
  by (simp add: extends_def)

lemma extends_consts [simp]:
  "extends U W lo D (D'\<lparr>dc_consts := x\<rparr>) V = extends U W lo D D' V"
  by (simp add: extends_def)

lemma next_reg_fields [simp]:
  "dc_next_reg (D\<lparr>dc_fmuls := x\<rparr>) = dc_next_reg D"
  "dc_next_reg (D\<lparr>dc_consts := y\<rparr>) = dc_next_reg D"
  by simp_all

lemma extends_float_binop:
  assumes "\<not> cx_fma cx" and "extends U W lo D D' V" and "a \<in> U \<union> V" and "b \<in> U \<union> V"
    and "float_binop cx op a b D' = (r, D'')"
  shows "extends U W lo D D'' (V \<union> {r})"
proof -
  let ?m = "if reg_mt D' a = MtF64 \<or> reg_mt D' b = MtF64 then MtF64 else MtF32"
  obtain a' D1 where 1: "widen_float ?m a D' = (a', D1)" by fastforce
  obtain b' D2 where 2: "widen_float ?m b D1 = (b', D2)" by fastforce
  obtain t D3 where 3: "temp ?m D2 = (t, D3)" by fastforce
  have "extends U W lo D D1 (V \<union> {a'})" by (rule extends_widen [OF assms(2,3) 1])
  then have "extends U W lo D D2 (V \<union> {a'} \<union> {b'})"
    by (rule extends_widen [OF _ _ 2]) (use assms(4) in auto)
  from extends_temp [OF this 3] have t: "extends U W lo D D3 (V \<union> {a'} \<union> {b'})"
    "t \<in> {lo..<dc_next_reg D3}" by auto
  have "extends U W lo D (emit_reg (RFBin t (float_op op) ?m a' b') D3)
      (V \<union> {a'} \<union> {b'} \<union> set_option (op_dest (OReg (RFBin t (float_op op) ?m a' b'))))"
    by (rule extends_emit [OF t(1)]) (use t(2) in auto)
  then have "extends U W lo D (emit_reg (RFBin t (float_op op) ?m a' b') D3) (V \<union> {t})"
    by (rule extends_more) auto
  then show ?thesis
    using assms(1,5) by (auto simp: float_binop_def Let_def 1 2 3 fused_def split: if_splits)
qed

lemma extends_int_binop:
  assumes "extends U W lo D D' V" and "a \<in> U \<union> V" and "b \<in> U \<union> V"
    and "int_binop op sg op_ty a b D' = (r, D'')"
  shows "extends U W lo D D'' (V \<union> {r})"
proof -
  let ?m = "if mt_is_int (reg_mt D' a) then reg_mt D' a else op_ty"
  obtain t D1 where 1: "temp ?m D' = (t, D1)" by fastforce
  from extends_temp [OF assms(1) 1] have t: "extends U W lo D D1 V" "t \<in> {lo..<dc_next_reg D1}"
    by auto
  have "extends U W lo D (emit_reg (RIBin t (int_op sg op) ?m a b) D1)
      (V \<union> set_option (op_dest (OReg (RIBin t (int_op sg op) ?m a b))))"
    by (rule extends_emit [OF t(1)]) (use t(2) assms(2,3) in auto)
  then show ?thesis using assms(4) by (auto simp: int_binop_def Let_def 1)
qed

text \<open>The state a step of the decoder ends in, whether it succeeds or not.\<close>

definition step_ok :: "Reg set \<Rightarrow> Reg set \<Rightarrow> nat \<Rightarrow> Dec \<Rightarrow> Dec \<Rightarrow> bool" where
  "step_ok U W lo D D' \<longleftrightarrow> (\<exists>V. extends U W lo D D' V)"

lemma step_okI: "extends U W lo D D' V \<Longrightarrow> step_ok U W lo D D'"
  by (auto simp: step_ok_def)

lemma extends_emit_ok:
  "extends U W lo D D' V \<Longrightarrow> op_reads op \<subseteq> U \<union> V \<Longrightarrow>
     set_option (op_dest op) \<subseteq> W \<union> {lo..<dc_next_reg D'} \<Longrightarrow> step_ok U W lo D (emit op D')"
  by (rule step_okI, rule extends_emit)

lemma decode_binop_ok:
  assumes "\<not> cx_fma cx" and "{l, r} \<subseteq> U" and "d \<in> W" and "lo \<le> dc_next_reg D"
  shows "step_ok U W lo D (snd (decode_binop cx d op l r D))"
proof (cases "binop_type cx d l r")
  case None
  then show ?thesis by (auto simp: decode_binop_def intro!: step_okI [of _ _ _ _ _ "{}"] extends_refl assms(4))
next
  case (Some ty)
  have refl: "extends U W lo D D {}" by (rule extends_refl [OF assms(4)]) simp
  let ?lm = "reg_mt D l" and ?rm = "reg_mt D r" let ?e = "expected_mt ty"
  let ?ot = "binop_op_ty op ?lm ?rm ?e" let ?uf = "binop_use_float op ?lm ?rm ?ot"
  obtain a D1 where 1: "coerce l (operand_conv op ty ?ot ?uf ?lm ?rm) D = (a, D1)" by fastforce
  obtain b D2 where 2: "coerce r (operand_conv op ty ?ot ?uf ?rm ?lm) D1 = (b, D2)" by fastforce
  obtain res D3 where 3: "(if ?uf \<and> mt_is_float (reg_mt D2 a) \<and> mt_is_float (reg_mt D2 b)
      then float_binop cx op a b D2 else int_binop op (is_signed ty) ?ot a b D2) = (res, D3)" by fastforce
  have e1: "extends U W lo D D1 ({} \<union> {a})" by (rule extends_coerce [OF refl _ 1]) (use assms(2) in auto)
  have e2: "extends U W lo D D2 ({} \<union> {a} \<union> {b})"
    by (rule extends_coerce [OF e1 _ 2]) (use assms(2) in auto)
  have "extends U W lo D D3 ({} \<union> {a} \<union> {b} \<union> {res})"
    using 3 by (auto split: if_splits
        intro: extends_float_binop [OF assms(1) e2, simplified] extends_int_binop [OF e2, simplified])
  then have e3: "extends U W lo D D3 {res}" by (rule extends_more) auto
  have m: "step_ok U W lo D (move_conv d res fc D')" if "extends U W lo D D' {res}" for fc D'
    by (rule step_okI, rule extends_move_conv [OF that]) (use assms(3) in auto)
  show ?thesis
  proof (cases "?lm = MtV128 \<or> ?rm = MtV128")
    case True
    then show ?thesis using Some refl
      by (auto simp: decode_binop_def Let_def intro!: extends_emit_ok)
  next
    case False
    with Some show ?thesis
      by (auto simp: decode_binop_def Let_def 1 2 3 e3 intro!: m split: option.splits)
  qed
qed

lemma decode_unop_ok:
  assumes "x \<in> U" and "d \<in> W" and "lo \<le> dc_next_reg D"
  shows "step_ok U W lo D (snd (decode_unop cx d op x D))"
proof -
  have refl: "extends U W lo D D {}" by (rule extends_refl [OF assms(3)]) simp
  have em: "step_ok U W lo D (emit_reg q (set_mt d m D'))"
    if "extends U W lo D D' V" "reg_reads q \<subseteq> U \<union> V" "reg_dest q = d" for q m D' V
    by (rule extends_emit_ok [of U W lo D "set_mt d m D'" V]) (use that assms(2) in auto)
  have co: "extends U W lo D D1 {v}" if "coerce x c D = (v, D1)" for c v D1
    using extends_coerce [OF refl _ that] assms(1) by auto
  have "extends U W lo D D {x}" by (rule extends_refl [OF assms(3)]) (use assms(1) in auto)
  then show ?thesis using refl
    by (auto simp: decode_unop_def Let_def split: option.splits prod.splits if_splits
        intro!: em dest!: co intro: step_okI)
qed

lemma decode_cmp_ok:
  assumes "{l, r} \<subseteq> U" and "d \<in> W" and "lo \<le> dc_next_reg D"
  shows "step_ok U W lo D (snd (decode_cmp cx d op l r D))"
proof -
  have refl: "extends U W lo D D {}" by (rule extends_refl [OF assms(3)]) simp
  let ?D = "set_mt d MtI8 D" and ?lm = "reg_mt D l" and ?rm = "reg_mt D r"
  have e0: "extends U W lo D ?D {}" using refl by simp
  have em: "step_ok U W lo D (emit_reg q D')"
    if "extends U W lo D D' V" "reg_reads q \<subseteq> V" "reg_dest q = d" for q D' V
    by (rule extends_emit_ok [of U W lo D D' V]) (use that assms(2) in auto)
  have fl: "step_ok U W lo D (snd (float_cmp d op ?lm ?rm l r ?D))"
  proof -
    obtain b D1 where 1: "coerce r (if mt_is_float ?lm \<and> mt_is_int ?rm then Some (CvSToF ?rm ?lm) else None) ?D = (b, D1)"
      by fastforce
    obtain a D2 where 2: "coerce l (if mt_is_int ?lm \<and> mt_is_float ?rm then Some (CvSToF ?lm ?rm) else None) D1 = (a, D2)"
      by fastforce
    let ?m = "if reg_mt D2 a = MtF64 \<or> reg_mt D2 b = MtF64 then MtF64 else MtF32"
    obtain a' D3 where 3: "widen_float ?m a D2 = (a', D3)" by fastforce
    obtain b' D4 where 4: "widen_float ?m b D3 = (b', D4)" by fastforce
    have "extends U W lo D D1 ({} \<union> {b})" by (rule extends_coerce [OF e0 _ 1]) (use assms(1) in auto)
    then have "extends U W lo D D2 ({} \<union> {b} \<union> {a})"
      by (rule extends_coerce [OF _ _ 2]) (use assms(1) in auto)
    then have "extends U W lo D D3 ({} \<union> {b} \<union> {a} \<union> {a'})" by (rule extends_widen [OF _ _ 3]) auto
    then have e: "extends U W lo D D4 ({} \<union> {b} \<union> {a} \<union> {a'} \<union> {b'})"
      by (rule extends_widen [OF _ _ 4]) auto
    show ?thesis
      by (auto simp: float_cmp_def Let_def 1 2 3 4 split: option.splits intro!: em [OF e] step_okI [OF e])
  qed
  have ic: "step_ok U W lo D (snd (int_cmp d op sg ?lm ?rm l r ?D))" for sg
  proof -
    let ?sat = "\<lambda>m. if mt_is_float m then Some (CvFToSSat m MtI64) else None"
    obtain a D1 where 1: "coerce l (?sat ?lm) ?D = (a, D1)" by fastforce
    obtain b D2 where 2: "coerce r (?sat ?rm) D1 = (b, D2)" by fastforce
    let ?am = "reg_mt D2 a" and ?bm = "reg_mt D2 b"
    let ?df = "?am \<noteq> ?bm \<and> mt_is_int ?am \<and> mt_is_int ?bm"
    obtain b' D3 where 3: "coerce b (if ?df \<and> mt_bits ?am > mt_bits ?bm then resize ?bm ?am sg else None) D2 = (b', D3)"
      by fastforce
    obtain a' D4 where 4: "coerce a (if ?df \<and> \<not> mt_bits ?am > mt_bits ?bm then resize ?am ?bm sg else None) D3 = (a', D4)"
      by fastforce
    have "extends U W lo D D1 ({} \<union> {a})" by (rule extends_coerce [OF e0 _ 1]) (use assms(1) in auto)
    then have "extends U W lo D D2 ({} \<union> {a} \<union> {b})"
      by (rule extends_coerce [OF _ _ 2]) (use assms(1) in auto)
    then have "extends U W lo D D3 ({} \<union> {a} \<union> {b} \<union> {b'})" by (rule extends_coerce [OF _ _ 3]) auto
    then have e: "extends U W lo D D4 ({} \<union> {a} \<union> {b} \<union> {b'} \<union> {a'})"
      by (rule extends_coerce [OF _ _ 4]) auto
    have "int_cmp d op sg ?lm ?rm l r ?D =
        (case int_cc op of Some cc \<Rightarrow> (Inr (), emit_reg (RICmp d cc (reg_mt D4 a') a' b') D4)
         | None \<Rightarrow> (Inl (DeIntCompare op), D4))"
      by (simp only: int_cmp_def Let_def 1 2 3 4 prod.case)
    then show ?thesis by (auto split: option.splits intro!: em [OF e] step_okI [OF e])
  qed
  show ?thesis
    using refl fl ic by (auto simp: decode_cmp_def Let_def intro: step_okI split: option.splits)
qed

lemma extends_coerce_args:
  "extends U W lo D D' V \<Longrightarrow> set as \<subseteq> U \<union> V \<Longrightarrow> coerce_args conv i as D' = (rs, D'') \<Longrightarrow>
     extends U W lo D D'' (V \<union> fst ` set rs)"
proof (induction conv i as D' arbitrary: V rs D'' rule: coerce_args.induct)
  case (1 conv i D')
  then show ?case by simp
next
  case (2 conv i a as D')
  obtain r D1 where 1: "coerce a (conv i (reg_mt D' a)) D' = (r, D1)" by fastforce
  obtain rs' D2 where r: "coerce_args conv (i + 1) as D1 = (rs', D2)" by fastforce
  have "extends U W lo D D1 (V \<union> {r})"
    by (rule extends_coerce [OF "2.prems"(1) _ 1]) (use "2.prems"(2) in auto)
  from "2.IH" [OF 1 [symmetric] refl refl this _ r] "2.prems"(2)
  have "extends U W lo D D2 (V \<union> {r} \<union> fst ` set rs')" by auto
  moreover have "rs = (r, reg_mt D1 r) # rs'" "D'' = D2"
    using "2.prems"(3) by (simp_all add: 1 r [simplified] Let_def)
  ultimately show ?case by (auto elim!: extends_more)
qed

section \<open>Calls\<close>

definition args_reads :: "(Src \<times> Mt) list \<Rightarrow> Reg set" where
  "args_reads as = (\<Union>(s, m) \<in> set as. src_reads s)"

lemma args_reads_simps [simp]:
  "args_reads [] = {}"
  "args_reads ((s, m) # as) = src_reads s \<union> args_reads as"
  "args_reads (as @ bs) = args_reads as \<union> args_reads bs"
  "args_reads (map (\<lambda>(r, m). (SrcReg r, m)) rs) = fst ` set rs"
  "args_reads (map (\<lambda>i. (SrcImm (f i), g i)) is) = {}"
  by (force simp: args_reads_def src_reads_def)+

lemma src_reads_simps [simp]:
  "src_reads (SrcImm v) = {}" "src_reads (SrcSlot n) = {}" "src_reads (SrcReg r) = {r}"
  by (simp_all add: src_reads_def)

lemma args_reads_pad: "args_reads (pad rs decl ni) = fst ` set rs"
  by (simp add: pad_def)

lemma args_reads_hidden: "args_reads (hidden_args a b) = {}"
  by (simp add: hidden_args_def)

lemma args_reads_slot: "args_reads (as[0 := (SrcSlot off, m)]) \<subseteq> args_reads as"
  by (cases as) auto

lemma extends_emit_keep:
  "extends U W lo D D' V \<Longrightarrow> op_reads op \<subseteq> U \<union> V \<Longrightarrow>
     set_option (op_dest op) \<subseteq> W \<union> {lo..<dc_next_reg D'} \<Longrightarrow> extends U W lo D (emit op D') V"
  by (rule extends_more, rule extends_emit) auto

lemma extends_emit_call:
  assumes "extends U W lo D D' V" and "args_reads as \<subseteq> U \<union> V"
    and "set_option d \<subseteq> W \<union> {lo..<dc_next_reg D'}"
  shows "extends U W lo D (emit_call cx tg as ret sret d D') V"
  using assms
  by (auto simp: emit_call_def Let_def args_reads_def [symmetric] split: option.splits
           intro!: extends_emit_keep)

lemma extends_emit_call_dest:
  assumes "extends U W lo D D' V" and "args_reads as \<subseteq> U \<union> V"
    and "r \<in> W \<union> {lo..<dc_next_reg D'}"
  shows "extends U W lo D (emit_call cx tg as ret sret (Some r) D') (V \<union> {r})"
proof -
  let ?c = "\<lparr>call_target = tg, call_args = as, call_ret = ret, call_sret = sret, call_dest = Some r\<rparr>"
  have e: "extends U W lo D (set_mt r m D') V" for m using assms(1) by simp
  have "extends U W lo D (emit (OCtl (CtCall (?c\<lparr>call_dest := None\<rparr>))) (set_mt r m D')) V" for m
    by (rule extends_emit_keep [OF e]) (use assms(2) in \<open>auto simp: args_reads_def\<close>)
  then have 1: "extends U W lo D (emit_reg (RConst r b)
      (emit (OCtl (CtCall (?c\<lparr>call_dest := None\<rparr>))) (set_mt r m D')))
      (V \<union> set_option (op_dest (OReg (RConst r b))))" for m b
    by (rule extends_emit) (use assms(3) in auto)
  have 2: "extends U W lo D (emit (OCtl (CtCall ?c)) (set_mt r m D'))
      (V \<union> set_option (op_dest (OCtl (CtCall ?c))))" for m
    by (rule extends_emit [OF e]) (use assms(2,3) in \<open>auto simp: args_reads_def\<close>)
  show ?thesis using 1 2 by (auto simp: emit_call_def Let_def split: option.splits)
qed

lemma decode_setjmp_ok:
  assumes "extends U W lo D D' V" and "fst ` set as \<subseteq> U \<union> V"
    and "set_option d \<subseteq> W"
  shows "step_ok U W lo D (snd (decode_setjmp d as D'))"
proof (cases as)
  case Nil
  then show ?thesis using assms(1) by (auto simp: decode_setjmp_def intro: step_okI)
next
  case (Cons x xs)
  obtain buf m where x: "x = (buf, m)" by fastforce
  show ?thesis
  proof (cases d)
    case None
    obtain r D1 where t: "temp MtI32 D' = (r, D1)" by fastforce
    from extends_temp [OF assms(1) t] have e: "extends U W lo D D1 V" "r \<in> {lo..<dc_next_reg D1}" by auto
    have "extends U W lo D (emit (OCtl (CtSetJmp r buf)) (set_mt r MtI32 D1)) V"
      by (rule extends_emit_keep) (use e assms(2) in \<open>auto simp: Cons x\<close>)
    then show ?thesis by (auto simp: decode_setjmp_def Cons x None t intro: step_okI)
  next
    case (Some r)
    have "extends U W lo D (emit (OCtl (CtSetJmp r buf)) (set_mt r MtI32 D')) V"
      by (rule extends_emit_keep) (use assms in \<open>auto simp: Cons x Some\<close>)
    then show ?thesis by (auto simp: decode_setjmp_def Cons x Some intro: step_okI)
  qed
qed

lemma math_intrinsic_ok:
  assumes "extends U W lo D D' V" and "fst ` set as \<subseteq> U \<union> V" and "set_option d \<subseteq> W"
    and "math_intrinsic k d as D' = Some D''"
  shows "step_ok U W lo D D''"
proof -
  from assms(4) obtain arg m where as: "as = [(arg, m)]"
    by (auto simp: math_intrinsic_def split: list.splits prod.splits)
  let ?c = "if mt_is_float m then None else Some (CvSToF m MtF64)"
  obtain a D1 where c: "coerce arg ?c D' = (a, D1)" by fastforce
  let ?am = "reg_mt D1 a" let ?rm = "if k = InSqrt \<or> k = InAbs then ?am else MtI32"
  obtain r D2 where r: "(case d of Some r \<Rightarrow> (r, D1) | None \<Rightarrow> temp ?rm D1) = (r, D2)" by fastforce
  have D'': "D'' = emit_reg (RMath r k a ?am) (set_mt r ?rm D2)"
    using assms(4) r by (auto simp: as math_intrinsic_def Let_def c split: if_splits option.splits)
  have e1: "extends U W lo D D1 (V \<union> {a})"
    by (rule extends_coerce [OF assms(1) _ c]) (use assms(2) in \<open>auto simp: as\<close>)
  have e2: "extends U W lo D D2 (V \<union> {a}) \<and> r \<in> W \<union> {lo..<dc_next_reg D2}"
  proof (cases d)
    case None
    with r have "temp ?rm D1 = (r, D2)" by simp
    from extends_temp [OF e1 this] show ?thesis by auto
  next
    case (Some x)
    with r e1 assms(3) show ?thesis by auto
  qed
  show ?thesis unfolding D''
    by (rule step_okI, rule extends_emit_keep [of _ _ _ _ _ "V \<union> {a}"]) (use e2 in auto)
qed

lemma intrinsic_ok:
  assumes "extends U W lo D D' V" and "fst ` set as \<subseteq> U \<union> V" and "set_option d \<subseteq> W"
    and "intrinsic nm d as D' = Some D''"
  shows "step_ok U W lo D D''"
proof (cases "intrinsic_kind nm")
  case (Some k)
  with assms show ?thesis by (auto simp: intrinsic_def intro: math_intrinsic_ok)
next
  case None
  have mv: "step_ok U W lo D (move_conv r arg c (set_mt r m D'))" if "d = Some r" "arg \<in> U \<union> V" for r arg c m
    by (rule step_okI, rule extends_move_conv [of _ _ _ _ _ V]) (use that assms(1,3) in auto)
  have em: "step_ok U W lo D (emit_mem q (set_mt r m D'))"
    if "d = Some r" "mem_reads q \<subseteq> U \<union> V" "mem_dest q = Some r" for r q m
    by (rule step_okI, rule extends_emit_keep [of _ _ _ _ _ V]) (use that assms(1,3) in auto)
  show ?thesis
    using assms(4) None assms(1,2)
    by (auto simp: intrinsic_def std_int_intrinsic_def Let_def
        split: if_splits list.splits prod.splits option.splits intro: step_okI mv em)
qed

lemma call_extern_ok:
  assumes "set as \<subseteq> U" and "set_option d \<subseteq> W" and "lo \<le> dc_next_reg D"
  shows "step_ok U W lo D (snd (call_extern cx ext d as D))"
proof -
  let ?c = "sig_calling_convention (ext_signature ext) = CcC \<and> \<not> cx_windows cx"
  obtain rs D1 where 1: "coerce_args (extern_arg_conv ?c (ext_signature ext)) 0 as D = (rs, D1)"
    by fastforce
  have "extends U W lo D D {}" by (rule extends_refl [OF assms(3)]) simp
  from extends_coerce_args [OF this _ 1] assms(1)
  have e: "extends U W lo D D1 (fst ` set rs)" by auto
  have d': "set_option d \<subseteq> W \<union> {lo..<dc_next_reg D1}" using assms(2) by auto
  have i: "intrinsic nm d rs D1 = Some D2 \<Longrightarrow> step_ok U W lo D D2" for nm D2
    by (rule intrinsic_ok [OF e _ assms(2)]) auto
  show ?thesis
    by (auto simp: call_extern_def Let_def 1 args_reads_pad split: option.splits sum.splits
        intro!: decode_setjmp_ok [OF e _ assms(2)] step_okI [OF extends_emit_call [OF e _ d']] dest!: i
        intro: step_okI [OF e])
qed

lemma finish_call_ok:
  assumes "extends U W lo D D' V" and "args_reads as \<subseteq> U \<union> V" and "set_option d \<subseteq> W"
  shows "step_ok U W lo D (finish_call cx f tg as d D')"
proof -
  note [simp] = Let_def finish_call_def
  have d': "set_option d \<subseteq> W \<union> {lo..<dc_next_reg D'}" for D' using assms(3) by auto
  consider "sig_return_type (fn_signature f) = TyVoid"
    | "sig_return_type (fn_signature f) \<noteq> TyVoid" "sig_uses_sret (fn_signature f) \<and> \<not> is_extern f"
    | "sig_return_type (fn_signature f) \<noteq> TyVoid" "\<not> (sig_uses_sret (fn_signature f) \<and> \<not> is_extern f)"
    by blast
  then show ?thesis
  proof cases
    case 1
    have e: "extends U W lo D (emit_call cx tg as None None None D') V"
      by (rule extends_emit_call) (use assms in auto)
    have "step_ok U W lo D (emit_reg (RConst r b) (set_mt r m (emit_call cx tg as None None None D')))"
      if "d = Some r" for r b m
      by (rule step_okI, rule extends_emit_keep [of _ _ _ _ _ V]) (use that assms(3) e in auto)
    with 1 step_okI [OF e] show ?thesis by (auto split: option.splits)
  next
    case 2
    let ?n = "max (struct_size (sig_return_type (fn_signature f))) 8"
    obtain off D1 where s: "slot ?n D' = (off, D1)" by fastforce
    have "extends U W lo D D1 V" by (rule extends_slot [OF assms(1) s])
    then have "step_ok U W lo D (emit_call cx tg (as[0 := (SrcSlot off, MtI64)]) None
        (Some (off, ?n mod 2 ^ 32)) d D1)"
      by (intro step_okI, intro extends_emit_call) (use assms(2) args_reads_slot d' in blast)+
    with 2 show ?thesis by (auto simp: s)
  next
    case 3
    have n: "step_ok U W lo D (emit_call cx tg as ret None x D')" if "set_option x \<subseteq> W" for ret x
      by (rule step_okI, rule extends_emit_call [OF assms(1,2)]) (use that in auto)
    have c: "step_ok U W lo D (emit_reg (RConv r raw c) (set_mt r m (emit_call cx tg as ret None (Some raw) D1)))"
      if "d = Some r" "temp m' D' = (raw, D1)" for r c m ret raw D1 m'
    proof -
      from extends_temp [OF assms(1) that(2)] have t: "extends U W lo D D1 V" "raw \<in> {lo..<dc_next_reg D1}"
        by auto
      have "extends U W lo D (emit_call cx tg as ret None (Some raw) D1) (V \<union> {raw})"
        by (rule extends_emit_call_dest) (use t assms(2) in auto)
      then have "extends U W lo D (emit_reg (RConv r raw c)
          (set_mt r m (emit_call cx tg as ret None (Some raw) D1))) (V \<union> {raw})"
        by (intro extends_emit_keep) (use that assms(3) in auto)
      then show ?thesis by (rule step_okI)
    qed
    show ?thesis
      using 3 assms(3) by (auto split: option.splits prod.splits intro!: n c)
  qed
qed

lemma call_function_ok:
  assumes "set as \<subseteq> U" and "set_option d \<subseteq> W" and "lo \<le> dc_next_reg D"
  shows "step_ok U W lo D (snd (call_function cx i f d as D))"
proof -
  obtain rs D1 where 1: "coerce_args (function_arg_conv cx f) 0 as D = (rs, D1)" by fastforce
  have "extends U W lo D D {}" by (rule extends_refl [OF assms(3)]) simp
  from extends_coerce_args [OF this _ 1] assms(1)
  have e: "extends U W lo D D1 (fst ` set rs)" by auto
  have i: "intrinsic nm d rs D1 = Some D2 \<Longrightarrow> step_ok U W lo D D2" for nm D2
    by (rule intrinsic_ok [OF e _ assms(2)]) auto
  show ?thesis
    by (auto simp: call_function_def Let_def 1 args_reads_pad args_reads_hidden
        split: option.splits sum.splits if_splits
        intro!: decode_setjmp_ok [OF e _ assms(2)] finish_call_ok [OF e _ assms(2)] dest!: i
        intro: step_okI [OF e])
qed

lemma call_direct_ok:
  assumes "set as \<subseteq> U" and "set_option d \<subseteq> W" and "lo \<le> dc_next_reg D"
  shows "step_ok U W lo D (snd (call_direct cx d i as D))"
  using call_extern_ok [OF assms] call_function_ok [OF assms] extends_refl [OF assms(3), of "{}" U W]
  by (auto simp: call_direct_def split: option.splits intro: step_okI)

lemma closure_call_ok:
  assumes "insert p (set as) \<subseteq> U" and "set_option d \<subseteq> W" and "lo \<le> dc_next_reg D"
  shows "step_ok U W lo D (closure_call cx d p as expected ret D)"
proof -
  let ?conv = "\<lambda>i from. indirect_arg_coercion from
      (case nth_opt expected i of Some m \<Rightarrow> m | None \<Rightarrow> from)"
  have refl: "extends U W lo D D {}" by (rule extends_refl [OF assms(3)]) simp
  obtain rs D1 where 1: "coerce_args ?conv 0 as D = (rs, D1)" by fastforce
  from extends_coerce_args [OF refl _ 1] assms(1)
  have e: "extends U W lo D D1 (fst ` set rs)" by auto
  have c: "extends U W lo D (emit (OCtl (CtCallIndirect c)) D') (fst ` set rs)"
    if "extends U W lo D D' (fst ` set rs)" "ic_args c = rs" "ic_closure c = p" "set_option (ic_dest c) \<subseteq> W"
    for c D'
    by (rule extends_emit_keep [OF that(1)]) (use that assms(1) in auto)
  have k: "extends U W lo D (emit_reg (RConst r b) D') (fst ` set rs)"
    if "extends U W lo D D' (fst ` set rs)" "r \<in> W" for r b D'
    by (rule extends_emit_keep [OF that(1)]) (use that in auto)
  show ?thesis using assms(2)
    by (cases d; cases ret) (auto simp: closure_call_def 1 Let_def intro!: step_okI c k e)
qed

lemma call_indirect_ok:
  assumes "insert p (set as) \<subseteq> U" and "set_option d \<subseteq> W" and "lo \<le> dc_next_reg D"
  shows "step_ok U W lo D (snd (call_indirect_decode cx d p as sg D))"
  using closure_call_ok [OF assms] extends_refl [OF assms(3), of "{}" U W]
  unfolding call_indirect_decode_def by (auto split: IrType.split intro: step_okI)

section \<open>Every instruction\<close>

lemma store_fields_ok:
  "extends U W lo D D' V \<Longrightarrow> set fs \<subseteq> U \<union> V \<Longrightarrow> d \<in> U \<union> V \<Longrightarrow>
     extends U W lo D (store_fields d fs ls D') V"
proof (induction d fs ls D' rule: store_fields.induct)
  case (1 d f fs off m s ls D')
  have "extends U W lo D (emit_mem (MStore (reg_mt D' f) d f off) D') V"
    by (rule extends_emit_keep) (use "1.prems" in auto)
  with 1 show ?case by simp
qed auto

lemma copy_ok:
  assumes "s \<in> U" and "d \<in> W" and "lo \<le> dc_next_reg D"
  shows "step_ok U W lo D (decode_copy d s D)"
proof -
  have "extends U W lo D D {}" by (rule extends_refl [OF assms(3)]) simp
  then show ?thesis
    unfolding decode_copy_def Let_def
    by (auto split: option.splits intro!: extends_emit_ok [of _ _ _ _ _ "{}"] simp: assms)
qed

lemma conversion_ok:
  assumes "s \<in> U" and "d \<in> W" and "lo \<le> dc_next_reg D"
  shows "step_ok U W lo D (snd (decode_conversion d s t conv D))"
proof -
  have e: "extends U W lo D D {}" by (rule extends_refl [OF assms(3)]) simp
  have "step_ok U W lo D (move_conv d s c (set_mt d m D))" for c m
    by (rule step_okI, rule extends_move_conv [of _ _ _ _ _ "{}"]) (use e assms in auto)
  with e show ?thesis
    by (auto simp: decode_conversion_def split: sum.splits intro: step_okI)
qed

text \<open>The contract, for an instruction without a destination written through.\<close>

lemma value_inst_ok:
  assumes "\<not> cx_fma cx" and "set (uses (ValueI i)) \<subseteq> U" and "set_option (dest (ValueI i)) \<subseteq> W"
    and "lo \<le> dc_next_reg D"
  shows "step_ok U W lo D (snd (decode_value_inst cx i D))"
proof -
  have e: "extends U W lo D D {}" by (rule extends_refl [OF assms(4)]) simp
  have em: "step_ok U W lo D (emit_mem q (set_mt r m D))"
    if "mem_reads q \<subseteq> U" "set_option (mem_dest q) \<subseteq> W" for q r m
    by (rule extends_emit_ok [of _ _ _ _ _ "{}"]) (use that e in auto)
  have em': "step_ok U W lo D (emit_mem q D)"
    if "mem_reads q \<subseteq> U" "set_option (mem_dest q) \<subseteq> W" for q
    by (rule extends_emit_ok [of _ _ _ _ _ "{}"]) (use that e in auto)
  have er: "step_ok U W lo D (emit_reg (RConst d b) (set_mt r m D'))"
    if "d \<in> W" "D' = D \<or> (\<exists>x. D' = D\<lparr>dc_consts := x\<rparr>)" for d b r m D'
    by (rule extends_emit_ok [of _ _ _ _ _ "{}"]) (use that e in auto)
  note c = copy_ok [OF _ _ assms(4)]
  show ?thesis
  proof (cases i)
    case (KConst d v)
    then have d: "d \<in> W" using assms(3) by simp
    show ?thesis
      using e d unfolding KConst
      by (cases v) (auto simp: Let_def split: sum.splits FnRef.splits prod.splits
          intro!: em er intro: step_okI)
  next
    case (KBinOp d op l r)
    with assms show ?thesis by (auto intro!: decode_binop_ok)
  next
    case (KUnOp d op x)
    with assms show ?thesis by (auto intro!: decode_unop_ok)
  next
    case (KCmp d op l r)
    with assms show ?thesis by (auto intro!: decode_cmp_ok)
  next
    case (KStore p v sty)
    obtain r D1 where co: "coerce v (Some (CvSext (reg_mt D v) MtI64)) D = (r, D1)" by fastforce
    have v: "v \<in> U" "p \<in> U" using assms(2) by (auto simp: KStore)
    have "extends U W lo D D1 ({} \<union> {r})" by (rule extends_coerce [OF e _ co]) (use v in auto)
    then have "step_ok U W lo D (emit_mem (MStore MtI64 p r 0) D1)"
      by (rule extends_emit_ok) (use v in auto)
    with v show ?thesis
      by (auto simp: KStore decode_store_def Let_def co intro!: em')
  qed (use assms e in \<open>auto simp: with_result_def split: sum.splits
      intro!: c em em' intro: step_okI\<close>)
qed

lemma control_inst_ok:
  assumes "set (uses (ControlI i)) \<subseteq> U" and "set_option (dest (ControlI i)) \<subseteq> W"
    and "lo \<le> dc_next_reg D"
  shows "step_ok U W lo D (snd (decode_control_inst cx i D))"
proof -
  have e: "step_ok U W lo D D" by (rule step_okI, rule extends_refl [OF assms(3), of "{}"]) simp
  show ?thesis
  proof (cases i)
    case (KCallDirect d f as own ta tc)
    obtain x D1 where 1: "call_direct cx d f as D = (x, D1)" by fastforce
    have s: "step_ok U W lo D D1"
      using call_direct_ok [of as U d W lo D cx f] assms 1 by (simp add: KCallDirect)
    then obtain V where "extends U W lo D D1 V" by (auto simp: step_ok_def)
    then have "step_ok U W lo D (emit (OCtl CtHandlerPopped) D1)" by (rule extends_emit_ok) auto
    with s show ?thesis by (auto simp: KCallDirect 1 split: sum.splits)
  next
    case (KCallIndirect d p as sg own tc)
    with assms show ?thesis by (auto intro!: call_indirect_ok)
  qed (use e in auto)
qed

lemma memory_inst_ok:
  assumes "set (uses (MemoryI i)) \<subseteq> U" and "set_option (dest (MemoryI i)) \<subseteq> W"
    and "lo \<le> dc_next_reg D"
  shows "step_ok U W lo D (snd (decode_memory_inst cx i D))"
proof -
  have e: "extends U W lo D D {}" by (rule extends_refl [OF assms(3)]) simp
  have em: "step_ok U W lo D (emit_mem q (set_mt r m D))"
    if "mem_reads q \<subseteq> U" "set_option (mem_dest q) \<subseteq> W" for q r m
    by (rule extends_emit_ok [of _ _ _ _ _ "{}"]) (use that e in auto)
  have em': "step_ok U W lo D (emit_mem q D)"
    if "mem_reads q \<subseteq> U" "set_option (mem_dest q) \<subseteq> W" for q
    by (rule extends_emit_ok [of _ _ _ _ _ "{}"]) (use that e in auto)
  have er: "step_ok U W lo D (emit_reg q (set_mt r m D))"
    if "reg_reads q \<subseteq> U" "reg_dest q \<in> W" for q r m
    by (rule extends_emit_ok [of _ _ _ _ _ "{}"]) (use that e in auto)
  show ?thesis
  proof (cases i)
    case (KAlloc d t c)
    obtain off D1 where s: "slot (alloc_bytes t c D) D = (off, D1)" by fastforce
    have "extends U W lo D D1 {}" by (rule extends_slot [OF e s])
    then have "step_ok U W lo D (emit_reg (RSlotAddr d off) (set_mt d MtI64 D1))"
      by (intro extends_emit_ok [of _ _ _ _ _ "{}"]) (use assms(2) in \<open>auto simp: KAlloc\<close>)
    then show ?thesis by (simp add: KAlloc decode_alloc_def s)
  qed (use assms e in \<open>auto simp: with_result_def decode_addr_def Let_def
      split: sum.splits list.splits IrType.splits
      intro!: em em' er conversion_ok [OF _ _ assms(3)] intro: step_okI\<close>)
qed

lemma aggregate_inst_ok:
  assumes "set (uses (AggregateI i)) \<subseteq> U" and "set_option (dest (AggregateI i)) \<subseteq> W"
    and "lo \<le> dc_next_reg D"
  shows "step_ok U W lo D (snd (decode_aggregate_inst cx i D))"
proof -
  have e: "extends U W lo D D {}" by (rule extends_refl [OF assms(3)]) simp
  have em: "step_ok U W lo D (emit_mem q (set_mt r m D))"
    if "mem_reads q \<subseteq> U" "set_option (mem_dest q) \<subseteq> W" for q r m
    by (rule extends_emit_ok [of _ _ _ _ _ "{}"]) (use that e in auto)
  have er: "step_ok U W lo D (emit_reg q (set_mt r m D))"
    if "reg_reads q \<subseteq> U" "reg_dest q \<in> W" for q r m
    by (rule extends_emit_ok [of _ _ _ _ _ "{}"]) (use that e in auto)
  show ?thesis
  proof (cases i)
    case (KMakeClosure d f cs)
    obtain rs D1 where 1: "coerce_args capture_conv 0 cs D = (rs, D1)" by fastforce
    from extends_coerce_args [OF e _ 1] assms(1)
    have "extends U W lo D D1 (fst ` set rs)" by (auto simp: KMakeClosure)
    then have "step_ok U W lo D (emit_mem (MClosure d r rs) (set_mt d MtI64 D1))" for r
      by (intro extends_emit_ok [of _ _ _ _ _ "fst ` set rs"]) (use assms(2) in \<open>auto simp: KMakeClosure\<close>)
    with e show ?thesis
      by (auto simp: KMakeClosure make_closure_decode_def 1 split: sum.splits intro: step_okI)
  next
    case (KCreateUnion d tag v t)
    obtain off D1 where s: "slot 16 D = (off, D1)" by fastforce
    obtain r D2 where t: "temp MtI32 (set_mt d MtI64 D1) = (r, D2)" by fastforce
    have "extends U W lo D (set_mt d MtI64 D1) {}" using extends_slot [OF e s] by simp
    from extends_temp [OF this t] have e2: "extends U W lo D D2 {}" "r \<in> {lo..<dc_next_reg D2}" by auto
    have dv: "d \<in> W" "v \<in> U" using assms by (auto simp: KCreateUnion)
    have "extends U W lo D (emit_reg (RSlotAddr d off) D2) ({} \<union> set_option (op_dest (OReg (RSlotAddr d off))))"
      by (rule extends_emit [OF e2(1)]) (use dv in auto)
    then have "extends U W lo D (emit_reg (RSlotAddr d off) D2) {d}" by simp
    then have "extends U W lo D (emit_reg (RConst r (word_of_nat tag)) (emit_reg (RSlotAddr d off) D2))
        ({d} \<union> set_option (op_dest (OReg (RConst r (word_of_nat tag)))))"
      by (rule extends_emit) (use e2 in auto)
    then have e3: "extends U W lo D (emit_reg (RConst r (word_of_nat tag)) (emit_reg (RSlotAddr d off) D2))
        {d, r}" by (rule extends_more) auto
    then have "extends U W lo D (emit_mem (MStore MtI32 d r 0)
        (emit_reg (RConst r (word_of_nat tag)) (emit_reg (RSlotAddr d off) D2))) {d, r}"
      by (rule extends_emit_keep) auto
    then have "step_ok U W lo D (emit_mem (MStore m d v 8) (emit_mem (MStore MtI32 d r 0)
        (emit_reg (RConst r (word_of_nat tag)) (emit_reg (RSlotAddr d off) D2))))" for m
      by (rule extends_emit_ok) (use dv in auto)
    then show ?thesis by (simp add: KCreateUnion create_union_def s t Let_def)
  next
    case (KCreateStruct d t fs)
    show ?thesis
    proof (cases "struct_layout t")
      case None
      with e show ?thesis by (auto simp: KCreateStruct create_struct_def intro: step_okI)
    next
      case (Some l)
      obtain off D1 where s: "slot (layout_size l) D = (off, D1)" by fastforce
      have "extends U W lo D (set_mt d MtI64 D1) {}" using extends_slot [OF e s] by simp
      then have "extends U W lo D (emit_reg (RSlotAddr d off) (set_mt d MtI64 D1))
          ({} \<union> set_option (op_dest (OReg (RSlotAddr d off))))"
        by (rule extends_emit) (use assms(2) in \<open>auto simp: KCreateStruct\<close>)
      then have "extends U W lo D (store_fields d fs l (emit_reg (RSlotAddr d off) (set_mt d MtI64 D1)))
          ({} \<union> set_option (op_dest (OReg (RSlotAddr d off))))"
        by (rule store_fields_ok) (use assms(1) in \<open>auto simp: KCreateStruct\<close>)
      then show ?thesis by (auto simp: KCreateStruct create_struct_def Some s intro: step_okI)
    qed
  qed (use assms e in \<open>auto simp: extract_value_def split: sum.splits list.splits prod.splits
      intro!: em er copy_ok [OF _ _ assms(3)] intro: step_okI\<close>)
qed

lemma vector_inst_ok:
  assumes "lo \<le> dc_next_reg D"
  shows "step_ok U W lo D (snd (decode_vector_inst i D))"
proof -
  have e: "extends U W lo D D {}" by (rule extends_refl [OF assms]) simp
  show ?thesis
    using e by (auto simp: decode_vector_inst_def split: option.splits
        intro!: extends_emit_ok [of _ _ _ _ _ "{}"])
qed

lemma atomic_inst_ok:
  assumes "set (uses (AtomicI i)) \<subseteq> U" and "set_option (dest (AtomicI i)) \<subseteq> W"
    and "lo \<le> dc_next_reg D"
  shows "step_ok U W lo D (snd (decode_atomic_inst i D))"
proof -
  have e: "extends U W lo D D {}" by (rule extends_refl [OF assms(3)]) simp
  have em: "step_ok U W lo D (emit_mem q (set_mt r m D))"
    if "mem_reads q \<subseteq> U" "set_option (mem_dest q) \<subseteq> W" for q r m
    by (rule extends_emit_ok [of _ _ _ _ _ "{}"]) (use that e in auto)
  have em': "step_ok U W lo D (emit_mem q D)"
    if "mem_reads q \<subseteq> U" "set_option (mem_dest q) \<subseteq> W" for q
    by (rule extends_emit_ok [of _ _ _ _ _ "{}"]) (use that e in auto)
  show ?thesis
    by (cases i) (use assms e in \<open>auto simp: with_result_def split: sum.splits
        intro!: em em' intro: step_okI\<close>)
qed

lemma decode_instruction_ok:
  assumes "\<not> cx_fma cx" and "set (uses i) \<subseteq> U" and "set_option (dest i) \<subseteq> W"
    and "lo \<le> dc_next_reg D"
  shows "step_ok U W lo D (decode_instruction cx i D)"
proof -
  have s: "step_ok U W lo D (snd (try_instruction cx i D))"
    using assms
    by (cases i) (auto intro!: value_inst_ok control_inst_ok memory_inst_ok aggregate_inst_ok
        vector_inst_ok atomic_inst_ok)
  then obtain V where V: "extends U W lo D (snd (try_instruction cx i D)) V"
    by (auto simp: step_ok_def)
  show ?thesis
  proof (cases "try_instruction cx i D")
    case (Pair r D1)
    then have e: "extends U W lo D (set_mt d m D1) V" "extends U W lo D D1 V" for d m
      using V by simp_all
    show ?thesis
      using s Pair
      by (auto simp: decode_instruction_def Let_def split: sum.splits option.splits
          intro!: extends_emit_ok [OF e(1)] extends_emit_ok [OF e(2)])
  qed
qed

text \<open>The same, for the operations one instruction adds.\<close>

lemma decode_instruction_ops:
  assumes "\<not> cx_fma cx" and "dc_ops D = []"
  shows "reads_ok (set (uses i)) (dc_ops (decode_instruction cx i D)) \<and>
         op_dests (dc_ops (decode_instruction cx i D)) \<subseteq>
           set_option (dest i) \<union> {dc_next_reg D..<dc_next_reg (decode_instruction cx i D)}"
  using decode_instruction_ok [OF assms(1) subset_refl subset_refl order_refl, of i D] assms(2)
  by (auto simp: step_ok_def extends_def)

end
