(* ===== verification/MirInterp.thy ===== *)
theory MirInterp
  imports MirSem MirFrame
begin

text \<open>
  The interpreter as the meaning of MIR: an instruction means the operations the decoder gives
  it, run in its frame. The types of registers, and the numbers of temporaries, are those of a
  decoder state it is decoded in, \<open>D i\<close>; those at edges and returns, of a state \<open>E\<close>. The contract of \<open>mir_sem\<close> is discharged by
  the frame lemmas of the decoder, so the passes keep every run of the interpreter.
\<close>

section \<open>One instruction\<close>

text \<open>
  The operations of an instruction, from the decoder state in which the decoder meets it: its
  temporaries and stack slots are its own. Without \<open>RAYZOR_FMA\<close>, the default.
\<close>

type_synonym decode_states = "IrInstruction \<Rightarrow> Dec"

definition inst_ops :: "DecodeCtx \<Rightarrow> decode_states \<Rightarrow> IrInstruction \<Rightarrow> Op list" where
  "inst_ops cx D i =
     dc_ops (decode_instruction (cx\<lparr>cx_fma := False\<rparr>) i ((D i)\<lparr>dc_ops := []\<rparr>))"

definition inst_result :: "(Frame \<times> 'x World) \<Rightarrow> IrInstruction \<Rightarrow> Op list \<Rightarrow> (Frame \<times> 'x World)
    \<Rightarrow> u64 option \<times> (Frame \<times> 'x World)" where
  "inst_result s i ops s' =
     ((case dest i of Some d \<Rightarrow> if d \<in> op_dests ops then Some (fr_regs (fst s') d) else None
       | None \<Rightarrow> None),
      ((fst s')\<lparr>fr_regs := fr_regs (fst s)\<rparr>, snd s'))"

definition inst_exec ::
  "nat \<Rightarrow> 'x Runtime \<Rightarrow> DecodeCtx \<Rightarrow> decode_states \<Rightarrow> IrInstruction \<Rightarrow> (IrId \<Rightarrow> u64) \<Rightarrow> Frame \<times> 'x World
    \<Rightarrow> op_stop + (u64 option \<times> (Frame \<times> 'x World))" where
  "inst_exec N rt cx D i R s =
     rbind (run_ops N rt (inst_ops cx D i) ((fst s)\<lparr>fr_regs := R\<rparr>, snd s))
       (\<lambda>s'. Inr (inst_result s i (inst_ops cx D i) s'))"

text \<open>Operations that change nothing but their register.\<close>

fun pure_op :: "Op \<Rightarrow> bool" where
  "pure_op (OReg q) = True"
| "pure_op (OMem (MLoad d m p off)) = True"
| "pure_op (OMem (MArrayHeader d a off g)) = True"
| "pure_op (OMem (MArrayGetPtr d a i m)) = True"
| "pure_op (OMem (MGlobalLoad d m (GsAddress a))) = True"
| "pure_op (OMem (MFnAddr d md fn)) = True"
| "pure_op (OMem (MCheckLive s nm line)) = True"
| "pure_op op = False"

definition inst_pure :: "DecodeCtx \<Rightarrow> decode_states \<Rightarrow> IrInstruction \<Rightarrow> bool" where
  "inst_pure cx D i = list_all pure_op (inst_ops cx D i)"

section \<open>Edges and returns\<close>

definition nonzero :: "u64 \<Rightarrow> bool" where
  "nonzero v = (v \<noteq> 0)"

definition interp_switch :: "Dec \<Rightarrow> IrId \<Rightarrow> u64 \<Rightarrow> u64" where
  "interp_switch D r v = sext v (reg_mt D r)"

definition map_error :: "InterpError + 'a \<Rightarrow> op_stop + 'a" where
  "map_error r = (case r of Inl e \<Rightarrow> Inl (OpError e) | Inr a \<Rightarrow> Inr a)"

definition interp_phi :: "Dec \<Rightarrow> IrType \<Rightarrow> IrId \<Rightarrow> u64 \<Rightarrow> op_stop + u64" where
  "interp_phi D t r v =
     (let (c1, c2) = phi_coercion (reg_mt D r) (mt_phi t) in map_error (convert v c1 c2))"

definition interp_trap :: "IrTerminator \<Rightarrow> op_stop" where
  "interp_trap t =
     OpError (Fault (case t of TUnreachable \<Rightarrow> TrapUnreachable | TNoReturn c \<Rightarrow> TrapNoReturn
                     | TBranch i \<Rightarrow> TrapTerm (DeNoBlock i) | _ \<Rightarrow> TrapTerm DeMissingReturn))"

definition finish_return ::
  "Frame \<times> 'x World \<Rightarrow> 'x Runtime \<Rightarrow> Term \<Rightarrow> Frame \<times> 'x World
    \<Rightarrow> op_stop + (u64 \<times> (Frame \<times> 'x World))" where
  "finish_return s rt tm s' =
     (case exec_term rt tm (fst s') (snd s') of
        Inl e \<Rightarrow> Inl (OpError e)
      | Inr (TaReturn v w) \<Rightarrow> Inr (v, ((fst s')\<lparr>fr_regs := fr_regs (fst s)\<rparr>, w))
      | Inr (TaGoto fr) \<Rightarrow> Inl OpStuck)"

definition interp_return ::
  "nat \<Rightarrow> 'x Runtime \<Rightarrow> DecodeCtx \<Rightarrow> Dec \<Rightarrow> IrId option \<Rightarrow> (IrId \<Rightarrow> u64) \<Rightarrow> Frame \<times> 'x World
    \<Rightarrow> op_stop + (u64 \<times> (Frame \<times> 'x World))" where
  "interp_return N rt cx D r R s =
     (case decode_return cx r (D\<lparr>dc_ops := []\<rparr>) of
        (Inl e, D1) \<Rightarrow> Inl (OpError (Fault (TrapTerm e)))
      | (Inr tm, D1) \<Rightarrow>
          rbind (run_ops N rt (dc_ops D1) ((fst s)\<lparr>fr_regs := R\<rparr>, snd s)) (finish_return s rt tm))"

definition const_word :: "IrValue \<Rightarrow> u64 option" where
  "const_word c = map_option snd (const_bits c)"

section \<open>The contract\<close>

lemma inst_ops_reads: "reads_ok (set (uses i)) (inst_ops cx D i)"
  using decode_instruction_ops [of "cx\<lparr>cx_fma := False\<rparr>" "(D i)\<lparr>dc_ops := []\<rparr>" i]
  by (simp add: inst_ops_def)

lemma graft_regs:
  "(graft X R fr)\<lparr>fr_regs := S\<rparr> = fr\<lparr>fr_regs := S\<rparr>"
  "x \<in> X \<Longrightarrow> fr_regs (graft X R fr) x = fr_regs fr x"
  by (simp_all add: graft_def)

lemma inst_exec_uses:
  assumes "\<And>u. u \<in> set (uses i) \<Longrightarrow> R u = S u"
  shows "inst_exec N rt cx D i R s = inst_exec N rt cx D i S s"
proof -
  let ?ops = "inst_ops cx D i"
  have "run_ops N rt ?ops (((fst s)\<lparr>fr_regs := R\<rparr>)\<lparr>fr_regs := S\<rparr>, snd s) =
      graft_result (op_dests ?ops) S (run_ops N rt ?ops ((fst s)\<lparr>fr_regs := R\<rparr>, snd s))"
    by (rule run_ops_graft [OF inst_ops_reads]) (simp add: assms)
  then show ?thesis
    by (cases "run_ops N rt ?ops ((fst s)\<lparr>fr_regs := R\<rparr>, snd s)")
       (auto simp: inst_exec_def inst_result_def graft_regs split: option.splits)
qed

lemma to_reg_Inr:
  "to_reg d fr r = Inr (fr', w') \<Longrightarrow> \<exists>v. r = Inr (v, w') \<and> fr' = set_reg d v fr"
  by (cases r) (auto simp: to_reg_def)

lemma value_only_Inr: "value_only w r = Inr (v, w') \<Longrightarrow> w' = w"
  by (cases r) (auto simp: value_only_def)

lemma set_reg_regs: "\<exists>R'. set_reg d v fr = fr\<lparr>fr_regs := R'\<rparr>"
  by (auto simp: set_reg_def)

lemma run_op_pure:
  assumes "pure_op op" and "run_op N rt op (fr, w) = Inr (fr', w')"
  shows "w' = w \<and> (\<exists>R'. fr' = fr\<lparr>fr_regs := R'\<rparr>)"
proof (cases op)
  case (OReg q)
  then show ?thesis using assms(2) set_reg_regs
    by (auto simp: run_op_def exec_op_def exec_reg_def rbind_Inr_iff split: sum.splits Action.splits)
next
  case (OMem q)
  have "exec_mem rt q fr w = Inr (fr', w')"
    using assms(2) by (cases "exec_mem rt q fr w") (auto simp: OMem run_op_def exec_op_def)
  moreover have "\<exists>R'. fr = fr\<lparr>fr_regs := R'\<rparr>" by (rule exI [of _ "fr_regs fr"]) simp
  ultimately show ?thesis
    using assms(1) set_reg_regs
    by (cases op rule: pure_op.cases)
       (auto simp: OMem global_load_def rbind_Inr_iff dest!: to_reg_Inr value_only_Inr split: if_splits)
next
  case (OCtl q)
  with assms(1) show ?thesis by simp
qed

lemma run_ops_pure:
  "list_all pure_op ops \<Longrightarrow> run_ops N rt ops s = Inr s' \<Longrightarrow>
     snd s' = snd s \<and> (\<exists>R'. fst s' = (fst s)\<lparr>fr_regs := R'\<rparr>)"
proof (induction ops arbitrary: s)
  case Nil
  then show ?case by (auto intro: exI [of _ "fr_regs (fst s)"])
next
  case (Cons op ops)
  obtain fr w where s: "s = (fr, w)" by fastforce
  from Cons.prems obtain fr1 w1 where 1: "run_op N rt op (fr, w) = Inr (fr1, w1)"
    and 2: "run_ops N rt ops (fr1, w1) = Inr s'"
    by (auto simp: s rbind_Inr_iff)
  have "w1 = w" "\<exists>R'. fr1 = fr\<lparr>fr_regs := R'\<rparr>" using run_op_pure [OF _ 1] Cons.prems(1) by auto
  moreover have "snd s' = w1" "\<exists>R'. fst s' = fr1\<lparr>fr_regs := R'\<rparr>"
    using Cons.IH [OF _ 2] Cons.prems(1) by auto
  ultimately show ?case by (auto simp: s)
qed

lemma inst_exec_pure:
  assumes "inst_pure cx D i" and "inst_exec N rt cx D i R s = Inr (v, s')"
  shows "s' = s"
proof -
  from assms(2) obtain t where run: "run_ops N rt (inst_ops cx D i) ((fst s)\<lparr>fr_regs := R\<rparr>, snd s) = Inr t"
    and s': "s' = ((fst t)\<lparr>fr_regs := fr_regs (fst s)\<rparr>, snd t)"
    by (auto simp: inst_exec_def inst_result_def rbind_Inr_iff)
  from run_ops_pure [OF _ run] assms(1) obtain R' where
    "snd t = snd s" "fst t = ((fst s)\<lparr>fr_regs := R\<rparr>)\<lparr>fr_regs := R'\<rparr>"
    by (auto simp: inst_pure_def)
  then show ?thesis using s' by (cases s) simp
qed

lemma coerce_ops:
  assumes "dc_ops D = []" and "coerce r c D = (r', D')"
  shows "reads_ok {r} (dc_ops D') \<and> r' \<in> {r} \<union> op_dests (dc_ops D')"
proof -
  have "extends {r} {} (dc_next_reg D) D D {}" by (rule extends_refl) auto
  from extends_coerce [OF this _ assms(2)] assms(1) show ?thesis by (auto simp: extends_def)
qed

lemma exec_term_return:
  assumes "fr_regs gr r = fr_regs fr r" and "gr = fr\<lparr>fr_regs := fr_regs gr\<rparr>"
  shows "finish_return s rt (TmReturn (Some r)) (gr, w) = finish_return s rt (TmReturn (Some r)) (fr, w)"
    "finish_return s rt (TmReturnSret r fs) (gr, w) = finish_return s rt (TmReturnSret r fs) (fr, w)"
    "finish_return s rt (TmReturn None) (gr, w) = finish_return s rt (TmReturn None) (fr, w)"
proof -
  have f: "fr_sret gr = fr_sret fr" "gr\<lparr>fr_regs := X\<rparr> = fr\<lparr>fr_regs := X\<rparr>" for X
    by (subst assms(2), simp)+
  show "finish_return s rt (TmReturn (Some r)) (gr, w) = finish_return s rt (TmReturn (Some r)) (fr, w)"
    "finish_return s rt (TmReturnSret r fs) (gr, w) = finish_return s rt (TmReturnSret r fs) (fr, w)"
    "finish_return s rt (TmReturn None) (gr, w) = finish_return s rt (TmReturn None) (fr, w)"
    by (simp_all add: finish_return_def f assms(1) rbind_def split: sum.splits)
qed

lemma interp_return_uses:
  assumes "\<And>u. r = Some u \<Longrightarrow> R u = S u"
  shows "interp_return N rt cx D r R s = interp_return N rt cx D r S s"
proof (cases r)
  case None
  then show ?thesis
    by (simp add: None interp_return_def decode_return_def finish_return_def Let_def)
next
  case (Some u)
  have RS: "R u = S u" using assms Some by simp
  let ?D = "D\<lparr>dc_ops := []\<rparr>"
  show ?thesis
  proof (cases "sig_uses_sret (fn_signature (cx_function cx))")
    case True
    have "finish_return s rt (TmReturnSret u fs) ((fst s)\<lparr>fr_regs := R\<rparr>, snd s) =
        finish_return s rt (TmReturnSret u fs) ((fst s)\<lparr>fr_regs := S\<rparr>, snd s)" for fs
      by (rule exec_term_return(2)) (simp_all add: RS)
    then show ?thesis
      by (auto simp: Some True interp_return_def decode_return_def split: sum.splits)
  next
    case False
    let ?c = "return_value_conv (reg_mt ?D u) (sig_return_type (fn_signature (cx_function cx)))"
    obtain u' D1 where c: "coerce u ?c ?D = (u', D1)" by fastforce
    from coerce_ops [OF _ c] have rd: "reads_ok {u} (dc_ops D1)" and u': "u' \<in> {u} \<union> op_dests (dc_ops D1)"
      by auto
    have g: "run_ops N rt (dc_ops D1) (((fst s)\<lparr>fr_regs := R\<rparr>)\<lparr>fr_regs := S\<rparr>, snd s) =
        graft_result (op_dests (dc_ops D1)) S (run_ops N rt (dc_ops D1) ((fst s)\<lparr>fr_regs := R\<rparr>, snd s))"
      by (rule run_ops_graft [OF rd]) (simp add: RS)
    have "finish_return s rt (TmReturn (Some u')) (graft (op_dests (dc_ops D1)) S fr, w) =
        finish_return s rt (TmReturn (Some u')) (fr, w)"
      if "run_ops N rt (dc_ops D1) ((fst s)\<lparr>fr_regs := R\<rparr>, snd s) = Inr (fr, w)" for fr w
    proof (rule exec_term_return(1))
      show "fr_regs (graft (op_dests (dc_ops D1)) S fr) u' = fr_regs fr u'"
        using u' run_ops_keeps [OF that, of u'] RS by (auto simp: graft_def)
    qed (simp add: graft_def)
    then show ?thesis
      using g by (cases "run_ops N rt (dc_ops D1) ((fst s)\<lparr>fr_regs := R\<rparr>, snd s)")
        (auto simp: Some False interp_return_def decode_return_def Let_def c)
  qed
qed

lemma inst_ops_const:
  "const_bits c = Some (m, b) \<Longrightarrow> inst_ops cx D (IConst d c) = [OReg (RConst d b)]"
  by (cases c) (auto simp: inst_ops_def decode_instruction_def emit_def set_mt_def)

lemma inst_exec_const:
  assumes "const_word c = Some x"
  shows "inst_exec N rt cx D (IConst d c) R s = Inr (Some x, s)"
proof -
  from assms obtain m where "const_bits c = Some (m, x)" by (auto simp: const_word_def)
  then show ?thesis
    by (cases s) (simp add: inst_exec_def inst_ops_const inst_result_def run_op_def exec_op_def
        exec_reg_def set_reg_def)
qed

definition interp_meaning ::
  "nat \<Rightarrow> 'x Runtime \<Rightarrow> DecodeCtx \<Rightarrow> decode_states \<Rightarrow> Dec
    \<Rightarrow> (u64, Frame \<times> 'x World, op_stop) mir_meaning" where
  "interp_meaning N rt cx D E =
     \<lparr>mm_inst = inst_exec N rt cx D, mm_cond = nonzero, mm_switch = interp_switch E,
      mm_phi = interp_phi E, mm_ret = interp_return N rt cx E, mm_trap = interp_trap,
      mm_const = const_word\<rparr>"

lemma interp_meaning_simps [simp]:
  "mm_inst (interp_meaning N rt cx D E) = inst_exec N rt cx D"
  "mm_cond (interp_meaning N rt cx D E) = nonzero"
  "mm_switch (interp_meaning N rt cx D E) = interp_switch E"
  "mm_phi (interp_meaning N rt cx D E) = interp_phi E"
  "mm_ret (interp_meaning N rt cx D E) = interp_return N rt cx E"
  "mm_trap (interp_meaning N rt cx D E) = interp_trap"
  "mm_const (interp_meaning N rt cx D E) = const_word"
  by (simp_all add: interp_meaning_def)

interpretation mir: mir_sem "interp_meaning N rt cx D E" "inst_pure cx D" for N rt cx D E
proof (unfold_locales, unfold interp_meaning_simps, goal_cases)
  case (1 i R S w)
  then show ?case by (rule inst_exec_uses)
next
  case (2 i R w v w')
  then show ?case by (rule inst_exec_pure)
next
  case (3 r R S w)
  then show ?case by (rule interp_return_uses)
next
  case (4 c x d R w)
  then show ?case by (rule inst_exec_const)
next
  case (5 b)
  then show ?case by (auto simp: const_word_def nonzero_def bool_bits_def)
qed

end
