(* ===== verification/MirFold.thy ===== *)
theory MirFold
  imports MirInterp
begin

text \<open>
  Constant folding against the interpreter: what \<open>fold_binary_op\<close> and \<open>fold_comparison\<close> compute
  from constants is what the decoded operations compute from their register words, where the
  operands have the machine types of the constants (\<open>interp_foldable\<close>). It discharges the
  contract of \<open>mir_fold\<close>.
\<close>

section \<open>32-bit operands in 64-bit registers\<close>

lemma sext_low32: "sext (ucast (a :: u32)) MtI32 = scast a"
  by (rule bit_word_eqI) (simp add: bit_simps min_less_iff_disj)

lemma sint_scast32: "sint (scast (a :: u32) :: u64) = sint a"
  by (rule sint_up_scast) (simp add: is_up)

lemma low32_low [simp]: "(ucast (ucast (a :: u32) :: u64) :: u32) = a"
  by (rule bit_word_eqI) (simp add: bit_simps)

lemma low32_eq: "(ucast (a :: u32) :: u64) = ucast b \<longleftrightarrow> a = b"
proof
  assume "(ucast a :: u64) = ucast b"
  then have "(ucast (ucast a :: u64) :: u32) = ucast (ucast b :: u64)" by (rule arg_cong)
  then show "a = b" by simp
qed simp

lemma low32_arith:
  "(ucast ((ucast (a :: u32) :: u64) + ucast b) :: u32) = a + b"
  "(ucast ((ucast (a :: u32) :: u64) - ucast b) :: u32) = a - b"
  "(ucast ((ucast (a :: u32) :: u64) * ucast b) :: u32) = a * b"
  "(ucast ((ucast (a :: u32) :: u64) AND ucast b) :: u32) = a AND b"
  "(ucast ((ucast (a :: u32) :: u64) OR ucast b) :: u32) = a OR b"
  "(ucast ((ucast (a :: u32) :: u64) XOR ucast b) :: u32) = a XOR b"
  by (transfer; simp add: take_bit_add take_bit_diff take_bit_mult; simp add: mod_simps flip: take_bit_eq_mod)+

lemma low32_of_int: "(ucast (word_of_int k :: u64) :: u32) = word_of_int k"
  by (rule bit_word_eqI) (simp add: bit_simps)

lemma low32_div:
  assumes "rust_sdiv (a :: u32) b = Some c"
  shows "ibin IoSDiv MtI32 (ucast a) (ucast b) = Inr (ucast c)"
proof -
  have b: "b \<noteq> 0" "\<not> (b = - 1 \<and> sint a = - (2 ^ 31))" and c: "c = word_of_int (sint a sdiv sint b)"
    using assms by (auto simp: rust_sdiv_def split: if_splits)
  have z: "(scast b :: u64) = 0 \<longleftrightarrow> b = 0"
    by (metis sint_scast32 signed_0 signed_eq_0_iff)
  have m: "(scast b :: u64) = - 1 \<longleftrightarrow> b = - 1"
    by (metis sint_scast32 signed_word_eqI signed_minus_1)
  have mn: "(scast a :: u64) = sext_min MtI32 \<longleftrightarrow> sint a = - (2 ^ 31)"
  proof -
    have "sext_min MtI32 = scast (0x80000000 :: u32)" by (simp add: sext_min_def)
    moreover have "sint (0x80000000 :: u32) = - (2 ^ 31)" by simp
    ultimately show ?thesis by (metis sint_scast32 signed_word_eqI)
  qed
  show ?thesis
    using b by (simp add: ibin_def Let_def sext_low32 z m mn sint_scast32 c canon_ucast32 low32_of_int
        del: canon.simps sext.simps)
qed

lemma low32_rem:
  assumes "rust_srem (a :: u32) b = Some c"
  shows "ibin IoSRem MtI32 (ucast a) (ucast b) = Inr (ucast c)"
proof -
  have b: "b \<noteq> 0" and c: "c = word_of_int (sint a smod sint b)"
    using assms by (auto simp: rust_srem_def split: if_splits)
  have z: "(scast b :: u64) = 0 \<longleftrightarrow> b = 0"
    by (metis sint_scast32 signed_0 signed_eq_0_iff)
  show ?thesis
    using b by (simp add: ibin_def Let_def sext_low32 z sint_scast32 c canon_ucast32 low32_of_int
        wrapping_srem_def del: canon.simps sext.simps)
qed

lemma low32_shift_mask:
  assumes "0 \<le> sint (b :: u32)" and "sint b < 32"
  shows "shift_mask MtI32 (ucast b) = nat (sint b)"
proof -
  have "uint b = uint (word_of_int (sint b) :: u32)" by simp
  also have "\<dots> = sint b" unfolding uint_word_of_int using assms by simp
  finally have u: "uint b = sint b" .
  have "shift_mask MtI32 (ucast b) = unat (take_bit 5 (ucast b :: u64))"
    by (simp add: shift_mask_def take_bit_eq_mask mask_eq_exp_minus_1)
  also have "\<dots> = take_bit 5 (unat b)"
    by (simp add: unsigned_take_bit_eq unsigned_ucast_eq take_bit_nat_eq_self_iff)
  also have "\<dots> = nat (sint b)"
  proof -
    have "unat b = nat (sint b)" by (simp only: unat_eq_nat_uint u)
    then show ?thesis using assms by (simp add: take_bit_nat_eq_self_iff nat_less_iff)
  qed
  finally show ?thesis .
qed

lemma low32_push: "(ucast (push_bit n (ucast (a :: u32)) :: u64) :: u32) = push_bit n a"
  by (rule bit_word_eqI) (auto simp: bit_simps)

lemma low32_sdrop: "(ucast (signed_drop_bit n (scast (a :: u32)) :: u64) :: u32) = signed_drop_bit n a"
proof (rule bit_word_eqI)
  fix k
  assume "k < LENGTH(32)"
  then show "bit (ucast (signed_drop_bit n (scast a) :: u64) :: u32) k = bit (signed_drop_bit n a) k"
    by (cases "n + k < 31"; cases "n + k = 31") (auto simp: bit_simps min_def)
qed

lemma fold_int_op_exec:
  assumes "fold_int_op op a b = Inr (Some v)"
  shows "\<exists>c. v = VI32 c \<and> ibin (int_op True op) MtI32 (ucast a) (ucast b) = Inr (ucast c)"
  using assms
  by (cases op) (auto simp: ibin_def canon_ucast32 low32_arith low32_push low32_sdrop sext_low32
    low32_shift_mask simp del: canon.simps sext.simps
    split: if_splits option.splits dest!: low32_div low32_rem)

section \<open>The operations of a foldable instruction\<close>

text \<open>
  The decoder works on the machine types of registers, the pass on constants only: the two agree
  where the registers have the types of the constants. \<open>FEq\<close> and \<open>FNe\<close> are left out: the pass
  compares up to epsilon, the interpreter exactly.
\<close>

definition interp_foldable :: "DecodeCtx \<Rightarrow> decode_states \<Rightarrow> const_map \<Rightarrow> IrInstruction \<Rightarrow> bool" where
  "interp_foldable cx D C i =
     (case i of
        IBinOp d op l r \<Rightarrow>
          (case C l of
             Some (VI32 a) \<Rightarrow> reg_mt (D i) l = MtI32 \<and> reg_mt (D i) r = MtI32 \<and> binop_type cx d l r = Some TyI32
           | Some (VF64 a) \<Rightarrow> reg_mt (D i) l = MtF64 \<and> reg_mt (D i) r = MtF64 \<and> binop_type cx d l r = Some TyF64
           | _ \<Rightarrow> False)
      | ICmp d op l r \<Rightarrow>
          d \<notin> {l, r} \<and> or_else (reg_type cx l) (or_else (local_type cx l) (phi_type cx [l])) \<noteq> None \<and>
          (case C l of
             Some (VI32 a) \<Rightarrow> reg_mt (D i) l = MtI32 \<and> reg_mt (D i) r = MtI32
           | Some (VBool a) \<Rightarrow> reg_mt (D i) l = MtI8 \<and> reg_mt (D i) r = MtI8
           | Some (VF64 a) \<Rightarrow> reg_mt (D i) l = MtF64 \<and> reg_mt (D i) r = MtF64 \<and> op \<notin> {CFEq, CFNe}
           | _ \<Rightarrow> False)
      | _ \<Rightarrow> False)"

lemma fma_irrelevant [simp]:
  "reg_type (cx\<lparr>cx_fma := b\<rparr>) = reg_type cx" "local_type (cx\<lparr>cx_fma := b\<rparr>) = local_type cx"
  "phi_type (cx\<lparr>cx_fma := b\<rparr>) = phi_type cx" "binop_type (cx\<lparr>cx_fma := b\<rparr>) = binop_type cx"
  by (simp_all add: fun_eq_iff reg_type_def local_type_def phi_type_def binop_type_def)

lemma reg_mt_ops [simp]: "reg_mt (D\<lparr>dc_ops := x\<rparr>) = reg_mt D"
  by (simp add: fun_eq_iff reg_mt_def)

lemma mt_kinds [simp]:
  "mt_is_int MtI32" "mt_is_int MtI8" "\<not> mt_is_int MtF64" "mt_is_float MtF64" "\<not> mt_is_float MtI32" "\<not> mt_is_float MtI8"
  by (simp_all add: mt_is_int_def mt_is_float_def)

lemma int_binop_ops:
  assumes "reg_mt (D (IBinOp d op l r)) l = MtI32" "reg_mt (D (IBinOp d op l r)) r = MtI32" "binop_type cx d l r = Some TyI32"
    and "\<not> float_named op"
  shows "inst_ops cx D (IBinOp d op l r) =
     [OReg (RIBin (dc_next_reg (D (IBinOp d op l r))) (int_op True op) MtI32 l r), OReg (RCopy d (dc_next_reg (D (IBinOp d op l r))))]"
  using assms
  by (auto simp: inst_ops_def decode_instruction_def decode_binop_def Let_def expected_mt_def
      binop_op_ty_def larger_mt_def binop_use_float_def operand_conv_def coerce_def int_binop_def temp_def
      emit_def set_mt_def final_conv_def move_conv_def is_signed_def reg_mt_def 
      split: option.splits)

lemma float_binop_ops:
  assumes "reg_mt (D (IBinOp d op l r)) l = MtF64" "reg_mt (D (IBinOp d op l r)) r = MtF64" "binop_type cx d l r = Some TyF64"
    and "float_named op"
  shows "inst_ops cx D (IBinOp d op l r) =
     [OReg (RFBin (dc_next_reg (D (IBinOp d op l r))) (float_op op) MtF64 l r), OReg (RCopy d (dc_next_reg (D (IBinOp d op l r))))]"
  using assms
  by (auto simp: inst_ops_def decode_instruction_def decode_binop_def Let_def expected_mt_def
      binop_op_ty_def larger_mt_def binop_use_float_def operand_conv_def coerce_def float_binop_def temp_def
      widen_float_def integer_only_def fused_def
      emit_def set_mt_def final_conv_def move_conv_def is_signed_def reg_mt_def float_named_def
      split: option.splits)


lemma int_cmp_ops:
  assumes "reg_mt (D (ICmp d op l r)) l = m" "reg_mt (D (ICmp d op l r)) r = m" "m \<in> {MtI32, MtI8}" "d \<notin> {l, r}"
    and "or_else (reg_type cx l) (or_else (local_type cx l) (phi_type cx [l])) \<noteq> None"
    and "int_cc op = Some cc"
  shows "inst_ops cx D (ICmp d op l r) = [OReg (RICmp d cc m l r)]"
  using assms
  by (auto simp: inst_ops_def decode_instruction_def decode_cmp_def int_cmp_def Let_def coerce_def
      emit_def set_mt_def reg_mt_def split: option.splits)

lemma float_cmp_ops:
  assumes "reg_mt (D (ICmp d op l r)) l = MtF64" "reg_mt (D (ICmp d op l r)) r = MtF64" "d \<notin> {l, r}"
    and "or_else (reg_type cx l) (or_else (local_type cx l) (phi_type cx [l])) \<noteq> None"
    and "float_cc op = Some cc"
  shows "inst_ops cx D (ICmp d op l r) = [OReg (RFCmp d cc MtF64 l r)]"
  using assms
  by (auto simp: inst_ops_def decode_instruction_def decode_cmp_def float_cmp_def Let_def coerce_def
      widen_float_def emit_def set_mt_def reg_mt_def split: option.splits)

lemma inst_exec_copy:
  assumes "inst_ops cx D i = [OReg q, OReg (RCopy d t)]" and "dest i = Some d"
    and "reg_dest q = t" and "reg_value R (fr_slots (fst s)) (fr_env (fst s)) q = Inr x"
  shows "inst_exec N rt cx D i R s = Inr (Some x, s)"
  using assms
  by (cases s) (simp add: inst_exec_def inst_result_def run_op_def exec_op_def exec_reg_def set_reg_def)

section \<open>The contract\<close>

lemma inst_exec_one:
  assumes "inst_ops cx D i = [OReg q]" and "dest i = Some d" and "reg_dest q = d"
    and "reg_value R (fr_slots (fst s)) (fr_env (fst s)) q = Inr x"
  shows "inst_exec N rt cx D i R s = Inr (Some x, s)"
  using assms
  by (cases s) (simp add: inst_exec_def inst_result_def run_op_def exec_op_def exec_reg_def set_reg_def)

lemma fold_int_op_named: "fold_int_op op a b = Inr (Some v) \<Longrightarrow> \<not> float_named op"
  by (cases op) (simp_all add: float_named_def)

lemma fold_float_op_exec:
  "fold_float_op op a b = Some v \<Longrightarrow> float_named op \<and> v = VF64 (fbin (float_op op) MtF64 a b)"
  by (cases op) (auto simp: float_named_def fbin_def split: if_splits)

lemma icmp_low32:
  "fold_int_cmp op a b = Some v \<Longrightarrow> \<exists>cc. int_cc op = Some cc \<and> icmp cc MtI32 (ucast a) (ucast b) = v"
  by (cases op) (auto simp: canon_ucast32 sext_low32 low32_eq sint_scast32 simp del: canon.simps sext.simps)

lemma icmp_bool:
  "fold_bool_cmp op a b = Some v \<Longrightarrow>
     \<exists>cc. int_cc op = Some cc \<and> icmp cc MtI8 (bool_bits a) (bool_bits b) = v"
  by (cases op) (auto simp: bool_bits_def)

lemma fcmp_float:
  "fold_float_cmp op a b = Some v \<Longrightarrow> op \<notin> {CFEq, CFNe} \<Longrightarrow>
     \<exists>cc. float_cc op = Some cc \<and> fcmp cc MtF64 a b = v"
  by (cases op) (auto simp: mt_float_def)

lemma interp_fold_bin:
  assumes "interp_foldable cx D C (IBinOp d op l r)" and "C l = Some lv" and "C r = Some rv"
    and "fold_binary_op op lv rv = Inr (Some c)"
    and "const_word lv = Some (R l)" and "const_word rv = Some (R r)"
  shows "const_word c \<noteq> None \<and> inst_exec N rt cx D (IBinOp d op l r) R s = Inr (const_word c, s)"
proof (cases lv)
  case (VI32 a)
  with assms(4) obtain b where rv: "rv = VI32 b" and f: "fold_int_op op a b = Inr (Some c)"
    by (auto simp: fold_binary_op_def split: IrValue.splits)
  from fold_int_op_exec [OF f] obtain x where c: "c = VI32 x"
    and x: "ibin (int_op True op) MtI32 (ucast a) (ucast b) = Inr (ucast x)" by blast
  have R: "R l = ucast a" "R r = ucast b" using assms(5,6) VI32 rv by (auto simp: const_word_def)
  have "inst_exec N rt cx D (IBinOp d op l r) R s = Inr (Some (ucast x), s)"
    by (rule inst_exec_copy [OF int_binop_ops])
       (use assms(1,2) VI32 fold_int_op_named [OF f] R x in \<open>auto simp: interp_foldable_def\<close>)
  then show ?thesis by (simp add: c const_word_def)
next
  case (VF64 a)
  with assms(4) obtain b where rv: "rv = VF64 b" and f: "fold_float_op op a b = Some c"
    by (auto simp: fold_binary_op_def split: IrValue.splits)
  note fe = fold_float_op_exec [OF f]
  have R: "R l = a" "R r = b" using assms(5,6) VF64 rv by (auto simp: const_word_def)
  have "inst_exec N rt cx D (IBinOp d op l r) R s = Inr (Some (fbin (float_op op) MtF64 a b), s)"
    by (rule inst_exec_copy [OF float_binop_ops])
       (use assms(1,2) VF64 fe R in \<open>auto simp: interp_foldable_def\<close>)
  then show ?thesis using fe by (simp add: const_word_def)
qed (use assms(4) in \<open>simp_all add: fold_binary_op_def\<close>)

lemma interp_fold_cmp:
  assumes fo: "interp_foldable cx D C (ICmp d op l r)" and "C l = Some lv" and "C r = Some rv"
    and "fold_comparison op lv rv = Some c"
    and "const_word lv = Some (R l)" and "const_word rv = Some (R r)"
  shows "const_word c \<noteq> None \<and> inst_exec N rt cx D (ICmp d op l r) R s = Inr (const_word c, s)"
proof -
  note cw = const_word_def
  have "\<exists>v. c = VBool v \<and> inst_exec N rt cx D (ICmp d op l r) R s = Inr (Some (bool_bits v), s)"
  proof (cases lv)
    case (VI32 a)
    with assms(4) obtain b v where rv: "rv = VI32 b" and f: "fold_int_cmp op a b = Some v" and c: "c = VBool v"
      by (auto simp: fold_comparison_def split: IrValue.splits)
    from icmp_low32 [OF f] obtain cc where cc: "int_cc op = Some cc" "icmp cc MtI32 (ucast a) (ucast b) = v" by blast
    have "R l = ucast a" "R r = ucast b" using assms(5,6) VI32 rv by (auto simp: cw)
    then show ?thesis using fo assms(2) VI32 c cc
      by (intro exI [of _ v] conjI inst_exec_one [OF int_cmp_ops]) (auto simp: interp_foldable_def)
  next
    case (VBool a)
    with assms(4) obtain b v where rv: "rv = VBool b" and f: "fold_bool_cmp op a b = Some v" and c: "c = VBool v"
      by (auto simp: fold_comparison_def split: IrValue.splits)
    from icmp_bool [OF f] obtain cc where cc: "int_cc op = Some cc" "icmp cc MtI8 (bool_bits a) (bool_bits b) = v" by blast
    have "R l = bool_bits a" "R r = bool_bits b" using assms(5,6) VBool rv by (auto simp: cw bool_bits_def)
    then show ?thesis using fo assms(2) VBool c cc
      by (intro exI [of _ v] conjI inst_exec_one [OF int_cmp_ops]) (auto simp: interp_foldable_def)
  next
    case (VF64 a)
    with assms(4) obtain b v where rv: "rv = VF64 b" and f: "fold_float_cmp op a b = Some v" and c: "c = VBool v"
      by (auto simp: fold_comparison_def split: IrValue.splits)
    have "op \<notin> {CFEq, CFNe}" using fo assms(2) VF64 by (auto simp: interp_foldable_def)
    from fcmp_float [OF f this] obtain cc where cc: "float_cc op = Some cc" "fcmp cc MtF64 a b = v" by blast
    have "R l = a" "R r = b" using assms(5,6) VF64 rv by (auto simp: cw)
    then show ?thesis using fo assms(2) VF64 c cc
      by (intro exI [of _ v] conjI inst_exec_one [OF float_cmp_ops]) (auto simp: interp_foldable_def)
  qed (use assms(4) in \<open>simp_all add: fold_comparison_def\<close>)
  then show ?thesis by (auto simp: cw bool_bits_def)
qed

lemma fold_operand_words:
  "fold_binary_op op lv rv = Inr (Some c) \<Longrightarrow> const_word lv \<noteq> None \<and> const_word rv \<noteq> None"
  "fold_comparison cop lv rv = Some c \<Longrightarrow> const_word lv \<noteq> None \<and> const_word rv \<noteq> None"
  by (auto simp: fold_binary_op_def fold_comparison_def const_word_def split: IrValue.splits)

interpretation mirf: mir_fold "interp_meaning N rt cx D E" "inst_pure cx D" "interp_foldable cx D"
  for N rt cx D E
proof (unfold_locales, unfold interp_meaning_simps, goal_cases)
  case (1 C l d op r lv rv c R w)
  then show ?case by (rule interp_fold_bin)
next
  case (2 C l d cop r lv rv c R w)
  then show ?case by (rule interp_fold_cmp)
qed (rule fold_operand_words; assumption)+

end
