(* ===== verification/MirMachine.thy ===== *)
theory MirMachine
  imports MirFrame
begin

text \<open>
  The decoder and the machine together: the edges of a decoded function lead to its own blocks,
  so the machine, which indexes them without a check of its own, stays inside them; a call never
  makes the stack deeper than \<open>MAX_DEPTH\<close>; and an edge assigns its phis in parallel.
\<close>

section \<open>Decoded functions\<close>

definition term_edges :: "Term \<Rightarrow> Edge list" where
  "term_edges t =
     (case t of
        TmJump e \<Rightarrow> [e]
      | TmBrif c a b \<Rightarrow> [a, b]
      | TmSwitch r m cs d \<Rightarrow> map snd cs @ [d]
      | _ \<Rightarrow> [])"

definition edges_below :: "nat \<Rightarrow> Term \<Rightarrow> bool" where
  "edges_below n t = list_all (\<lambda>e. edge_block e < n) (term_edges t)"

definition function_ok :: "Function \<Rightarrow> bool" where
  "function_ok f =
     (f_entry f < length (f_blocks f) \<and>
      list_all (\<lambda>b. edges_below (length (f_blocks f)) (blk_term b)) (f_blocks f))"

definition index_below :: "nat \<Rightarrow> Dec \<Rightarrow> bool" where
  "index_below n D \<longleftrightarrow> (\<forall>i k. dc_block_index D i = Some k \<longrightarrow> k < n)"

lemma decode_edge_below:
  "decode_edge cx from to D = Inr e \<Longrightarrow> index_below n D \<Longrightarrow> edge_block e < n"
  by (auto simp: decode_edge_def index_below_def rbind_Inr_iff ok_or_def split: option.splits)

lemma rmap_Inr: "rmap f xs = Inr ys \<Longrightarrow> list_all2 (\<lambda>x y. f x = Inr y) xs ys"
  by (induction xs arbitrary: ys) (auto simp: rbind_Inr_iff)

lemma coerce_index: "coerce r c D = (r', D') \<Longrightarrow> dc_block_index D' = dc_block_index D"
  by (auto simp: coerce_def temp_def emit_def set_mt_def split: option.splits)

lemma decode_return_index:
  "decode_return cx v D = (r, D') \<Longrightarrow> dc_block_index D' = dc_block_index D"
  by (auto simp: decode_return_def Let_def dest: coerce_index
      split: if_splits option.splits sum.splits prod.splits)

lemma try_terminator_index:
  "try_terminator cx from t D = (r, D') \<Longrightarrow> dc_block_index D' = dc_block_index D"
  by (cases "(cx, from, t, D)" rule: try_terminator.cases)
     (auto simp: pure_term_def dest: decode_return_index)

lemma decode_return_below: "decode_return cx v D = (Inr tm, D') \<Longrightarrow> edges_below n tm"
  by (auto simp: decode_return_def Let_def edges_below_def term_edges_def
      split: if_splits option.splits sum.splits prod.splits)

lemma try_terminator_below:
  assumes "try_terminator cx from t D = (Inr tm, D')" and "index_below n D"
  shows "edges_below n tm"
proof (cases t)
  case (TSwitch v cs d)
  with assms(1) obtain es ed where
    es: "rmap (\<lambda>(k, t). rbind (decode_edge cx from t D) (\<lambda>e. Inr (k, e))) cs = Inr es"
    and ed: "decode_edge cx from d D = Inr ed" and tm: "tm = TmSwitch v (reg_mt D v) es ed"
    by (auto simp: pure_term_def rbind_Inr_iff)
  have "\<forall>(k, e) \<in> set es. edge_block e < n"
    using rmap_Inr [OF es] assms(2)
    by (induction rule: list_all2_induct)
       (auto simp: rbind_Inr_iff split: prod.splits dest: decode_edge_below)
  then show ?thesis using decode_edge_below [OF ed assms(2)]
    by (auto simp: tm edges_below_def term_edges_def list_all_iff)
qed (use assms in \<open>auto simp: pure_term_def rbind_Inr_iff edges_below_def term_edges_def
      dest: decode_edge_below decode_return_below [where n = n]\<close>)

lemma decode_instruction_index:
  assumes "\<not> cx_fma cx"
  shows "dc_block_index (decode_instruction cx i D) = dc_block_index D"
  using decode_instruction_ok [OF assms subset_refl subset_refl order_refl, of i D]
  by (auto simp: step_ok_def extends_def)

lemma decode_instructions_index:
  "\<not> cx_fma cx \<Longrightarrow> dc_block_index (fold (decode_instruction cx) is D) = dc_block_index D"
  by (induction "is" arbitrary: D) (simp_all add: decode_instruction_index)

lemma decode_block_below:
  assumes "decode_block cx idx i b D = (blk, D')" and "\<not> cx_fma cx" and "index_below n D"
  shows "edges_below n (blk_term blk) \<and> dc_block_index D' = dc_block_index D"
proof -
  let ?D1 = "fold (decode_instruction cx) (bb_instructions b)
                 (D\<lparr>dc_current_block := idx, dc_ops := []\<rparr>)"
  have i: "dc_block_index ?D1 = dc_block_index D" using assms(2) by (simp add: decode_instructions_index)
  then have below: "index_below n ?D1" using assms(3) by (simp add: index_below_def)
  obtain r D2 where t: "try_terminator cx i (bb_terminator b) ?D1 = (r, D2)" by fastforce
  show ?thesis
  proof (cases r)
    case (Inl e)
    then show ?thesis using assms(1) t i try_terminator_index [OF t]
      by (auto simp: decode_block_def decode_terminator_def edges_below_def term_edges_def)
  next
    case (Inr tm)
    then show ?thesis using assms(1) t i try_terminator_index [OF t]
        try_terminator_below [OF t [unfolded Inr] below]
      by (auto simp: decode_block_def decode_terminator_def)
  qed
qed

lemma decode_blocks_below:
  "decode_blocks cx idx bs D = (blks, D') \<Longrightarrow> \<not> cx_fma cx \<Longrightarrow> index_below n D \<Longrightarrow>
     length blks = length bs \<and> list_all (\<lambda>b. edges_below n (blk_term b)) blks \<and>
     dc_block_index D' = dc_block_index D"
proof (induction cx idx bs D arbitrary: blks D' rule: decode_blocks.induct)
  case (2 cx idx i b bs D)
  obtain blk D1 where 1: "decode_block cx idx i b D = (blk, D1)" by fastforce
  obtain blks' D2 where r: "decode_blocks cx (idx + 1) bs D1 = (blks', D2)" by fastforce
  from decode_block_below [OF 1] "2.prems" have b: "edges_below n (blk_term blk)"
    "dc_block_index D1 = dc_block_index D" by auto
  then have "index_below n D1" using "2.prems"(3) by (simp add: index_below_def)
  from "2.IH" [OF 1 [symmetric] _ r "2.prems"(2) this] b "2.prems"(1) r show ?case
    by (auto simp: 1)
qed simp

lemma ordered_blocks_map:
  assumes "bt_wf (cfg_blocks (fn_cfg f))"
  shows "map fst (ordered_blocks f) = reverse_post_order f"
proof -
  have "set (reverse_post_order f) = fst ` set (cfg_blocks (fn_cfg f))"
    by (rule reverse_post_order_facts [OF assms]) auto
  then have dom: "\<forall>i \<in> set (reverse_post_order f). get_block (fn_cfg f) i \<noteq> None"
    by (simp only: get_block_dom) simp
  have "map fst (List.map_filter (\<lambda>i. map_option (Pair i) (get_block (fn_cfg f) i)) is) = is"
    if "\<forall>i \<in> set is. get_block (fn_cfg f) i \<noteq> None" for "is"
    using that by (induction "is") (auto simp: List.map_filter_simps)
  with dom show ?thesis by (simp add: ordered_blocks_def)
qed

lemma index_of_order:
  "map_of (zip xs [0..<length xs]) i = Some k \<Longrightarrow> k < length xs"
  by (auto dest!: map_of_SomeD set_zip_rightD)

lemma decode_function_ok:
  assumes dec: "decode_function cx i = Inr g" and fma: "\<not> cx_fma cx"
    and f: "map_of (mod_functions (cx_module cx)) i = Some f"
    and wf: "bt_wf (cfg_blocks (fn_cfg f))" and entry: "get_block (fn_cfg f) (entry_block f) \<noteq> None"
  shows "function_ok g"
proof -
  let ?D0 = "initial_dec f (needs_env_param f i (cx_indirect cx))"
  let ?n = "length (reverse_post_order f)"
  obtain blks D where b: "decode_blocks (cx\<lparr>cx_function := f\<rparr>) 0 (ordered_blocks f) ?D0 = (blks, D)"
    by fastforce
  have idx: "index_below ?n ?D0"
    by (auto simp: index_below_def initial_dec_def Let_def dest: index_of_order)
  from decode_blocks_below [OF b _ idx] fma have
    d: "length blks = length (ordered_blocks f)" "list_all (\<lambda>b. edges_below ?n (blk_term b)) blks"
      "dc_block_index D = dc_block_index ?D0" by auto
  have len: "length (ordered_blocks f) = ?n"
    using arg_cong [OF ordered_blocks_map [OF wf], of length] by simp
  have "reverse_post_order f \<noteq> []"
    by (rule reverse_post_order_facts [OF wf]) (use entry in auto)
  then have pos: "0 < ?n" by simp
  have "f_blocks g = blks"
    "f_entry g = (case dc_block_index D (entry_block f) of Some k \<Rightarrow> k | None \<Rightarrow> 0)"
    using dec f b by (auto simp: decode_function_def Let_def split: if_splits)
  moreover have "(case dc_block_index D (entry_block f) of Some k \<Rightarrow> k | None \<Rightarrow> 0) < ?n"
    using idx pos by (simp add: d(3) index_below_def split: option.split)
  ultimately show ?thesis using d len by (simp add: function_ok_def)
qed

lemma decode_function_total:
  "map_of (mod_functions (cx_module cx)) i = Some f \<Longrightarrow> \<not> is_extern f \<Longrightarrow>
     \<exists>g. decode_function cx i = Inr g"
  by (simp add: decode_function_def Let_def case_prod_beta)

section \<open>The stack\<close>

definition frame_ok :: "Frame \<Rightarrow> bool" where
  "frame_ok fr = (function_ok (fr_f fr) \<and> fr_block fr < length (f_blocks (fr_f fr)))"

definition stack_ok :: "Frame list \<Rightarrow> bool" where
  "stack_ok fs = (length fs \<le> MAX_DEPTH \<and> list_all frame_ok fs)"

text \<open>Every function the interpreter loads decoded to edges of its own.\<close>

definition loads_ok :: "'x Runtime \<Rightarrow> bool" where
  "loads_ok rt \<longleftrightarrow> (\<forall>md fn g. rt_function_at rt md fn = Inr g \<longrightarrow> function_ok g)"

text \<open>An operation keeps the frame's function and block.\<close>

lemma to_reg_place:
  "to_reg d fr r = Inr (fr', w') \<Longrightarrow> fr_f fr' = fr_f fr \<and> fr_block fr' = fr_block fr"
  by (auto simp: to_reg_def set_reg_def rbind_Inr_iff split: prod.splits)

lemma keep_frame_place:
  "keep_frame fr r = Inr (fr', w') \<Longrightarrow> fr_f fr' = fr_f fr \<and> fr_block fr' = fr_block fr"
  by (auto simp: keep_frame_def rbind_Inr_iff)

lemma exec_mem_place:
  "exec_mem rt q fr w = Inr (fr', w') \<Longrightarrow> fr_f fr' = fr_f fr \<and> fr_block fr' = fr_block fr"
  by (cases q)
     (auto simp: rbind_Inr_iff Let_def split: if_splits prod.splits
      dest!: to_reg_place keep_frame_place)

lemma deliver_place [simp]: "fr_f (deliver v fr) = fr_f fr" "fr_block (deliver v fr) = fr_block fr"
  by (simp_all add: deliver_def Let_def split: option.splits)

lemma Inr_rbind_iff: "Inr b = rbind r f \<longleftrightarrow> (\<exists>a. r = Inr a \<and> f a = Inr b)"
  using rbind_Inr_iff [of r f b] by (simp add: eq_commute)

lemma exec_op_place:
  assumes "exec_op rt op fr w = Inr (AcNext fr' w')"
  shows "fr_f fr' = fr_f fr \<and> fr_block fr' = fr_block fr"
  using assms
  by (auto simp: exec_op_def rbind_Inr_iff Inr_rbind_iff exec_reg_def set_reg_def native_result_def
      call_op_def call_indirect_def Let_def
      split: Op.splits option.splits sum.splits Target.splits if_splits prod.splits
      elim!: exec_ctl.elims dest: exec_mem_place)

lemma exec_op_call:
  "exec_op rt op fr w = Inr (AcCall g args pend w') \<Longrightarrow> loads_ok rt \<Longrightarrow> function_ok g"
  by (auto simp: exec_op_def rbind_Inr_iff Inr_rbind_iff native_result_def loads_ok_def
      call_op_def call_indirect_def Let_def
      split: Op.splits option.splits sum.splits Target.splits if_splits prod.splits
      elim!: exec_ctl.elims)

lemma take_edge_block:
  "take_edge fr e = Inr fr' \<Longrightarrow> fr_f fr' = fr_f fr \<and> fr_block fr' = edge_block e"
  by (auto simp: take_edge_def rbind_Inr_iff set_reg_def split: list.splits prod.splits)

lemma exec_term_goto:
  assumes "exec_term rt tm fr w = Inr (TaGoto fr')"
  shows "fr_f fr' = fr_f fr \<and> (\<exists>e \<in> set (term_edges tm). fr_block fr' = edge_block e)"
proof (cases tm)
  case (TmSwitch r m cs d)
  define e where
    "e = (case List.find (\<lambda>(c, e). c = sext (fr_regs fr r) m) cs of Some (c, e) \<Rightarrow> e | None \<Rightarrow> d)"
  have "e \<in> snd ` set cs \<union> {d}" unfolding e_def
    by (cases "List.find (\<lambda>(c, e). c = sext (fr_regs fr r) m) cs") (force dest: find_Some_in)+
  then have "e \<in> set (term_edges tm)" by (auto simp: TmSwitch term_edges_def)
  moreover have "take_edge fr e = Inr fr'"
    using assms by (simp add: TmSwitch Let_def rbind_Inr_iff e_def)
  ultimately show ?thesis using take_edge_block by blast
next
  case (TmReturn v)
  with assms show ?thesis by (cases v) auto
qed (use assms in \<open>auto simp: term_edges_def rbind_Inr_iff dest!: take_edge_block split: if_splits\<close>)

lemma new_frame_place [simp]: "fr_f (new_frame f p args) = f" "fr_block (new_frame f p args) = f_entry f"
  by (simp_all add: new_frame_def Let_def split: prod.splits)

lemma enter_function_ok: "function_ok g \<Longrightarrow> enter_function rt g args w = (fr, w') \<Longrightarrow> frame_ok fr"
  by (auto simp: enter_function_def frame_ok_def function_ok_def split: prod.splits)

lemma machine_step_ok:
  assumes step: "machine_step rt fs w = OutNext fs' w'" and ok: "stack_ok fs" and loads: "loads_ok rt"
  shows "stack_ok fs'"
proof -
  from step obtain fr rest where fs: "fs = fr # rest" by (cases fs) auto
  define b where "b = f_blocks (fr_f fr) ! fr_block fr"
  have fr: "frame_ok fr" and rest: "list_all frame_ok rest" and len: "length fs \<le> MAX_DEPTH"
    using ok by (auto simp: fs stack_ok_def)
  then have edges: "edges_below (length (f_blocks (fr_f fr))) (blk_term b)"
    by (auto simp: frame_ok_def function_ok_def b_def list_all_length)
  show ?thesis
  proof (cases "fr_pc fr < length (blk_ops b)")
    case True
    with step obtain a where a: "exec_op rt (blk_ops b ! fr_pc fr) fr w = Inr a"
      by (cases "exec_op rt (blk_ops b ! fr_pc fr) fr w") (auto simp: fs b_def Let_def)
    show ?thesis
    proof (cases a)
      case (AcNext fr1 w1)
      with step True a fr exec_op_place [OF a [unfolded AcNext]] rest len show ?thesis
        by (auto simp: fs b_def Let_def stack_ok_def frame_ok_def)
    next
      case (AcCall g args pend w1)
      obtain fr2 w2 where e: "enter_function rt g args w1 = (fr2, w2)" by fastforce
      have "frame_ok fr2" using enter_function_ok [OF exec_op_call [OF a [unfolded AcCall] loads] e] .
      with step True a AcCall e fr rest len show ?thesis
        by (auto simp: fs b_def Let_def stack_ok_def frame_ok_def split: if_splits)
    next
      case (AcSetJmp d buf)
      with step True a show ?thesis by (simp add: fs b_def Let_def)
    qed
  next
    case False
    with step obtain a where a: "exec_term rt (blk_term b) fr w = Inr a"
      by (cases "exec_term rt (blk_term b) fr w") (auto simp: fs b_def Let_def)
    show ?thesis
    proof (cases a)
      case (TaGoto fr1)
      from exec_term_goto [OF a [unfolded TaGoto]] edges fr have "frame_ok fr1"
        by (auto simp: frame_ok_def edges_below_def list_all_iff)
      with step False a TaGoto rest len show ?thesis by (auto simp: fs b_def Let_def stack_ok_def)
    next
      case (TaReturn v w1)
      with step False a rest len show ?thesis
        by (auto simp: fs b_def Let_def stack_ok_def frame_ok_def split: list.splits)
    qed
  qed
qed

lemma machine_run_ok:
  "machine_run n rt fs w = OutNext fs' w' \<Longrightarrow> stack_ok fs \<Longrightarrow> loads_ok rt \<Longrightarrow> stack_ok fs'"
  by (induction n rt fs w rule: machine_run.induct)
     (auto split: Outcome.splits dest: machine_step_ok)

section \<open>Parallel assignment\<close>

lemma move_values_eq:
  "move_values R ms = Inr vs \<Longrightarrow> length vs = length ms \<and>
     (\<forall>k < length ms. case ms ! k of (d, s, c1, c2) \<Rightarrow> convert (R s) c1 c2 = Inr (vs ! k))"
proof (induction R ms arbitrary: vs rule: move_values.induct)
  case (2 R d s c1 c2 ms)
  from "2.prems" obtain v vs' where v: "convert (R s) c1 c2 = Inr v" and r: "move_values R ms = Inr vs'"
    and vs: "vs = v # vs'" by (auto simp: rbind_Inr_iff)
  from "2.IH" [OF v r] v show ?case by (auto simp: vs nth_Cons split: nat.splits)
qed simp

lemma assign_moves_outside: "x \<notin> fst ` set ms \<Longrightarrow> assign_moves ms vs R x = R x"
  by (induction ms vs R rule: assign_moves.induct) auto

lemma assign_moves_nth:
  "distinct (map fst ms) \<Longrightarrow> length vs = length ms \<Longrightarrow> k < length ms \<Longrightarrow>
     assign_moves ms vs R (fst (ms ! k)) = vs ! k"
proof (induction ms vs R arbitrary: k rule: assign_moves.induct)
  case (1 d s c1 c2 ms v vs R)
  show ?case
  proof (cases k)
    case 0
    have "d \<notin> fst ` set ms" using "1.prems"(1) by simp
    then show ?thesis using 0 by (simp add: assign_moves_outside)
  next
    case (Suc j)
    then show ?thesis using "1.IH" [of j] "1.prems" by (simp del: fun_upd_apply)
  qed
qed auto

lemma take_edge_regs:
  assumes "take_edge fr e = Inr fr'"
  shows "\<exists>vs. move_values (fr_regs fr) (edge_moves e) = Inr vs \<and>
           fr_regs fr' = assign_moves (edge_moves e) vs (fr_regs fr)"
  using assms by (auto simp: take_edge_def rbind_Inr_iff set_reg_def split: list.splits prod.splits)

section \<open>Memory\<close>

text \<open>What a store writes a load of the same width reads back, and nothing else changes.\<close>

definition span :: "u64 \<Rightarrow> nat \<Rightarrow> u64 set" where
  "span a n = (\<lambda>k. a + word_of_nat k) ` {..<n}"

lemma span_Suc: "span a (Suc n) = insert a (span (a + 1) n)"
  by (force simp: span_def lessThan_Suc_eq_insert_0 image_image add.assoc)

lemma span_fresh: "n < 2 ^ 64 \<Longrightarrow> a \<notin> span (a + 1) n"
proof
  assume n: "n < 2 ^ 64" and "a \<in> span (a + 1) n"
  then obtain k where k: "k < n" and "a = a + 1 + word_of_nat k" by (auto simp: span_def)
  then have "word_of_nat (Suc k) = (0 :: u64)" by (simp add: add.assoc)
  then have "unat (word_of_nat (Suc k) :: u64) = 0" by simp
  moreover have "unat (word_of_nat (Suc k) :: u64) = Suc k"
    using k n by (simp add: unat_of_nat take_bit_nat_eq_self_iff del: of_nat_Suc)
  ultimately show False by simp
qed

lemma store_le_outside: "store_le m a n v = Some m' \<Longrightarrow> x \<notin> span a n \<Longrightarrow> m' x = m x"
  by (induction m a n v rule: store_le.induct) (auto simp: span_Suc split: if_splits)

lemma load_le_cong: "(\<And>x. x \<in> span a n \<Longrightarrow> m x = m' x) \<Longrightarrow> load_le m a n = load_le m' a n"
  by (induction m a n rule: load_le.induct) (auto simp: span_Suc split: option.splits)

lemma byte_split: "ucast (ucast v :: u8) OR push_bit 8 (take_bit n (drop_bit 8 v)) = take_bit (8 + n) (v :: u64)"
  by (rule bit_word_eqI) (auto simp: bit_simps)

lemma load_store_le:
  "store_le m a n v = Some m' \<Longrightarrow> n \<le> 8 \<Longrightarrow> load_le m' a n = Some (take_bit (8 * n) v)"
proof (induction m a n v rule: store_le.induct)
  case (2 m a n v)
  then have s: "store_le (m(a \<mapsto> ucast v)) (a + 1) n (drop_bit 8 v) = Some m'" and def: "m a \<noteq> None"
    by (auto split: if_splits)
  have "m' a = Some (ucast v)"
    using store_le_outside [OF s span_fresh] "2.prems"(2) by simp
  moreover have "load_le m' (a + 1) n = Some (take_bit (8 * n) (drop_bit 8 v))"
    using "2.IH" [OF def s] "2.prems"(2) by simp
  ultimately show ?case by (simp add: byte_split)
qed simp

lemma store_le_total: "(\<And>x. x \<in> span a n \<Longrightarrow> m x \<noteq> None) \<Longrightarrow> \<exists>m'. store_le m a n v = Some m'"
proof (induction m a n v rule: store_le.induct)
  case (2 m a n v)
  have "m a \<noteq> None" using "2.prems" by (simp add: span_Suc)
  moreover have "\<exists>m'. store_le (m(a \<mapsto> ucast v)) (a + 1) n (drop_bit 8 v) = Some m'"
    by (rule "2.IH" [OF calculation]) (use "2.prems" in \<open>auto simp: span_Suc\<close>)
  ultimately show ?case by auto
qed simp

lemma mem_write_total:
  assumes "\<not> uint a < 4096" and "m \<noteq> MtV128" and "\<And>x. x \<in> span a (mt_bytes m) \<Longrightarrow> w_mem w x \<noteq> None"
  shows "\<exists>w'. mem_write rt w a m v = Inr w'"
proof -
  from store_le_total [of a "mt_bytes m" "w_mem w" v] assms(3)
  obtain m' where "store_le (w_mem w) a (mt_bytes m) v = Some m'" by blast
  then show ?thesis using assms(1,2) by (simp add: mem_write_def ok_or_def)
qed

lemma mem_read_write:
  assumes "mem_write rt w a m v = Inr w'"
  shows "mem_read rt w' a m = Inr (canon v m)"
proof -
  from assms obtain m' where s: "store_le (w_mem w) a (mt_bytes m) v = Some m'"
    and w': "w' = w\<lparr>w_mem := m'\<rparr>" and a: "\<not> uint a < 4096" and m: "m \<noteq> MtV128"
    by (auto simp: mem_write_def rbind_Inr_iff ok_or_def split: if_splits option.splits)
  have b: "mt_bytes m \<le> 8" "8 * mt_bytes m = min 64 (mt_bits m)"
    using m by (cases m; simp add: mt_bytes_def)+
  have "load_le m' a (mt_bytes m) = Some (canon v m)"
    using load_store_le [OF s b(1)] b(2) by (simp add: canon_take_bit)
  then show ?thesis using a m by (simp add: mem_read_def w' ok_or_def)
qed

lemma mem_read_write_other:
  assumes "mem_write rt w a m v = Inr w'" and "span a (mt_bytes m) \<inter> span b (mt_bytes n) = {}"
    and "\<not> uint b < 4096"
  shows "mem_read rt w' b n = mem_read rt w b n"
proof -
  from assms(1) obtain m' where s: "store_le (w_mem w) a (mt_bytes m) v = Some m'"
    and w': "w' = w\<lparr>w_mem := m'\<rparr>"
    by (auto simp: mem_write_def rbind_Inr_iff ok_or_def split: if_splits option.splits)
  have "load_le m' b (mt_bytes n) = load_le (w_mem w) b (mt_bytes n)"
    by (rule load_le_cong) (use store_le_outside [OF s] assms(2) in blast)
  then show ?thesis using assms(3) by (simp add: mem_read_def w')
qed

section \<open>Canonical registers\<close>

lemma canon_bool [simp]: "canon (bool_bits b) m = bool_bits b"
  by (cases m) (simp_all add: bool_bits_def)

lemma canon_ucast_f32: "canon (ucast (x :: u32)) MtF32 = ucast x"
  by (rule bit_word_eqI) (auto simp: canon_take_bit bit_simps dest: bit_imp_le_length simp del: canon.simps)

lemma canon_float_bits: "mt_is_float t \<Longrightarrow> canon (mt_float_bits v t) t = mt_float_bits v t"
  by (auto simp: mt_float_bits_def mt_is_float_def canon_ucast_f32 simp del: canon.simps(4))

text \<open>The conversions the decoder emits produce values of the width they say.\<close>

definition conv_wf :: "Conv \<Rightarrow> bool" where
  "conv_wf c =
     (case c of CvSToF f t \<Rightarrow> mt_is_float t | CvUToF f t \<Rightarrow> mt_is_float t | _ \<Rightarrow> True)"

lemma conv_apply_canon:
  "conv_apply c b = Inr v \<Longrightarrow> conv_wf c \<Longrightarrow> canon v (conv_to c) = v"
  by (cases "(c, b)" rule: conv_apply.cases)
     (auto simp: conv_wf_def canon_float_bits canon_ucast_f32 Let_def
      simp del: canon.simps(1-4) split: if_splits)

lemma ibin_canon: "ibin op m a b = Inr v \<Longrightarrow> canon v m = v"
  by (auto simp: ibin_def rbind_Inr_iff)

lemma fbin_canon: "mt_is_float m \<Longrightarrow> canon (fbin op m a b) m = fbin op m a b"
  by (auto simp: fbin_def mt_is_float_def canon_ucast_f32 simp del: canon.simps(4))

end
