(* ===== verification/MirExamples.thy ===== *)
theory MirExamples
  imports MirFold MirMachine
begin

text \<open>
  Small functions, with a decoder state and a runtime to run them in: the concrete inputs the
  properties of the passes and the interpreter are applied to.
\<close>

definition example_block :: "IrBlockId \<Rightarrow> IrInstruction list \<Rightarrow> IrTerminator \<Rightarrow> IrBlockId \<times> IrBasicBlock" where
  "example_block i is t = (i, (new_block i)\<lparr>bb_instructions := is, bb_terminator := t\<rparr>)"

definition example_signature :: IrFunctionSignature where
  "example_signature =
     \<lparr>sig_parameters = [], sig_return_type = TyI32, sig_calling_convention = CcHaxe,
      sig_can_throw = False, sig_type_params = [], sig_uses_sret = False\<rparr>"

definition example_function :: "(IrBlockId \<times> IrBasicBlock) list \<Rightarrow> IrFunction" where
  "example_function bs =
     \<lparr>fn_id = 0, fn_name = ''f'', fn_qualified_name = None, fn_signature = example_signature,
      fn_cfg = \<lparr>cfg_blocks = bs, cfg_entry_block = 0, cfg_next_block_id = length bs\<rparr>,
      fn_locals = [], fn_register_types = [(2, TyI32)], fn_attributes = default_attributes,
      fn_kind = FkUserDefined, fn_next_reg_id = 8\<rparr>"

definition example_ctx :: "IrFunction \<Rightarrow> DecodeCtx" where
  "example_ctx f =
     \<lparr>cx_module = \<lparr>mod_name = ''m'', mod_functions = [(0, f)], mod_externs = []\<rparr>,
      cx_module_addr = 0, cx_function = f, cx_indirect = {}, cx_symbol = (\<lambda>_. None),
      cx_literal = (\<lambda>_. (0, 0)), cx_global_slot = (\<lambda>_. 0), cx_fma = False, cx_windows = False\<rparr>"

definition example_dec :: Dec where
  "example_dec =
     \<lparr>dc_mts = (\<lambda>r. Some MtI32), dc_next_reg = 8, dc_consts = Map.empty, dc_fmuls = Map.empty,
      dc_slot_bytes = 0, dc_live = Map.empty, dc_block_index = Map.empty, dc_current_block = 0,
      dc_env_param = False, dc_ops = []\<rparr>"

definition example_runtime :: "unit Runtime" where
  "example_runtime =
     \<lparr>rt_malloc = (\<lambda>n w. (0, w)), rt_free = (\<lambda>p w. w),
      rt_native = (\<lambda>code args ret w. (Inr 0, w)), rt_c_call = (\<lambda>code args w. (0, w)),
      rt_has_handler = (\<lambda>w. False), rt_slots = (\<lambda>n w. (0, w)),
      rt_drop_slots = (\<lambda>p n w. w), rt_function_address = (\<lambda>md fn. Inl PoppedOutside),
      rt_native_code = (\<lambda>fn. None), rt_function_at = (\<lambda>md fn. Inl PoppedOutside),
      rt_trampoline = (\<lambda>a. None)\<rparr>"

definition example_world :: "unit World" where
  "example_world = \<lparr>w_mem = (\<lambda>a. Some 0), w_ext = ()\<rparr>"

definition example_decoded :: Function where
  "example_decoded =
     \<lparr>f_id = 0, f_name = ''f'', f_module = 0, f_block_ids = [0], f_reg_mts = [],
      f_abi = \<lparr>abi_sret = False, abi_hidden_env = False, abi_params = [], abi_ret = Some MtI32\<rparr>,
      f_return_type = TyI32, f_params = [], f_explicit_env = False, f_registers = 8,
      f_slot_words = 0, f_live_slots = 0, f_entry = 0,
      f_blocks = [\<lparr>blk_ops = [OReg (RConst 0 5)], blk_term = TmReturn (Some 0)\<rparr>]\<rparr>"

definition example_frame :: Frame where
  "example_frame = new_frame example_decoded 4096 []"

definition example_meaning :: "IrFunction \<Rightarrow> (u64, Frame \<times> unit World, op_stop) mir_meaning" where
  "example_meaning f = interp_meaning 1 example_runtime (example_ctx f) (\<lambda>i. example_dec) example_dec"

text \<open>A dead constant, a branch on a constant, a product of constants.\<close>

definition dead_example :: IrFunction where
  "dead_example = example_function
     [example_block 0 [IConst 0 (VI32 5), IConst 1 (VI32 7)] (TReturn (Some 0))]"

definition branch_example :: IrFunction where
  "branch_example = example_function
     [example_block 0 [IConst 0 (VBool True)] (TCondBranch 0 1 2),
      example_block 1 [IConst 1 (VI32 9)] (TReturn (Some 1)),
      example_block 2 [] (TReturn None)]"

definition product_example :: IrFunction where
  "product_example = example_function
     [example_block 0 [IConst 0 (VI32 6), IConst 1 (VI32 7), IBinOp 2 BMul 0 1] (TReturn (Some 2))]"

lemmas example_defs =
  example_block_def example_signature_def example_function_def example_ctx_def example_dec_def
  example_runtime_def example_world_def example_decoded_def example_frame_def example_meaning_def
  dead_example_def branch_example_def product_example_def new_block_def

lemma example_return [simp]:
  "interp_return N rt (example_ctx (example_function bs)) example_dec (Some r) R (fr, w) =
     Inr (R r, (fr, w))"
  by (simp add: interp_return_def decode_return_def Let_def example_defs coerce_def reg_mt_def
      return_value_conv_def finish_return_def)

lemma example_get_block [simp]: "get_block (fn_cfg (example_function bs)) i = map_of bs i"
  by (simp add: get_block_def example_function_def)

lemma example_cfg_blocks [simp]: "cfg_blocks (fn_cfg (example_function bs)) = bs"
  by (simp add: example_function_def)

lemma example_fn_blocks [simp]: "fn_blocks (example_function bs) = map snd bs"
  by (simp add: fn_blocks_def)

lemma example_block_simps [simp]:
  "fst (example_block i is t) = i"
  "bb_instructions (snd (example_block i is t)) = is"
  "bb_terminator (snd (example_block i is t)) = t"
  "bb_phi_nodes (snd (example_block i is t)) = []"
  by (simp_all add: example_block_def new_block_def)

lemma map_of_example [simp]:
  "map_of (example_block i is t # bs) j = (if j = i then Some (snd (example_block i is t)) else map_of bs j)"
  by (simp add: example_block_def)

lemma prod_example [simp]: "case_prod h (example_block i is t) = h i (snd (example_block i is t))"
  by (simp add: example_block_def)

lemmas example_run =
  example_meaning_def block_step_def term_step_def successors_def inst_exec_const const_word_def
  write_dest_def take_phis_def edge_ok_def nonzero_def bool_bits_def

lemma dead_example_run:
  "mrun (example_meaning dead_example) 1 (fn_cfg dead_example) 0 R (fr, w) = MRet 5 (fr, w)"
  by (simp add: dead_example_def example_run)

lemma branch_example_run:
  "mrun (example_meaning branch_example) (Suc (Suc 0)) (fn_cfg branch_example) 0 R (fr, w) = MRet 9 (fr, w)"
  by (simp add: branch_example_def example_run)

lemma branch_example_constants: "collect_constants branch_example = [0 \<mapsto> VBool True, 1 \<mapsto> VI32 9]"
  by (simp add: collect_constants_def branch_example_def)

lemma product_example_ops:
  "inst_exec N rt (example_ctx product_example) (\<lambda>i. example_dec) (IBinOp 2 BMul 0 1) R s =
     Inr (Some (canon (R 0 * R 1) MtI32), s)"
  by (rule inst_exec_copy [OF int_binop_ops])
     (simp_all add: product_example_def example_defs reg_mt_def binop_type_def reg_type_def
      float_named_def ibin_def or_else_def del: canon.simps)

lemma product_example_run:
  "mrun (example_meaning product_example) 1 (fn_cfg product_example) 0 R (fr, w) = MRet 42 (fr, w)"
  by (simp add: product_example_def example_run
      product_example_ops [unfolded product_example_def One_nat_def])

end
