(* ===== verification/MirFoldCert.thy ===== *)
theory MirFoldCert
  imports MirSem
begin

text \<open>
  What constant folding does to a function in single assignment form whose instructions read
  registers defined before them. \<open>ready_cert\<close> says of the function given to the pass that, block
  by block, what an instruction reads has been defined on every way to it; the lemmas show that
  the pass then only puts constants where the operands are known to hold theirs (\<open>fold_cert\<close>), with
  the constants found in the result.
\<close>

section \<open>The function given to the pass\<close>

definition inst_defs :: "IrInstruction list \<Rightarrow> IrId list" where
  "inst_defs is = List.map_filter dest is"

definition phi_defs :: "IrFunction \<Rightarrow> IrId list" where
  "phi_defs f = map phi_dest (concat (map bb_phi_nodes (fn_blocks f)))"

text \<open>One definition at most of each register, phis included.\<close>

definition defined_once :: "IrFunction \<Rightarrow> bool" where
  "defined_once f \<longleftrightarrow> distinct (phi_defs f @ inst_defs (fn_insts f))"

text \<open>What each instruction reads is in the list of the block or defined earlier in it.\<close>

fun reads_ready :: "IrId set \<Rightarrow> IrInstruction list \<Rightarrow> bool" where
  "reads_ready A [] = True"
| "reads_ready A (i # is) =
     ((\<forall>u \<in> set (uses i). u \<in> A) \<and> reads_ready (A \<union> set_option (dest i)) is)"

definition ready_edges ::
  "(IrBlockId \<Rightarrow> IrId list) \<Rightarrow> IrControlFlowGraph \<Rightarrow> IrBlockId \<times> IrBasicBlock \<Rightarrow> bool" where
  "ready_edges A g ib =
     (case ib of (i, b) \<Rightarrow>
        list_all (\<lambda>s. case get_block g s of
            None \<Rightarrow> True
          | Some b' \<Rightarrow>
              list_all (\<lambda>d. d \<in> set (A i) \<or> d \<in> set (inst_defs (bb_instructions b)) \<or>
                  d \<in> phi_dest ` set (bb_phi_nodes b')) (A s))
          (successors b))"

definition ready_cert :: "(IrBlockId \<Rightarrow> IrId list) \<Rightarrow> IrControlFlowGraph \<Rightarrow> bool" where
  "ready_cert A g \<longleftrightarrow>
     list_all (\<lambda>(i, b). ready_edges A g (i, b) \<and> reads_ready (set (A i)) (bb_instructions b)) (cfg_blocks g)"

text \<open>The instructions the pass replaces, with the constants \<open>C\<close>.\<close>

definition folds :: "const_map \<Rightarrow> IrInstruction \<Rightarrow> bool" where
  "folds C i = (case fold_inst C i of Inr (i', C') \<Rightarrow> i' \<noteq> i | Inl e \<Rightarrow> False)"

section \<open>The constants of a function\<close>

lemma collect_constants_insts: "collect_constants f = fold collect_const (fn_insts f) Map.empty"
proof -
  have "fold (\<lambda>b C. fold collect_const (bb_instructions b) C) bs C =
      fold collect_const (concat (map bb_instructions bs)) C" for bs C
    by (induction bs arbitrary: C) simp_all
  then show ?thesis by (simp add: collect_constants_def fn_insts_def)
qed

lemma inst_defs_simps [simp]:
  "inst_defs [] = []"
  "inst_defs (i # is) = (case dest i of None \<Rightarrow> [] | Some d \<Rightarrow> [d]) @ inst_defs is"
  "inst_defs (xs @ ys) = inst_defs xs @ inst_defs ys"
  by (simp_all add: inst_defs_def map_filter_def split: option.splits)

lemma set_inst_defs: "set (inst_defs is) = {d. \<exists>i \<in> set is. dest i = Some d}"
  by (induction "is") (auto simp: inst_defs_def map_filter_def split: option.splits)

lemma distinct_defs:
  "distinct (inst_defs is) \<Longrightarrow> i \<in> set is \<Longrightarrow> j \<in> set is \<Longrightarrow> dest i = Some d \<Longrightarrow> dest j = Some d \<Longrightarrow> i = j"
  by (induction "is") (auto simp: set_inst_defs)

lemma fold_collect_const:
  assumes "distinct (inst_defs is)"
  shows "fold collect_const is C d = Some v \<longleftrightarrow>
     IConst d v \<in> set is \<or> C d = Some v \<and> (\<forall>w. IConst d w \<notin> set is)"
  using assms
proof (induction "is" arbitrary: C)
  case (Cons i "is")
  have later: "IConst e w \<in> set is \<Longrightarrow> dest i \<noteq> Some e" for e w
    using Cons.prems by (force simp: set_inst_defs)
  have "distinct (inst_defs is)" using Cons.prems by simp
  note IH = Cons.IH [OF this]
  show ?case
  proof (cases "\<exists>e w. i = IConst e w")
    case True
    then obtain e w where i: "i = IConst e w" by blast
    show ?thesis using later [of e] by (auto simp: i IH)
  next
    case False
    then have "collect_const i C = C" for C by (cases "(i, C)" rule: collect_const.cases) auto
    then show ?thesis using False by (auto simp: IH)
  qed
qed simp

lemma constant_iff:
  assumes "defined_once f"
  shows "collect_constants f d = Some v \<longleftrightarrow> IConst d v \<in> set (fn_insts f)"
  using assms fold_collect_const [of "fn_insts f" Map.empty d v]
  by (simp add: defined_once_def collect_constants_insts)

section \<open>One pass over the instructions\<close>

definition folded_inst :: "const_map \<Rightarrow> IrInstruction \<Rightarrow> IrInstruction \<Rightarrow> bool" where
  "folded_inst C i i' \<longleftrightarrow> dest i' = dest i \<and> (i' = i \<or> folds C i \<and> folded_to C (set (uses i)) i i')"

lemma folded_inst_const: "folded_inst C (IConst d v) i' \<Longrightarrow> i' = IConst d v"
  by (auto simp: folded_inst_def folds_def)

text \<open>An instruction is kept, or a constant takes its place.\<close>

lemma fold_inst_shape:
  assumes "fold_inst C i = Inr (i', C')"
  obtains (kept) "i' = i" "C' = C"
    | (bin) d op l r lv rv v where "i = IBinOp d op l r" "C l = Some lv" "C r = Some rv"
        "fold_binary_op op lv rv = Inr (Some v)" "i' = IConst d v" "C' = C(d \<mapsto> v)"
    | (cmp) d op l r lv rv v where "i = ICmp d op l r" "C l = Some lv" "C r = Some rv"
        "fold_comparison op lv rv = Some v" "i' = IConst d v" "C' = C(d \<mapsto> v)"
  using assms
  by (cases "(C, i)" rule: fold_inst.cases) (auto simp: rbind_Inr_iff split: option.splits)

lemma folded_to_mono:
  "folded_to C A i i' \<Longrightarrow> (\<And>u x. C u = Some x \<Longrightarrow> C' u = Some x) \<Longrightarrow> folded_to C' A i i'"
  by (cases "(C, A, i, i')" rule: folded_to.cases) (auto split: option.splits)

lemma folded_inst_mono:
  assumes "folded_inst C i i'" and "C \<subseteq>\<^sub>m C'"
  shows "folded_inst C' i i'"
proof (cases "i' = i")
  case True
  with assms(1) show ?thesis by (simp add: folded_inst_def)
next
  case False
  then have f: "folds C i" "folded_to C (set (uses i)) i i'" "dest i' = dest i"
    using assms(1) by (auto simp: folded_inst_def)
  then obtain i1 C1 where i1: "fold_inst C i = Inr (i1, C1)" "i1 \<noteq> i"
    by (auto simp: folds_def split: sum.splits)
  have up: "C u = Some x \<Longrightarrow> C' u = Some x" for u x
    using assms(2) by (metis domI map_le_def)
  from i1(1) have "folds C' i"
  proof (cases rule: fold_inst_shape)
    case (bin d op l r lv rv v)
    then show ?thesis by (simp add: folds_def up [OF bin(2)] up [OF bin(3)])
  next
    case (cmp d op l r lv rv v)
    then show ?thesis by (simp add: folds_def up [OF cmp(2)] up [OF cmp(3)])
  qed (use i1 in simp)
  then show ?thesis using folded_to_mono [OF f(2) up] f(3) by (simp add: folded_inst_def)
qed


text \<open>One instruction: it is folded or kept, and the constants grow by what it was folded to.\<close>

lemma fold_inst_result:
  assumes "fold_inst C i = Inr (i', C')" and "\<And>d v. i = IConst d v \<Longrightarrow> C d = Some v"
    and "\<And>d. dest i = Some d \<Longrightarrow> (\<And>v. i \<noteq> IConst d v) \<Longrightarrow> C d = None"
  shows "folded_inst C i i' \<and> C \<subseteq>\<^sub>m C' \<and>
     (\<forall>d v. C' d = Some v \<longleftrightarrow> C d = Some v \<or> i' = IConst d v)"
  using assms(1)
proof (cases rule: fold_inst_shape)
  case kept
  with assms(2) show ?thesis by (auto simp: folded_inst_def)
next
  case (bin d op l r lv rv v)
  have "C d = None" by (rule assms(3)) (simp_all add: bin(1))
  with bin show ?thesis by (auto simp: folded_inst_def folds_def map_le_def)
next
  case (cmp d op l r lv rv v)
  have "C d = None" by (rule assms(3)) (simp_all add: cmp(1))
  with cmp show ?thesis by (auto simp: folded_inst_def folds_def map_le_def)
qed

lemma fold_insts_result:
  assumes "fold_insts C is = Inr (is', C')" and "distinct (inst_defs is)"
    and "\<And>d v. IConst d v \<in> set is \<Longrightarrow> C d = Some v"
    and "\<And>i d. i \<in> set is \<Longrightarrow> dest i = Some d \<Longrightarrow> (\<And>v. i \<noteq> IConst d v) \<Longrightarrow> C d = None"
  shows "list_all2 (folded_inst C') is is' \<and> C \<subseteq>\<^sub>m C' \<and>
     (\<forall>d v. C' d = Some v \<longleftrightarrow> C d = Some v \<or> IConst d v \<in> set is')"
  using assms
proof (induction "is" arbitrary: C is' C')
  case (Cons i "is")
  from Cons.prems(1) obtain i1 C1 is1 where i1: "fold_inst C i = Inr (i1, C1)"
    and r: "fold_insts C1 is = Inr (is1, C')" and is': "is' = i1 # is1"
    by (auto simp: rbind_Inr_iff)
  have one: "folded_inst C i i1 \<and> C \<subseteq>\<^sub>m C1 \<and> (\<forall>d v. C1 d = Some v \<longleftrightarrow> C d = Some v \<or> i1 = IConst d v)"
  proof (rule fold_inst_result [OF i1])
    show "i = IConst d v \<Longrightarrow> C d = Some v" for d v by (rule Cons.prems(3)) simp
    show "dest i = Some d \<Longrightarrow> (\<And>v. i \<noteq> IConst d v) \<Longrightarrow> C d = None" for d
      by (rule Cons.prems(4) [of i]) simp_all
  qed
  have later: "e \<in> set (inst_defs is) \<Longrightarrow> dest i \<noteq> Some e" for e
    using Cons.prems(2) by auto
  have defs: "distinct (inst_defs is)" using Cons.prems(2) by simp
  have c1: "C1 d = Some v" if "IConst d v \<in> set is" for d v
    using Cons.prems(3) one that by auto
  have c2: "C1 d = None" if "j \<in> set is" "dest j = Some d" "\<And>v. j \<noteq> IConst d v" for j d
  proof -
    have "C d = None" by (rule Cons.prems(4)) (use that in auto)
    moreover have "dest i \<noteq> Some d" by (rule later) (use that in \<open>auto simp: set_inst_defs\<close>)
    then have "i1 \<noteq> IConst d v" for v using one by (auto simp: folded_inst_def)
    ultimately show ?thesis using one by (metis option.exhaust option.distinct(1))
  qed
  have rest: "list_all2 (folded_inst C') is is1 \<and> C1 \<subseteq>\<^sub>m C' \<and>
     (\<forall>d v. C' d = Some v \<longleftrightarrow> C1 d = Some v \<or> IConst d v \<in> set is1)"
    by (rule Cons.IH [OF r defs c1 c2])
  moreover have "C \<subseteq>\<^sub>m C'" using one rest map_le_trans by blast
  moreover have "folded_inst C' i i1" using one folded_inst_mono \<open>C \<subseteq>\<^sub>m C'\<close> by blast
  ultimately show ?case using one by (auto simp: is')
qed simp

lemma fold_insts_append:
  "fold_insts C (xs @ ys) =
     rbind (fold_insts C xs) (\<lambda>(xs', C'). rbind (fold_insts C' ys) (\<lambda>(ys', C''). Inr (xs' @ ys', C'')))"
  by (induction xs arbitrary: C) (auto simp: rbind_def split: sum.splits)

text \<open>Block by block is one pass over all instructions.\<close>

lemma fold_blocks_insts:
  assumes "fold_blocks C bs = Inr bs'"
  shows "\<exists>C'. fold_insts C (concat (map (bb_instructions \<circ> snd) bs)) =
      Inr (concat (map (bb_instructions \<circ> snd) bs'), C') \<and>
    list_all2 (\<lambda>ib ib'. fst ib' = fst ib \<and>
       snd ib' = (snd ib)\<lparr>bb_instructions := bb_instructions (snd ib')\<rparr> \<and>
       length (bb_instructions (snd ib')) = length (bb_instructions (snd ib))) bs bs'"
  using assms
proof (induction bs arbitrary: C bs')
  case (Cons ib bs)
  obtain i b where ib: "ib = (i, b)" by (cases ib)
  from Cons.prems obtain js C1 bs1 where b: "fold_insts C (bb_instructions b) = Inr (js, C1)"
    and r: "fold_blocks C1 bs = Inr bs1" and bs': "bs' = (i, b\<lparr>bb_instructions := js\<rparr>) # bs1"
    by (auto simp: ib rbind_Inr_iff)
  have len: "fold_insts D xs = Inr (ys, D') \<Longrightarrow> length ys = length xs" for D xs ys D'
    by (induction xs arbitrary: D ys) (auto simp: rbind_Inr_iff)
  from Cons.IH [OF r] len [OF b] b show ?case
    by (auto simp: ib bs' fold_insts_append rbind_def)
qed simp


section \<open>The result of the pass\<close>

lemma list_all2_concat:
  assumes "list_all2 (\<lambda>x y. length x = length y) xss yss" and "list_all2 P (concat xss) (concat yss)"
  shows "list_all2 (list_all2 P) xss yss"
  using assms
proof (induction xss yss rule: list_all2_induct)
  case (Cons xs xss ys yss)
  then have "list_all2 P xs ys \<and> list_all2 P (concat xss) (concat yss)"
    by (simp add: list_all2_append)
  with Cons.IH show ?case by simp
qed simp

lemma list_all2_right: "list_all2 P xs ys \<Longrightarrow> (\<And>x y. P x y \<Longrightarrow> Q y) \<Longrightarrow> list_all Q ys"
  by (induction rule: list_all2_induct) auto

definition folded_block ::
  "const_map \<Rightarrow> IrBlockId \<times> IrBasicBlock \<Rightarrow> IrBlockId \<times> IrBasicBlock \<Rightarrow> bool" where
  "folded_block C ib ib' \<longleftrightarrow>
     fst ib' = fst ib \<and> snd ib' = (snd ib)\<lparr>bb_instructions := bb_instructions (snd ib')\<rparr> \<and>
     list_all2 (folded_inst C) (bb_instructions (snd ib)) (bb_instructions (snd ib'))"

lemma folded_block_same:
  assumes "folded_block C (i, b) (j, b')"
  shows "j = i" "bb_phi_nodes b' = bb_phi_nodes b" "bb_terminator b' = bb_terminator b"
    "successors b' = successors b"
    "list_all2 (folded_inst C) (bb_instructions b) (bb_instructions b')"
proof -
  have eq: "b' = b\<lparr>bb_instructions := bb_instructions b'\<rparr>" and "j = i"
    using assms by (simp_all add: folded_block_def)
  show "j = i" by fact
  show "bb_phi_nodes b' = bb_phi_nodes b" by (subst eq) simp
  show t: "bb_terminator b' = bb_terminator b" by (subst eq) simp
  then show "successors b' = successors b" by (simp add: successors_def)
  show "list_all2 (folded_inst C) (bb_instructions b) (bb_instructions b')"
    using assms by (simp add: folded_block_def)
qed

lemma folded_insts_defs: "list_all2 (folded_inst C) is is' \<Longrightarrow> inst_defs is' = inst_defs is"
  by (induction rule: list_all2_induct) (auto simp: folded_inst_def)

lemma folding_result:
  assumes once: "defined_once f" and fold: "constant_folding f = Inr f'"
  shows "list_all2 (folded_block (collect_constants f')) (cfg_blocks (fn_cfg f)) (cfg_blocks (fn_cfg f'))"
    and "\<And>d v. collect_constants f' d = Some v \<longleftrightarrow> IConst d v \<in> set (fn_insts f')"
    and "inst_defs (fn_insts f') = inst_defs (fn_insts f)"
proof -
  let ?bs = "cfg_blocks (fn_cfg f)" and ?bs' = "cfg_blocks (fn_cfg f')"
  have all: "fn_insts h = concat (map (bb_instructions \<circ> snd) (cfg_blocks (fn_cfg h)))" for h
    by (simp add: fn_insts_def fn_blocks_def)
  from fold have "fold_blocks (collect_constants f) ?bs = Inr ?bs'"
    by (auto simp: constant_folding_def rbind_Inr_iff)
  from fold_blocks_insts [OF this] obtain C'
    where run: "fold_insts (collect_constants f) (fn_insts f) = Inr (fn_insts f', C')"
      and blocks: "list_all2 (\<lambda>ib ib'. fst ib' = fst ib \<and>
        snd ib' = (snd ib)\<lparr>bb_instructions := bb_instructions (snd ib')\<rparr> \<and>
        length (bb_instructions (snd ib')) = length (bb_instructions (snd ib))) ?bs ?bs'"
    by (auto simp: all)
  have defs: "distinct (inst_defs (fn_insts f))" using once by (simp add: defined_once_def)
  have other: "collect_constants f d = None"
    if "i \<in> set (fn_insts f)" "dest i = Some d" "\<And>v. i \<noteq> IConst d v" for i d
  proof (rule ccontr)
    assume "collect_constants f d \<noteq> None"
    then obtain v where "IConst d v \<in> set (fn_insts f)" using constant_iff [OF once] by auto
    with that distinct_defs [OF defs this that(1)] show False by auto
  qed
  have step: "list_all2 (folded_inst C') (fn_insts f) (fn_insts f') \<and> collect_constants f \<subseteq>\<^sub>m C' \<and>
     (\<forall>d v. C' d = Some v \<longleftrightarrow> collect_constants f d = Some v \<or> IConst d v \<in> set (fn_insts f'))"
    by (rule fold_insts_result [OF run defs]) (use other constant_iff [OF once] in auto)
  have kept: "IConst d v \<in> set (fn_insts f')" if "IConst d v \<in> set (fn_insts f)" for d v
    using that step folded_inst_const by (fastforce simp: list_all2_conv_all_nth in_set_conv_nth)
  have C': "C' d = Some v \<longleftrightarrow> IConst d v \<in> set (fn_insts f')" for d v
    using step kept constant_iff [OF once] by auto
  show same: "inst_defs (fn_insts f') = inst_defs (fn_insts f)"
    using step folded_insts_defs by blast
  have "collect_constants f' d = Some v \<longleftrightarrow> IConst d v \<in> set (fn_insts f')" for d v
    using fold_collect_const [of "fn_insts f'" Map.empty d v] defs same
    by (simp add: collect_constants_insts)
  then show "\<And>d v. collect_constants f' d = Some v \<longleftrightarrow> IConst d v \<in> set (fn_insts f')" .
  with C' have eq: "collect_constants f' = C'" by (intro ext) (metis option.exhaust)
  have "list_all2 (list_all2 (folded_inst C')) (map (bb_instructions \<circ> snd) ?bs) (map (bb_instructions \<circ> snd) ?bs')"
  proof (rule list_all2_concat)
    show "list_all2 (\<lambda>x y. length x = length y) (map (bb_instructions \<circ> snd) ?bs)
        (map (bb_instructions \<circ> snd) ?bs')"
      using blocks by (auto simp: list_all2_map1 list_all2_map2 elim!: list_all2_mono)
  qed (use step in \<open>simp add: all\<close>)
  with blocks show "list_all2 (folded_block (collect_constants f')) ?bs ?bs'"
    unfolding eq by (simp add: list_all2_conv_all_nth folded_block_def)
qed

section \<open>The certificate of the result\<close>

lemma const_out_keeps:
  assumes "\<forall>i \<in> set is. \<forall>d v. dest i = Some d \<longrightarrow> C d = Some v \<longrightarrow> i = IConst d v"
    and "C d \<noteq> None" and "d \<in> A \<or> d \<in> set (inst_defs is)"
  shows "d \<in> const_out C is A"
  using assms(1,3)
proof (induction "is" arbitrary: A)
  case Nil
  then show ?case by (simp add: const_out_def)
next
  case (Cons i "is")
  obtain v where v: "C d = Some v" using assms(2) by blast
  have "d \<in> const_step C i A \<or> d \<in> set (inst_defs is)"
  proof (cases "dest i = Some d")
    case True
    with Cons.prems(1) v have "i = IConst d v" by simp
    with v show ?thesis by simp
  next
    case False
    then have "d \<in> A \<or> d \<in> set (inst_defs is)" using Cons.prems(2) by (auto split: option.splits)
    with False show ?thesis
      by (cases "(C, i, A)" rule: const_step.cases) (auto split: option.splits)
  qed
  then have "d \<in> const_out C is (const_step C i A)"
    using Cons.IH [of "const_step C i A"] Cons.prems(1) by simp
  then show ?case by (simp add: const_out_def)
qed

lemma reads_ready_folded:
  assumes "list_all2 (folded_inst C) is is'" and "reads_ready R is"
    and "\<And>d. d \<in> R \<Longrightarrow> C d \<noteq> None \<Longrightarrow> d \<in> A"
    and "\<forall>i \<in> set is'. \<forall>d v. dest i = Some d \<longrightarrow> C d = Some v \<longrightarrow> i = IConst d v"
  shows "fold_cert_insts C A is is'"
  using assms
proof (induction "is" is' arbitrary: R A rule: list_all2_induct)
  case (Cons i "is" i' is')
  have known: "d \<in> const_step C i' A" if d: "d \<in> R \<union> set_option (dest i)" "C d \<noteq> None" for d
  proof -
    have "d \<in> A \<or> d \<in> set (inst_defs [i'])"
      using d Cons.prems(2) Cons.hyps(1) by (auto simp: folded_inst_def)
    from const_out_keeps [of "[i']" C d A] Cons.prems(3) d(2) this show ?thesis
      by (simp add: const_out_def)
  qed
  have "fold_cert_insts C (const_step C i' A) is is'"
    by (rule Cons.IH [of "R \<union> set_option (dest i)"]) (use Cons.prems(1,3) known in auto)
  moreover have "i' = i \<or> folded_to C A i i'"
  proof (cases "i' = i")
    case False
    then have "folded_to C (set (uses i)) i i'" using Cons.hyps(1) by (simp add: folded_inst_def)
    moreover have "\<forall>u \<in> set (uses i). C u \<noteq> None \<longrightarrow> u \<in> A"
      using Cons.prems(1,2) by auto
    ultimately show ?thesis
      by (cases "(C, set (uses i), i, i')" rule: folded_to.cases) (auto split: option.splits)
  qed simp
  ultimately show ?case by simp
qed simp

lemma get_block_in_fn: "get_block (fn_cfg f) i = Some b \<Longrightarrow> b \<in> set (fn_blocks f)"
  by (auto simp: get_block_def fn_blocks_def dest: map_of_SomeD_snd)

theorem folding_certified:
  assumes once: "defined_once f" and ready: "ready_cert A (fn_cfg f)" and fold: "constant_folding f = Inr f'"
  shows "fold_cert (collect_constants f') (\<lambda>i. filter (\<lambda>d. collect_constants f' d \<noteq> None) (A i))
     (fn_cfg f) (fn_cfg f')"
proof -
  let ?C = "collect_constants f'" and ?g = "fn_cfg f" and ?g' = "fn_cfg f'"
  let ?A = "\<lambda>i. filter (\<lambda>d. ?C d \<noteq> None) (A i)"
  note res = folding_result [OF once fold]
  have defs': "distinct (inst_defs (fn_insts f'))"
    using once res(3) by (simp add: defined_once_def)
  have only: "i = IConst d v" if "i \<in> set (fn_insts f')" "dest i = Some d" "?C d = Some v" for i d v
    using distinct_defs [OF defs' that(1) _ that(2)] that(3) res(2) by auto
  have phi: "?C d = None" if "b \<in> set (fn_blocks f)" "d \<in> phi_dest ` set (bb_phi_nodes b)" for b d
  proof (rule ccontr)
    assume "?C d \<noteq> None"
    then obtain v where "IConst d v \<in> set (fn_insts f')" using res(2) by auto
    then have "d \<in> set (inst_defs (fn_insts f))"
      unfolding res(3) [symmetric] by (force simp: set_inst_defs)
    moreover have "d \<in> set (phi_defs f)" using that by (auto simp: phi_defs_def)
    ultimately show False using once by (auto simp: defined_once_def)
  qed
  have at: "rel_option (\<lambda>b b'. folded_block ?C (s, b) (s, b')) (get_block ?g s) (get_block ?g' s)" for s
    unfolding get_block_def using res(1)
    by (induction rule: list_all2_induct) (auto simp: folded_block_def)
  have insts: "\<forall>i \<in> set (bb_instructions b'). \<forall>d v. dest i = Some d \<longrightarrow> ?C d = Some v \<longrightarrow> i = IConst d v"
    if mem: "(i, b') \<in> set (cfg_blocks ?g')" for i b'
  proof (intro ballI allI impI)
    fix k d v
    assume k: "k \<in> set (bb_instructions b')" and d: "dest k = Some d" "?C d = Some v"
    have "k \<in> set (fn_insts f')"
      unfolding fn_insts_def fn_blocks_def set_concat set_map using mem k by force
    from only [OF this d] show "k = IConst d v" .
  qed
  have block: "const_edges_ok ?C ?A ?g' (i', b') \<and> i' = i \<and> b' = b\<lparr>bb_instructions := bb_instructions b'\<rparr> \<and>
      fold_cert_insts ?C (set (?A i)) (bb_instructions b) (bb_instructions b')"
    if mem: "(i, b) \<in> set (cfg_blocks ?g)" "(i', b') \<in> set (cfg_blocks ?g')"
      and fb: "folded_block ?C (i, b) (i', b')" for i b i' b'
  proof -
    note same = folded_block_same [OF fb]
    from ready mem(1) have rd: "ready_edges A ?g (i, b)" "reads_ready (set (A i)) (bb_instructions b)"
      by (auto simp: ready_cert_def list_all_iff)
    have edge: "d \<in> const_out ?C (bb_instructions b') (set (?A i)) \<and> d \<notin> phi_dest ` set (bb_phi_nodes t')"
      if s: "s \<in> set (successors b)" and t': "get_block ?g' s = Some t'" and d: "d \<in> set (A s)" "?C d \<noteq> None"
      for s t' d
    proof -
      from at [of s] t' obtain t where t: "get_block ?g s = Some t" "folded_block ?C (s, t) (s, t')"
        by (cases "get_block ?g s") auto
      have np: "d \<notin> phi_dest ` set (bb_phi_nodes t)"
        using phi [OF get_block_in_fn [OF t(1)], of d] d(2) by auto
      have "d \<in> set (A i) \<or> d \<in> set (inst_defs (bb_instructions b))"
        using rd(1) s t(1) d(1) np by (fastforce simp: ready_edges_def list_all_iff)
      then have "d \<in> set (?A i) \<or> d \<in> set (inst_defs (bb_instructions b'))"
        using d(2) folded_insts_defs [OF same(5)] by auto
      from const_out_keeps [OF insts [OF mem(2)] d(2) this] np folded_block_same(2) [OF t(2)]
      show ?thesis by simp
    qed
    have "const_edges_ok ?C ?A ?g' (i', b')"
      using edge same by (auto simp: const_edges_ok_def list_all_iff split: option.splits)
    moreover have "fold_cert_insts ?C (set (?A i)) (bb_instructions b) (bb_instructions b')"
      by (rule reads_ready_folded [OF same(5) rd(2) _ insts [OF mem(2)]]) simp
    moreover have "b' = b\<lparr>bb_instructions := bb_instructions b'\<rparr>" using fb by (simp add: folded_block_def)
    ultimately show ?thesis using same(1) by blast
  qed
  from res(1) have both: "list_all2 (\<lambda>ib ib'. ib \<in> set (cfg_blocks ?g) \<and> ib' \<in> set (cfg_blocks ?g') \<and>
      folded_block ?C ib ib') (cfg_blocks ?g) (cfg_blocks ?g')"
    by (auto simp: list_all2_conv_all_nth)
  have "list_all (const_edges_ok ?C ?A ?g') (cfg_blocks ?g')"
    using both
  proof (rule list_all2_right)
    fix ib ib'
    assume "ib \<in> set (cfg_blocks ?g) \<and> ib' \<in> set (cfg_blocks ?g') \<and> folded_block ?C ib ib'"
    then show "const_edges_ok ?C ?A ?g' ib'"
      using block [of "fst ib" "snd ib" "fst ib'" "snd ib'"] by simp
  qed
  moreover have "list_all2 (\<lambda>(i, b) (i', b'). i' = i \<and> b' = b\<lparr>bb_instructions := bb_instructions b'\<rparr> \<and>
      fold_cert_insts ?C (set (?A i)) (bb_instructions b) (bb_instructions b')) (cfg_blocks ?g) (cfg_blocks ?g')"
    using both
  proof (rule list_all2_mono)
    fix ib ib'
    assume "ib \<in> set (cfg_blocks ?g) \<and> ib' \<in> set (cfg_blocks ?g') \<and> folded_block ?C ib ib'"
    then show "(case ib of (i, b) \<Rightarrow> (\<lambda>(i', b'). i' = i \<and> b' = b\<lparr>bb_instructions := bb_instructions b'\<rparr> \<and>
        fold_cert_insts ?C (set (?A i)) (bb_instructions b) (bb_instructions b'))) ib'"
      using block [of "fst ib" "snd ib" "fst ib'" "snd ib'"] by (simp add: case_prod_beta)
  qed
  ultimately show ?thesis by (simp only: fold_cert_def const_cert_def)
qed

lemma folded_in_block:
  assumes "defined_once f" and "constant_folding f = Inr f'"
    and "get_block (fn_cfg f) j = Some b" and "get_block (fn_cfg f') j = Some b'"
    and "(i, i') \<in> set (zip (bb_instructions b) (bb_instructions b'))" and "i \<noteq> i'"
  shows "i \<in> set (fn_insts f) \<and> folds (collect_constants f') i"
proof -
  let ?C = "collect_constants f'"
  have "rel_option (\<lambda>b b'. folded_block ?C (j, b) (j, b')) (get_block (fn_cfg f) j) (get_block (fn_cfg f') j)"
    unfolding get_block_def using folding_result(1) [OF assms(1,2)]
    by (induction rule: list_all2_induct) (auto simp: folded_block_def)
  then have "list_all2 (folded_inst ?C) (bb_instructions b) (bb_instructions b')"
    using assms(3,4) folded_block_same(5) by auto
  then have "folded_inst ?C i i'" using assms(5) by (auto simp: list_all2_iff)
  moreover have "i \<in> set (bb_instructions b)" using assms(5) by (rule set_zip_leftD)
  ultimately show ?thesis
    using assms(6) get_block_in_fn [OF assms(3)] by (auto simp: folded_inst_def fn_insts_def)
qed

end
