(* ===== verification/MirProperties.thy ===== *)
theory MirProperties
  imports MirExamples MirFoldCert
begin

text \<open>
  The properties of the MIR, its passes, the decoder and the machine of the interpreter, each with a
  witness where it has hypotheses.
\<close>

lemma three_orders:
  assumes "distinct xs" and "set xs = {a, b, c}" and "hd xs = a" and "distinct [a, b, c]"
  shows "xs = [a, b, c] \<or> xs = [a, c, b]"
proof -
  from assms have "length xs = 3" by (simp flip: distinct_card)
  then obtain x y z where xs: "xs = [x, y, z]"
    by (auto simp: length_Suc_conv numeral_3_eq_3)
  with assms show ?thesis by auto
qed

lemma distinct_one: "distinct xs \<Longrightarrow> set xs = {a} \<Longrightarrow> xs = [a]"
  by (cases xs; cases "tl xs") auto

section \<open>The scalar passes on the interpreter\<close>

text \<open>
  C1. Dead code elimination keeps every run of the interpreter: where the instructions it removes
  only compute a register, a run that did not fail gives the same result, registers returned and
  memory included, on the function the pass returns.
\<close>

theorem dead_code_elimination_preserves:
  assumes "\<And>b i. b \<in> set (fn_blocks f) \<Longrightarrow> i \<in> set (bb_instructions b) \<Longrightarrow>
      \<not> dce_keeps (find_used_registers f) i \<Longrightarrow> inst_pure cx D i"
    and "\<And>e. mrun (interp_meaning N rt cx D E) n (fn_cfg f) i R w \<noteq> MErr e"
  shows "mrun (interp_meaning N rt cx D E) n (fn_cfg (fst (eliminate_dead_instructions f))) i R w =
         mrun (interp_meaning N rt cx D E) n (fn_cfg f) i R w"
  by (rule mir.dce_preserves) (use assms in auto)

theorem dead_code_elimination_witness:
  "mrun (example_meaning dead_example) 1 (fn_cfg (fst (eliminate_dead_instructions dead_example))) 0
     (\<lambda>r. 0) (example_frame, example_world) = MRet 5 (example_frame, example_world) \<and>
   snd (eliminate_dead_instructions dead_example) = 1"
proof
  have "inst_pure (example_ctx dead_example) (\<lambda>i. example_dec) i"
    if "b \<in> set (fn_blocks dead_example)" "i \<in> set (bb_instructions b)" for b i
    using that by (auto simp: dead_example_def inst_pure_def inst_ops_const)
  then show "mrun (example_meaning dead_example) 1
      (fn_cfg (fst (eliminate_dead_instructions dead_example))) 0 (\<lambda>r. 0) (example_frame, example_world) =
    MRet 5 (example_frame, example_world)"
    unfolding example_meaning_def
    by (subst dead_code_elimination_preserves)
       (use dead_example_run in \<open>auto simp: example_meaning_def\<close>)
  show "snd (eliminate_dead_instructions dead_example) = 1"
    by (simp add: eliminate_dead_instructions_def Let_def dead_example_def find_used_registers_def
        block_used_def dce_keeps_def)
qed

text \<open>
  C2. Unreachable block elimination keeps every run from the entry block, failing ones included:
  removing the blocks no edge leads to, and the incoming values of phis from them, changes nothing
  the interpreter does.
\<close>

theorem unreachable_block_elimination_preserves:
  "mrun (interp_meaning N rt cx D E) n (fn_cfg (fst (unreachable_block_elimination f)))
     (entry_block f) R w =
   mrun (interp_meaning N rt cx D E) n (fn_cfg f) (entry_block f) R w"
  by (rule mir.ube_preserves) (simp add: find_reachable_iff reach_entry)

text \<open>
  C3. Control flow simplification keeps every run that does not fail: a conditional branch on a
  register the function-wide map knows as a boolean constant becomes a jump to the target the
  interpreter would take, where the constant is known to be computed before the branch
  (\<open>const_cert\<close>, \<open>branch_cert\<close>, checked block by block).
\<close>

theorem control_flow_simplification_preserves:
  assumes "const_cert (collect_constants f) A (fn_cfg f)"
    and "branch_cert (collect_constants f) A (fn_cfg f)"
    and "holds (interp_meaning N rt cx D E) (collect_constants f) (set (A i)) R"
    and "\<And>e. mrun (interp_meaning N rt cx D E) n (fn_cfg f) i R w \<noteq> MErr e"
  shows "mrun (interp_meaning N rt cx D E) n (fn_cfg (simplify_conditional_branches f)) i R w =
         mrun (interp_meaning N rt cx D E) n (fn_cfg f) i R w"
  by (rule mir.cfs_preserves) (use assms in auto)

theorem control_flow_simplification_witness:
  "mrun (example_meaning branch_example) (Suc (Suc 0)) (fn_cfg (simplify_conditional_branches branch_example)) 0
     (\<lambda>r. 0) (example_frame, example_world) = MRet 9 (example_frame, example_world)"
proof -
  have "const_cert (collect_constants branch_example) (\<lambda>_. []) (fn_cfg branch_example)"
    "branch_cert (collect_constants branch_example) (\<lambda>_. []) (fn_cfg branch_example)"
    unfolding branch_example_constants
    by (simp_all add: const_cert_def branch_cert_def const_edges_ok_def successors_def const_out_def
        branch_example_def)
  then show ?thesis
    unfolding example_meaning_def
    by (subst control_flow_simplification_preserves [where A = "\<lambda>_. []"])
       (use branch_example_run in \<open>auto simp: example_meaning_def holds_def\<close>)
qed

text \<open>
  C4. Constant folding keeps every run that does not fail: what \<open>fold_binary_op\<close> and
  \<open>fold_comparison\<close> put in place of an operation on known constants is what the decoded operation
  computes, where the operands have the machine types of the constants. The function given to the pass
  is in single assignment form (\<open>defined_once\<close>) and reads what has been defined on every way to the
  reading instruction (\<open>ready_cert\<close>, checked block by block). Floats compared for equality are left
  out: the pass compares them up to epsilon.
\<close>

theorem constant_folding_preserves:
  assumes "defined_once f" and "ready_cert A (fn_cfg f)" and "constant_folding f = Inr f'"
    and "\<And>k. k \<in> set (fn_insts f) \<Longrightarrow> folds (collect_constants f') k \<Longrightarrow>
        interp_foldable cx D (collect_constants f') k"
    and "holds (interp_meaning N rt cx D E) (collect_constants f') (set (A i)) R"
    and "\<And>e. mrun (interp_meaning N rt cx D E) n (fn_cfg f) i R w \<noteq> MErr e"
  shows "mrun (interp_meaning N rt cx D E) n (fn_cfg f') i R w =
         mrun (interp_meaning N rt cx D E) n (fn_cfg f) i R w"
proof (rule mirf.fold_preserves [OF assms(3) folding_certified [OF assms(1-3)]])
  show "interp_foldable cx D (collect_constants f') k"
    if "get_block (fn_cfg f) j = Some b" "get_block (fn_cfg f') j = Some b'"
      "(k, k') \<in> set (zip (bb_instructions b) (bb_instructions b'))" "k \<noteq> k'" for b b' j k k'
    using folded_in_block [OF assms(1,3) that] assms(4) by blast
  show "holds (interp_meaning N rt cx D E) (collect_constants f')
      (set (filter (\<lambda>d. collect_constants f' d \<noteq> None) (A i))) R"
    by (rule mir.holds_mono [OF assms(5)]) auto
qed (rule assms(6))

theorem constant_folding_witness:
  "\<exists>f'. constant_folding product_example = Inr f' \<and>
     get_block (fn_cfg f') 0 =
       Some (snd (example_block 0 [IConst 0 (VI32 6), IConst 1 (VI32 7), IConst 2 (VI32 42)]
                    (TReturn (Some 2)))) \<and>
     mrun (example_meaning product_example) 1 (fn_cfg f') 0 (\<lambda>r. 0) (example_frame, example_world) =
       MRet 42 (example_frame, example_world)"
proof -
  let ?f' = "example_function
     [example_block 0 [IConst 0 (VI32 6), IConst 1 (VI32 7), IConst 2 (VI32 42)] (TReturn (Some 2))]"
  have fold: "constant_folding product_example = Inr ?f'"
    by (simp add: constant_folding_def collect_constants_def product_example_def example_function_def
        fn_blocks_def fold_binary_op_def example_block_def new_block_def)
  have insts: "fn_insts product_example = [IConst 0 (VI32 6), IConst 1 (VI32 7), IBinOp 2 BMul 0 1]"
    by (simp add: fn_insts_def product_example_def)
  have once: "defined_once product_example"
    by (simp add: defined_once_def insts phi_defs_def) (simp add: product_example_def)
  have ready: "ready_cert (\<lambda>_. []) (fn_cfg product_example)"
    by (simp add: ready_cert_def ready_edges_def successors_def product_example_def)
  have known: "collect_constants ?f' = [0 \<mapsto> VI32 6, 1 \<mapsto> VI32 7, 2 \<mapsto> VI32 42]"
    by (simp add: collect_constants_def)
  have typed: "interp_foldable (example_ctx product_example) (\<lambda>i. example_dec) (collect_constants ?f') k"
    if "k \<in> set (fn_insts product_example)" "folds (collect_constants ?f') k" for k
  proof -
    have "k = IBinOp 2 BMul 0 1" using that by (auto simp: insts folds_def)
    then show ?thesis
      unfolding known
      by (simp add: interp_foldable_def example_dec_def reg_mt_def example_ctx_def binop_type_def
          reg_type_def or_else_def product_example_def example_function_def)
  qed
  have "mrun (example_meaning product_example) 1 (fn_cfg ?f') 0 (\<lambda>r. 0) (example_frame, example_world) =
      MRet 42 (example_frame, example_world)"
    unfolding example_meaning_def
    by (subst constant_folding_preserves [OF once ready fold typed])
       (use product_example_run in \<open>auto simp: example_meaning_def holds_def\<close>)
  with fold show ?thesis by auto
qed

text \<open>
  C5. What \<open>decode_instruction\<close> emits for an instruction reads only registers that \<open>uses\<close> reports
  or that it has itself written before, and writes only the register \<open>dest\<close> reports and fresh
  temporaries: the passes' view of an instruction is the interpreter's.
\<close>

theorem decoded_instruction_frame:
  "\<not> cx_fma cx \<Longrightarrow> dc_ops D = [] \<Longrightarrow>
     reads_ok (set (uses i)) (dc_ops (decode_instruction cx i D)) \<and>
     op_dests (dc_ops (decode_instruction cx i D)) \<subseteq>
       set_option (dest i) \<union> {dc_next_reg D..<dc_next_reg (decode_instruction cx i D)}"
  by (rule decode_instruction_ops)

theorem decoded_instruction_frame_witness:
  "reads_ok {0, 1}
     (dc_ops (decode_instruction (example_ctx product_example) (IBinOp 2 BMul 0 1) example_dec)) \<and>
   op_dests (dc_ops (decode_instruction (example_ctx product_example) (IBinOp 2 BMul 0 1) example_dec))
     \<subseteq> {2, 8}"
proof -
  have next_reg: "dc_next_reg (decode_instruction (example_ctx product_example)
      (IBinOp 2 BMul 0 1) example_dec) = 9"
    by code_simp
  have start: "\<not> cx_fma (example_ctx product_example)" "dc_ops example_dec = []" "dc_next_reg example_dec = 8"
    by (simp_all add: example_ctx_def example_dec_def)
  have "{8..<9} = {8 :: nat}" by auto
  then show ?thesis
    using decoded_instruction_frame [OF start(1,2), of "IBinOp 2 BMul 0 1"]
    unfolding next_reg start(3) by (simp add: insert_commute)
qed

text \<open>
  C12. \<open>reverse_post_order\<close> lists every block of a function once, the blocks the entry reaches
  first and the entry block before all others.
\<close>

theorem reverse_post_order_enumerates:
  assumes "bt_wf (cfg_blocks (fn_cfg f))"
  shows "distinct (reverse_post_order f) \<and>
    set (reverse_post_order f) = fst ` set (cfg_blocks (fn_cfg f)) \<and>
    (\<exists>n. set (take n (reverse_post_order f)) =
           {i. cfg_reach (fn_cfg f) (entry_block f) i \<and> get_block (fn_cfg f) i \<noteq> None}) \<and>
    (get_block (fn_cfg f) (entry_block f) \<noteq> None \<longrightarrow>
       reverse_post_order f \<noteq> [] \<and> hd (reverse_post_order f) = entry_block f)"
proof (rule reverse_post_order_facts [OF assms])
  fix reached rest
  assume o: "reverse_post_order f = reached @ rest"
    and r: "set reached =
      {i. cfg_reach (fn_cfg f) (entry_block f) i} \<inter> fst ` set (cfg_blocks (fn_cfg f))"
    and rest: "set rest =
      fst ` set (cfg_blocks (fn_cfg f)) - {i. cfg_reach (fn_cfg f) (entry_block f) i}"
    and d: "distinct (reached @ rest)"
    and e: "get_block (fn_cfg f) (entry_block f) \<noteq> None \<Longrightarrow> reached \<noteq> [] \<and> hd reached = entry_block f"
  have "set (take (length reached) (reverse_post_order f)) =
      {i. cfg_reach (fn_cfg f) (entry_block f) i \<and> get_block (fn_cfg f) i \<noteq> None}"
    unfolding get_block_dom by (auto simp: o r)
  moreover have "set (reverse_post_order f) = fst ` set (cfg_blocks (fn_cfg f))"
    using r rest by (auto simp: o)
  moreover have "distinct (reverse_post_order f)" using d by (simp only: o)
  moreover have "get_block (fn_cfg f) (entry_block f) \<noteq> None \<longrightarrow>
      reverse_post_order f \<noteq> [] \<and> hd (reverse_post_order f) = entry_block f"
    using e by (auto simp: o)
  ultimately show ?thesis by blast
qed

theorem reverse_post_order_witness:
  "reverse_post_order branch_example = [0, 1, 2] \<or> reverse_post_order branch_example = [0, 2, 1]"
proof -
  have wf: "bt_wf (cfg_blocks (fn_cfg branch_example))"
    by (simp add: branch_example_def bt_wf_def)
  have e: "entry_block branch_example = 0"
    by (simp add: entry_block_def branch_example_def example_function_def)
  have b: "fst ` set (cfg_blocks (fn_cfg branch_example)) = {0, 1, 2}"
    "get_block (fn_cfg branch_example) 0 \<noteq> None"
    by (auto simp: branch_example_def)
  let ?r = "reverse_post_order branch_example"
  from reverse_post_order_enumerates [OF wf]
  have "distinct ?r" "set ?r = {0, 1, 2}" "hd ?r = 0"
    unfolding e b(1) using b(2) by blast+
  then show ?thesis using three_orders [of ?r 0 1 2] by simp
qed

text \<open>
  C13. Decoding gives every edge and the entry the number of a block of the decoded function: an
  index the machine uses without a check is in range, whatever instructions fail to decode.
\<close>

theorem decode_function_in_range:
  assumes "decode_function cx i = Inr g" and "\<not> cx_fma cx"
    and "map_of (mod_functions (cx_module cx)) i = Some f"
    and "bt_wf (cfg_blocks (fn_cfg f))" and "get_block (fn_cfg f) (entry_block f) \<noteq> None"
  shows "function_ok g"
  by (rule decode_function_ok) (use assms in auto)

theorem decode_function_in_range_witness:
  "\<exists>g. decode_function (example_ctx branch_example) 0 = Inr g \<and> function_ok g"
proof -
  obtain g where "decode_function (example_ctx branch_example) 0 = Inr g"
    using decode_function_total [of "example_ctx branch_example" 0 branch_example]
    by (auto simp: example_ctx_def is_extern_def branch_example_def)
  moreover from this have "function_ok g"
    by (rule decode_function_in_range [where f = branch_example])
       (simp_all add: example_ctx_def bt_wf_def entry_block_def,
        simp_all add: branch_example_def example_function_def get_block_def)
  ultimately show ?thesis by blast
qed

section \<open>The machine\<close>

text \<open>
  C14. The machine stays inside its functions: every stack it gets to from a call has at most
  \<open>MAX_DEPTH\<close> frames, and each frame's block is one of its function's, where the functions the
  interpreter loads are decoded ones.
\<close>

theorem machine_stays_inside:
  assumes "interp_call n rt f args w = OutNext fs' w'" and "function_ok f" and "loads_ok rt"
  shows "length fs' \<le> MAX_DEPTH \<and>
    (\<forall>fr \<in> set fs'. fr_block fr < length (f_blocks (fr_f fr)))"
proof -
  obtain fr w1 where e: "enter_function rt f args w = (fr, w1)" by fastforce
  from enter_function_ok [OF assms(2) e] have "stack_ok [fr]" by (simp add: stack_ok_def MAX_DEPTH_def)
  moreover have "machine_run n rt [fr] w1 = OutNext fs' w'"
    using assms(1) by (simp add: interp_call_def e)
  ultimately have "stack_ok fs'" using machine_run_ok assms(3) by blast
  then show ?thesis by (simp add: stack_ok_def frame_ok_def list_all_iff)
qed

theorem machine_stays_inside_witness:
  "\<exists>fs. interp_call 1 example_runtime example_decoded [] example_world = OutNext fs example_world \<and>
     length fs \<le> MAX_DEPTH"
proof -
  have "interp_call 1 example_runtime example_decoded [] example_world =
      OutNext [set_reg 0 5 (new_frame example_decoded 0 [])\<lparr>fr_pc := 1\<rparr>] example_world"
    by (simp add: interp_call_def enter_function_def example_defs new_frame_def exec_op_def
        exec_reg_def set_reg_def)
  moreover have "function_ok example_decoded" "loads_ok example_runtime"
    by (simp_all add: function_ok_def loads_ok_def example_defs edges_below_def term_edges_def)
  ultimately show ?thesis using machine_stays_inside by blast
qed

text \<open>
  C15. An edge assigns the phis of its target in parallel: each gets the converted value its source
  had before the edge, whatever the order of the moves, and no other register changes.
\<close>

theorem edge_assigns_in_parallel:
  assumes "take_edge fr e = Inr fr'" and "distinct (map fst (edge_moves e))"
  shows "(\<forall>(d, s, c1, c2) \<in> set (edge_moves e).
            convert (fr_regs fr s) c1 c2 = Inr (fr_regs fr' d)) \<and>
         (\<forall>x. x \<notin> fst ` set (edge_moves e) \<longrightarrow> fr_regs fr' x = fr_regs fr x) \<and>
         fr_block fr' = edge_block e"
proof -
  from take_edge_regs [OF assms(1)] obtain vs where vs: "move_values (fr_regs fr) (edge_moves e) = Inr vs"
    and regs: "fr_regs fr' = assign_moves (edge_moves e) vs (fr_regs fr)" by blast
  note mv = move_values_eq [OF vs]
  have "convert (fr_regs fr s) c1 c2 = Inr (fr_regs fr' d)"
    if "(d, s, c1, c2) \<in> set (edge_moves e)" for d s c1 c2
  proof -
    from that obtain k where k: "k < length (edge_moves e)" "edge_moves e ! k = (d, s, c1, c2)"
      by (auto simp: in_set_conv_nth)
    then have "fr_regs fr' d = vs ! k"
      using assign_moves_nth [OF assms(2), of vs k "fr_regs fr"] mv by (simp add: regs)
    with mv k show ?thesis by auto
  qed
  then show ?thesis using take_edge_block [OF assms(1)] by (auto simp: regs assign_moves_outside)
qed

theorem edge_assigns_in_parallel_witness:
  "\<exists>fr'. take_edge (example_frame\<lparr>fr_regs := (\<lambda>r. word_of_nat r)\<rparr>)
      \<lparr>edge_block = 0, edge_moves = [(1, 2, None, None), (2, 1, None, None)]\<rparr> = Inr fr' \<and>
     fr_regs fr' 1 = 2 \<and> fr_regs fr' 2 = 1"
proof -
  let ?fr = "example_frame\<lparr>fr_regs := (\<lambda>r. word_of_nat r)\<rparr>"
  let ?e = "\<lparr>edge_block = 0, edge_moves = [(1, 2, None, None), (2, 1, None, None)]\<rparr> :: Edge"
  obtain fr' where t: "take_edge ?fr ?e = Inr fr'"
    by (simp add: take_edge_def convert_def)
  from edge_assigns_in_parallel [OF t] show ?thesis using t by (auto simp: convert_def)
qed

text \<open>
  C16. A store that succeeds is read back by a load of the same type, truncated to its width, and
  a load of any other bytes reads what it read before.
\<close>

theorem load_after_store:
  assumes "mem_write rt w a m v = Inr w'"
  shows "mem_read rt w' a m = Inr (canon v m) \<and>
    (\<forall>b n. span a (mt_bytes m) \<inter> span b (mt_bytes n) = {} \<longrightarrow> \<not> uint b < 4096 \<longrightarrow>
       mem_read rt w' b n = mem_read rt w b n)"
  using mem_read_write [OF assms] mem_read_write_other [OF assms] by blast

theorem load_after_store_witness:
  "\<exists>w'. mem_write example_runtime example_world 0x2000 MtI16 0x12345 = Inr w' \<and>
     mem_read example_runtime w' 0x2000 MtI16 = Inr 0x2345"
proof -
  obtain w' where w: "mem_write example_runtime example_world 0x2000 MtI16 0x12345 = Inr w'"
    using mem_write_total [of "0x2000" MtI16 example_world example_runtime "0x12345"]
    by (auto simp: example_world_def)
  with load_after_store [OF w] show ?thesis by auto
qed

section \<open>Arithmetic\<close>

text \<open>
  C18. The integer operators fail exactly where the hardware traps: on a zero divisor, and on the
  quotient of the least value by -1, at the width of the machine type.
\<close>

theorem integer_traps_iff:
  "(\<exists>e. ibin op m a b = Inl e) \<longleftrightarrow>
     op \<in> {IoSDiv, IoSRem} \<and> sext b m = 0 \<or>
     op \<in> {IoUDiv, IoURem} \<and> b = 0 \<or>
     op = IoSDiv \<and> sext b m = - 1 \<and> sext a m = sext_min m"
  by (cases op) (simp_all add: ibin_def Let_def rbind_Inl_iff del: sext.simps)

text \<open>
  C19. Where constant folding computes an operation on two \<open>i32\<close> constants, it computes what the
  interpreter's operator does on the registers holding them.
\<close>

theorem integer_folding_agrees:
  assumes "fold_int_op op a b = Inr (Some v)"
  shows "\<exists>c. v = VI32 c \<and> ibin (int_op True op) MtI32 (ucast a) (ucast b) = Inr (ucast c)"
  by (rule fold_int_op_exec [OF assms])

theorem integer_folding_agrees_witness:
  "\<exists>c. VI32 (-3) = VI32 c \<and>
     ibin (int_op True BDiv) MtI32 (ucast (-7 :: u32)) (ucast (2 :: u32)) = Inr (ucast c)"
  by (rule integer_folding_agrees) code_simp

text \<open>
  C20. Constant folding panics, and takes the compiler down, on exactly one pair of constants: the
  least \<open>i32\<close> divided by -1, or its remainder. The program it compiles would trap on the first
  and get 0 from the second.
\<close>

theorem folding_panics_iff:
  "fold_int_op op a b = Inl Panic \<longleftrightarrow> op \<in> {BDiv, BRem} \<and> sint a = - (2 ^ 31) \<and> b = - 1"
  by (cases op) (auto simp: rust_sdiv_def rust_srem_def split: option.splits if_splits)

text \<open>
  \<open>FEq\<close> of two constants is decided up to epsilon by the pass and exactly by the interpreter:
  two floats next to each other are folded to equal and run as different.
\<close>

theorem float_equality_diverges:
  "fold_comparison CFEq (VF64 0x3FB999999999999A) (VF64 0x3FB999999999999B) = Some (VBool True) \<and>
   \<not> fcmp FcEq MtF64 0x3FB999999999999A 0x3FB999999999999B"
  by code_simp

section \<open>The graph\<close>

text \<open>
  C21. \<open>find_reachable\<close> marks exactly the blocks a path of the graph leads to from the entry.
\<close>

theorem find_reachable_exact:
  "find_reachable f = {i. cfg_reach (fn_cfg f) (entry_block f) i}"
  using find_reachable_iff by blast

text \<open>
  C22. \<open>verify\<close> accepts exactly the well-formed graphs: the entry is a block, every block has a
  terminator other than \<open>Unreachable\<close>, its targets are blocks, and its phis name predecessors.
\<close>

theorem verify_accepts_iff: "verify g = Inr () \<longleftrightarrow> wf_cfg g"
  by (rule verify_iff)

text \<open>
  C23. \<open>recompute_predecessors\<close> gives each block, once each, exactly the blocks that have it as a
  successor, and changes nothing else of it.
\<close>

theorem predecessors_recomputed:
  assumes "bt_wf (cfg_blocks g)" and "get_block g i = Some b"
  shows "\<exists>b'. get_block (recompute_predecessors g) i = Some b' \<and>
           distinct (bb_predecessors b') \<and>
           set (bb_predecessors b') =
             {p. \<exists>pb. get_block g p = Some pb \<and> i \<in> set (successors pb)} \<and>
           bb_terminator b' = bb_terminator b \<and> bb_phi_nodes b' = bb_phi_nodes b \<and>
           bb_instructions b' = bb_instructions b"
  by (rule recompute_predecessors_block [OF assms])

theorem predecessors_recomputed_witness:
  "\<exists>b'. get_block (recompute_predecessors (fn_cfg branch_example)) 1 = Some b' \<and>
     bb_predecessors b' = [0]"
proof -
  have wf: "bt_wf (cfg_blocks (fn_cfg branch_example))" by (simp add: branch_example_def bt_wf_def)
  have g: "get_block (fn_cfg branch_example) 1 =
      Some (snd (example_block 1 [IConst 1 (VI32 9)] (TReturn (Some 1))))"
    by (simp add: branch_example_def)
  have p: "{p. \<exists>pb. get_block (fn_cfg branch_example) p = Some pb \<and> 1 \<in> set (successors pb)} = {0}"
    by (auto simp: branch_example_def successors_def split: if_splits)
  from predecessors_recomputed [OF wf g, unfolded p] obtain b' where
    b': "get_block (recompute_predecessors (fn_cfg branch_example)) 1 = Some b'"
      "distinct (bb_predecessors b')" "set (bb_predecessors b') = {0}"
    by (elim exE conjE)
  from distinct_one [OF b'(2,3)] b'(1) show ?thesis by (intro exI conjI)
qed

text \<open>
  Creating blocks keeps the graph's numbering: the new id is fresh and leads to an empty block,
  and every block stays stored under its own id below the next one.
\<close>

theorem create_block_fresh:
  assumes "cfg_ids_ok g" and "create_block g = (i, g')"
  shows "cfg_ids_ok g' \<and> get_block g i = None \<and> get_block g' i = Some (new_block i)"
  by (rule cfg_ids_ok_create [OF assms])

theorem create_block_fresh_witness:
  "get_block (snd (create_block new_cfg)) 1 = Some (new_block 1)"
  using create_block_fresh [OF cfg_ids_ok_new, of "fst (create_block new_cfg)" "snd (create_block new_cfg)"]
  by (simp add: create_block_def new_cfg_def Let_def)

section \<open>Renaming registers\<close>

text \<open>
  C24. \<open>replace_uses\<close> renames every register an instruction reads, through the map, keeps the one
  it defines and its side effects, and is the identity where the map has none of its registers;
  except for the ten kinds of instructions it has no case for, which keep reading the old ones.
\<close>

theorem replace_uses_renames:
  "uses (replace_uses \<rho> i) = (if skips_replace i then uses i else map (rep \<rho>) (uses i)) \<and>
   (\<not> writes_through_dest i \<longrightarrow> dest (replace_uses \<rho> i) = dest i) \<and>
   has_side_effects (replace_uses \<rho> i) = has_side_effects i \<and>
   (set (uses i) \<inter> dom \<rho> = {} \<longrightarrow> replace_uses \<rho> i = i)"
  by (simp add: uses_replace_uses dest_replace_uses replace_uses_outside)

theorem replace_uses_renames_witness:
  "uses (replace_uses [1 \<mapsto> 4] (IBinOp 2 BAdd 1 3)) = [4, 3] \<and>
   dest (replace_uses [1 \<mapsto> 4] (IBinOp 2 BAdd 1 3)) = Some 2 \<and>
   replace_uses [5 \<mapsto> 4] (IBinOp 2 BAdd 1 3) = IBinOp 2 BAdd 1 3"
  using replace_uses_renames [of "[1 \<mapsto> 4]" "IBinOp 2 BAdd 1 3"]
    replace_uses_renames [of "[5 \<mapsto> 4]" "IBinOp 2 BAdd 1 3"]
  by (simp add: rep_def)

text \<open>
  Removing a trivial phi can leave its register read and defined nowhere: a struct built from
  it keeps naming it.
\<close>

theorem trivial_phi_leaves_use:
  "\<exists>b. (let b' = trivial_phi_block [5 \<mapsto> 3] b
        in bb_phi_nodes b' = [] \<and> (\<exists>i \<in> set (bb_instructions b'). 5 \<in> set (uses i)) \<and>
           Some 5 \<notin> dest ` set (bb_instructions b') \<and>
           (\<exists>p \<in> set (bb_phi_nodes b). phi_dest p = 5))"
  by (rule exI [of _ "(new_block 0)\<lparr>bb_phi_nodes :=
        [\<lparr>phi_dest = 5, phi_incoming = [(1, 3), (2, 3)], phi_ty = TyI32\<rparr>],
      bb_instructions := [ICreateStruct 6 TyI32 [5]]\<rparr>"])
     (simp add: trivial_phi_block_def new_block_def)

end
