(* ===== verification/MirDom.thy ===== *)
theory MirDom
  imports MirCfg "HOL-Library.Monad_Syntax"
begin

text \<open>
  The dominator tree of a function (\<open>DominatorTree\<close>, \<open>compiler/src/ir/loop_analysis.rs\<close>): the
  reverse postorder of the blocks, the iteration of Cooper, Harvey and Kennedy over indices into
  it, the tree with its depths, and the queries on it. What may not end in the source (the walks
  along immediate dominators and the breadth-first search) is a partial function whose \<open>None\<close>
  is not returning; \<open>MirDomCorrect\<close> and \<open>MirDomTree\<close> show that they return.
\<close>

section \<open>Reverse postorder\<close>

text \<open>
  The recursive \<open>dfs\<close> with the blocks still to call it on: for a block it visits, the call on
  its successors, the push, then the rest of the loop it was called from.
\<close>

function dfs ::
  "IrControlFlowGraph \<Rightarrow> IrBlockId list \<Rightarrow> IrBlockId set \<Rightarrow> IrBlockId list \<Rightarrow>
   IrBlockId set \<times> IrBlockId list" where
  "dfs g [] V po = (V, po)"
| "dfs g (b # bs) V po =
     (if b \<in> V then dfs g bs V po
      else let (V', po') = dfs g (block_succs g b) (insert b V) po
           in dfs g bs V' (po' @ [b]))"
  by pat_completeness auto

lemma dfs_visited_grows: "dfs_dom (g, bs, V, po) \<Longrightarrow> V \<subseteq> fst (dfs g bs V po)"
proof (induction g bs V po rule: dfs.pinduct)
  case (1 g V po)
  then show ?case by (simp add: dfs.psimps)
next
  case (2 g b bs V po)
  show ?case
  proof (cases "b \<in> V")
    case True
    then show ?thesis using 2 by (simp add: dfs.psimps)
  next
    case False
    obtain V' po' where r: "dfs g (block_succs g b) (insert b V) po = (V', po')" by fastforce
    have "insert b V \<subseteq> V'" using "2.IH"(2) [OF False] r by simp
    moreover have "V' \<subseteq> fst (dfs g bs V' (po' @ [b]))"
      using "2.IH"(3) [OF False r [symmetric] refl] .
    ultimately show ?thesis using False r "2.hyps" by (auto simp: dfs.psimps)
  qed
qed

termination dfs
proof (relation "measures [\<lambda>(g, bs, V, po). card (fst ` set (cfg_blocks g) - V),
                           \<lambda>(g, bs, V, po). length bs]", goal_cases)
  case 1
  then show ?case by simp
next
  case (2 g b bs V po)
  then show ?case by simp
next
  case (3 g b bs V po)
  show ?case
  proof (cases "get_block g b")
    case None
    then have "b \<notin> fst ` set (cfg_blocks g)" using get_block_dom by blast
    then have "fst ` set (cfg_blocks g) - insert b V = fst ` set (cfg_blocks g) - V" by blast
    then show ?thesis using None by simp
  next
    case (Some a)
    then have "b \<in> fst ` set (cfg_blocks g)" using get_block_dom [of g b] by simp
    then have "card (fst ` set (cfg_blocks g) - insert b V) < card (fst ` set (cfg_blocks g) - V)"
      using 3 by (intro psubset_card_mono) auto
    then show ?thesis by simp
  qed
next
  case (4 g b bs V po r V' po')
  have "insert b V \<subseteq> V'"
    using dfs_visited_grows [OF 4(4)] 4(2,3) by (metis fst_conv)
  then have "card (fst ` set (cfg_blocks g) - V') \<le> card (fst ` set (cfg_blocks g) - V)"
    by (intro card_mono) auto
  then show ?case by auto
qed

definition reverse_postorder :: "IrControlFlowGraph \<Rightarrow> IrBlockId \<Rightarrow> IrBlockId list" where
  "reverse_postorder g entry = rev (snd (dfs g [entry] {} []))"

section \<open>Immediate dominators\<close>

text \<open>
  \<open>intersect\<close>. The inner loops climb from a block while its index is above the other's; \<open>Inl\<close>
  is the early return of the whole function, \<open>None\<close> a loop that does not end.
\<close>

partial_function (option) climb :: "nat option list \<Rightarrow> nat \<Rightarrow> nat \<Rightarrow> (nat + nat) option" where
  "climb idom lim b =
     (if lim < b
      then (case idom ! b of Some d \<Rightarrow> climb idom lim d | None \<Rightarrow> Some (Inl b))
      else Some (Inr b))"

text \<open>The outer loop; \<open>k\<close> is what is left of \<open>max_steps\<close>.\<close>

fun intersect_loop :: "nat option list \<Rightarrow> nat \<Rightarrow> nat \<Rightarrow> nat \<Rightarrow> nat option" where
  "intersect_loop idom 0 b1 b2 = Some b1"
| "intersect_loop idom (Suc k) b1 b2 =
     (if b1 = b2 then Some b1
      else do {
        r1 \<leftarrow> climb idom b2 b1;
        case r1 of
          Inl r \<Rightarrow> Some r
        | Inr b1' \<Rightarrow> do {
            r2 \<leftarrow> climb idom b1' b2;
            case r2 of
              Inl r \<Rightarrow> Some r
            | Inr b2' \<Rightarrow> intersect_loop idom k b1' b2'
          }
      })"

definition intersect :: "nat \<Rightarrow> nat \<Rightarrow> nat option list \<Rightarrow> nat option" where
  "intersect b1 b2 idom = intersect_loop idom (length idom + 1) b1 b2"

text \<open>\<open>compute\<close>: one block, one pass over the blocks, the passes until nothing changes.\<close>

fun new_idom :: "nat option list \<Rightarrow> nat list \<Rightarrow> nat option \<Rightarrow> nat option option" where
  "new_idom idom [] acc = Some acc"
| "new_idom idom (p # ps) acc =
     (if idom ! p = None then new_idom idom ps acc
      else case acc of
             None \<Rightarrow> new_idom idom ps (Some p)
           | Some cur \<Rightarrow> do { d \<leftarrow> intersect cur p idom; new_idom idom ps (Some d) })"

fun dom_pass ::
  "nat list list \<Rightarrow> nat list \<Rightarrow> nat option list \<times> bool \<Rightarrow> (nat option list \<times> bool) option" where
  "dom_pass preds [] s = Some s"
| "dom_pass preds (b # bs) (idom, changed) = do {
     d \<leftarrow> new_idom idom (preds ! b) None;
     dom_pass preds bs (if d \<noteq> idom ! b then (idom[b := d], True) else (idom, changed))
   }"

fun dom_loop :: "nat \<Rightarrow> nat list list \<Rightarrow> nat option list \<Rightarrow> nat option list option" where
  "dom_loop 0 preds idom = Some idom"
| "dom_loop (Suc k) preds idom = do {
     (idom', changed) \<leftarrow> dom_pass preds [1..<length idom] (idom, False);
     if changed then dom_loop k preds idom' else Some idom'
   }"

definition initial_idom :: "nat \<Rightarrow> nat option list" where
  "initial_idom n = (replicate n None)[0 := Some 0]"

definition max_iterations :: "nat \<Rightarrow> nat" where
  "max_iterations n = n * 2 + 10"

text \<open>Collecting into an ordered map: a later entry for a key replaces an earlier one.\<close>

definition bt_collect :: "('k::linorder \<times> 'v) list \<Rightarrow> ('k \<times> 'v) list" where
  "bt_collect xs = fold (\<lambda>(k, v). bt_insert k v) xs []"

definition rpo_index :: "IrBlockId list \<Rightarrow> (IrBlockId \<times> nat) list" where
  "rpo_index rpo = bt_collect (map (\<lambda>(i, b). (b, i)) (enumerate 0 rpo))"

definition dense_predecessors :: "IrControlFlowGraph \<Rightarrow> IrBlockId list \<Rightarrow> nat list list" where
  "dense_predecessors g rpo =
     map (\<lambda>block. case get_block g block of
                    None \<Rightarrow> []
                  | Some b \<Rightarrow> List.map_filter (map_of (rpo_index rpo)) (bb_predecessors b)) rpo"

section \<open>The tree\<close>

record DominatorTree =
  dt_idom :: "(IrBlockId \<times> IrBlockId) list"
  dt_children :: "(IrBlockId \<times> IrBlockId list) list"
  dt_depth :: "(IrBlockId \<times> nat) list"
  dt_entry :: IrBlockId

definition final_idom :: "IrBlockId list \<Rightarrow> nat option list \<Rightarrow> (IrBlockId \<times> IrBlockId) list" where
  "final_idom rpo idom =
     bt_collect (List.map_filter
       (\<lambda>(b, r). map_option (\<lambda>d. (rpo ! b, rpo ! d)) r) (tl (enumerate 0 idom)))"

definition push_child ::
  "IrBlockId \<times> IrBlockId \<Rightarrow> (IrBlockId \<times> IrBlockId list) list \<Rightarrow>
   (IrBlockId \<times> IrBlockId list) list" where
  "push_child e m =
     (let (block, d) = e
      in bt_insert d ((case map_of m d of Some l \<Rightarrow> l | None \<Rightarrow> []) @ [block]) m)"

definition children_map :: "(IrBlockId \<times> IrBlockId) list \<Rightarrow> (IrBlockId \<times> IrBlockId list) list" where
  "children_map fin = bt_map (sort_key id) (fold push_child fin [])"

definition children_in :: "(IrBlockId \<times> IrBlockId list) list \<Rightarrow> IrBlockId \<Rightarrow> IrBlockId list" where
  "children_in m block = (case map_of m block of Some l \<Rightarrow> l | None \<Rightarrow> [])"

partial_function (option) depth_bfs ::
  "(IrBlockId \<times> IrBlockId list) list \<Rightarrow> IrBlockId list \<Rightarrow> (IrBlockId \<times> nat) list \<Rightarrow>
   (IrBlockId \<times> nat) list option" where
  "depth_bfs children queue depth =
     (case queue of
        [] \<Rightarrow> Some depth
      | block # rest \<Rightarrow>
          (case map_of depth block of
             None \<Rightarrow> None
           | Some d \<Rightarrow>
               depth_bfs children (rest @ children_in children block)
                 (fold (\<lambda>child. bt_insert child (d + 1)) (children_in children block) depth)))"

definition dom_compute :: "IrFunction \<Rightarrow> DominatorTree option" where
  "dom_compute f =
     (let g = fn_cfg f; entry = cfg_entry_block g
      in if length (cfg_blocks g) \<le> 1
         then Some \<lparr>dt_idom = [], dt_children = [], dt_depth = [(entry, 0)], dt_entry = entry\<rparr>
         else let rpo = reverse_postorder g entry; preds = dense_predecessors g rpo in do {
           idom \<leftarrow> dom_loop (max_iterations (length rpo)) preds (initial_idom (length rpo));
           let fin = final_idom rpo idom; children = children_map fin in do {
             depth \<leftarrow> depth_bfs children [entry] [(entry, 0)];
             Some \<lparr>dt_idom = fin, dt_children = children, dt_depth = depth, dt_entry = entry\<rparr>
           }
         })"

definition dt_get_idom :: "DominatorTree \<Rightarrow> IrBlockId \<Rightarrow> IrBlockId option" where
  "dt_get_idom t block = map_of (dt_idom t) block"

definition dt_get_children :: "DominatorTree \<Rightarrow> IrBlockId \<Rightarrow> IrBlockId list" where
  "dt_get_children t block = children_in (dt_children t) block"

definition dt_get_depth :: "DominatorTree \<Rightarrow> IrBlockId \<Rightarrow> nat" where
  "dt_get_depth t block = (case map_of (dt_depth t) block of Some d \<Rightarrow> d | None \<Rightarrow> 0)"

partial_function (option) dom_walk ::
  "DominatorTree \<Rightarrow> IrBlockId \<Rightarrow> IrBlockId \<Rightarrow> bool option" where
  "dom_walk t a current =
     (case map_of (dt_idom t) current of
        Some d \<Rightarrow> if d = a then Some True else dom_walk t a d
      | None \<Rightarrow> Some (a = dt_entry t))"

definition dominates :: "DominatorTree \<Rightarrow> IrBlockId \<Rightarrow> IrBlockId \<Rightarrow> bool option" where
  "dominates t a b = (if a = b then Some True else dom_walk t a b)"

definition strictly_dominates :: "DominatorTree \<Rightarrow> IrBlockId \<Rightarrow> IrBlockId \<Rightarrow> bool option" where
  "strictly_dominates t a b = (if a = b then Some False else dominates t a b)"

declare climb.simps [code] depth_bfs.simps [code] dom_walk.simps [code]

end
