(* ===== verification/MirTrip.thy ===== *)
theory MirTrip
  imports MirCfg
begin

text \<open>
  Constant trip counts (\<open>analyze_loop_trip_count\<close> of \<open>compiler/src/ir/loop_unrolling.rs\<close>): the
  induction variable of a loop header, its step, the bound it is compared with, and the number of
  iterations these give. An \<open>i64\<close> is a \<open>u64\<close> read with \<open>sint\<close>; the arithmetic wraps, as in a
  release build (a debug build panics where it overflows). A set of blocks is the list of its
  elements in order.
\<close>

section \<open>The induction variable\<close>

record LoopInductionInfo =
  iv_phi :: IrId
  init_val :: IrId
  init_const :: u64
  step_val :: IrId
  step_amount :: u64
  bound_const :: u64
  ind_trip_count :: u64

fun const_of :: "IrId \<Rightarrow> IrInstruction \<Rightarrow> IrValue option" where
  "const_of reg (IConst d v) = (if d = reg then Some v else None)"
| "const_of reg _ = None"

fun as_const_i64 :: "IrValue \<Rightarrow> u64 option" where
  "as_const_i64 (VI32 n) = Some (scast n)"
| "as_const_i64 (VI64 n) = Some n"
| "as_const_i64 _ = None"

definition find_const_value :: "IrFunction \<Rightarrow> IrId \<Rightarrow> u64 option" where
  "find_const_value f reg =
     (case first_some (const_of reg) (concat (map bb_instructions (fn_blocks f))) of
        Some v \<Rightarrow> as_const_i64 v
      | None \<Rightarrow> None)"

fun step_of_inst ::
  "IrFunction \<Rightarrow> IrId \<Rightarrow> IrId \<Rightarrow> IrInstruction \<Rightarrow> (u64 \<times> BinaryOp) option" where
  "step_of_inst f step_reg iv (IBinOp d oper left right) =
     (if d \<noteq> step_reg then None
      else case oper of
             BAdd \<Rightarrow>
               (case (if left = iv then find_const_value f right else None) of
                  Some c \<Rightarrow> Some (c, BAdd)
                | None \<Rightarrow>
                    (case (if right = iv then find_const_value f left else None) of
                       Some c \<Rightarrow> Some (c, BAdd)
                     | None \<Rightarrow> None))
           | BSub \<Rightarrow>
               (case (if left = iv then find_const_value f right else None) of
                  Some c \<Rightarrow> Some (- c, BAdd)
                | None \<Rightarrow> None)
           | _ \<Rightarrow> None)"
| "step_of_inst f step_reg iv _ = None"

definition find_step_instruction ::
  "IrFunction \<Rightarrow> IrId \<Rightarrow> IrId \<Rightarrow> IrBlockId list \<Rightarrow> (u64 \<times> BinaryOp) option" where
  "find_step_instruction f step_reg iv loop_blocks =
     first_some
       (\<lambda>b. case get_block (fn_cfg f) b of
              Some blk \<Rightarrow> first_some (step_of_inst f step_reg iv) (bb_instructions blk)
            | None \<Rightarrow> None)
       loop_blocks"

section \<open>The bound\<close>

fun negate_cmp :: "CompareOp \<Rightarrow> CompareOp" where
  "negate_cmp CLt = CGe"
| "negate_cmp CLe = CGt"
| "negate_cmp CGt = CLe"
| "negate_cmp CGe = CLt"
| "negate_cmp CEq = CNe"
| "negate_cmp CNe = CEq"
| "negate_cmp other = other"

fun swap_cmp :: "CompareOp \<Rightarrow> CompareOp" where
  "swap_cmp CLt = CGt"
| "swap_cmp CLe = CGe"
| "swap_cmp CGt = CLt"
| "swap_cmp CGe = CLe"
| "swap_cmp other = other"

fun bound_of_inst ::
  "IrFunction \<Rightarrow> IrId \<Rightarrow> IrId \<Rightarrow> bool \<Rightarrow> IrInstruction \<Rightarrow> (u64 \<times> CompareOp) option" where
  "bound_of_inst f iv condition true_in (ICmp d oper left right) =
     (if d \<noteq> condition then None
      else case (if left = iv then find_const_value f right else None) of
             Some bound \<Rightarrow> Some (bound, if true_in then oper else negate_cmp oper)
           | None \<Rightarrow>
               (case (if right = iv then find_const_value f left else None) of
                  Some bound \<Rightarrow>
                    Some (bound, if true_in then swap_cmp oper else negate_cmp (swap_cmp oper))
                | None \<Rightarrow> None))"
| "bound_of_inst f iv condition true_in _ = None"

fun bound_in_blocks ::
  "IrFunction \<Rightarrow> IrId \<Rightarrow> IrBlockId list \<Rightarrow> IrBlockId list \<Rightarrow> (u64 \<times> CompareOp) option" where
  "bound_in_blocks f iv loop_blocks [] = None"
| "bound_in_blocks f iv loop_blocks (b # bs) =
     (case get_block (fn_cfg f) b of
        None \<Rightarrow> None
      | Some blk \<Rightarrow>
          (case bb_terminator blk of
             TCondBranch condition true_target false_target \<Rightarrow>
               (let true_in = true_target \<in> set loop_blocks; false_in = false_target \<in> set loop_blocks
                in if true_in = false_in then bound_in_blocks f iv loop_blocks bs
                   else case first_some (bound_of_inst f iv condition true_in) (bb_instructions blk) of
                          Some r \<Rightarrow> Some r
                        | None \<Rightarrow> bound_in_blocks f iv loop_blocks bs)
           | _ \<Rightarrow> bound_in_blocks f iv loop_blocks bs))"

definition find_loop_bound ::
  "IrFunction \<Rightarrow> IrId \<Rightarrow> IrBlockId list \<Rightarrow> IrBlockId \<Rightarrow> (u64 \<times> CompareOp) option" where
  "find_loop_bound f iv loop_blocks header =
     bound_in_blocks f iv loop_blocks (header # filter (\<lambda>b. b \<noteq> header) loop_blocks)"

section \<open>The count\<close>

text \<open>\<open>a / b\<close>, for the divisors here: not 0, and not \<open>-1\<close>.\<close>

definition i64_div :: "u64 \<Rightarrow> u64 \<Rightarrow> u64" where
  "i64_div a b = word_of_int (sint a sdiv sint b)"

definition trip_range :: "u64 \<Rightarrow> u64 \<Rightarrow> u64 \<Rightarrow> CompareOp \<Rightarrow> u64 option" where
  "trip_range init bound step oper =
     (case oper of
        CLt \<Rightarrow> if 0 < sint step \<and> sint bound > sint init
               then Some (i64_div (bound - init + step - 1) step) else None
      | CLe \<Rightarrow> if 0 < sint step \<and> sint bound \<ge> sint init
               then Some (i64_div (bound - init + step) step) else None
      | CGt \<Rightarrow> if sint step < 0 \<and> sint init > sint bound
               then Some (i64_div (init - bound + (- step) - 1) (- step)) else None
      | CGe \<Rightarrow> if sint step < 0 \<and> sint init \<ge> sint bound
               then Some (i64_div (init - bound + (- step)) (- step)) else None
      | CNe \<Rightarrow> if 0 < sint step \<and> sint bound > sint init \<and> wrapping_srem (bound - init) step = 0
               then Some (i64_div (bound - init) step)
               else if sint step < 0 \<and> sint init > sint bound \<and>
                       wrapping_srem (init - bound) (- step) = 0
               then Some (i64_div (init - bound) (- step))
               else None
      | _ \<Rightarrow> None)"

definition compute_trip_count :: "u64 \<Rightarrow> u64 \<Rightarrow> u64 \<Rightarrow> CompareOp \<Rightarrow> u64 option" where
  "compute_trip_count init bound step oper =
     (if step = 0 then None
      else case trip_range init bound step oper of
             None \<Rightarrow> None
           | Some n \<Rightarrow> if 0 \<le> sint n then Some n else None)"

section \<open>The analysis of a loop\<close>

definition phi_init :: "IrBlockId list \<Rightarrow> IrPhiNode \<Rightarrow> IrId option" where
  "phi_init loop_blocks phi =
     fold (\<lambda>(p, v) i. if p \<in> set loop_blocks then i else Some v) (phi_incoming phi) None"

definition phi_step :: "IrBlockId list \<Rightarrow> IrPhiNode \<Rightarrow> (IrBlockId \<times> IrId) option" where
  "phi_step loop_blocks phi =
     fold (\<lambda>(p, v) s. if p \<in> set loop_blocks then Some (p, v) else s) (phi_incoming phi) None"

fun induction_of ::
  "IrFunction \<Rightarrow> IrBlockId \<Rightarrow> IrBlockId list \<Rightarrow> IrPhiNode list \<Rightarrow> LoopInductionInfo option" where
  "induction_of f header loop_blocks [] = None"
| "induction_of f header loop_blocks (phi # phis) =
     (case (phi_init loop_blocks phi, phi_step loop_blocks phi) of
        (Some init_reg, Some (step_block, step_reg)) \<Rightarrow>
          (case find_const_value f init_reg of
             None \<Rightarrow> None
           | Some i \<Rightarrow>
               (case find_step_instruction f step_reg (phi_dest phi) loop_blocks of
                  None \<Rightarrow> None
                | Some (step, step_op) \<Rightarrow>
                    (case find_loop_bound f (phi_dest phi) loop_blocks header of
                       None \<Rightarrow> None
                     | Some (bound, cmp_op) \<Rightarrow>
                         (case compute_trip_count i bound step cmp_op of
                            None \<Rightarrow> None
                          | Some n \<Rightarrow>
                              Some \<lparr>iv_phi = phi_dest phi, init_val = init_reg, init_const = i,
                                    step_val = step_reg, step_amount = step, bound_const = bound,
                                    ind_trip_count = n\<rparr>))))
      | _ \<Rightarrow> induction_of f header loop_blocks phis)"

definition analyze_loop_trip_count ::
  "IrFunction \<Rightarrow> IrBlockId \<Rightarrow> IrBlockId \<Rightarrow> IrBlockId list \<Rightarrow> LoopInductionInfo option" where
  "analyze_loop_trip_count f header back_edge_source loop_blocks =
     (case get_block (fn_cfg f) header of
        None \<Rightarrow> None
      | Some header_block \<Rightarrow> induction_of f header loop_blocks (bb_phi_nodes header_block))"

section \<open>The count is the number of iterations\<close>

text \<open>A signed comparison of two \<open>i64\<close> values; only these operators give a count.\<close>

fun signed_holds :: "CompareOp \<Rightarrow> u64 \<Rightarrow> u64 \<Rightarrow> bool" where
  "signed_holds CEq a b = (a = b)"
| "signed_holds CNe a b = (a \<noteq> b)"
| "signed_holds CLt a b = (sint a < sint b)"
| "signed_holds CLe a b = (sint a \<le> sint b)"
| "signed_holds CGt a b = (sint a > sint b)"
| "signed_holds CGe a b = (sint a \<ge> sint b)"
| "signed_holds _ a b = False"

text \<open>The counter passes the test for its first \<open>n\<close> values and fails it on the next.\<close>

definition iterates :: "CompareOp \<Rightarrow> u64 \<Rightarrow> u64 \<Rightarrow> u64 \<Rightarrow> nat \<Rightarrow> bool" where
  "iterates oper init step bound n \<longleftrightarrow>
     (\<forall>k < n. signed_holds oper (init + of_nat k * step) bound) \<and>
     \<not> signed_holds oper (init + of_nat n * step) bound"

text \<open>No value the source computes, and no value of the counter, leaves the range of an \<open>i64\<close>.\<close>

definition no_overflow :: "u64 \<Rightarrow> u64 \<Rightarrow> u64 \<Rightarrow> bool" where
  "no_overflow init bound step \<longleftrightarrow>
     \<bar>sint bound - sint init\<bar> + \<bar>sint step\<bar> < 2 ^ 63 \<and>
     - (2 ^ 63) \<le> sint bound - \<bar>sint step\<bar> \<and> sint bound + \<bar>sint step\<bar> < 2 ^ 63"

lemma sint_of_int_in: "- (2 ^ 63) \<le> i \<Longrightarrow> i < 2 ^ 63 \<Longrightarrow> sint (word_of_int i :: u64) = i"
  by (simp add: sint_sbintrunc' signed_take_bit_int_eq_self)

lemma unat_of_int_in: "0 \<le> i \<Longrightarrow> i < 2 ^ 63 \<Longrightarrow> unat (word_of_int i :: u64) = nat i"
  by (simp add: uint_word_of_int unsigned_of_int take_bit_int_eq_self)

lemma i64_div_of_int:
  assumes "0 \<le> q" "q < 2 ^ 63" "0 < sint d"
  shows "i64_div (word_of_int q) d = word_of_int (q div sint d)"
  using assms by (simp add: i64_div_def sint_of_int_in signed_divide_int_def sgn_if)

lemma counter_in_range:
  assumes "- (2 ^ 63) \<le> sint init + int k * sint step" "sint init + int k * sint step < 2 ^ 63"
  shows "sint (init + of_nat k * step :: u64) = sint init + int k * sint step"
proof -
  have "init + of_nat k * step = word_of_int (sint init + int k * sint step)" by simp
  then show ?thesis using sint_of_int_in [OF assms] by simp
qed

text \<open>Counting up by \<open>d\<close> over a distance \<open>q\<close>, and down.\<close>

lemma quotient_bounds:
  assumes "0 < d" "0 \<le> q" "n = nat (q div d)"
  shows "int n * d \<le> q" "q < int n * d + d" "k < n \<Longrightarrow> int k * d \<le> q - d"
proof -
  have n: "int n = q div d" using assms by (simp add: pos_imp_zdiv_nonneg_iff)
  have "q = q div d * d + q mod d" "0 \<le> q mod d" "q mod d < d" using assms(1) by simp_all
  then show upto: "int n * d \<le> q" and "q < int n * d + d" unfolding n by linarith+
  show "int k * d \<le> q - d" if "k < n"
  proof -
    have "(int k + 1) * d \<le> int n * d" using that assms(1) by (intro mult_right_mono) auto
    then show ?thesis using upto by (simp add: algebra_simps)
  qed
qed

lemma counter_up:
  fixes init step bound :: u64
  assumes "0 < sint step" "0 \<le> q" "sint init + q \<le> sint bound + sint step"
    "sint bound + sint step < 2 ^ 63" "k \<le> nat (q div sint step)"
  shows "sint (init + of_nat k * step) = sint init + int k * sint step"
proof -
  have "int k * sint step \<le> int (nat (q div sint step)) * sint step"
    using assms(1,5) by (intro mult_right_mono) auto
  then have "int k * sint step \<le> q" using quotient_bounds(1) [OF assms(1,2) refl] by simp
  moreover have "0 \<le> int k * sint step" using assms(1) by simp
  moreover have "- (2 ^ 63) \<le> sint init" using sint_ge [of init] by simp
  ultimately show ?thesis using assms(3,4) by (intro counter_in_range) auto
qed

lemma counter_down:
  fixes init step bound :: u64
  assumes "sint step < 0" "0 \<le> q" "sint bound + sint step \<le> sint init - q"
    "- (2 ^ 63) \<le> sint bound + sint step" "k \<le> nat (q div - sint step)"
  shows "sint (init + of_nat k * step) = sint init + int k * sint step"
proof -
  have d: "0 < - sint step" using assms(1) by simp
  have "int k * - sint step \<le> int (nat (q div - sint step)) * - sint step"
    using assms(1,5) by (intro mult_right_mono) auto
  then have "int k * - sint step \<le> q" using quotient_bounds(1) [OF d assms(2) refl] by simp
  moreover have "int k * sint step \<le> 0" using assms(1) by (simp add: mult_nonneg_nonpos)
  moreover have "sint init < 2 ^ 63" using sint_lt [of init] by simp
  ultimately show ?thesis using assms(3,4) by (intro counter_in_range) auto
qed

lemma sint_eq_iff: "a = b \<longleftrightarrow> sint a = sint b" for a b :: u64
  by (auto intro: signed_word_eqI)

text \<open>The distance whose quotient by the step the source takes.\<close>

definition up_distance :: "CompareOp \<Rightarrow> int \<Rightarrow> int \<Rightarrow> int \<Rightarrow> bool" where
  "up_distance oper gap d q \<longleftrightarrow>
     oper = CLt \<and> 0 < gap \<and> q = gap + d - 1 \<or> oper = CLe \<and> 0 \<le> gap \<and> q = gap + d \<or>
     oper = CNe \<and> 0 < gap \<and> q = gap \<and> d dvd gap"

lemma iterates_up:
  assumes up: "0 < sint step" "sint bound + sint step < 2 ^ 63"
    and q: "up_distance oper (sint bound - sint init) (sint step) q"
  shows "iterates oper init step bound (nat (q div sint step))"
proof -
  let ?n = "nat (q div sint step)"
  have q0: "0 \<le> q" "sint init + q \<le> sint bound + sint step"
    using up(1) q by (auto simp: up_distance_def)
  note val = counter_up [OF up(1) q0 up(2)]
  note qb = quotient_bounds [OF up(1) q0(1) refl]
  have "signed_holds oper (init + of_nat k * step) bound" if "k < ?n" for k
    using qb(3) [OF that] val [of k] that up(1) q by (auto simp: up_distance_def sint_eq_iff)
  moreover have "\<not> signed_holds oper (init + of_nat ?n * step) bound"
    using qb(1,2) val [of ?n] up(1) q
    by (auto simp: up_distance_def sint_eq_iff simp del: of_nat_nat)
       (auto simp: pos_imp_zdiv_nonneg_iff)
  ultimately show ?thesis by (simp add: iterates_def)
qed

definition down_distance :: "CompareOp \<Rightarrow> int \<Rightarrow> int \<Rightarrow> int \<Rightarrow> bool" where
  "down_distance oper gap d q \<longleftrightarrow>
     oper = CGt \<and> 0 < gap \<and> q = gap + d - 1 \<or> oper = CGe \<and> 0 \<le> gap \<and> q = gap + d \<or>
     oper = CNe \<and> 0 < gap \<and> q = gap \<and> d dvd gap"

lemma iterates_down:
  assumes down: "sint step < 0" "- (2 ^ 63) \<le> sint bound + sint step"
    and q: "down_distance oper (sint init - sint bound) (- sint step) q"
  shows "iterates oper init step bound (nat (q div - sint step))"
proof -
  let ?n = "nat (q div - sint step)"
  have q0: "0 \<le> q" "sint bound + sint step \<le> sint init - q"
    using down(1) q by (auto simp: down_distance_def)
  have d: "0 < - sint step" using down(1) by simp
  note val = counter_down [OF down(1) q0 down(2)]
  note qb = quotient_bounds [OF d q0(1) refl]
  have "signed_holds oper (init + of_nat k * step) bound" if "k < ?n" for k
    using qb(3) [OF that] val [of k] that down(1) q by (auto simp: down_distance_def sint_eq_iff)
  moreover have "\<not> signed_holds oper (init + of_nat ?n * step) bound"
  proof -
    have v: "sint (init + of_nat ?n * step) = sint init - int ?n * - sint step"
      using val [of ?n] by simp
    have "int ?n * - sint step = q" if "- sint step dvd q"
      using that d q0(1) by (simp add: pos_imp_zdiv_nonneg_iff del: mult_minus_right)
    then show ?thesis
      using qb(1,2) v q by (auto simp: down_distance_def sint_eq_iff simp del: of_nat_nat)
  qed
  ultimately show ?thesis by (simp add: iterates_def)
qed

lemma srem_dvd:
  fixes d :: u64
  assumes "0 \<le> q" "q < 2 ^ 63" "0 < sint d" "wrapping_srem (word_of_int q) d = 0"
  shows "sint d dvd q"
proof -
  have "q smod sint d = q mod sint d"
    using assms(1,3) by (simp add: signed_modulo_int_def signed_divide_int_def sgn_if minus_mult_div_eq_mod)
  moreover have "0 \<le> q mod sint d" "q mod sint d < 2 ^ 63"
    using assms(1-3) zmod_le_nonneg_dividend [of q "sint d"] by auto
  ultimately have "sint (wrapping_srem (word_of_int q) d) = q mod sint d"
    using assms(1,2) by (simp add: wrapping_srem_def sint_of_int_in)
  then show ?thesis using assms(4) by (simp add: dvd_eq_mod_eq_0)
qed

lemma sint_uminus_in: "- (2 ^ 63) < sint a \<Longrightarrow> sint (- a) = - sint a" for a :: u64
proof -
  assume a: "- (2 ^ 63) < sint a"
  have "- a = word_of_int (- sint a)" by simp
  moreover have "sint a < 2 ^ 63" using sint_lt [of a] by simp
  ultimately show ?thesis using a sint_of_int_in [of "- sint a"] by simp
qed

text \<open>What the source divides, in integers.\<close>

lemma no_overflow_facts:
  assumes "no_overflow init bound step"
  shows "sint bound - sint init + sint step < 2 ^ 63"
    "sint init - sint bound + - sint step < 2 ^ 63" "- (2 ^ 63) < sint step"
    "sint bound + sint step < 2 ^ 63" "- (2 ^ 63) \<le> sint bound + sint step"
  using assms unfolding no_overflow_def by linarith+

lemma trip_range_up:
  assumes "no_overflow init bound step" "trip_range init bound step oper = Some n" "0 < sint step"
  shows "\<exists>q. q < 2 ^ 63 \<and> up_distance oper (sint bound - sint init) (sint step) q \<and>
             n = i64_div (word_of_int q) step"
proof -
  define gap where "gap = sint bound - sint init"
  have words: "bound - init = word_of_int gap" "step = word_of_int (sint step)"
    by (simp_all add: gap_def)
  have "bound - init + step = word_of_int (gap + sint step)"
    "bound - init + step - 1 = word_of_int (gap + sint step - 1)"
    by (simp_all add: gap_def)
  moreover have "gap + sint step < 2 ^ 63" using no_overflow_facts [OF assms(1)] by (simp add: gap_def)
  moreover have "sint step dvd gap" if "0 < gap" "wrapping_srem (word_of_int gap) step = 0"
    using srem_dvd [OF _ _ assms(3) that(2)] that(1) assms(3) \<open>gap + sint step < 2 ^ 63\<close> by simp
  moreover have "\<not> sint step < 0" using assms(3) by simp
  moreover have "sint bound > sint init \<longleftrightarrow> 0 < gap" "sint bound \<ge> sint init \<longleftrightarrow> 0 \<le> gap"
    by (simp_all add: gap_def)
  ultimately show ?thesis
    using assms(2,3) unfolding gap_def [symmetric]
    by (cases oper)
       (auto simp: trip_range_def up_distance_def words(1) gap_def [symmetric] split: if_splits)
qed

lemma trip_range_down:
  assumes "no_overflow init bound step" "trip_range init bound step oper = Some n" "sint step < 0"
  shows "\<exists>q. q < 2 ^ 63 \<and> down_distance oper (sint init - sint bound) (- sint step) q \<and>
             n = i64_div (word_of_int q) (- step)"
proof -
  define gap where "gap = sint init - sint bound"
  have words: "init - bound = word_of_int gap" by (simp add: gap_def)
  have st: "sint (- step) = - sint step"
    using assms(1) no_overflow_facts(3) sint_uminus_in by blast
  have "init - bound + (- step) = word_of_int (gap + (- sint step))"
    "init - bound + (- step) - 1 = word_of_int (gap + (- sint step) - 1)"
    by (simp_all add: gap_def)
  moreover have "gap + (- sint step) < 2 ^ 63"
    using no_overflow_facts [OF assms(1)] by (simp add: gap_def)
  moreover have "- sint step dvd gap" if "0 < gap" "wrapping_srem (word_of_int gap) (- step) = 0"
    using srem_dvd [of gap "- step"] st that assms(3) \<open>gap + (- sint step) < 2 ^ 63\<close> by simp
  moreover have "\<not> 0 < sint step" using assms(3) by simp
  moreover have "sint init > sint bound \<longleftrightarrow> 0 < gap" "sint init \<ge> sint bound \<longleftrightarrow> 0 \<le> gap"
    by (simp_all add: gap_def)
  ultimately show ?thesis
    using assms(2,3) unfolding gap_def [symmetric]
    by (cases oper)
       (auto simp: trip_range_def down_distance_def words gap_def [symmetric] split: if_splits)
qed

lemma compute_trip_count_iterates:
  assumes "no_overflow init bound step" "compute_trip_count init bound step oper = Some n"
  shows "iterates oper init step bound (unat n)"
proof -
  have n: "trip_range init bound step oper = Some n" "sint step \<noteq> 0"
    using assms(2) sint_eq_iff [of step 0]
    by (auto simp: compute_trip_count_def split: option.splits if_splits)
  show ?thesis
  proof (cases "0 < sint step")
    case True
    obtain q where q: "q < 2 ^ 63" "up_distance oper (sint bound - sint init) (sint step) q"
        "n = i64_div (word_of_int q) step"
      using trip_range_up [OF assms(1) n(1) True] by blast
    have "0 \<le> q" using q(2) True by (auto simp: up_distance_def)
    moreover from this have "0 \<le> q div sint step" "q div sint step < 2 ^ 63"
      using True q(1) zdiv_mono2 [of q 1 "sint step"] by (auto simp: pos_imp_zdiv_nonneg_iff)
    ultimately have "unat n = nat (q div sint step)"
      using q(1,3) True by (simp add: i64_div_of_int unat_of_int_in)
    then show ?thesis
      using iterates_up [OF True no_overflow_facts(4) [OF assms(1)] q(2)] by simp
  next
    case False
    then have neg: "sint step < 0" using n(2) by simp
    obtain q where q: "q < 2 ^ 63" "down_distance oper (sint init - sint bound) (- sint step) q"
        "n = i64_div (word_of_int q) (- step)"
      using trip_range_down [OF assms(1) n(1) neg] by blast
    have st: "sint (- step) = - sint step"
      using assms(1) no_overflow_facts(3) sint_uminus_in by blast
    have "0 \<le> q" using q(2) neg by (auto simp: down_distance_def)
    moreover from this have "0 \<le> q div - sint step" "q div - sint step < 2 ^ 63"
      using neg q(1) zdiv_mono2 [of q 1 "- sint step"] by (auto simp: pos_imp_zdiv_nonneg_iff)
    ultimately have "unat n = nat (q div - sint step)"
      using q(1,3) neg st by (simp add: i64_div_of_int unat_of_int_in)
    then show ?thesis
      using iterates_down [OF neg no_overflow_facts(5) [OF assms(1)] q(2)] by simp
  qed
qed

end
