(* ===== verification/MirLoops.thy ===== *)
theory MirLoops
  imports MirDom MirTrip
begin

text \<open>
  Natural loops and their nesting (\<open>LoopNestInfo\<close>, \<open>compiler/src/ir/loop_analysis.rs\<close>). A
  \<open>BTreeSet\<close> of blocks is the list of its elements in order. A dominance query that does not
  return, an index into a map without the key and a recursion that does not end are \<open>None\<close>.
\<close>

section \<open>Loops\<close>

datatype TripCount =
    TripConstant u64
  | TripBounded u64
  | TripSymbolic IrId
  | TripUnknown

record NaturalLoop =
  nl_header :: IrBlockId
  nl_back_edge_source :: IrBlockId
  nl_blocks :: "IrBlockId list"
  nl_exit_blocks :: "IrBlockId list"
  nl_preheader :: "IrBlockId option"
  nl_trip_count :: "TripCount option"
  nl_nesting_depth :: nat
  nl_parent :: "IrBlockId option"
  nl_children :: "IrBlockId list"

type_synonym loops = "(IrBlockId \<times> NaturalLoop) list"

record LoopNestInfo =
  lni_loops :: loops
  lni_top_level_loops :: "IrBlockId list"
  lni_block_to_loop :: "(IrBlockId \<times> IrBlockId) list"
  lni_max_depth :: nat

fun bs_insert :: "'a::linorder \<Rightarrow> 'a list \<Rightarrow> 'a list" where
  "bs_insert x [] = [x]"
| "bs_insert x (y # ys) =
     (if x < y then x # y # ys else if x = y then y # ys else y # bs_insert x ys)"

lemma set_bs_insert [simp]: "set (bs_insert x ys) = insert x (set ys)"
  by (induction x ys rule: bs_insert.induct) auto

lemma sorted_bs_insert: "sorted_wrt (<) ys \<Longrightarrow> sorted_wrt (<) (bs_insert x ys)"
  by (induction x ys rule: bs_insert.induct) auto

section \<open>The blocks of a loop\<close>

definition preds_of :: "IrControlFlowGraph \<Rightarrow> IrBlockId \<Rightarrow> IrBlockId list" where
  "preds_of g b = (case get_block g b of Some blk \<Rightarrow> bb_predecessors blk | None \<Rightarrow> [])"

text \<open>The inner loop of \<open>find_loop_blocks\<close>; the end of the vector is the head of the list.\<close>

fun add_preds ::
  "IrBlockId list \<Rightarrow> IrBlockId list \<Rightarrow> IrBlockId list \<Rightarrow> IrBlockId list \<times> IrBlockId list" where
  "add_preds [] blocks worklist = (blocks, worklist)"
| "add_preds (p # ps) blocks worklist =
     (if p \<in> set blocks then add_preds ps blocks worklist
      else add_preds ps (bs_insert p blocks) (p # worklist))"

lemma add_preds_sets:
  "add_preds ps blocks wl = (blocks', wl') \<Longrightarrow>
   set blocks' = set blocks \<union> set ps \<and> set wl' = set wl \<union> (set ps - set blocks) \<and>
   (set ps \<subseteq> set blocks \<longrightarrow> wl' = wl) \<and> (sorted_wrt (<) blocks \<longrightarrow> sorted_wrt (<) blocks')"
proof (induction ps blocks wl rule: add_preds.induct)
  case (2 p ps blocks wl)
  show ?case
  proof (cases "p \<in> set blocks")
    case True
    then show ?thesis using 2 by auto
  next
    case False
    then show ?thesis using "2.IH"(2) [OF False] "2.prems" sorted_bs_insert [of blocks p] by auto
  qed
qed simp

definition all_preds :: "IrControlFlowGraph \<Rightarrow> IrBlockId set" where
  "all_preds g = (\<Union>b \<in> snd ` set (cfg_blocks g). set (bb_predecessors b))"

lemma finite_all_preds: "finite (all_preds g)"
  by (simp add: all_preds_def)

lemma preds_of_all: "set (preds_of g b) \<subseteq> all_preds g"
proof (cases "get_block g b")
  case (Some blk)
  then have "blk \<in> snd ` set (cfg_blocks g)" by (auto simp: get_block_def dest: map_of_SomeD_snd)
  then show ?thesis using Some by (auto simp: preds_of_def all_preds_def)
qed (simp add: preds_of_def)

function collect_loop ::
  "IrControlFlowGraph \<Rightarrow> IrBlockId list \<Rightarrow> IrBlockId list \<Rightarrow> IrBlockId list" where
  "collect_loop g blocks [] = blocks"
| "collect_loop g blocks (b # worklist) =
     (let (blocks', worklist') = add_preds (preds_of g b) blocks worklist
      in collect_loop g blocks' worklist')"
  by pat_completeness auto

termination collect_loop
proof (relation "measures [\<lambda>(g, blocks, wl). card (all_preds g - set blocks), \<lambda>(g, blocks, wl). length wl]",
    goal_cases)
  case (2 g blocks b wl r blocks' wl')
  then have r: "add_preds (preds_of g b) blocks wl = (blocks', wl')" by simp
  note sets = add_preds_sets [OF r]
  show ?case
  proof (cases "set (preds_of g b) \<subseteq> set blocks")
    case True
    then have "set blocks' = set blocks" "wl' = wl" using sets by auto
    then show ?thesis by simp
  next
    case False
    then have "all_preds g - set blocks' \<subset> all_preds g - set blocks"
      using sets preds_of_all [of g b] by auto
    then have "card (all_preds g - set blocks') < card (all_preds g - set blocks)"
      using finite_all_preds by (intro psubset_card_mono) auto
    then show ?thesis by simp
  qed
qed simp

definition find_loop_blocks ::
  "IrControlFlowGraph \<Rightarrow> IrBlockId \<Rightarrow> IrBlockId \<Rightarrow> IrBlockId list" where
  "find_loop_blocks g header back_edge_source =
     (if header = back_edge_source then [header]
      else collect_loop g (bs_insert back_edge_source [header]) [back_edge_source])"

definition find_exit_blocks :: "IrControlFlowGraph \<Rightarrow> IrBlockId list \<Rightarrow> IrBlockId list" where
  "find_exit_blocks g loop_blocks =
     filter (\<lambda>b. case get_block g b of
                   Some blk \<Rightarrow> \<exists>s \<in> set (successors blk). s \<notin> set loop_blocks
                 | None \<Rightarrow> False) loop_blocks"

definition find_preheader ::
  "IrControlFlowGraph \<Rightarrow> IrBlockId \<Rightarrow> IrBlockId list \<Rightarrow> IrBlockId option" where
  "find_preheader g header loop_blocks =
     (case get_block g header of
        None \<Rightarrow> None
      | Some header_block \<Rightarrow>
          (case filter (\<lambda>p. p \<notin> set loop_blocks) (bb_predecessors header_block) of
             [p] \<Rightarrow>
               (case get_block g p of
                  Some pred_block \<Rightarrow> if length (successors pred_block) = 1 then Some p else None
                | None \<Rightarrow> None)
           | _ \<Rightarrow> None))"

section \<open>Back edges\<close>

definition new_loop :: "IrControlFlowGraph \<Rightarrow> IrBlockId \<Rightarrow> IrBlockId \<Rightarrow> NaturalLoop" where
  "new_loop g header source =
     (let blocks = find_loop_blocks g header source
      in \<lparr>nl_header = header, nl_back_edge_source = source, nl_blocks = blocks,
          nl_exit_blocks = find_exit_blocks g blocks,
          nl_preheader = find_preheader g header blocks, nl_trip_count = None,
          nl_nesting_depth = 0, nl_parent = None, nl_children = []\<rparr>)"

text \<open>A second loop with the same header is merged: its blocks are added, the exits recomputed.\<close>

definition merge_loop :: "IrControlFlowGraph \<Rightarrow> NaturalLoop \<Rightarrow> NaturalLoop \<Rightarrow> NaturalLoop" where
  "merge_loop g natural_loop existing =
     (let blocks = fold bs_insert (nl_blocks natural_loop) (nl_blocks existing)
      in existing\<lparr>nl_blocks := blocks, nl_exit_blocks := find_exit_blocks g blocks\<rparr>)"

definition add_back_edge ::
  "IrControlFlowGraph \<Rightarrow> IrBlockId \<Rightarrow> IrBlockId \<Rightarrow> loops \<Rightarrow> loops" where
  "add_back_edge g source header ls =
     (if map_of ls header = None then bt_insert header (new_loop g header source) ls
      else bt_modify header (merge_loop g (new_loop g header source)) ls)"

fun find_loops ::
  "IrControlFlowGraph \<Rightarrow> DominatorTree \<Rightarrow> (IrBlockId \<times> IrBlockId) list \<Rightarrow> loops \<Rightarrow> loops option" where
  "find_loops g t [] ls = Some ls"
| "find_loops g t ((source, succ) # es) ls = do {
     back \<leftarrow> dominates t succ source;
     find_loops g t es (if back then add_back_edge g source succ ls else ls)
   }"

section \<open>Nesting\<close>

text \<open>Whether a pair of loops changes the parent of the first.\<close>

definition consider_parent :: "IrBlockId \<Rightarrow> IrBlockId \<Rightarrow> loops \<Rightarrow> loops option" where
  "consider_parent header other ls =
     (if header = other then Some ls
      else do {
        header_loop \<leftarrow> map_of ls header;
        other_loop \<leftarrow> map_of ls other;
        if header \<in> set (nl_blocks other_loop) \<and> other \<notin> set (nl_blocks header_loop)
        then case nl_parent header_loop of
               Some cur \<Rightarrow> do {
                 current_loop \<leftarrow> map_of ls cur;
                 if length (nl_blocks other_loop) < length (nl_blocks current_loop)
                 then Some (bt_modify header (\<lambda>l. l\<lparr>nl_parent := Some other\<rparr>) ls)
                 else Some ls
               }
             | None \<Rightarrow> Some (bt_modify header (\<lambda>l. l\<lparr>nl_parent := Some other\<rparr>) ls)
        else Some ls
      })"

fun set_parents :: "(IrBlockId \<times> IrBlockId) list \<Rightarrow> loops \<Rightarrow> loops option" where
  "set_parents [] ls = Some ls"
| "set_parents ((header, other) # ps) ls = do {
     ls' \<leftarrow> consider_parent header other ls;
     set_parents ps ls'
   }"

fun add_children :: "IrBlockId list \<Rightarrow> loops \<Rightarrow> loops option" where
  "add_children [] ls = Some ls"
| "add_children (header # hs) ls = do {
     l \<leftarrow> map_of ls header;
     case nl_parent l of
       Some parent \<Rightarrow>
         if map_of ls parent = None then None
         else add_children hs (bt_modify parent (\<lambda>p. p\<lparr>nl_children := nl_children p @ [header]\<rparr>) ls)
     | None \<Rightarrow> add_children hs ls
   }"

text \<open>
  \<open>set_depth\<close>, with the calls still to make: for each loop, the write of its depth, then the
  calls for its children.
\<close>

partial_function (option) set_depths :: "(IrBlockId \<times> nat) list \<Rightarrow> loops \<Rightarrow> loops option" where
  "set_depths calls ls =
     (case calls of
        [] \<Rightarrow> Some ls
      | (header, depth) # rest \<Rightarrow>
          (case map_of ls header of
             None \<Rightarrow> None
           | Some l \<Rightarrow>
               set_depths (map (\<lambda>c. (c, depth + 1)) (nl_children l) @ rest)
                 (bt_modify header (\<lambda>l. l\<lparr>nl_nesting_depth := depth\<rparr>) ls)))"

section \<open>The whole analysis\<close>

definition map_loop_block ::
  "loops \<Rightarrow> IrBlockId \<Rightarrow> IrBlockId \<Rightarrow> (IrBlockId \<times> IrBlockId) list \<Rightarrow>
   (IrBlockId \<times> IrBlockId) list option" where
  "map_loop_block ls header block m =
     (case map_of m block of
        Some existing \<Rightarrow> do {
          l \<leftarrow> map_of ls header;
          e \<leftarrow> map_of ls existing;
          Some (if nl_nesting_depth l > nl_nesting_depth e then bt_insert block header m else m)
        }
      | None \<Rightarrow> Some (bt_insert block header m))"

fun map_blocks_to_loops ::
  "loops \<Rightarrow> (IrBlockId \<times> IrBlockId) list \<Rightarrow> (IrBlockId \<times> IrBlockId) list \<Rightarrow>
   (IrBlockId \<times> IrBlockId) list option" where
  "map_blocks_to_loops ls [] m = Some m"
| "map_blocks_to_loops ls ((header, block) # ps) m = do {
     m' \<leftarrow> map_loop_block ls header block m;
     map_blocks_to_loops ls ps m'
   }"

definition max_nesting :: "loops \<Rightarrow> nat" where
  "max_nesting ls = fold (\<lambda>(h, l). max (nl_nesting_depth l)) ls 0"

definition set_trip_count :: "IrFunction \<Rightarrow> NaturalLoop \<Rightarrow> NaturalLoop" where
  "set_trip_count f l =
     l\<lparr>nl_trip_count :=
        map_option (\<lambda>info. TripConstant (ind_trip_count info))
          (analyze_loop_trip_count f (nl_header l) (nl_back_edge_source l) (nl_blocks l))\<rparr>"

definition loop_analyze :: "IrFunction \<Rightarrow> DominatorTree \<Rightarrow> LoopNestInfo option" where
  "loop_analyze f t =
     (let g = fn_cfg f in do {
        found \<leftarrow> find_loops g t (cfg_edges g) [];
        let loop_headers = map fst found in do {
          nested \<leftarrow> set_parents (List.product loop_headers loop_headers) found;
          with_children \<leftarrow> add_children loop_headers nested;
          let top_level = filter (\<lambda>h. case map_of with_children h of
                                        Some l \<Rightarrow> nl_parent l = None | None \<Rightarrow> False) loop_headers
          in do {
            deep \<leftarrow> set_depths (map (\<lambda>h. (h, 0)) top_level) with_children;
            let counted = bt_map (set_trip_count f) deep in do {
              block_to_loop \<leftarrow> map_blocks_to_loops counted
                (concat (map (\<lambda>(h, l). map (Pair h) (nl_blocks l)) counted)) [];
              Some \<lparr>lni_loops = counted, lni_top_level_loops = top_level,
                    lni_block_to_loop = block_to_loop, lni_max_depth = max_nesting deep\<rparr>
            }
          }
        }
      })"

section \<open>Queries\<close>

definition get_loop :: "LoopNestInfo \<Rightarrow> IrBlockId \<Rightarrow> NaturalLoop option" where
  "get_loop info block =
     (case map_of (lni_block_to_loop info) block of
        Some h \<Rightarrow> map_of (lni_loops info) h
      | None \<Rightarrow> None)"

definition loop_depth :: "LoopNestInfo \<Rightarrow> IrBlockId \<Rightarrow> nat" where
  "loop_depth info block =
     (case get_loop info block of Some l \<Rightarrow> nl_nesting_depth l + 1 | None \<Rightarrow> 0)"

definition lni_is_loop_header :: "LoopNestInfo \<Rightarrow> IrBlockId \<Rightarrow> bool" where
  "lni_is_loop_header info block \<longleftrightarrow> map_of (lni_loops info) block \<noteq> None"

definition loops_by_depth :: "LoopNestInfo \<Rightarrow> NaturalLoop list" where
  "loops_by_depth info = sort_key nl_nesting_depth (map snd (lni_loops info))"

text \<open>A stable sort by the reversed depth.\<close>

definition loops_innermost_first :: "LoopNestInfo \<Rightarrow> NaturalLoop list" where
  "loops_innermost_first info =
     sort_key (\<lambda>l. - int (nl_nesting_depth l)) (map snd (lni_loops info))"

definition annotate_loop_headers :: "IrFunction \<Rightarrow> LoopNestInfo \<Rightarrow> IrFunction" where
  "annotate_loop_headers f info =
     f\<lparr>fn_cfg := (fn_cfg f)\<lparr>cfg_blocks :=
        fold (\<lambda>h. bt_modify h (\<lambda>b. b\<lparr>bb_metadata := (bb_metadata b)\<lparr>is_loop_header := True\<rparr>\<rparr>))
          (map fst (lni_loops info)) (cfg_blocks (fn_cfg f))\<rparr>\<rparr>"

declare set_depths.simps [code]

end
