(* ===== verification/MirDomDfs.thy ===== *)
theory MirDomDfs
  imports MirDom
begin

text \<open>
  The depth-first search of \<open>DominatorTree::reverse_postorder\<close>: it returns the blocks control can
  reach, each once, the entry first, and every other block after one of its predecessors.
\<close>

section \<open>Every block after a predecessor\<close>

text \<open>In a postorder, a block comes before some block it is a successor of.\<close>

fun parented :: "IrControlFlowGraph \<Rightarrow> IrBlockId set \<Rightarrow> IrBlockId list \<Rightarrow> bool" where
  "parented g T [] \<longleftrightarrow> True"
| "parented g T (x # ys) \<longleftrightarrow>
     (x \<in> T \<or> (\<exists>p \<in> set ys. x \<in> set (block_succs g p))) \<and> parented g T ys"

lemma parented_mono: "parented g T xs \<Longrightarrow> T \<subseteq> T' \<Longrightarrow> parented g T' xs"
  by (induction xs) auto

lemma parented_append:
  "parented g (T \<union> (\<Union>p \<in> set ys. set (block_succs g p))) xs \<Longrightarrow> parented g T ys \<Longrightarrow>
   parented g T (xs @ ys)"
  by (induction xs) auto

lemma parented_split: "parented g T (xs @ x # ys) \<Longrightarrow> x \<in> T \<or> (\<exists>p \<in> set ys. x \<in> set (block_succs g p))"
  by (induction xs) auto

section \<open>What the search returns\<close>

definition dfs_post ::
  "IrControlFlowGraph \<Rightarrow> IrBlockId list \<Rightarrow> IrBlockId set \<Rightarrow> IrBlockId set \<Rightarrow> IrBlockId list \<Rightarrow> bool" where
  "dfs_post g bs V V' new \<longleftrightarrow>
     V' = V \<union> set new \<and> set new \<inter> V = {} \<and> distinct new \<and> set bs \<subseteq> V' \<and>
     (\<forall>x \<in> set new. set (block_succs g x) \<subseteq> V') \<and> parented g (set bs) new"

lemma dfs_post_Cons:
  assumes inner: "dfs_post g (block_succs g b) (insert b V) V1 new1"
    and rest: "dfs_post g bs V1 V' new2" and b: "b \<notin> V"
  shows "dfs_post g (b # bs) V V' (new1 @ b # new2)"
proof -
  have "parented g (set (b # bs)) (b # new2)"
    using rest parented_mono [of g "set bs" new2 "set (b # bs)"] by (auto simp: dfs_post_def)
  moreover have "parented g (set (b # bs) \<union> (\<Union>p \<in> set (b # new2). set (block_succs g p))) new1"
    using inner by (auto simp: dfs_post_def elim!: parented_mono)
  ultimately have "parented g (set (b # bs)) (new1 @ b # new2)"
    using parented_append by blast
  then show ?thesis using assms by (auto simp: dfs_post_def)
qed

lemma dfs_correct: "\<exists>new. snd (dfs g bs V po) = po @ new \<and> dfs_post g bs V (fst (dfs g bs V po)) new"
proof (induction g bs V po rule: dfs.induct)
  case (1 g V po)
  show ?case by (auto simp: dfs_post_def)
next
  case (2 g b bs V po)
  show ?case
  proof (cases "b \<in> V")
    case True
    then show ?thesis using "2.IH"(1) by (auto simp: dfs_post_def elim: parented_mono)
  next
    case False
    obtain V1 po1 where r: "dfs g (block_succs g b) (insert b V) po = (V1, po1)" by fastforce
    obtain new1 where new1: "po1 = po @ new1" "dfs_post g (block_succs g b) (insert b V) V1 new1"
      using "2.IH"(2) [OF False] r by auto
    obtain new2 where new2: "snd (dfs g bs V1 (po1 @ [b])) = (po1 @ [b]) @ new2"
        "dfs_post g bs V1 (fst (dfs g bs V1 (po1 @ [b]))) new2"
      using "2.IH"(3) [OF False r [symmetric] refl] by blast
    have "dfs_post g (b # bs) V (fst (dfs g bs V1 (po1 @ [b]))) (new1 @ b # new2)"
      using dfs_post_Cons [OF new1(2) new2(2) False] .
    then show ?thesis using False r new1(1) new2(1) by (intro exI [of _ "new1 @ b # new2"]) simp
  qed
qed

lemma parented_reach:
  "parented g T xs \<Longrightarrow> (\<And>t. t \<in> T \<Longrightarrow> cfg_reach g e t) \<Longrightarrow> x \<in> set xs \<Longrightarrow> cfg_reach g e x"
  by (induction xs arbitrary: x) (auto intro: reach_step)

section \<open>The reverse postorder\<close>

lemma reverse_postorder_blocks:
  "distinct (reverse_postorder g e)" "set (reverse_postorder g e) = {i. cfg_reach g e i}"
proof -
  obtain new where snd: "snd (dfs g [e] {} []) = new"
    and post: "dfs_post g [e] {} (fst (dfs g [e] {} [])) new"
    using dfs_correct [of g "[e]" "{}" "[]"] by auto
  show "distinct (reverse_postorder g e)"
    using snd post by (simp add: reverse_postorder_def dfs_post_def)
  have "succ_closed g (set new)" "e \<in> set new"
    using post by (auto simp: dfs_post_def succ_closed_def)
  then have "{i. cfg_reach g e i} \<subseteq> set new" using cfg_reach_closed by blast
  moreover have "set new \<subseteq> {i. cfg_reach g e i}"
    using post by (auto simp: dfs_post_def intro: parented_reach reach_entry)
  ultimately show "set (reverse_postorder g e) = {i. cfg_reach g e i}"
    using snd by (simp add: reverse_postorder_def)
qed

lemma reverse_postorder_entry: "\<exists>rest. reverse_postorder g e = e # rest"
proof -
  obtain V' po' where r: "dfs g (block_succs g e) {e} [] = (V', po')" by fastforce
  then show ?thesis by (simp add: reverse_postorder_def)
qed

lemma reverse_postorder_parent:
  assumes "0 < b" "b < length (reverse_postorder g e)"
  shows "\<exists>p < b. reverse_postorder g e ! b \<in> set (block_succs g (reverse_postorder g e ! p))"
proof -
  let ?R = "reverse_postorder g e"
  obtain new where snd: "snd (dfs g [e] {} []) = new" and post: "dfs_post g [e] {} (fst (dfs g [e] {} [])) new"
    using dfs_correct [of g "[e]" "{}" "[]"] by auto
  have R: "new = rev ?R" using snd by (simp add: reverse_postorder_def)
  have "new = rev (drop (Suc b) ?R) @ ?R ! b # rev (take b ?R)"
    using arg_cong [OF id_take_nth_drop [OF assms(2)], of rev] R by simp
  then have "?R ! b \<in> {e} \<or> (\<exists>p \<in> set (take b ?R). ?R ! b \<in> set (block_succs g p))"
    using post parented_split [of g "set [e]" "rev (drop (Suc b) ?R)" "?R ! b" "rev (take b ?R)"]
    by (simp add: dfs_post_def)
  moreover have "?R ! b \<noteq> e"
  proof
    assume e: "?R ! b = e"
    obtain rest where "?R = e # rest" using reverse_postorder_entry by blast
    then have "?R ! 0 = ?R ! b" using e by simp
    then show False
      using nth_eq_iff_index_eq [OF reverse_postorder_blocks(1)
          order.strict_trans [OF assms] assms(2)] assms(1) by simp
  qed
  ultimately obtain p where p: "p \<in> set (take b ?R)" "?R ! b \<in> set (block_succs g p)" by blast
  then obtain i where "i < b" "p = ?R ! i" using assms(2) by (auto simp: in_set_conv_nth)
  then show ?thesis using p(2) by blast
qed

end
