(* ===== verification/MirDomCorrect.thy ===== *)
theory MirDomCorrect
  imports MirDomDfs "HOL-Library.Transitive_Closure_Table"
begin

text \<open>
  The iteration of \<open>DominatorTree::compute\<close> finds the immediate dominators. The argument is over
  indices into the reverse postorder. Two facts survive every write of a block's entry: an entry
  is below its block, and every strict dominator of the block dominates the entry (so nothing is
  lost). A third improves by one with each pass: after pass \<open>M + 1\<close> the entry of a block lies on
  every path to it with at most \<open>M\<close> edges to an index that is not larger. A path without
  repetition has fewer such edges than there are blocks, so the entries are exact after as many
  passes as there are blocks, the next pass changes nothing, and \<open>max_iterations\<close> is not reached.
\<close>

section \<open>Dominance over indices\<close>

type_synonym dense_graph = "nat list list"

text \<open>What \<open>reverse_postorder\<close> guarantees of the predecessor lists.\<close>

definition rpo_ok :: "dense_graph \<Rightarrow> bool" where
  "rpo_ok G \<longleftrightarrow> G \<noteq> [] \<and> (\<forall>ps \<in> set G. \<forall>p \<in> set ps. p < length G) \<and>
     (\<forall>b < length G. 0 < b \<longrightarrow> (\<exists>p \<in> set (G ! b). p < b))"

text \<open>\<open>avoids G a m b\<close>: a path to \<open>b\<close> around \<open>a\<close> with at most \<open>m\<close> edges that do not go up.\<close>

inductive avoids :: "dense_graph \<Rightarrow> nat \<Rightarrow> nat \<Rightarrow> nat \<Rightarrow> bool"
  for G :: dense_graph and a :: nat where
  av_entry: "a \<noteq> 0 \<Longrightarrow> avoids G a m 0"
| av_up: "avoids G a m p \<Longrightarrow> b < length G \<Longrightarrow> p \<in> set (G ! b) \<Longrightarrow> p < b \<Longrightarrow> b \<noteq> a \<Longrightarrow> avoids G a m b"
| av_back: "avoids G a m p \<Longrightarrow> b < length G \<Longrightarrow> p \<in> set (G ! b) \<Longrightarrow> b \<le> p \<Longrightarrow> b \<noteq> a \<Longrightarrow>
            avoids G a (Suc m) b"

definition dense_dom :: "dense_graph \<Rightarrow> nat \<Rightarrow> nat \<Rightarrow> bool" where
  "dense_dom G a b \<longleftrightarrow> (\<forall>m. \<not> avoids G a m b)"

lemma avoids_mono: "avoids G a m b \<Longrightarrow> m \<le> m' \<Longrightarrow> avoids G a m' b"
proof (induction arbitrary: m' rule: avoids.induct)
  case (av_back m p b)
  then obtain k where "m' = Suc k" "m \<le> k" by (cases m') auto
  then show ?case using av_back by (auto intro: avoids.av_back)
qed (auto intro: avoids.intros)

lemma avoids_edge:
  assumes "avoids G a m p" "b < length G" "p \<in> set (G ! b)" "b \<noteq> a"
  shows "avoids G a (Suc m) b"
proof (cases "p < b")
  case True
  then have "avoids G a m b" using assms by (auto intro: av_up)
  then show ?thesis by (rule avoids_mono) simp
qed (use assms in \<open>auto intro: av_back\<close>)

lemma avoids_neq: "avoids G a m b \<Longrightarrow> b \<noteq> a"
  by (induction rule: avoids.induct) auto

lemma dense_dom_refl [simp]: "dense_dom G b b"
  by (auto simp: dense_dom_def dest: avoids_neq)

lemma dense_dom_entry [simp]: "dense_dom G 0 b"
proof -
  have "\<not> avoids G 0 m b" for m
  proof
    assume "avoids G 0 m b"
    then show False by (induction rule: avoids.induct) auto
  qed
  then show ?thesis by (simp add: dense_dom_def)
qed

text \<open>What dominates a block and is not the block dominates every predecessor.\<close>

lemma dense_dom_pred:
  "dense_dom G a b \<Longrightarrow> a \<noteq> b \<Longrightarrow> b < length G \<Longrightarrow> p \<in> set (G ! b) \<Longrightarrow> dense_dom G a p"
  by (auto simp: dense_dom_def dest: avoids_edge)

lemma dense_dom_le:
  assumes "rpo_ok G" "dense_dom G a b" "b < length G"
  shows "a \<le> b"
proof (rule ccontr)
  assume "\<not> a \<le> b"
  then have "b < a" by simp
  have "b < length G \<Longrightarrow> b < a \<Longrightarrow> avoids G a 0 b" for b
  proof (induction b rule: less_induct)
    case (less b)
    show ?case
    proof (cases "b = 0")
      case True
      then show ?thesis using less by (auto intro: av_entry)
    next
      case False
      then obtain p where "p \<in> set (G ! b)" "p < b"
        using assms(1) less.prems by (auto simp: rpo_ok_def)
      then show ?thesis using less by (auto intro: av_up)
    qed
  qed
  then show False using assms \<open>b < a\<close> by (auto simp: dense_dom_def)
qed

text \<open>A path around \<open>a\<close> either avoids \<open>d\<close> too or reaches \<open>d\<close> around \<open>a\<close>.\<close>

lemma avoids_split: "avoids G a m b \<Longrightarrow> avoids G d m b \<or> avoids G a m d"
proof (induction rule: avoids.induct)
  case (av_entry m)
  then show ?case by (metis avoids.av_entry)
next
  case (av_up m p b)
  then show ?case by (metis avoids.av_up)
next
  case (av_back m p b)
  then show ?case by (metis avoids.av_back avoids_mono le_SucI order_refl)
qed

lemma dense_dom_trans: "dense_dom G a d \<Longrightarrow> dense_dom G d b \<Longrightarrow> dense_dom G a b"
  using avoids_split by (fastforce simp: dense_dom_def)

text \<open>Fewer than \<open>n\<close> edges that do not go up are enough.\<close>

definition around :: "dense_graph \<Rightarrow> nat \<Rightarrow> nat \<Rightarrow> nat \<Rightarrow> bool" where
  "around G a p b \<longleftrightarrow> b < length G \<and> p \<in> set (G ! b) \<and> b \<noteq> a"

lemma avoids_path:
  "rtrancl_path (around G a) x xs y \<Longrightarrow> avoids G a m x \<Longrightarrow> avoids G a (m + length xs) y"
proof (induction arbitrary: m rule: rtrancl_path.induct)
  case (step x y ys z)
  then have "avoids G a (Suc m) y" by (auto simp: around_def intro: avoids_edge)
  from step.IH [OF this] show ?case by simp
qed simp

lemma around_path_bound: "rtrancl_path (around G a) x xs y \<Longrightarrow> set xs \<subseteq> {..<length G}"
  by (induction rule: rtrancl_path.induct) (auto simp: around_def)

lemma avoids_bounded:
  assumes "avoids G a m b" "G \<noteq> []"
  shows "avoids G a (length G - 1) b"
proof -
  have "a \<noteq> 0 \<and> (around G a)\<^sup>*\<^sup>* 0 b"
    using assms(1)
    by (induction rule: avoids.induct) (auto simp: around_def intro: rtranclp.rtrancl_into_rtrancl)
  then obtain xs where "a \<noteq> 0" "rtrancl_path (around G a) 0 xs b"
    by (auto simp: rtranclp_eq_rtrancl_path)
  then obtain ys where ys: "rtrancl_path (around G a) 0 ys b" "distinct (0 # ys)"
    by (auto elim: rtrancl_path_distinct)
  then have "set (0 # ys) \<subseteq> {..<length G}"
    using around_path_bound [OF ys(1)] assms(2) by auto
  then have "card (set (0 # ys)) \<le> length G"
    using card_mono [of "{..<length G}"] by fastforce
  then have "length ys \<le> length G - 1" using distinct_card [OF ys(2)] by simp
  moreover have "avoids G a (length ys) b"
    using avoids_path [OF ys(1), of 0] \<open>a \<noteq> 0\<close> by (simp add: avoids.av_entry)
  ultimately show ?thesis by (rule avoids_mono [rotated])
qed

section \<open>The entries kept by every write\<close>

text \<open>
  \<open>idom_wf\<close>: the entry of the function is its own, every other entry is below its block and
  already found. \<open>idom_kept\<close>: a strict dominator of a block dominates its entry.
\<close>

definition idom_wf :: "dense_graph \<Rightarrow> nat option list \<Rightarrow> bool" where
  "idom_wf G I \<longleftrightarrow> length I = length G \<and> I ! 0 = Some 0 \<and>
     (\<forall>b d. 0 < b \<and> b < length G \<and> I ! b = Some d \<longrightarrow> d < b \<and> I ! d \<noteq> None)"

definition idom_kept :: "dense_graph \<Rightarrow> nat option list \<Rightarrow> bool" where
  "idom_kept G I \<longleftrightarrow>
     (\<forall>b d a. 0 < b \<and> b < length G \<and> I ! b = Some d \<and> a \<noteq> b \<and> dense_dom G a b \<longrightarrow> dense_dom G a d)"

definition idom_inv :: "dense_graph \<Rightarrow> nat option list \<Rightarrow> bool" where
  "idom_inv G I \<longleftrightarrow> rpo_ok G \<and> idom_wf G I \<and> idom_kept G I"

text \<open>The chain of a block: the block, its entry, the entry of that, up to the function's entry.\<close>

inductive in_chain :: "nat option list \<Rightarrow> nat \<Rightarrow> nat \<Rightarrow> bool" for I :: "nat option list" where
  chain_refl: "in_chain I b b"
| chain_up: "0 < b \<Longrightarrow> I ! b = Some d \<Longrightarrow> in_chain I a d \<Longrightarrow> in_chain I a b"

lemma in_chain_trans: "in_chain I d b \<Longrightarrow> in_chain I a d \<Longrightarrow> in_chain I a b"
  by (induction rule: in_chain.induct) (auto intro: chain_up)

lemma idom_inv_entry:
  "idom_inv G I \<Longrightarrow> 0 < b \<Longrightarrow> b < length G \<Longrightarrow> I ! b = Some d \<Longrightarrow>
   d < b \<and> d < length G \<and> I ! d \<noteq> None \<and> (\<forall>a. dense_dom G a b \<longrightarrow> a \<noteq> b \<longrightarrow> dense_dom G a d)"
  by (fastforce simp: idom_inv_def idom_wf_def idom_kept_def)

lemma in_chain_le: "in_chain I a b \<Longrightarrow> idom_inv G I \<Longrightarrow> b < length G \<Longrightarrow> a \<le> b"
  by (induction rule: in_chain.induct) (fastforce dest: idom_inv_entry)+

text \<open>Nothing is lost: a dominator is in the chain.\<close>

lemma dom_in_chain:
  "idom_inv G I \<Longrightarrow> b < length G \<Longrightarrow> I ! b \<noteq> None \<Longrightarrow> dense_dom G a b \<Longrightarrow> in_chain I a b"
proof (induction b rule: less_induct)
  case (less b)
  show ?case
  proof (cases "a = b")
    case True
    then show ?thesis by (simp add: chain_refl)
  next
    case False
    then have "0 < b"
      using dense_dom_le less.prems by (fastforce simp: idom_inv_def)
    moreover obtain d where d: "I ! b = Some d" using less.prems by auto
    ultimately show ?thesis
      using less idom_inv_entry [OF less.prems(1) \<open>0 < b\<close> less.prems(2) d] False
      by (auto intro: chain_up)
  qed
qed

section \<open>Climbing and meeting\<close>

lemma climb_ok:
  "idom_inv G I \<Longrightarrow> b < length G \<Longrightarrow> I ! b \<noteq> None \<Longrightarrow>
   \<exists>b'. climb I lim b = Some (Inr b') \<and> in_chain I b' b \<and> I ! b' \<noteq> None \<and> b' \<le> b \<and> b' \<le> lim \<and>
        (\<forall>a \<le> lim. dense_dom G a b \<longrightarrow> dense_dom G a b')"
proof (induction b rule: less_induct)
  case (less b)
  show ?case
  proof (cases "lim < b")
    case False
    then show ?thesis using less.prems(3) by (subst climb.simps) (auto intro: chain_refl)
  next
    case True
    then obtain d where d: "I ! b = Some d" "0 < b" using less.prems by auto
    note entry = idom_inv_entry [OF less.prems(1) d(2) less.prems(2) d(1)]
    obtain b' where b': "climb I lim d = Some (Inr b')" "in_chain I b' d" "I ! b' \<noteq> None"
        "b' \<le> d" "b' \<le> lim" "\<forall>a \<le> lim. dense_dom G a d \<longrightarrow> dense_dom G a b'"
      using less.IH [of d] less.prems(1) entry by blast
    have "climb I lim b = Some (Inr b')" using True d(1) b'(1) by (subst climb.simps) simp
    moreover have "in_chain I b' b" using d b'(2) by (auto intro: chain_up)
    moreover have "\<forall>a \<le> lim. dense_dom G a b \<longrightarrow> dense_dom G a b'"
      using b'(6) entry True by auto
    ultimately show ?thesis using b'(3-5) entry by auto
  qed
qed

lemma intersect_loop_ok:
  "idom_inv G I \<Longrightarrow> b1 < length G \<Longrightarrow> b2 < length G \<Longrightarrow> I ! b1 \<noteq> None \<Longrightarrow> I ! b2 \<noteq> None \<Longrightarrow>
   max b1 b2 < k \<Longrightarrow>
   \<exists>r. intersect_loop I k b1 b2 = Some r \<and> in_chain I r b1 \<and> in_chain I r b2 \<and> I ! r \<noteq> None \<and>
       (\<forall>a. dense_dom G a b1 \<longrightarrow> dense_dom G a b2 \<longrightarrow> dense_dom G a r)"
proof (induction k arbitrary: b1 b2)
  case 0
  then show ?case by simp
next
  case (Suc k)
  show ?case
  proof (cases "b1 = b2")
    case True
    then show ?thesis using Suc.prems by (auto intro: chain_refl)
  next
    case False
    obtain c1 where c1: "climb I b2 b1 = Some (Inr c1)" "in_chain I c1 b1" "I ! c1 \<noteq> None"
        "c1 \<le> b1" "c1 \<le> b2" "\<forall>a \<le> b2. dense_dom G a b1 \<longrightarrow> dense_dom G a c1"
      using climb_ok [OF Suc.prems(1,2,4)] by blast
    obtain c2 where c2: "climb I c1 b2 = Some (Inr c2)" "in_chain I c2 b2" "I ! c2 \<noteq> None"
        "c2 \<le> b2" "c2 \<le> c1" "\<forall>a \<le> c1. dense_dom G a b2 \<longrightarrow> dense_dom G a c2"
      using climb_ok [OF Suc.prems(1,3,5)] by blast
    have "max c1 c2 < k" using c1(4,5) c2(4,5) False Suc.prems(6) by auto
    moreover have "c1 < length G" "c2 < length G" using c1(4) c2(4) Suc.prems(2,3) by simp_all
    ultimately obtain r where r: "intersect_loop I k c1 c2 = Some r" "in_chain I r c1"
        "in_chain I r c2" "I ! r \<noteq> None"
        "\<forall>a. dense_dom G a c1 \<longrightarrow> dense_dom G a c2 \<longrightarrow> dense_dom G a r"
      using Suc.IH [of c1 c2] Suc.prems(1) c1(3) c2(3) by blast
    have ok: "rpo_ok G" using Suc.prems(1) by (simp add: idom_inv_def)
    have "dense_dom G a r" if "dense_dom G a b1" "dense_dom G a b2" for a
    proof -
      have "dense_dom G a c1" using that c1(6) dense_dom_le [OF ok that(2) Suc.prems(3)] by blast
      moreover from this have "dense_dom G a c2"
        using that c2(6) dense_dom_le [OF ok _ \<open>c1 < length G\<close>] by blast
      ultimately show ?thesis using r(5) by blast
    qed
    moreover have "intersect_loop I (Suc k) b1 b2 = Some r" using False c1(1) c2(1) r(1) by simp
    ultimately show ?thesis using r c1(2) c2(2) in_chain_trans by blast
  qed
qed

lemma intersect_ok:
  assumes "idom_inv G I" "b1 < length G" "b2 < length G" "I ! b1 \<noteq> None" "I ! b2 \<noteq> None"
  shows "\<exists>r. intersect b1 b2 I = Some r \<and> in_chain I r b1 \<and> in_chain I r b2 \<and> I ! r \<noteq> None \<and>
       (\<forall>a. dense_dom G a b1 \<longrightarrow> dense_dom G a b2 \<longrightarrow> dense_dom G a r)"
proof -
  have "length I = length G" using assms(1) by (simp add: idom_inv_def idom_wf_def)
  then show ?thesis
    using intersect_loop_ok [OF assms, of "length I + 1"] assms(2,3) by (simp add: intersect_def)
qed

section \<open>One block\<close>

lemma new_idom_Some:
  "idom_inv G I \<Longrightarrow> c < length G \<Longrightarrow> I ! c \<noteq> None \<Longrightarrow> \<forall>p \<in> set ps. p < length G \<Longrightarrow>
   \<exists>r. new_idom I ps (Some c) = Some (Some r) \<and> in_chain I r c \<and> I ! r \<noteq> None \<and>
       (\<forall>p \<in> set ps. I ! p \<noteq> None \<longrightarrow> in_chain I r p) \<and>
       (\<forall>a. dense_dom G a c \<longrightarrow> (\<forall>p \<in> set ps. I ! p \<noteq> None \<longrightarrow> dense_dom G a p) \<longrightarrow>
            dense_dom G a r)"
proof (induction ps arbitrary: c)
  case Nil
  then show ?case by (auto intro: chain_refl)
next
  case (Cons p ps)
  show ?case
  proof (cases "I ! p = None")
    case True
    then show ?thesis using Cons by simp
  next
    case False
    then obtain d where d: "intersect c p I = Some d" "in_chain I d c" "in_chain I d p" "I ! d \<noteq> None"
        "\<forall>a. dense_dom G a c \<longrightarrow> dense_dom G a p \<longrightarrow> dense_dom G a d"
      using intersect_ok [OF Cons.prems(1,2), of p] Cons.prems by auto
    have "d < length G" using in_chain_le [OF d(2) Cons.prems(1,2)] Cons.prems(2) by simp
    then obtain r where r: "new_idom I ps (Some d) = Some (Some r)" "in_chain I r d" "I ! r \<noteq> None"
        "\<forall>p \<in> set ps. I ! p \<noteq> None \<longrightarrow> in_chain I r p"
        "\<forall>a. dense_dom G a d \<longrightarrow> (\<forall>p \<in> set ps. I ! p \<noteq> None \<longrightarrow> dense_dom G a p) \<longrightarrow> dense_dom G a r"
      using Cons.IH [of d] Cons.prems d(4) by auto
    have "new_idom I (p # ps) (Some c) = Some (Some r)" using False d(1) r(1) by auto
    moreover have "in_chain I r c" "in_chain I r p"
      using in_chain_trans d(2,3) r(2) by blast+
    ultimately show ?thesis using r(3-5) d(5) False by auto
  qed
qed

lemma new_idom_ok:
  "idom_inv G I \<Longrightarrow> \<forall>p \<in> set ps. p < length G \<Longrightarrow> \<exists>p \<in> set ps. I ! p \<noteq> None \<Longrightarrow>
   \<exists>r. new_idom I ps None = Some (Some r) \<and> I ! r \<noteq> None \<and>
       (\<forall>p \<in> set ps. I ! p \<noteq> None \<longrightarrow> in_chain I r p) \<and>
       (\<forall>a. (\<forall>p \<in> set ps. I ! p \<noteq> None \<longrightarrow> dense_dom G a p) \<longrightarrow> dense_dom G a r)"
proof (induction ps)
  case Nil
  then show ?case by simp
next
  case (Cons p ps)
  show ?case
  proof (cases "I ! p = None")
    case True
    then show ?thesis using Cons by auto
  next
    case False
    then show ?thesis using new_idom_Some [OF Cons.prems(1) _ False, of ps] Cons.prems(2) by auto
  qed
qed

lemma block_idom_ok:
  assumes inv: "idom_inv G I" and b: "0 < b" "b < length G" and below: "\<forall>c < b. I ! c \<noteq> None"
  shows "\<exists>r. new_idom I (G ! b) None = Some (Some r) \<and> r < b \<and>
           (\<forall>p \<in> set (G ! b). I ! p \<noteq> None \<longrightarrow> in_chain I r p) \<and> idom_inv G (I[b := Some r])"
proof -
  have ok: "rpo_ok G" "idom_wf G I" "idom_kept G I" using inv by (auto simp: idom_inv_def)
  obtain p where p: "p \<in> set (G ! b)" "p < b" using ok(1) b by (auto simp: rpo_ok_def)
  have range: "\<forall>p \<in> set (G ! b). p < length G" using ok(1) b by (auto simp: rpo_ok_def)
  obtain r where r: "new_idom I (G ! b) None = Some (Some r)" "I ! r \<noteq> None"
      "\<forall>p \<in> set (G ! b). I ! p \<noteq> None \<longrightarrow> in_chain I r p"
      "\<forall>a. (\<forall>p \<in> set (G ! b). I ! p \<noteq> None \<longrightarrow> dense_dom G a p) \<longrightarrow> dense_dom G a r"
    using new_idom_ok [OF inv range] p below by blast
  have "in_chain I r p" using r(3) p below by blast
  then have "r \<le> p" using in_chain_le inv p(2) b(2) by fastforce
  then have rb: "r < b" using p(2) by simp
  have "dense_dom G a r" if "a \<noteq> b" "dense_dom G a b" for a
    using r(4) dense_dom_pred [OF that(2,1) b(2)] by blast
  then have "idom_kept G (I[b := Some r])"
    using ok(2,3) b by (auto simp: idom_kept_def idom_wf_def nth_list_update)
  moreover have "idom_wf G (I[b := Some r])"
    using ok(2) rb b r(2) by (auto simp: idom_wf_def nth_list_update)
  ultimately show ?thesis using r(1,3) rb ok(1) by (auto simp: idom_inv_def)
qed

section \<open>One pass\<close>

text \<open>Before block \<open>b\<close> of pass \<open>M + 1\<close>.\<close>

definition pass_inv :: "dense_graph \<Rightarrow> nat \<Rightarrow> nat \<Rightarrow> nat option list \<Rightarrow> bool" where
  "pass_inv G M b I \<longleftrightarrow> idom_inv G I \<and>
     (\<forall>c < b. c < length G \<longrightarrow> I ! c \<noteq> None) \<and>
     (\<forall>c d. 0 < c \<and> c < b \<and> c < length G \<and> I ! c = Some d \<longrightarrow> \<not> avoids G d M c) \<and>
     (0 < M \<longrightarrow> (\<forall>c < length G. I ! c \<noteq> None \<and>
                   (\<forall>d. 0 < c \<and> I ! c = Some d \<longrightarrow> \<not> avoids G d (M - 1) c)))"

lemma chain_lies:
  "in_chain I a p \<Longrightarrow> idom_inv G I \<Longrightarrow> p < length G \<Longrightarrow>
   \<forall>c d. 0 < c \<and> c \<le> p \<and> I ! c = Some d \<longrightarrow> \<not> avoids G d M c \<Longrightarrow> \<not> avoids G a M p"
proof (induction rule: in_chain.induct)
  case (chain_refl b)
  then show ?case by (auto dest: avoids_neq)
next
  case (chain_up b d a)
  note entry = idom_inv_entry [OF chain_up.prems(1) chain_up.hyps(1) chain_up.prems(2) chain_up.hyps(2)]
  have "\<not> avoids G a M d" using chain_up.IH chain_up.prems entry by auto
  moreover have "\<not> avoids G d M b" using chain_up.prems(3) chain_up.hyps by blast
  ultimately show ?case using avoids_split by blast
qed

lemma pass_step:
  assumes inv: "pass_inv G M b I" and b: "0 < b" "b < length G"
  shows "\<exists>r. new_idom I (G ! b) None = Some (Some r) \<and> pass_inv G M (Suc b) (I[b := Some r])"
proof -
  have idom: "idom_inv G I" and below: "\<forall>c < b. I ! c \<noteq> None"
    and low: "\<forall>c d. 0 < c \<and> c < b \<and> I ! c = Some d \<longrightarrow> \<not> avoids G d M c"
    and high: "0 < M \<longrightarrow> (\<forall>c < length G. I ! c \<noteq> None \<and>
                   (\<forall>d. 0 < c \<and> I ! c = Some d \<longrightarrow> \<not> avoids G d (M - 1) c))"
    using inv b(2) by (auto simp: pass_inv_def)
  obtain r where r: "new_idom I (G ! b) None = Some (Some r)" "r < b"
      "\<forall>p \<in> set (G ! b). I ! p \<noteq> None \<longrightarrow> in_chain I r p" "idom_inv G (I[b := Some r])"
    using block_idom_ok [OF idom b below] by blast
  have lies: "\<not> avoids G r M b"
  proof
    assume "avoids G r M b"
    then show False
    proof (cases rule: avoids.cases)
      case av_entry
      then show ?thesis using b(1) by simp
    next
      case (av_up p)
      then have "in_chain I r p" using r(3) below by blast
      then have "\<not> avoids G r M p"
        using av_up low b(2) by (intro chain_lies [OF _ idom]) auto
      then show ?thesis using av_up by blast
    next
      case (av_back m p)
      have pn: "p < length G" using idom av_back b(2) by (auto simp: idom_inv_def rpo_ok_def)
      then have "in_chain I r p" using r(3) high av_back by blast
      then have "\<not> avoids G r m p"
        using av_back(1) high pn by (intro chain_lies [OF _ idom]) auto
      then show ?thesis using av_back by blast
    qed
  qed
  have len: "length I = length G" using idom by (simp add: idom_inv_def idom_wf_def)
  have "\<not> avoids G r (M - 1) b" using lies avoids_mono by (metis diff_le_self)
  then have "pass_inv G M (Suc b) (I[b := Some r])"
    using r(4) below low high lies b len
    by (auto simp: pass_inv_def nth_list_update less_Suc_eq)
  then show ?thesis using r(1) by blast
qed

lemma pass_ok:
  "pass_inv G M b I \<Longrightarrow> 0 < b \<Longrightarrow> b \<le> length G \<Longrightarrow>
   \<exists>I' ch'. dom_pass G [b..<length G] (I, ch) = Some (I', ch') \<and> pass_inv G M (length G) I' \<and>
            (\<not> ch' \<longrightarrow> I' = I \<and> \<not> ch)"
proof (induction "length G - b" arbitrary: b I ch)
  case 0
  then show ?case by simp
next
  case (Suc k)
  then have bn: "b < length G" by simp
  obtain r where r: "new_idom I (G ! b) None = Some (Some r)" "pass_inv G M (Suc b) (I[b := Some r])"
    using pass_step [OF Suc.prems(1,2) bn] by blast
  show ?case
  proof (cases "I ! b = Some r")
    case True
    then have "I[b := Some r] = I" by (metis list_update_id)
    then show ?thesis
      using Suc.hyps(1) [of "Suc b" I ch] Suc.hyps(2) r bn True by (simp add: upt_conv_Cons)
  next
    case False
    have "k = length G - Suc b" using Suc.hyps(2) by simp
    then obtain I' ch' where "dom_pass G [Suc b..<length G] (I[b := Some r], True) = Some (I', ch')"
        "pass_inv G M (length G) I'" "ch'"
      using Suc.hyps(1) [of "Suc b" "I[b := Some r]" True] r(2) bn by auto
    then show ?thesis using r(1) bn False by (auto simp: upt_conv_Cons)
  qed
qed

section \<open>Convergence\<close>

definition idom_exact :: "dense_graph \<Rightarrow> nat option list \<Rightarrow> bool" where
  "idom_exact G I \<longleftrightarrow> length I = length G \<and> I ! 0 = Some 0 \<and>
     (\<forall>b < length G. 0 < b \<longrightarrow>
        (\<exists>d < b. I ! b = Some d \<and> dense_dom G d b \<and>
           (\<forall>a. dense_dom G a b \<longrightarrow> a \<noteq> b \<longrightarrow> dense_dom G a d)))"

lemma idom_exact_unique:
  assumes "rpo_ok G" "idom_exact G I" "idom_exact G J"
  shows "I = J"
proof (rule nth_equalityI)
  show "length I = length J" using assms by (simp add: idom_exact_def)
next
  fix b assume "b < length I"
  then have bn: "b < length G" using assms by (simp add: idom_exact_def)
  show "I ! b = J ! b"
  proof (cases "b = 0")
    case True
    then show ?thesis using assms by (simp add: idom_exact_def)
  next
    case False
    obtain d where d: "d < b" "I ! b = Some d" "dense_dom G d b"
        "\<forall>a. dense_dom G a b \<longrightarrow> a \<noteq> b \<longrightarrow> dense_dom G a d"
      using assms(2) False bn by (auto simp: idom_exact_def)
    obtain e where e: "e < b" "J ! b = Some e" "dense_dom G e b"
        "\<forall>a. dense_dom G a b \<longrightarrow> a \<noteq> b \<longrightarrow> dense_dom G a e"
      using assms(3) False bn by (auto simp: idom_exact_def)
    have "dense_dom G d e" "dense_dom G e d" using d e by auto
    then have "d \<le> e" "e \<le> d" using dense_dom_le [OF assms(1)] d(1) e(1) bn by auto
    then show ?thesis using d(2) e(2) by simp
  qed
qed

lemma lies_dom: "rpo_ok G \<Longrightarrow> \<not> avoids G d M b \<Longrightarrow> length G - 1 \<le> M \<Longrightarrow> dense_dom G d b"
  using avoids_bounded avoids_mono by (fastforce simp: dense_dom_def rpo_ok_def)

lemma pass_inv_exact:
  assumes "pass_inv G M b I" "length G \<le> M" "0 < M"
  shows "idom_exact G I"
proof -
  have inv: "idom_inv G I" and ok: "rpo_ok G" using assms(1) by (auto simp: pass_inv_def idom_inv_def)
  have "\<exists>d < b. I ! b = Some d \<and> dense_dom G d b \<and>
          (\<forall>a. dense_dom G a b \<longrightarrow> a \<noteq> b \<longrightarrow> dense_dom G a d)" if b: "b < length G" "0 < b" for b
  proof -
    obtain d where d: "I ! b = Some d" "\<not> avoids G d (M - 1) b"
      using assms b by (auto simp: pass_inv_def)
    have "dense_dom G d b" using lies_dom [OF ok d(2)] assms(2) by simp
    then show ?thesis using d(1) idom_inv_entry [OF inv b(2,1) d(1)] by blast
  qed
  then show ?thesis using inv by (auto simp: idom_exact_def idom_inv_def idom_wf_def)
qed

lemma pass_inv_length: "pass_inv G M b I \<Longrightarrow> 1 \<le> length G \<and> length I = length G"
  by (simp add: pass_inv_def idom_inv_def idom_wf_def rpo_ok_def Suc_le_eq)

lemma pass_inv_next: "pass_inv G M (length G) I \<Longrightarrow> pass_inv G (Suc M) 1 I"
  by (auto simp: pass_inv_def idom_inv_def idom_wf_def rpo_ok_def)

text \<open>A pass that changes nothing is every later pass, so its entries are exact.\<close>

lemma fixed_pass_exact:
  assumes "pass_inv G M 1 I" "dom_pass G [1..<length G] (I, False) = Some (I, False)"
  shows "idom_exact G I"
proof -
  have n: "1 \<le> length G" using assms(1) pass_inv_length by blast
  have "pass_inv G (M + j) 1 I" for j
  proof (induction j)
    case 0
    then show ?case using assms(1) by simp
  next
    case (Suc j)
    then have "pass_inv G (M + j) (length G) I"
      using pass_ok [OF Suc _ n, of False] assms(2) by auto
    from pass_inv_next [OF this] show ?case by simp
  qed
  from pass_inv_exact [OF this [of "length G"]] n show ?thesis by linarith
qed

lemma exact_pass_fixed:
  "pass_inv G M b I \<Longrightarrow> 0 < b \<Longrightarrow> b \<le> length G \<Longrightarrow> length G \<le> M \<Longrightarrow>
   dom_pass G [b..<length G] (I, False) = Some (I, False)"
proof (induction "length G - b" arbitrary: b I)
  case 0
  then show ?case by simp
next
  case (Suc k)
  then have bn: "b < length G" by simp
  obtain r where r: "new_idom I (G ! b) None = Some (Some r)" "pass_inv G M (Suc b) (I[b := Some r])"
    using pass_step [OF Suc.prems(1,2) bn] by blast
  have ok: "rpo_ok G" using Suc.prems(1) by (simp add: pass_inv_def idom_inv_def)
  have "0 < M" using Suc.prems(4) bn by simp
  then have same: "I[b := Some r] = I"
    using idom_exact_unique [OF ok] pass_inv_exact Suc.prems(1,4) r(2) by blast
  then have "I ! b = Some r"
    using nth_list_update_eq [of b I "Some r"] pass_inv_length [OF Suc.prems(1)] bn by metis
  moreover have "dom_pass G [Suc b..<length G] (I, False) = Some (I, False)"
    using Suc.hyps(1) [of "Suc b" I] Suc.hyps(2) Suc.prems(4) r(2) same bn by simp
  ultimately show ?case using r(1) bn by (simp add: upt_conv_Cons)
qed

lemma dom_loop_ok:
  "pass_inv G M 1 I \<Longrightarrow> length G < M + k \<Longrightarrow>
   \<exists>I'. dom_loop k G I = Some I' \<and> idom_exact G I' \<and>
        dom_pass G [1..<length G] (I', False) = Some (I', False)"
proof (induction k arbitrary: M I)
  case 0
  then have n: "1 \<le> length G" using pass_inv_length by blast
  have "dom_pass G [1..<length G] (I, False) = Some (I, False)"
    using exact_pass_fixed [OF 0(1) _ n] 0(2) by simp
  then show ?case using fixed_pass_exact [OF 0(1)] by simp
next
  case (Suc k)
  then have n: "1 \<le> length G" and len: "length I = length G" using pass_inv_length by blast+
  obtain I' ch where pass: "dom_pass G [1..<length G] (I, False) = Some (I', ch)"
      "pass_inv G M (length G) I'" "\<not> ch \<longrightarrow> I' = I"
    using pass_ok [OF Suc.prems(1) _ n, of False] by auto
  show ?case
  proof (cases ch)
    case True
    have "length G < Suc M + k" using Suc.prems(2) by simp
    from Suc.IH [OF pass_inv_next [OF pass(2)] this] True pass(1) len show ?thesis by simp
  next
    case False
    then show ?thesis using pass(1,3) fixed_pass_exact [OF Suc.prems(1)] len by auto
  qed
qed

lemma initial_pass_inv: "rpo_ok G \<Longrightarrow> pass_inv G 0 1 (initial_idom (length G))"
  by (auto simp: pass_inv_def idom_inv_def idom_wf_def idom_kept_def initial_idom_def rpo_ok_def
        nth_list_update)

lemma dom_loop_exact:
  assumes "rpo_ok G"
  shows "\<exists>I. dom_loop (max_iterations (length G)) G (initial_idom (length G)) = Some I \<and>
           idom_exact G I \<and> dom_pass G [1..<length G] (I, False) = Some (I, False)"
  by (rule dom_loop_ok [OF initial_pass_inv [OF assms]]) (simp add: max_iterations_def)

text \<open>Passes that changed something, one after the other.\<close>

fun changing_passes :: "nat \<Rightarrow> nat list list \<Rightarrow> nat option list \<Rightarrow> nat option list option" where
  "changing_passes 0 preds idom = Some idom"
| "changing_passes (Suc k) preds idom =
     (case dom_pass preds [1..<length idom] (idom, False) of
        Some (idom', True) \<Rightarrow> changing_passes k preds idom'
      | _ \<Rightarrow> None)"

lemma changing_passes_settle:
  "pass_inv G M 1 I \<Longrightarrow>
   \<exists>k I'. k \<le> length G - M \<and> changing_passes k G I = Some I' \<and> length I' = length G \<and>
     dom_pass G [1..<length G] (I', False) = Some (I', False)"
proof (induction "length G - M" arbitrary: M I rule: less_induct)
  case less
  then have n: "1 \<le> length G" and len: "length I = length G" using pass_inv_length by blast+
  obtain I' ch where pass: "dom_pass G [1..<length G] (I, False) = Some (I', ch)"
      "pass_inv G M (length G) I'" "\<not> ch \<longrightarrow> I' = I"
    using pass_ok [OF less.prems _ n, of False] by auto
  show ?case
  proof (cases ch)
    case False
    with pass(1,3) len show ?thesis by (intro exI [of _ 0] exI [of _ I]) simp
  next
    case True
    have M: "M < length G"
    proof (rule ccontr)
      assume "\<not> M < length G"
      with exact_pass_fixed [OF less.prems _ n] pass(1) True show False by simp
    qed
    then have "length G - Suc M < length G - M" by simp
    from less.hyps [OF this pass_inv_next [OF pass(2)]] obtain k J where
      "k \<le> length G - Suc M" "changing_passes k G I' = Some J" "length J = length G"
      "dom_pass G [1..<length G] (J, False) = Some (J, False)" by blast
    with pass(1) True len M show ?thesis
      by (intro exI [of _ "Suc k"] exI [of _ J]) simp
  qed
qed

lemma dom_loop_changing:
  "changing_passes k G I = Some J \<Longrightarrow> dom_pass G [1..<length J] (J, False) = Some (J, False) \<Longrightarrow> k < m \<Longrightarrow>
   dom_loop m G I = Some J"
proof (induction k arbitrary: I m)
  case 0
  then show ?case by (cases m) auto
next
  case (Suc k)
  then obtain m' where "m = Suc m'" by (cases m) auto
  with Suc show ?case by (auto split: option.splits prod.splits bool.splits)
qed

end
