(* ===== verification/MirDomTree.thy ===== *)
theory MirDomTree
  imports MirDomCorrect
begin

text \<open>
  The dominator tree over the blocks of the graph: dominance is stated by paths, the tree that
  \<open>DominatorTree::compute\<close> returns is shown to be the tree of immediate dominators, and the
  queries and depths are read off it.
\<close>

section \<open>Dominance by paths\<close>

text \<open>A path from the entry to a block that does not go through \<open>a\<close>.\<close>

inductive reach_avoiding ::
  "IrControlFlowGraph \<Rightarrow> IrBlockId \<Rightarrow> IrBlockId \<Rightarrow> IrBlockId \<Rightarrow> bool"
  for g :: IrControlFlowGraph and e :: IrBlockId and a :: IrBlockId where
  ra_entry: "e \<noteq> a \<Longrightarrow> reach_avoiding g e a e"
| ra_step: "reach_avoiding g e a i \<Longrightarrow> s \<in> set (block_succs g i) \<Longrightarrow> s \<noteq> a \<Longrightarrow>
            reach_avoiding g e a s"

definition block_dom :: "IrControlFlowGraph \<Rightarrow> IrBlockId \<Rightarrow> IrBlockId \<Rightarrow> bool" where
  "block_dom g a b \<longleftrightarrow> \<not> reach_avoiding g (cfg_entry_block g) a b"

lemma reach_avoiding_neq: "reach_avoiding g e a b \<Longrightarrow> b \<noteq> a"
  by (induction rule: reach_avoiding.induct) auto

lemma reach_avoiding_reach: "reach_avoiding g e a b \<Longrightarrow> cfg_reach g e b"
  by (induction rule: reach_avoiding.induct) (auto intro: cfg_reach.intros)

lemma reach_avoiding_split: "reach_avoiding g e a b \<Longrightarrow> reach_avoiding g e d b \<or> reach_avoiding g e a d"
proof (induction rule: reach_avoiding.induct)
  case ra_entry
  then show ?case by (metis reach_avoiding.ra_entry)
next
  case (ra_step i s)
  then show ?case by (metis reach_avoiding.ra_step)
qed

lemma block_dom_refl [simp]: "block_dom g b b"
  by (auto simp: block_dom_def dest: reach_avoiding_neq)

lemma block_dom_trans: "block_dom g a d \<Longrightarrow> block_dom g d b \<Longrightarrow> block_dom g a b"
  using reach_avoiding_split by (fastforce simp: block_dom_def)

lemma block_dom_entry: "block_dom g a (cfg_entry_block g) \<longleftrightarrow> a = cfg_entry_block g"
  by (auto simp: block_dom_def intro: ra_entry dest: reach_avoiding_neq)

text \<open>A dominator of a reachable block is reachable.\<close>

lemma reach_avoiding_unreachable:
  "cfg_reach g e b \<Longrightarrow> \<not> cfg_reach g e a \<Longrightarrow> reach_avoiding g e a b"
proof (induction rule: cfg_reach.induct)
  case reach_entry
  then show ?case using cfg_reach.reach_entry by (intro ra_entry) auto
next
  case (reach_step i s)
  then have "s \<noteq> a" using cfg_reach.reach_step by blast
  then show ?case using reach_step by (auto intro: ra_step)
qed

lemma block_dom_reach:
  "block_dom g a b \<Longrightarrow> cfg_reach g (cfg_entry_block g) b \<Longrightarrow> cfg_reach g (cfg_entry_block g) a"
  using reach_avoiding_unreachable by (auto simp: block_dom_def)

section \<open>Graphs whose edges are recorded both ways\<close>

definition cfg_linked :: "IrControlFlowGraph \<Rightarrow> bool" where
  "cfg_linked g \<longleftrightarrow> get_block g (cfg_entry_block g) \<noteq> None \<and>
     (\<forall>i b. get_block g i = Some b \<longrightarrow>
        (\<forall>s \<in> set (successors b). get_block g s \<noteq> None) \<and>
        set (bb_predecessors b) = {p. i \<in> set (block_succs g p)})"

lemma cfg_linked_reach: "cfg_reach g (cfg_entry_block g) i \<Longrightarrow> cfg_linked g \<Longrightarrow> get_block g i \<noteq> None"
  by (induction rule: cfg_reach.induct) (auto simp: cfg_linked_def block_succs_def split: option.splits)

section \<open>Collecting into ordered maps\<close>

lemma map_of_fold_insert:
  "map_of (fold (\<lambda>(k, v). bt_insert k v) xs m) = map_of m ++ map_of (rev xs)"
  by (induction xs arbitrary: m) (auto simp: bt_simps)

lemma map_of_bt_collect:
  assumes "distinct (map fst xs)"
  shows "map_of (bt_collect xs) = map_of xs"
proof -
  have "map_of (rev xs) = map_of xs"
    using assms by (intro map_of_inject_set [THEN iffD2]) (auto simp: rev_map [symmetric])
  then show ?thesis by (simp add: bt_collect_def map_of_fold_insert)
qed

lemma bt_wf_collect: "bt_wf (bt_collect xs)"
proof -
  have "bt_wf m \<Longrightarrow> bt_wf (fold (\<lambda>(k, v). bt_insert k v) xs m)" for m
    by (induction xs arbitrary: m) (auto simp: bt_wf_insert)
  then show ?thesis by (simp add: bt_collect_def bt_wf_def)
qed

lemma rpo_index_Some:
  assumes "distinct R"
  shows "map_of (rpo_index R) b = Some i \<longleftrightarrow> i < length R \<and> R ! i = b"
proof -
  let ?xs = "map (\<lambda>(i, b). (b, i)) (enumerate 0 R)"
  have fst: "map fst ?xs = R"
    by (simp add: comp_def case_prod_beta map_snd_enumerate [unfolded comp_def])
  then have "map_of (rpo_index R) b = Some i \<longleftrightarrow> (b, i) \<in> set ?xs"
    using assms map_of_bt_collect [of ?xs] by (simp add: rpo_index_def)
  also have "\<dots> \<longleftrightarrow> (i, b) \<in> set (enumerate 0 R)" by force
  also have "\<dots> \<longleftrightarrow> i < length R \<and> R ! i = b" by (auto simp: in_set_enumerate_eq)
  finally show ?thesis .
qed

lemma set_map_filter: "set (List.map_filter f xs) = {y. \<exists>x \<in> set xs. f x = Some y}"
  by (force simp: List.map_filter_def)

section \<open>From blocks to indices\<close>

definition dense :: "IrControlFlowGraph \<Rightarrow> dense_graph" where
  "dense g = dense_predecessors g (reverse_postorder g (cfg_entry_block g))"

abbreviation rpo_of :: "IrControlFlowGraph \<Rightarrow> IrBlockId list" where
  "rpo_of g \<equiv> reverse_postorder g (cfg_entry_block g)"

lemma length_dense [simp]: "length (dense g) = length (rpo_of g)"
  by (simp add: dense_def dense_predecessors_def)

lemma rpo_reach: "i < length (rpo_of g) \<Longrightarrow> cfg_reach g (cfg_entry_block g) (rpo_of g ! i)"
  using nth_mem reverse_postorder_blocks(2) by blast

lemma reach_rpo: "cfg_reach g (cfg_entry_block g) b \<Longrightarrow> \<exists>i < length (rpo_of g). rpo_of g ! i = b"
  using reverse_postorder_blocks(2) [of g "cfg_entry_block g"] by (metis in_set_conv_nth mem_Collect_eq)

lemma rpo_inj:
  "i < length (rpo_of g) \<Longrightarrow> j < length (rpo_of g) \<Longrightarrow> rpo_of g ! i = rpo_of g ! j \<longleftrightarrow> i = j"
  by (simp add: nth_eq_iff_index_eq reverse_postorder_blocks(1))

lemma rpo_zero [simp]: "rpo_of g \<noteq> []" "rpo_of g ! 0 = cfg_entry_block g"
  using reverse_postorder_entry [of g "cfg_entry_block g"] by auto

lemma dense_edges:
  assumes "cfg_linked g" "b < length (rpo_of g)"
  shows "p \<in> set (dense g ! b) \<longleftrightarrow>
    p < length (rpo_of g) \<and> rpo_of g ! b \<in> set (block_succs g (rpo_of g ! p))"
proof -
  obtain blk where blk: "get_block g (rpo_of g ! b) = Some blk"
    using cfg_linked_reach [OF rpo_reach assms(1)] assms(2) by blast
  then have "set (bb_predecessors blk) = {p. rpo_of g ! b \<in> set (block_succs g p)}"
    using assms(1) by (auto simp: cfg_linked_def)
  then show ?thesis
    using blk assms(2)
    by (auto simp: dense_def dense_predecessors_def set_map_filter rpo_index_Some
          [OF reverse_postorder_blocks(1)])
qed

lemma dense_rpo_ok:
  assumes "cfg_linked g"
  shows "rpo_ok (dense g)"
proof -
  have "dense g \<noteq> []" using length_dense [of g] rpo_zero(1) [of g] by fastforce
  moreover have "p < length (dense g)" if "ps \<in> set (dense g)" "p \<in> set ps" for ps p
    using that dense_edges [OF assms] by (metis in_set_conv_nth length_dense)
  moreover have "\<exists>p \<in> set (dense g ! b). p < b" if b: "b < length (dense g)" "0 < b" for b
  proof -
    have bn: "b < length (rpo_of g)" using b by simp
    obtain p where "p < b" "rpo_of g ! b \<in> set (block_succs g (rpo_of g ! p))"
      using reverse_postorder_parent [OF b(2) bn] by blast
    then show ?thesis using dense_edges [OF assms bn] bn by auto
  qed
  ultimately show ?thesis by (auto simp: rpo_ok_def)
qed

lemma avoids_reach_avoiding:
  "avoids (dense g) a m b \<Longrightarrow> cfg_linked g \<Longrightarrow> a < length (rpo_of g) \<Longrightarrow>
   b < length (rpo_of g) \<and> reach_avoiding g (cfg_entry_block g) (rpo_of g ! a) (rpo_of g ! b)"
proof (induction rule: avoids.induct)
  case (av_entry m)
  then have "rpo_of g ! a \<noteq> cfg_entry_block g"
    using rpo_inj [of a g 0] by simp
  then show ?case by (auto intro: ra_entry)
next
  case (av_up m p b)
  then show ?case by (auto simp: dense_edges rpo_inj intro: ra_step)
next
  case (av_back m p b)
  then show ?case by (auto simp: dense_edges rpo_inj intro: ra_step)
qed

lemma reach_avoiding_avoids:
  "reach_avoiding g (cfg_entry_block g) x y \<Longrightarrow> cfg_linked g \<Longrightarrow> x = rpo_of g ! a \<Longrightarrow>
   a < length (rpo_of g) \<Longrightarrow>
   \<exists>b m. b < length (rpo_of g) \<and> rpo_of g ! b = y \<and> avoids (dense g) a m b"
proof (induction rule: reach_avoiding.induct)
  case ra_entry
  then have "a \<noteq> 0" by (metis rpo_zero(2))
  then have "avoids (dense g) a 0 0" by (rule av_entry)
  then show ?case by (metis length_greater_0_conv rpo_zero)
next
  case (ra_step i s)
  then obtain b m where b: "b < length (rpo_of g)" "rpo_of g ! b = i" "avoids (dense g) a m b" by blast
  then have "cfg_reach g (cfg_entry_block g) s"
    using ra_step.hyps rpo_reach cfg_reach.reach_step by blast
  then obtain c where c: "c < length (rpo_of g)" "rpo_of g ! c = s" using reach_rpo by blast
  then have "b \<in> set (dense g ! c)" using ra_step.prems(1) ra_step.hyps(2) b by (simp add: dense_edges)
  moreover have "c \<noteq> a" using c(2) ra_step.hyps(3) ra_step.prems(2) by blast
  ultimately have "avoids (dense g) a (Suc m) c" using avoids_edge [OF b(3)] c(1) by simp
  then show ?case using c by blast
qed

lemma dense_dom_block_dom:
  assumes "cfg_linked g" "a < length (rpo_of g)" "b < length (rpo_of g)"
  shows "dense_dom (dense g) a b \<longleftrightarrow> block_dom g (rpo_of g ! a) (rpo_of g ! b)"
  unfolding dense_dom_def block_dom_def
  using avoids_reach_avoiding [OF _ assms(1,2)] reach_avoiding_avoids [OF _ assms(1) refl assms(2)]
    rpo_inj assms(3) by blast

section \<open>The immediate dominators\<close>

text \<open>
  What \<open>compute\<close> promises of the map it stores: its keys are the reachable blocks other than the
  entry, and it takes each to its strict dominator that every other strict dominator dominates.
\<close>

definition idom_map_ok :: "IrControlFlowGraph \<Rightarrow> (IrBlockId \<times> IrBlockId) list \<Rightarrow> bool" where
  "idom_map_ok g m \<longleftrightarrow> bt_wf m \<and>
     (\<forall>b. map_of m b \<noteq> None \<longleftrightarrow> cfg_reach g (cfg_entry_block g) b \<and> b \<noteq> cfg_entry_block g) \<and>
     (\<forall>b d. map_of m b = Some d \<longrightarrow>
        d \<noteq> b \<and> block_dom g d b \<and> (\<forall>a. block_dom g a b \<longrightarrow> a \<noteq> b \<longrightarrow> block_dom g a d))"

lemma final_idom_Some:
  assumes "distinct R" "length I = length R"
  shows "bt_wf (final_idom R I)"
    "map_of (final_idom R I) x = Some y \<longleftrightarrow>
       (\<exists>b d. 0 < b \<and> b < length R \<and> I ! b = Some d \<and> x = R ! b \<and> y = R ! d)"
proof -
  let ?f = "\<lambda>(b, r). map_option (\<lambda>d. (R ! b, R ! d)) r"
  let ?e = "tl (enumerate 0 I)"
  have mem: "(b, r) \<in> set ?e \<longleftrightarrow> 0 < b \<and> b < length I \<and> r = I ! b" for b r
    by (cases I) (auto simp: in_set_enumerate_eq nth_Cons')
  have keys: "map fst (List.map_filter ?f es) = map (\<lambda>(b, r). R ! b) (filter (\<lambda>(b, r). r \<noteq> None) es)"
    for es by (induction es) (auto simp: List.map_filter_simps split: option.splits)
  have "distinct ?e" by (simp add: distinct_tl distinct_enumerate)
  then have "distinct (map fst (List.map_filter ?f ?e))"
    unfolding keys using assms
    by (auto simp: distinct_map inj_on_def mem nth_eq_iff_index_eq)
  then have "map_of (final_idom R I) x = Some y \<longleftrightarrow> (x, y) \<in> set (List.map_filter ?f ?e)"
    by (simp add: final_idom_def map_of_bt_collect)
  also have "\<dots> \<longleftrightarrow> (\<exists>b d. 0 < b \<and> b < length R \<and> I ! b = Some d \<and> x = R ! b \<and> y = R ! d)"
    unfolding set_map_filter using assms(2) by (auto simp: Bex_def split_paired_Ex mem)
  finally show "map_of (final_idom R I) x = Some y \<longleftrightarrow>
       (\<exists>b d. 0 < b \<and> b < length R \<and> I ! b = Some d \<and> x = R ! b \<and> y = R ! d)" .
  show "bt_wf (final_idom R I)" by (simp add: final_idom_def bt_wf_collect)
qed

lemma final_idom_ok:
  assumes g: "cfg_linked g" and exact: "idom_exact (dense g) I"
  shows "idom_map_ok g (final_idom (rpo_of g) I)"
proof -
  let ?R = "rpo_of g"
  have len: "length I = length ?R" using exact by (simp add: idom_exact_def)
  note Some = final_idom_Some [OF reverse_postorder_blocks(1) len]
  have keys: "map_of (final_idom ?R I) b \<noteq> None \<longleftrightarrow>
      cfg_reach g (cfg_entry_block g) b \<and> b \<noteq> cfg_entry_block g" for b
  proof
    assume "map_of (final_idom ?R I) b \<noteq> None"
    then obtain i where "0 < i" "i < length ?R" "b = ?R ! i" using Some(2) by blast
    then show "cfg_reach g (cfg_entry_block g) b \<and> b \<noteq> cfg_entry_block g"
      using rpo_reach rpo_inj [of i g 0] by auto
  next
    assume b: "cfg_reach g (cfg_entry_block g) b \<and> b \<noteq> cfg_entry_block g"
    then obtain i where i: "i < length ?R" "?R ! i = b" using reach_rpo by blast
    then have "0 < i" using b rpo_zero(2) [of g] by (cases i) auto
    then obtain d where "I ! i = Some d" using exact i by (auto simp: idom_exact_def)
    then show "map_of (final_idom ?R I) b \<noteq> None" using Some(2) i \<open>0 < i\<close> by blast
  qed
  have entry: "d \<noteq> b \<and> block_dom g d b \<and> (\<forall>a. block_dom g a b \<longrightarrow> a \<noteq> b \<longrightarrow> block_dom g a d)"
    if bd: "map_of (final_idom ?R I) b = Some d" for b d
  proof -
    obtain i j where i: "0 < i" "i < length ?R" "I ! i = Some j" "b = ?R ! i" "d = ?R ! j"
      using bd Some(2) by blast
    have j: "j < i" "dense_dom (dense g) j i"
        "\<forall>a. dense_dom (dense g) a i \<longrightarrow> a \<noteq> i \<longrightarrow> dense_dom (dense g) a j"
      using exact i(1-3) by (auto simp: idom_exact_def)
    have jn: "j < length ?R" using j(1) i(2) by simp
    have "block_dom g a d" if a: "block_dom g a b" "a \<noteq> b" for a
    proof -
      obtain k where k: "k < length ?R" "?R ! k = a"
        using reach_rpo block_dom_reach [OF a(1)] rpo_reach [OF i(2)] i(4) by blast
      then have "dense_dom (dense g) k i" "k \<noteq> i"
        using dense_dom_block_dom [OF g k(1) i(2)] a i(4) by auto
      then show ?thesis using j(3) dense_dom_block_dom [OF g k(1) jn] k(2) i(5) by blast
    qed
    moreover have "block_dom g d b" using dense_dom_block_dom [OF g jn i(2)] j(2) i(4,5) by simp
    moreover have "d \<noteq> b" using rpo_inj [OF jn i(2)] j(1) i(4,5) by simp
    ultimately show ?thesis by blast
  qed
  show ?thesis unfolding idom_map_ok_def using Some(1) keys entry by blast
qed

text \<open>A strict dominator has fewer dominators, so walking up the map ends.\<close>

definition strict_doms :: "IrControlFlowGraph \<Rightarrow> IrBlockId \<Rightarrow> IrBlockId set" where
  "strict_doms g b = {a. a \<noteq> b \<and> block_dom g a b}"

lemma finite_reachable: "finite {i. cfg_reach g e i}"
  unfolding reverse_postorder_blocks(2) [symmetric] by simp

lemma finite_strict_doms: "cfg_reach g (cfg_entry_block g) b \<Longrightarrow> finite (strict_doms g b)"
  by (rule finite_subset [OF _ finite_reachable [of g "cfg_entry_block g"]])
     (auto simp: strict_doms_def dest: block_dom_reach)

lemma strict_doms_entry [simp]: "strict_doms g (cfg_entry_block g) = {}"
  by (auto simp: strict_doms_def block_dom_entry)

lemma block_dom_antisym:
  "block_dom g a b \<Longrightarrow> block_dom g b a \<Longrightarrow> cfg_reach g (cfg_entry_block g) b \<Longrightarrow> a = b"
proof (rule ccontr)
  assume ab: "block_dom g a b" "block_dom g b a" "cfg_reach g (cfg_entry_block g) b" "a \<noteq> b"
  have "cfg_reach g (cfg_entry_block g) x \<Longrightarrow> \<not> block_dom g a x \<and> \<not> block_dom g b x" for x
  proof (induction rule: cfg_reach.induct)
    case reach_entry
    then show ?case using ab by (auto simp: block_dom_entry)
  next
    case (reach_step i s)
    then have "reach_avoiding g (cfg_entry_block g) a i" "reach_avoiding g (cfg_entry_block g) b i"
      by (auto simp: block_dom_def)
    then have "\<not> block_dom g a s \<or> s = a" "\<not> block_dom g b s \<or> s = b"
      using reach_step.hyps(2) by (auto simp: block_dom_def intro: ra_step)
    then show ?case using ab by auto
  qed
  then show False using ab by blast
qed

lemma idom_strict_doms:
  assumes "idom_map_ok g m" "map_of m b = Some d"
  shows "strict_doms g b = insert d (strict_doms g d)" "d \<notin> strict_doms g d"
    "cfg_reach g (cfg_entry_block g) b" "cfg_reach g (cfg_entry_block g) d"
proof -
  have d: "d \<noteq> b" "block_dom g d b" "\<forall>a. block_dom g a b \<longrightarrow> a \<noteq> b \<longrightarrow> block_dom g a d"
    and b: "cfg_reach g (cfg_entry_block g) b"
    using assms by (auto simp: idom_map_ok_def)
  show "cfg_reach g (cfg_entry_block g) b" "cfg_reach g (cfg_entry_block g) d"
    using b block_dom_reach [OF d(2) b] .
  show "d \<notin> strict_doms g d" by (simp add: strict_doms_def)
  have "a \<noteq> b" if "block_dom g a d" "a \<noteq> d" for a
    using block_dom_antisym [OF d(2) _ b] that d(1) by blast
  then show "strict_doms g b = insert d (strict_doms g d)"
    using d block_dom_trans by (auto simp: strict_doms_def)
qed

lemma idom_induct [consumes 2, case_names entry step]:
  assumes m: "idom_map_ok g m" and b: "cfg_reach g (cfg_entry_block g) b"
    and entry: "P (cfg_entry_block g)"
    and step: "\<And>b d. map_of m b = Some d \<Longrightarrow> P d \<Longrightarrow> P b"
  shows "P b"
  using b
proof (induction "card (strict_doms g b)" arbitrary: b rule: less_induct)
  case less
  show ?case
  proof (cases "b = cfg_entry_block g")
    case True
    then show ?thesis using entry by simp
  next
    case False
    then have "map_of m b \<noteq> None" using m less.prems unfolding idom_map_ok_def by blast
    then obtain d where d: "map_of m b = Some d" by blast
    note sd = idom_strict_doms [OF m d]
    have "card (strict_doms g d) < card (strict_doms g b)"
      using sd finite_strict_doms [OF sd(4)] by simp
    then show ?thesis using step [OF d] less.hyps sd(4) by blast
  qed
qed

section \<open>Dominance queries\<close>

lemma dom_walk_reachable:
  assumes m: "idom_map_ok g (dt_idom t)" "dt_entry t = cfg_entry_block g"
    and b: "cfg_reach g (cfg_entry_block g) b"
  shows "a \<noteq> b \<Longrightarrow> dom_walk t a b = Some (block_dom g a b)"
  using m(1) b
proof (induction b rule: idom_induct)
  case entry
  have "map_of (dt_idom t) (cfg_entry_block g) = None" using m(1) by (auto simp: idom_map_ok_def)
  then show ?case using entry m(2) by (subst dom_walk.simps) (simp add: block_dom_entry)
next
  case (step b d)
  have d: "block_dom g d b" "\<forall>a. block_dom g a b \<longrightarrow> a \<noteq> b \<longrightarrow> block_dom g a d"
    using m(1) step.hyps by (auto simp: idom_map_ok_def)
  show ?case
  proof (cases "a = d")
    case True
    then show ?thesis using step.hyps d(1) by (subst dom_walk.simps) simp
  next
    case False
    then have "dom_walk t a b = Some (block_dom g a d)"
      using step by (subst dom_walk.simps) simp
    moreover have "block_dom g a d \<longleftrightarrow> block_dom g a b"
      using d step.prems block_dom_trans by blast
    ultimately show ?thesis by simp
  qed
qed

lemma dominates_reachable:
  assumes "idom_map_ok g (dt_idom t)" "dt_entry t = cfg_entry_block g"
    "cfg_reach g (cfg_entry_block g) b"
  shows "dominates t a b = Some (block_dom g a b)"
  using dom_walk_reachable [OF assms, of a] by (simp add: dominates_def)

lemma dominates_unreachable:
  assumes "idom_map_ok g (dt_idom t)" "dt_entry t = cfg_entry_block g"
    "\<not> cfg_reach g (cfg_entry_block g) b"
  shows "dominates t a b = Some (a = b \<or> a = cfg_entry_block g)"
proof -
  have "map_of (dt_idom t) b = None" using assms by (auto simp: idom_map_ok_def)
  then show ?thesis using assms(2) by (auto simp: dominates_def dom_walk.simps)
qed

section \<open>Children\<close>

lemma children_in_Nil [simp]: "children_in [] x = []"
  by (simp add: children_in_def)

lemma children_in_push:
  "children_in (push_child (b, d) m) x = (if x = d then children_in m x @ [b] else children_in m x)"
  by (simp add: children_in_def push_child_def bt_simps)

lemma children_in_fold:
  "children_in (fold push_child es m) x =
     children_in m x @ map fst (filter (\<lambda>e. snd e = x) es)"
  by (induction es arbitrary: m) (auto simp: children_in_push)

lemma children_in_map:
  assumes "bt_wf m"
  shows "children_in (children_map m) x = map fst (filter (\<lambda>e. snd e = x) m)"
proof -
  have "children_in (bt_map (sort_key id) c) x = sort (children_in c x)" for c
    by (simp add: children_in_def bt_simps id_def split: option.splits)
  moreover have "sorted (map fst (filter (\<lambda>e. snd e = x) m))"
    using assms by (intro sorted_filter strict_sorted_imp_sorted) (simp add: bt_wf_def)
  ultimately show ?thesis
    by (simp add: children_map_def children_in_fold sorted_sort_id)
qed

lemma children_ok:
  assumes "bt_wf m"
  shows "set (children_in (children_map m) x) = {b. map_of m b = Some x}"
    "distinct (children_in (children_map m) x)"
proof -
  note d = bt_wf_distinct [OF assms]
  show "set (children_in (children_map m) x) = {b. map_of m b = Some x}"
    using map_of_eq_Some_iff [OF d] by (force simp: children_in_map [OF assms])
  show "distinct (children_in (children_map m) x)"
    using d by (simp add: children_in_map [OF assms] distinct_map_filter)
qed

section \<open>Depths\<close>

text \<open>The search: \<open>P\<close> are the blocks popped, \<open>Q\<close> the queue, \<open>D\<close> the depths so far.\<close>

definition bfs_inv ::
  "(IrBlockId \<times> IrBlockId) list \<Rightarrow> IrBlockId \<Rightarrow> IrBlockId list \<Rightarrow> IrBlockId list \<Rightarrow>
   (IrBlockId \<rightharpoonup> nat) \<Rightarrow> bool" where
  "bfs_inv m e P Q D \<longleftrightarrow>
     distinct (P @ Q) \<and> set (P @ Q) = insert e {c. \<exists>p \<in> set P. map_of m c = Some p} \<and>
     dom D = set (P @ Q) \<and> D e = Some 0 \<and>
     (\<forall>c p. map_of m c = Some p \<and> p \<in> set P \<longrightarrow> (\<exists>d. D p = Some d \<and> D c = Some (Suc d)))"

lemma map_of_insert_all:
  "map_of (fold (\<lambda>c. bt_insert c v) cs D) = (\<lambda>x. if x \<in> set cs then Some v else map_of D x)"
  by (induction cs arbitrary: D) (auto simp: bt_simps)

lemma bfs_step:
  assumes m: "bt_wf m" "map_of m e = None" and inv: "bfs_inv m e P (b # rest) D"
    and d: "D b = Some d" and cs: "set cs = {c. map_of m c = Some b}" "distinct cs"
  shows "bfs_inv m e (P @ [b]) (rest @ cs) (\<lambda>x. if x \<in> set cs then Some (Suc d) else D x)"
proof -
  have disj: "c \<notin> set (P @ b # rest)" if "c \<in> set cs" for c
    using that inv m(2) cs(1) by (auto simp: bfs_inv_def)
  have dis: "distinct ((P @ [b]) @ rest @ cs)"
    using disj inv cs(2) by (auto simp: bfs_inv_def)
  have mem: "set ((P @ [b]) @ rest @ cs) = insert e {c. \<exists>p \<in> set (P @ [b]). map_of m c = Some p}"
    using inv cs(1) by (auto simp: bfs_inv_def)
  have e: "e \<notin> set cs" "b \<notin> set cs" using disj inv m(2) cs(1) by (auto simp: bfs_inv_def)
  have "\<exists>d'. (if p \<in> set cs then Some (Suc d) else D p) = Some d' \<and>
             (if c \<in> set cs then Some (Suc d) else D c) = Some (Suc d')"
    if cp: "map_of m c = Some p" "p \<in> set (P @ [b])" for c p
  proof (cases "p = b")
    case True
    then show ?thesis using cp(1) cs(1) e(2) d by auto
  next
    case False
    then have "p \<in> set P" "c \<notin> set cs" using cp cs(1) by auto
    moreover have "p \<notin> set cs" using disj \<open>p \<in> set P\<close> by auto
    ultimately show ?thesis using inv cp(1) by (auto simp: bfs_inv_def)
  qed
  moreover have "dom (\<lambda>x. if x \<in> set cs then Some (Suc d) else D x) = set ((P @ [b]) @ rest @ cs)"
    using inv by (auto simp: bfs_inv_def dom_def split: if_splits)
  ultimately show ?thesis
    using dis mem e(1) inv unfolding bfs_inv_def by auto
qed

lemma bfs_inv_card:
  assumes "bfs_inv m e P Q D"
  shows "length P + length Q \<le> Suc (length m)"
proof -
  have "set (P @ Q) \<subseteq> insert e (fst ` set m)"
    using assms by (auto simp: bfs_inv_def dest!: map_of_SomeD intro: rev_image_eqI)
  then have "card (set (P @ Q)) \<le> card (insert e (fst ` set m))" by (intro card_mono) auto
  also have "\<dots> \<le> Suc (card (fst ` set m))" by (simp add: card_insert_if)
  also have "\<dots> \<le> Suc (length m)" using card_image_le [of "set m" fst] card_length [of m] by simp
  finally show ?thesis using assms distinct_card [of "P @ Q"] by (simp add: bfs_inv_def)
qed

lemma depth_bfs_ok:
  assumes m: "bt_wf m" "map_of m e = None"
  shows "bfs_inv m e P Q (map_of D) \<Longrightarrow>
    \<exists>D' P'. depth_bfs (children_map m) Q D = Some D' \<and> bfs_inv m e P' [] (map_of D')"
proof (induction "Suc (length m) - length P" arbitrary: P Q D rule: less_induct)
  case less
  show ?case
  proof (cases Q)
    case Nil
    then show ?thesis using less.prems by (subst depth_bfs.simps) auto
  next
    case (Cons b rest)
    have "b \<in> dom (map_of D)" using less.prems Cons by (auto simp: bfs_inv_def)
    then obtain d where d: "map_of D b = Some d" by blast
    let ?cs = "children_in (children_map m) b"
    let ?D = "fold (\<lambda>c. bt_insert c (d + 1)) ?cs D"
    have inv: "bfs_inv m e (P @ [b]) (rest @ ?cs) (map_of ?D)"
      using bfs_step [OF m less.prems [unfolded Cons] d
          children_ok(1) [OF m(1)] children_ok(2) [OF m(1)]]
      by (simp add: map_of_insert_all)
    have "length P < Suc (length m)" using bfs_inv_card [OF less.prems] Cons by simp
    then obtain D' P' where "depth_bfs (children_map m) (rest @ ?cs) ?D = Some D'"
        "bfs_inv m e P' [] (map_of D')"
      using less.hyps [OF _ inv] by fastforce
    then show ?thesis using Cons d by (subst depth_bfs.simps) auto
  qed
qed

lemma bfs_start: "map_of m e = None \<Longrightarrow> bfs_inv m e [] [e] (map_of [(e, 0)])"
  by (auto simp: bfs_inv_def split: if_splits)

lemma bfs_end:
  assumes m: "idom_map_ok g m" and inv: "bfs_inv m (cfg_entry_block g) P [] D"
    and b: "cfg_reach g (cfg_entry_block g) b"
  shows "D b = Some (card (strict_doms g b))"
  using m b
proof (induction b rule: idom_induct)
  case entry
  then show ?case using inv by (simp add: bfs_inv_def)
next
  case (step b d)
  note sd = idom_strict_doms [OF m step.hyps]
  have "d \<in> set P" using step.IH inv by (auto simp: bfs_inv_def)
  then obtain k where k: "D d = Some k" "D b = Some (Suc k)"
    using inv step.hyps unfolding bfs_inv_def by blast
  then show ?case using step.IH sd finite_strict_doms [OF sd(4)] by simp
qed

section \<open>The tree that is returned\<close>

definition tree_ok :: "IrControlFlowGraph \<Rightarrow> DominatorTree \<Rightarrow> bool" where
  "tree_ok g t \<longleftrightarrow> dt_entry t = cfg_entry_block g \<and> idom_map_ok g (dt_idom t) \<and>
     dt_children t = children_map (dt_idom t) \<and>
     (\<forall>b. cfg_reach g (cfg_entry_block g) b \<longrightarrow> dt_get_depth t b = card (strict_doms g b))"

lemma single_block_reach:
  assumes "cfg_linked g" "length (cfg_blocks g) \<le> 1" "cfg_reach g (cfg_entry_block g) b"
  shows "b = cfg_entry_block g"
proof -
  have "get_block g b \<noteq> None" "get_block g (cfg_entry_block g) \<noteq> None"
    using cfg_linked_reach [OF assms(3,1)] assms(1) by (auto simp: cfg_linked_def)
  then have "b \<in> fst ` set (cfg_blocks g)" "cfg_entry_block g \<in> fst ` set (cfg_blocks g)"
    using get_block_dom by blast+
  then show ?thesis using assms(2) by (cases "cfg_blocks g") auto
qed

lemma dom_compute_tree:
  assumes g: "cfg_linked (fn_cfg f)"
  shows "\<exists>t. dom_compute f = Some t \<and> tree_ok (fn_cfg f) t"
proof (cases "length (cfg_blocks (fn_cfg f)) \<le> 1")
  case True
  let ?e = "cfg_entry_block (fn_cfg f)"
  have "idom_map_ok (fn_cfg f) []"
    using single_block_reach [OF g True] by (auto simp: idom_map_ok_def bt_wf_def)
  moreover have "dt_get_depth \<lparr>dt_idom = [], dt_children = [], dt_depth = [(?e, 0)], dt_entry = ?e\<rparr> b =
      card (strict_doms (fn_cfg f) b)" if "cfg_reach (fn_cfg f) ?e b" for b
    using single_block_reach [OF g True that] by (simp add: dt_get_depth_def)
  ultimately show ?thesis
    using True by (simp add: dom_compute_def Let_def tree_ok_def children_map_def bt_map_def)
next
  case False
  let ?g = "fn_cfg f"
  let ?e = "cfg_entry_block ?g"
  obtain I where I: "dom_loop (max_iterations (length (rpo_of ?g))) (dense ?g)
      (initial_idom (length (rpo_of ?g))) = Some I" "idom_exact (dense ?g) I"
    using dom_loop_exact [OF dense_rpo_ok [OF g]] by auto
  let ?m = "final_idom (rpo_of ?g) I"
  have ok: "idom_map_ok ?g ?m" by (rule final_idom_ok [OF g I(2)])
  then have m: "bt_wf ?m" "map_of ?m ?e = None" by (auto simp: idom_map_ok_def)
  obtain D P where D: "depth_bfs (children_map ?m) [?e] [(?e, 0)] = Some D"
      "bfs_inv ?m ?e P [] (map_of D)"
    using depth_bfs_ok [OF m bfs_start [OF m(2)]] by blast
  show ?thesis
    using False I(1) D(1) ok bfs_end [OF ok D(2)]
    by (simp add: dom_compute_def Let_def dense_def tree_ok_def dt_get_depth_def)
qed

end
