(* ===== verification/MirLoopBody.thy ===== *)
theory MirLoopBody
  imports MirLoops MirDomTree
begin

text \<open>
  The loops \<open>LoopNestInfo::analyze\<close> finds: which headers, and which blocks each has. The blocks
  that control can reach are dominated by the header, two loops that share one are nested, and a
  loop whose header is in another has all its blocks there.
\<close>

section \<open>The body of a back edge\<close>

text \<open>The header, the source of the back edge, and what leads to it without going through the header.\<close>

inductive loop_body :: "IrControlFlowGraph \<Rightarrow> IrBlockId \<Rightarrow> IrBlockId \<Rightarrow> IrBlockId \<Rightarrow> bool"
  for g :: IrControlFlowGraph and h :: IrBlockId and source :: IrBlockId where
  lb_header: "loop_body g h source h"
| lb_source: "loop_body g h source source"
| lb_pred: "loop_body g h source y \<Longrightarrow> y \<noteq> h \<Longrightarrow> x \<in> set (preds_of g y) \<Longrightarrow> loop_body g h source x"

lemma collect_loop_facts:
  "sorted_wrt (<) blocks \<Longrightarrow> set wl \<subseteq> set blocks \<Longrightarrow> h \<in> set blocks \<Longrightarrow> h \<notin> set wl \<Longrightarrow>
   \<forall>y \<in> set blocks - set wl - {h}. set (preds_of g y) \<subseteq> set blocks \<Longrightarrow>
   sorted_wrt (<) (collect_loop g blocks wl) \<and> set blocks \<subseteq> set (collect_loop g blocks wl) \<and>
   (\<forall>y \<in> set (collect_loop g blocks wl) - {h}. set (preds_of g y) \<subseteq> set (collect_loop g blocks wl))"
proof (induction g blocks wl rule: collect_loop.induct)
  case (1 g blocks)
  then show ?case by simp
next
  case (2 g blocks b wl)
  obtain blocks' wl' where r: "add_preds (preds_of g b) blocks wl = (blocks', wl')" by fastforce
  note sets = add_preds_sets [OF r]
  have "sorted_wrt (<) (collect_loop g blocks' wl') \<and> set blocks' \<subseteq> set (collect_loop g blocks' wl') \<and>
   (\<forall>y \<in> set (collect_loop g blocks' wl') - {h}. set (preds_of g y) \<subseteq> set (collect_loop g blocks' wl'))"
    using r "2.prems" sets by (intro "2.IH" [OF refl r [symmetric]]) auto
  then show ?case using r sets by auto
qed

lemma collect_loop_least:
  "set blocks \<subseteq> {x. loop_body g h s x} \<Longrightarrow> set wl \<subseteq> {x. loop_body g h s x} - {h} \<Longrightarrow> h \<in> set blocks \<Longrightarrow>
   set (collect_loop g blocks wl) \<subseteq> {x. loop_body g h s x}"
proof (induction g blocks wl rule: collect_loop.induct)
  case (1 g blocks)
  then show ?case by simp
next
  case (2 g blocks b wl)
  obtain blocks' wl' where r: "add_preds (preds_of g b) blocks wl = (blocks', wl')" by fastforce
  note sets = add_preds_sets [OF r]
  have "set (preds_of g b) \<subseteq> {x. loop_body g h s x}"
    using "2.prems"(2) by (auto intro: lb_pred)
  then have "set (collect_loop g blocks' wl') \<subseteq> {x. loop_body g h s x}"
    using "2.prems" sets by (intro "2.IH" [OF refl r [symmetric]]) auto
  then show ?case using r by simp
qed

lemma find_loop_blocks_ok:
  "sorted_wrt (<) (find_loop_blocks g h s)" "set (find_loop_blocks g h s) = {x. loop_body g h s x}"
proof -
  have "sorted_wrt (<) (find_loop_blocks g h s) \<and> set (find_loop_blocks g h s) = {x. loop_body g h s x}"
  proof (cases "h = s")
    case True
    have "loop_body g h s x \<Longrightarrow> x = h" for x
      by (induction rule: loop_body.induct) (use True in auto)
    then show ?thesis using True by (auto simp: find_loop_blocks_def intro: lb_header)
  next
    case False
    define R where "R = collect_loop g (bs_insert s [h]) [s]"
    have R: "sorted_wrt (<) R \<and> set (bs_insert s [h]) \<subseteq> set R \<and>
        (\<forall>y \<in> set R - {h}. set (preds_of g y) \<subseteq> set R)"
      unfolding R_def using False by (intro collect_loop_facts) auto
    have "set R \<subseteq> {x. loop_body g h s x}"
      unfolding R_def using False by (intro collect_loop_least) (auto intro: lb_header lb_source)
    moreover have "loop_body g h s x \<Longrightarrow> x \<in> set R" for x
      by (induction rule: loop_body.induct) (use R in auto)
    moreover have "find_loop_blocks g h s = R" using False by (simp only: find_loop_blocks_def R_def if_False)
    ultimately show ?thesis using R by auto
  qed
  then show "sorted_wrt (<) (find_loop_blocks g h s)"
    "set (find_loop_blocks g h s) = {x. loop_body g h s x}" by auto
qed

section \<open>Back edges\<close>

text \<open>The answer of \<open>dominates\<close>, also for a block control cannot reach.\<close>

definition dom_query :: "IrControlFlowGraph \<Rightarrow> IrBlockId \<Rightarrow> IrBlockId \<Rightarrow> bool" where
  "dom_query g a b \<longleftrightarrow>
     (if cfg_reach g (cfg_entry_block g) b then block_dom g a b
      else a = b \<or> a = cfg_entry_block g)"

lemma dominates_query: "tree_ok g t \<Longrightarrow> dominates t a b = Some (dom_query g a b)"
  by (simp add: dom_query_def tree_ok_def dominates_reachable dominates_unreachable)

definition back_edge :: "IrControlFlowGraph \<Rightarrow> IrBlockId \<Rightarrow> IrBlockId \<Rightarrow> bool" where
  "back_edge g p h \<longleftrightarrow> h \<in> set (block_succs g p) \<and> dom_query g h p"

definition loop_blocks_of :: "IrControlFlowGraph \<Rightarrow> IrBlockId \<Rightarrow> IrBlockId set" where
  "loop_blocks_of g h = {x. \<exists>p. back_edge g p h \<and> loop_body g h p x}"

definition loop_headers :: "IrControlFlowGraph \<Rightarrow> IrBlockId set" where
  "loop_headers g = {h. \<exists>p. back_edge g p h}"

lemma header_in_loop: "h \<in> loop_headers g \<Longrightarrow> h \<in> loop_blocks_of g h"
  by (auto simp: loop_headers_def loop_blocks_of_def intro: lb_header)

section \<open>Finding the loops\<close>

definition found_ok :: "IrControlFlowGraph \<Rightarrow> (IrBlockId \<times> IrBlockId) set \<Rightarrow> loops \<Rightarrow> bool" where
  "found_ok g E ls \<longleftrightarrow> bt_wf ls \<and>
     (\<forall>h. map_of ls h = None \<longleftrightarrow> \<not> (\<exists>p. (p, h) \<in> E \<and> dom_query g h p)) \<and>
     (\<forall>h l. map_of ls h = Some l \<longrightarrow>
        nl_header l = h \<and> sorted_wrt (<) (nl_blocks l) \<and>
        set (nl_blocks l) = {x. \<exists>p. (p, h) \<in> E \<and> dom_query g h p \<and> loop_body g h p x} \<and>
        nl_exit_blocks l = find_exit_blocks g (nl_blocks l) \<and>
        nl_parent l = None \<and> nl_children l = [])"

lemma fold_bs_insert:
  "set (fold bs_insert xs ys) = set xs \<union> set ys"
  "sorted_wrt (<) ys \<Longrightarrow> sorted_wrt (<) (fold bs_insert xs ys)"
  by (induction xs arbitrary: ys) (auto simp: sorted_bs_insert)

lemma add_back_edge_ok:
  assumes ok: "found_ok g E ls" and query: "dom_query g h p"
  shows "found_ok g (insert (p, h) E) (add_back_edge g p h ls)"
proof (cases "map_of ls h")
  case None
  then have "\<not> (\<exists>p. (p, h) \<in> E \<and> dom_query g h p)" using ok by (auto simp: found_ok_def)
  then show ?thesis
    using None ok query
    by (auto simp: found_ok_def add_back_edge_def bt_wf_insert bt_simps new_loop_def Let_def
          find_loop_blocks_ok)
next
  case (Some l)
  then have l: "nl_header l = h" "sorted_wrt (<) (nl_blocks l)" "nl_parent l = None" "nl_children l = []"
      "set (nl_blocks l) = {x. \<exists>p. (p, h) \<in> E \<and> dom_query g h p \<and> loop_body g h p x}"
    using ok by (auto simp: found_ok_def)
  let ?l = "merge_loop g (new_loop g h p) l"
  have "nl_header ?l = h \<and> sorted_wrt (<) (nl_blocks ?l) \<and>
      set (nl_blocks ?l) = {x. \<exists>q. (q, h) \<in> insert (p, h) E \<and> dom_query g h q \<and> loop_body g h q x} \<and>
      nl_exit_blocks ?l = find_exit_blocks g (nl_blocks ?l) \<and> nl_parent ?l = None \<and> nl_children ?l = []"
    using l query
    by (auto simp: merge_loop_def new_loop_def Let_def fold_bs_insert find_loop_blocks_ok)
  then show ?thesis
    using Some ok query unfolding found_ok_def add_back_edge_def
    by (auto simp: bt_simps split: if_splits)
qed

lemma find_loops_ok:
  "tree_ok g t \<Longrightarrow> found_ok g E ls \<Longrightarrow>
   \<exists>ls'. find_loops g t es ls = Some ls' \<and> found_ok g (E \<union> set es) ls'"
proof (induction es arbitrary: E ls)
  case Nil
  then show ?case by simp
next
  case (Cons e es)
  obtain p h where e: "e = (p, h)" by fastforce
  show ?case
  proof (cases "dom_query g h p")
    case True
    show ?thesis
      using Cons.IH [OF Cons.prems(1) add_back_edge_ok [OF Cons.prems(2) True]] True
      by (simp add: e dominates_query [OF Cons.prems(1)])
  next
    case False
    have "(q, k) \<in> insert (p, h) E \<and> dom_query g k q \<longleftrightarrow> (q, k) \<in> E \<and> dom_query g k q"
      "(q, k) \<in> insert (p, h) E \<and> dom_query g k q \<and> R \<longleftrightarrow> (q, k) \<in> E \<and> dom_query g k q \<and> R"
      for q k R using False by auto
    then have "found_ok g (insert (p, h) E) ls"
      using Cons.prems(2) by (simp only: found_ok_def) blast
    from Cons.IH [OF Cons.prems(1) this] show ?thesis
      using False by (simp add: e dominates_query [OF Cons.prems(1)])
  qed
qed

section \<open>Predecessors and dominance\<close>

lemma preds_of_iff:
  assumes "cfg_linked g" "get_block g y \<noteq> None"
  shows "x \<in> set (preds_of g y) \<longleftrightarrow> y \<in> set (block_succs g x)"
  using assms by (auto simp: preds_of_def cfg_linked_def)

lemma preds_of_succ: "cfg_linked g \<Longrightarrow> x \<in> set (preds_of g y) \<Longrightarrow> y \<in> set (block_succs g x)"
  by (auto simp: preds_of_def cfg_linked_def split: option.splits)

lemma succ_block:
  assumes "cfg_linked g" "y \<in> set (block_succs g x)"
  shows "get_block g y \<noteq> None"
proof (cases "get_block g x")
  case (Some b)
  then show ?thesis using assms by (auto simp: cfg_linked_def)
qed (use assms in simp)

lemma succ_preds_of: "cfg_linked g \<Longrightarrow> y \<in> set (block_succs g x) \<Longrightarrow> x \<in> set (preds_of g y)"
  using preds_of_iff succ_block by blast

text \<open>A dominator of a block other than the block dominates its reachable predecessors.\<close>

lemma block_dom_pred:
  "block_dom g a y \<Longrightarrow> a \<noteq> y \<Longrightarrow> y \<in> set (block_succs g x) \<Longrightarrow> block_dom g a x"
  by (auto simp: block_dom_def intro: ra_step)

text \<open>The dominators of a block are a chain.\<close>

lemma block_dom_linear:
  assumes m: "idom_map_ok g m" and b: "cfg_reach g (cfg_entry_block g) b"
  shows "block_dom g x b \<Longrightarrow> block_dom g y b \<Longrightarrow> block_dom g x y \<or> block_dom g y x"
  using m b
proof (induction b rule: idom_induct)
  case entry
  then show ?case by (simp add: block_dom_entry)
next
  case (step b d)
  have "\<forall>a. block_dom g a b \<longrightarrow> a \<noteq> b \<longrightarrow> block_dom g a d"
    using m step.hyps by (auto simp: idom_map_ok_def)
  then show ?case using step by blast
qed

section \<open>The header dominates its loop\<close>

lemma loop_body_dom:
  "loop_body g h p x \<Longrightarrow> cfg_linked g \<Longrightarrow> dom_query g h p \<Longrightarrow> cfg_reach g (cfg_entry_block g) x \<Longrightarrow>
   x = h \<or> block_dom g h x \<and> cfg_reach g (cfg_entry_block g) p"
proof (induction rule: loop_body.induct)
  case lb_header
  then show ?case by simp
next
  case lb_source
  then show ?case by (simp add: dom_query_def)
next
  case (lb_pred y x)
  have y: "y \<in> set (block_succs g x)" using preds_of_succ lb_pred.prems(1) lb_pred.hyps(3) by blast
  then have "cfg_reach g (cfg_entry_block g) y" using lb_pred.prems(3) by (auto intro: reach_step)
  then have "block_dom g h y" "cfg_reach g (cfg_entry_block g) p" using lb_pred by auto
  then show ?case using block_dom_pred [OF _ _ y] lb_pred.hyps(2) by blast
qed

lemma loop_dom:
  assumes "cfg_linked g" "x \<in> loop_blocks_of g h" "cfg_reach g (cfg_entry_block g) x"
  shows "block_dom g h x" "cfg_reach g (cfg_entry_block g) h"
proof -
  obtain p where p: "back_edge g p h" "loop_body g h p x" using assms(2) by (auto simp: loop_blocks_of_def)
  then have "x = h \<or> block_dom g h x"
    using loop_body_dom [OF p(2) assms(1) _ assms(3)] by (auto simp: back_edge_def)
  then show "block_dom g h x" by auto
  then show "cfg_reach g (cfg_entry_block g) h" using block_dom_reach assms(3) by blast
qed

section \<open>Nesting\<close>

definition loop_in :: "IrControlFlowGraph \<Rightarrow> IrBlockId \<Rightarrow> IrBlockId \<Rightarrow> bool" where
  "loop_in g h k \<longleftrightarrow> h \<noteq> k \<and> h \<in> loop_blocks_of g k \<and> k \<notin> loop_blocks_of g h"

text \<open>A loop whose header is in another loop, which it does not contain, is inside it.\<close>

lemma loop_in_subset:
  assumes g: "cfg_linked g" and hk: "loop_in g h k"
  shows "loop_blocks_of g h \<subseteq> loop_blocks_of g k"
proof
  fix x assume "x \<in> loop_blocks_of g h"
  then obtain s where s: "back_edge g s h" "loop_body g h s x" by (auto simp: loop_blocks_of_def)
  obtain p where p: "back_edge g p k" "loop_body g k p h" "h \<noteq> k"
    using hk by (auto simp: loop_in_def loop_blocks_of_def)
  have out: "loop_body g h s y \<Longrightarrow> y \<noteq> k" for y
    using hk s(1) by (auto simp: loop_in_def loop_blocks_of_def)
  have "loop_body g h s y \<Longrightarrow> loop_body g k p y" for y
  proof (induction rule: loop_body.induct)
    case lb_source
    have "s \<in> set (preds_of g h)" using succ_preds_of [OF g] s(1) by (simp add: back_edge_def)
    then show ?case using p(2,3) by (auto intro: lb_pred)
  next
    case (lb_pred y x)
    then show ?case using out by (auto intro: loop_body.lb_pred)
  qed (rule p(2))
  then show "x \<in> loop_blocks_of g k" using s(2) p(1) by (auto simp: loop_blocks_of_def)
qed

lemma loop_in_psubset: "cfg_linked g \<Longrightarrow> loop_in g h k \<Longrightarrow> k \<in> loop_headers g \<Longrightarrow>
    loop_blocks_of g h \<subset> loop_blocks_of g k"
  using loop_in_subset header_in_loop by (fastforce simp: loop_in_def)

lemma loop_in_trans:
  assumes g: "cfg_linked g" and h: "h \<in> loop_headers g" "loop_in g h k" "loop_in g k m"
    and m: "m \<in> loop_headers g"
  shows "loop_in g h m"
proof -
  have "h \<in> loop_blocks_of g m"
    using loop_in_subset [OF g h(2)] loop_in_subset [OF g h(3)] header_in_loop [OF h(1)] by blast
  moreover have "m \<notin> loop_blocks_of g h"
    using loop_in_subset [OF g h(2)] h(3) by (auto simp: loop_in_def)
  moreover have "h \<noteq> m" using calculation header_in_loop [OF m] by blast
  ultimately show ?thesis by (simp add: loop_in_def)
qed

text \<open>Backwards from a block of a loop, a dominator of it below the header is met.\<close>

lemma dominator_in_body:
  assumes g: "cfg_linked g" and ho: "block_dom g h k" "h \<noteq> k"
  shows "cfg_reach g (cfg_entry_block g) x \<Longrightarrow> block_dom g k x \<Longrightarrow> loop_body g h p x \<Longrightarrow> loop_body g h p k"
proof (induction rule: cfg_reach.induct)
  case reach_entry
  then show ?case by (simp add: block_dom_entry)
next
  case (reach_step i s)
  show ?case
  proof (cases "s = k")
    case True
    then show ?thesis using reach_step.prems(2) by simp
  next
    case False
    have s: "cfg_reach g (cfg_entry_block g) s" using reach_step.hyps cfg_reach.reach_step by blast
    have "s \<noteq> h"
    proof
      assume "s = h"
      then have "h = k" using block_dom_antisym [OF ho(1)] reach_step.prems(1)
          block_dom_reach [OF reach_step.prems(1) s] by blast
      then show False using ho(2) by simp
    qed
    then have "loop_body g h p i"
      using reach_step succ_preds_of [OF g] by (auto intro: lb_pred)
    moreover have "block_dom g k i"
      using block_dom_pred [OF reach_step.prems(1)] False reach_step.hyps(2) by blast
    ultimately show ?thesis using reach_step.IH by blast
  qed
qed

lemma loops_nested:
  assumes g: "cfg_linked g" and m: "idom_map_ok g m"
    and b: "cfg_reach g (cfg_entry_block g) b" "b \<in> loop_blocks_of g h" "b \<in> loop_blocks_of g k"
    and "h \<noteq> k"
  shows "loop_in g h k \<or> loop_in g k h"
proof -
  note dh = loop_dom [OF g b(2,1)] and dk = loop_dom [OF g b(3,1)]
  have inner: "loop_in g y x" if "block_dom g x y" "x \<noteq> y" "b \<in> loop_blocks_of g x"
      "block_dom g y b" "cfg_reach g (cfg_entry_block g) x" "cfg_reach g (cfg_entry_block g) y" for x y
  proof -
    note t = that
    obtain p where "back_edge g p x" "loop_body g x p b" using t(3) by (auto simp: loop_blocks_of_def)
    then have "y \<in> loop_blocks_of g x"
      using dominator_in_body [OF g that(1,2) b(1) that(4)] by (auto simp: loop_blocks_of_def)
    moreover have "x \<notin> loop_blocks_of g y"
      using loop_dom(1) [OF g _ that(5)] block_dom_antisym [OF that(1) _ that(6)] that(2) by blast
    ultimately show ?thesis using that(2) by (simp add: loop_in_def)
  qed
  from block_dom_linear [OF m b(1) dh(1) dk(1)] show ?thesis
    using inner [of h k] inner [of k h] b(2,3) dh dk \<open>h \<noteq> k\<close> by blast
qed

end
