(* ===== verification/MirLoopNest.thy ===== *)
theory MirLoopNest
  imports MirLoopBody "HOL-Library.Multiset"
begin

text \<open>
  The nesting \<open>LoopNestInfo::analyze\<close> computes: it returns, the parent of a loop is the smallest
  loop around it, its depth is the number of parents above it, and a block is mapped to the
  deepest loop it is in. For a block that control can reach, the depth of that loop is one less
  than the number of loops the block is in.
\<close>

section \<open>The fields the later passes keep\<close>

definition nl_static ::
  "NaturalLoop \<Rightarrow> IrBlockId \<times> IrBlockId \<times> IrBlockId list \<times> IrBlockId list \<times> IrBlockId option" where
  "nl_static l =
     (nl_header l, nl_back_edge_source l, nl_blocks l, nl_exit_blocks l, nl_preheader l)"

definition same_loops :: "loops \<Rightarrow> loops \<Rightarrow> bool" where
  "same_loops ls ls' \<longleftrightarrow> bt_map nl_static ls = bt_map nl_static ls'"

lemma same_loops_refl [simp]: "same_loops ls ls"
  by (simp add: same_loops_def)

lemma same_loops_trans: "same_loops a b \<Longrightarrow> same_loops b c \<Longrightarrow> same_loops a c"
  by (simp add: same_loops_def)

lemma bt_map_modify:
  "(\<And>l. s (f l) = s l) \<Longrightarrow> bt_map s (bt_modify k f ls) = bt_map s ls"
  by (induction ls) (auto simp: bt_map_def bt_modify_def)

lemma same_loops_modify: "(\<And>l. nl_static (f l) = nl_static l) \<Longrightarrow> same_loops ls (bt_modify k f ls)"
  by (simp add: same_loops_def bt_map_modify)

lemma same_loops_lookup:
  assumes "same_loops ls ls'"
  shows "map_option nl_static (map_of ls h) = map_option nl_static (map_of ls' h)"
  using assms map_of_bt_map [of nl_static ls h] map_of_bt_map [of nl_static ls' h]
  by (simp add: same_loops_def)

lemma same_loops_keys: "same_loops ls ls' \<Longrightarrow> map fst ls' = map fst ls"
  by (metis map_fst_bt_map same_loops_def)

lemma same_loops_Some:
  assumes "same_loops ls ls'" "map_of ls h = Some l"
  shows "\<exists>l'. map_of ls' h = Some l' \<and> nl_blocks l' = nl_blocks l"
  using same_loops_lookup [OF assms(1), of h] assms(2)
  by (cases "map_of ls' h") (auto simp: nl_static_def)

section \<open>Parents\<close>

definition blocks_in :: "loops \<Rightarrow> IrBlockId \<Rightarrow> IrBlockId list" where
  "blocks_in ls h = (case map_of ls h of Some l \<Rightarrow> nl_blocks l | None \<Rightarrow> [])"

definition inside :: "loops \<Rightarrow> IrBlockId \<Rightarrow> IrBlockId \<Rightarrow> bool" where
  "inside ls h k \<longleftrightarrow> h \<noteq> k \<and> h \<in> set (blocks_in ls k) \<and> k \<notin> set (blocks_in ls h)"

definition parent_in :: "loops \<Rightarrow> IrBlockId \<Rightarrow> IrBlockId option" where
  "parent_in ls h = (case map_of ls h of Some l \<Rightarrow> nl_parent l | None \<Rightarrow> None)"

text \<open>The smallest loop around \<open>h\<close> among those considered.\<close>

definition smallest_around ::
  "loops \<Rightarrow> (IrBlockId \<times> IrBlockId) set \<Rightarrow> IrBlockId \<Rightarrow> IrBlockId option \<Rightarrow> bool" where
  "smallest_around ls D h p \<longleftrightarrow>
     (case p of
        None \<Rightarrow> \<forall>k. (h, k) \<in> D \<longrightarrow> \<not> inside ls h k
      | Some q \<Rightarrow> (h, q) \<in> D \<and> inside ls h q \<and>
          (\<forall>k. (h, k) \<in> D \<longrightarrow> inside ls h k \<longrightarrow> length (blocks_in ls q) \<le> length (blocks_in ls k)))"

definition parents_ok :: "loops \<Rightarrow> (IrBlockId \<times> IrBlockId) set \<Rightarrow> loops \<Rightarrow> bool" where
  "parents_ok found D ls \<longleftrightarrow> same_loops found ls \<and>
     (\<forall>h \<in> fst ` set ls. smallest_around found D h (parent_in ls h)) \<and>
     (\<forall>h l. map_of ls h = Some l \<longrightarrow> nl_children l = [])"

lemma same_loops_blocks: "same_loops ls ls' \<Longrightarrow> blocks_in ls' h = blocks_in ls h"
  using same_loops_lookup [of ls ls' h]
  by (auto simp: blocks_in_def nl_static_def split: option.splits)

lemma parent_in_modify:
  "map_of ls h \<noteq> None \<Longrightarrow>
   parent_in (bt_modify h (\<lambda>l. l\<lparr>nl_parent := p\<rparr>) ls) k = (if k = h then p else parent_in ls k)"
  by (auto simp: parent_in_def bt_simps split: option.splits)

lemma keys_modify: "fst ` set (bt_modify k f m) = fst ` set m"
  by (metis list.set_map map_fst_bt_modify)

lemma set_parent_ok:
  assumes ok: "parents_ok found D ls" and h: "h \<in> fst ` set ls"
    and p: "smallest_around found (insert (h, k) D) h p"
  shows "parents_ok found (insert (h, k) D) (bt_modify h (\<lambda>l. l\<lparr>nl_parent := p\<rparr>) ls)"
proof -
  let ?ls = "bt_modify h (\<lambda>l. l\<lparr>nl_parent := p\<rparr>) ls"
  have "map_of ls h \<noteq> None" using h by (auto simp: map_of_eq_None_iff)
  note par = parent_in_modify [OF this, of p]
  have "same_loops found ?ls"
    using ok by (auto simp: parents_ok_def nl_static_def intro!: same_loops_trans [OF _ same_loops_modify])
  moreover have "smallest_around found (insert (h, k) D) x (parent_in ?ls x)" if "x \<in> fst ` set ?ls" for x
  proof (cases "x = h")
    case True
    then show ?thesis using p par by simp
  next
    case False
    have "x \<in> fst ` set ls" using that by (simp add: keys_modify)
    then have "smallest_around found D x (parent_in ls x)" using ok unfolding parents_ok_def by blast
    then show ?thesis using False par by (simp add: smallest_around_def split: option.splits)
  qed
  moreover have "nl_children l = []" if "map_of ?ls x = Some l" for x l
    using that ok by (auto simp: parents_ok_def bt_simps split: if_splits)
  ultimately show ?thesis by (simp add: parents_ok_def)
qed

lemma keep_parent:
  assumes l: "map_of ls h = Some l"
  shows "bt_modify h (\<lambda>l. l\<lparr>nl_parent := parent_in ls h\<rparr>) ls = ls \<or> \<not> distinct (map fst ls)"
proof -
  have "(if h' = h then l'\<lparr>nl_parent := parent_in ls h\<rparr> else l') = l'"
    if "(h', l') \<in> set ls" "distinct (map fst ls)" for h' l'
    using map_of_is_SomeI [OF that(2,1)] by (auto simp: parent_in_def)
  then show ?thesis unfolding bt_modify_def by (auto intro!: map_idI)
qed

lemma consider_parent_ok:
  assumes ok: "parents_ok found D ls" and wf: "bt_wf ls" and h: "h \<in> fst ` set ls" "k \<in> fst ` set ls"
  shows "\<exists>ls'. consider_parent h k ls = Some ls' \<and> parents_ok found (insert (h, k) D) ls' \<and>
           bt_wf ls' \<and> map fst ls' = map fst ls"
proof -
  obtain lh lk where l: "map_of ls h = Some lh" "map_of ls k = Some lk"
    using h by (metis map_of_eq_None_iff option.exhaust)
  have same: "same_loops found ls" using ok by (simp add: parents_ok_def)
  have blocks: "nl_blocks lh = blocks_in found h" "nl_blocks lk = blocks_in found k"
    using l same_loops_blocks [OF same] by (metis blocks_in_def option.simps(5))+
  have par: "parent_in ls h = nl_parent lh" using l by (simp add: parent_in_def)
  have small: "smallest_around found D h (nl_parent lh)" using ok h(1) par by (auto simp: parents_ok_def)
  have keep: "bt_modify h (\<lambda>l. l\<lparr>nl_parent := nl_parent lh\<rparr>) ls = ls"
    using keep_parent [OF l(1)] bt_wf_distinct [OF wf] par by simp
  have finish: ?thesis if "consider_parent h k ls = Some (bt_modify h (\<lambda>l. l\<lparr>nl_parent := p\<rparr>) ls)"
      "smallest_around found (insert (h, k) D) h p" for p
    using that set_parent_ok [OF ok h(1) that(2)] wf by simp
  show ?thesis
  proof (cases "inside found h k")
    case False
    then have "consider_parent h k ls = Some (bt_modify h (\<lambda>l. l\<lparr>nl_parent := nl_parent lh\<rparr>) ls)"
      using l blocks keep by (auto simp: consider_parent_def inside_def)
    then show ?thesis
      using small False by (intro finish) (auto simp: smallest_around_def split: option.splits)
  next
    case True
    then have test: "h \<noteq> k" "h \<in> set (nl_blocks lk)" "k \<notin> set (nl_blocks lh)"
      using blocks by (auto simp: inside_def)
    show ?thesis
    proof (cases "nl_parent lh")
      case None
      then have "consider_parent h k ls = Some (bt_modify h (\<lambda>l. l\<lparr>nl_parent := Some k\<rparr>) ls)"
        using l test by (simp add: consider_parent_def)
      then show ?thesis using small None True by (intro finish) (auto simp: smallest_around_def)
    next
      case (Some q)
      then have q: "(h, q) \<in> D" "inside found h q" using small by (auto simp: smallest_around_def)
      have "blocks_in found q \<noteq> []" using q(2) by (auto simp: inside_def)
      then obtain lq where lq: "map_of ls q = Some lq" "nl_blocks lq = blocks_in found q"
        using same_loops_blocks [OF same, of q] by (cases "map_of ls q") (auto simp: blocks_in_def)
      show ?thesis
      proof (cases "length (nl_blocks lk) < length (nl_blocks lq)")
        case less: True
        then have "consider_parent h k ls = Some (bt_modify h (\<lambda>l. l\<lparr>nl_parent := Some k\<rparr>) ls)"
          using l lq Some test by (simp add: consider_parent_def)
        then show ?thesis
        proof (intro finish)
          have "length (blocks_in found k) \<le> length (blocks_in found x)" if "(h, x) \<in> D" "inside found h x" for x
            using small Some that less blocks(2) lq(2) by (fastforce simp: smallest_around_def)
          then show "smallest_around found (insert (h, k) D) h (Some k)"
            using True by (auto simp: smallest_around_def)
        qed
      next
        case False
        then have "consider_parent h k ls = Some (bt_modify h (\<lambda>l. l\<lparr>nl_parent := nl_parent lh\<rparr>) ls)"
          using l lq Some test keep by (simp add: consider_parent_def)
        then show ?thesis
          using small Some True False blocks lq
          by (intro finish) (auto simp: smallest_around_def)
      qed
    qed
  qed
qed

lemma set_parents_ok:
  "parents_ok found D ls \<Longrightarrow> bt_wf ls \<Longrightarrow> set ps \<subseteq> fst ` set ls \<times> fst ` set ls \<Longrightarrow>
   \<exists>ls'. set_parents ps ls = Some ls' \<and> parents_ok found (D \<union> set ps) ls' \<and> bt_wf ls'"
proof (induction ps arbitrary: D ls)
  case Nil
  then show ?case by simp
next
  case (Cons e ps)
  obtain h k where e: "e = (h, k)" by fastforce
  then have hk: "h \<in> fst ` set ls" "k \<in> fst ` set ls" using Cons.prems(3) by auto
  obtain ls1 where ls1: "consider_parent h k ls = Some ls1" "parents_ok found (insert (h, k) D) ls1"
      "bt_wf ls1" "map fst ls1 = map fst ls"
    using consider_parent_ok [OF Cons.prems(1,2) hk] by blast
  have "fst ` set ls1 = fst ` set ls" using ls1(4) by (metis list.set_map)
  then have "set ps \<subseteq> fst ` set ls1 \<times> fst ` set ls1" using Cons.prems(3) by auto
  from Cons.IH [OF ls1(2,3) this] ls1(1) show ?case by (simp add: e)
qed

section \<open>Children\<close>

lemma map_of_None_keys: "map_of ls h \<noteq> None \<longleftrightarrow> h \<in> fst ` set ls"
  by (simp add: map_of_eq_None_iff)

lemma parent_in_children:
  "parent_in (bt_modify q (\<lambda>l. l\<lparr>nl_children := c l\<rparr>) ls) h = parent_in ls h"
  by (auto simp: parent_in_def bt_simps split: option.splits)

lemma add_children_ok:
  "set hs \<subseteq> fst ` set ls \<Longrightarrow> \<forall>h q. parent_in ls h = Some q \<longrightarrow> q \<in> fst ` set ls \<Longrightarrow>
   \<exists>ls'. add_children hs ls = Some ls' \<and>
     (\<forall>h. map_of ls' h = map_option (\<lambda>l. l\<lparr>nl_children := nl_children l @
            filter (\<lambda>k. parent_in ls k = Some h) hs\<rparr>) (map_of ls h)) \<and>
     same_loops ls ls'"
proof (induction hs arbitrary: ls)
  case Nil
  then show ?case by (simp add: option.map_ident)
next
  case (Cons h hs)
  obtain l where l: "map_of ls h = Some l"
    using Cons.prems(1) map_of_None_keys [of ls h] by auto
  show ?case
  proof (cases "nl_parent l")
    case None
    then have "parent_in ls h = None" using l by (simp add: parent_in_def)
    then show ?thesis using Cons.IH [of ls] Cons.prems l None by simp
  next
    case (Some q)
    then have q: "parent_in ls h = Some q" using l by (simp add: parent_in_def)
    let ?ls = "bt_modify q (\<lambda>p. p\<lparr>nl_children := nl_children p @ [h]\<rparr>) ls"
    have "map_of ls q \<noteq> None" using q Cons.prems(2) map_of_None_keys [of ls q] by auto
    moreover have "set hs \<subseteq> fst ` set ?ls" "\<forall>h q. parent_in ?ls h = Some q \<longrightarrow> q \<in> fst ` set ?ls"
      using Cons.prems by (auto simp: keys_modify parent_in_children)
    then obtain ls' where ls': "add_children hs ?ls = Some ls'" "same_loops ?ls ls'"
        "\<forall>h. map_of ls' h = map_option (\<lambda>l. l\<lparr>nl_children := nl_children l @
            filter (\<lambda>k. parent_in ls k = Some h) hs\<rparr>) (map_of ?ls h)"
      using Cons.IH [of ?ls] by (auto simp: parent_in_children)
    have "same_loops ls ?ls" by (rule same_loops_modify) (simp add: nl_static_def)
    then have "same_loops ls ls'" using ls'(2) same_loops_trans by blast
    moreover have "map_of ls' k = map_option (\<lambda>l. l\<lparr>nl_children := nl_children l @
            filter (\<lambda>x. parent_in ls x = Some k) (h # hs)\<rparr>) (map_of ls k)" for k
      using ls'(3) q by (cases "map_of ls k") (auto simp: bt_simps)
    ultimately show ?thesis using l Some ls'(1) by auto
  qed
qed

section \<open>Depths\<close>

inductive depth_of :: "loops \<Rightarrow> IrBlockId \<Rightarrow> nat \<Rightarrow> bool" for ls :: loops where
  depth_top: "parent_in ls h = None \<Longrightarrow> depth_of ls h 0"
| depth_in: "parent_in ls h = Some q \<Longrightarrow> depth_of ls q n \<Longrightarrow> depth_of ls h (Suc n)"

lemma depth_of_unique: "depth_of ls h n \<Longrightarrow> depth_of ls h m \<Longrightarrow> n = m"
proof (induction arbitrary: m rule: depth_of.induct)
  case (depth_top h)
  from depth_top(2,1) show ?case by cases auto
next
  case (depth_in h q n)
  from depth_in.prems depth_in.hyps(1) obtain k where "m = Suc k" "depth_of ls q k"
    by (cases rule: depth_of.cases) auto
  then show ?case using depth_in.IH by blast
qed

definition nl_shallow :: "NaturalLoop \<Rightarrow> NaturalLoop" where
  "nl_shallow l = l\<lparr>nl_nesting_depth := 0\<rparr>"

text \<open>The parents and children the walk uses: a forest, whose loops get larger towards the root.\<close>

definition forest_ok :: "loops \<Rightarrow> bool" where
  "forest_ok ls \<longleftrightarrow>
     (\<forall>h q. parent_in ls h = Some q \<longrightarrow>
        q \<in> fst ` set ls \<and> length (blocks_in ls h) < length (blocks_in ls q)) \<and>
     (\<forall>h l. map_of ls h = Some l \<longrightarrow>
        set (nl_children l) = {k \<in> fst ` set ls. parent_in ls k = Some h})"

lemma parent_in_key: "parent_in ls h = Some q \<Longrightarrow> h \<in> fst ` set ls"
  by (metis map_of_None_keys option.distinct(1) option.simps(4) parent_in_def)

abbreviation below :: "loops \<Rightarrow> IrBlockId \<Rightarrow> IrBlockId \<Rightarrow> bool" where
  "below ls \<equiv> (\<lambda>h q. parent_in ls h = Some q)\<^sup>*\<^sup>*"

definition depth_right :: "loops \<Rightarrow> loops \<Rightarrow> IrBlockId \<Rightarrow> bool" where
  "depth_right ls0 ls h \<longleftrightarrow> (\<exists>l. map_of ls h = Some l \<and> depth_of ls0 h (nl_nesting_depth l))"

lemma set_depths_step:
  assumes f: "forest_ok ls0" and same: "bt_map nl_shallow ls = bt_map nl_shallow ls0"
    and c: "c \<in> fst ` set ls0" "depth_of ls0 c d"
  obtains l where "map_of ls c = Some l" "set (nl_children l) = {k \<in> fst ` set ls0. parent_in ls0 k = Some c}"
    "bt_map nl_shallow (bt_modify c (\<lambda>l. l\<lparr>nl_nesting_depth := d\<rparr>) ls) = bt_map nl_shallow ls0"
    "depth_right ls0 (bt_modify c (\<lambda>l. l\<lparr>nl_nesting_depth := d\<rparr>) ls) c"
    "\<And>h. depth_right ls0 ls h \<Longrightarrow> depth_right ls0 (bt_modify c (\<lambda>l. l\<lparr>nl_nesting_depth := d\<rparr>) ls) h"
proof -
  obtain l0 where l0: "map_of ls0 c = Some l0" using c(1) map_of_None_keys [of ls0 c] by auto
  have "map_option nl_shallow (map_of ls c) = map_option nl_shallow (map_of ls0 c)"
    using same by (metis map_of_bt_map)
  then obtain l where l: "map_of ls c = Some l" "nl_shallow l = nl_shallow l0"
    using l0 by (cases "map_of ls c") auto
  then have "nl_children l = nl_children l0" by (metis nl_shallow_def NaturalLoop.select_convs(9)
      NaturalLoop.update_convs(7) NaturalLoop.cases)
  then show thesis
    using l0 l f same c
    by (intro that [of l])
       (auto simp: forest_ok_def bt_map_modify nl_shallow_def depth_right_def bt_simps
             dest: depth_of_unique)
qed

lemma set_depths_ok:
  assumes f: "forest_ok ls0"
  shows "bt_map nl_shallow ls = bt_map nl_shallow ls0 \<Longrightarrow>
    \<forall>(c, d) \<in> set calls. c \<in> fst ` set ls0 \<and> depth_of ls0 c d \<Longrightarrow>
    \<forall>h \<in> fst ` set ls0. depth_right ls0 ls h \<or> (\<exists>(c, d) \<in> set calls. below ls0 h c) \<Longrightarrow>
    \<exists>ls'. set_depths calls ls = Some ls' \<and> bt_map nl_shallow ls' = bt_map nl_shallow ls0 \<and>
          (\<forall>h \<in> fst ` set ls0. depth_right ls0 ls' h)"
proof (induction "mset (map (\<lambda>(c, d). length (blocks_in ls0 c)) calls)" arbitrary: calls ls
    rule: wf_induct_rule [OF wf_mult [OF wf_less_than]])
  case 1
  show ?case
  proof (cases calls)
    case Nil
    then show ?thesis using "1.prems" by (subst set_depths.simps) auto
  next
    case (Cons cd rest)
    obtain c d where cd: "cd = (c, d)" by fastforce
    have c: "c \<in> fst ` set ls0" "depth_of ls0 c d" using "1.prems"(2) Cons cd by auto
    obtain l where l: "map_of ls c = Some l"
        "set (nl_children l) = {k \<in> fst ` set ls0. parent_in ls0 k = Some c}"
        "bt_map nl_shallow (bt_modify c (\<lambda>l. l\<lparr>nl_nesting_depth := d\<rparr>) ls) = bt_map nl_shallow ls0"
        "depth_right ls0 (bt_modify c (\<lambda>l. l\<lparr>nl_nesting_depth := d\<rparr>) ls) c"
        "\<And>h. depth_right ls0 ls h \<Longrightarrow> depth_right ls0 (bt_modify c (\<lambda>l. l\<lparr>nl_nesting_depth := d\<rparr>) ls) h"
      using set_depths_step [OF f "1.prems"(1) c] by blast
    let ?ls = "bt_modify c (\<lambda>l. l\<lparr>nl_nesting_depth := d\<rparr>) ls"
    let ?kids = "map (\<lambda>k. (k, d + 1)) (nl_children l)"
    let ?sz = "\<lambda>(c, d). length (blocks_in ls0 c)"
    have "\<forall>s \<in># mset (map ?sz ?kids). \<exists>s' \<in># {#length (blocks_in ls0 c)#}. (s, s') \<in> less_than"
      using l(2) f by (auto simp: forest_ok_def)
    then have "(mset (map ?sz rest) + mset (map ?sz ?kids), mset (map ?sz rest) + {#length (blocks_in ls0 c)#})
        \<in> mult less_than"
      by (intro one_step_implies_mult) auto
    then have smaller: "(mset (map ?sz (?kids @ rest)), mset (map ?sz calls)) \<in> mult less_than"
      using Cons cd by (simp add: union_commute)
    have calls': "\<forall>(k, n) \<in> set (?kids @ rest). k \<in> fst ` set ls0 \<and> depth_of ls0 k n"
      using "1.prems"(2) Cons l(2) c(2) by (auto intro: depth_in)
    have "depth_right ls0 ?ls h \<or> (\<exists>(k, n) \<in> set (?kids @ rest). below ls0 h k)"
      if h: "h \<in> fst ` set ls0" for h
    proof (cases "depth_right ls0 ls h \<or> h = c")
      case True
      then show ?thesis using l(4,5) by blast
    next
      case False
      then obtain k n where k: "(k, n) \<in> set calls" "below ls0 h k" using "1.prems"(3) h by blast
      show ?thesis
      proof (cases "k = c")
        case True
        with k(2) False obtain y where "below ls0 h y" "parent_in ls0 y = Some c"
          by (auto elim: rtranclp.cases)
        then have "(y, d + 1) \<in> set ?kids" using l(2) parent_in_key by fastforce
        then show ?thesis using \<open>below ls0 h y\<close> by auto
      next
        case False
        then show ?thesis using k Cons cd by auto
      qed
    qed
    then have "\<exists>ls'. set_depths (?kids @ rest) ?ls = Some ls' \<and> bt_map nl_shallow ls' = bt_map nl_shallow ls0 \<and>
        (\<forall>h \<in> fst ` set ls0. depth_right ls0 ls' h)"
      using "1.hyps" [OF smaller l(3) calls'] by blast
    then show ?thesis using Cons cd l(1) by (subst set_depths.simps) simp
  qed
qed

text \<open>Every loop is below one without a parent, and has a depth.\<close>

lemma forest_top:
  assumes f: "forest_ok ls"
  shows "h \<in> fst ` set ls \<Longrightarrow> \<exists>c \<in> fst ` set ls. parent_in ls c = None \<and> below ls h c"
proof (induction "Max (insert 0 ((\<lambda>k. length (blocks_in ls k)) ` fst ` set ls)) - length (blocks_in ls h)"
    arbitrary: h rule: less_induct)
  case less
  let ?M = "Max (insert 0 ((\<lambda>k. length (blocks_in ls k)) ` fst ` set ls))"
  show ?case
  proof (cases "parent_in ls h")
    case None
    then show ?thesis using less.prems by blast
  next
    case (Some q)
    then have q: "q \<in> fst ` set ls" "length (blocks_in ls h) < length (blocks_in ls q)"
      using f by (auto simp: forest_ok_def)
    moreover have "length (blocks_in ls q) \<le> ?M" using q(1) by (intro Max_ge) auto
    ultimately have "?M - length (blocks_in ls q) < ?M - length (blocks_in ls h)" by linarith
    then obtain c where "c \<in> fst ` set ls" "parent_in ls c = None" "below ls q c"
      using less.hyps q(1) by blast
    then show ?thesis using Some converse_rtranclp_into_rtranclp [of "\<lambda>h q. parent_in ls h = Some q" h q c]
      by blast
  qed
qed

end
