(* ===== verification/MirLoopInfo.thy ===== *)
theory MirLoopInfo
  imports MirLoopNest
begin

text \<open>
  \<open>LoopNestInfo::analyze\<close> as a whole, on a linked graph and its dominator tree: it returns, and
  what it returns is related to the loops of the graph.
\<close>

section \<open>From blocks to loops\<close>

definition depth_at :: "loops \<Rightarrow> IrBlockId \<Rightarrow> nat" where
  "depth_at ls h = (case map_of ls h of Some l \<Rightarrow> nl_nesting_depth l | None \<Rightarrow> 0)"

text \<open>The deepest loop with the block among the pairs considered.\<close>

definition deepest :: "loops \<Rightarrow> (IrBlockId \<times> IrBlockId) set \<Rightarrow> IrBlockId \<Rightarrow> IrBlockId option \<Rightarrow> bool" where
  "deepest ls D b r \<longleftrightarrow>
     (case r of
        None \<Rightarrow> \<forall>h. (h, b) \<notin> D
      | Some h \<Rightarrow> (h, b) \<in> D \<and> (\<forall>k. (k, b) \<in> D \<longrightarrow> depth_at ls k \<le> depth_at ls h))"

lemma map_loop_block_ok:
  assumes ok: "\<forall>b. deepest ls D b (map_of m b)" and keys: "fst ` (insert (h, b) D) \<subseteq> fst ` set ls"
  shows "\<exists>m'. map_loop_block ls h b m = Some m' \<and> (\<forall>x. deepest ls (insert (h, b) D) x (map_of m' x))"
proof (cases "map_of m b")
  case None
  moreover have "deepest ls D b (map_of m b)" using ok by blast
  ultimately have fresh: "\<forall>k. (k, b) \<notin> D" by (simp add: deepest_def)
  have "deepest ls (insert (h, b) D) x (map_of (bt_insert b h m) x)" for x
  proof (cases "x = b")
    case False
    have "deepest ls D x (map_of m x)" using ok by blast
    then show ?thesis using False by (simp add: bt_simps deepest_def split: option.splits)
  qed (use fresh in \<open>simp add: bt_simps deepest_def\<close>)
  then show ?thesis using None by (simp add: map_loop_block_def)
next
  case (Some k)
  moreover have "deepest ls D b (map_of m b)" using ok by blast
  ultimately have k: "(k, b) \<in> D" "\<forall>x. (x, b) \<in> D \<longrightarrow> depth_at ls x \<le> depth_at ls k"
    by (simp_all add: deepest_def)
  obtain lh lk where l: "map_of ls h = Some lh" "map_of ls k = Some lk"
    using keys k(1) map_of_None_keys [of ls h] map_of_None_keys [of ls k] by force
  let ?m = "if nl_nesting_depth lh > nl_nesting_depth lk then bt_insert b h m else m"
  have d: "depth_at ls h = nl_nesting_depth lh" "depth_at ls k = nl_nesting_depth lk"
    using l by (simp_all add: depth_at_def)
  have "deepest ls (insert (h, b) D) x (map_of ?m x)" for x
  proof (cases "x = b")
    case True
    have "depth_at ls y \<le> nl_nesting_depth lh" if "nl_nesting_depth lh > nl_nesting_depth lk" "(y, b) \<in> D" for y
      using k(2) that d(2) by fastforce
    then show ?thesis using True Some k d by (simp add: deepest_def bt_simps)
  next
    case False
    then have "map_of ?m x = map_of m x" by (simp add: bt_simps)
    moreover have "deepest ls D x (map_of m x)" using ok by blast
    ultimately show ?thesis using False by (simp add: deepest_def split: option.splits)
  qed
  moreover have "map_loop_block ls h b m = Some ?m" using Some l by (simp add: map_loop_block_def)
  ultimately show ?thesis by blast
qed

lemma map_blocks_ok:
  "\<forall>b. deepest ls D b (map_of m b) \<Longrightarrow> fst ` (D \<union> set ps) \<subseteq> fst ` set ls \<Longrightarrow>
   \<exists>m'. map_blocks_to_loops ls ps m = Some m' \<and> (\<forall>b. deepest ls (D \<union> set ps) b (map_of m' b))"
proof (induction ps arbitrary: D m)
  case Nil
  then show ?case by simp
next
  case (Cons p ps)
  obtain h b where p: "p = (h, b)" by fastforce
  obtain m1 where m1: "map_loop_block ls h b m = Some m1"
      "\<forall>x. deepest ls (insert (h, b) D) x (map_of m1 x)"
    using map_loop_block_ok [OF Cons.prems(1), of h b] Cons.prems(2) p by auto
  have "fst ` (insert (h, b) D \<union> set ps) \<subseteq> fst ` set ls" using Cons.prems(2) p by auto
  from Cons.IH [OF m1(2) this] m1(1) show ?case by (simp add: p)
qed

section \<open>What the analysis returns\<close>

definition loops_exact :: "IrControlFlowGraph \<Rightarrow> loops \<Rightarrow> bool" where
  "loops_exact g ls \<longleftrightarrow> bt_wf ls \<and> fst ` set ls = loop_headers g \<and>
     (\<forall>h. set (blocks_in ls h) = loop_blocks_of g h \<and> sorted_wrt (<) (blocks_in ls h)) \<and>
     (\<forall>h \<in> loop_headers g. smallest_around ls (loop_headers g \<times> loop_headers g) h (parent_in ls h))"

definition nest_ok :: "IrControlFlowGraph \<Rightarrow> LoopNestInfo \<Rightarrow> bool" where
  "nest_ok g info \<longleftrightarrow> loops_exact g (lni_loops info) \<and>
     (\<forall>h \<in> loop_headers g. depth_of (lni_loops info) h (depth_at (lni_loops info) h)) \<and>
     (\<forall>b. deepest (lni_loops info) {(h, b). b \<in> loop_blocks_of g h} b
            (map_of (lni_block_to_loop info) b))"

lemma inside_loop_in: "\<forall>h. set (blocks_in ls h) = loop_blocks_of g h \<Longrightarrow> inside ls h k = loop_in g h k"
  by (simp add: inside_def loop_in_def)

lemma blocks_card:
  assumes "set (blocks_in ls h) = loop_blocks_of g h" "sorted_wrt (<) (blocks_in ls h)"
  shows "length (blocks_in ls h) = card (loop_blocks_of g h)" "finite (loop_blocks_of g h)"
proof -
  have "distinct (blocks_in ls h)" using assms(2) strict_sorted_iff by blast
  then show "length (blocks_in ls h) = card (loop_blocks_of g h)"
    using assms(1) distinct_card by metis
  show "finite (loop_blocks_of g h)" using assms(1) by (metis List.finite_set)
qed

lemma not_header_blocks: "h \<notin> loop_headers g \<Longrightarrow> loop_blocks_of g h = {}"
  by (auto simp: loop_headers_def loop_blocks_of_def)

lemma found_blocks:
  assumes g: "bt_wf (cfg_blocks g)" and ok: "found_ok g (set (cfg_edges g)) ls"
  shows "fst ` set ls = loop_headers g"
    "set (blocks_in ls h) = loop_blocks_of g h" "sorted_wrt (<) (blocks_in ls h)"
proof -
  have "h \<in> set (block_succs g p) \<longleftrightarrow> (p, h) \<in> set (cfg_edges g)" for p h
    by (cases "get_block g p") (auto simp: cfg_edges_iff [OF g])
  then have edge: "back_edge g p h \<longleftrightarrow> (p, h) \<in> set (cfg_edges g) \<and> dom_query g h p" for p h
    by (simp add: back_edge_def)
  show keys: "fst ` set ls = loop_headers g"
    using ok map_of_None_keys [of ls] by (auto simp: found_ok_def loop_headers_def edge)
  show "set (blocks_in ls h) = loop_blocks_of g h" "sorted_wrt (<) (blocks_in ls h)"
  proof (induction "map_of ls h")
    case None
    then have "h \<notin> loop_headers g" using keys map_of_None_keys [of ls h] by auto
    then show "set (blocks_in ls h) = loop_blocks_of g h" "sorted_wrt (<) (blocks_in ls h)"
      using None not_header_blocks by (auto simp: blocks_in_def)
  next
    case (Some l)
    then show "set (blocks_in ls h) = loop_blocks_of g h" "sorted_wrt (<) (blocks_in ls h)"
      using ok Some [symmetric] by (auto simp: found_ok_def blocks_in_def loop_blocks_of_def edge)
  qed
qed

lemma forest_from_parents:
  assumes g: "cfg_linked g" and ex: "loops_exact g ls"
    and kids: "\<forall>h l. map_of ls h = Some l \<longrightarrow>
                 set (nl_children l) = {k \<in> fst ` set ls. parent_in ls k = Some h}"
  shows "forest_ok ls"
proof -
  have "q \<in> fst ` set ls \<and> length (blocks_in ls h) < length (blocks_in ls q)"
    if q: "parent_in ls h = Some q" for h q
  proof -
    have h: "h \<in> loop_headers g" using parent_in_key [OF q] ex by (simp add: loops_exact_def)
    then have "smallest_around ls (loop_headers g \<times> loop_headers g) h (Some q)"
      using ex q by (auto simp: loops_exact_def)
    then have qh: "q \<in> loop_headers g" "loop_in g h q"
      using ex inside_loop_in [of ls g] by (auto simp: smallest_around_def loops_exact_def)
    have "loop_blocks_of g h \<subset> loop_blocks_of g q" using loop_in_psubset [OF g qh(2,1)] .
    then show ?thesis
      using ex qh(1) blocks_card [of ls h g] blocks_card [of ls q g] psubset_card_mono
      by (auto simp: loops_exact_def)
  qed
  then show ?thesis using kids by (simp add: forest_ok_def)
qed

lemma smallest_around_cong:
  "(\<And>h. blocks_in ls' h = blocks_in ls h) \<Longrightarrow> smallest_around ls' D h p = smallest_around ls D h p"
  by (simp add: smallest_around_def inside_def split: option.splits)

lemma loops_exact_cong:
  assumes "loops_exact g ls" "map fst ls' = map fst ls" "\<And>h. blocks_in ls' h = blocks_in ls h"
    "\<And>h. parent_in ls' h = parent_in ls h"
  shows "loops_exact g ls'"
proof -
  have "fst ` set ls' = fst ` set ls" "bt_wf ls' = bt_wf ls"
    using assms(2) by (metis list.set_map, simp add: bt_wf_def)
  then show ?thesis
    using assms smallest_around_cong [of ls' ls] by (simp add: loops_exact_def)
qed

lemma depth_of_cong: "(\<And>h. parent_in ls' h = parent_in ls h) \<Longrightarrow> depth_of ls h n \<Longrightarrow> depth_of ls' h n"
proof -
  assume eq: "\<And>h. parent_in ls' h = parent_in ls h"
  show "depth_of ls h n \<Longrightarrow> depth_of ls' h n"
    by (induction rule: depth_of.induct) (auto simp: eq intro: depth_of.intros)
qed

lemma shallow_same:
  assumes "bt_map nl_shallow a = bt_map nl_shallow b"
  shows "map fst a = map fst b" "blocks_in a h = blocks_in b h" "parent_in a h = parent_in b h"
proof -
  show "map fst a = map fst b" using assms by (metis map_fst_bt_map)
  have "map_option nl_shallow (map_of a h) = map_option nl_shallow (map_of b h)"
    using assms by (metis map_of_bt_map)
  then have "(\<exists>x y. map_of a h = Some x \<and> map_of b h = Some y \<and> nl_shallow x = nl_shallow y) \<or>
      map_of a h = None \<and> map_of b h = None"
    by (cases "map_of a h"; cases "map_of b h") auto
  moreover have "nl_blocks (nl_shallow x) = nl_blocks x" "nl_parent (nl_shallow x) = nl_parent x" for x
    by (simp_all add: nl_shallow_def)
  ultimately show "blocks_in a h = blocks_in b h" "parent_in a h = parent_in b h"
    by (auto simp: blocks_in_def parent_in_def) metis+
qed

lemma trip_count_same:
  "blocks_in (bt_map (set_trip_count f) ls) h = blocks_in ls h"
  "parent_in (bt_map (set_trip_count f) ls) h = parent_in ls h"
  "depth_at (bt_map (set_trip_count f) ls) h = depth_at ls h"
  by (auto simp: blocks_in_def parent_in_def depth_at_def bt_simps set_trip_count_def split: option.splits)

lemma nested_exact:
  assumes g: "bt_wf (cfg_blocks g)" and found: "found_ok g (set (cfg_edges g)) found"
    and par: "parents_ok found (set (List.product (map fst found) (map fst found))) ls"
  shows "loops_exact g ls"
proof -
  note blocks = found_blocks [OF g found]
  have same: "same_loops found ls" using par by (simp add: parents_ok_def)
  have eq: "blocks_in ls h = blocks_in found h" for h using same_loops_blocks [OF same] .
  have keys: "fst ` set ls = loop_headers g"
    using same_loops_keys [OF same] blocks(1) by (metis list.set_map)
  have prod: "set (List.product (map fst found) (map fst found)) = loop_headers g \<times> loop_headers g"
    using blocks(1) by simp
  have "bt_wf ls"
    using found same_loops_keys [OF same] by (simp add: found_ok_def bt_wf_def)
  then show ?thesis
    using par keys blocks(2,3) smallest_around_cong [OF eq]
    unfolding loops_exact_def eq parents_ok_def prod by auto
qed

lemma fst_pairs_subset: "(\<And>h b. P h b \<Longrightarrow> h \<in> S) \<Longrightarrow> fst ` ({} \<union> {(h, b). P h b}) \<subseteq> S"
  by auto

lemma in_loop_pairs:
  "(h, b) \<in> set (concat (map (\<lambda>(h, l). map (Pair h) (nl_blocks l)) ls)) \<longleftrightarrow>
     (\<exists>l. (h, l) \<in> set ls \<and> b \<in> set (nl_blocks l))"
  by (induction ls) auto

lemma loop_block_pairs:
  assumes "loops_exact g ls"
  shows "set (concat (map (\<lambda>(h, l). map (Pair h) (nl_blocks l)) ls)) = {(h, b). b \<in> loop_blocks_of g h}"
proof -
  have blocks: "nl_blocks l = blocks_in ls h" if "(h, l) \<in> set ls" for h l
    using that assms by (simp add: blocks_in_def loops_exact_def bt_wf_distinct)
  have entry: "\<exists>l. (h, l) \<in> set ls" if "b \<in> loop_blocks_of g h" for h b
    using that assms not_header_blocks by (fastforce simp: loops_exact_def)
  have "(\<exists>l. (h, l) \<in> set ls \<and> b \<in> set (nl_blocks l)) \<longleftrightarrow> b \<in> loop_blocks_of g h" for h b
  proof
    assume "b \<in> loop_blocks_of g h"
    moreover from this obtain l where "(h, l) \<in> set ls" using entry by blast
    ultimately show "\<exists>l. (h, l) \<in> set ls \<and> b \<in> set (nl_blocks l)"
      using blocks assms by (auto simp: loops_exact_def)
  qed (use blocks assms in \<open>auto simp: loops_exact_def\<close>)
  then show ?thesis by (intro set_eqI) (simp only: in_loop_pairs split_paired_all mem_Collect_eq prod.case)
qed

lemma loop_analyze_ok:
  assumes g: "cfg_linked (fn_cfg f)" "bt_wf (cfg_blocks (fn_cfg f))" and t: "tree_ok (fn_cfg f) t"
  shows "\<exists>info. loop_analyze f t = Some info \<and> nest_ok (fn_cfg f) info"
proof -
  let ?g = "fn_cfg f"
  have "found_ok ?g {} []" by (simp add: found_ok_def bt_wf_def)
  then obtain found where found: "find_loops ?g t (cfg_edges ?g) [] = Some found"
      "found_ok ?g (set (cfg_edges ?g)) found"
    using find_loops_ok [OF t] by fastforce
  have wf: "bt_wf found" using found(2) by (simp add: found_ok_def)
  have "parents_ok found {} found"
    using found(2) by (auto simp: parents_ok_def smallest_around_def parent_in_def found_ok_def
        split: option.splits)
  moreover have "set (List.product (map fst found) (map fst found)) \<subseteq> fst ` set found \<times> fst ` set found"
    by auto
  ultimately obtain nested where nested: "bt_wf nested"
      "set_parents (List.product (map fst found) (map fst found)) found = Some nested"
      "parents_ok found (set (List.product (map fst found) (map fst found))) nested"
    using set_parents_ok [OF _ wf] by fastforce
  have ex: "loops_exact ?g nested" by (rule nested_exact [OF g(2) found(2) nested(3)])
  have keys: "fst ` set nested = loop_headers ?g" "fst ` set found = loop_headers ?g"
    using ex found_blocks(1) [OF g(2) found(2)] by (simp_all add: loops_exact_def)
  have parent_key: "\<forall>h q. parent_in nested h = Some q \<longrightarrow> q \<in> fst ` set nested"
  proof (intro allI impI)
    fix h q assume q: "parent_in nested h = Some q"
    then have "h \<in> loop_headers ?g" using parent_in_key keys(1) by blast
    then have "smallest_around nested (loop_headers ?g \<times> loop_headers ?g) h (Some q)"
      using ex q by (auto simp: loops_exact_def)
    then show "q \<in> fst ` set nested" using keys(1) by (simp add: smallest_around_def)
  qed
  have "set (map fst found) \<subseteq> fst ` set nested" using keys by simp
  from add_children_ok [OF this parent_key] obtain kids where
    kids: "add_children (map fst found) nested = Some kids" "same_loops nested kids"
      "\<And>h. map_of kids h = map_option (\<lambda>l. l\<lparr>nl_children := nl_children l @
            filter (\<lambda>k. parent_in nested k = Some h) (map fst found)\<rparr>) (map_of nested h)"
    by blast
  have kpar: "parent_in kids h = parent_in nested h" for h
    by (auto simp: parent_in_def kids(3) split: option.splits)
  have exk: "loops_exact ?g kids"
    by (rule loops_exact_cong [OF ex same_loops_keys [OF kids(2)] same_loops_blocks [OF kids(2)] kpar])
  then have kkeys: "fst ` set kids = loop_headers ?g" by (simp add: loops_exact_def)
  have "\<forall>h l. map_of kids h = Some l \<longrightarrow>
      set (nl_children l) = {k \<in> fst ` set kids. parent_in kids k = Some h}"
    using nested(3) keys kkeys by (auto simp: kids(3) kpar parents_ok_def)
  then have forest: "forest_ok kids" by (rule forest_from_parents [OF g(1) exk])
  let ?top = "filter (\<lambda>h. case map_of kids h of Some l \<Rightarrow> nl_parent l = None | None \<Rightarrow> False) (map fst found)"
  have top: "set ?top = {h \<in> loop_headers ?g. parent_in kids h = None}"
    using keys(2) kkeys map_of_None_keys [of kids]
    by (auto simp: parent_in_def split: option.splits)
  have "\<forall>(c, d) \<in> set (map (\<lambda>h. (h, 0)) ?top). c \<in> fst ` set kids \<and> depth_of kids c d"
    using top kkeys by (auto intro: depth_top)
  moreover have "\<forall>h \<in> fst ` set kids. depth_right kids kids h \<or>
      (\<exists>(c, d) \<in> set (map (\<lambda>h. (h, 0)) ?top). below kids h c)"
    using forest_top [OF forest] top kkeys by fastforce
  ultimately obtain deep where deep: "set_depths (map (\<lambda>h. (h, 0)) ?top) kids = Some deep"
      "bt_map nl_shallow deep = bt_map nl_shallow kids" "\<forall>h \<in> fst ` set kids. depth_right kids deep h"
    using set_depths_ok [OF forest refl] by blast
  note same = shallow_same [OF deep(2)]
  let ?counted = "bt_map (set_trip_count f) deep"
  have exc: "loops_exact ?g ?counted"
    by (rule loops_exact_cong [OF exk]) (simp_all add: same trip_count_same)
  have depth: "depth_of ?counted h (depth_at ?counted h)" if "h \<in> loop_headers ?g" for h
  proof -
    have "depth_right kids deep h" using deep(3) that kkeys by simp
    then have "depth_of kids h (depth_at deep h)" by (auto simp: depth_right_def depth_at_def)
    then show ?thesis by (intro depth_of_cong [of ?counted kids]) (auto simp: same trip_count_same)
  qed
  let ?pairs = "concat (map (\<lambda>(h, l). map (Pair h) (nl_blocks l)) ?counted)"
  have pairs: "set ?pairs = {(h, b). b \<in> loop_blocks_of ?g h}" by (rule loop_block_pairs [OF exc])
  have "fst ` ({} \<union> set ?pairs) \<subseteq> fst ` set ?counted"
  proof -
    have "h \<in> fst ` set ?counted" if "b \<in> loop_blocks_of ?g h" for h b
      using that exc not_header_blocks [of h ?g] unfolding loops_exact_def by blast
    then show ?thesis unfolding pairs by (rule fst_pairs_subset)
  qed
  moreover have "\<forall>b. deepest ?counted {} b (map_of [] b)" by (simp add: deepest_def)
  ultimately obtain m where m: "map_blocks_to_loops ?counted ?pairs [] = Some m"
      "\<forall>b. deepest ?counted (set ?pairs) b (map_of m b)"
    using map_blocks_ok [of ?counted "{}" "[]" ?pairs] unfolding Un_empty_left by blast
  show ?thesis
    using found(1) nested(2) kids(1) deep(1) m(1) m(2) [unfolded pairs] exc depth
    by (simp add: loop_analyze_def Let_def nest_ok_def)
qed

section \<open>Depth counts the loops around a block\<close>

lemma loops_exact_parent:
  assumes g: "cfg_linked g" and ex: "loops_exact g ls" and h: "h \<in> loop_headers g"
  shows "parent_in ls h = None \<Longrightarrow> \<not> (\<exists>k \<in> loop_headers g. loop_in g h k)"
    "parent_in ls h = Some q \<Longrightarrow> q \<in> loop_headers g \<and> loop_in g h q \<and>
       (\<forall>k \<in> loop_headers g. loop_in g h k \<longrightarrow> card (loop_blocks_of g q) \<le> card (loop_blocks_of g k))"
proof -
  have small: "smallest_around ls (loop_headers g \<times> loop_headers g) h (parent_in ls h)"
    using ex h by (simp add: loops_exact_def)
  have eq: "inside ls x y = loop_in g x y" "length (blocks_in ls x) = card (loop_blocks_of g x)" for x y
    using ex inside_loop_in [of ls g] blocks_card(1) [of ls x g] by (simp_all add: loops_exact_def)
  show "parent_in ls h = None \<Longrightarrow> \<not> (\<exists>k \<in> loop_headers g. loop_in g h k)"
    "parent_in ls h = Some q \<Longrightarrow> q \<in> loop_headers g \<and> loop_in g h q \<and>
       (\<forall>k \<in> loop_headers g. loop_in g h k \<longrightarrow> card (loop_blocks_of g q) \<le> card (loop_blocks_of g k))"
    using small h by (simp_all add: smallest_around_def eq)
qed

lemma around_parent:
  assumes g: "cfg_linked g" and m: "idom_map_ok g m" and ex: "loops_exact g ls"
    and h: "h \<in> loop_headers g" "cfg_reach g (cfg_entry_block g) h" and q: "parent_in ls h = Some q"
  shows "{k \<in> loop_headers g. loop_in g h k} = insert q {k \<in> loop_headers g. loop_in g q k}"
proof -
  note par = loops_exact_parent(2) [OF g ex h(1) q]
  have "loop_in g q k" if k: "k \<in> loop_headers g" "loop_in g h k" "k \<noteq> q" for k
  proof -
    have "h \<in> loop_blocks_of g k" "h \<in> loop_blocks_of g q" using k(2) par by (auto simp: loop_in_def)
    then have "loop_in g k q \<or> loop_in g q k" using loops_nested [OF g m h(2)] k(3) by blast
    moreover have "\<not> loop_in g k q"
    proof
      assume "loop_in g k q"
      then have "loop_blocks_of g k \<subset> loop_blocks_of g q" using loop_in_psubset [OF g] par by blast
      moreover have "finite (loop_blocks_of g q)" using blocks_card(2) [of ls q g] ex by (simp add: loops_exact_def)
      ultimately have "card (loop_blocks_of g k) < card (loop_blocks_of g q)" by (rule psubset_card_mono [rotated])
      then show False using par k by fastforce
    qed
    ultimately show ?thesis by blast
  qed
  then show ?thesis using par loop_in_trans [OF g h(1), of q] by blast
qed

lemma depth_counts:
  assumes g: "cfg_linked g" and m: "idom_map_ok g m" and ex: "loops_exact g ls"
  shows "depth_of ls h n \<Longrightarrow> h \<in> loop_headers g \<Longrightarrow> cfg_reach g (cfg_entry_block g) h \<Longrightarrow>
    n = card {k \<in> loop_headers g. loop_in g h k}"
proof (induction rule: depth_of.induct)
  case (depth_top h)
  then have "{k \<in> loop_headers g. loop_in g h k} = {}" using loops_exact_parent(1) [OF g ex] by blast
  then show ?case by (simp only: card.empty)
next
  case (depth_in h q n)
  note par = loops_exact_parent(2) [OF g ex depth_in.prems(1) depth_in.hyps(1)]
  have "cfg_reach g (cfg_entry_block g) q"
    using loop_dom(2) [OF g _ depth_in.prems(2)] par by (auto simp: loop_in_def)
  then have "n = card {k \<in> loop_headers g. loop_in g q k}" using depth_in.IH par by blast
  moreover have "finite (loop_headers g)" using ex by (metis List.finite_set finite_imageI loops_exact_def)
  moreover have "q \<notin> {k \<in> loop_headers g. loop_in g q k}" by (simp add: loop_in_def)
  ultimately show ?case
    using around_parent [OF g m ex depth_in.prems depth_in.hyps(1)] by simp
qed

lemma finite_loop_headers: "loops_exact g ls \<Longrightarrow> finite (loop_headers g)"
  by (metis List.finite_set finite_imageI loops_exact_def)

lemma loop_depth_counts:
  assumes g: "cfg_linked g" and m: "idom_map_ok g m" and info: "nest_ok g info"
    and b: "cfg_reach g (cfg_entry_block g) b"
  shows "loop_depth info b = card {h. b \<in> loop_blocks_of g h}"
proof -
  let ?ls = "lni_loops info"
  let ?C = "{h. b \<in> loop_blocks_of g h}"
  have ex: "loops_exact g ?ls"
    and depth: "\<And>h. h \<in> loop_headers g \<Longrightarrow> depth_of ?ls h (depth_at ?ls h)"
    and deep: "deepest ?ls {(h, b). b \<in> loop_blocks_of g h} b (map_of (lni_block_to_loop info) b)"
    using info by (auto simp: nest_ok_def)
  have C: "?C \<subseteq> loop_headers g" using not_header_blocks by fastforce
  have reach: "cfg_reach g (cfg_entry_block g) h" if "h \<in> ?C" for h
    using loop_dom(2) [OF g _ b] that by blast
  have count: "depth_at ?ls h = card {k \<in> loop_headers g. loop_in g h k}" if "h \<in> ?C" for h
    using depth_counts [OF g m ex depth] that C reach by blast
  show ?thesis
  proof (cases "map_of (lni_block_to_loop info) b")
    case None
    then have "?C = {}" using deep by (simp add: deepest_def)
    then show ?thesis using None by (simp add: loop_depth_def get_loop_def)
  next
    case (Some h)
    then have h: "h \<in> ?C" "\<And>k. k \<in> ?C \<Longrightarrow> depth_at ?ls k \<le> depth_at ?ls h"
      using deep by (auto simp: deepest_def)
    obtain l where l: "map_of ?ls h = Some l"
      using h(1) C ex map_of_None_keys [of ?ls h] by (auto simp: loops_exact_def)
    have "loop_in g h k" if k: "k \<in> ?C" "k \<noteq> h" for k
    proof -
      have "loop_in g h k \<or> loop_in g k h" using loops_nested [OF g m b] h(1) k by blast
      moreover have "\<not> loop_in g k h"
      proof
        assume kh: "loop_in g k h"
        have "{x \<in> loop_headers g. loop_in g h x} \<subseteq> {x \<in> loop_headers g. loop_in g k x}"
          using loop_in_trans [OF g _ kh] k(1) C by blast
        moreover have "h \<in> {x \<in> loop_headers g. loop_in g k x}" "h \<notin> {x \<in> loop_headers g. loop_in g h x}"
          using kh h(1) C by (auto simp: loop_in_def)
        ultimately have "{x \<in> loop_headers g. loop_in g h x} \<subset> {x \<in> loop_headers g. loop_in g k x}" by blast
        then have "depth_at ?ls h < depth_at ?ls k"
          using count h(1) k(1) finite_loop_headers [OF ex] by (simp add: psubset_card_mono)
        then show False using h(2) [OF k(1)] by simp
      qed
      ultimately show ?thesis by blast
    qed
    moreover have "k \<in> ?C" if "k \<in> loop_headers g" "loop_in g h k" for k
      using loop_in_subset [OF g that(2)] h(1) by blast
    ultimately have "?C = insert h {k \<in> loop_headers g. loop_in g h k}" using h(1) C by blast
    moreover have "h \<notin> {k \<in> loop_headers g. loop_in g h k}" by (simp add: loop_in_def)
    ultimately have "card ?C = Suc (depth_at ?ls h)"
      using count [OF h(1)] finite_loop_headers [OF ex] by simp
    then show ?thesis using Some l by (simp add: loop_depth_def get_loop_def depth_at_def)
  qed
qed

end
