(* ===== verification/LoopProperties.thy ===== *)
theory LoopProperties
  imports MirLoopInfo
begin

text \<open>
  The properties of the dominator tree, the loops and the trip counts, each with a witness on a
  small function whose loop has two back edges.
\<close>

section \<open>Linked graphs\<close>

text \<open>A graph that passes \<open>verify\<close> is linked once its predecessors are recomputed.\<close>

lemma successors_recompute: "bt_wf (cfg_blocks g) \<Longrightarrow> get_block (recompute_predecessors g) p = Some b' \<Longrightarrow>
   \<exists>b. get_block g p = Some b \<and> successors b = successors b'"
proof -
  assume wf: "bt_wf (cfg_blocks g)" and b': "get_block (recompute_predecessors g) p = Some b'"
  have keys: "map fst (cfg_blocks (recompute_predecessors g)) = map fst (cfg_blocks g)"
  proof -
    have "map fst (cfg_blocks (fold (\<lambda>(from, to). connect_blocks from to) es h)) = map fst (cfg_blocks h)"
      for es h by (induction es arbitrary: h) (auto simp: connect_blocks_def)
    then show ?thesis by (simp add: recompute_predecessors_def)
  qed
  have "get_block g p \<noteq> None"
    using b' get_block_dom [of "recompute_predecessors g" p] get_block_dom [of g p]
    by (metis keys list.set_map option.distinct(1))
  then obtain b where b: "get_block g p = Some b" by blast
  with recompute_predecessors_block [OF wf b] b' show ?thesis by (auto simp: successors_def)
qed

lemma cfg_linked_recompute:
  assumes wf: "bt_wf (cfg_blocks g)" and ok: "verify g = Inr ()"
  shows "cfg_linked (recompute_predecessors g)"
proof -
  let ?r = "recompute_predecessors g"
  have g: "wf_cfg g" using ok verify_iff by blast
  have entry: "cfg_entry_block ?r = cfg_entry_block g"
  proof -
    have "cfg_entry_block (fold (\<lambda>(from, to). connect_blocks from to) es h) = cfg_entry_block h" for es h
      by (induction es arbitrary: h) (auto simp: connect_blocks_def)
    then show ?thesis by (simp add: recompute_predecessors_def)
  qed
  have block: "get_block ?r i \<noteq> None" if "get_block g i \<noteq> None" for i
    using that recompute_predecessors_block [OF wf, of i] by auto
  have succs: "block_succs ?r i = block_succs g i" for i
  proof (cases "get_block g i")
    case None
    then have "get_block ?r i = None" using successors_recompute [OF wf, of i] by (cases "get_block ?r i") auto
    then show ?thesis using None by simp
  next
    case (Some b)
    then show ?thesis using recompute_predecessors_block [OF wf Some] by (auto simp: successors_def)
  qed
  have "(\<forall>s \<in> set (successors b'). get_block ?r s \<noteq> None) \<and>
        set (bb_predecessors b') = {p. i \<in> set (block_succs ?r p)}"
    if b': "get_block ?r i = Some b'" for i b'
  proof -
    obtain b where b: "get_block g i = Some b" "successors b = successors b'"
      using successors_recompute [OF wf b'] by blast
    have "(i, b) \<in> set (cfg_blocks g)" using b(1) by (auto simp: get_block_def dest: map_of_SomeD)
    then have "\<forall>s \<in> set (successors b). get_block g s \<noteq> None" using g by (fastforce simp: wf_cfg_def)
    moreover have "set (bb_predecessors b') = {p. \<exists>pb. get_block g p = Some pb \<and> i \<in> set (successors pb)}"
      using recompute_predecessors_block [OF wf b(1)] b' by auto
    moreover have "(\<exists>pb. get_block g p = Some pb \<and> i \<in> set (successors pb)) \<longleftrightarrow> i \<in> set (block_succs g p)" for p
      by (cases "get_block g p") auto
    ultimately show ?thesis using b(2) block succs by auto
  qed
  moreover have "get_block ?r (cfg_entry_block ?r) \<noteq> None"
    using g entry block by (auto simp: wf_cfg_def)
  ultimately show ?thesis by (simp add: cfg_linked_def)
qed

section \<open>An example\<close>

text \<open>Block 1 heads a loop with two back edges, from 3 and from 4; 5 is the exit.\<close>

definition loop_block :: "IrBlockId \<Rightarrow> IrTerminator \<Rightarrow> IrBlockId \<times> IrBasicBlock" where
  "loop_block i t = (i, (new_block i)\<lparr>bb_terminator := t\<rparr>)"

definition two_latches :: IrControlFlowGraph where
  "two_latches =
     \<lparr>cfg_blocks =
        [loop_block 0 (TBranch 1), loop_block 1 (TCondBranch 9 2 5), loop_block 2 (TCondBranch 9 3 4),
         loop_block 3 (TBranch 1), loop_block 4 (TBranch 1), loop_block 5 (TReturn None)],
      cfg_entry_block = 0, cfg_next_block_id = 6\<rparr>"

definition graph_function :: "IrControlFlowGraph \<Rightarrow> IrFunction" where
  "graph_function g =
     \<lparr>fn_id = 0, fn_name = ''f'', fn_qualified_name = None,
      fn_signature = \<lparr>sig_parameters = [], sig_return_type = TyVoid, sig_calling_convention = CcHaxe,
                      sig_can_throw = False, sig_type_params = [], sig_uses_sret = False\<rparr>,
      fn_cfg = recompute_predecessors g, fn_locals = [], fn_register_types = [],
      fn_attributes = default_attributes, fn_kind = FkUserDefined, fn_next_reg_id = 10\<rparr>"

lemma two_latches_verified: "verify two_latches = Inr ()" "bt_wf (cfg_blocks two_latches)"
  by (simp_all add: two_latches_def verify_def verify_block_def get_block_def loop_block_def
        is_terminated_def successors_def new_block_def bt_wf_def)

lemma two_latches_linked: "cfg_linked (fn_cfg (graph_function two_latches))"
  using cfg_linked_recompute two_latches_verified by (simp add: graph_function_def)

lemma two_latches_succs:
  "block_succs (fn_cfg (graph_function two_latches)) 0 = [1]"
  "block_succs (fn_cfg (graph_function two_latches)) 1 = [2, 5]"
  "block_succs (fn_cfg (graph_function two_latches)) 2 = [3, 4]"
  by code_simp+

lemma two_latches_wf: "bt_wf (cfg_blocks (fn_cfg (graph_function two_latches)))"
  by code_simp

lemma two_latches_reach:
  "cfg_entry_block (fn_cfg (graph_function two_latches)) = 0"
  "cfg_reach (fn_cfg (graph_function two_latches)) 0 4"
proof -
  let ?g = "fn_cfg (graph_function two_latches)"
  show "cfg_entry_block ?g = 0" by code_simp
  have "cfg_reach ?g 0 1" by (rule reach_step [OF reach_entry]) (simp add: two_latches_succs)
  then have "cfg_reach ?g 0 2" by (rule reach_step) (simp only: two_latches_succs, simp)
  then show "cfg_reach ?g 0 4" by (rule reach_step) (simp add: two_latches_succs)
qed

definition two_latches_tree :: DominatorTree where
  "two_latches_tree =
     \<lparr>dt_idom = [(1, 0), (2, 1), (3, 2), (4, 2), (5, 1)],
      dt_children = [(0, [1]), (1, [2, 5]), (2, [3, 4])],
      dt_depth = [(0, 0), (1, 1), (2, 2), (3, 3), (4, 3), (5, 2)], dt_entry = 0\<rparr>"

lemma two_latches_compute: "dom_compute (graph_function two_latches) = Some two_latches_tree"
  by code_simp

section \<open>Dominators\<close>

text \<open>
  C6. \<open>DominatorTree::compute\<close> returns on every linked graph, and \<open>dominates(a, b)\<close> on its result
  is right for every block \<open>b\<close> control can reach: true exactly where every path from the entry
  to \<open>b\<close> goes through \<open>a\<close>.
\<close>

theorem dominates_exact:
  assumes "cfg_linked (fn_cfg f)" and "cfg_reach (fn_cfg f) (cfg_entry_block (fn_cfg f)) b"
  shows "\<exists>t. dom_compute f = Some t \<and>
    dominates t a b = Some (\<not> reach_avoiding (fn_cfg f) (cfg_entry_block (fn_cfg f)) a b)"
proof -
  obtain t where "dom_compute f = Some t" "tree_ok (fn_cfg f) t"
    using dom_compute_tree [OF assms(1)] by blast
  then show ?thesis
    using dominates_reachable [OF _ _ assms(2)] by (auto simp: tree_ok_def block_dom_def)
qed

theorem dominates_exact_witness:
  "(\<exists>t. dom_compute (graph_function two_latches) = Some t \<and>
        dominates t 2 4 = Some (\<not> reach_avoiding (fn_cfg (graph_function two_latches)) 0 2 4)) \<and>
   dominates two_latches_tree 2 4 = Some True"
proof
  show "\<exists>t. dom_compute (graph_function two_latches) = Some t \<and>
        dominates t 2 4 = Some (\<not> reach_avoiding (fn_cfg (graph_function two_latches)) 0 2 4)"
    using dominates_exact [OF two_latches_linked, of 4 2] two_latches_reach by simp
  show "dominates two_latches_tree 2 4 = Some True" by code_simp
qed

text \<open>
  C7. The passes over the blocks settle before the iteration bound: the loop runs some number of passes
  that change an entry, at most as many as there are blocks, and is left by the pass after them
  because that one changes nothing. Both come before the bound of twice the number of blocks plus
  ten, so the error of a bound that was reached never occurs.
\<close>

theorem dominator_passes_settle:
  assumes "cfg_linked g"
  shows "\<exists>k idom. k \<le> length (rpo_of g) \<and> Suc k < max_iterations (length (rpo_of g)) \<and>
     changing_passes k (dense g) (initial_idom (length (rpo_of g))) = Some idom \<and>
     dom_pass (dense g) [1..<length idom] (idom, False) = Some (idom, False) \<and>
     dom_loop (max_iterations (length (rpo_of g))) (dense g) (initial_idom (length (rpo_of g))) = Some idom"
proof -
  have n: "length (dense g) = length (rpo_of g)" by simp
  from changing_passes_settle [OF initial_pass_inv [OF dense_rpo_ok [OF assms]]] obtain k idom
    where k: "k \<le> length (rpo_of g)" "changing_passes k (dense g) (initial_idom (length (rpo_of g))) = Some idom"
      "dom_pass (dense g) [1..<length idom] (idom, False) = Some (idom, False)"
    by (auto simp: n)
  moreover from k(1) have "Suc k < max_iterations (length (rpo_of g))" by (simp add: max_iterations_def)
  ultimately show ?thesis using dom_loop_changing [OF k(2,3)] by auto
qed

theorem dominator_passes_settle_witness:
  "\<exists>k idom. k \<le> 6 \<and> Suc k < 22 \<and>
     changing_passes k (dense (fn_cfg (graph_function two_latches))) (initial_idom 6) = Some idom \<and>
     dom_loop 22 (dense (fn_cfg (graph_function two_latches))) (initial_idom 6) = Some idom"
proof -
  have "length (rpo_of (fn_cfg (graph_function two_latches))) = 6" by code_simp
  then show ?thesis using dominator_passes_settle [OF two_latches_linked] by (auto simp: max_iterations_def)
qed

text \<open>
  C8. The tree and its depths: for a reachable block other than the entry there is an immediate
  dominator, a block is a child of its immediate dominator and of no other block, and the
  depth of a reachable block is the number of other blocks that dominate it.
\<close>

theorem dominator_tree_shape:
  assumes "cfg_linked (fn_cfg f)" and "cfg_reach (fn_cfg f) (cfg_entry_block (fn_cfg f)) b"
  shows "\<exists>t. dom_compute f = Some t \<and>
    (dt_get_idom t b = None \<longleftrightarrow> b = cfg_entry_block (fn_cfg f)) \<and>
    (b \<in> set (dt_get_children t d) \<longleftrightarrow> dt_get_idom t b = Some d) \<and>
    dt_get_depth t b =
      card {a. a \<noteq> b \<and> \<not> reach_avoiding (fn_cfg f) (cfg_entry_block (fn_cfg f)) a b}"
proof -
  obtain t where t: "dom_compute f = Some t" "tree_ok (fn_cfg f) t"
    using dom_compute_tree [OF assms(1)] by blast
  have m: "idom_map_ok (fn_cfg f) (dt_idom t)" "dt_children t = children_map (dt_idom t)"
    "dt_get_depth t b = card (strict_doms (fn_cfg f) b)"
    using t(2) assms(2) by (auto simp: tree_ok_def)
  have "dt_get_idom t b = None \<longleftrightarrow> b = cfg_entry_block (fn_cfg f)"
    using m(1) assms(2) unfolding idom_map_ok_def dt_get_idom_def by blast
  moreover have "b \<in> set (dt_get_children t d) \<longleftrightarrow> dt_get_idom t b = Some d"
    using m(1) children_ok(1) [of "dt_idom t" d]
    by (simp add: m(2) dt_get_children_def dt_get_idom_def idom_map_ok_def)
  ultimately show ?thesis using t(1) m(3) by (simp add: strict_doms_def block_dom_def)
qed

theorem dominator_tree_shape_witness:
  "\<exists>t. dom_compute (graph_function two_latches) = Some t \<and> dt_get_idom t 4 \<noteq> None \<and>
     (4 \<in> set (dt_get_children t 2)) = (dt_get_idom t 4 = Some 2) \<and>
     dt_get_depth t 4 =
       card {a. a \<noteq> 4 \<and> \<not> reach_avoiding (fn_cfg (graph_function two_latches)) 0 a 4}"
  using dominator_tree_shape [OF two_latches_linked, of 4 2] two_latches_reach by simp

section \<open>Loops\<close>

text \<open>
  C9. The loops that are found are the natural loops: \<open>analyze\<close> returns; a block is a header
  exactly where an edge leads to it from a block it dominates; the blocks of its loop are the
  header and what leads to the source of such an edge without going through the header; and
  the header dominates those of them that control can reach.
\<close>

theorem natural_loops_found:
  assumes "cfg_linked (fn_cfg f)" and "bt_wf (cfg_blocks (fn_cfg f))"
  shows "\<exists>t info. dom_compute f = Some t \<and> loop_analyze f t = Some info \<and>
    (lni_is_loop_header info h \<longleftrightarrow>
       (\<exists>p. h \<in> set (block_succs (fn_cfg f) p) \<and> dominates t h p = Some True)) \<and>
    (\<forall>l. map_of (lni_loops info) h = Some l \<longrightarrow>
       set (nl_blocks l) =
         {x. \<exists>p. h \<in> set (block_succs (fn_cfg f) p) \<and> dominates t h p = Some True \<and>
                 loop_body (fn_cfg f) h p x} \<and>
       (\<forall>x \<in> set (nl_blocks l). cfg_reach (fn_cfg f) (cfg_entry_block (fn_cfg f)) x \<longrightarrow>
            dominates t h x = Some True))"
proof -
  obtain t where t: "dom_compute f = Some t" "tree_ok (fn_cfg f) t"
    using dom_compute_tree [OF assms(1)] by blast
  obtain info where info: "loop_analyze f t = Some info" "nest_ok (fn_cfg f) info"
    using loop_analyze_ok [OF assms t(2)] by blast
  have ex: "loops_exact (fn_cfg f) (lni_loops info)" using info(2) by (simp add: nest_ok_def)
  have be: "h \<in> set (block_succs (fn_cfg f) p) \<and> dominates t h p = Some True \<longleftrightarrow> back_edge (fn_cfg f) p h"
    "h \<in> set (block_succs (fn_cfg f) p) \<and> dominates t h p = Some True \<and> R \<longleftrightarrow> back_edge (fn_cfg f) p h \<and> R"
    for p h R by (auto simp: back_edge_def dominates_query [OF t(2)])
  have header: "lni_is_loop_header info h \<longleftrightarrow> (\<exists>p. back_edge (fn_cfg f) p h)"
    using ex map_of_None_keys [of "lni_loops info" h]
    by (simp add: lni_is_loop_header_def loops_exact_def loop_headers_def)
  have blocks: "set (nl_blocks l) = loop_blocks_of (fn_cfg f) h"
    if "map_of (lni_loops info) h = Some l" for l
    using ex that unfolding loops_exact_def blocks_in_def by (metis option.simps(5))
  have reach: "dominates t h x = Some True"
    if "x \<in> loop_blocks_of (fn_cfg f) h" "cfg_reach (fn_cfg f) (cfg_entry_block (fn_cfg f)) x" for x
    using loop_dom(1) [OF assms(1) that] that(2) by (simp add: dominates_query [OF t(2)] dom_query_def)
  show ?thesis
    by (intro exI [of _ t] exI [of _ info], unfold be)
       (use t(1) info(1) header blocks reach in \<open>auto simp: loop_blocks_of_def\<close>)
qed

theorem natural_loops_found_witness:
  "(\<exists>t info. dom_compute (graph_function two_latches) = Some t \<and>
      loop_analyze (graph_function two_latches) t = Some info \<and>
      lni_is_loop_header info 1 =
        (\<exists>p. 1 \<in> set (block_succs (fn_cfg (graph_function two_latches)) p) \<and>
             dominates t 1 p = Some True)) \<and>
   map_option (\<lambda>info. map (\<lambda>(h, l). (h, nl_blocks l)) (lni_loops info))
     (loop_analyze (graph_function two_latches) two_latches_tree) = Some [(1, [1, 2, 3, 4])]"
proof
  show "\<exists>t info. dom_compute (graph_function two_latches) = Some t \<and>
      loop_analyze (graph_function two_latches) t = Some info \<and>
      lni_is_loop_header info 1 =
        (\<exists>p. 1 \<in> set (block_succs (fn_cfg (graph_function two_latches)) p) \<and>
             dominates t 1 p = Some True)"
    using natural_loops_found [OF two_latches_linked two_latches_wf, of 1] by blast
  show "map_option (\<lambda>info. map (\<lambda>(h, l). (h, nl_blocks l)) (lni_loops info))
     (loop_analyze (graph_function two_latches) two_latches_tree) = Some [(1, [1, 2, 3, 4])]"
    by code_simp
qed

text \<open>
  C10. The depth of a block that control can reach is the number of loops it is in. The nesting
  that \<open>analyze\<close> computes by comparing sizes, walking children and keeping the deepest loop of
  each block is thus the nesting of the loops.
\<close>

theorem loop_depth_is_count:
  assumes "cfg_linked (fn_cfg f)" and "bt_wf (cfg_blocks (fn_cfg f))"
    and "cfg_reach (fn_cfg f) (cfg_entry_block (fn_cfg f)) b"
  shows "\<exists>t info. dom_compute f = Some t \<and> loop_analyze f t = Some info \<and>
    loop_depth info b = length (filter (\<lambda>(h, l). b \<in> set (nl_blocks l)) (lni_loops info))"
proof -
  obtain t where t: "dom_compute f = Some t" "tree_ok (fn_cfg f) t"
    using dom_compute_tree [OF assms(1)] by blast
  obtain info where info: "loop_analyze f t = Some info" "nest_ok (fn_cfg f) info"
    using loop_analyze_ok [OF assms(1,2) t(2)] by blast
  have ex: "loops_exact (fn_cfg f) (lni_loops info)" using info(2) by (simp add: nest_ok_def)
  let ?in = "filter (\<lambda>(h, l). b \<in> set (nl_blocks l)) (lni_loops info)"
  have "{h. b \<in> loop_blocks_of (fn_cfg f) h} = fst ` set ?in"
    using loop_block_pairs [OF ex] in_loop_pairs [of _ b "lni_loops info"] by force
  moreover have "distinct (map fst ?in)"
    using ex by (intro distinct_map_filter bt_wf_distinct) (simp add: loops_exact_def)
  ultimately have "card {h. b \<in> loop_blocks_of (fn_cfg f) h} = length ?in"
    by (metis distinct_card length_map list.set_map)
  moreover have "idom_map_ok (fn_cfg f) (dt_idom t)" using t(2) by (simp add: tree_ok_def)
  ultimately show ?thesis
    using t(1) info loop_depth_counts [OF assms(1) _ info(2) assms(3)] by auto
qed

theorem loop_depth_is_count_witness:
  "\<exists>t info. dom_compute (graph_function two_latches) = Some t \<and>
     loop_analyze (graph_function two_latches) t = Some info \<and>
     loop_depth info 4 = length (filter (\<lambda>(h, l). 4 \<in> set (nl_blocks l)) (lni_loops info))"
  using loop_depth_is_count [OF two_latches_linked two_latches_wf] two_latches_reach by simp

section \<open>Trip counts\<close>

text \<open>
  C11. A trip count is the number of iterations: where no value leaves the range of an \<open>i64\<close>, a
  counter that starts at \<open>init\<close> and adds \<open>step\<close> passes the comparison with the bound for exactly
  the first \<open>n\<close> of its values.
\<close>

theorem trip_count_is_iterations:
  assumes "no_overflow init bound step" and "compute_trip_count init bound step oper = Some n"
  shows "iterates oper init step bound (unat n)"
  by (rule compute_trip_count_iterates [OF assms])

theorem trip_count_is_iterations_witness:
  "iterates CLt 0 3 10 4 \<and> compute_trip_count 0 10 3 CLt = Some 4"
proof
  show count: "compute_trip_count 0 10 3 CLt = Some 4" by code_simp
  have "no_overflow 0 10 3" by (simp add: no_overflow_def)
  from trip_count_is_iterations [OF this count] show "iterates CLt 0 3 10 4" by simp
qed

section \<open>What goes wrong\<close>

text \<open>
  In a release build the distance from the least \<open>i64\<close> to the greatest wraps to \<open>-1\<close>, and the
  count of a loop that runs 2 to the 63rd times is 0.
\<close>

lemma trip_count_wraps: "compute_trip_count (- (2 ^ 63)) (2 ^ 63 - 1) 2 CLt = Some 0"
  by code_simp

text \<open>
  The preheader is searched with the blocks of the first back edge only, so the source of the
  second counts as outside and the loop has no preheader, although block 0 is one.
\<close>

lemma preheader_lost:
  "map_option (\<lambda>info. map (\<lambda>(h, l). (h, nl_preheader l)) (lni_loops info))
     (loop_analyze (graph_function two_latches) two_latches_tree) = Some [(1, None)] \<and>
   find_preheader (fn_cfg (graph_function two_latches)) 1 [1, 2, 3, 4] = Some 0"
  by code_simp

end
