(* ===== verification/MirNumber.thy ===== *)
theory MirNumber
  imports OptPasses MirDom MirAbi "HOL-Library.Monad_Syntax"
begin

text \<open>
  More passes of \<open>ir/optimization.rs\<close>: common subexpressions within a block, global value numbering
  over the dominator tree, the marking of tail calls, and the removal of the calls that
  record source positions. The source writes the key of a computation as text; here it is a
  datatype with one constructor per form of the text.
\<close>

section \<open>Keys\<close>

datatype ValueKey =
    KeyBin BinaryOp IrId IrId
  | KeyUn UnaryOp IrId
  | KeyCmp CompareOp IrId IrId
  | KeyCast IrId IrType
  | KeyGlobal nat

definition is_commutative :: "BinaryOp \<Rightarrow> bool" where
  "is_commutative op = (op \<in> {BAdd, BMul, BFAdd, BFMul, BAnd, BOr, BXor})"

text \<open>The operands of a commutative operator are put in order.\<close>

definition binop_key :: "BinaryOp \<Rightarrow> IrId \<Rightarrow> IrId \<Rightarrow> ValueKey" where
  "binop_key op l r = (if is_commutative op \<and> l > r then KeyBin op r l else KeyBin op l r)"

fun instruction_key :: "IrInstruction \<Rightarrow> ValueKey option" where
  "instruction_key (IBinOp d op l r) = Some (binop_key op l r)"
| "instruction_key (IUnOp d op x) = Some (KeyUn op x)"
| "instruction_key (ICmp d op l r) = Some (KeyCmp op l r)"
| "instruction_key (ICast d s f t) = Some (KeyCast s t)"
| "instruction_key (ILoadGlobal d g t) = Some (KeyGlobal g)"
| "instruction_key _ = None"

fun gvn_key :: "(IrId \<rightharpoonup> IrId) \<Rightarrow> IrInstruction \<Rightarrow> ValueKey option" where
  "gvn_key \<rho> (IBinOp d op l r) = Some (binop_key op (rep \<rho> l) (rep \<rho> r))"
| "gvn_key \<rho> (IUnOp d op x) = Some (KeyUn op (rep \<rho> x))"
| "gvn_key \<rho> (ICmp d op l r) = Some (KeyCmp op (rep \<rho> l) (rep \<rho> r))"
| "gvn_key \<rho> (ICast d s f t) = Some (KeyCast (rep \<rho> s) t)"
| "gvn_key \<rho> _ = None"

section \<open>Common subexpressions of a block\<close>

type_synonym available = "ValueKey \<rightharpoonup> IrId"

fun is_global_key :: "ValueKey \<Rightarrow> bool" where
  "is_global_key (KeyGlobal g) = True"
| "is_global_key _ = False"

text \<open>What an instruction may overwrite is no longer available.\<close>

fun cse_clobber :: "IrInstruction \<Rightarrow> available \<Rightarrow> available" where
  "cse_clobber (IStoreGlobal g v) av = av(KeyGlobal g := None)"
| "cse_clobber (ICallDirect d f args own ta tc) av = (\<lambda>k. if is_global_key k then None else av k)"
| "cse_clobber (ICallIndirect d f args sg own tc) av = (\<lambda>k. if is_global_key k then None else av k)"
| "cse_clobber i av = av"

text \<open>Looking a key up: either the register that holds it, or the instruction's own from now on.\<close>

definition number_inst ::
  "ValueKey option \<Rightarrow> IrInstruction \<Rightarrow> available \<times> (IrId \<times> IrId) list \<Rightarrow> available \<times> (IrId \<times> IrId) list" where
  "number_inst key i s =
     (case s of (av, repl) \<Rightarrow>
        (case (key, dest i) of
           (Some k, Some d) \<Rightarrow>
             (case av k of Some existing \<Rightarrow> (av, bt_insert d existing repl) | None \<Rightarrow> (av(k \<mapsto> d), repl))
         | _ \<Rightarrow> (av, repl)))"

definition cse_inst ::
  "IrInstruction \<Rightarrow> available \<times> (IrId \<times> IrId) list \<Rightarrow> available \<times> (IrId \<times> IrId) list" where
  "cse_inst i s = (case s of (av, repl) \<Rightarrow> number_inst (instruction_key i) i (cse_clobber i av, repl))"

definition cse_replacements :: "IrBasicBlock \<Rightarrow> (IrId \<times> IrId) list" where
  "cse_replacements b = snd (fold cse_inst (bb_instructions b) (Map.empty, []))"

definition cse_block :: "IrBasicBlock \<Rightarrow> IrBasicBlock" where
  "cse_block b =
     (let repl = cse_replacements b
      in if repl = [] then b
         else b\<lparr>bb_instructions := map (replace_uses (map_of repl)) (bb_instructions b),
                bb_terminator := replace_terminator_uses (map_of repl) (bb_terminator b)\<rparr>)"

definition cse_function :: "IrFunction \<Rightarrow> IrFunction \<times> bool" where
  "cse_function f = (map_blocks cse_block f, \<exists>b \<in> set (fn_blocks f). cse_replacements b \<noteq> [])"

section \<open>Global value numbering\<close>

fun is_throw :: "IrInstruction \<Rightarrow> bool" where
  "is_throw (IThrow v) = True"
| "is_throw _ = False"

definition block_raises :: "IrBasicBlock \<Rightarrow> bool" where
  "block_raises b \<longleftrightarrow>
     list_ex is_throw (bb_instructions b) \<or> (case bb_terminator b of TNoReturn c \<Rightarrow> True | _ \<Rightarrow> False)"

definition gvn_inst ::
  "IrInstruction \<Rightarrow> available \<times> (IrId \<times> IrId) list \<Rightarrow> available \<times> (IrId \<times> IrId) list" where
  "gvn_inst i s = (case s of (values, repl) \<Rightarrow> number_inst (gvn_key (map_of repl) i) i (values, repl))"

definition gvn_block ::
  "IrFunction \<Rightarrow> IrBlockId \<Rightarrow> available \<times> (IrId \<times> IrId) list \<Rightarrow> available \<times> (IrId \<times> IrId) list" where
  "gvn_block f b s =
     (case get_block (fn_cfg f) b of Some blk \<Rightarrow> fold gvn_inst (bb_instructions blk) s | None \<Rightarrow> s)"

text \<open>
  The walk down the dominator tree. The stack has its top at the head; every child starts with
  the values of its parent, the replacements are those of the whole function.
\<close>

partial_function (option) gvn_walk ::
  "IrFunction \<Rightarrow> DominatorTree \<Rightarrow> (IrBlockId \<times> available) list \<Rightarrow> (IrId \<times> IrId) list \<Rightarrow>
   (IrId \<times> IrId) list option" where
  "gvn_walk f t stack repl =
     (case stack of
        [] \<Rightarrow> Some repl
      | (b, values) # rest \<Rightarrow>
          (case gvn_block f b (values, repl) of
             (values', repl') \<Rightarrow>
               gvn_walk f t (rev (map (\<lambda>c. (c, values')) (dt_get_children t b)) @ rest) repl'))"

declare gvn_walk.simps [code]

definition replace_phi_uses :: "(IrId \<rightharpoonup> IrId) \<Rightarrow> IrPhiNode \<Rightarrow> IrPhiNode" where
  "replace_phi_uses \<rho> p = p\<lparr>phi_incoming := map (\<lambda>(b, v). (b, rep \<rho> v)) (phi_incoming p)\<rparr>"

definition gvn_rewrite :: "(IrId \<rightharpoonup> IrId) \<Rightarrow> IrBasicBlock \<Rightarrow> IrBasicBlock" where
  "gvn_rewrite \<rho> b =
     b\<lparr>bb_phi_nodes := map (replace_phi_uses \<rho>) (bb_phi_nodes b),
       bb_instructions := map (replace_uses \<rho>) (bb_instructions b),
       bb_terminator := replace_terminator_uses \<rho> (bb_terminator b)\<rparr>"

definition gvn_replacements :: "IrFunction \<Rightarrow> (IrId \<times> IrId) list option" where
  "gvn_replacements f = do {
     t \<leftarrow> dom_compute f;
     gvn_walk f t [(entry_block f, Map.empty)] [] }"

definition gvn_function :: "IrFunction \<Rightarrow> (IrFunction \<times> bool) option" where
  "gvn_function f =
     (if list_ex block_raises (fn_blocks f) \<or> cfg_blocks (fn_cfg f) = [] then Some (f, False)
      else do {
        repl \<leftarrow> gvn_replacements f;
        Some (if repl = [] then f else map_blocks (gvn_rewrite (map_of repl)) f, repl \<noteq> []) })"

section \<open>Tail calls\<close>

definition call_dest :: "IrInstruction \<Rightarrow> IrId option option" where
  "call_dest i =
     (case i of
        ICallDirect d f args own ta tc \<Rightarrow> Some d
      | ICallIndirect d f args sg own tc \<Rightarrow> Some d
      | _ \<Rightarrow> None)"

text \<open>\<open>is_tail_call\<close>: the call is the last instruction, and its result is what is returned.\<close>

definition is_tail_call :: "IrBasicBlock \<Rightarrow> nat \<Rightarrow> bool" where
  "is_tail_call b idx \<longleftrightarrow>
     idx + 1 = length (bb_instructions b) \<and>
     (case bb_terminator b of
        TReturn (Some r) \<Rightarrow> call_dest (bb_instructions b ! idx) = Some (Some r)
      | TReturn None \<Rightarrow> call_dest (bb_instructions b ! idx) = Some None
      | _ \<Rightarrow> False)"

definition set_tail_call :: "IrInstruction \<Rightarrow> IrInstruction" where
  "set_tail_call i =
     (case i of
        ICallDirect d f args own ta tc \<Rightarrow> ICallDirect d f args own ta True
      | ICallIndirect d f args sg own tc \<Rightarrow> ICallIndirect d f args sg own True
      | _ \<Rightarrow> i)"

definition mark_tail_calls :: "IrBasicBlock \<Rightarrow> IrBasicBlock" where
  "mark_tail_calls b =
     (let is = bb_instructions b;
          marked = filter (\<lambda>i. call_dest (is ! i) \<noteq> None \<and> is_tail_call b i) [0..<length is]
      in b\<lparr>bb_instructions := fold (\<lambda>i js. js[i := set_tail_call (js ! i)]) marked is\<rparr>)"

definition tail_call_optimization :: "IrFunction \<Rightarrow> IrFunction" where
  "tail_call_optimization f = map_blocks mark_tail_calls f"

section \<open>Source positions\<close>

text \<open>
  \<open>strip_stack_trace_updates\<close>: the calls of the functions with the name go, from every block, and the
  functions with it.
\<close>

definition UPDATE_FN :: string where "UPDATE_FN = ''rayzor_update_call_frame_location''"

definition update_fn_ids :: "IrModule \<Rightarrow> IrFunctionId set" where
  "update_fn_ids md =
     set (map ext_id (filter (\<lambda>e. ext_name e = UPDATE_FN) (map snd (mod_externs md)))) \<union>
     set (map fn_id (filter (\<lambda>f. fn_name f = UPDATE_FN) (map snd (mod_functions md))))"

definition is_update_call :: "IrFunctionId set \<Rightarrow> IrInstruction \<Rightarrow> bool" where
  "is_update_call ids i = (case i of ICallDirect d f args own ta tc \<Rightarrow> f \<in> ids | _ \<Rightarrow> False)"

definition strip_block :: "IrFunctionId set \<Rightarrow> IrBasicBlock \<Rightarrow> IrBasicBlock" where
  "strip_block ids b =
     b\<lparr>bb_instructions := filter (\<lambda>i. \<not> is_update_call ids i) (bb_instructions b)\<rparr>"

definition strip_stack_trace_updates :: "IrModule \<Rightarrow> IrModule \<times> bool" where
  "strip_stack_trace_updates md =
     (let ids = update_fn_ids md;
          fs = bt_map (map_blocks (strip_block ids)) (mod_functions md);
          externs = filter (\<lambda>(_, e). ext_name e \<noteq> UPDATE_FN) (mod_externs md);
          kept = filter (\<lambda>(_, f). fn_name f \<noteq> UPDATE_FN) fs;
          md' = md\<lparr>mod_functions := kept, mod_externs := externs\<rparr>
      in if ids = {} then (md, False)
         else (md', fs \<noteq> mod_functions md \<or> length externs \<noteq> length (mod_externs md) \<or>
                    length kept \<noteq> length fs))"

end
