(* ===== verification/MirNumberOk.thy ===== *)
theory MirNumberOk
  imports MirNumber MirDomTree
begin

text \<open>
  What the replacements of common subexpressions and of global value numbering rest on: the register
  that stands in holds the same computation, made on every path to the one it stands in for.
\<close>

section \<open>Within a block\<close>

text \<open>\<open>overwrites g i\<close>: after \<open>i\<close> the global \<open>g\<close> may hold another value.\<close>

definition overwrites :: "nat \<Rightarrow> IrInstruction \<Rightarrow> bool" where
  "overwrites g i =
     (case i of
        IStoreGlobal g' v \<Rightarrow> g' = g
      | ICallDirect d f args own ta tc \<Rightarrow> True
      | ICallIndirect d f args sg own tc \<Rightarrow> True
      | _ \<Rightarrow> False)"

definition available_at :: "IrInstruction list \<Rightarrow> nat \<Rightarrow> ValueKey \<Rightarrow> IrId \<Rightarrow> bool" where
  "available_at is n k e \<longleftrightarrow>
     (\<exists>j < n. dest (is ! j) = Some e \<and> instruction_key (is ! j) = Some k \<and>
        (\<forall>g m. k = KeyGlobal g \<longrightarrow> j < m \<longrightarrow> m < n \<longrightarrow> \<not> overwrites g (is ! m)))"

definition reuses :: "IrInstruction list \<Rightarrow> nat \<Rightarrow> IrId \<times> IrId \<Rightarrow> bool" where
  "reuses is n de \<longleftrightarrow>
     (\<exists>m < n. \<exists>k. dest (is ! m) = Some (fst de) \<and> instruction_key (is ! m) = Some k \<and> available_at is m k (snd de))"

lemma cse_clobber_some:
  "cse_clobber i av k = Some e \<Longrightarrow> av k = Some e \<and> (\<forall>g. k = KeyGlobal g \<longrightarrow> \<not> overwrites g i)"
  by (cases "(i, av)" rule: cse_clobber.cases) (auto simp: overwrites_def split: if_splits)

lemma available_later:
  "available_at is n k e \<Longrightarrow> (\<And>g. k = KeyGlobal g \<Longrightarrow> \<not> overwrites g (is ! n)) \<Longrightarrow> available_at is (Suc n) k e"
  unfolding available_at_def by (metis less_SucE less_SucI)

lemma key_not_overwriting: "instruction_key i = Some k \<Longrightarrow> \<not> overwrites g i"
  by (cases i rule: instruction_key.cases) (auto simp: overwrites_def)

lemma cse_inst_ok:
  assumes "cse_inst (is ! n) (av, repl) = (av', repl')"
    and "\<forall>k e. av k = Some e \<longrightarrow> available_at is n k e" "\<forall>de \<in> set repl. reuses is n de"
  shows "(\<forall>k e. av' k = Some e \<longrightarrow> available_at is (Suc n) k e) \<and> (\<forall>de \<in> set repl'. reuses is (Suc n) de)"
proof -
  let ?i = "is ! n"
  have later: "available_at is (Suc n) k e" if "cse_clobber ?i av k = Some e" for k e
    using cse_clobber_some [OF that] assms(2) available_later by blast
  have keep: "\<forall>de \<in> set repl. reuses is (Suc n) de"
    using assms(3) less_SucI unfolding reuses_def by blast
  show ?thesis
  proof (cases "\<exists>k d. instruction_key ?i = Some k \<and> dest ?i = Some d")
    case False
    then have "av' = cse_clobber ?i av" "repl' = repl"
      using assms(1) by (auto simp: cse_inst_def number_inst_def split: option.splits)
    then show ?thesis using later keep by blast
  next
    case True
    then obtain k d where k: "instruction_key ?i = Some k" "dest ?i = Some d" by blast
    show ?thesis
    proof (cases "cse_clobber ?i av k")
      case None
      then have "av' = (cse_clobber ?i av)(k \<mapsto> d)" "repl' = repl"
        using assms(1) k by (simp_all add: cse_inst_def number_inst_def)
      moreover have "available_at is (Suc n) k d"
        unfolding available_at_def using k by (intro exI [of _ n]) auto
      ultimately show ?thesis using later keep by auto
    next
      case (Some e)
      then have eq: "av' = cse_clobber ?i av" "repl' = bt_insert d e repl"
        using assms(1) k by (simp_all add: cse_inst_def number_inst_def)
      have "available_at is n k e" using cse_clobber_some [OF Some] assms(2) by blast
      then have "reuses is (Suc n) (d, e)"
        unfolding reuses_def using k by (intro exI [of _ n]) auto
      moreover have "set repl' \<subseteq> insert (d, e) (set repl)" unfolding eq by (rule set_bt_insert_subset)
      ultimately show ?thesis using later keep eq by blast
    qed
  qed
qed

lemma cse_fold_ok:
  assumes "fold cse_inst (take n is) (Map.empty, []) = (av, repl)" "n \<le> length is"
  shows "(\<forall>k e. av k = Some e \<longrightarrow> available_at is n k e) \<and> (\<forall>de \<in> set repl. reuses is n de)"
  using assms
proof (induction n arbitrary: av repl)
  case 0
  then show ?case by auto
next
  case (Suc n)
  obtain av0 repl0 where s: "fold cse_inst (take n is) (Map.empty, []) = (av0, repl0)" by fastforce
  then have "cse_inst (is ! n) (av0, repl0) = (av, repl)"
    using Suc.prems by (simp add: take_Suc_conv_app_nth)
  then show ?case by (rule cse_inst_ok) (use Suc.IH [OF s] Suc.prems in auto)
qed

lemma cse_reuses:
  assumes "(d, e) \<in> set (cse_replacements b)"
  shows "reuses (bb_instructions b) (length (bb_instructions b)) (d, e)"
proof -
  obtain av repl where s: "fold cse_inst (bb_instructions b) (Map.empty, []) = (av, repl)" by fastforce
  then have "fold cse_inst (take (length (bb_instructions b)) (bb_instructions b)) (Map.empty, []) = (av, repl)"
    by simp
  from cse_fold_ok [OF this] s assms show ?thesis by (simp add: cse_replacements_def)
qed

section \<open>Over the dominator tree\<close>

text \<open>\<open>inst_at f b j i\<close>: \<open>i\<close> is instruction \<open>j\<close> of block \<open>b\<close>; \<open>before\<close>: one place is on every path to another.\<close>

definition inst_at :: "IrFunction \<Rightarrow> IrBlockId \<Rightarrow> nat \<Rightarrow> IrInstruction \<Rightarrow> bool" where
  "inst_at f b j i \<longleftrightarrow>
     (\<exists>blk. get_block (fn_cfg f) b = Some blk \<and> j < length (bb_instructions blk) \<and> bb_instructions blk ! j = i)"

definition before :: "IrFunction \<Rightarrow> IrBlockId \<Rightarrow> nat \<Rightarrow> IrBlockId \<Rightarrow> nat \<Rightarrow> bool" where
  "before f p j q k \<longleftrightarrow> p = q \<and> j < k \<or> p \<noteq> q \<and> block_dom (fn_cfg f) p q"

text \<open>
  Single assignment: one instruction at most defines a register, and what a computation in a
  block control can reach reads is defined before it, where an instruction defines it.
\<close>

definition single_assignment :: "IrFunction \<Rightarrow> bool" where
  "single_assignment f \<longleftrightarrow>
     (\<forall>b j i b' j' i' d. inst_at f b j i \<longrightarrow> inst_at f b' j' i' \<longrightarrow> dest i = Some d \<longrightarrow> dest i' = Some d \<longrightarrow>
        b = b' \<and> j = j') \<and>
     (\<forall>q k i u p j i'. cfg_reach (fn_cfg f) (cfg_entry_block (fn_cfg f)) q \<longrightarrow> inst_at f q k i \<longrightarrow>
        u \<in> set (uses i) \<longrightarrow> inst_at f p j i' \<longrightarrow> dest i' = Some u \<longrightarrow> before f p j q k)"

type_synonym sites = "(IrBlockId \<times> nat) set"

text \<open>The sites visited so far: with a site, all before it.\<close>

definition sites_ok :: "IrFunction \<Rightarrow> sites \<Rightarrow> bool" where
  "sites_ok f S \<longleftrightarrow>
     (\<forall>(q, k) \<in> S. cfg_reach (fn_cfg f) (cfg_entry_block (fn_cfg f)) q) \<and>
     (\<forall>q k p j i. (q, k) \<in> S \<longrightarrow> before f p j q k \<longrightarrow> inst_at f p j i \<longrightarrow> (p, j) \<in> S)"

definition numbered :: "IrFunction \<Rightarrow> (IrId \<rightharpoonup> IrId) \<Rightarrow> sites \<Rightarrow> IrBlockId \<Rightarrow> nat \<Rightarrow> ValueKey \<Rightarrow> IrId \<Rightarrow> bool" where
  "numbered f \<rho> S b n k e \<longleftrightarrow>
     \<rho> e = None \<and>
     (\<exists>p j i. inst_at f p j i \<and> dest i = Some e \<and> gvn_key \<rho> i = Some k \<and> (p, j) \<in> S \<and> before f p j b n)"

definition values_ok :: "IrFunction \<Rightarrow> (IrId \<rightharpoonup> IrId) \<Rightarrow> sites \<Rightarrow> IrBlockId \<Rightarrow> nat \<Rightarrow> available \<Rightarrow> bool" where
  "values_ok f \<rho> S b n av \<longleftrightarrow> (\<forall>k e. av k = Some e \<longrightarrow> numbered f \<rho> S b n k e)"

definition replaced_ok :: "IrFunction \<Rightarrow> (IrId \<rightharpoonup> IrId) \<Rightarrow> sites \<Rightarrow> bool" where
  "replaced_ok f \<rho> S \<longleftrightarrow>
     (\<forall>d e. \<rho> d = Some e \<longrightarrow>
        (\<exists>q k i key. inst_at f q k i \<and> dest i = Some d \<and> (q, k) \<in> S \<and> gvn_key \<rho> i = Some key \<and>
           numbered f \<rho> S q k key e))"

lemma gvn_key_uses: "(\<And>u. u \<in> set (uses i) \<Longrightarrow> \<rho> u = \<sigma> u) \<Longrightarrow> gvn_key \<rho> i = gvn_key \<sigma> i"
  by (cases i rule: instruction_key.cases) (auto simp: rep_def)

text \<open>A replacement of a register not visited before changes no key of a visited computation.\<close>

lemma key_stable:
  assumes "single_assignment f" "sites_ok f S"
    and site: "inst_at f p j i" "(p, j) \<in> S"
    and new: "inst_at f b n i0" "dest i0 = Some d" "(b, n) \<notin> S"
  shows "gvn_key (\<rho>(d \<mapsto> e)) i = gvn_key \<rho> i"
proof (rule gvn_key_uses)
  fix u assume u: "u \<in> set (uses i)"
  have "u \<noteq> d"
  proof
    assume "u = d"
    have "cfg_reach (fn_cfg f) (cfg_entry_block (fn_cfg f)) p" using assms(2) site(2) by (auto simp: sites_ok_def)
    then have "before f b n p j"
      using assms(1) site(1) u new(1,2) \<open>u = d\<close> unfolding single_assignment_def by blast
    then show False using assms(2) site(2) new(1,3) unfolding sites_ok_def by blast
  qed
  then show "(\<rho>(d \<mapsto> e)) u = \<rho> u" by simp
qed

lemma own_key_stable:
  assumes "single_assignment f" "cfg_reach (fn_cfg f) (cfg_entry_block (fn_cfg f)) b"
    and "inst_at f b n i" "dest i = Some d"
  shows "gvn_key (\<rho>(d \<mapsto> e)) i = gvn_key \<rho> i"
proof (rule gvn_key_uses)
  fix u assume u: "u \<in> set (uses i)"
  have "u \<noteq> d"
  proof
    assume "u = d"
    then have "before f b n b n" using assms u unfolding single_assignment_def by blast
    then show False by (simp add: before_def)
  qed
  then show "(\<rho>(d \<mapsto> e)) u = \<rho> u" by simp
qed

lemma numbered_mono: "numbered f \<rho> S b n k e \<Longrightarrow> S \<subseteq> T \<Longrightarrow> numbered f \<rho> T b n k e"
  unfolding numbered_def by blast

lemma numbered_stable:
  assumes "single_assignment f" "sites_ok f S"
    and "numbered f \<rho> S b' n' k e" "inst_at f b n i0" "dest i0 = Some d" "(b, n) \<notin> S"
  shows "numbered f (\<rho>(d \<mapsto> x)) S b' n' k e"
proof -
  obtain p j i where s: "inst_at f p j i" "dest i = Some e" "gvn_key \<rho> i = Some k" "(p, j) \<in> S"
      "before f p j b' n'" "\<rho> e = None"
    using assms(3) unfolding numbered_def by blast
  have "e \<noteq> d" using s(1,2,4) assms(1,4-6) unfolding single_assignment_def by blast
  moreover have "gvn_key (\<rho>(d \<mapsto> x)) i = Some k" using key_stable [OF assms(1,2) s(1,4) assms(4-6)] s(3) by simp
  ultimately show ?thesis unfolding numbered_def using s by auto
qed

lemma replaced_stable:
  assumes "single_assignment f" "sites_ok f S"
    and "replaced_ok f \<rho> S" "\<rho> d' = Some e'" "inst_at f b n i0" "dest i0 = Some d" "(b, n) \<notin> S"
  shows "\<exists>q k i key. inst_at f q k i \<and> dest i = Some d' \<and> (q, k) \<in> S \<and> gvn_key (\<rho>(d \<mapsto> x)) i = Some key \<and>
     numbered f (\<rho>(d \<mapsto> x)) S q k key e'"
proof -
  obtain q k i key where s: "inst_at f q k i" "dest i = Some d'" "(q, k) \<in> S" "gvn_key \<rho> i = Some key"
      "numbered f \<rho> S q k key e'"
    using assms(3,4) unfolding replaced_ok_def by blast
  have "gvn_key (\<rho>(d \<mapsto> x)) i = Some key" using key_stable [OF assms(1,2) s(1,3) assms(5-7)] s(4) by simp
  then show ?thesis using s numbered_stable [OF assms(1,2) s(5) assms(5-7)] by blast
qed

lemma replaced_site: "replaced_ok f \<rho> S \<Longrightarrow> \<rho> d \<noteq> None \<Longrightarrow> \<exists>q k i. inst_at f q k i \<and> dest i = Some d \<and> (q, k) \<in> S"
  unfolding replaced_ok_def by blast

lemma replaced_mono: "replaced_ok f \<rho> S \<Longrightarrow> S \<subseteq> T \<Longrightarrow> replaced_ok f \<rho> T"
  unfolding replaced_ok_def using numbered_mono [of f \<rho> S _ _ _ _ T] by (meson subsetD)

lemma values_mono: "values_ok f \<rho> S b n av \<Longrightarrow> S \<subseteq> T \<Longrightarrow> values_ok f \<rho> T b n av"
  unfolding values_ok_def using numbered_mono by blast

lemma before_Suc: "before f p j b n \<Longrightarrow> before f p j b (Suc n)"
  by (auto simp: before_def)

lemma numbered_Suc: "numbered f \<rho> S b n k e \<Longrightarrow> numbered f \<rho> S b (Suc n) k e"
  unfolding numbered_def using before_Suc by blast

lemma gvn_inst_ok:
  assumes ssa: "single_assignment f" and S: "sites_ok f S"
    and site: "cfg_reach (fn_cfg f) (cfg_entry_block (fn_cfg f)) b" "inst_at f b n i" "(b, n) \<notin> S"
    and vals: "values_ok f (map_of repl) S b n av" and repl: "replaced_ok f (map_of repl) S"
    and step: "gvn_inst i (av, repl) = (av', repl')"
  shows "values_ok f (map_of repl') (insert (b, n) S) b (Suc n) av'"
    and "replaced_ok f (map_of repl') (insert (b, n) S)"
    and "\<And>b' m av2. values_ok f (map_of repl) S b' m av2 \<Longrightarrow> values_ok f (map_of repl') (insert (b, n) S) b' m av2"
proof -
  let ?\<rho> = "map_of repl" and ?T = "insert (b, n) S"
  have ST: "S \<subseteq> ?T" by blast
  have vals': "values_ok f ?\<rho> ?T b (Suc n) av"
    using values_mono [OF vals ST] numbered_Suc unfolding values_ok_def by blast
  have "values_ok f (map_of repl') ?T b (Suc n) av' \<and> replaced_ok f (map_of repl') ?T \<and>
      (\<forall>b' m av2. values_ok f ?\<rho> S b' m av2 \<longrightarrow> values_ok f (map_of repl') ?T b' m av2)"
  proof (cases "\<exists>k d. gvn_key ?\<rho> i = Some k \<and> dest i = Some d")
    case False
    then have "av' = av" "repl' = repl"
      using step by (auto simp: gvn_inst_def number_inst_def split: option.splits)
    then show ?thesis using vals' replaced_mono [OF repl ST] values_mono [OF _ ST] by blast
  next
    case True
    then obtain k d where k: "gvn_key ?\<rho> i = Some k" "dest i = Some d" by blast
    show ?thesis
    proof (cases "av k")
      case None
      then have eq: "av' = av(k \<mapsto> d)" "repl' = repl"
        using step k by (simp_all add: gvn_inst_def number_inst_def)
      have "?\<rho> d = None"
        using replaced_site [OF repl, of d] ssa site(2,3) k(2) unfolding single_assignment_def by blast
      then have "numbered f ?\<rho> ?T b (Suc n) k d"
        unfolding numbered_def using site(2) k by (auto simp: before_def)
      then have "values_ok f ?\<rho> ?T b (Suc n) av'" using vals' by (auto simp: eq values_ok_def)
      then show ?thesis using eq(2) replaced_mono [OF repl ST] values_mono [OF _ ST] by blast
    next
      case (Some e)
      then have eq: "av' = av" "map_of repl' = ?\<rho>(d \<mapsto> e)"
        using step k Some by (auto simp: gvn_inst_def number_inst_def bt_simps)
      have num: "numbered f (?\<rho>(d \<mapsto> e)) ?T b' m k' e'" if "numbered f ?\<rho> S b' m k' e'" for b' m k' e'
        using numbered_mono [OF numbered_stable [OF ssa S that site(2) k(2) site(3)] ST] .
      have own: "gvn_key (?\<rho>(d \<mapsto> e)) i = Some k" using own_key_stable [OF ssa site(1,2) k(2)] k(1) by simp
      have "numbered f ?\<rho> S b n k e" using vals Some by (simp add: values_ok_def)
      note here = num [OF this]
      have "replaced_ok f (?\<rho>(d \<mapsto> e)) ?T"
        unfolding replaced_ok_def
      proof (intro allI impI)
        fix d' e' assume de: "(?\<rho>(d \<mapsto> e)) d' = Some e'"
        show "\<exists>q k i key. inst_at f q k i \<and> dest i = Some d' \<and> (q, k) \<in> ?T \<and>
            gvn_key (?\<rho>(d \<mapsto> e)) i = Some key \<and> numbered f (?\<rho>(d \<mapsto> e)) ?T q k key e'"
        proof (cases "d' = d")
          case True
          then show ?thesis using de own here site(2) k(2) by auto
        next
          case False
          then have "?\<rho> d' = Some e'" using de by simp
          from replaced_stable [OF ssa S repl this site(2) k(2) site(3)] show ?thesis
            using numbered_mono [OF _ ST] by (meson insertI2)
        qed
      qed
      moreover have "values_ok f (?\<rho>(d \<mapsto> e)) ?T b' m av2" if "values_ok f ?\<rho> S b' m av2" for b' m av2
        using that num unfolding values_ok_def by blast
      moreover have "values_ok f (?\<rho>(d \<mapsto> e)) ?T b (Suc n) av"
        using vals num numbered_Suc unfolding values_ok_def by blast
      ultimately show ?thesis by (simp add: eq)
    qed
  qed
  then show "values_ok f (map_of repl') (insert (b, n) S) b (Suc n) av'"
    "replaced_ok f (map_of repl') (insert (b, n) S)"
    "\<And>b' m av2. values_ok f (map_of repl) S b' m av2 \<Longrightarrow> values_ok f (map_of repl') (insert (b, n) S) b' m av2"
    by blast+
qed

section \<open>A block\<close>

text \<open>Blocks visited with all their dominators.\<close>

definition blocks_ok :: "IrFunction \<Rightarrow> IrBlockId set \<Rightarrow> bool" where
  "blocks_ok f P \<longleftrightarrow>
     (\<forall>x \<in> P. cfg_reach (fn_cfg f) (cfg_entry_block (fn_cfg f)) x \<and> strict_doms (fn_cfg f) x \<subseteq> P)"

lemma sites_blocks:
  assumes "blocks_ok f P" "cfg_reach (fn_cfg f) (cfg_entry_block (fn_cfg f)) b" "strict_doms (fn_cfg f) b \<subseteq> P"
  shows "sites_ok f (P \<times> UNIV \<union> {b} \<times> {..<n})"
  using assms by (fastforce simp: sites_ok_def blocks_ok_def before_def strict_doms_def)

lemma gvn_insts_ok:
  assumes ssa: "single_assignment f" and P: "blocks_ok f P" "b \<notin> P"
    and b: "cfg_reach (fn_cfg f) (cfg_entry_block (fn_cfg f)) b" "strict_doms (fn_cfg f) b \<subseteq> P"
    and blk: "get_block (fn_cfg f) b = Some blk"
    and vals: "values_ok f (map_of repl) (P \<times> UNIV) b 0 av" and repl: "replaced_ok f (map_of repl) (P \<times> UNIV)"
    and "fold gvn_inst (take n (bb_instructions blk)) (av, repl) = (av', repl')" "n \<le> length (bb_instructions blk)"
  shows "values_ok f (map_of repl') (P \<times> UNIV \<union> {b} \<times> {..<n}) b n av' \<and>
     replaced_ok f (map_of repl') (P \<times> UNIV \<union> {b} \<times> {..<n}) \<and>
     (\<forall>b' m av2. values_ok f (map_of repl) (P \<times> UNIV) b' m av2 \<longrightarrow>
        values_ok f (map_of repl') (P \<times> UNIV \<union> {b} \<times> {..<n}) b' m av2)"
  using assms(9,10)
proof (induction n arbitrary: av' repl')
  case 0
  then show ?case using vals repl by auto
next
  case (Suc n)
  obtain av1 repl1 where s: "fold gvn_inst (take n (bb_instructions blk)) (av, repl) = (av1, repl1)" by fastforce
  then have step: "gvn_inst (bb_instructions blk ! n) (av1, repl1) = (av', repl')"
    using Suc.prems by (simp add: take_Suc_conv_app_nth)
  have site: "inst_at f b n (bb_instructions blk ! n)" using blk Suc.prems(2) by (auto simp: inst_at_def)
  have out: "(b, n) \<notin> P \<times> UNIV \<union> {b} \<times> {..<n}" using P(2) by simp
  have eq: "insert (b, n) (P \<times> UNIV \<union> {b} \<times> {..<n}) = P \<times> UNIV \<union> {b} \<times> {..<Suc n}" by auto
  have IH: "values_ok f (map_of repl1) (P \<times> UNIV \<union> {b} \<times> {..<n}) b n av1"
      "replaced_ok f (map_of repl1) (P \<times> UNIV \<union> {b} \<times> {..<n})"
      "\<And>b' m av2. values_ok f (map_of repl) (P \<times> UNIV) b' m av2 \<Longrightarrow>
        values_ok f (map_of repl1) (P \<times> UNIV \<union> {b} \<times> {..<n}) b' m av2"
    using Suc.IH [OF s] Suc.prems(2) by auto
  note ok = gvn_inst_ok [OF ssa sites_blocks [OF P(1) b] b(1) site out IH(1,2) step, unfolded eq]
  then show ?case using IH(3) by blast
qed

lemma gvn_block_ok:
  assumes ssa: "single_assignment f" and P: "blocks_ok f P" "b \<notin> P"
    and b: "cfg_reach (fn_cfg f) (cfg_entry_block (fn_cfg f)) b" "strict_doms (fn_cfg f) b \<subseteq> P"
    and blk: "get_block (fn_cfg f) b = Some blk"
    and vals: "values_ok f (map_of repl) (P \<times> UNIV) b 0 av" and repl: "replaced_ok f (map_of repl) (P \<times> UNIV)"
    and step: "gvn_block f b (av, repl) = (av', repl')"
  shows "values_ok f (map_of repl') (insert b P \<times> UNIV) b (length (bb_instructions blk)) av'"
    "replaced_ok f (map_of repl') (insert b P \<times> UNIV)"
    "values_ok f (map_of repl) (P \<times> UNIV) b' m av2 \<Longrightarrow> values_ok f (map_of repl') (insert b P \<times> UNIV) b' m av2"
proof -
  let ?n = "length (bb_instructions blk)"
  have "fold gvn_inst (take ?n (bb_instructions blk)) (av, repl) = (av', repl')"
    using step blk by (simp add: gvn_block_def)
  note ok = gvn_insts_ok [OF ssa P b blk vals repl this order_refl]
  have sub: "P \<times> UNIV \<union> {b} \<times> {..<?n} \<subseteq> insert b P \<times> UNIV" by auto
  show "values_ok f (map_of repl') (insert b P \<times> UNIV) b (length (bb_instructions blk)) av'"
    "replaced_ok f (map_of repl') (insert b P \<times> UNIV)"
    "values_ok f (map_of repl) (P \<times> UNIV) b' m av2 \<Longrightarrow> values_ok f (map_of repl') (insert b P \<times> UNIV) b' m av2"
    using ok values_mono [OF _ sub] replaced_mono [OF _ sub] by blast+
qed

section \<open>The walk\<close>

text \<open>
  \<open>P\<close> are the blocks visited, \<open>Q\<close> those on the stack: each once, the entry and the children of the
  visited ones.
\<close>

definition walk_inv :: "(IrBlockId \<times> IrBlockId) list \<Rightarrow> IrBlockId \<Rightarrow> IrBlockId list \<Rightarrow> IrBlockId list \<Rightarrow> bool" where
  "walk_inv m e P Q \<longleftrightarrow>
     distinct (P @ Q) \<and> set (P @ Q) = insert e {c. \<exists>p \<in> set P. map_of m c = Some p}"

lemma walk_step:
  assumes "map_of m e = None" "walk_inv m e P (b # rest)" "set cs = {c. map_of m c = Some b}" "distinct cs"
  shows "walk_inv m e (P @ [b]) (cs @ rest)"
proof -
  have "c \<notin> set (P @ b # rest)" if "c \<in> set cs" for c
    using that assms by (auto simp: walk_inv_def)
  then have "distinct ((P @ [b]) @ cs @ rest)" using assms(2,4) by (auto simp: walk_inv_def)
  moreover have "set ((P @ [b]) @ cs @ rest) = insert e {c. \<exists>p \<in> set (P @ [b]). map_of m c = Some p}"
    using assms(2,3) by (auto simp: walk_inv_def)
  ultimately show ?thesis by (simp add: walk_inv_def)
qed

lemma walk_inv_card:
  assumes "walk_inv m e P Q"
  shows "length P + length Q \<le> Suc (length m)"
proof -
  have "set (P @ Q) \<subseteq> insert e (fst ` set m)"
    using assms by (auto simp: walk_inv_def dest!: map_of_SomeD intro: rev_image_eqI)
  then have "card (set (P @ Q)) \<le> card (insert e (fst ` set m))" by (intro card_mono) auto
  also have "\<dots> \<le> Suc (length m)"
    using card_image_le [of "set m" fst] card_length [of m] by (simp add: card_insert_if)
  finally show ?thesis using assms distinct_card [of "P @ Q"] by (simp add: walk_inv_def)
qed

lemma walk_blocks:
  assumes m: "idom_map_ok g m" and w: "walk_inv m (cfg_entry_block g) P Q" and b: "b \<in> set (P @ Q)"
  shows "cfg_reach g (cfg_entry_block g) b \<and> strict_doms g b \<subseteq> set P"
proof -
  have r: "cfg_reach g (cfg_entry_block g) b" if "b \<in> set (P @ Q)" for b
  proof (cases "b = cfg_entry_block g")
    case True
    then show ?thesis by (simp add: reach_entry)
  next
    case False
    then obtain p where "map_of m b = Some p" using w \<open>b \<in> set (P @ Q)\<close> by (auto simp: walk_inv_def)
    then show ?thesis using idom_strict_doms(3) [OF m] by blast
  qed
  have "b \<in> set (P @ Q) \<longrightarrow> strict_doms g b \<subseteq> set P"
    using m r [OF b]
  proof (induction b rule: idom_induct)
    case entry
    then show ?case by simp
  next
    case (step b d)
    have "b \<noteq> cfg_entry_block g" using step.hyps m by (auto simp: idom_map_ok_def)
    then have "b \<in> set (P @ Q) \<Longrightarrow> d \<in> set P" using w step.hyps by (auto simp: walk_inv_def)
    then show ?case using step.IH idom_strict_doms(1) [OF m step.hyps] by auto
  qed
  then show ?thesis using r [OF b] b by blast
qed

lemma before_child:
  assumes m: "idom_map_ok g m" and g: "g = fn_cfg f" and c: "map_of m c = Some b" and bef: "before f p j b n"
  shows "before f p j c 0"
proof -
  note sd = idom_strict_doms [OF m c]
  have "b \<noteq> c" "block_dom g b c" using sd(1) by (auto simp: strict_doms_def)
  show ?thesis
  proof (cases "p = b")
    case True
    then show ?thesis using \<open>b \<noteq> c\<close> \<open>block_dom g b c\<close> by (simp add: before_def g)
  next
    case False
    then have "p \<in> strict_doms g b" using bef by (auto simp: before_def strict_doms_def g)
    then have "p \<in> strict_doms g c" using sd(1) by simp
    then show ?thesis by (simp add: before_def strict_doms_def g)
  qed
qed

lemma values_child:
  "idom_map_ok (fn_cfg f) m \<Longrightarrow> map_of m c = Some b \<Longrightarrow> values_ok f \<rho> S b n av \<Longrightarrow> values_ok f \<rho> S c 0 av"
  unfolding values_ok_def numbered_def using before_child [OF _ refl] by blast

lemma gvn_walk_ok:
  assumes ssa: "single_assignment f" and g: "cfg_linked (fn_cfg f)" and t: "tree_ok (fn_cfg f) t"
  shows "walk_inv (dt_idom t) (cfg_entry_block (fn_cfg f)) P (map fst stack) \<Longrightarrow>
    replaced_ok f (map_of repl) (set P \<times> UNIV) \<Longrightarrow>
    (\<forall>(b, av) \<in> set stack. values_ok f (map_of repl) (set P \<times> UNIV) b 0 av) \<Longrightarrow>
    \<exists>repl' S. gvn_walk f t stack repl = Some repl' \<and> replaced_ok f (map_of repl') S"
proof (induction "Suc (length (dt_idom t)) - length P" arbitrary: P stack repl rule: less_induct)
  case less
  let ?m = "dt_idom t" and ?e = "cfg_entry_block (fn_cfg f)"
  have m: "idom_map_ok (fn_cfg f) ?m" "dt_children t = children_map ?m" using t by (auto simp: tree_ok_def)
  then have wf: "bt_wf ?m" "map_of ?m ?e = None" by (auto simp: idom_map_ok_def)
  show ?case
  proof (cases stack)
    case Nil
    then show ?thesis using less.prems(2) by (subst gvn_walk.simps) auto
  next
    case (Cons top rest)
    obtain b av where top: "top = (b, av)" by fastforce
    obtain av' repl' where step: "gvn_block f b (av, repl) = (av', repl')" by fastforce
    let ?cs = "dt_get_children t b" and ?P = "P @ [b]"
    have cs: "set ?cs = {c. map_of ?m c = Some b}" "distinct ?cs"
      using children_ok [OF wf(1), of b] m(2) by (simp_all add: dt_get_children_def)
    have inv: "walk_inv ?m ?e P (b # map fst rest)" using less.prems(1) by (simp add: Cons top)
    have inv': "walk_inv ?m ?e ?P (map fst (rev (map (\<lambda>c. (c, av')) ?cs) @ rest))"
      using walk_step [OF wf(2) inv, of "rev ?cs"] cs by (simp add: rev_map comp_def)
    have P: "blocks_ok f (set P)" "b \<notin> set P" "cfg_reach (fn_cfg f) ?e b" "strict_doms (fn_cfg f) b \<subseteq> set P"
      using walk_blocks [OF m(1) inv] inv by (auto simp: blocks_ok_def walk_inv_def)
    obtain blk where blk: "get_block (fn_cfg f) b = Some blk" using cfg_linked_reach [OF P(3) g] by blast
    have vals: "values_ok f (map_of repl) (set P \<times> UNIV) b 0 av" using less.prems(3) by (simp add: Cons top)
    note ok = gvn_block_ok [OF ssa P blk vals less.prems(2) step]
    have vals': "\<forall>(c, av2) \<in> set (rev (map (\<lambda>c. (c, av')) ?cs) @ rest). values_ok f (map_of repl') (set ?P \<times> UNIV) c 0 av2"
      using ok(1,3) values_child [OF m(1)] cs(1) less.prems(3) by (fastforce simp: Cons)
    have "length P < Suc (length ?m)" using walk_inv_card [OF inv] by simp
    then obtain repl'' S where "gvn_walk f t (rev (map (\<lambda>c. (c, av')) ?cs) @ rest) repl' = Some repl''"
        "replaced_ok f (map_of repl'') S"
      using less.hyps [OF _ inv' _ vals'] ok(2) by fastforce
    then show ?thesis using step by (subst gvn_walk.simps) (auto simp: Cons top)
  qed
qed

lemma gvn_replacements_ok:
  assumes "single_assignment f" "cfg_linked (fn_cfg f)"
  shows "\<exists>repl S. gvn_replacements f = Some repl \<and> replaced_ok f (map_of repl) S"
proof -
  obtain t where t: "dom_compute f = Some t" "tree_ok (fn_cfg f) t" using dom_compute_tree [OF assms(2)] by blast
  have "walk_inv (dt_idom t) (cfg_entry_block (fn_cfg f)) [] (map fst [(entry_block f, Map.empty)])"
    by (simp add: walk_inv_def entry_block_def)
  from gvn_walk_ok [OF assms t(2) this, of "[]"] t(1) show ?thesis
    by (auto simp: gvn_replacements_def replaced_ok_def values_ok_def)
qed

end
