(* ===== verification/MirInit.thy ===== *)
theory MirInit
  imports MirAbi "HOL-Library.Multiset"
begin

text \<open>
  The order in which the \<open>__init__\<close>s of a merged module run (\<open>ir/init_order.rs\<close>): which files an
  \<open>__init__\<close> reaches through direct calls, by a work list over the functions of the module, and
  Kahn's algorithm over the \<open>__init__\<close>s. The stack of the work list is a list with its top at the head.
\<close>

definition IMPORT_BASE :: nat where "IMPORT_BASE = 100000"
definition IMPORT_STRIDE :: nat where "IMPORT_STRIDE = 10000"

definition file_of :: "nat \<Rightarrow> nat" where
  "file_of i = (if i < IMPORT_BASE then 4294967295 else i div IMPORT_STRIDE)"

section \<open>What an \<open>__init__\<close> reaches\<close>

definition user_defined :: "IrModule \<Rightarrow> IrFunctionId \<Rightarrow> bool" where
  "user_defined md f = (case map_of (mod_functions md) f of Some fn \<Rightarrow> fn_kind fn = FkUserDefined | None \<Rightarrow> False)"

type_synonym reach_state = "nat set \<times> IrFunctionId set \<times> IrFunctionId list"

fun init_inst :: "IrModule \<Rightarrow> IrInstruction \<Rightarrow> reach_state \<Rightarrow> reach_state" where
  "init_inst md (ICallDirect d f args own ta tc) (reached, seen, stack) =
     (if user_defined md f
      then (insert (file_of f) reached, insert f seen, if f \<in> seen then stack else f # stack)
      else (reached, seen, stack))"
| "init_inst md (ILoadGlobal d g t) (reached, seen, stack) = (insert (file_of g) reached, seen, stack)"
| "init_inst md (IStoreGlobal g v) (reached, seen, stack) = (insert (file_of g) reached, seen, stack)"
| "init_inst md i s = s"

lemma init_inst_measure:
  assumes "init_inst md i (reached, seen, stack) = (reached', seen', stack')"
  shows "length stack' + card (fst ` set (mod_functions md) - seen')
       \<le> length stack + card (fst ` set (mod_functions md) - seen)"
  using assms
proof (cases "(md, i, (reached, seen, stack))" rule: init_inst.cases)
  case (1 md0 d f args own ta tc r s st)
  show ?thesis
  proof (cases "user_defined md f \<and> f \<notin> seen")
    case True
    let ?K = "fst ` set (mod_functions md)"
    have "f \<in> ?K - seen" using True map_of_eq_None_iff [of "mod_functions md" f]
      by (auto simp: user_defined_def split: option.splits)
    moreover have "?K - insert f seen = (?K - seen) - {f}" by auto
    ultimately have "card (?K - insert f seen) < card (?K - seen)"
      by (metis card_Diff1_less finite_Diff finite_imageI finite_set)
    then show ?thesis using 1 assms True by auto
  next
    case False
    then show ?thesis using 1 assms by (auto simp: insert_absorb split: if_splits)
  qed
qed auto

lemma init_insts_measure:
  assumes "fold (init_inst md) is (reached, seen, stack) = (reached', seen', stack')"
  shows "length stack' + card (fst ` set (mod_functions md) - seen')
       \<le> length stack + card (fst ` set (mod_functions md) - seen)"
  using assms
proof (induction "is" arbitrary: reached seen stack)
  case (Cons i "is")
  obtain r s st where i: "init_inst md i (reached, seen, stack) = (r, s, st)" by (metis prod_cases3)
  with Cons.IH [of r s st] Cons.prems init_inst_measure [OF i] show ?case by simp
qed simp

function reach_files :: "IrModule \<Rightarrow> nat set \<Rightarrow> IrFunctionId set \<Rightarrow> IrFunctionId list \<Rightarrow> nat set" where
  "reach_files md reached seen [] = reached"
| "reach_files md reached seen (i # stack) =
     (case map_of (mod_functions md) i of
        None \<Rightarrow> reach_files md reached seen stack
      | Some f \<Rightarrow>
          (case fold (init_inst md) (fn_insts f) (reached, seen, stack) of
             (reached', seen', stack') \<Rightarrow> reach_files md reached' seen' stack'))"
  by pat_completeness auto

termination
proof (relation "measure (\<lambda>(md, reached, seen, stack). length stack + card (fst ` set (mod_functions md) - seen))",
       goal_cases)
  case (3 md reached seen i stack f reached' t seen' stack')
  then have "fold (init_inst md) (fn_insts f) (reached, seen, stack) = (reached', seen', stack')" by simp
  from init_insts_measure [OF this] show ?case by (simp add: 3(3) [symmetric])
qed auto

definition init_deps :: "IrModule \<Rightarrow> IrFunctionId list \<Rightarrow> IrFunctionId \<Rightarrow> nat set" where
  "init_deps md inits init =
     Set.filter (\<lambda>f. f \<noteq> file_of init \<and> f \<in> set (map file_of inits)) (reach_files md {} {init} [init])"

section \<open>The order\<close>

definition position :: "('a \<Rightarrow> bool) \<Rightarrow> 'a list \<Rightarrow> nat option" where
  "position p xs = List.find (\<lambda>i. p (xs ! i)) [0..<length xs]"

definition remove_at :: "nat \<Rightarrow> 'a list \<Rightarrow> 'a list" where
  "remove_at i xs = take i xs @ drop (Suc i) xs"

definition init_ready :: "(IrFunctionId \<Rightarrow> nat set) \<Rightarrow> nat set \<Rightarrow> IrFunctionId list \<Rightarrow> IrFunctionId \<Rightarrow> bool" where
  "init_ready deps finished remaining i \<longleftrightarrow>
     (\<forall>f \<in> deps i. f \<in> finished \<or> f \<notin> set (map file_of remaining))"

definition pick_init :: "(IrFunctionId \<Rightarrow> nat set) \<Rightarrow> nat set \<Rightarrow> IrFunctionId list \<Rightarrow> nat" where
  "pick_init deps finished remaining =
     (case position (init_ready deps finished remaining) remaining of Some i \<Rightarrow> i | None \<Rightarrow> 0)"

lemma position_Some: "position p xs = Some i \<Longrightarrow> i < length xs \<and> p (xs ! i)"
  by (auto simp: position_def find_Some_iff)

lemma position_None: "position p xs = None \<longleftrightarrow> (\<forall>x \<in> set xs. \<not> p x)"
  by (force simp: position_def find_None_iff in_set_conv_nth)

lemma pick_init_bound: "remaining \<noteq> [] \<Longrightarrow> pick_init deps finished remaining < length remaining"
  by (auto simp: pick_init_def split: option.splits dest: position_Some)

lemma length_remove_at: "i < length xs \<Longrightarrow> length (remove_at i xs) < length xs"
  by (simp add: remove_at_def)

function run_order :: "(IrFunctionId \<Rightarrow> nat set) \<Rightarrow> nat set \<Rightarrow> IrFunctionId list \<Rightarrow> IrFunctionId list" where
  "run_order deps finished remaining =
     (if remaining = [] then []
      else let pick = pick_init deps finished remaining;
               i = remaining ! pick;
               rest = remove_at pick remaining;
               finished' = (if file_of i \<in> set (map file_of rest) then finished else insert (file_of i) finished)
           in i # run_order deps finished' rest)"
  by pat_completeness auto

termination
  by (relation "measure (\<lambda>(deps, finished, remaining). length remaining)")
     (auto intro: length_remove_at pick_init_bound)

declare run_order.simps [simp del]

definition inits_named :: "IrModule \<Rightarrow> string \<Rightarrow> IrFunctionId list" where
  "inits_named md name = map fn_id (filter (\<lambda>f. fn_name f = name) (map snd (mod_functions md)))"

definition ordered_inits :: "IrModule \<Rightarrow> string \<Rightarrow> IrFunctionId list" where
  "ordered_inits md name =
     (let inits = inits_named md name
      in if length inits < 2 \<or> name \<noteq> ''__init__'' then inits
         else run_order (init_deps md inits) {} inits)"

section \<open>Files reached\<close>

fun callee :: "IrModule \<Rightarrow> IrInstruction \<Rightarrow> IrFunctionId set" where
  "callee md (ICallDirect d f args own ta tc) = (if user_defined md f then {f} else {})"
| "callee md _ = {}"

fun global_of :: "IrInstruction \<Rightarrow> nat set" where
  "global_of (ILoadGlobal d g t) = {g}"
| "global_of (IStoreGlobal g v) = {g}"
| "global_of _ = {}"

text \<open>The functions a function calls directly, and the files it touches itself.\<close>

definition callees :: "IrModule \<Rightarrow> IrFunctionId \<Rightarrow> IrFunctionId set" where
  "callees md i =
     (case map_of (mod_functions md) i of None \<Rightarrow> {} | Some f \<Rightarrow> \<Union> (callee md ` set (fn_insts f)))"

definition touches :: "IrModule \<Rightarrow> IrFunctionId \<Rightarrow> nat set" where
  "touches md i =
     (case map_of (mod_functions md) i of
        None \<Rightarrow> {}
      | Some f \<Rightarrow> file_of ` (\<Union>inst \<in> set (fn_insts f). callee md inst \<union> global_of inst))"

inductive call_reach :: "IrModule \<Rightarrow> IrFunctionId \<Rightarrow> IrFunctionId \<Rightarrow> bool" for md i where
  call_self: "call_reach md i i"
| call_step: "call_reach md i j \<Longrightarrow> k \<in> callees md j \<Longrightarrow> call_reach md i k"

lemma init_inst_eq:
  assumes "init_inst md i (reached, seen, stack) = (reached', seen', stack')"
  shows "reached' = reached \<union> file_of ` (callee md i \<union> global_of i)" "seen' = seen \<union> callee md i"
    "set stack' \<union> seen = set stack \<union> seen \<union> callee md i"
    "set stack \<subseteq> set stack'" "set stack' \<subseteq> set stack \<union> callee md i"
  using assms
  by (cases "(md, i, (reached, seen, stack))" rule: init_inst.cases; auto split: if_splits)+

lemma init_insts_eq:
  assumes "fold (init_inst md) is (reached, seen, stack) = (reached', seen', stack')"
  shows "reached' = reached \<union> file_of ` (\<Union>i \<in> set is. callee md i \<union> global_of i) \<and>
    seen' = seen \<union> (\<Union>i \<in> set is. callee md i) \<and>
    set stack \<subseteq> set stack' \<and> seen' - set stack' \<subseteq> seen - set stack \<and>
    set stack' \<subseteq> set stack \<union> (\<Union>i \<in> set is. callee md i)"
  using assms
proof (induction "is" arbitrary: reached seen stack)
  case (Cons i "is")
  obtain r s st where i: "init_inst md i (reached, seen, stack) = (r, s, st)" by (metis prod_cases3)
  have "fold (init_inst md) is (r, s, st) = (reached', seen', stack')" using Cons.prems i by simp
  from Cons.IH [OF this] init_inst_eq [OF i] show ?case by auto
qed simp

lemma fn_scan_eq:
  assumes "map_of (mod_functions md) i = Some f"
    and "fold (init_inst md) (fn_insts f) (reached, seen, stack) = (reached', seen', stack')"
  shows "reached' = reached \<union> touches md i" "seen' = seen \<union> callees md i"
    "set stack \<subseteq> set stack'" "seen' - set stack' \<subseteq> seen - set stack"
    "set stack' \<subseteq> set stack \<union> callees md i"
  using init_insts_eq [OF assms(2)] assms(1) by (auto simp: touches_def callees_def)

lemma reach_files_least:
  assumes "seen \<subseteq> S" "set stack \<subseteq> S" "\<forall>x \<in> S. callees md x \<subseteq> S" "reached \<subseteq> \<Union> (touches md ` S)"
  shows "reach_files md reached seen stack \<subseteq> \<Union> (touches md ` S)"
  using assms
proof (induction md reached seen stack rule: reach_files.induct)
  case (2 md reached seen i stack)
  show ?case
  proof (cases "map_of (mod_functions md) i")
    case None
    then show ?thesis using 2 by simp
  next
    case (Some f)
    obtain r s st where scan: "fold (init_inst md) (fn_insts f) (reached, seen, stack) = (r, s, st)"
      by (metis prod_cases3)
    have "i \<in> S" using "2.prems"(2) by simp
    then have "callees md i \<subseteq> S" "touches md i \<subseteq> \<Union> (touches md ` S)" using "2.prems"(3) by auto
    then have "s \<subseteq> S" "set st \<subseteq> S" "r \<subseteq> \<Union> (touches md ` S)"
      using fn_scan_eq(1,2,5) [OF Some scan] "2.prems" by (simp_all, blast)
    then show ?thesis using "2.IH"(2) [OF Some scan [symmetric]] "2.prems"(3) by (simp add: Some scan)
  qed
qed simp

lemma reach_files_closed:
  assumes "\<forall>x \<in> seen - set stack. callees md x \<subseteq> seen \<and> touches md x \<subseteq> reached" "set stack \<subseteq> seen"
  shows "\<exists>S. seen \<subseteq> S \<and> (\<forall>x \<in> S. callees md x \<subseteq> S \<and> touches md x \<subseteq> reach_files md reached seen stack)"
  using assms
proof (induction md reached seen stack rule: reach_files.induct)
  case (1 md reached seen)
  then show ?case by auto
next
  case (2 md reached seen i stack)
  show ?case
  proof (cases "map_of (mod_functions md) i")
    case None
    then have "callees md i = {}" "touches md i = {}" by (simp_all add: callees_def touches_def)
    then have "\<forall>x \<in> seen - set stack. callees md x \<subseteq> seen \<and> touches md x \<subseteq> reached"
      using "2.prems"(1) by auto
    from "2.IH"(1) [OF None this] "2.prems"(2) None show ?thesis by simp
  next
    case (Some f)
    obtain r s st where scan: "fold (init_inst md) (fn_insts f) (reached, seen, stack) = (r, s, st)"
      by (metis prod_cases3)
    note eq = fn_scan_eq [OF Some scan]
    have "\<forall>x \<in> s - set st. callees md x \<subseteq> s \<and> touches md x \<subseteq> r"
    proof
      fix x assume "x \<in> s - set st"
      then have "x \<in> seen - set stack" using eq(4) by auto
      then show "callees md x \<subseteq> s \<and> touches md x \<subseteq> r"
        using "2.prems"(1) eq(1,2) by (cases "x = i") auto
    qed
    moreover have "set st \<subseteq> s" using eq(2,5) "2.prems"(2) by auto
    ultimately obtain S where "s \<subseteq> S" "\<forall>x \<in> S. callees md x \<subseteq> S \<and> touches md x \<subseteq> reach_files md r s st"
      using "2.IH"(2) [OF Some scan [symmetric]] by auto
    then show ?thesis using eq(2) Some scan by (intro exI [of _ S]) auto
  qed
qed

lemma reach_files_iff:
  "reach_files md {} {i} [i] = \<Union> (touches md ` {j. call_reach md i j})"
proof
  show "reach_files md {} {i} [i] \<subseteq> \<Union> (touches md ` {j. call_reach md i j})"
    by (rule reach_files_least) (auto intro: call_reach.intros)
  obtain S where S: "i \<in> S" "\<forall>x \<in> S. callees md x \<subseteq> S \<and> touches md x \<subseteq> reach_files md {} {i} [i]"
    using reach_files_closed [of "{i}" "[i]" md "{}"] by auto
  have "j \<in> S" if "call_reach md i j" for j using that S by induction auto
  then show "\<Union> (touches md ` {j. call_reach md i j}) \<subseteq> reach_files md {} {i} [i]" using S(2) by auto
qed

text \<open>What an \<open>__init__\<close> depends on: other \<open>__init__\<close>s, of files it reaches.\<close>

lemma init_deps_iff:
  "f \<in> init_deps md inits i \<longleftrightarrow>
     f \<noteq> file_of i \<and> f \<in> file_of ` set inits \<and> (\<exists>j. call_reach md i j \<and> f \<in> touches md j)"
  by (auto simp: init_deps_def reach_files_iff simp del: reach_files.simps)

section \<open>Dependencies first\<close>

lemma mset_remove_at: "i < length xs \<Longrightarrow> add_mset (xs ! i) (mset (remove_at i xs)) = mset xs"
proof -
  assume i: "i < length xs"
  have "mset xs = mset (take i xs @ xs ! i # drop (Suc i) xs)" using i by (simp add: id_take_nth_drop [symmetric])
  then show ?thesis by (simp add: remove_at_def)
qed

lemma run_order_mset: "mset (run_order deps finished remaining) = mset remaining"
proof (induction deps finished remaining rule: run_order.induct)
  case (1 deps finished remaining)
  show ?case
  proof (cases "remaining = []")
    case False
    then show ?thesis
      using 1 mset_remove_at [OF pick_init_bound [OF False]]
      by (subst run_order.simps) (simp add: Let_def)
  qed (simp add: run_order.simps)
qed

lemma finite_acyclic_minimal:
  assumes "finite r" "acyclic r" "x \<in> Q"
  shows "\<exists>i \<in> Q. \<forall>j. (j, i) \<in> r \<longrightarrow> j \<notin> Q"
proof -
  have "wf r" using assms(1,2) by (rule finite_acyclic_wf)
  then show ?thesis using assms(3) unfolding wf_eq_minimal by blast
qed

text \<open>While no dependency is circular some \<open>__init__\<close> is ready.\<close>

lemma some_ready:
  assumes "acyclic {(j, i). i \<in> set remaining \<and> j \<in> set remaining \<and> file_of j \<in> deps i}" "remaining \<noteq> []"
  shows "\<exists>i \<in> set remaining. init_ready deps finished remaining i"
proof -
  let ?r = "{(j, i). i \<in> set remaining \<and> j \<in> set remaining \<and> file_of j \<in> deps i}"
  have "finite ?r" by (rule finite_subset [of _ "set remaining \<times> set remaining"]) auto
  from finite_acyclic_minimal [OF this assms(1) hd_in_set [OF assms(2)]]
  obtain i where i: "i \<in> set remaining" "\<forall>j. (j, i) \<in> ?r \<longrightarrow> j \<notin> set remaining" by (rule bexE)
  have "\<forall>f \<in> deps i. f \<notin> set (map file_of remaining)"
  proof (intro ballI notI)
    fix f assume "f \<in> deps i" "f \<in> set (map file_of remaining)"
    then obtain j where "j \<in> set remaining" "file_of j \<in> deps i" by auto
    with i show False by blast
  qed
  then show ?thesis using i(1) unfolding init_ready_def by blast
qed

lemma pick_ready:
  assumes "\<exists>i \<in> set remaining. init_ready deps finished remaining i"
  shows "init_ready deps finished remaining (remaining ! pick_init deps finished remaining)"
proof -
  obtain k where "position (init_ready deps finished remaining) remaining = Some k"
    using assms by (cases "position (init_ready deps finished remaining) remaining") (auto simp: position_None)
  with position_Some [OF this] show ?thesis by (simp add: pick_init_def)
qed

lemma run_order_sorted:
  assumes "acyclic {(j, i). i \<in> set remaining \<and> j \<in> set remaining \<and> file_of j \<in> deps i}"
    and "\<forall>f \<in> finished. f \<notin> file_of ` set remaining"
    and "run_order deps finished remaining = xs @ i # ys" "j \<in> set remaining" "file_of j \<in> deps i"
  shows "j \<in> set xs"
  using assms
proof (induction deps finished remaining arbitrary: xs rule: run_order.induct)
  case (1 deps finished remaining)
  define pick where "pick = pick_init deps finished remaining"
  define h where "h = remaining ! pick"
  define rest where "rest = remove_at pick remaining"
  define finished' where
    "finished' = (if file_of h \<in> set (map file_of rest) then finished else insert (file_of h) finished)"
  have ne: "remaining \<noteq> []" using "1.prems"(4) by auto
  have ready: "init_ready deps finished remaining h"
    using pick_ready [OF some_ready [OF "1.prems"(1) ne]] by (simp add: h_def pick_def)
  have order: "run_order deps finished remaining = h # run_order deps finished' rest"
    using ne by (subst run_order.simps) (simp add: Let_def h_def pick_def rest_def finished'_def)
  have "add_mset h (mset rest) = mset remaining"
    using mset_remove_at [OF pick_init_bound [OF ne]] by (simp add: h_def rest_def pick_def)
  then have set: "set remaining = insert h (set rest)" by (metis set_mset_add_mset_insert set_mset_mset)
  show ?case
  proof (cases xs)
    case Nil
    then have "i = h" using "1.prems"(3) order by simp
    then show ?thesis using ready "1.prems"(2,4,5) by (auto simp: init_ready_def)
  next
    case (Cons x xs')
    then have x: "x = h" and rest_order: "run_order deps finished' rest = xs' @ i # ys"
      using "1.prems"(3) order by simp_all
    show ?thesis
    proof (cases "j = h")
      case False
      have ac: "acyclic {(j, i). i \<in> set rest \<and> j \<in> set rest \<and> file_of j \<in> deps i}"
        by (rule acyclic_subset [OF "1.prems"(1)]) (auto simp: set)
      have fin: "\<forall>f \<in> finished'. f \<notin> file_of ` set rest"
        using "1.prems"(2) by (auto simp: finished'_def set)
      have "j \<in> set xs'"
        using "1.IH" [OF ne pick_def h_def rest_def finished'_def ac fin rest_order] False "1.prems"(4,5) set
        by simp
      then show ?thesis by (simp add: Cons)
    qed (simp add: Cons x)
  qed
qed

lemma ordered_inits_mset: "mset (ordered_inits md name) = mset (inits_named md name)"
  by (simp add: ordered_inits_def Let_def run_order_mset)

text \<open>\<open>needs_init md i j\<close>: an \<open>__init__\<close> \<open>i\<close> reaches the file of the \<open>__init__\<close> \<open>j\<close>.\<close>

definition needs_init :: "IrModule \<Rightarrow> IrFunctionId \<Rightarrow> IrFunctionId \<Rightarrow> bool" where
  "needs_init md i j \<longleftrightarrow> file_of j \<noteq> file_of i \<and> (\<exists>k. call_reach md i k \<and> file_of j \<in> touches md k)"

lemma ordered_inits_sorted:
  assumes "acyclic {(j, i). i \<in> set inits \<and> j \<in> set inits \<and> needs_init md i j}"
    and "inits = inits_named md ''__init__''"
    and "ordered_inits md ''__init__'' = xs @ i # ys" "j \<in> set inits" "needs_init md i j"
  shows "j \<in> set xs"
proof -
  have dep: "file_of j \<in> init_deps md inits i \<longleftrightarrow> needs_init md i j" if "j \<in> set inits" for i j
    using that by (auto simp: init_deps_iff needs_init_def)
  have i: "i \<in> set inits"
    using assms(2,3) ordered_inits_mset [of md "''__init__''"] by (metis in_set_conv_decomp set_mset_mset)
  have "i \<noteq> j" using assms(5) by (auto simp: needs_init_def)
  then have two: "\<not> length inits < 2" using i assms(4) by (cases inits; cases "tl inits") auto
  have "{(j, i). i \<in> set inits \<and> j \<in> set inits \<and> file_of j \<in> init_deps md inits i} =
      {(j, i). i \<in> set inits \<and> j \<in> set inits \<and> needs_init md i j}" using dep by auto
  then show ?thesis
    using run_order_sorted [of inits "init_deps md inits" "{}" xs i ys j] assms(1,3,4,5) two dep assms(2)
    by (simp add: ordered_inits_def Let_def)
qed

end
