(* ===== verification/PassProperties.thy ===== *)
theory PassProperties
  imports MirNumberOk MirInit
begin

text \<open>
  The properties of common subexpressions, global value numbering and the order of the initialisers, each
  with a witness where it has hypotheses.
\<close>

section \<open>The same computation\<close>

text \<open>
  Two instructions that compute the same, their operands taken through the replacements \<open>\<rho>\<close>: the same
  operator on the same operands, or on exchanged operands of an operator that does not depend on
  their order; the same conversion to a type; the value of the same global.
\<close>

definition order_free :: "BinaryOp \<Rightarrow> bool" where
  "order_free op \<longleftrightarrow> op \<in> {BAdd, BMul, BFAdd, BFMul, BAnd, BOr, BXor}"

inductive same_computation :: "(IrId \<rightharpoonup> IrId) \<Rightarrow> IrInstruction \<Rightarrow> IrInstruction \<Rightarrow> bool" for \<rho> where
  same_binop: "rep \<rho> l' = rep \<rho> l \<Longrightarrow> rep \<rho> r' = rep \<rho> r \<Longrightarrow>
     same_computation \<rho> (IBinOp d op l r) (IBinOp d' op l' r')"
| exchanged_binop: "order_free op \<Longrightarrow> rep \<rho> l' = rep \<rho> r \<Longrightarrow> rep \<rho> r' = rep \<rho> l \<Longrightarrow>
     same_computation \<rho> (IBinOp d op l r) (IBinOp d' op l' r')"
| same_unop: "rep \<rho> x' = rep \<rho> x \<Longrightarrow> same_computation \<rho> (IUnOp d op x) (IUnOp d' op x')"
| same_cmp: "rep \<rho> l' = rep \<rho> l \<Longrightarrow> rep \<rho> r' = rep \<rho> r \<Longrightarrow>
     same_computation \<rho> (ICmp d op l r) (ICmp d' op l' r')"
| same_cast: "rep \<rho> s' = rep \<rho> s \<Longrightarrow> same_computation \<rho> (ICast d s f t) (ICast d' s' f' t)"
| same_global: "same_computation \<rho> (ILoadGlobal d g t) (ILoadGlobal d' g t')"

lemma binop_key_same:
  assumes "binop_key op (rep \<rho> l) (rep \<rho> r) = binop_key op' (rep \<rho> l') (rep \<rho> r')"
  shows "same_computation \<rho> (IBinOp d op l r) (IBinOp d' op' l' r')"
proof -
  have op: "op' = op" using assms by (auto simp: binop_key_def split: if_splits)
  have "rep \<rho> l' = rep \<rho> l \<and> rep \<rho> r' = rep \<rho> r \<or>
      is_commutative op \<and> rep \<rho> l' = rep \<rho> r \<and> rep \<rho> r' = rep \<rho> l"
    using assms by (auto simp: binop_key_def split: if_splits)
  moreover have "is_commutative op \<Longrightarrow> order_free op" by (simp add: is_commutative_def order_free_def)
  ultimately show ?thesis unfolding op using same_binop exchanged_binop by metis
qed

lemma gvn_key_same: "gvn_key \<rho> i = Some k \<Longrightarrow> gvn_key \<rho> i' = Some k \<Longrightarrow> same_computation \<rho> i i'"
  by (cases "(\<rho>, i)" rule: gvn_key.cases; cases "(\<rho>, i')" rule: gvn_key.cases)
     (auto intro: binop_key_same same_computation.intros simp: binop_key_def split: if_splits)

lemma instruction_key_same:
  "instruction_key i = Some k \<Longrightarrow> instruction_key i' = Some k \<Longrightarrow> same_computation Map.empty i i'"
  by (cases i rule: instruction_key.cases; cases i' rule: instruction_key.cases)
     (auto intro: binop_key_same same_computation.intros simp: binop_key_def rep_def split: if_splits)

section \<open>Common subexpressions\<close>

text \<open>
  C17. A common subexpression stands for the same computation: where the pass lets a register of a block
  stand in for another, both are defined in the block by instructions that compute the same, the one
  that stands in by the earlier of the two, and where they read a global, nothing between the two may
  write it: no store to the global and no call.
\<close>

theorem common_subexpression_available:
  assumes "(d, e) \<in> set (cse_replacements b)"
  shows "\<exists>j m. j < m \<and> m < length (bb_instructions b) \<and>
    dest (bb_instructions b ! j) = Some e \<and> dest (bb_instructions b ! m) = Some d \<and>
    same_computation Map.empty (bb_instructions b ! j) (bb_instructions b ! m) \<and>
    (\<forall>a g t l. bb_instructions b ! m = ILoadGlobal a g t \<longrightarrow> j < l \<longrightarrow> l < m \<longrightarrow>
       \<not> overwrites g (bb_instructions b ! l))"
proof -
  from cse_reuses [OF assms] obtain j m k where
    "j < m" "m < length (bb_instructions b)"
    "dest (bb_instructions b ! j) = Some e" "dest (bb_instructions b ! m) = Some d"
    and k: "instruction_key (bb_instructions b ! j) = Some k" "instruction_key (bb_instructions b ! m) = Some k"
    and g: "\<forall>g l. k = KeyGlobal g \<longrightarrow> j < l \<longrightarrow> l < m \<longrightarrow> \<not> overwrites g (bb_instructions b ! l)"
    unfolding reuses_def available_at_def by auto
  moreover have "same_computation Map.empty (bb_instructions b ! j) (bb_instructions b ! m)"
    by (rule instruction_key_same [OF k])
  moreover have "bb_instructions b ! m = ILoadGlobal a g t \<Longrightarrow> k = KeyGlobal g" for a g t
    using k(2) by simp
  ultimately show ?thesis by metis
qed

definition repeated_sum :: IrBasicBlock where
  "repeated_sum =
     (new_block 0)\<lparr>bb_instructions := [IBinOp 2 BAdd 0 1, ILoadGlobal 3 7 TyI32, IBinOp 4 BAdd 1 0,
        IStoreGlobal 7 4, ILoadGlobal 5 7 TyI32]\<rparr>"

lemma repeated_sum_replaced: "cse_replacements repeated_sum = [(4, 2)]"
  by code_simp

theorem common_subexpression_available_witness:
  "\<exists>j m. j < m \<and> m < length (bb_instructions repeated_sum) \<and>
    dest (bb_instructions repeated_sum ! j) = Some 2 \<and> dest (bb_instructions repeated_sum ! m) = Some 4 \<and>
    same_computation Map.empty (bb_instructions repeated_sum ! j) (bb_instructions repeated_sum ! m)"
  using common_subexpression_available [of 4 2 repeated_sum] by (auto simp: repeated_sum_replaced)

section \<open>Global value numbering\<close>

text \<open>
  C26. Global value numbering in a function in single assignment form: the walk over the dominator
  tree ends, and where a register is replaced, the register that stands in is not replaced itself, and
  the two are defined by instructions that compute the same on their replaced operands, the one that
  stands in earlier in the same block or in a block that dominates it, so before it on every path.
\<close>

theorem replaced_value_computed_before:
  assumes "single_assignment f" and "cfg_linked (fn_cfg f)"
  shows "\<exists>repl. gvn_replacements f = Some repl \<and>
    (\<forall>d e. map_of repl d = Some e \<longrightarrow>
      map_of repl e = None \<and>
      (\<exists>p j i q k i'. inst_at f p j i \<and> inst_at f q k i' \<and> dest i = Some e \<and> dest i' = Some d \<and>
         same_computation (map_of repl) i i' \<and> before f p j q k))"
proof -
  from gvn_replacements_ok [OF assms] obtain repl S
    where r: "gvn_replacements f = Some repl" "replaced_ok f (map_of repl) S" by blast
  have "map_of repl e = None \<and>
      (\<exists>p j i q k i'. inst_at f p j i \<and> inst_at f q k i' \<and> dest i = Some e \<and> dest i' = Some d \<and>
         same_computation (map_of repl) i i' \<and> before f p j q k)"
    if "map_of repl d = Some e" for d e
    using r(2) that gvn_key_same unfolding replaced_ok_def numbered_def by metis
  with r(1) show ?thesis by blast
qed

definition sum_in_two_blocks :: IrFunction where
  "sum_in_two_blocks =
     \<lparr>fn_id = 0, fn_name = ''f'', fn_qualified_name = None,
      fn_signature = \<lparr>sig_parameters = [], sig_return_type = TyVoid, sig_calling_convention = CcHaxe,
                      sig_can_throw = False, sig_type_params = [], sig_uses_sret = False\<rparr>,
      fn_cfg = \<lparr>cfg_blocks =
          [(0, (new_block 0)\<lparr>bb_instructions := [IBinOp 2 BAdd 0 1], bb_terminator := TBranch 1\<rparr>),
           (1, (new_block 1)\<lparr>bb_instructions := [IBinOp 3 BAdd 1 0], bb_terminator := TReturn (Some 3),
                             bb_predecessors := [0]\<rparr>)],
        cfg_entry_block = 0, cfg_next_block_id = 2\<rparr>,
      fn_locals = [], fn_register_types = [], fn_attributes = default_attributes,
      fn_kind = FkUserDefined, fn_next_reg_id = 4\<rparr>"

lemma sum_in_two_blocks_insts:
  "inst_at sum_in_two_blocks b j i \<longleftrightarrow>
     b = 0 \<and> j = 0 \<and> i = IBinOp 2 BAdd 0 1 \<or> b = 1 \<and> j = 0 \<and> i = IBinOp 3 BAdd 1 0"
  by (auto simp: inst_at_def sum_in_two_blocks_def get_block_def split: if_splits)

lemma sum_in_two_blocks_linked: "cfg_linked (fn_cfg sum_in_two_blocks)"
  by (auto simp: cfg_linked_def sum_in_two_blocks_def get_block_def new_block_def successors_def block_succs_def
      split: if_splits)

lemma sum_in_two_blocks_ssa: "single_assignment sum_in_two_blocks"
  by (auto simp: single_assignment_def sum_in_two_blocks_insts)

theorem replaced_value_computed_before_witness:
  "map_of [(3, 2)] (2 :: IrId) = (None :: IrId option) \<and>
   (\<exists>p j i q k i'. inst_at sum_in_two_blocks p j i \<and> inst_at sum_in_two_blocks q k i' \<and>
      dest i = Some 2 \<and> dest i' = Some 3 \<and> same_computation (map_of [(3, 2)]) i i' \<and>
      before sum_in_two_blocks p j q k)"
proof -
  have r: "gvn_replacements sum_in_two_blocks = Some [(3, 2)]" by code_simp
  obtain repl where "gvn_replacements sum_in_two_blocks = Some repl" and
    all: "\<forall>d e. map_of repl d = Some e \<longrightarrow>
      map_of repl e = None \<and>
      (\<exists>p j i q k i'. inst_at sum_in_two_blocks p j i \<and> inst_at sum_in_two_blocks q k i' \<and>
         dest i = Some e \<and> dest i' = Some d \<and> same_computation (map_of repl) i i' \<and>
         before sum_in_two_blocks p j q k)"
    using replaced_value_computed_before [OF sum_in_two_blocks_ssa sum_in_two_blocks_linked] by blast
  with r have "repl = [(3, 2)]" by simp
  with all [THEN spec, THEN spec, of 3 2] show ?thesis by simp
qed

section \<open>Initialisation order\<close>

text \<open>
  C27. Initialisers run after the files they need: \<open>ordered_inits\<close> lists every \<open>__init__\<close> of the module as
  often as the module has it, and where the files do not need each other in a circle, every
  \<open>__init__\<close> comes after the \<open>__init__\<close>s of all other files whose functions or globals it reaches
  through direct calls.
\<close>

theorem initialisers_run_after_needed:
  assumes "acyclic {(j, i). i \<in> set (inits_named md ''__init__'') \<and> j \<in> set (inits_named md ''__init__'') \<and>
      needs_init md i j}"
    and "ordered_inits md ''__init__'' = xs @ i # ys"
    and "j \<in> set (inits_named md ''__init__'')" and "needs_init md i j"
  shows "mset (ordered_inits md ''__init__'') = mset (inits_named md ''__init__'') \<and> j \<in> set xs"
  using ordered_inits_mset ordered_inits_sorted [OF assms(1) refl assms(2-4)] by blast

definition init_function :: "IrFunctionId \<Rightarrow> string \<Rightarrow> IrInstruction list \<Rightarrow> IrFunctionId \<times> IrFunction" where
  "init_function f name is =
     (f, sum_in_two_blocks\<lparr>fn_id := f, fn_name := name,
        fn_cfg := \<lparr>cfg_blocks = [(0, (new_block 0)\<lparr>bb_instructions := is, bb_terminator := TReturn None\<rparr>)],
                   cfg_entry_block = 0, cfg_next_block_id = 1\<rparr>\<rparr>)"

definition init_module :: IrModule where
  "init_module =
     \<lparr>mod_name = ''m'', mod_functions =
        [init_function 110000 ''__init__'' [ICallDirect None 120001 [] [] [] False],
         init_function 120000 ''__init__'' [],
         init_function 120001 ''g'' []],
      mod_externs = []\<rparr>"

lemma init_module_callees:
  "callees init_module f = (if f = 110000 then {120001} else {})"
  "touches init_module f = (if f = 110000 then {12} else {})"
  by (auto simp: callees_def touches_def init_module_def init_function_def fn_insts_def fn_blocks_def
      user_defined_def sum_in_two_blocks_def file_of_def IMPORT_BASE_def IMPORT_STRIDE_def)

lemma init_module_inits: "inits_named init_module ''__init__'' = [110000, 120000]"
  by (simp add: inits_named_def init_module_def init_function_def sum_in_two_blocks_def)

lemma init_module_reach: "call_reach init_module 120000 k \<Longrightarrow> k = 120000"
  by (induction rule: call_reach.induct) (simp_all add: init_module_callees)

lemma init_module_deps:
  "init_deps init_module [110000, 120000] 110000 = {12}"
  "init_deps init_module [110000, 120000] 120000 = {}"
  by (auto simp: init_deps_iff init_module_callees file_of_def IMPORT_BASE_def IMPORT_STRIDE_def
      intro: call_self dest: init_module_reach split: if_splits)

lemmas order_unfold = run_order.simps pick_init_def position_def init_ready_def remove_at_def file_of_def
  IMPORT_BASE_def IMPORT_STRIDE_def upt_rec Let_def

lemma init_module_order: "ordered_inits init_module ''__init__'' = [120000] @ 110000 # []"
  by (simp add: ordered_inits_def init_module_inits init_module_deps order_unfold)

theorem initialisers_run_after_needed_witness:
  "mset (ordered_inits init_module ''__init__'') = mset (inits_named init_module ''__init__'') \<and>
   120000 \<in> set [120000 :: IrFunctionId]"
proof (rule initialisers_run_after_needed)
  let ?inits = "inits_named init_module ''__init__''"
  note inits = init_module_inits
  show needs: "needs_init init_module 110000 120000"
    unfolding needs_init_def
    by (auto simp: file_of_def IMPORT_BASE_def IMPORT_STRIDE_def init_module_callees intro: call_self)
  have "\<not> needs_init init_module 120000 110000"
    by (auto simp: needs_init_def init_module_callees dest: init_module_reach)
  moreover have "\<not> needs_init init_module i i" for i by (simp add: needs_init_def)
  ultimately have "{(j, i). i \<in> set ?inits \<and> j \<in> set ?inits \<and> needs_init init_module i j} = {(120000, 110000)}"
    using needs by (auto simp: inits)
  then show "acyclic {(j, i). i \<in> set ?inits \<and> j \<in> set ?inits \<and> needs_init init_module i j}"
    by (simp add: acyclic_insert) (simp add: acyclic_def)
  show "ordered_inits init_module ''__init__'' = [120000] @ 110000 # []"
    by (rule init_module_order)
  show "120000 \<in> set ?inits" by (simp add: inits)
qed

text \<open>
  In a circle the earliest remaining \<open>__init__\<close> goes next, whether it is part of the circle or not: the
  first file below needs the second, which needs the third and is needed by it, and runs before both.
\<close>

lemma bystander_of_circle_runs_first:
  "run_order (\<lambda>i. if i = 110000 then {12} else if i = 120000 then {13} else {12}) {}
     [110000, 120000, 130000] = [110000, 120000, 130000]"
  by (simp add: order_unfold)

end
