(* ===== verification/HaxeAst.thy ===== *)
theory HaxeAst
  imports Prelude
begin

text \<open>
  The expressions of the Haxe syntax tree (\<open>parser/src/haxe_ast.rs\<close>) as the macro system reads them.
  Type annotations, metadata and the spans of inner clauses, which neither the bytecode compiler nor
  the machine looks at, are left out; every variant of \<open>ExprKind\<close> is kept. Integers are the 64 bits of an \<open>i64\<close>, floats those of an \<open>f64\<close>, and a
  string is the list of its characters.
\<close>

record Span =
  sp_start :: nat
  sp_end :: nat

record TypePath =
  tp_package :: "string list"
  tp_name :: string
  tp_sub :: "string option"

record FunctionParam =
  fp_name :: string
  fp_optional :: bool
  fp_rest :: bool

datatype HxUnaryOp =
    HNot | HNeg | HBitNot | HPreIncr | HPreDecr | HPostIncr | HPostDecr | HPostNot

datatype HxBinaryOp =
    HAdd | HSub | HMul | HDiv | HMod
  | HEq | HNotEq | HLt | HLe | HGt | HGe
  | HAnd | HOr
  | HBitAnd | HBitOr | HBitXor | HShl | HShr | HUshr
  | HRange | HArrow | HIs | HNullCoal | HIn

datatype HxAssignOp =
    HAssign | HAddAssign | HSubAssign | HMulAssign | HDivAssign | HModAssign
  | HAndAssign | HOrAssign | HXorAssign | HShlAssign | HShrAssign | HUshrAssign

text \<open>
  The variants the bytecode compiler has no case for: it reads nothing of what they hold. The same
  goes for the patterns other than constants, variables and \<open>_\<close>.
\<close>

datatype UnsupportedKind =
    USuper | URegex | USpread | UTuple | UMacroType | UArrayComprehension | UMapComprehension
  | UTypeDecl | UCompilerSpecific

datatype UnsupportedPattern =
    UpConstructor | UpArray | UpArrayRest | UpObject | UpType | UpNull | UpOr | UpExtractor | UpBind

text \<open>Parts of expressions, over the type of the expressions they hold.\<close>

datatype 'e StringPart = SpLiteral string | SpInterpolation 'e

datatype 'e BlockElement = BlExpr 'e | BlImport | BlUsing | BlConditional

datatype 'e Pattern = PConst 'e | PVar string | PUnderscore | PUnsupported UnsupportedPattern

datatype 'e Case = Case (case_patterns: "'e Pattern list") (case_guard: "'e option") (case_body: 'e)

text \<open>
  The variants of \<open>ExprKind\<close> in six groups, each a datatype of its own; \<open>EInt\<close> and so on are the
  source's variants.
\<close>

datatype Literal =
    XInt u64
  | XFloat u64
  | XString string
  | XBool bool
  | XNull
  | XThis
  | XIdent string

datatype 'e Operation =
    XField 'e string bool
  | XIndex 'e 'e
  | XCall 'e "'e list"
  | XNew TypePath "'e list"
  | XUnary HxUnaryOp 'e
  | XBinary 'e HxBinaryOp 'e
  | XAssign 'e HxAssignOp 'e
  | XTernary 'e 'e 'e

datatype 'e Collection =
    XArray "'e list"
  | XMap "('e \<times> 'e) list"
  | XObject "(string \<times> 'e) list"
  | XStringInterpolation "'e StringPart list"
  | XBlock "'e BlockElement list"

datatype 'e Declaration =
    XVar string "'e option"
  | XFinal string "'e option"
  | XFunction string "FunctionParam list" "'e option"
  | XArrow "string list" 'e

datatype 'e Control =
    XReturn "'e option"
  | XBreak
  | XContinue
  | XThrow 'e
  | XIf 'e 'e "'e option"
  | XSwitch 'e "'e Case list" "'e option"
  | XFor string "string option" 'e 'e
  | XWhile 'e 'e
  | XDoWhile 'e 'e
  | XTry 'e "(string \<times> 'e) list" "'e option"

datatype 'e Wrapper =
    XCast 'e
  | XTypeCheck 'e
  | XUntyped 'e
  | XMeta 'e
  | XParen 'e
  | XInline 'e
  | XMacro 'e
  | XReify 'e
  | XDollarIdent string "'e option"
  | XUnsupported UnsupportedKind

datatype 'e ExprKind =
    KLit Literal
  | KOp "'e Operation"
  | KColl "'e Collection"
  | KDecl "'e Declaration"
  | KCtl "'e Control"
  | KWrap "'e Wrapper"

abbreviation "EInt a \<equiv> KLit (XInt a)"
abbreviation "EFloat a \<equiv> KLit (XFloat a)"
abbreviation "EString a \<equiv> KLit (XString a)"
abbreviation "EBool a \<equiv> KLit (XBool a)"
abbreviation "ENull \<equiv> KLit (XNull)"
abbreviation "EThis \<equiv> KLit (XThis)"
abbreviation "EIdent a \<equiv> KLit (XIdent a)"

abbreviation "EField a b c \<equiv> KOp (XField a b c)"
abbreviation "EIndex a b \<equiv> KOp (XIndex a b)"
abbreviation "ECall a b \<equiv> KOp (XCall a b)"
abbreviation "ENew a b \<equiv> KOp (XNew a b)"
abbreviation "EUnary a b \<equiv> KOp (XUnary a b)"
abbreviation "EBinary a b c \<equiv> KOp (XBinary a b c)"
abbreviation "EAssign a b c \<equiv> KOp (XAssign a b c)"
abbreviation "ETernary a b c \<equiv> KOp (XTernary a b c)"

abbreviation "EArray a \<equiv> KColl (XArray a)"
abbreviation "EMap a \<equiv> KColl (XMap a)"
abbreviation "EObject a \<equiv> KColl (XObject a)"
abbreviation "EStringInterpolation a \<equiv> KColl (XStringInterpolation a)"
abbreviation "EBlock a \<equiv> KColl (XBlock a)"

abbreviation "EVar a b \<equiv> KDecl (XVar a b)"
abbreviation "EFinal a b \<equiv> KDecl (XFinal a b)"
abbreviation "EFunction a b c \<equiv> KDecl (XFunction a b c)"
abbreviation "EArrow a b \<equiv> KDecl (XArrow a b)"

abbreviation "EReturn a \<equiv> KCtl (XReturn a)"
abbreviation "EBreak \<equiv> KCtl (XBreak)"
abbreviation "EContinue \<equiv> KCtl (XContinue)"
abbreviation "EThrow a \<equiv> KCtl (XThrow a)"
abbreviation "EIf a b c \<equiv> KCtl (XIf a b c)"
abbreviation "ESwitch a b c \<equiv> KCtl (XSwitch a b c)"
abbreviation "EFor a b c d \<equiv> KCtl (XFor a b c d)"
abbreviation "EWhile a b \<equiv> KCtl (XWhile a b)"
abbreviation "EDoWhile a b \<equiv> KCtl (XDoWhile a b)"
abbreviation "ETry a b c \<equiv> KCtl (XTry a b c)"

abbreviation "ECast a \<equiv> KWrap (XCast a)"
abbreviation "ETypeCheck a \<equiv> KWrap (XTypeCheck a)"
abbreviation "EUntyped a \<equiv> KWrap (XUntyped a)"
abbreviation "EMeta a \<equiv> KWrap (XMeta a)"
abbreviation "EParen a \<equiv> KWrap (XParen a)"
abbreviation "EInline a \<equiv> KWrap (XInline a)"
abbreviation "EMacro a \<equiv> KWrap (XMacro a)"
abbreviation "EReify a \<equiv> KWrap (XReify a)"
abbreviation "EDollarIdent a b \<equiv> KWrap (XDollarIdent a b)"
abbreviation "EUnsupported a \<equiv> KWrap (XUnsupported a)"

datatype Expr = Expr (e_kind: "Expr ExprKind") (e_span: Span)

text \<open>\<open>MacroParam\<close> of \<open>macro_system/value.rs\<close>, without its type and its default, which are not compiled.\<close>

record MacroParam =
  mp_name :: string
  mp_optional :: bool
  mp_rest :: bool

definition from_function_param :: "FunctionParam \<Rightarrow> MacroParam" where
  "from_function_param p =
     \<lparr>mp_name = fp_name p, mp_optional = fp_optional p, mp_rest = fp_rest p\<rparr>"

end
