(* ===== verification/MacroVal.thy ===== *)
theory MacroVal
  imports HaxeAst FloatBits "HOL-Library.Char_ord" "HOL-Library.List_Lexorder"
begin

text \<open>
  The values of the macro system (\<open>macro_system/value.rs\<close>). An \<open>Arc\<close> is the number of its
  allocation beside its contents: two values share storage exactly where the numbers agree, which is
  what \<open>Arc::ptr_eq\<close> and \<open>reference_key\<close> look at. \<open>Arc::make_mut\<close> on a storage somebody else holds
  too allocates, so operations that write take the next free number and return it moved on. A
  function value is its name: the code it runs and the variables it captured belong to the
  tree-walking interpreter. Strings are lists of characters below 256, in the order of their codes.
\<close>

record SourceLocation =
  loc_file :: nat
  loc_line :: nat
  loc_column :: nat
  loc_byte_offset :: nat

datatype MacroValue =
    MNull
  | MAbstract string nat MacroValue
  | MBool bool
  | MInt u64
  | MFloat u64
  | MString string
  | MArray nat "MacroValue list"
  | MMap nat "(MacroValue \<times> MacroValue) list"
  | MObject nat "(string \<times> MacroValue) list"
  | MEnum string string nat "MacroValue list"
  | MExpr nat Expr
  | MType nat
  | MClass string
  | MFunction nat string
  | MPosition SourceLocation

text \<open>What the standard library and the table of open files contribute to the texts of values.\<close>

record Host =
  h_float_text :: "u64 \<Rightarrow> string"
  h_parse_float :: "string \<Rightarrow> u64 option"
  h_lower :: "string \<Rightarrow> string"
  h_upper :: "string \<Rightarrow> string"
  h_position :: "SourceLocation \<Rightarrow> string option"

section \<open>Identity\<close>

fun underlying :: "MacroValue \<Rightarrow> MacroValue" where
  "underlying (MAbstract n a inner) = underlying inner"
| "underlying v = v"

fun reference_key :: "MacroValue \<Rightarrow> (nat \<times> nat) option" where
  "reference_key (MObject a fs) = Some (0, a)"
| "reference_key (MArray a vs) = Some (1, a)"
| "reference_key (MEnum n v a vs) = Some (2, a)"
| "reference_key (MMap a es) = Some (3, a)"
| "reference_key (MExpr a e) = Some (4, a)"
| "reference_key (MFunction a n) = Some (5, a)"
| "reference_key (MAbstract n a v) = Some (6, a)"
| "reference_key _ = None"

definition same_reference :: "MacroValue \<Rightarrow> MacroValue \<Rightarrow> bool" where
  "same_reference v w =
     (case v of
        MObject a _ \<Rightarrow> (case w of MObject b _ \<Rightarrow> a = b | _ \<Rightarrow> False)
      | MArray a _ \<Rightarrow> (case w of MArray b _ \<Rightarrow> a = b | _ \<Rightarrow> False)
      | MMap a _ \<Rightarrow> (case w of MMap b _ \<Rightarrow> a = b | _ \<Rightarrow> False)
      | MExpr a _ \<Rightarrow> (case w of MExpr b _ \<Rightarrow> a = b | _ \<Rightarrow> False)
      | MFunction a _ \<Rightarrow> (case w of MFunction b _ \<Rightarrow> a = b | _ \<Rightarrow> False)
      | MAbstract m a _ \<Rightarrow> (case w of MAbstract n b _ \<Rightarrow> m = n \<and> a = b | _ \<Rightarrow> False)
      | MEnum m u a _ \<Rightarrow> (case w of MEnum n x b _ \<Rightarrow> m = n \<and> u = x \<and> a = b | _ \<Rightarrow> False)
      | _ \<Rightarrow> False)"

section \<open>Equality\<close>

definition f64_eq :: "u64 \<Rightarrow> u64 \<Rightarrow> bool" where
  "f64_eq a b = fl_eq (f64_of a) (f64_of b)"

text \<open>
  \<open>PartialEq\<close>: an abstract on either side compares as the value inside. The source strips the left
  one first and then the right one; reading the right operand through \<open>underlying\<close> is the same.
\<close>

fun macro_eq :: "MacroValue \<Rightarrow> MacroValue \<Rightarrow> bool"
  and macro_eqs :: "MacroValue list \<Rightarrow> MacroValue list \<Rightarrow> bool" where
  "macro_eq (MAbstract n a x) w = macro_eq x w"
| "macro_eq (MClass a) w = (case underlying w of MClass b \<Rightarrow> a = b | _ \<Rightarrow> False)"
| "macro_eq MNull w = (underlying w = MNull)"
| "macro_eq (MBool a) w = (case underlying w of MBool b \<Rightarrow> a = b | _ \<Rightarrow> False)"
| "macro_eq (MInt a) w =
     (case underlying w of
        MInt b \<Rightarrow> a = b | MFloat b \<Rightarrow> f64_eq (f64_of_int (sint a)) b | _ \<Rightarrow> False)"
| "macro_eq (MFloat a) w =
     (case underlying w of
        MFloat b \<Rightarrow> f64_eq a b | MInt b \<Rightarrow> f64_eq a (f64_of_int (sint b)) | _ \<Rightarrow> False)"
| "macro_eq (MString a) w = (case underlying w of MString b \<Rightarrow> a = b | _ \<Rightarrow> False)"
| "macro_eq (MArray _ xs) w = (case underlying w of MArray _ ys \<Rightarrow> macro_eqs xs ys | _ \<Rightarrow> False)"
| "macro_eq (MEnum n1 v1 _ xs) w =
     (case underlying w of
        MEnum n2 v2 _ ys \<Rightarrow> n1 = n2 \<and> v1 = v2 \<and> macro_eqs xs ys | _ \<Rightarrow> False)"
| "macro_eq (MMap _ _) w = False"
| "macro_eq (MObject _ _) w = False"
| "macro_eq (MExpr _ _) w = False"
| "macro_eq (MType _) w = False"
| "macro_eq (MFunction _ _) w = False"
| "macro_eq (MPosition _) w = False"
| "macro_eqs [] ys = (ys = [])"
| "macro_eqs (x # xs) ys = (case ys of [] \<Rightarrow> False | y # ys' \<Rightarrow> macro_eq x y \<and> macro_eqs xs ys')"

definition map_key_eq :: "MacroValue \<Rightarrow> MacroValue \<Rightarrow> bool" where
  "map_key_eq v w =
     (let l = underlying v; r = underlying w
      in same_reference l r \<or>
         (case l of MObject _ _ \<Rightarrow> False | MArray _ _ \<Rightarrow> False | MMap _ _ \<Rightarrow> False
           | MExpr _ _ \<Rightarrow> False | MFunction _ _ \<Rightarrow> False | _ \<Rightarrow> macro_eq l r))"

section \<open>Map entries\<close>

fun insert_map_entry ::
  "(MacroValue \<times> MacroValue) list \<Rightarrow> MacroValue \<Rightarrow> MacroValue \<Rightarrow> (MacroValue \<times> MacroValue) list" where
  "insert_map_entry [] k v = [(k, v)]"
| "insert_map_entry ((k', v') # es) k v =
     (if map_key_eq k' k then (k', v) # es else (k', v') # insert_map_entry es k v)"

definition map_get :: "(MacroValue \<times> MacroValue) list \<Rightarrow> MacroValue \<Rightarrow> MacroValue" where
  "map_get es k = (case List.find (\<lambda>(k', v). map_key_eq k' k) es of Some (k', v) \<Rightarrow> v | None \<Rightarrow> MNull)"

fun remove_map_entry ::
  "(MacroValue \<times> MacroValue) list \<Rightarrow> MacroValue \<Rightarrow> (MacroValue \<times> MacroValue) list option" where
  "remove_map_entry [] k = None"
| "remove_map_entry ((k', v) # es) k =
     (if map_key_eq k' k then Some es else map_option (Cons (k', v)) (remove_map_entry es k))"

section \<open>Values of literal expressions\<close>

text \<open>
  \<open>expr_to_value\<close> of \<open>macro_system/ast_bridge.rs\<close>: literals become values, anything else stays an
  expression. The number counts the storages it allocates.
\<close>

function expr_to_value :: "Expr \<Rightarrow> nat \<Rightarrow> MacroValue \<times> nat"
  and exprs_to_values :: "Expr list \<Rightarrow> nat \<Rightarrow> MacroValue list \<times> nat"
  and fields_to_values :: "(string \<times> Expr) list \<Rightarrow> (string \<times> MacroValue) list \<Rightarrow> nat \<Rightarrow>
        (string \<times> MacroValue) list \<times> nat"
  and entries_to_values :: "(Expr \<times> Expr) list \<Rightarrow> (MacroValue \<times> MacroValue) list \<Rightarrow> nat \<Rightarrow>
        (MacroValue \<times> MacroValue) list \<times> nat" where
  "expr_to_value (Expr k sp) n =
     (case k of
        EInt i \<Rightarrow> (MInt i, n)
      | EFloat f \<Rightarrow> (MFloat f, n)
      | EString s \<Rightarrow> (MString s, n)
      | EBool b \<Rightarrow> (MBool b, n)
      | ENull \<Rightarrow> (MNull, n)
      | EArray es \<Rightarrow> (let (vs, n1) = exprs_to_values es n in (MArray n1 vs, n1 + 1))
      | EObject fs \<Rightarrow> (let (m, n1) = fields_to_values fs [] n in (MObject n1 m, n1 + 1))
      | EMap es \<Rightarrow> (let (m, n1) = entries_to_values es [] n in (MMap n1 m, n1 + 1))
      | EUnary HNeg inner \<Rightarrow>
          (case e_kind inner of
             EInt i \<Rightarrow> (MInt (- i), n)
           | EFloat f \<Rightarrow> (MFloat (f64_neg f), n)
           | _ \<Rightarrow> (MExpr n (Expr k sp), n + 1))
      | _ \<Rightarrow> (MExpr n (Expr k sp), n + 1))"
| "exprs_to_values [] n = ([], n)"
| "exprs_to_values (e # es) n =
     (let (v, n1) = expr_to_value e n; (vs, n2) = exprs_to_values es n1 in (v # vs, n2))"
| "fields_to_values [] m n = (m, n)"
| "fields_to_values ((name, e) # fs) m n =
     (let (v, n1) = expr_to_value e n in fields_to_values fs (bt_insert name v m) n1)"
| "entries_to_values [] m n = (m, n)"
| "entries_to_values ((k, e) # es) m n =
     (let (kv, n1) = expr_to_value k n; (v, n2) = expr_to_value e n1
      in entries_to_values es (insert_map_entry m kv v) n2)"
  by pat_completeness auto
termination
  by (relation "measure (\<lambda>x. case x of
        Inl (Inl (e, n)) \<Rightarrow> size e
      | Inl (Inr (es, n)) \<Rightarrow> size_list size es
      | Inr (Inl (fs, m, n)) \<Rightarrow> size_list (size_prod (\<lambda>_. 0) size) fs
      | Inr (Inr (es, m, n)) \<Rightarrow> size_list (size_prod size size) es)") auto

text \<open>\<open>unwrap_expr_value\<close> of an expression value: a literal is its value, anything else itself.\<close>

definition unwrap_expr :: "nat \<Rightarrow> Expr \<Rightarrow> MacroValue" where
  "unwrap_expr a e =
     (case fst (expr_to_value e 0) of MExpr _ _ \<Rightarrow> MExpr a e | v \<Rightarrow> v)"

section \<open>Reading a value\<close>

fun type_name :: "MacroValue \<Rightarrow> string" where
  "type_name (MAbstract n a inner) = type_name inner"
| "type_name MNull = ''Null''"
| "type_name (MBool b) = ''Bool''"
| "type_name (MInt i) = ''Int''"
| "type_name (MFloat f) = ''Float''"
| "type_name (MString s) = ''String''"
| "type_name (MArray a vs) = ''Array''"
| "type_name (MMap a es) = ''Map''"
| "type_name (MObject a fs) = ''Object''"
| "type_name (MEnum n v a vs) = ''Enum''"
| "type_name (MExpr a e) = ''Expr''"
| "type_name (MType t) = ''Type''"
| "type_name (MClass n) = ''Class''"
| "type_name (MFunction a n) = ''Function''"
| "type_name (MPosition p) = ''Position''"

text \<open>
  \<open>is_truthy\<close>, \<open>as_int\<close> and \<open>as_float\<close> of an expression are those of its literal, which holds no
  expression at its head; \<open>with_literal\<close> is that unwrapping.
\<close>

definition with_literal :: "'a \<Rightarrow> (MacroValue \<Rightarrow> 'a) \<Rightarrow> nat \<Rightarrow> Expr \<Rightarrow> 'a" where
  "with_literal d f a e = (case unwrap_expr a e of MExpr _ _ \<Rightarrow> d | v \<Rightarrow> f v)"

fun truthy_literal :: "MacroValue \<Rightarrow> bool" where
  "truthy_literal MNull = False"
| "truthy_literal (MBool b) = b"
| "truthy_literal (MInt i) = (i \<noteq> 0)"
| "truthy_literal (MFloat f) = (\<not> f64_eq f 0)"
| "truthy_literal (MString s) = (s \<noteq> [])"
| "truthy_literal (MArray a vs) = (vs \<noteq> [])"
| "truthy_literal _ = True"

fun is_truthy :: "MacroValue \<Rightarrow> bool" where
  "is_truthy (MAbstract n a inner) = is_truthy inner"
| "is_truthy (MExpr a e) = with_literal True truthy_literal a e"
| "is_truthy v = truthy_literal v"

definition f64_as_i64 :: "u64 \<Rightarrow> u64" where
  "f64_as_i64 f = word_of_int (fl_as_int (- (2 ^ 63)) (2 ^ 63 - 1) (f64_of f))"

fun int_literal :: "MacroValue \<Rightarrow> u64 option" where
  "int_literal (MInt i) = Some i"
| "int_literal (MFloat f) = Some (f64_as_i64 f)"
| "int_literal (MBool b) = Some (if b then 1 else 0)"
| "int_literal _ = None"

fun as_int :: "MacroValue \<Rightarrow> u64 option" where
  "as_int (MAbstract n a inner) = as_int inner"
| "as_int (MExpr a e) = with_literal None int_literal a e"
| "as_int v = int_literal v"

fun float_literal :: "MacroValue \<Rightarrow> u64 option" where
  "float_literal (MFloat f) = Some f"
| "float_literal (MInt i) = Some (f64_of_int (sint i))"
| "float_literal _ = None"

fun as_float :: "MacroValue \<Rightarrow> u64 option" where
  "as_float (MAbstract n a inner) = as_float inner"
| "as_float (MExpr a e) = with_literal None float_literal a e"
| "as_float v = float_literal v"

fun as_string :: "MacroValue \<Rightarrow> string option" where
  "as_string (MAbstract n a inner) = as_string inner"
| "as_string (MString s) = Some s"
| "as_string _ = None"

section \<open>Texts\<close>

fun show_nat :: "nat \<Rightarrow> string" where
  "show_nat n = (if n < 10 then [char_of (48 + n)] else show_nat (n div 10) @ [char_of (48 + n mod 10)])"

declare show_nat.simps [simp del]

definition show_int :: "int \<Rightarrow> string" where
  "show_int i = (if i < 0 then ''-'' @ show_nat (nat (- i)) else show_nat (nat i))"

fun join_texts :: "string \<Rightarrow> string list \<Rightarrow> string" where
  "join_texts sep [] = []"
| "join_texts sep [s] = s"
| "join_texts sep (s # t # ss) = s @ sep @ join_texts sep (t # ss)"

text \<open>A float without a fraction is written with one decimal.\<close>

fun fl_integral :: "fl \<Rightarrow> (bool \<times> nat) option" where
  "fl_integral (FFin s m e) =
     (if 0 \<le> e then Some (s, nat (m * 2 ^ nat e))
      else if m mod 2 ^ nat (- e) = 0 then Some (s, nat (m div 2 ^ nat (- e)))
      else None)"
| "fl_integral _ = None"

definition display_float :: "Host \<Rightarrow> u64 \<Rightarrow> string" where
  "display_float h f =
     (case fl_integral (f64_of f) of
        Some (s, n) \<Rightarrow> (if s then ''-'' else []) @ show_nat n @ ''.0''
      | None \<Rightarrow> h_float_text h f)"

definition is_error_object :: "(string \<times> MacroValue) list \<Rightarrow> bool" where
  "is_error_object fs = (map_of fs ''__type__'' = Some (MString ''haxe.macro.Error''))"

function display_with :: "Host \<Rightarrow> (nat \<Rightarrow> Expr \<Rightarrow> string) \<Rightarrow> MacroValue \<Rightarrow> string"
  and display_list :: "Host \<Rightarrow> (nat \<Rightarrow> Expr \<Rightarrow> string) \<Rightarrow> MacroValue list \<Rightarrow> string list"
  and display_entries ::
    "Host \<Rightarrow> (nat \<Rightarrow> Expr \<Rightarrow> string) \<Rightarrow> (MacroValue \<times> MacroValue) list \<Rightarrow> string list"
  and display_fields ::
    "Host \<Rightarrow> (nat \<Rightarrow> Expr \<Rightarrow> string) \<Rightarrow> (string \<times> MacroValue) list \<Rightarrow> (string \<times> string) list" where
  "display_with h d (MAbstract n a inner) = display_with h d inner"
| "display_with h d MNull = ''null''"
| "display_with h d (MBool b) = (if b then ''true'' else ''false'')"
| "display_with h d (MInt i) = show_int (sint i)"
| "display_with h d (MFloat f) = display_float h f"
| "display_with h d (MString s) = s"
| "display_with h d (MArray a vs) = ''['' @ join_texts '','' (display_list h d vs) @ '']''"
| "display_with h d (MMap a es) = ''['' @ join_texts '', '' (display_entries h d es) @ '']''"
| "display_with h d (MObject a fs) =
     (let ts = display_fields h d fs in
      if is_error_object fs then (case map_of ts ''message'' of Some m \<Rightarrow> m | None \<Rightarrow> [])
      else ''{'' @ join_texts '', '' (map (\<lambda>(k, t). k @ '': '' @ t) ts) @ ''}'')"
| "display_with h d (MEnum n v a vs) =
     (if vs = [] then v else v @ ''('' @ join_texts '','' (display_list h d vs) @ '')'')"
| "display_with h d (MExpr a e) = d a e"
| "display_with h d (MType t) = ''<type>''"
| "display_with h d (MClass n) = ''Class<'' @ n @ ''>''"
| "display_with h d (MFunction a n) = ''<function:'' @ n @ ''>''"
| "display_with h d (MPosition p) =
     (case h_position h p of
        Some s \<Rightarrow> s | None \<Rightarrow> show_nat (loc_file p) @ '':'' @ show_nat (loc_line p))"
| "display_list h d [] = []"
| "display_list h d (v # vs) = display_with h d v # display_list h d vs"
| "display_entries h d [] = []"
| "display_entries h d ((k, v) # es) =
     (display_with h d k @ '' => '' @ display_with h d v) # display_entries h d es"
| "display_fields h d [] = []"
| "display_fields h d ((k, v) # fs) = (k, display_with h d v) # display_fields h d fs"
  by pat_completeness auto
termination
  by (relation "measure (\<lambda>x. case x of
        Inl (Inl (_, _, v)) \<Rightarrow> size v
      | Inl (Inr (_, _, vs)) \<Rightarrow> size_list size vs
      | Inr (Inl (_, _, es)) \<Rightarrow> size_list (size_prod size size) es
      | Inr (Inr (_, _, fs)) \<Rightarrow> size_list (size_prod (\<lambda>_. 0) size) fs)") auto

text \<open>The literal of an expression holds only expressions that are no literals.\<close>

definition to_display_string :: "Host \<Rightarrow> MacroValue \<Rightarrow> string" where
  "to_display_string h =
     display_with h (\<lambda>a e. display_with h (\<lambda>_ _. ''<expr>'') (unwrap_expr a e))"

section \<open>Maps and iterators\<close>

text \<open>The iterator object with its two functions: three allocations.\<close>

definition array_iterator :: "nat \<Rightarrow> MacroValue \<times> nat" where
  "array_iterator n =
     (MObject n
        [(''__type__'', MString ''haxe.iterators.ArrayIterator''),
         (''hasNext'', MFunction (n + 1) ''<iterator.hasNext>''),
         (''next'', MFunction (n + 2) ''<iterator.next>'')], n + 3)"

fun map_method ::
  "Host \<Rightarrow> MacroValue \<Rightarrow> string \<Rightarrow> MacroValue list \<Rightarrow> nat \<Rightarrow> (MacroValue \<times> nat) option" where
  "map_method h (MMap a es) m args n =
     (if m = ''get'' then (case args of [] \<Rightarrow> None | k # _ \<Rightarrow> Some (map_get es k, n))
      else if m = ''exists'' then
        Some (MBool (\<exists>(k, v) \<in> set es. map_key_eq k (case args of [] \<Rightarrow> MNull | k' # _ \<Rightarrow> k')), n)
      else if m \<in> {''keys'', ''iterator'', ''keyValueIterator''} then Some (array_iterator n)
      else if m = ''copy'' then Some (MMap n es, n + 1)
      else if m = ''toString'' then Some (MString (to_display_string h (MMap a es)), n)
      else None)"
| "map_method h _ m args n = None"

text \<open>The method's result, the map after it, and the numbers still free.\<close>

fun mutate_map ::
  "MacroValue \<Rightarrow> string \<Rightarrow> MacroValue list \<Rightarrow> nat \<Rightarrow> (MacroValue \<times> MacroValue \<times> nat) option" where
  "mutate_map (MMap a es) m args n =
     (if m = ''set'' then
        (case args of k # v # _ \<Rightarrow> Some (MNull, MMap n (insert_map_entry es k v), n + 1) | _ \<Rightarrow> None)
      else if m = ''remove'' then
        (case args of
           [] \<Rightarrow> None
         | k # _ \<Rightarrow> (case remove_map_entry es k of
                     Some es' \<Rightarrow> Some (MBool True, MMap n es', n + 1)
                   | None \<Rightarrow> Some (MBool False, MMap a es, n)))
      else if m = ''clear'' then Some (MNull, MMap n [], n + 1)
      else None)"
| "mutate_map _ m args n = None"

section \<open>Replacing a storage\<close>

text \<open>
  \<open>replace_reference\<close>: every value that shares the old storage becomes the new one, all through a
  value, and a storage that changed is copied once: the table \<open>updates.values\<close> holds what became of
  each storage already visited. The index that lets the source skip storages older than the
  replaced one is not part of the model; neither are the cells functions captured.
\<close>

type_synonym Updates = "((nat \<times> nat) \<times> MacroValue \<times> bool) list \<times> nat"

definition visit_once ::
  "MacroValue \<Rightarrow> (Updates \<Rightarrow> MacroValue \<times> bool \<times> Updates) \<Rightarrow> Updates \<Rightarrow> MacroValue \<times> bool \<times> Updates" where
  "visit_once v f u =
     (case reference_key v of
        None \<Rightarrow> (v, False, u)
      | Some key \<Rightarrow>
          (case map_of (fst u) key of
             Some (w, changed) \<Rightarrow> (if changed then w else v, changed, u)
           | None \<Rightarrow> (let (w, changed, u') = f u
                     in (w, changed, ((key, w, changed) # fst u', snd u')))))"

text \<open>A storage is copied where one of its values changed.\<close>

definition rebuild ::
  "MacroValue \<Rightarrow> (nat \<Rightarrow> 'a \<Rightarrow> MacroValue) \<Rightarrow> 'a \<times> bool \<times> Updates \<Rightarrow> MacroValue \<times> bool \<times> Updates" where
  "rebuild v mk r =
     (case r of (x, changed, us, n) \<Rightarrow>
        if changed then (mk n x, True, us, n + 1) else (v, False, us, n))"

lemma visit_once_cong [fundef_cong]:
  "v = v' \<Longrightarrow> u = u' \<Longrightarrow> (\<And>x. f x = g x) \<Longrightarrow> visit_once v f u = visit_once v' g u'"
  by (simp add: visit_once_def split: option.splits)

function replace_reference ::
  "MacroValue \<Rightarrow> MacroValue \<Rightarrow> MacroValue \<Rightarrow> Updates \<Rightarrow> MacroValue \<times> bool \<times> Updates"
  and replace_values :: "MacroValue \<Rightarrow> MacroValue \<Rightarrow> MacroValue list \<Rightarrow> Updates \<Rightarrow>
        MacroValue list \<times> bool \<times> Updates"
  and replace_fields :: "MacroValue \<Rightarrow> MacroValue \<Rightarrow> (string \<times> MacroValue) list \<Rightarrow> Updates \<Rightarrow>
        (string \<times> MacroValue) list \<times> bool \<times> Updates"
  and replace_entries :: "MacroValue \<Rightarrow> MacroValue \<Rightarrow> (MacroValue \<times> MacroValue) list \<Rightarrow> Updates \<Rightarrow>
        (MacroValue \<times> MacroValue) list \<times> bool \<times> Updates" where
  "replace_reference old new v u =
     (if same_reference v old then (new, True, u)
      else
        (case v of
           MAbstract s a inner \<Rightarrow> rebuild v (MAbstract s) (replace_reference old new inner u)
         | MObject a fs \<Rightarrow> visit_once v (\<lambda>u. rebuild v MObject (replace_fields old new fs u)) u
         | MArray a vs \<Rightarrow> visit_once v (\<lambda>u. rebuild v MArray (replace_values old new vs u)) u
         | MEnum s t a vs \<Rightarrow> visit_once v (\<lambda>u. rebuild v (MEnum s t) (replace_values old new vs u)) u
         | MMap a es \<Rightarrow> visit_once v (\<lambda>u. rebuild v MMap (replace_entries old new es u)) u
         | _ \<Rightarrow> (v, False, u)))"
| "replace_values old new [] u = ([], False, u)"
| "replace_values old new (v # vs) u =
     (let (v', c1, u1) = replace_reference old new v u; (vs', c2, u2) = replace_values old new vs u1
      in (v' # vs', c1 \<or> c2, u2))"
| "replace_fields old new [] u = ([], False, u)"
| "replace_fields old new ((s, v) # fs) u =
     (let (v', c1, u1) = replace_reference old new v u; (fs', c2, u2) = replace_fields old new fs u1
      in ((s, v') # fs', c1 \<or> c2, u2))"
| "replace_entries old new [] u = ([], False, u)"
| "replace_entries old new ((k, v) # es) u =
     (let (k', c1, u1) = replace_reference old new k u;
          (v', c2, u2) = replace_reference old new v u1;
          (es', c3, u3) = replace_entries old new es u2
      in ((k', v') # es', c1 \<or> c2 \<or> c3, u3))"
  by pat_completeness auto
termination
  by (relation "measure (\<lambda>x. case x of
        Inl (Inl (_, _, v, _)) \<Rightarrow> size v
      | Inl (Inr (_, _, vs, _)) \<Rightarrow> size_list size vs
      | Inr (Inl (_, _, fs, _)) \<Rightarrow> size_list (size_prod (\<lambda>_. 0) size) fs
      | Inr (Inr (_, _, es, _)) \<Rightarrow> size_list (size_prod size size) es)") auto

declare replace_reference.simps [simp del]

end
