(* ===== verification/BcOpcode.thy ===== *)
theory BcOpcode
  imports Prelude
begin

text \<open>
  Bytecode of the macro machine (\<open>macro_system/bytecode/opcode.rs\<close>): the operations with their
  bytes, the emitter that writes code and the reader that takes it apart. Code is a list of bytes;
  operands are little-endian.
\<close>

section \<open>Operations\<close>

datatype (plugins only: code size) BcOp =
    BcConst | BcPushNull | BcPushTrue | BcPushFalse | BcPushInt0 | BcPushInt1
  | BcPop | BcLoadLocal | BcStoreLocal | BcDefineLocal | BcLoadUpvalue | BcAdd
  | BcSub | BcMul | BcDiv | BcMod | BcEq | BcNotEq
  | BcLt | BcLe | BcGt | BcGe | BcBitAnd | BcBitOr
  | BcBitXor | BcShl | BcShr | BcUshr | BcNullCoal | BcNot
  | BcNeg | BcBitNot | BcIncr | BcDecr | BcJump | BcJumpIfFalse
  | BcJumpIfTrue | BcJumpIfFalseKeep | BcJumpIfTrueKeep | BcCall | BcCallMethod | BcCallStatic
  | BcCallBuiltin | BcCallMacroDef | BcReturn | BcReturnNull | BcGetField | BcSetField
  | BcGetFieldOpt | BcGetIndex | BcSetIndex | BcMakeArray | BcMakeObject | BcMakeMap
  | BcMakeClosure | BcNewObject | BcReify | BcDollarSplice | BcMacroWrap | BcSetFieldLocal
  | BcDup | BcSwap

text \<open>\<open>op as u8\<close>.\<close>

fun op_byte :: "BcOp \<Rightarrow> u8" where
  "op_byte BcConst = 0x00"
| "op_byte BcPushNull = 0x01"
| "op_byte BcPushTrue = 0x02"
| "op_byte BcPushFalse = 0x03"
| "op_byte BcPushInt0 = 0x04"
| "op_byte BcPushInt1 = 0x05"
| "op_byte BcPop = 0x06"
| "op_byte BcLoadLocal = 0x07"
| "op_byte BcStoreLocal = 0x08"
| "op_byte BcDefineLocal = 0x09"
| "op_byte BcLoadUpvalue = 0x0A"
| "op_byte BcAdd = 0x10"
| "op_byte BcSub = 0x11"
| "op_byte BcMul = 0x12"
| "op_byte BcDiv = 0x13"
| "op_byte BcMod = 0x14"
| "op_byte BcEq = 0x15"
| "op_byte BcNotEq = 0x16"
| "op_byte BcLt = 0x17"
| "op_byte BcLe = 0x18"
| "op_byte BcGt = 0x19"
| "op_byte BcGe = 0x1A"
| "op_byte BcBitAnd = 0x1B"
| "op_byte BcBitOr = 0x1C"
| "op_byte BcBitXor = 0x1D"
| "op_byte BcShl = 0x1E"
| "op_byte BcShr = 0x1F"
| "op_byte BcUshr = 0x20"
| "op_byte BcNullCoal = 0x21"
| "op_byte BcNot = 0x28"
| "op_byte BcNeg = 0x29"
| "op_byte BcBitNot = 0x2A"
| "op_byte BcIncr = 0x2B"
| "op_byte BcDecr = 0x2C"
| "op_byte BcJump = 0x30"
| "op_byte BcJumpIfFalse = 0x31"
| "op_byte BcJumpIfTrue = 0x32"
| "op_byte BcJumpIfFalseKeep = 0x33"
| "op_byte BcJumpIfTrueKeep = 0x34"
| "op_byte BcCall = 0x38"
| "op_byte BcCallMethod = 0x39"
| "op_byte BcCallStatic = 0x3A"
| "op_byte BcCallBuiltin = 0x3B"
| "op_byte BcCallMacroDef = 0x3C"
| "op_byte BcReturn = 0x3D"
| "op_byte BcReturnNull = 0x3E"
| "op_byte BcGetField = 0x40"
| "op_byte BcSetField = 0x41"
| "op_byte BcGetFieldOpt = 0x42"
| "op_byte BcGetIndex = 0x43"
| "op_byte BcSetIndex = 0x44"
| "op_byte BcMakeArray = 0x48"
| "op_byte BcMakeObject = 0x49"
| "op_byte BcMakeMap = 0x4A"
| "op_byte BcMakeClosure = 0x4B"
| "op_byte BcNewObject = 0x4C"
| "op_byte BcReify = 0x50"
| "op_byte BcDollarSplice = 0x51"
| "op_byte BcMacroWrap = 0x52"
| "op_byte BcSetFieldLocal = 0x45"
| "op_byte BcDup = 0x58"
| "op_byte BcSwap = 0x59"

definition byte_ops :: "(u8 \<times> BcOp) list" where
  "byte_ops =
     [(0x00, BcConst), (0x01, BcPushNull), (0x02, BcPushTrue), (0x03, BcPushFalse),
      (0x04, BcPushInt0), (0x05, BcPushInt1), (0x06, BcPop), (0x07, BcLoadLocal),
      (0x08, BcStoreLocal), (0x09, BcDefineLocal), (0x0A, BcLoadUpvalue), (0x10, BcAdd),
      (0x11, BcSub), (0x12, BcMul), (0x13, BcDiv), (0x14, BcMod),
      (0x15, BcEq), (0x16, BcNotEq), (0x17, BcLt), (0x18, BcLe),
      (0x19, BcGt), (0x1A, BcGe), (0x1B, BcBitAnd), (0x1C, BcBitOr),
      (0x1D, BcBitXor), (0x1E, BcShl), (0x1F, BcShr), (0x20, BcUshr),
      (0x21, BcNullCoal), (0x28, BcNot), (0x29, BcNeg), (0x2A, BcBitNot),
      (0x2B, BcIncr), (0x2C, BcDecr), (0x30, BcJump), (0x31, BcJumpIfFalse),
      (0x32, BcJumpIfTrue), (0x33, BcJumpIfFalseKeep), (0x34, BcJumpIfTrueKeep), (0x38, BcCall),
      (0x39, BcCallMethod), (0x3A, BcCallStatic), (0x3B, BcCallBuiltin), (0x3C, BcCallMacroDef),
      (0x3D, BcReturn), (0x3E, BcReturnNull), (0x40, BcGetField), (0x41, BcSetField),
      (0x42, BcGetFieldOpt), (0x43, BcGetIndex), (0x44, BcSetIndex), (0x45, BcSetFieldLocal),
      (0x48, BcMakeArray), (0x49, BcMakeObject), (0x4A, BcMakeMap), (0x4B, BcMakeClosure),
      (0x4C, BcNewObject), (0x50, BcReify), (0x51, BcDollarSplice), (0x52, BcMacroWrap),
      (0x58, BcDup), (0x59, BcSwap)]"

definition from_byte :: "u8 \<Rightarrow> BcOp option" where
  "from_byte b = map_of byte_ops b"

fun operand_size :: "BcOp \<Rightarrow> nat" where
  "operand_size BcConst = 2"
| "operand_size BcLoadLocal = 2"
| "operand_size BcStoreLocal = 2"
| "operand_size BcDefineLocal = 2"
| "operand_size BcLoadUpvalue = 2"
| "operand_size BcJump = 2"
| "operand_size BcJumpIfFalse = 2"
| "operand_size BcJumpIfTrue = 2"
| "operand_size BcJumpIfFalseKeep = 2"
| "operand_size BcJumpIfTrueKeep = 2"
| "operand_size BcCall = 1"
| "operand_size BcCallMethod = 3"
| "operand_size BcCallStatic = 5"
| "operand_size BcCallBuiltin = 3"
| "operand_size BcCallMacroDef = 3"
| "operand_size BcGetField = 2"
| "operand_size BcSetField = 2"
| "operand_size BcGetFieldOpt = 2"
| "operand_size BcMakeArray = 2"
| "operand_size BcMakeObject = 2"
| "operand_size BcMakeMap = 2"
| "operand_size BcMakeClosure = 2"
| "operand_size BcNewObject = 3"
| "operand_size BcDollarSplice = 2"
| "operand_size BcSetFieldLocal = 4"
| "operand_size _ = 0"

fun op_name :: "BcOp \<Rightarrow> string" where
  "op_name BcConst = ''Const''"
| "op_name BcPushNull = ''PushNull''"
| "op_name BcPushTrue = ''PushTrue''"
| "op_name BcPushFalse = ''PushFalse''"
| "op_name BcPushInt0 = ''PushInt0''"
| "op_name BcPushInt1 = ''PushInt1''"
| "op_name BcPop = ''Pop''"
| "op_name BcLoadLocal = ''LoadLocal''"
| "op_name BcStoreLocal = ''StoreLocal''"
| "op_name BcDefineLocal = ''DefineLocal''"
| "op_name BcLoadUpvalue = ''LoadUpvalue''"
| "op_name BcAdd = ''Add''"
| "op_name BcSub = ''Sub''"
| "op_name BcMul = ''Mul''"
| "op_name BcDiv = ''Div''"
| "op_name BcMod = ''Mod''"
| "op_name BcEq = ''Eq''"
| "op_name BcNotEq = ''NotEq''"
| "op_name BcLt = ''Lt''"
| "op_name BcLe = ''Le''"
| "op_name BcGt = ''Gt''"
| "op_name BcGe = ''Ge''"
| "op_name BcBitAnd = ''BitAnd''"
| "op_name BcBitOr = ''BitOr''"
| "op_name BcBitXor = ''BitXor''"
| "op_name BcShl = ''Shl''"
| "op_name BcShr = ''Shr''"
| "op_name BcUshr = ''Ushr''"
| "op_name BcNullCoal = ''NullCoal''"
| "op_name BcNot = ''Not''"
| "op_name BcNeg = ''Neg''"
| "op_name BcBitNot = ''BitNot''"
| "op_name BcIncr = ''Incr''"
| "op_name BcDecr = ''Decr''"
| "op_name BcJump = ''Jump''"
| "op_name BcJumpIfFalse = ''JumpIfFalse''"
| "op_name BcJumpIfTrue = ''JumpIfTrue''"
| "op_name BcJumpIfFalseKeep = ''JumpIfFalseKeep''"
| "op_name BcJumpIfTrueKeep = ''JumpIfTrueKeep''"
| "op_name BcCall = ''Call''"
| "op_name BcCallMethod = ''CallMethod''"
| "op_name BcCallStatic = ''CallStatic''"
| "op_name BcCallBuiltin = ''CallBuiltin''"
| "op_name BcCallMacroDef = ''CallMacroDef''"
| "op_name BcReturn = ''Return''"
| "op_name BcReturnNull = ''ReturnNull''"
| "op_name BcGetField = ''GetField''"
| "op_name BcSetField = ''SetField''"
| "op_name BcGetFieldOpt = ''GetFieldOpt''"
| "op_name BcGetIndex = ''GetIndex''"
| "op_name BcSetIndex = ''SetIndex''"
| "op_name BcMakeArray = ''MakeArray''"
| "op_name BcMakeObject = ''MakeObject''"
| "op_name BcMakeMap = ''MakeMap''"
| "op_name BcMakeClosure = ''MakeClosure''"
| "op_name BcNewObject = ''NewObject''"
| "op_name BcReify = ''Reify''"
| "op_name BcDollarSplice = ''DollarSplice''"
| "op_name BcMacroWrap = ''MacroWrap''"
| "op_name BcSetFieldLocal = ''SetFieldLocal''"
| "op_name BcDup = ''Dup''"
| "op_name BcSwap = ''Swap''"

lemma byte_ops_sound: "list_all (\<lambda>(b, op). op_byte op = b) byte_ops"
  by (simp add: byte_ops_def)

lemma from_byte_iff: "from_byte b = Some op \<longleftrightarrow> op_byte op = b"
proof
  assume "from_byte b = Some op"
  then show "op_byte op = b"
    using byte_ops_sound unfolding from_byte_def by (auto dest!: map_of_SomeD simp: list_all_iff)
next
  assume "op_byte op = b"
  moreover have "from_byte (op_byte op) = Some op" by (cases op) (simp_all add: from_byte_def byte_ops_def)
  ultimately show "from_byte b = Some op" by simp
qed

lemma from_byte_op_byte [simp]: "from_byte (op_byte op) = Some op"
  by (simp add: from_byte_iff)

section \<open>Bytes of operands\<close>

definition u16_le :: "u16 \<Rightarrow> u8 list" where
  "u16_le v = [ucast v, ucast (drop_bit 8 v)]"

definition of_u16_le :: "u8 \<Rightarrow> u8 \<Rightarrow> u16" where
  "of_u16_le lo hi = ucast lo OR push_bit 8 (ucast hi)"

lemma length_u16_le [simp]: "length (u16_le v) = 2"
  by (simp add: u16_le_def)

lemma of_u16_le_u16_le [simp]: "of_u16_le (ucast v) (ucast (drop_bit 8 v)) = v"
  by (rule bit_word_eqI) (auto simp: of_u16_le_def bit_or_iff bit_push_bit_iff bit_ucast_iff bit_drop_bit_eq)

section \<open>The emitter\<close>

text \<open>\<open>Emitter\<close> is its code; every function returns the code it leaves. A panic is the result \<open>None\<close>.\<close>

type_synonym Emitter = "u8 list"

definition emit_op :: "BcOp \<Rightarrow> Emitter \<Rightarrow> Emitter" where
  "emit_op op c = c @ [op_byte op]"

definition emit_u16 :: "BcOp \<Rightarrow> u16 \<Rightarrow> Emitter \<Rightarrow> Emitter" where
  "emit_u16 op v c = c @ op_byte op # u16_le v"

definition emit_i16 :: "BcOp \<Rightarrow> u16 \<Rightarrow> Emitter \<Rightarrow> Emitter" where
  "emit_i16 op v c = c @ op_byte op # u16_le v"

definition emit_u8 :: "BcOp \<Rightarrow> u8 \<Rightarrow> Emitter \<Rightarrow> Emitter" where
  "emit_u8 op v c = c @ [op_byte op, v]"

definition emit_u16_u8 :: "BcOp \<Rightarrow> u16 \<Rightarrow> u8 \<Rightarrow> Emitter \<Rightarrow> Emitter" where
  "emit_u16_u8 op a b c = c @ op_byte op # u16_le a @ [b]"

definition emit_u16_u16 :: "BcOp \<Rightarrow> u16 \<Rightarrow> u16 \<Rightarrow> Emitter \<Rightarrow> Emitter" where
  "emit_u16_u16 op a b c = c @ op_byte op # u16_le a @ u16_le b"

definition emit_u16_u16_u8 :: "BcOp \<Rightarrow> u16 \<Rightarrow> u16 \<Rightarrow> u8 \<Rightarrow> Emitter \<Rightarrow> Emitter" where
  "emit_u16_u16_u8 op a b d c = c @ op_byte op # u16_le a @ u16_le b @ [d]"

definition emit_jump :: "BcOp \<Rightarrow> Emitter \<Rightarrow> nat \<times> Emitter" where
  "emit_jump op c = (length c + 1, c @ op_byte op # u16_le 0)"

text \<open>\<open>(target - base) as i16\<close> keeps the low 16 bits of the difference.\<close>

definition jump_offset :: "nat \<Rightarrow> nat \<Rightarrow> u16" where
  "jump_offset target base = word_of_int (int target - int base)"

definition patch_bytes :: "nat \<Rightarrow> u8 list \<Rightarrow> Emitter \<Rightarrow> Emitter" where
  "patch_bytes p bs c = take p c @ bs @ drop (p + length bs) c"

definition patch_jump :: "nat \<Rightarrow> Emitter \<Rightarrow> Emitter option" where
  "patch_jump p c =
     (if p + 2 \<le> length c then Some (patch_bytes p (u16_le (jump_offset (length c) (p + 2))) c)
      else None)"

definition emit_loop :: "BcOp \<Rightarrow> nat \<Rightarrow> Emitter \<Rightarrow> Emitter" where
  "emit_loop op target c = c @ op_byte op # u16_le (jump_offset target (length c + 3))"

lemmas emit_defs = emit_op_def emit_u16_def emit_i16_def emit_u8_def emit_u16_u8_def emit_u16_u16_def
  emit_u16_u16_u8_def emit_jump_def emit_loop_def

section \<open>The reader\<close>

text \<open>A reader is the code and its position; reading past the end of the code panics.\<close>

definition fetch_u8 :: "u8 list \<Rightarrow> nat \<Rightarrow> u8 option" where
  "fetch_u8 code ip = (if ip < length code then Some (code ! ip) else None)"

definition fetch_u16 :: "u8 list \<Rightarrow> nat \<Rightarrow> u16 option" where
  "fetch_u16 code ip =
     (if ip + 1 < length code then Some (of_u16_le (code ! ip) (code ! (ip + 1))) else None)"

record Reader =
  rd_code :: "u8 list"
  rd_ip :: nat

definition read_op :: "Reader \<Rightarrow> BcOp option \<times> Reader" where
  "read_op r =
     (if length (rd_code r) \<le> rd_ip r then (None, r)
      else (from_byte (rd_code r ! rd_ip r), r\<lparr>rd_ip := rd_ip r + 1\<rparr>))"

definition read_u16 :: "Reader \<Rightarrow> (u16 \<times> Reader) option" where
  "read_u16 r = map_option (\<lambda>v. (v, r\<lparr>rd_ip := rd_ip r + 2\<rparr>)) (fetch_u16 (rd_code r) (rd_ip r))"

definition read_i16 :: "Reader \<Rightarrow> (u16 \<times> Reader) option" where
  "read_i16 r = map_option (\<lambda>v. (v, r\<lparr>rd_ip := rd_ip r + 2\<rparr>)) (fetch_u16 (rd_code r) (rd_ip r))"

definition read_u8 :: "Reader \<Rightarrow> (u8 \<times> Reader) option" where
  "read_u8 r = map_option (\<lambda>v. (v, r\<lparr>rd_ip := rd_ip r + 1\<rparr>)) (fetch_u8 (rd_code r) (rd_ip r))"

text \<open>\<open>(ip as isize + offset as isize) as usize\<close>: 64-bit addresses, wrapping below 0.\<close>

definition add_offset :: "nat \<Rightarrow> u16 \<Rightarrow> nat" where
  "add_offset ip off = nat ((int ip + sint off) mod 2 ^ 64)"

definition reader_jump :: "u16 \<Rightarrow> Reader \<Rightarrow> Reader" where
  "reader_jump off r = r\<lparr>rd_ip := add_offset (rd_ip r) off\<rparr>"

section \<open>Offsets\<close>

text \<open>A patched offset leads from the byte after the operand to the target, where it fits in 16 bits.\<close>

lemma jump_offset_sint:
  assumes "- (2 ^ 15) \<le> int t - int b" and "int t - int b < 2 ^ 15"
  shows "sint (jump_offset t b) = int t - int b"
  using assms unfolding jump_offset_def int_word_sint by (simp add: mod_pos_pos_trivial)

lemma add_jump_offset:
  assumes "- (2 ^ 15) \<le> int t - int b" and "int t - int b < 2 ^ 15" and "t < 2 ^ 64"
  shows "add_offset b (jump_offset t b) = t"
  using assms by (simp add: add_offset_def jump_offset_sint)

lemma mod_small_cases:
  fixes b d x :: int
  assumes "0 \<le> b" "0 \<le> d" "b + d < 2 ^ 63" "- (2 ^ 15) \<le> x" "x < 2 ^ 15"
  shows "(b + x) mod 2 ^ 64 = b + d \<longleftrightarrow> x = d"
proof
  assume eq: "(b + x) mod 2 ^ 64 = b + d"
  show "x = d"
  proof (cases "0 \<le> b + x")
    case True
    then show ?thesis using eq assms by (simp add: mod_pos_pos_trivial)
  next
    case False
    have "(b + x + 2 ^ 64) mod 2 ^ 64 = b + x + 2 ^ 64"
      by (rule mod_pos_pos_trivial) (use assms False in auto)
    then show ?thesis using eq assms by simp
  qed
qed (use assms in \<open>auto simp: mod_pos_pos_trivial\<close>)

lemma jump_offset_exact:
  assumes "b \<le> t" and "t < 2 ^ 63"
  shows "add_offset b (jump_offset t b) = t \<longleftrightarrow> t - b < 2 ^ 15"
proof -
  let ?x = "sint (jump_offset t b)"
  have bnd: "- (2 ^ 15) \<le> ?x" "?x < 2 ^ 15"
    using sint_greater_eq [of "jump_offset t b"] sint_less [of "jump_offset t b"] by auto
  have "add_offset b (jump_offset t b) = t \<longleftrightarrow> (int b + ?x) mod 2 ^ 64 = int b + int (t - b)"
    using assms by (auto simp: add_offset_def)
  also have "\<dots> \<longleftrightarrow> ?x = int (t - b)"
    by (rule mod_small_cases) (use assms bnd in auto)
  also have "\<dots> \<longleftrightarrow> t - b < 2 ^ 15"
  proof
    assume "?x = int (t - b)" with bnd(2) show "t - b < 2 ^ 15" by simp
  next
    assume "t - b < 2 ^ 15"
    then show "?x = int (t - b)" using assms jump_offset_sint [of t b] by (simp add: of_nat_diff)
  qed
  finally show ?thesis .
qed

lemma fetch_u16_at [simp]:
  "n = length c \<Longrightarrow> fetch_u16 (c @ u16_le v @ d) n = Some v"
  by (simp add: fetch_u16_def u16_le_def nth_append)

lemma fetch_u16_end [simp]: "n = length c \<Longrightarrow> fetch_u16 (c @ u16_le v) n = Some v"
  using fetch_u16_at [of n c v "[]"] by simp

lemma fetch_u8_at [simp]: "n = length c \<Longrightarrow> fetch_u8 (c @ b # d) n = Some b"
  by (simp add: fetch_u8_def)

lemma length_patch_bytes [simp]: "p + length bs \<le> length c \<Longrightarrow> length (patch_bytes p bs c) = length c"
  by (simp add: patch_bytes_def)

lemma fetch_u16_patch_bytes:
  "p + 2 \<le> length c \<Longrightarrow> fetch_u16 (patch_bytes p (u16_le v) c) p = Some v"
  by (simp add: patch_bytes_def)

lemma nth_patch_bytes:
  "p + length bs \<le> length c \<Longrightarrow> i < length c \<Longrightarrow> i < p \<or> p + length bs \<le> i \<Longrightarrow> patch_bytes p bs c ! i = c ! i"
  by (auto simp: patch_bytes_def nth_append)

text \<open>The operands of an operation, each with the reader of its kind.\<close>

datatype Operand = OpU16 u16 | OpI16 u16 | OpU8 u8

fun takes :: "Operand list \<Rightarrow> Reader \<Rightarrow> Reader option" where
  "takes [] r = Some r"
| "takes (OpU16 v # os) r = (case read_u16 r of Some (w, r') \<Rightarrow> if w = v then takes os r' else None | None \<Rightarrow> None)"
| "takes (OpI16 v # os) r = (case read_i16 r of Some (w, r') \<Rightarrow> if w = v then takes os r' else None | None \<Rightarrow> None)"
| "takes (OpU8 v # os) r = (case read_u8 r of Some (w, r') \<Rightarrow> if w = v then takes os r' else None | None \<Rightarrow> None)"

text \<open>
  Reading from where the emitter stood gives the operation and its operands, and ends where the
  emitter ended, whatever is emitted after it.
\<close>

definition reads_back :: "BcOp \<Rightarrow> Operand list \<Rightarrow> Emitter \<Rightarrow> Emitter \<Rightarrow> bool" where
  "reads_back op os c c' \<longleftrightarrow>
     (\<forall>d. case read_op \<lparr>rd_code = c' @ d, rd_ip = length c\<rparr> of
            (Some op', r) \<Rightarrow> op' = op \<and> takes os r = Some \<lparr>rd_code = c' @ d, rd_ip = length c'\<rparr>
          | (None, r) \<Rightarrow> False)"

lemma of_u16_le_zero: "of_u16_le 0 0 = 0"
  by (simp add: of_u16_le_def)

end
