(* ===== verification/BcChunk.thy ===== *)
theory BcChunk
  imports MacroVal BcOpcode
begin

text \<open>
  Compiled functions of the macro machine (\<open>macro_system/bytecode/chunk.rs\<close>): the code with its
  pool of constants, parameters, spans and closures.
\<close>

datatype UpvalueDesc = UvLocal u16 | UvUpvalue u16

datatype 'c CompiledParam = CompiledParam (cp_slot: u16) (cp_optional: bool) (cp_default: "'c option")

datatype Chunk = Chunk
  (ch_code: "u8 list")
  (ch_constants: "MacroValue list")
  (ch_local_count: u16)
  (ch_params: "Chunk CompiledParam list")
  (ch_span_map: "(nat \<times> Span) list")
  (ch_upvalues: "UpvalueDesc list")
  (ch_closures: "Chunk list")
  (ch_name: string)
  (ch_local_names: "(u16 \<times> string) list")

definition new_chunk :: "string \<Rightarrow> Chunk" where
  "new_chunk name = Chunk [] [] 0 [] [] [] [] name []"

fun with_code :: "u8 list \<Rightarrow> Chunk \<Rightarrow> Chunk" where
  "with_code c (Chunk _ ks n ps sm us cs nm ls) = Chunk c ks n ps sm us cs nm ls"

fun with_constants :: "MacroValue list \<Rightarrow> Chunk \<Rightarrow> Chunk" where
  "with_constants ks (Chunk c _ n ps sm us cs nm ls) = Chunk c ks n ps sm us cs nm ls"

fun with_local_count :: "u16 \<Rightarrow> Chunk \<Rightarrow> Chunk" where
  "with_local_count n (Chunk c ks _ ps sm us cs nm ls) = Chunk c ks n ps sm us cs nm ls"

fun push_param :: "Chunk CompiledParam \<Rightarrow> Chunk \<Rightarrow> Chunk" where
  "push_param p (Chunk c ks n ps sm us cs nm ls) = Chunk c ks n (ps @ [p]) sm us cs nm ls"

text \<open>\<open>add_constant\<close> and \<open>add_closure\<close> panic, here \<open>None\<close>, where the index would not fit 16 bits.\<close>

definition add_constant :: "MacroValue \<Rightarrow> Chunk \<Rightarrow> (u16 \<times> Chunk) option" where
  "add_constant v ch =
     (let idx = length (ch_constants ch)
      in if int idx \<le> 65535 then Some (word_of_nat idx, with_constants (ch_constants ch @ [v]) ch) else None)"

fun string_index :: "string \<Rightarrow> MacroValue list \<Rightarrow> nat option" where
  "string_index s [] = None"
| "string_index s (v # vs) = (if v = MString s then Some 0 else map_option Suc (string_index s vs))"

definition intern_string :: "string \<Rightarrow> Chunk \<Rightarrow> (u16 \<times> Chunk) option" where
  "intern_string s ch =
     (case string_index s (ch_constants ch) of
        Some i \<Rightarrow> Some (word_of_nat i, ch)
      | None \<Rightarrow> add_constant (MString s) ch)"

fun add_span :: "nat \<Rightarrow> Span \<Rightarrow> Chunk \<Rightarrow> Chunk" where
  "add_span off sp (Chunk c ks n ps sm us cs nm ls) = Chunk c ks n ps (sm @ [(off, sp)]) us cs nm ls"

fun register_local_name :: "u16 \<Rightarrow> string \<Rightarrow> Chunk \<Rightarrow> Chunk" where
  "register_local_name slot name (Chunk c ks n ps sm us cs nm ls) =
     Chunk c ks n ps sm us cs nm (ls @ [(slot, name)])"

fun push_closure :: "Chunk \<Rightarrow> Chunk \<Rightarrow> Chunk" where
  "push_closure x (Chunk c ks n ps sm us cs nm ls) = Chunk c ks n ps sm us (cs @ [x]) nm ls"

definition add_closure :: "Chunk \<Rightarrow> Chunk \<Rightarrow> (u16 \<times> Chunk) option" where
  "add_closure x ch =
     (let idx = length (ch_closures ch)
      in if int idx \<le> 65535 then Some (word_of_nat idx, push_closure x ch) else None)"

section \<open>Spans\<close>

text \<open>
  \<open>binary_search_by_key\<close> as the standard library does it: the range is halved down to one entry,
  whose key decides between a hit and the place to insert. \<open>Inl\<close> is \<open>Err\<close>.
\<close>

function bsearch_base :: "(nat \<Rightarrow> nat) \<Rightarrow> nat \<Rightarrow> nat \<Rightarrow> nat \<Rightarrow> nat" where
  "bsearch_base key x base n =
     (if n \<le> 1 then base
      else let half = n div 2; mid = base + half
           in bsearch_base key x (if x < key mid then base else mid) (n - half))"
  by pat_completeness auto
termination
  by (relation "measure (\<lambda>(_, _, _, n). n)") auto

declare bsearch_base.simps [simp del]

definition binary_search :: "(nat \<times> 'a) list \<Rightarrow> nat \<Rightarrow> nat + nat" where
  "binary_search xs x =
     (if xs = [] then Inl 0
      else let base = bsearch_base (\<lambda>i. fst (xs ! i)) x 0 (length xs)
           in if fst (xs ! base) = x then Inr base
              else Inl (base + (if fst (xs ! base) < x then 1 else 0)))"

definition span_at :: "Chunk \<Rightarrow> nat \<Rightarrow> Span option" where
  "span_at ch off =
     (case binary_search (ch_span_map ch) off of
        Inr i \<Rightarrow> Some (snd (ch_span_map ch ! i))
      | Inl i \<Rightarrow> (if i = 0 then None else Some (snd (ch_span_map ch ! (i - 1)))))"

section \<open>The pool of constants\<close>

lemma with_simps [simp]:
  "ch_code (with_code c ch) = c" "ch_constants (with_code c ch) = ch_constants ch"
  "ch_local_count (with_code c ch) = ch_local_count ch" "ch_span_map (with_code c ch) = ch_span_map ch"
  "ch_params (with_code c ch) = ch_params ch" "ch_closures (with_code c ch) = ch_closures ch"
  "ch_code (with_constants ks ch) = ch_code ch" "ch_constants (with_constants ks ch) = ks"
  "ch_span_map (with_constants ks ch) = ch_span_map ch" "ch_closures (with_constants ks ch) = ch_closures ch"
  "ch_params (with_constants ks ch) = ch_params ch"
  "ch_local_count (with_local_count n ch) = n" "ch_code (with_local_count n ch) = ch_code ch"
  "ch_constants (with_local_count n ch) = ch_constants ch" "ch_params (with_local_count n ch) = ch_params ch"
  "ch_span_map (with_local_count n ch) = ch_span_map ch" "ch_closures (with_local_count n ch) = ch_closures ch"
  by (cases ch; simp)+

lemma push_simps [simp]:
  "ch_constants (add_span o1 sp ch) = ch_constants ch"
  "ch_span_map (add_span o1 sp ch) = ch_span_map ch @ [(o1, sp)]"
  "ch_params (add_span o1 sp ch) = ch_params ch" "ch_closures (add_span o1 sp ch) = ch_closures ch"
  "ch_constants (register_local_name sl nm ch) = ch_constants ch"
  "ch_span_map (register_local_name sl nm ch) = ch_span_map ch"
  "ch_params (register_local_name sl nm ch) = ch_params ch"
  "ch_closures (register_local_name sl nm ch) = ch_closures ch"
  "ch_constants (push_closure x ch) = ch_constants ch" "ch_span_map (push_closure x ch) = ch_span_map ch"
  "ch_closures (push_closure x ch) = ch_closures ch @ [x]" "ch_params (push_closure x ch) = ch_params ch"
  "ch_constants (push_param p ch) = ch_constants ch" "ch_span_map (push_param p ch) = ch_span_map ch"
  "ch_params (push_param p ch) = ch_params ch @ [p]" "ch_closures (push_param p ch) = ch_closures ch"
  by (cases ch; simp)+

lemma string_index_Some:
  "string_index s vs = Some i \<Longrightarrow> i < length vs \<and> vs ! i = MString s"
  by (induction vs arbitrary: i) (auto split: if_splits)

lemma string_index_None: "string_index s vs = None \<longleftrightarrow> MString s \<notin> set vs"
  by (induction vs) auto

lemma string_index_append:
  "string_index s (vs @ ws) =
     (case string_index s vs of Some i \<Rightarrow> Some i | None \<Rightarrow> map_option ((+) (length vs)) (string_index s ws))"
  by (induction vs)
     (auto simp: option.map_comp comp_def option.map_ident cong: option.map_cong split: option.splits)

lemma add_constant_Some:
  "add_constant v ch = Some (i, ch') \<longleftrightarrow>
     length (ch_constants ch) \<le> 65535 \<and> i = word_of_nat (length (ch_constants ch)) \<and>
     ch' = with_constants (ch_constants ch @ [v]) ch"
  by (auto simp: add_constant_def Let_def)

lemma unat_index [simp]: "n \<le> 65535 \<Longrightarrow> unat (word_of_nat n :: u16) = n"
  by (simp add: unat_of_nat)

text \<open>An interned string is in the pool at its index, and the pool only grows at its end.\<close>

lemma intern_string_pool:
  assumes "intern_string s ch = Some (i, ch')" and "length (ch_constants ch) \<le> 65536"
  shows "unat i < length (ch_constants ch') \<and> ch_constants ch' ! unat i = MString s \<and>
    (\<exists>ks. ch_constants ch' = ch_constants ch @ ks) \<and> length (ch_constants ch') \<le> 65536"
proof (cases "string_index s (ch_constants ch)")
  case None
  then show ?thesis using assms
    by (auto simp: intern_string_def add_constant_Some nth_append)
next
  case (Some j)
  with string_index_Some [OF Some] assms show ?thesis
    by (auto simp: intern_string_def)
qed

lemma intern_string_again:
  assumes "intern_string s ch = Some (i, ch')"
  shows "intern_string s ch' = Some (i, ch')"
proof (cases "string_index s (ch_constants ch)")
  case None
  then show ?thesis using assms
    by (auto simp: intern_string_def add_constant_Some string_index_append)
next
  case (Some j)
  then show ?thesis using assms by (auto simp: intern_string_def)
qed

section \<open>The search\<close>

lemma bsearch_base_spec:
  assumes "0 < n" and "\<And>i j. b \<le> i \<Longrightarrow> i \<le> j \<Longrightarrow> j < b + n \<Longrightarrow> key i \<le> key j"
  shows "b \<le> bsearch_base key x b n \<and> bsearch_base key x b n < b + n \<and>
    (\<forall>i. bsearch_base key x b n < i \<and> i < b + n \<longrightarrow> x < key i) \<and>
    (b < bsearch_base key x b n \<longrightarrow> key (bsearch_base key x b n) \<le> x)"
  using assms
proof (induction n arbitrary: b rule: less_induct)
  case (less n)
  show ?case
  proof (cases "n \<le> 1")
    case True
    then show ?thesis using less.prems by (simp add: bsearch_base.simps)
  next
    case False
    define h where "h = n div 2"
    have h: "0 < h" "h < n" using False by (auto simp: h_def)
    show ?thesis
    proof (cases "x < key (b + h)")
      case True
      have r: "bsearch_base key x b n = bsearch_base key x b (n - h)"
        using False True by (subst bsearch_base.simps) (simp add: h_def Let_def)
      have mono: "key i \<le> key j" if "b \<le> i" "i \<le> j" "j < b + (n - h)" for i j
        using less.prems(2) [of i j] that by simp
      have ih: "b \<le> bsearch_base key x b (n - h) \<and> bsearch_base key x b (n - h) < b + (n - h) \<and>
          (\<forall>i. bsearch_base key x b (n - h) < i \<and> i < b + (n - h) \<longrightarrow> x < key i) \<and>
          (b < bsearch_base key x b (n - h) \<longrightarrow> key (bsearch_base key x b (n - h)) \<le> x)"
        by (rule less.IH) (use h mono in auto)
      have "x < key i" if "b + (n - h) \<le> i" "i < b + n" for i
      proof -
        have "b + h \<le> i" using that by (simp add: h_def)
        with less.prems(2) [of "b + h" i] that True show ?thesis by simp
      qed
      then have "x < key i" if "bsearch_base key x b (n - h) < i" "i < b + n" for i
        using ih that by (cases "i < b + (n - h)") auto
      with ih h show ?thesis unfolding r by auto
    next
      case False2: False
      have r: "bsearch_base key x b n = bsearch_base key x (b + h) (n - h)"
        using False False2 by (subst bsearch_base.simps) (simp add: h_def Let_def)
      have mono: "key i \<le> key j" if "b + h \<le> i" "i \<le> j" "j < b + h + (n - h)" for i j
        using less.prems(2) [of i j] that h by simp
      have ih: "b + h \<le> bsearch_base key x (b + h) (n - h) \<and> bsearch_base key x (b + h) (n - h) < b + h + (n - h) \<and>
          (\<forall>i. bsearch_base key x (b + h) (n - h) < i \<and> i < b + h + (n - h) \<longrightarrow> x < key i) \<and>
          (b + h < bsearch_base key x (b + h) (n - h) \<longrightarrow> key (bsearch_base key x (b + h) (n - h)) \<le> x)"
        by (rule less.IH) (use h mono in auto)
      have "key (bsearch_base key x (b + h) (n - h)) \<le> x"
        using ih False2 by (cases "b + h < bsearch_base key x (b + h) (n - h)") auto
      with ih h show ?thesis unfolding r by auto
    qed
  qed
qed

text \<open>On offsets in ascending order: the span of the last entry at or before the offset.\<close>

lemma span_at_Some:
  assumes "sorted (map fst (ch_span_map ch))" and "span_at ch off = Some sp"
  shows "\<exists>o1. (o1, sp) \<in> set (ch_span_map ch) \<and> o1 \<le> off \<and>
    (\<forall>(o2, sp2) \<in> set (ch_span_map ch). o2 \<le> off \<longrightarrow> o2 \<le> o1)"
proof -
  let ?m = "ch_span_map ch"
  let ?b = "bsearch_base (\<lambda>i. fst (?m ! i)) off 0 (length ?m)"
  have ne: "?m \<noteq> []" using assms(2) by (auto simp: span_at_def binary_search_def)
  have mono: "fst (?m ! i) \<le> fst (?m ! j)" if "i \<le> j" "j < length ?m" for i j
    using sorted_nth_mono [OF assms(1), of i j] that by simp
  have spec: "?b < length ?m" "\<forall>i. ?b < i \<and> i < length ?m \<longrightarrow> off < fst (?m ! i)"
      "0 < ?b \<longrightarrow> fst (?m ! ?b) \<le> off"
    using bsearch_base_spec [of "length ?m" 0 "\<lambda>i. fst (?m ! i)" off] mono ne by auto
  have le: "fst (?m ! ?b) \<le> off" and sp: "sp = snd (?m ! ?b)"
    using assms(2) ne spec
    by (auto simp: span_at_def binary_search_def Let_def split: if_splits)
  have "o2 \<le> fst (?m ! ?b)" if "(o2, s2) \<in> set ?m" "o2 \<le> off" for o2 s2
  proof -
    from that obtain i where i: "i < length ?m" "?m ! i = (o2, s2)" by (auto simp: in_set_conv_nth)
    with spec(2) that have "i \<le> ?b" by (metis fst_conv leI not_less)
    with mono [of i ?b] spec(1) i show ?thesis by simp
  qed
  moreover have "(fst (?m ! ?b), sp) \<in> set ?m" using spec(1) by (simp add: sp)
  ultimately show ?thesis using le by blast
qed

lemma span_at_None:
  assumes "sorted (map fst (ch_span_map ch))" and "span_at ch off = None"
  shows "\<forall>(o2, sp2) \<in> set (ch_span_map ch). off < o2"
proof (cases "ch_span_map ch = []")
  case False
  let ?m = "ch_span_map ch"
  let ?b = "bsearch_base (\<lambda>i. fst (?m ! i)) off 0 (length ?m)"
  have mono: "fst (?m ! i) \<le> fst (?m ! j)" if "i \<le> j" "j < length ?m" for i j
    using sorted_nth_mono [OF assms(1), of i j] that by simp
  have "\<forall>i. ?b < i \<and> i < length ?m \<longrightarrow> off < fst (?m ! i)"
    using bsearch_base_spec [of "length ?m" 0 "\<lambda>i. fst (?m ! i)" off] mono False by auto
  moreover have "?b = 0 \<and> off < fst (?m ! 0)"
    using assms(2) False
    by (auto simp: span_at_def binary_search_def Let_def split: if_splits)
  ultimately have "off < fst (?m ! i)" if "i < length ?m" for i
    using that by (cases "i = 0") auto
  then show ?thesis by (auto simp: in_set_conv_nth split: prod.splits) (metis fst_conv)
qed simp

end
