(* ===== verification/BcVm.thy ===== *)
theory BcVm
  imports BcChunk
begin

text \<open>
  The macro machine (\<open>macro_system/bytecode/vm.rs\<close>): a stack of values, a stack of frames and one
  step per operation. The value stack is a \<open>Vec\<close> with its top at the end; the list of frames has the
  running one at its head. \<open>VmPanic\<close> is a Rust panic: an index out of range, or \<open>MIN / -1\<close>. Integer
  operators wrap, as they do in the release profile. The time budget is the number of operations
  \<open>vm_run\<close> may take.
\<close>

record CompiledClassInfo =
  cc_constructor :: "Chunk option"
  cc_instance_methods :: "(string \<times> Chunk) list"
  cc_static_methods :: "(string \<times> Chunk) list"
  cc_instance_vars :: "(string \<times> MacroValue) list"

record CallFrame =
  cf_chunk :: Chunk
  cf_ip :: nat
  cf_bp :: nat

record MacroVm =
  vm_stack :: "MacroValue list"
  vm_frames :: "CallFrame list"
  vm_trace :: "string list"
  vm_classes :: "(string \<times> CompiledClassInfo) list"
  vm_updates :: "(MacroValue \<times> MacroValue) list"
  vm_next :: nat

datatype VmFail = VmError string "Span option" | VmPanic

type_synonym 'a vm = "MacroVm \<Rightarrow> VmFail + 'a \<times> MacroVm"

abbreviation vm_err :: "string \<Rightarrow> VmFail" where
  "vm_err m \<equiv> VmError m None"

definition vreturn :: "'a \<Rightarrow> 'a vm" where
  "vreturn a s = Inr (a, s)"

definition vfail :: "VmFail \<Rightarrow> 'a vm" where
  "vfail e s = Inl e"

definition vbind :: "'a vm \<Rightarrow> ('a \<Rightarrow> 'b vm) \<Rightarrow> 'b vm" where
  "vbind m f s = rbind (m s) (\<lambda>(a, s'). f a s')"

definition vlift :: "VmFail + 'a \<Rightarrow> 'a vm" where
  "vlift r s = rbind r (\<lambda>a. Inr (a, s))"

section \<open>Arithmetic\<close>

definition fl_fail :: "string \<Rightarrow> MacroValue \<Rightarrow> string \<Rightarrow> MacroValue \<Rightarrow> VmFail" where
  "fl_fail verb a sep b = vm_err (''cannot '' @ verb @ '' '' @ type_name a @ '' '' @ sep @ '' '' @ type_name b)"

text \<open>The numeric cases shared by the operators: two integers, or floats with integers converted.\<close>

definition numeric ::
  "(u64 \<Rightarrow> u64 \<Rightarrow> VmFail + MacroValue) \<Rightarrow> (u64 \<Rightarrow> u64 \<Rightarrow> u64) \<Rightarrow> (VmFail + MacroValue) \<Rightarrow>
     MacroValue \<Rightarrow> MacroValue \<Rightarrow> VmFail + MacroValue" where
  "numeric fi ff other a b =
     (case (a, b) of
        (MInt x, MInt y) \<Rightarrow> fi x y
      | (MFloat x, MFloat y) \<Rightarrow> Inr (MFloat (ff x y))
      | (MInt x, MFloat y) \<Rightarrow> Inr (MFloat (ff (f64_of_int (sint x)) y))
      | (MFloat x, MInt y) \<Rightarrow> Inr (MFloat (ff x (f64_of_int (sint y))))
      | _ \<Rightarrow> other)"

fun is_string :: "MacroValue \<Rightarrow> bool" where
  "is_string (MString s) = True"
| "is_string _ = False"

definition vm_add :: "Host \<Rightarrow> MacroValue \<Rightarrow> MacroValue \<Rightarrow> VmFail + MacroValue" where
  "vm_add h a b =
     numeric (\<lambda>x y. Inr (MInt (x + y))) f64_add
       (if is_string a \<or> is_string b then Inr (MString (to_display_string h a @ to_display_string h b))
        else Inl (fl_fail ''add'' a ''and'' b)) a b"

definition vm_sub :: "MacroValue \<Rightarrow> MacroValue \<Rightarrow> VmFail + MacroValue" where
  "vm_sub a b = numeric (\<lambda>x y. Inr (MInt (x - y))) f64_sub (Inl (fl_fail ''subtract'' a ''and'' b)) a b"

definition vm_mul :: "MacroValue \<Rightarrow> MacroValue \<Rightarrow> VmFail + MacroValue" where
  "vm_mul a b = numeric (\<lambda>x y. Inr (MInt (x * y))) f64_mul (Inl (fl_fail ''multiply'' a ''and'' b)) a b"

definition vm_div :: "MacroValue \<Rightarrow> MacroValue \<Rightarrow> VmFail + MacroValue" where
  "vm_div a b =
     numeric
       (\<lambda>x y. if y = 0 then Inl (vm_err ''division by zero'')
              else rbind (ok_or VmPanic (rust_sdiv x y)) (\<lambda>z. Inr (MInt z)))
       f64_div (Inl (fl_fail ''divide'' a ''and'' b)) a b"

definition vm_mod :: "MacroValue \<Rightarrow> MacroValue \<Rightarrow> VmFail + MacroValue" where
  "vm_mod a b =
     numeric
       (\<lambda>x y. if y = 0 then Inl (vm_err ''modulo by zero'')
              else rbind (ok_or VmPanic (rust_srem x y)) (\<lambda>z. Inr (MInt z)))
       f64_fmod (Inl (fl_fail ''modulo'' a ''and'' b)) a b"

datatype Ordering = OLess | OEqual | OGreater

definition cmp_of :: "bool \<Rightarrow> bool \<Rightarrow> Ordering" where
  "cmp_of lt gt = (if lt then OLess else if gt then OGreater else OEqual)"

text \<open>\<open>partial_cmp(..).unwrap_or(Equal)\<close>: a NaN is equal to everything.\<close>

definition f64_cmp :: "u64 \<Rightarrow> u64 \<Rightarrow> Ordering" where
  "f64_cmp x y = cmp_of (fl_lt (f64_of x) (f64_of y)) (fl_lt (f64_of y) (f64_of x))"

definition vm_ordering :: "MacroValue \<Rightarrow> MacroValue \<Rightarrow> VmFail + Ordering" where
  "vm_ordering a b =
     (case (a, b) of
        (MInt x, MInt y) \<Rightarrow> Inr (cmp_of (sint x < sint y) (sint y < sint x))
      | (MFloat x, MFloat y) \<Rightarrow> Inr (f64_cmp x y)
      | (MInt x, MFloat y) \<Rightarrow> Inr (f64_cmp (f64_of_int (sint x)) y)
      | (MFloat x, MInt y) \<Rightarrow> Inr (f64_cmp x (f64_of_int (sint y)))
      | (MString x, MString y) \<Rightarrow> Inr (cmp_of (x < y) (y < x))
      | _ \<Rightarrow> Inl (fl_fail ''compare'' a ''and'' b))"

definition vm_compare ::
  "MacroValue \<Rightarrow> MacroValue \<Rightarrow> (Ordering \<Rightarrow> bool) \<Rightarrow> VmFail + MacroValue" where
  "vm_compare a b p = rbind (vm_ordering a b) (\<lambda>c. Inr (MBool (p c)))"

definition int_operand :: "MacroValue \<Rightarrow> VmFail + u64" where
  "int_operand v = ok_or (vm_err (''expected Int, got '' @ type_name v)) (as_int v)"

definition int_binary ::
  "(u64 \<Rightarrow> u64 \<Rightarrow> u64) \<Rightarrow> MacroValue \<Rightarrow> MacroValue \<Rightarrow> VmFail + MacroValue" where
  "int_binary f a b = rbind (int_operand a) (\<lambda>x. rbind (int_operand b) (\<lambda>y. Inr (MInt (f x y))))"

definition shift_count :: "u64 \<Rightarrow> nat" where
  "shift_count b = unat (b AND 31)"

text \<open>The binary operations of the machine, \<open>Add\<close> to \<open>Ushr\<close>; \<open>None\<close> for any other operation.\<close>

fun binary_fn :: "Host \<Rightarrow> BcOp \<Rightarrow> (MacroValue \<Rightarrow> MacroValue \<Rightarrow> VmFail + MacroValue) option" where
  "binary_fn h BcAdd = Some (vm_add h)"
| "binary_fn h BcSub = Some vm_sub"
| "binary_fn h BcMul = Some vm_mul"
| "binary_fn h BcDiv = Some vm_div"
| "binary_fn h BcMod = Some vm_mod"
| "binary_fn h BcEq = Some (\<lambda>a b. Inr (MBool (macro_eq a b)))"
| "binary_fn h BcNotEq = Some (\<lambda>a b. Inr (MBool (\<not> macro_eq a b)))"
| "binary_fn h BcLt = Some (\<lambda>a b. vm_compare a b (\<lambda>c. c = OLess))"
| "binary_fn h BcLe = Some (\<lambda>a b. vm_compare a b (\<lambda>c. c \<noteq> OGreater))"
| "binary_fn h BcGt = Some (\<lambda>a b. vm_compare a b (\<lambda>c. c = OGreater))"
| "binary_fn h BcGe = Some (\<lambda>a b. vm_compare a b (\<lambda>c. c \<noteq> OLess))"
| "binary_fn h BcBitAnd = Some (int_binary (\<lambda>a b. a AND b))"
| "binary_fn h BcBitOr = Some (int_binary (\<lambda>a b. a OR b))"
| "binary_fn h BcBitXor = Some (int_binary (\<lambda>a b. a XOR b))"
| "binary_fn h BcShl = Some (int_binary (\<lambda>a b. push_bit (shift_count b) a))"
| "binary_fn h BcShr = Some (int_binary (\<lambda>a b. signed_drop_bit (shift_count b) a))"
| "binary_fn h BcUshr = Some (int_binary (\<lambda>a b. drop_bit (shift_count b) a))"
| "binary_fn h BcNullCoal = Some (\<lambda>a b. Inr (if a = MNull then b else a))"
| "binary_fn h _ = None"

text \<open>The unary operations with the verb of their error.\<close>

fun unary_fn :: "BcOp \<Rightarrow> MacroValue \<Rightarrow> string + MacroValue" where
  "unary_fn BcNot v = Inr (MBool (\<not> is_truthy v))"
| "unary_fn BcNeg v =
     (case v of MInt i \<Rightarrow> Inr (MInt (- i)) | MFloat f \<Rightarrow> Inr (MFloat (f64_neg f))
      | _ \<Rightarrow> Inl (''cannot negate '' @ type_name v))"
| "unary_fn BcBitNot v =
     (case v of MInt i \<Rightarrow> Inr (MInt (NOT i)) | _ \<Rightarrow> Inl (''cannot bit-not '' @ type_name v))"
| "unary_fn BcIncr v =
     (case v of MInt i \<Rightarrow> Inr (MInt (i + 1)) | MFloat f \<Rightarrow> Inr (MFloat (f64_add f (f64_of_int 1)))
      | _ \<Rightarrow> Inl (''cannot increment '' @ type_name v))"
| "unary_fn BcDecr v =
     (case v of MInt i \<Rightarrow> Inr (MInt (i - 1)) | MFloat f \<Rightarrow> Inr (MFloat (f64_sub f (f64_of_int 1)))
      | _ \<Rightarrow> Inl (''cannot decrement '' @ type_name v))"
| "unary_fn _ v = Inr v"

section \<open>Fields and elements\<close>

definition object_type :: "(string \<times> MacroValue) list \<Rightarrow> string option" where
  "object_type fs = Option.bind (map_of fs ''__type__'') as_string"

definition or_null :: "MacroValue option \<Rightarrow> MacroValue" where
  "or_null v = (case v of Some x \<Rightarrow> x | None \<Rightarrow> MNull)"

definition get_field :: "MacroValue \<Rightarrow> string \<Rightarrow> VmFail + MacroValue" where
  "get_field base name =
     (case base of
        MObject a fs \<Rightarrow>
          (if object_type fs \<in>
                {Some ''StringBuf'', Some ''haxe.iterators.ArrayIterator'', Some ''haxe.io.Bytes''}
           then Inl (vm_err ''native object requires the macro host'')
           else Inr (or_null (map_of fs name)))
      | MArray a vs \<Rightarrow> Inr (if name = ''length'' then MInt (word_of_nat (length vs)) else MNull)
      | MString s \<Rightarrow> Inr (if name = ''length'' then MInt (word_of_nat (length s)) else MNull)
      | MNull \<Rightarrow> Inl (vm_err ''cannot access field on null'')
      | _ \<Rightarrow> Inr MNull)"

definition set_field :: "MacroValue \<Rightarrow> string \<Rightarrow> MacroValue \<Rightarrow> nat \<Rightarrow> VmFail + MacroValue \<times> nat" where
  "set_field base name v n =
     (case base of
        MObject a fs \<Rightarrow> Inr (MObject n (bt_insert name v fs), n + 1)
      | _ \<Rightarrow> Inl (vm_err (''cannot set field on '' @ type_name base)))"

text \<open>\<open>*i as usize\<close>: a negative index is a very large one.\<close>

definition nth_value :: "u64 \<Rightarrow> 'a list \<Rightarrow> 'a option" where
  "nth_value i xs = (if unat i < length xs then Some (xs ! unat i) else None)"

definition get_index :: "MacroValue \<Rightarrow> MacroValue \<Rightarrow> VmFail + MacroValue" where
  "get_index base index =
     (case (base, index) of
        (MArray a vs, MInt i) \<Rightarrow> Inr (or_null (nth_value i vs))
      | (MObject a fs, MString key) \<Rightarrow> Inr (or_null (map_of fs key))
      | (MMap a es, key) \<Rightarrow> Inr (map_get es key)
      | (MString s, MInt i) \<Rightarrow> Inr (or_null (map_option (\<lambda>c. MString [c]) (nth_value i s)))
      | _ \<Rightarrow> Inl (vm_err (''cannot index '' @ type_name base @ '' with '' @ type_name index)))"

text \<open>
  An array grows with nulls up to the index. A vector holds at most \<open>isize::MAX\<close> bytes, 48 to a
  value: growing past that aborts.
\<close>

definition max_elements :: int where
  "max_elements = (2 ^ 63 - 1) div 48"

definition set_element :: "nat \<Rightarrow> MacroValue \<Rightarrow> MacroValue list \<Rightarrow> MacroValue list" where
  "set_element i v vs = (vs @ replicate (i + 1 - length vs) MNull)[i := v]"

definition set_index ::
  "MacroValue \<Rightarrow> MacroValue \<Rightarrow> MacroValue \<Rightarrow> nat \<Rightarrow> VmFail + MacroValue \<times> nat" where
  "set_index base index v n =
     (case (base, index) of
        (MArray a vs, MInt i) \<Rightarrow>
          (if max_elements \<le> uint i then Inl VmPanic else Inr (MArray n (set_element (unat i) v vs), n + 1))
      | (MObject a fs, MString key) \<Rightarrow> Inr (MObject n (bt_insert key v fs), n + 1)
      | (MMap a es, key) \<Rightarrow> Inr (MMap n (insert_map_entry es key v), n + 1)
      | _ \<Rightarrow> Inl (vm_err (''cannot set index on '' @ type_name base)))"

section \<open>Texts\<close>

fun starts_with_text :: "string \<Rightarrow> string \<Rightarrow> bool" where
  "starts_with_text s p = (take (length p) s = p)"

fun find_text :: "string \<Rightarrow> string \<Rightarrow> nat option" where
  "find_text s p =
     (if starts_with_text s p then Some 0
      else case s of [] \<Rightarrow> None | c # cs \<Rightarrow> map_option Suc (find_text cs p))"

declare find_text.simps [simp del]

text \<open>\<open>macro_system/strings.rs\<close>: positions are counted in characters, -1 where there is none.\<close>

definition search :: "string \<Rightarrow> string \<Rightarrow> u64 option \<Rightarrow> bool \<Rightarrow> u64" where
  "search text needle start reverse =
     (let len = length text;
          st = (case start of Some i \<Rightarrow> nat (max (sint i) 0) | None \<Rightarrow> (if reverse then len else 0))
      in if \<not> reverse \<and> len < st then - 1
         else
           let st = min st len
           in if needle = [] then word_of_nat st
              else if reverse then
                (case filter (\<lambda>i. starts_with_text (drop i text) needle) [0..<min (st + 1) len] of
                   [] \<Rightarrow> - 1 | is \<Rightarrow> word_of_nat (last is))
              else (case find_text (drop st text) needle of
                      None \<Rightarrow> - 1 | Some i \<Rightarrow> word_of_nat (st + i)))"

text \<open>\<open>str::split\<close>: the pieces between matches, an empty separator matching around every character.\<close>

fun split_text :: "string \<Rightarrow> nat \<Rightarrow> string \<Rightarrow> string \<Rightarrow> string list" where
  "split_text sep skip [] acc = [rev acc]"
| "split_text sep (Suc k) (c # cs) acc = split_text sep k cs acc"
| "split_text sep 0 (c # cs) acc =
     (if starts_with_text (c # cs) sep then rev acc # split_text sep (length sep - 1) cs []
      else split_text sep 0 cs (c # acc))"

definition split_str :: "string \<Rightarrow> string \<Rightarrow> string list" where
  "split_str s sep =
     (if sep = [] then [[]] @ map (\<lambda>c. [c]) s @ [[]] else split_text sep 0 s [])"

definition is_white :: "char \<Rightarrow> bool" where
  "is_white c = (let n = of_char c :: nat in 9 \<le> n \<and> n \<le> 13 \<or> n \<in> {32, 133, 160})"

definition trim_text :: "string \<Rightarrow> string" where
  "trim_text s = rev (dropWhile is_white (rev (dropWhile is_white s)))"

definition replace_first :: "string \<Rightarrow> string \<Rightarrow> string \<Rightarrow> string" where
  "replace_first s old new =
     (case find_text s old of
        None \<Rightarrow> s | Some i \<Rightarrow> take i s @ new @ drop (i + length old) s)"

text \<open>The length of a string in bytes: characters from 128 take two.\<close>

definition utf8_len :: "string \<Rightarrow> nat" where
  "utf8_len s = sum_list (map (\<lambda>c. if of_char c < (128 :: nat) then 1 else 2) s)"

fun digits_value :: "int \<Rightarrow> string \<Rightarrow> int option" where
  "digits_value acc [] = Some acc"
| "digits_value acc (c # cs) =
     (let n = of_char c :: int in if 48 \<le> n \<and> n \<le> 57 then digits_value (acc * 10 + (n - 48)) cs else None)"

text \<open>\<open>str::parse::<i64>\<close>.\<close>

definition parse_i64 :: "string \<Rightarrow> u64 option" where
  "parse_i64 s =
     (let neg = (case s of c # _ \<Rightarrow> c = CHR ''-'' | [] \<Rightarrow> False);
          ds = (case s of c # cs \<Rightarrow> if c = CHR ''-'' \<or> c = CHR ''+'' then cs else s | [] \<Rightarrow> [])
      in if ds = [] then None
         else case digits_value 0 ds of
                None \<Rightarrow> None
              | Some n \<Rightarrow>
                  (let v = (if neg then - n else n)
                   in if - (2 ^ 63) \<le> v \<and> v < 2 ^ 63 then Some (word_of_int v) else None))"

section \<open>Methods of arrays and strings\<close>

definition usize_arg :: "MacroValue list \<Rightarrow> nat \<Rightarrow> nat option" where
  "usize_arg args i =
     (if i < length args then map_option unat (as_int (args ! i)) else None)"

definition first_string :: "MacroValue list \<Rightarrow> string option" where
  "first_string args = (case args of MString s # _ \<Rightarrow> Some s | _ \<Rightarrow> None)"

definition or_else_nat :: "nat \<Rightarrow> nat option \<Rightarrow> nat" where
  "or_else_nat d x = (case x of Some n \<Rightarrow> n | None \<Rightarrow> d)"

fun index_of :: "MacroValue list \<Rightarrow> MacroValue \<Rightarrow> nat option" where
  "index_of [] t = None"
| "index_of (v # vs) t = (if macro_eq v t then Some 0 else map_option Suc (index_of vs t))"

definition array_index_of :: "MacroValue list \<Rightarrow> MacroValue list \<Rightarrow> u64" where
  "array_index_of vs args =
     (case args of [] \<Rightarrow> - 1 | t # _ \<Rightarrow> (case index_of vs t of Some i \<Rightarrow> word_of_nat i | None \<Rightarrow> - 1))"

text \<open>\<open>arr[start.min(len)..end.min(len)]\<close> panics where the start is past the end.\<close>

definition slice :: "MacroValue list \<Rightarrow> MacroValue list \<Rightarrow> VmFail + MacroValue list" where
  "slice vs args =
     (let len = length vs; start = min (or_else_nat 0 (usize_arg args 0)) len;
          stop = min (or_else_nat len (usize_arg args 1)) len
      in if stop < start then Inl VmPanic else Inr (take (stop - start) (drop start vs)))"

definition call_array_method ::
  "Host \<Rightarrow> nat \<Rightarrow> MacroValue list \<Rightarrow> string \<Rightarrow> MacroValue list \<Rightarrow> nat \<Rightarrow> VmFail + MacroValue \<times> nat" where
  "call_array_method h a vs m args n =
     (if m = ''push'' then Inr (MArray n (vs @ args), n + 1)
      else if m = ''pop'' then Inr (if vs = [] then MNull else last vs, n)
      else if m = ''length'' then Inr (MInt (word_of_nat (length vs)), n)
      else if m = ''join'' then
        Inr (MString (join_texts (case Option.bind (nth_value 0 args) as_string of
                                    Some s \<Rightarrow> s | None \<Rightarrow> '','')
               (map (to_display_string h) vs)), n)
      else if m = ''map'' \<or> m = ''filter'' then Inr (MArray a vs, n)
      else if m = ''indexOf'' then Inr (MInt (array_index_of vs args), n)
      else if m = ''contains'' then
        Inr (MBool (case args of [] \<Rightarrow> False | t # _ \<Rightarrow> \<exists>v \<in> set vs. macro_eq v t), n)
      else if m = ''slice'' then rbind (slice vs args) (\<lambda>xs. Inr (MArray n xs, n + 1))
      else if m = ''concat'' then
        Inr (MArray n (vs @ (case args of MArray _ ws # _ \<Rightarrow> ws | _ \<Rightarrow> [])), n + 1)
      else if m = ''reverse'' then Inr (MArray n (rev vs), n + 1)
      else if m = ''iterator'' then Inr (array_iterator n)
      else Inr (MNull, n))"

definition call_string_method ::
  "Host \<Rightarrow> string \<Rightarrow> string \<Rightarrow> MacroValue list \<Rightarrow> nat \<Rightarrow> VmFail + MacroValue \<times> nat" where
  "call_string_method h s m args n =
     (if m = ''length'' then Inr (MInt (word_of_nat (length s)), n)
      else if m = ''charAt'' then
        (let i = or_else_nat 0 (usize_arg args 0)
         in Inr (MString (if i < length s then [s ! i] else []), n))
      else if m = ''indexOf'' \<or> m = ''lastIndexOf'' then
        Inr (MInt (case first_string args of
                     None \<Rightarrow> - 1
                   | Some needle \<Rightarrow>
                       search s needle (if 1 < length args then as_int (args ! 1) else None)
                         (m = ''lastIndexOf'')), n)
      else if m = ''substring'' \<or> m = ''substr'' then
        (let start = or_else_nat 0 (usize_arg args 0); stop = or_else_nat (utf8_len s) (usize_arg args 1)
         in Inr (MString (take (stop - start) (drop start s)), n))
      else if m = ''toLowerCase'' then Inr (MString (h_lower h s), n)
      else if m = ''toUpperCase'' then Inr (MString (h_upper h s), n)
      else if m = ''split'' then
        (case first_string args of
           Some sep \<Rightarrow> Inr (MArray n (map MString (split_str s sep)), n + 1)
         | None \<Rightarrow> Inr (MArray n [MString s], n + 1))
      else if m = ''trim'' then Inr (MString (trim_text s), n)
      else if m = ''startsWith'' then
        Inr (MBool (case first_string args of Some p \<Rightarrow> starts_with_text s p | None \<Rightarrow> False), n)
      else if m = ''endsWith'' then
        Inr (MBool (case first_string args of
                      Some p \<Rightarrow> starts_with_text (rev s) (rev p) | None \<Rightarrow> False), n)
      else if m = ''replace'' then
        Inr (MString (case args of
                        MString old # MString new # _ \<Rightarrow> replace_first s old new | _ \<Rightarrow> s), n)
      else Inr (MNull, n))"

section \<open>Static methods\<close>

definition f64_max :: "u64 \<Rightarrow> u64 \<Rightarrow> u64" where
  "f64_max a b =
     (if fl_is_nan (f64_of a) then b else if fl_is_nan (f64_of b) then a
      else if fl_lt (f64_of a) (f64_of b) then b else a)"

definition f64_min :: "u64 \<Rightarrow> u64 \<Rightarrow> u64" where
  "f64_min a b =
     (if fl_is_nan (f64_of a) then b else if fl_is_nan (f64_of b) then a
      else if fl_lt (f64_of b) (f64_of a) then b else a)"

definition asset_operation :: "string \<Rightarrow> string \<Rightarrow> bool" where
  "asset_operation cls m \<longleftrightarrow>
     cls \<in> {''haxe.Json'', ''Json''} \<and> m = ''parse'' \<or>
     cls \<in> {''haxe.crypto.Md5'', ''Md5''} \<and> m = ''encode'' \<or>
     cls \<in> {''haxe.io.Bytes'', ''Bytes''} \<and> m = ''ofString'' \<or>
     cls \<in> {''sys.io.File'', ''File''} \<and> m = ''getBytes'' \<or>
     cls \<in> {''sys.FileSystem'', ''FileSystem''} \<and> m = ''createDirectory'' \<or>
     cls \<in> {''haxe.macro.Context'', ''Context''} \<and> m \<in> {''addResource'', ''getResources''}"

definition float_arg :: "MacroValue list \<Rightarrow> nat \<Rightarrow> u64" where
  "float_arg args i = (case as_float (args ! i) of Some f \<Rightarrow> f | None \<Rightarrow> 0)"

definition trace_text :: "Host \<Rightarrow> MacroValue list \<Rightarrow> string" where
  "trace_text h args = join_texts '','' (map (to_display_string h) args)"

text \<open>What a static method without code gives: a value, or a line of trace output with null.\<close>

definition static_value :: "Host \<Rightarrow> string \<Rightarrow> string \<Rightarrow> MacroValue list \<Rightarrow> MacroValue" where
  "static_value h cls m args =
     (if cls = ''Std'' \<and> m = ''string'' then
        (case args of [] \<Rightarrow> MString ''null'' | v # _ \<Rightarrow> MString (to_display_string h v))
      else if cls = ''Std'' \<and> m = ''parseInt'' then
        (case Option.bind (first_string args) parse_i64 of Some i \<Rightarrow> MInt i | None \<Rightarrow> MNull)
      else if cls = ''Std'' \<and> m = ''parseFloat'' then
        (case Option.bind (first_string args) (h_parse_float h) of Some f \<Rightarrow> MFloat f | None \<Rightarrow> MNull)
      else if cls = ''Math'' \<and> m = ''floor'' then
        (case Option.bind (nth_value 0 args) as_float of
           Some f \<Rightarrow> MInt (f64_as_i64 (f64_floor f)) | None \<Rightarrow> MNull)
      else if cls = ''Math'' \<and> m = ''ceil'' then
        (case Option.bind (nth_value 0 args) as_float of
           Some f \<Rightarrow> MInt (f64_as_i64 (f64_ceil f)) | None \<Rightarrow> MNull)
      else if cls = ''Math'' \<and> m = ''abs'' then
        (case args of
           MInt i # _ \<Rightarrow> MInt (if sint i < 0 then - i else i)
         | MFloat f # _ \<Rightarrow> MFloat (f64_abs f)
         | _ \<Rightarrow> MNull)
      else if cls = ''Math'' \<and> m = ''max'' \<and> 2 \<le> length args then
        MFloat (f64_max (float_arg args 0) (float_arg args 1))
      else if cls = ''Math'' \<and> m = ''min'' \<and> 2 \<le> length args then
        MFloat (f64_min (float_arg args 0) (float_arg args 1))
      else MNull)"

definition is_trace :: "string \<Rightarrow> string \<Rightarrow> bool" where
  "is_trace cls m \<longleftrightarrow>
     cls \<in> {''trace'', ''Sys''} \<and> m = ''println'' \<or> m = ''trace'' \<or>
     cls = ''trace''"

definition call_static ::
  "Host \<Rightarrow> string \<Rightarrow> string \<Rightarrow> MacroValue list \<Rightarrow> MacroValue vm" where
  "call_static h cls m args s =
     (if cls \<in> {''Sys'', ''sys.Sys''} then Inl (vm_err ''Sys operations require the macro host'')
      else if asset_operation cls m then Inl (vm_err ''asset operations require the macro host'')
      else if is_trace cls m then Inr (MNull, s\<lparr>vm_trace := vm_trace s @ [trace_text h args]\<rparr>)
      else Inr (static_value h cls m args, s))"

end
