(* ===== verification/BcMachine.thy ===== *)
theory BcMachine
  imports BcVm
begin

text \<open>
  The machine's steps (\<open>MacroVm::run\<close> and \<open>execute\<close> of \<open>macro_system/bytecode/vm.rs\<close>). Every step
  reads one operation of the running frame, moves past it and its operands, and acts.
\<close>

section \<open>The running frame\<close>

abbreviation top_frame :: "MacroVm \<Rightarrow> CallFrame" where
  "top_frame s \<equiv> hd (vm_frames s)"

definition set_ip :: "nat \<Rightarrow> MacroVm \<Rightarrow> MacroVm" where
  "set_ip ip s = s\<lparr>vm_frames := (top_frame s)\<lparr>cf_ip := ip\<rparr> # tl (vm_frames s)\<rparr>"

definition take_u16 :: "u16 vm" where
  "take_u16 s =
     rbind (ok_or VmPanic (fetch_u16 (ch_code (cf_chunk (top_frame s))) (cf_ip (top_frame s))))
       (\<lambda>v. Inr (v, set_ip (cf_ip (top_frame s) + 2) s))"

definition take_u8 :: "u8 vm" where
  "take_u8 s =
     rbind (ok_or VmPanic (fetch_u8 (ch_code (cf_chunk (top_frame s))) (cf_ip (top_frame s))))
       (\<lambda>v. Inr (v, set_ip (cf_ip (top_frame s) + 1) s))"

definition vm_jump :: "u16 \<Rightarrow> MacroVm \<Rightarrow> MacroVm" where
  "vm_jump off s = set_ip (add_offset (cf_ip (top_frame s)) off) s"

definition vm_error :: "string \<Rightarrow> 'a vm" where
  "vm_error m s = Inl (VmError m (span_at (cf_chunk (top_frame s)) (cf_ip (top_frame s) - 1)))"

definition get_string_constant :: "u16 \<Rightarrow> string vm" where
  "get_string_constant idx s =
     (let ks = ch_constants (cf_chunk (top_frame s)); i = unat idx
      in if i < length ks then
           (case ks ! i of
              MString t \<Rightarrow> Inr (t, s)
            | v \<Rightarrow> Inl (vm_err (''expected string constant at index '' @ show_nat i @ '', got '' @ type_name v)))
         else Inl (vm_err (''constant index '' @ show_nat i @ '' out of bounds (pool size: '' @
                     show_nat (length ks) @ '')'')))"

section \<open>The value stack\<close>

definition vm_push :: "MacroValue \<Rightarrow> MacroVm \<Rightarrow> MacroVm" where
  "vm_push v s = s\<lparr>vm_stack := vm_stack s @ [v]\<rparr>"

definition vm_pop :: "MacroValue vm" where
  "vm_pop s =
     (if vm_stack s = [] then Inl (vm_err ''stack underflow'')
      else Inr (last (vm_stack s), s\<lparr>vm_stack := butlast (vm_stack s)\<rparr>))"

definition vm_peek :: "MacroVm \<Rightarrow> MacroValue" where
  "vm_peek s = (if vm_stack s = [] then MNull else last (vm_stack s))"

fun pop_args :: "nat \<Rightarrow> MacroValue list vm" where
  "pop_args 0 s = Inr ([], s)"
| "pop_args (Suc k) s =
     rbind (vm_pop s) (\<lambda>(v, s1). rbind (pop_args k s1) (\<lambda>(vs, s2). Inr (vs @ [v], s2)))"

text \<open>\<open>stack.drain(len - n..)\<close>: panics where there are fewer.\<close>

definition drain :: "nat \<Rightarrow> MacroValue list vm" where
  "drain n s =
     (let st = vm_stack s; k = length st - n
      in if length st < n then Inl VmPanic else Inr (drop k st, s\<lparr>vm_stack := take k st\<rparr>))"

definition binary_op :: "(MacroValue \<Rightarrow> MacroValue \<Rightarrow> VmFail + MacroValue) \<Rightarrow> unit vm" where
  "binary_op f s =
     rbind (vm_pop s) (\<lambda>(b, s1). rbind (vm_pop s1) (\<lambda>(a, s2).
       rbind (f a b) (\<lambda>v. Inr ((), vm_push v s2))))"

definition unary_op :: "(MacroValue \<Rightarrow> string + MacroValue) \<Rightarrow> unit vm" where
  "unary_op f s =
     rbind (vm_pop s) (\<lambda>(v, s1).
       case f v of Inl m \<Rightarrow> vm_error m s1 | Inr w \<Rightarrow> Inr ((), vm_push w s1))"

section \<open>Locals\<close>

definition local_index :: "u16 \<Rightarrow> MacroVm \<Rightarrow> nat" where
  "local_index slot s = cf_bp (top_frame s) + unat slot"

definition load_local :: "u16 \<Rightarrow> unit vm" where
  "load_local slot s =
     (let i = local_index slot s
      in if i < length (vm_stack s) then Inr ((), vm_push (vm_stack s ! i) s) else Inl VmPanic)"

definition store_local :: "u16 \<Rightarrow> unit vm" where
  "store_local slot s =
     (let i = local_index slot s
      in if i < length (vm_stack s) then Inr ((), s\<lparr>vm_stack := (vm_stack s)[i := vm_peek s]\<rparr>)
         else Inl VmPanic)"

text \<open>\<open>DefineLocal\<close> grows the stack with nulls up to the slot.\<close>

definition define_local :: "u16 \<Rightarrow> unit vm" where
  "define_local slot s =
     Inr ((), s\<lparr>vm_stack := set_element (local_index slot s) (vm_peek s) (vm_stack s)\<rparr>)"

section \<open>Shared storage\<close>

definition replace_references :: "MacroValue \<Rightarrow> MacroValue \<Rightarrow> MacroVm \<Rightarrow> MacroVm" where
  "replace_references old new s =
     (if reference_key old = None \<or> same_reference old new then s
      else (case replace_values old new (vm_stack s) ([], vm_next s) of
              (st, c, us, n) \<Rightarrow>
                s\<lparr>vm_stack := st, vm_next := n, vm_updates := vm_updates s @ [(old, new)]\<rparr>))"

definition exec_set_index :: "unit vm" where
  "exec_set_index s =
     rbind (vm_pop s) (\<lambda>(v, s1). rbind (vm_pop s1) (\<lambda>(index, s2). rbind (vm_pop s2) (\<lambda>(base, s3).
       rbind (set_index base index v (vm_next s3)) (\<lambda>(base', n).
         Inr ((), vm_push v (replace_references base base' (s3\<lparr>vm_next := n\<rparr>)))))))"

definition exec_set_field :: "u16 \<Rightarrow> unit vm" where
  "exec_set_field idx s =
     rbind (vm_pop s) (\<lambda>(v, s1). rbind (vm_pop s1) (\<lambda>(base, s2).
       rbind (get_string_constant idx s2) (\<lambda>(name, s3).
         rbind (set_field base name v (vm_next s3)) (\<lambda>(base', n).
           Inr ((), vm_push v (s3\<lparr>vm_next := n\<rparr>))))))"

definition exec_set_field_local :: "u16 \<Rightarrow> u16 \<Rightarrow> unit vm" where
  "exec_set_field_local slot idx s =
     rbind (vm_pop s) (\<lambda>(v, s1). rbind (get_string_constant idx s1) (\<lambda>(name, s2).
       let i = local_index slot s2
       in if length (vm_stack s2) \<le> i then Inl VmPanic
          else case vm_stack s2 ! i of
                 MObject a fs \<Rightarrow>
                   Inr ((), vm_push v (s2\<lparr>vm_stack := (vm_stack s2)[i := MObject (vm_next s2) (bt_insert name v fs)],
                                         vm_next := vm_next s2 + 1\<rparr>))
               | w \<Rightarrow> vm_error (''cannot set field on '' @ type_name w) s2))"

definition exec_get_field :: "u16 \<Rightarrow> unit vm" where
  "exec_get_field idx s =
     rbind (vm_pop s) (\<lambda>(base, s1). rbind (get_string_constant idx s1) (\<lambda>(name, s2).
       rbind (get_field base name) (\<lambda>v. Inr ((), vm_push v s2))))"

definition exec_get_field_opt :: "u16 \<Rightarrow> unit vm" where
  "exec_get_field_opt idx s =
     rbind (vm_pop s) (\<lambda>(base, s1).
       if base = MNull then Inr ((), vm_push MNull s1)
       else rbind (get_string_constant idx s1) (\<lambda>(name, s2).
              rbind (get_field base name) (\<lambda>v. Inr ((), vm_push v s2))))"

definition exec_get_index :: "unit vm" where
  "exec_get_index = binary_op get_index"

section \<open>Collections\<close>

definition alloc :: "(nat \<Rightarrow> MacroValue) \<Rightarrow> MacroVm \<Rightarrow> MacroVm" where
  "alloc mk s = (vm_push (mk (vm_next s)) s)\<lparr>vm_next := vm_next s + 1\<rparr>"

fun pairs_of :: "'a list \<Rightarrow> ('a \<times> 'a) list" where
  "pairs_of (k # v # xs) = (k, v) # pairs_of xs"
| "pairs_of _ = []"

definition object_of :: "MacroValue list \<Rightarrow> (string \<times> MacroValue) list" where
  "object_of items =
     fold (\<lambda>(k, v) m. case k of MString name \<Rightarrow> bt_insert name v m | _ \<Rightarrow> m) (pairs_of items) []"

definition map_of_items :: "MacroValue list \<Rightarrow> (MacroValue \<times> MacroValue) list" where
  "map_of_items items = fold (\<lambda>(k, v) m. insert_map_entry m k v) (pairs_of items) []"

definition exec_make_array :: "u16 \<Rightarrow> unit vm" where
  "exec_make_array count s =
     rbind (drain (unat count) s) (\<lambda>(vs, s1). Inr ((), alloc (\<lambda>n. MArray n vs) s1))"

definition exec_make_object :: "u16 \<Rightarrow> unit vm" where
  "exec_make_object count s =
     rbind (drain (unat count * 2) s) (\<lambda>(vs, s1). Inr ((), alloc (\<lambda>n. MObject n (object_of vs)) s1))"

definition exec_make_map :: "u16 \<Rightarrow> unit vm" where
  "exec_make_map count s =
     rbind (drain (unat count * 2) s) (\<lambda>(vs, s1). Inr ((), alloc (\<lambda>n. MMap n (map_of_items vs)) s1))"

section \<open>Calls\<close>

text \<open>
  A compiled function gets a frame of its own above the caller's values: \<open>this\<close> where it has one,
  a value for every parameter, null for the other locals.
\<close>

definition bind_params :: "Chunk \<Rightarrow> MacroValue list \<Rightarrow> MacroValue list" where
  "bind_params ch args =
     map (\<lambda>i. if i < length args then args ! i else MNull) [0..<length (ch_params ch)]"

definition enter_chunk :: "Chunk \<Rightarrow> MacroValue list \<Rightarrow> MacroValue list \<Rightarrow> MacroVm \<Rightarrow> MacroVm" where
  "enter_chunk ch this args s =
     (let locals = this @ bind_params ch args
      in s\<lparr>vm_stack := vm_stack s @ locals @ replicate (unat (ch_local_count ch) - length locals) MNull,
           vm_frames := \<lparr>cf_chunk = ch, cf_ip = 0, cf_bp = length (vm_stack s)\<rparr> # vm_frames s\<rparr>)"

definition vm_call_function :: "'a vm" where
  "vm_call_function = vfail (vm_err ''function values require the macro interpreter'')"

definition call_method :: "Host \<Rightarrow> MacroValue \<Rightarrow> string \<Rightarrow> MacroValue list \<Rightarrow> MacroValue vm" where
  "call_method h base m args s =
     (case mutate_map base m args (vm_next s) of
        Some (r, updated, n) \<Rightarrow> Inr (r, replace_references base updated (s\<lparr>vm_next := n\<rparr>))
      | None \<Rightarrow>
          (case base of
             MArray a vs \<Rightarrow>
               rbind (call_array_method h a vs m args (vm_next s)) (\<lambda>(v, n). Inr (v, s\<lparr>vm_next := n\<rparr>))
           | MMap a es \<Rightarrow>
               (case map_method h base m args (vm_next s) of
                  Some (v, n) \<Rightarrow> Inr (v, s\<lparr>vm_next := n\<rparr>)
                | None \<Rightarrow> Inl (vm_err (''unsupported Map method: '' @ m)))
           | MString t \<Rightarrow>
               rbind (call_string_method h t m args (vm_next s)) (\<lambda>(v, n). Inr (v, s\<lparr>vm_next := n\<rparr>))
           | MObject a fs \<Rightarrow>
               (if object_type fs = Some ''haxe.iterators.ArrayIterator'' then
                  Inl (vm_err ''iterator protocol requires the macro host'')
                else case map_of fs m of
                       Some (MFunction f name) \<Rightarrow> vm_call_function s
                     | _ \<Rightarrow> Inr (MNull, s))
           | _ \<Rightarrow> Inl (vm_err (''cannot call method '' @ [char_of (39 :: nat)] @ m @ [char_of (39 :: nat)] @
                       '' on '' @ type_name base))))"

definition instance_method :: "MacroVm \<Rightarrow> MacroValue \<Rightarrow> string \<Rightarrow> Chunk option" where
  "instance_method s base m =
     (case base of
        MObject a fs \<Rightarrow>
          (case map_of fs ''__type__'' of
             Some (MString t) \<Rightarrow>
               Option.bind (map_of (vm_classes s) t) (\<lambda>ci. map_of (cc_instance_methods ci) m)
           | _ \<Rightarrow> None)
      | _ \<Rightarrow> None)"

definition is_string_buf :: "MacroValue \<Rightarrow> bool" where
  "is_string_buf v = (case v of MObject a fs \<Rightarrow> object_type fs = Some ''StringBuf'' | _ \<Rightarrow> False)"

definition exec_call :: "u8 \<Rightarrow> unit vm" where
  "exec_call nargs s =
     rbind (pop_args (unat nargs) s) (\<lambda>(args, s1). rbind (vm_pop s1) (\<lambda>(callee, s2).
       case callee of
         MFunction f name \<Rightarrow> vm_call_function s2
       | _ \<Rightarrow> vm_error (''cannot call '' @ type_name callee) s2))"

definition exec_call_method :: "Host \<Rightarrow> u16 \<Rightarrow> u8 \<Rightarrow> unit vm" where
  "exec_call_method h idx nargs s =
     rbind (pop_args (unat nargs) s) (\<lambda>(args, s1). rbind (vm_pop s1) (\<lambda>(base, s2).
       rbind (get_string_constant idx s2) (\<lambda>(m, s3).
         if is_string_buf base then vm_error ''StringBuf requires the macro host'' s3
         else case instance_method s3 base m of
                Some ch \<Rightarrow> Inr ((), enter_chunk ch [base] args s3)
              | None \<Rightarrow> rbind (call_method h base m args s3) (\<lambda>(v, s4). Inr ((), vm_push v s4)))))"

definition exec_call_static :: "Host \<Rightarrow> u16 \<Rightarrow> u16 \<Rightarrow> u8 \<Rightarrow> unit vm" where
  "exec_call_static h cidx midx nargs s =
     rbind (pop_args (unat nargs) s) (\<lambda>(args, s1). rbind (get_string_constant cidx s1) (\<lambda>(cls, s2).
       rbind (get_string_constant midx s2) (\<lambda>(m, s3).
         case Option.bind (map_of (vm_classes s3) cls) (\<lambda>ci. map_of (cc_static_methods ci) m) of
           Some ch \<Rightarrow> Inr ((), enter_chunk ch [] args s3)
         | None \<Rightarrow> rbind (call_static h cls m args s3) (\<lambda>(v, s4). Inr ((), vm_push v s4)))))"

definition exec_call_builtin :: "Host \<Rightarrow> u16 \<Rightarrow> u8 \<Rightarrow> unit vm" where
  "exec_call_builtin h bid nargs s =
     rbind (pop_args (unat nargs) s) (\<lambda>(args, s1).
       if bid = 0xFFFF then
         Inl (vm_err (''throw: '' @ to_display_string h (case args of [] \<Rightarrow> MNull | v # _ \<Rightarrow> v)))
       else Inr ((), vm_push MNull s1))"

definition is_map_class :: "string \<Rightarrow> bool" where
  "is_map_class c \<longleftrightarrow>
     c \<in> {''Map'', ''haxe.ds.Map'', ''haxe.ds.StringMap'', ''haxe.ds.IntMap'', ''haxe.ds.ObjectMap'',
          ''haxe.ds.EnumValueMap''}"

definition exec_new_object :: "u16 \<Rightarrow> u8 \<Rightarrow> unit vm" where
  "exec_new_object idx nargs s =
     rbind (pop_args (unat nargs) s) (\<lambda>(args, s1). rbind (get_string_constant idx s1) (\<lambda>(cls, s2).
       if cls = ''StringBuf'' then vm_error ''StringBuf requires the macro host'' s2
       else if is_map_class cls then Inr ((), alloc (\<lambda>n. MMap n []) s2)
       else case map_of (vm_classes s2) cls of
              Some ci \<Rightarrow>
                (let fs = fold (\<lambda>(k, v). bt_insert k v) (cc_instance_vars ci)
                            [(''__type__'', MString cls)];
                     obj = MObject (vm_next s2) fs; s3 = s2\<lparr>vm_next := vm_next s2 + 1\<rparr>
                 in case cc_constructor ci of
                      Some ch \<Rightarrow> Inr ((), enter_chunk ch [obj] args s3)
                    | None \<Rightarrow> Inr ((), vm_push obj s3))
            | None \<Rightarrow>
                Inr ((), alloc (\<lambda>n. MObject n
                  (fold (\<lambda>(i, v). bt_insert (''_'' @ show_nat i) v) (zip [0..<length args] args)
                     [(''__type__'', MString cls)])) s2)))"

text \<open>The value of the whole run where the last frame returns.\<close>

definition exec_return :: "MacroValue \<Rightarrow> MacroValue option vm" where
  "exec_return v s =
     (case vm_frames s of
        fr # fr2 # frs \<Rightarrow>
          Inr (None, vm_push v (s\<lparr>vm_frames := fr2 # frs, vm_stack := take (cf_bp fr) (vm_stack s)\<rparr>))
      | _ \<Rightarrow> Inr (Some v, s))"

section \<open>One operation\<close>

definition jump_if :: "(MacroValue \<Rightarrow> bool) \<Rightarrow> unit vm" where
  "jump_if p s =
     rbind (take_u16 s) (\<lambda>(off, s1). rbind (vm_pop s1) (\<lambda>(v, s2).
       Inr ((), if p v then vm_jump off s2 else s2)))"

definition jump_keep :: "(MacroValue \<Rightarrow> bool) \<Rightarrow> unit vm" where
  "jump_keep p s =
     rbind (take_u16 s) (\<lambda>(off, s1). Inr ((), if p (vm_peek s1) then vm_jump off s1 else s1))"

definition with_u16 :: "(u16 \<Rightarrow> unit vm) \<Rightarrow> unit vm" where
  "with_u16 f = vbind take_u16 f"

definition with_u16_u8 :: "(u16 \<Rightarrow> u8 \<Rightarrow> unit vm) \<Rightarrow> unit vm" where
  "with_u16_u8 f = vbind take_u16 (\<lambda>a. vbind take_u8 (f a))"

definition push_const :: "u16 \<Rightarrow> unit vm" where
  "push_const idx s =
     (let ks = ch_constants (cf_chunk (top_frame s))
      in if unat idx < length ks then Inr ((), vm_push (ks ! unat idx) s) else Inl VmPanic)"

definition exec_swap :: "MacroVm \<Rightarrow> MacroVm" where
  "exec_swap s =
     (let st = vm_stack s; n = length st
      in if 2 \<le> n then s\<lparr>vm_stack := st[n - 1 := st ! (n - 2), n - 2 := st ! (n - 1)]\<rparr> else s)"

definition exec_binary :: "Host \<Rightarrow> BcOp \<Rightarrow> unit vm" where
  "exec_binary h op = (case binary_fn h op of Some f \<Rightarrow> binary_op f | None \<Rightarrow> vreturn ())"

text \<open>Everything but the two returns; \<open>act\<close> lifts a function on states.\<close>

definition act :: "(MacroVm \<Rightarrow> MacroVm) \<Rightarrow> unit vm" where
  "act f s = Inr ((), f s)"

definition exec_basic :: "Host \<Rightarrow> BcOp \<Rightarrow> unit vm" where
  "exec_basic h op =
     (case op of
        BcConst \<Rightarrow> with_u16 push_const
      | BcPushNull \<Rightarrow> act (vm_push MNull)
      | BcPushTrue \<Rightarrow> act (vm_push (MBool True))
      | BcPushFalse \<Rightarrow> act (vm_push (MBool False))
      | BcPushInt0 \<Rightarrow> act (vm_push (MInt 0))
      | BcPushInt1 \<Rightarrow> act (vm_push (MInt 1))
      | BcPop \<Rightarrow> act (\<lambda>s. s\<lparr>vm_stack := butlast (vm_stack s)\<rparr>)
      | BcLoadLocal \<Rightarrow> with_u16 load_local
      | BcStoreLocal \<Rightarrow> with_u16 store_local
      | BcDefineLocal \<Rightarrow> with_u16 define_local
      | BcLoadUpvalue \<Rightarrow> with_u16 (\<lambda>_. act (vm_push MNull))
      | BcNot \<Rightarrow> unary_op (unary_fn BcNot)
      | BcNeg \<Rightarrow> unary_op (unary_fn BcNeg)
      | BcBitNot \<Rightarrow> unary_op (unary_fn BcBitNot)
      | BcIncr \<Rightarrow> unary_op (unary_fn BcIncr)
      | BcDecr \<Rightarrow> unary_op (unary_fn BcDecr)
      | BcJump \<Rightarrow> with_u16 (\<lambda>off. act (vm_jump off))
      | BcJumpIfFalse \<Rightarrow> jump_if (\<lambda>v. \<not> is_truthy v)
      | BcJumpIfTrue \<Rightarrow> jump_if is_truthy
      | BcJumpIfFalseKeep \<Rightarrow> jump_keep (\<lambda>v. \<not> is_truthy v)
      | BcJumpIfTrueKeep \<Rightarrow> jump_keep is_truthy
      | BcCall \<Rightarrow> vbind take_u8 exec_call
      | BcCallMethod \<Rightarrow> with_u16_u8 (exec_call_method h)
      | BcCallStatic \<Rightarrow> with_u16 (\<lambda>c. with_u16_u8 (exec_call_static h c))
      | BcCallBuiltin \<Rightarrow> with_u16_u8 (exec_call_builtin h)
      | BcCallMacroDef \<Rightarrow> with_u16_u8 (\<lambda>_ n. vbind (pop_args (unat n)) (\<lambda>_. act (vm_push MNull)))
      | BcGetField \<Rightarrow> with_u16 exec_get_field
      | BcSetField \<Rightarrow> with_u16 exec_set_field
      | BcGetFieldOpt \<Rightarrow> with_u16 exec_get_field_opt
      | BcGetIndex \<Rightarrow> exec_get_index
      | BcSetIndex \<Rightarrow> exec_set_index
      | BcSetFieldLocal \<Rightarrow> with_u16 (\<lambda>slot. with_u16 (exec_set_field_local slot))
      | BcMakeArray \<Rightarrow> with_u16 exec_make_array
      | BcMakeObject \<Rightarrow> with_u16 exec_make_object
      | BcMakeMap \<Rightarrow> with_u16 exec_make_map
      | BcMakeClosure \<Rightarrow> vm_error ''closures require the macro interpreter''
      | BcNewObject \<Rightarrow> with_u16_u8 exec_new_object
      | BcDollarSplice \<Rightarrow> with_u16 (\<lambda>_. vreturn ())
      | BcDup \<Rightarrow> act (\<lambda>s. vm_push (vm_peek s) s)
      | BcSwap \<Rightarrow> act exec_swap
      | _ \<Rightarrow> exec_binary h op)"

definition vm_exec_op :: "Host \<Rightarrow> BcOp \<Rightarrow> MacroValue option vm" where
  "vm_exec_op h op =
     (case op of
        BcReturn \<Rightarrow> vbind vm_pop exec_return
      | BcReturnNull \<Rightarrow> exec_return MNull
      | _ \<Rightarrow> vbind (exec_basic h op) (\<lambda>_. vreturn None))"

section \<open>The loop\<close>

fun hex_digit :: "nat \<Rightarrow> char" where
  "hex_digit n = (if n < 10 then char_of (48 + n) else char_of (87 + n))"

definition unknown_opcode :: "u8 \<Rightarrow> nat \<Rightarrow> string" where
  "unknown_opcode b ip =
     ''unknown opcode 0x'' @ [hex_digit (unat b div 16), hex_digit (unat b mod 16)] @
     '' at offset '' @ show_nat ip"

definition vm_step :: "Host \<Rightarrow> MacroValue option vm" where
  "vm_step h s =
     (let fr = top_frame s; code = ch_code (cf_chunk fr); ip = cf_ip fr
      in if length code \<le> ip then Inr (Some MNull, s)
         else case from_byte (code ! ip) of
                None \<Rightarrow> Inl (VmError (unknown_opcode (code ! ip) ip) (span_at (cf_chunk fr) ip))
              | Some op \<Rightarrow> vm_exec_op h op (set_ip (ip + 1) s))"

definition budget_error :: VmFail where
  "budget_error = vm_err ''macro ran past its time budget and was stopped''"

fun vm_run :: "Host \<Rightarrow> nat \<Rightarrow> MacroValue vm" where
  "vm_run h 0 s = Inl budget_error"
| "vm_run h (Suc n) s =
     rbind (vm_step h s) (\<lambda>(r, s'). case r of Some v \<Rightarrow> Inr (v, s') | None \<Rightarrow> vm_run h n s')"

definition initial_vm :: "Chunk \<Rightarrow> MacroValue list \<Rightarrow> MacroVm \<Rightarrow> MacroVm" where
  "initial_vm ch args s =
     s\<lparr>vm_stack := map (\<lambda>i. if i < length args then args ! i else MNull) [0..<unat (ch_local_count ch)],
       vm_frames := [\<lparr>cf_chunk = ch, cf_ip = 0, cf_bp = 0\<rparr>], vm_trace := [], vm_updates := []\<rparr>"

definition vm_execute :: "Host \<Rightarrow> nat \<Rightarrow> Chunk \<Rightarrow> MacroValue list \<Rightarrow> MacroValue vm" where
  "vm_execute h budget ch args s = vm_run h budget (initial_vm ch args s)"

definition take_reference_updates :: "MacroVm \<Rightarrow> (MacroValue \<times> MacroValue) list \<times> MacroVm" where
  "take_reference_updates s = (vm_updates s, s\<lparr>vm_updates := []\<rparr>)"

definition new_vm :: MacroVm where
  "new_vm = \<lparr>vm_stack = [], vm_frames = [], vm_trace = [], vm_classes = [], vm_updates = [], vm_next = 0\<rparr>"

end
