(* ===== verification/BcCompile.thy ===== *)
theory BcCompile
  imports BcChunk "HOL-Library.AList"
begin

text \<open>
  The bytecode compiler (\<open>macro_system/bytecode/compiler.rs\<close>). Its state is threaded through; scopes
  and loops are stacks with the innermost at the head. The parts of \<open>compile_expr\<close> that the source
  keeps in methods of their own are definitions over the function that compiles a subexpression, so
  that each can be read and proved about alone; \<open>compile_expr\<close> ties the knot. A panic is
  \<open>CompilePanic\<close>: a pool with more than 65536 entries. Messages leave out what the source prints of a
  node with its debug format.
\<close>

datatype CompileFail = CompileError string Span | CompilePanic

record LocalResolver =
  lr_scopes :: "(string \<times> u16) list list"
  lr_next_slot :: u16

record LoopContext =
  lc_condition_offset :: nat
  lc_break_patches :: "nat list"

record BytecodeCompiler =
  bc_code :: Emitter
  bc_chunk :: Chunk
  bc_locals :: LocalResolver
  bc_loops :: "LoopContext list"

type_synonym 'a compiled = "CompileFail + 'a"
type_synonym subcompiler = "Expr \<Rightarrow> BytecodeCompiler \<Rightarrow> BytecodeCompiler compiled"

section \<open>Scopes\<close>

definition new_resolver :: LocalResolver where
  "new_resolver = \<lparr>lr_scopes = [[]], lr_next_slot = 0\<rparr>"

definition define_slot :: "string \<Rightarrow> LocalResolver \<Rightarrow> u16 \<times> LocalResolver" where
  "define_slot name r =
     (let slot = lr_next_slot r
      in (slot, r\<lparr>lr_next_slot := slot + 1,
                  lr_scopes := (case lr_scopes r of [] \<Rightarrow> [] | m # ms \<Rightarrow> AList.update name slot m # ms)\<rparr>))"

fun resolve_in :: "string \<Rightarrow> (string \<times> u16) list list \<Rightarrow> u16 option" where
  "resolve_in name [] = None"
| "resolve_in name (m # ms) = (case map_of m name of Some slot \<Rightarrow> Some slot | None \<Rightarrow> resolve_in name ms)"

definition resolve :: "string \<Rightarrow> BytecodeCompiler \<Rightarrow> u16 option" where
  "resolve name c = resolve_in name (lr_scopes (bc_locals c))"

definition push_scope :: "BytecodeCompiler \<Rightarrow> BytecodeCompiler" where
  "push_scope c = c\<lparr>bc_locals := (bc_locals c)\<lparr>lr_scopes := [] # lr_scopes (bc_locals c)\<rparr>\<rparr>"

definition pop_scope :: "BytecodeCompiler \<Rightarrow> BytecodeCompiler" where
  "pop_scope c = c\<lparr>bc_locals := (bc_locals c)\<lparr>lr_scopes := tl (lr_scopes (bc_locals c))\<rparr>\<rparr>"

definition define_local_var :: "string \<Rightarrow> BytecodeCompiler \<Rightarrow> u16 \<times> BytecodeCompiler" where
  "define_local_var name c =
     (let (slot, r) = define_slot name (bc_locals c) in (slot, c\<lparr>bc_locals := r\<rparr>))"

definition register_name :: "u16 \<Rightarrow> string \<Rightarrow> BytecodeCompiler \<Rightarrow> BytecodeCompiler" where
  "register_name slot name c = c\<lparr>bc_chunk := register_local_name slot name (bc_chunk c)\<rparr>"

section \<open>Emitting\<close>

definition emits :: "(Emitter \<Rightarrow> Emitter) \<Rightarrow> BytecodeCompiler \<Rightarrow> BytecodeCompiler" where
  "emits f c = c\<lparr>bc_code := f (bc_code c)\<rparr>"

definition begin_jump :: "BcOp \<Rightarrow> BytecodeCompiler \<Rightarrow> nat \<times> BytecodeCompiler" where
  "begin_jump op c = (let (p, code) = emit_jump op (bc_code c) in (p, c\<lparr>bc_code := code\<rparr>))"

definition patch :: "nat \<Rightarrow> BytecodeCompiler \<Rightarrow> BytecodeCompiler compiled" where
  "patch p c = (case patch_jump p (bc_code c) of None \<Rightarrow> Inl CompilePanic | Some code \<Rightarrow> Inr (c\<lparr>bc_code := code\<rparr>))"

fun patch_all :: "nat list \<Rightarrow> BytecodeCompiler \<Rightarrow> BytecodeCompiler compiled" where
  "patch_all [] c = Inr c"
| "patch_all (p # ps) c = rbind (patch p c) (patch_all ps)"

definition pool ::
  "(Chunk \<Rightarrow> (u16 \<times> Chunk) option) \<Rightarrow> BytecodeCompiler \<Rightarrow> (u16 \<times> BytecodeCompiler) compiled" where
  "pool f c =
     (case f (bc_chunk c) of None \<Rightarrow> Inl CompilePanic | Some (i, ch) \<Rightarrow> Inr (i, c\<lparr>bc_chunk := ch\<rparr>))"

definition emit_const :: "MacroValue \<Rightarrow> BytecodeCompiler \<Rightarrow> BytecodeCompiler compiled" where
  "emit_const v c = rbind (pool (add_constant v) c) (\<lambda>(i, c1). Inr (emits (emit_u16 BcConst i) c1))"

definition emit_named :: "BcOp \<Rightarrow> string \<Rightarrow> BytecodeCompiler \<Rightarrow> BytecodeCompiler compiled" where
  "emit_named op name c = rbind (pool (intern_string name) c) (\<lambda>(i, c1). Inr (emits (emit_u16 op i) c1))"

definition undefined_variable :: "string \<Rightarrow> Span \<Rightarrow> CompileFail" where
  "undefined_variable name sp =
     CompileError (''undefined variable '' @ [char_of (39 :: nat)] @ name @ [char_of (39 :: nat)]) sp"

definition load_var :: "string \<Rightarrow> Span \<Rightarrow> BytecodeCompiler \<Rightarrow> BytecodeCompiler compiled" where
  "load_var name sp c =
     (case resolve name c of
        Some slot \<Rightarrow> Inr (emits (emit_u16 BcLoadLocal slot) c)
      | None \<Rightarrow> Inl (undefined_variable name sp))"

text \<open>A new local with the value on the stack: \<open>DefineLocal\<close> leaves it there.\<close>

definition define_var :: "string \<Rightarrow> BytecodeCompiler \<Rightarrow> BytecodeCompiler" where
  "define_var name c =
     (let (slot, c1) = define_local_var name c
      in emits (emit_u16 BcDefineLocal slot) (register_name slot name c1))"

text \<open>The temporaries of loops and switches: not registered, and their value is popped.\<close>

definition define_temp :: "string \<Rightarrow> BytecodeCompiler \<Rightarrow> u16 \<times> BytecodeCompiler" where
  "define_temp name c =
     (let (slot, c1) = define_local_var name c
      in (slot, emits (emit_op BcPop) (emits (emit_u16 BcDefineLocal slot) c1)))"

fun cfold :: "('a \<Rightarrow> BytecodeCompiler \<Rightarrow> BytecodeCompiler compiled) \<Rightarrow> 'a list \<Rightarrow>
    BytecodeCompiler \<Rightarrow> BytecodeCompiler compiled" where
  "cfold f [] c = Inr c"
| "cfold f (x # xs) c = rbind (f x c) (cfold f xs)"

lemma cfold_cong [fundef_cong]:
  assumes "xs = ys" and "c = d" and "\<And>x e. x \<in> set ys \<Longrightarrow> f x e = g x e"
  shows "cfold f xs c = cfold g ys d"
proof -
  have "cfold f ys d = cfold g ys d" using assms(3)
  proof (induction ys arbitrary: d)
    case (Cons y ys)
    then have "cfold f ys = cfold g ys" by (auto simp: fun_eq_iff)
    with Cons show ?case by simp
  qed simp
  with assms show ?thesis by simp
qed

section \<open>Operators\<close>

fun binary_opcode :: "HxBinaryOp \<Rightarrow> BcOp option" where
  "binary_opcode HAdd = Some BcAdd"
| "binary_opcode HSub = Some BcSub"
| "binary_opcode HMul = Some BcMul"
| "binary_opcode HDiv = Some BcDiv"
| "binary_opcode HMod = Some BcMod"
| "binary_opcode HEq = Some BcEq"
| "binary_opcode HNotEq = Some BcNotEq"
| "binary_opcode HLt = Some BcLt"
| "binary_opcode HLe = Some BcLe"
| "binary_opcode HGt = Some BcGt"
| "binary_opcode HGe = Some BcGe"
| "binary_opcode HBitAnd = Some BcBitAnd"
| "binary_opcode HBitOr = Some BcBitOr"
| "binary_opcode HBitXor = Some BcBitXor"
| "binary_opcode HShl = Some BcShl"
| "binary_opcode HShr = Some BcShr"
| "binary_opcode HUshr = Some BcUshr"
| "binary_opcode HNullCoal = Some BcNullCoal"
| "binary_opcode _ = None"

fun compound_opcode :: "HxAssignOp \<Rightarrow> BcOp option" where
  "compound_opcode HAddAssign = Some BcAdd"
| "compound_opcode HSubAssign = Some BcSub"
| "compound_opcode HMulAssign = Some BcMul"
| "compound_opcode HDivAssign = Some BcDiv"
| "compound_opcode HModAssign = Some BcMod"
| "compound_opcode HAndAssign = Some BcBitAnd"
| "compound_opcode HOrAssign = Some BcBitOr"
| "compound_opcode HXorAssign = Some BcBitXor"
| "compound_opcode HShlAssign = Some BcShl"
| "compound_opcode HShrAssign = Some BcShr"
| "compound_opcode _ = None"

definition emit_binary_op :: "HxBinaryOp \<Rightarrow> Span \<Rightarrow> BytecodeCompiler \<Rightarrow> BytecodeCompiler compiled" where
  "emit_binary_op op sp c =
     (case binary_opcode op of
        Some bc \<Rightarrow> Inr (emits (emit_op bc) c)
      | None \<Rightarrow> Inl (CompileError ''unsupported binary op'' sp))"

definition emit_compound_op :: "HxAssignOp \<Rightarrow> Span \<Rightarrow> BytecodeCompiler \<Rightarrow> BytecodeCompiler compiled" where
  "emit_compound_op op sp c =
     (case compound_opcode op of
        Some bc \<Rightarrow> Inr (emits (emit_op bc) c)
      | None \<Rightarrow> Inl (CompileError ''unsupported compound op'' sp))"

definition inc_dec_opcode :: "HxUnaryOp \<Rightarrow> BcOp" where
  "inc_dec_opcode op = (if op \<in> {HPreIncr, HPostIncr} then BcIncr else BcDecr)"

definition compile_pre_inc_dec ::
  "HxUnaryOp \<Rightarrow> Expr \<Rightarrow> Span \<Rightarrow> BytecodeCompiler \<Rightarrow> BytecodeCompiler compiled" where
  "compile_pre_inc_dec op inner sp c =
     (case e_kind inner of
        EIdent name \<Rightarrow>
          (case resolve name c of
             Some slot \<Rightarrow>
               Inr (emits (emit_u16 BcStoreLocal slot)
                     (emits (emit_op (inc_dec_opcode op)) (emits (emit_u16 BcLoadLocal slot) c)))
           | None \<Rightarrow> Inl (undefined_variable name sp))
      | _ \<Rightarrow> Inl (CompileError ''pre-inc/dec requires identifier'' sp))"

definition compile_post_inc_dec ::
  "HxUnaryOp \<Rightarrow> Expr \<Rightarrow> Span \<Rightarrow> BytecodeCompiler \<Rightarrow> BytecodeCompiler compiled" where
  "compile_post_inc_dec op inner sp c =
     (case e_kind inner of
        EIdent name \<Rightarrow>
          (case resolve name c of
             Some slot \<Rightarrow>
               Inr (emits (emit_op BcPop)
                     (emits (emit_u16 BcStoreLocal slot)
                       (emits (emit_op (inc_dec_opcode op))
                         (emits (emit_op BcDup) (emits (emit_u16 BcLoadLocal slot) c)))))
           | None \<Rightarrow> Inl (undefined_variable name sp))
      | _ \<Rightarrow> Inl (CompileError ''post-inc/dec requires identifier'' sp))"

section \<open>The methods of the compiler\<close>

definition compile_binary ::
  "subcompiler \<Rightarrow> Expr \<Rightarrow> HxBinaryOp \<Rightarrow> Expr \<Rightarrow> Span \<Rightarrow> BytecodeCompiler \<Rightarrow> BytecodeCompiler compiled" where
  "compile_binary ce l op r sp c =
     rbind (ce l c) (\<lambda>c1.
       if op = HAnd \<or> op = HOr then
         (let (p, c2) = begin_jump (if op = HAnd then BcJumpIfFalseKeep else BcJumpIfTrueKeep) c1
          in rbind (ce r (emits (emit_op BcPop) c2)) (patch p))
       else rbind (ce r c1) (emit_binary_op op sp))"

definition compile_unary ::
  "subcompiler \<Rightarrow> HxUnaryOp \<Rightarrow> Expr \<Rightarrow> Span \<Rightarrow> BytecodeCompiler \<Rightarrow> BytecodeCompiler compiled" where
  "compile_unary ce op e sp c =
     (if op = HPreIncr \<or> op = HPreDecr then compile_pre_inc_dec op e sp c
      else if op = HPostIncr \<or> op = HPostDecr then compile_post_inc_dec op e sp c
      else if op = HPostNot then Inl (CompileError ''postfix `!` needs an abstract's @:op(A!)'' sp)
      else rbind (ce e c) (\<lambda>c1.
             Inr (emits (emit_op (if op = HNot then BcNot else if op = HNeg then BcNeg else BcBitNot)) c1)))"

text \<open>\<open>If\<close> and \<open>Ternary\<close>: a missing else branch is null.\<close>

definition compile_if ::
  "subcompiler \<Rightarrow> Expr \<Rightarrow> Expr \<Rightarrow> Expr option \<Rightarrow> BytecodeCompiler \<Rightarrow> BytecodeCompiler compiled" where
  "compile_if ce cond t e c =
     rbind (ce cond c) (\<lambda>c1. let (p1, c2) = begin_jump BcJumpIfFalse c1 in
       rbind (ce t c2) (\<lambda>c3. let (p2, c4) = begin_jump BcJump c3 in
         rbind (patch p1 c4) (\<lambda>c5.
           rbind (case e of Some e' \<Rightarrow> ce e' c5 | None \<Rightarrow> Inr (emits (emit_op BcPushNull) c5))
             (patch p2))))"

definition enter_loop :: "BytecodeCompiler \<Rightarrow> BytecodeCompiler" where
  "enter_loop c =
     c\<lparr>bc_loops := \<lparr>lc_condition_offset = length (bc_code c), lc_break_patches = []\<rparr> # bc_loops c\<rparr>"

text \<open>Leaving a loop patches its breaks to the end of the code.\<close>

definition leave_loop :: "BytecodeCompiler \<Rightarrow> BytecodeCompiler compiled" where
  "leave_loop c =
     (case bc_loops c of
        [] \<Rightarrow> Inl CompilePanic
      | l # ls \<Rightarrow> patch_all (lc_break_patches l) (c\<lparr>bc_loops := ls\<rparr>))"

definition compile_while ::
  "subcompiler \<Rightarrow> Expr \<Rightarrow> Expr \<Rightarrow> BytecodeCompiler \<Rightarrow> BytecodeCompiler compiled" where
  "compile_while ce cond body c =
     (let start = length (bc_code c) in
      rbind (ce cond (enter_loop c)) (\<lambda>c1. let (p, c2) = begin_jump BcJumpIfFalse c1 in
        rbind (ce body c2) (\<lambda>c3.
          rbind (patch p (emits (emit_loop BcJump start) (emits (emit_op BcPop) c3))) (\<lambda>c4.
            rbind (leave_loop c4) (\<lambda>c5. Inr (emits (emit_op BcPushNull) c5))))))"

definition compile_do_while ::
  "subcompiler \<Rightarrow> Expr \<Rightarrow> Expr \<Rightarrow> BytecodeCompiler \<Rightarrow> BytecodeCompiler compiled" where
  "compile_do_while ce body cond c =
     (let start = length (bc_code c) in
      rbind (ce body (enter_loop c)) (\<lambda>c1. rbind (ce cond (emits (emit_op BcPop) c1)) (\<lambda>c2.
        let (p, c3) = begin_jump BcJumpIfFalse c2 in
        rbind (patch p (emits (emit_loop BcJump start) c3)) (\<lambda>c4.
          rbind (leave_loop c4) (\<lambda>c5. Inr (emits (emit_op BcPushNull) c5))))))"

text \<open>Outside of any loop a break is a jump that is never patched, and a continue is nothing.\<close>

definition compile_break :: "BytecodeCompiler \<Rightarrow> BytecodeCompiler" where
  "compile_break c =
     (let (p, c1) = begin_jump BcJump c
      in c1\<lparr>bc_loops := (case bc_loops c1 of
                           [] \<Rightarrow> []
                         | l # ls \<Rightarrow> l\<lparr>lc_break_patches := lc_break_patches l @ [p]\<rparr> # ls)\<rparr>)"

definition compile_continue :: "BytecodeCompiler \<Rightarrow> BytecodeCompiler" where
  "compile_continue c =
     (case bc_loops c of [] \<Rightarrow> c | l # ls \<Rightarrow> emits (emit_loop BcJump (lc_condition_offset l)) c)"

definition compile_for_in ::
  "subcompiler \<Rightarrow> string \<Rightarrow> Expr \<Rightarrow> Expr \<Rightarrow> BytecodeCompiler \<Rightarrow> BytecodeCompiler compiled" where
  "compile_for_in ce var iter body c =
     rbind (ce iter (push_scope c)) (\<lambda>c1.
       let (iter_slot, c2) = define_temp ''__iter'' c1 in
       rbind (emit_named BcGetField ''length'' (emits (emit_u16 BcLoadLocal iter_slot) c2)) (\<lambda>c3.
         let (len_slot, c4) = define_temp ''__len'' c3;
             (idx_slot, c5) = define_temp ''__idx'' (emits (emit_op BcPushInt0) c4);
             (var_slot, c6) = define_local_var var (emits (emit_op BcPushNull) c5);
             c7 = emits (emit_op BcPop) (emits (emit_u16 BcDefineLocal var_slot) (register_name var_slot var c6));
             start = length (bc_code c7);
             c8 = emits (emit_op BcLt) (emits (emit_u16 BcLoadLocal len_slot)
                    (emits (emit_u16 BcLoadLocal idx_slot) (enter_loop c7)));
             (p, c9) = begin_jump BcJumpIfFalse c8;
             c10 = emits (emit_op BcPop) (emits (emit_u16 BcStoreLocal var_slot) (emits (emit_op BcGetIndex)
                     (emits (emit_u16 BcLoadLocal idx_slot) (emits (emit_u16 BcLoadLocal iter_slot) c9))))
         in rbind (ce body c10) (\<lambda>c11.
              let c12 = emits (emit_loop BcJump start) (emits (emit_op BcPop)
                          (emits (emit_u16 BcStoreLocal idx_slot) (emits (emit_op BcIncr)
                            (emits (emit_u16 BcLoadLocal idx_slot) (emits (emit_op BcPop) c11)))))
              in rbind (patch p c12) (\<lambda>c13. rbind (leave_loop c13) (\<lambda>c14.
                   Inr (emits (emit_op BcPushNull) (pop_scope c14)))))))"

fun compile_elements :: "subcompiler \<Rightarrow> Expr BlockElement list \<Rightarrow> BytecodeCompiler \<Rightarrow> BytecodeCompiler compiled" where
  "compile_elements ce [] c = Inr c"
| "compile_elements ce [BlExpr e] c = ce e c"
| "compile_elements ce (BlExpr e # b # bs) c =
     rbind (ce e c) (\<lambda>c1. compile_elements ce (b # bs) (emits (emit_op BcPop) c1))"
| "compile_elements ce [_] c = Inr (emits (emit_op BcPushNull) c)"
| "compile_elements ce (_ # b # bs) c = compile_elements ce (b # bs) c"

definition compile_block ::
  "subcompiler \<Rightarrow> Expr BlockElement list \<Rightarrow> BytecodeCompiler \<Rightarrow> BytecodeCompiler compiled" where
  "compile_block ce bs c =
     rbind (if bs = [] then Inr (emits (emit_op BcPushNull) (push_scope c))
            else compile_elements ce bs (push_scope c))
       (\<lambda>c1. Inr (pop_scope c1))"

text \<open>\<open>xs.len() as u8\<close> and \<open>as u16\<close> keep the low bits.\<close>

definition compile_call ::
  "subcompiler \<Rightarrow> Expr \<Rightarrow> Expr list \<Rightarrow> BytecodeCompiler \<Rightarrow> BytecodeCompiler compiled" where
  "compile_call ce callee args c =
     (case e_kind callee of
        EField base m opt \<Rightarrow>
          (case e_kind base of
             EIdent cls \<Rightarrow>
               (if resolve cls c = None then
                  rbind (pool (intern_string cls) c) (\<lambda>(ci, c1). rbind (pool (intern_string m) c1) (\<lambda>(mi, c2).
                    rbind (cfold ce args c2) (\<lambda>c3.
                      Inr (emits (emit_u16_u16_u8 BcCallStatic ci mi (word_of_nat (length args))) c3))))
                else
                  rbind (ce base c) (\<lambda>c1. rbind (cfold ce args c1) (\<lambda>c2.
                    rbind (pool (intern_string m) c2) (\<lambda>(mi, c3).
                      Inr (emits (emit_u16_u8 BcCallMethod mi (word_of_nat (length args))) c3)))))
           | _ \<Rightarrow>
               rbind (ce base c) (\<lambda>c1. rbind (cfold ce args c1) (\<lambda>c2.
                 rbind (pool (intern_string m) c2) (\<lambda>(mi, c3).
                   Inr (emits (emit_u16_u8 BcCallMethod mi (word_of_nat (length args))) c3)))))
      | _ \<Rightarrow>
          rbind (ce callee c) (\<lambda>c1. rbind (cfold ce args c1) (\<lambda>c2.
            Inr (emits (emit_u8 BcCall (word_of_nat (length args))) c2))))"

text \<open>Assignment: a plain one to an unknown name defines it.\<close>

definition assign_ident ::
  "subcompiler \<Rightarrow> string \<Rightarrow> HxAssignOp \<Rightarrow> Expr \<Rightarrow> Span \<Rightarrow> BytecodeCompiler \<Rightarrow> BytecodeCompiler compiled" where
  "assign_ident ce name op r sp c =
     (if op \<noteq> HAssign then
        (case resolve name c of
           None \<Rightarrow> Inl (undefined_variable name sp)
         | Some slot \<Rightarrow>
             rbind (ce r (emits (emit_u16 BcLoadLocal slot) c)) (\<lambda>c1.
               rbind (emit_compound_op op sp c1) (\<lambda>c2. Inr (emits (emit_u16 BcStoreLocal slot) c2))))
      else
        rbind (ce r c) (\<lambda>c1.
          case resolve name c1 of
            Some slot \<Rightarrow> Inr (emits (emit_u16 BcStoreLocal slot) c1)
          | None \<Rightarrow> Inr (define_var name c1)))"

definition local_of :: "Expr \<Rightarrow> BytecodeCompiler \<Rightarrow> u16 option" where
  "local_of base c = (case e_kind base of EIdent name \<Rightarrow> resolve name c | _ \<Rightarrow> None)"

definition assign_field ::
  "subcompiler \<Rightarrow> Expr \<Rightarrow> string \<Rightarrow> HxAssignOp \<Rightarrow> Expr \<Rightarrow> Span \<Rightarrow> BytecodeCompiler \<Rightarrow> BytecodeCompiler compiled" where
  "assign_field ce base field op r sp c =
     (if op \<noteq> HAssign then
        (case local_of base c of
           Some slot \<Rightarrow>
             rbind (pool (intern_string field) c) (\<lambda>(i, c1).
               rbind (ce r (emits (emit_u16 BcGetField i) (emits (emit_u16 BcLoadLocal slot) c1))) (\<lambda>c2.
                 rbind (emit_compound_op op sp c2) (\<lambda>c3. Inr (emits (emit_u16_u16 BcSetFieldLocal slot i) c3))))
         | None \<Rightarrow>
             rbind (ce base c) (\<lambda>c1.
               rbind (pool (intern_string field) (emits (emit_op BcDup) c1)) (\<lambda>(i, c2).
                 rbind (ce r (emits (emit_u16 BcGetField i) c2)) (\<lambda>c3.
                   rbind (emit_compound_op op sp c3) (\<lambda>c4. Inr (emits (emit_u16 BcSetField i) c4))))))
      else
        rbind (pool (intern_string field) c) (\<lambda>(i, c1).
          case local_of base c of
            Some slot \<Rightarrow> rbind (ce r c1) (\<lambda>c2. Inr (emits (emit_u16_u16 BcSetFieldLocal slot i) c2))
          | None \<Rightarrow>
              rbind (ce base c1) (\<lambda>c2. rbind (ce r c2) (\<lambda>c3. Inr (emits (emit_u16 BcSetField i) c3)))))"

definition assign_index ::
  "subcompiler \<Rightarrow> Expr \<Rightarrow> Expr \<Rightarrow> HxAssignOp \<Rightarrow> Expr \<Rightarrow> Span \<Rightarrow> BytecodeCompiler \<Rightarrow> BytecodeCompiler compiled" where
  "assign_index ce base index op r sp c =
     rbind (ce base c) (\<lambda>c1. rbind (ce index c1) (\<lambda>c2.
       if op \<noteq> HAssign then
         rbind (ce r (emits (emit_op BcDup) c2)) (\<lambda>c3.
           rbind (emit_compound_op op sp c3) (\<lambda>c4. Inr (emits (emit_op BcSetIndex) c4)))
       else rbind (ce r c2) (\<lambda>c3. Inr (emits (emit_op BcSetIndex) c3))))"

definition compile_assignment ::
  "subcompiler \<Rightarrow> Expr \<Rightarrow> HxAssignOp \<Rightarrow> Expr \<Rightarrow> Span \<Rightarrow> BytecodeCompiler \<Rightarrow> BytecodeCompiler compiled" where
  "compile_assignment ce l op r sp c =
     (case e_kind l of
        EIdent name \<Rightarrow> assign_ident ce name op r sp c
      | EField base field opt \<Rightarrow> assign_field ce base field op r sp c
      | EIndex base index \<Rightarrow> assign_index ce base index op r sp c
      | _ \<Rightarrow> Inl (CompileError ''invalid assignment target'' sp))"

definition compile_field ::
  "subcompiler \<Rightarrow> string \<times> Expr \<Rightarrow> BytecodeCompiler \<Rightarrow> BytecodeCompiler compiled" where
  "compile_field ce f c = rbind (emit_named BcConst (fst f) c) (ce (snd f))"

definition compile_entry ::
  "subcompiler \<Rightarrow> Expr \<times> Expr \<Rightarrow> BytecodeCompiler \<Rightarrow> BytecodeCompiler compiled" where
  "compile_entry ce kv c = rbind (ce (fst kv) c) (ce (snd kv))"

definition compile_part ::
  "subcompiler \<Rightarrow> Expr StringPart \<Rightarrow> BytecodeCompiler \<Rightarrow> BytecodeCompiler compiled" where
  "compile_part ce part c =
     (case part of SpLiteral s \<Rightarrow> emit_const (MString s) c | SpInterpolation e \<Rightarrow> ce e c)"

definition compile_string_interpolation ::
  "subcompiler \<Rightarrow> Expr StringPart list \<Rightarrow> BytecodeCompiler \<Rightarrow> BytecodeCompiler compiled" where
  "compile_string_interpolation ce parts c =
     (if parts = [] then emit_const (MString []) c
      else rbind (cfold (compile_part ce) parts c) (\<lambda>c1.
             Inr ((emits (emit_op BcAdd) ^^ (length parts - 1)) c1)))"

text \<open>
  A switch: of the jumps the patterns of a case leave, the last is patched to the next case. Guards
  are not compiled.
\<close>

fun compile_patterns :: "subcompiler \<Rightarrow> u16 \<Rightarrow> Expr Pattern list \<Rightarrow> nat option \<Rightarrow> BytecodeCompiler \<Rightarrow>
    (nat option \<times> BytecodeCompiler) compiled" where
  "compile_patterns ce tmp [] np c = Inr (np, c)"
| "compile_patterns ce tmp (PConst e # ps) np c =
     rbind (ce e (emits (emit_u16 BcLoadLocal tmp) c)) (\<lambda>c1.
       let (p, c2) = begin_jump BcJumpIfFalse (emits (emit_op BcEq) c1)
       in compile_patterns ce tmp ps (Some p) c2)"
| "compile_patterns ce tmp (PUnderscore # ps) np c = compile_patterns ce tmp ps np c"
| "compile_patterns ce tmp (PVar name # ps) np c =
     (let (slot, c1) = define_local_var name (emits (emit_u16 BcLoadLocal tmp) c)
      in compile_patterns ce tmp ps np
           (emits (emit_op BcPop) (emits (emit_u16 BcDefineLocal slot) (register_name slot name c1))))"
| "compile_patterns ce tmp (PUnsupported k # ps) np c =
     (let (p, c1) = begin_jump BcJump c in compile_patterns ce tmp ps (Some p) c1)"

definition patch_option :: "nat option \<Rightarrow> BytecodeCompiler \<Rightarrow> BytecodeCompiler compiled" where
  "patch_option np c = (case np of Some p \<Rightarrow> patch p c | None \<Rightarrow> Inr c)"

fun compile_cases :: "subcompiler \<Rightarrow> u16 \<Rightarrow> Expr Case list \<Rightarrow> nat list \<Rightarrow> BytecodeCompiler \<Rightarrow>
    (nat list \<times> BytecodeCompiler) compiled" where
  "compile_cases ce tmp [] ends c = Inr (ends, c)"
| "compile_cases ce tmp (Case ps guard body # cs) ends c =
     rbind (compile_patterns ce tmp ps None c) (\<lambda>(np, c1).
       rbind (ce body c1) (\<lambda>c2. let (p, c3) = begin_jump BcJump c2 in
         rbind (patch_option np c3) (compile_cases ce tmp cs (ends @ [p]))))"

definition compile_switch ::
  "subcompiler \<Rightarrow> Expr \<Rightarrow> Expr Case list \<Rightarrow> Expr option \<Rightarrow> BytecodeCompiler \<Rightarrow> BytecodeCompiler compiled" where
  "compile_switch ce scrutinee cases dflt c =
     rbind (ce scrutinee c) (\<lambda>c1. let (tmp, c2) = define_temp ''__switch'' c1 in
       rbind (compile_cases ce tmp cases [] c2) (\<lambda>(ends, c3).
         rbind (case dflt of Some e \<Rightarrow> ce e c3 | None \<Rightarrow> Inr (emits (emit_op BcPushNull) c3))
           (patch_all ends)))"

section \<open>Functions\<close>

definition new_compiler :: "string \<Rightarrow> BytecodeCompiler" where
  "new_compiler name =
     \<lparr>bc_code = [], bc_chunk = new_chunk name, bc_locals = new_resolver, bc_loops = []\<rparr>"

definition bind_param :: "string \<Rightarrow> bool \<Rightarrow> BytecodeCompiler \<Rightarrow> BytecodeCompiler" where
  "bind_param name opt c =
     (let (slot, c1) = define_local_var name c; c2 = register_name slot name c1
      in c2\<lparr>bc_chunk := push_param (CompiledParam slot opt None) (bc_chunk c2)\<rparr>)"

definition finish :: "BytecodeCompiler \<Rightarrow> Chunk" where
  "finish c =
     with_local_count (lr_next_slot (bc_locals c)) (with_code (emit_op BcReturn (bc_code c)) (bc_chunk c))"

definition compile_function ::
  "subcompiler \<Rightarrow> string \<Rightarrow> MacroParam list \<Rightarrow> Expr \<Rightarrow> Chunk compiled" where
  "compile_function ce name params body =
     rbind (ce body (fold (\<lambda>p. bind_param (mp_name p) (mp_optional p)) params (new_compiler name)))
       (\<lambda>c. Inr (finish c))"

text \<open>An error inside a function literal is reported at the literal.\<close>

definition compile_closure ::
  "subcompiler \<Rightarrow> string \<Rightarrow> MacroParam list \<Rightarrow> Expr \<Rightarrow> Span \<Rightarrow> BytecodeCompiler \<Rightarrow> BytecodeCompiler compiled" where
  "compile_closure ce name params body sp c =
     (case compile_function ce name params body of
        Inl (CompileError m _) \<Rightarrow> Inl (CompileError m sp)
      | Inl CompilePanic \<Rightarrow> Inl CompilePanic
      | Inr ch \<Rightarrow> rbind (pool (add_closure ch) c) (\<lambda>(i, c1). Inr (emits (emit_u16 BcMakeClosure i) c1)))"

definition compile_function_literal ::
  "subcompiler \<Rightarrow> string \<Rightarrow> FunctionParam list \<Rightarrow> Expr option \<Rightarrow> Span \<Rightarrow> BytecodeCompiler \<Rightarrow>
     BytecodeCompiler compiled" where
  "compile_function_literal ce name params body sp c =
     (case body of
        Some b \<Rightarrow> compile_closure ce name (map from_function_param params) b sp c
      | None \<Rightarrow> Inr (emits (emit_op BcPushNull) c))"

definition compile_arrow ::
  "subcompiler \<Rightarrow> string list \<Rightarrow> Expr \<Rightarrow> Span \<Rightarrow> BytecodeCompiler \<Rightarrow> BytecodeCompiler compiled" where
  "compile_arrow ce params body sp c =
     compile_closure ce ''<arrow>'' (map (\<lambda>n. \<lparr>mp_name = n, mp_optional = False, mp_rest = False\<rparr>) params)
       body sp c"

section \<open>Congruence rules\<close>

text \<open>Every method compiles only parts of what it is given.\<close>

lemma compile_binary_cong [fundef_cong]:
  "l = l' \<Longrightarrow> op = op' \<Longrightarrow> r = r' \<Longrightarrow> sp = sp' \<Longrightarrow> c = c' \<Longrightarrow> (\<And>d. f l' d = g l' d) \<Longrightarrow> (\<And>d. f r' d = g r' d) \<Longrightarrow>
     compile_binary f l op r sp c = compile_binary g l' op' r' sp' c'"
  by (simp add: compile_binary_def cong: if_cong)

lemma compile_unary_cong [fundef_cong]:
  "op = op' \<Longrightarrow> e = e' \<Longrightarrow> sp = sp' \<Longrightarrow> c = c' \<Longrightarrow> (\<And>d. f e' d = g e' d) \<Longrightarrow>
     compile_unary f op e sp c = compile_unary g op' e' sp' c'"
  by (simp add: compile_unary_def cong: if_cong)

lemma compile_if_cong [fundef_cong]:
  "e1 = e1' \<Longrightarrow> t = t' \<Longrightarrow> e = e' \<Longrightarrow> c = c' \<Longrightarrow> (\<And>d. f e1' d = g e1' d) \<Longrightarrow> (\<And>d. f t' d = g t' d) \<Longrightarrow>
     (\<And>x d. e' = Some x \<Longrightarrow> f x d = g x d) \<Longrightarrow> compile_if f e1 t e c = compile_if g e1' t' e' c'"
  by (cases e') (simp_all add: compile_if_def)

lemma compile_while_cong [fundef_cong]:
  "e1 = e1' \<Longrightarrow> t = t' \<Longrightarrow> c = c' \<Longrightarrow> (\<And>d. f e1' d = g e1' d) \<Longrightarrow> (\<And>d. f t' d = g t' d) \<Longrightarrow>
     compile_while f e1 t c = compile_while g e1' t' c'"
  by (simp add: compile_while_def cong: if_cong)

lemma compile_do_while_cong [fundef_cong]:
  "e1 = e1' \<Longrightarrow> t = t' \<Longrightarrow> c = c' \<Longrightarrow> (\<And>d. f e1' d = g e1' d) \<Longrightarrow> (\<And>d. f t' d = g t' d) \<Longrightarrow>
     compile_do_while f e1 t c = compile_do_while g e1' t' c'"
  by (simp add: compile_do_while_def cong: if_cong)

lemma compile_for_in_cong [fundef_cong]:
  "v = v' \<Longrightarrow> e1 = e1' \<Longrightarrow> t = t' \<Longrightarrow> c = c' \<Longrightarrow> (\<And>d. f e1' d = g e1' d) \<Longrightarrow> (\<And>d. f t' d = g t' d) \<Longrightarrow>
     compile_for_in f v e1 t c = compile_for_in g v' e1' t' c'"
  by (simp add: compile_for_in_def cong: if_cong)

lemma compile_elements_cong [fundef_cong]:
  "bs = bs' \<Longrightarrow> c = c' \<Longrightarrow> (\<And>e d. BlExpr e \<in> set bs' \<Longrightarrow> f e d = g e d) \<Longrightarrow>
     compile_elements f bs c = compile_elements g bs' c'"
proof -
  assume eq: "bs = bs'" "c = c'" and fg: "\<And>e d. BlExpr e \<in> set bs' \<Longrightarrow> f e d = g e d"
  from fg have "compile_elements f bs' c' = compile_elements g bs' c'"
  proof (induction g bs' c' rule: compile_elements.induct)
    case (3 ce e b bs c)
    then have "f e c = ce e c"
      and "compile_elements f (b # bs) (emits (emit_op BcPop) c1) =
           compile_elements ce (b # bs) (emits (emit_op BcPop) c1)" if "ce e c = Inr c1" for c1
      using that by auto
    moreover have "f e c = ce e c" using "3.prems" by simp
    ultimately show ?case by (cases "ce e c") auto
  qed auto
  with eq show ?thesis by simp
qed

lemma compile_block_cong [fundef_cong]:
  "bs = bs' \<Longrightarrow> c = c' \<Longrightarrow> (\<And>e d. BlExpr e \<in> set bs' \<Longrightarrow> f e d = g e d) \<Longrightarrow>
     compile_block f bs c = compile_block g bs' c'"
  unfolding compile_block_def by (simp cong: compile_elements_cong if_cong)

definition field_base :: "Expr \<Rightarrow> Expr" where
  "field_base e = (case e_kind e of EField b m opt \<Rightarrow> b | _ \<Rightarrow> e)"

lemma compile_call_cong [fundef_cong]:
  assumes "e = e'" "as = as'" "c = c'" "\<And>d. f e' d = g e' d"
    "\<And>x d. x \<in> set as' \<Longrightarrow> f x d = g x d"
    "\<And>d. f (field_base e') d = g (field_base e') d"
  shows "compile_call f e as c = compile_call g e' as' c'"
proof -
  have args: "cfold f as' = cfold g as'" using assms(5) by (intro ext cfold_cong) auto
  have base: "f b = g b" if "e_kind e' = EField b m opt" for b m opt
    using assms(6) that by (simp add: field_base_def fun_eq_iff)
  have callee: "f e' = g e'" using assms(4) by (rule ext)
  show ?thesis
    using assms(1-3) callee base
    by (auto simp: compile_call_def args split: ExprKind.splits Operation.splits Literal.splits)
qed

lemma assign_ident_eq: "f r = g r \<Longrightarrow> assign_ident f n op r sp c = assign_ident g n op r sp c"
  by (simp add: assign_ident_def cong: option.case_cong if_cong)

lemma assign_field_eq:
  "f b = g b \<Longrightarrow> f r = g r \<Longrightarrow> assign_field f b n op r sp c = assign_field g b n op r sp c"
  by (simp add: assign_field_def cong: option.case_cong if_cong)

lemma assign_index_eq:
  "f b = g b \<Longrightarrow> f i = g i \<Longrightarrow> f r = g r \<Longrightarrow> assign_index f b i op r sp c = assign_index g b i op r sp c"
  by (simp add: assign_index_def cong: if_cong)

lemma compile_assignment_cong [fundef_cong]:
  assumes "l = l'" "op = op'" "r = r'" "sp = sp'" "c = c'" and r: "\<And>d. f r' d = g r' d"
    and "\<And>b m opt d. e_kind l' = EField b m opt \<Longrightarrow> f b d = g b d"
    and "\<And>b i d. e_kind l' = EIndex b i \<Longrightarrow> f b d = g b d"
    and "\<And>b i d. e_kind l' = EIndex b i \<Longrightarrow> f i d = g i d"
  shows "compile_assignment f l op r sp c = compile_assignment g l' op' r' sp' c'"
proof -
  have r': "f r' = g r'" using r by (rule ext)
  have field: "f b = g b" if "e_kind l' = EField b m opt" for b m opt
    using assms(7) [OF that] by (rule ext)
  have index: "f b = g b" "f i = g i" if "e_kind l' = EIndex b i" for b i
    using assms(8,9) [OF that] by (auto simp: fun_eq_iff)
  show ?thesis
    using assms(1-5) field index
    by (auto simp: compile_assignment_def r' intro: assign_ident_eq assign_field_eq assign_index_eq
        split: ExprKind.splits Operation.splits Literal.splits)
qed

lemma compile_field_cong [fundef_cong]:
  "x = x' \<Longrightarrow> c = c' \<Longrightarrow> (\<And>d. f (snd x') d = g (snd x') d) \<Longrightarrow> compile_field f x c = compile_field g x' c'"
  by (cases "emit_named BcConst (fst x') c'") (simp_all add: compile_field_def)

lemma compile_entry_cong [fundef_cong]:
  "x = x' \<Longrightarrow> c = c' \<Longrightarrow> (\<And>d. f (fst x') d = g (fst x') d) \<Longrightarrow> (\<And>d. f (snd x') d = g (snd x') d) \<Longrightarrow>
     compile_entry f x c = compile_entry g x' c'"
  by (cases "g (fst x') c'") (simp_all add: compile_entry_def)

lemma compile_string_interpolation_cong [fundef_cong]:
  assumes "ps = ps'" "c = c'" "\<And>e d. SpInterpolation e \<in> set ps' \<Longrightarrow> f e d = g e d"
  shows "compile_string_interpolation f ps c = compile_string_interpolation g ps' c'"
proof -
  have "cfold (compile_part f) ps' c' = cfold (compile_part g) ps' c'"
    using assms(3) by (intro cfold_cong) (auto simp: compile_part_def split: StringPart.splits)
  with assms(1,2) show ?thesis by (simp add: compile_string_interpolation_def)
qed

lemma compile_patterns_cong:
  assumes "\<And>e d. PConst e \<in> set ps \<Longrightarrow> f e d = g e d"
  shows "compile_patterns f tmp ps np c = compile_patterns g tmp ps np c"
  using assms
proof (induction g tmp ps np c rule: compile_patterns.induct)
  case (2 ce tmp e ps np c)
  then have "f e = ce e" by (auto simp: fun_eq_iff)
  with 2 show ?case by (cases "ce e (emits (emit_u16 BcLoadLocal tmp) c)") (auto simp: Let_def split: prod.splits)
qed (auto simp: Let_def split: prod.splits)

lemma compile_cases_cong:
  assumes "\<And>ps gd b e d. Case ps gd b \<in> set cs \<Longrightarrow> PConst e \<in> set ps \<Longrightarrow> f e d = g e d"
    and "\<And>ps gd b d. Case ps gd b \<in> set cs \<Longrightarrow> f b d = g b d"
  shows "compile_cases f tmp cs = compile_cases g tmp cs"
  using assms
proof (induction cs)
  case Nil
  show ?case by (simp add: fun_eq_iff)
next
  case (Cons x cs)
  obtain ps gd body where x: "x = Case ps gd body" by (cases x)
  have p: "compile_patterns f tmp ps None c = compile_patterns g tmp ps None c" for c
    by (rule compile_patterns_cong) (use Cons.prems(1) x in \<open>meson list.set_intros(1)\<close>)
  have b: "f body = g body" using Cons.prems(2) x by (auto simp: fun_eq_iff)
  have "compile_cases f tmp cs = compile_cases g tmp cs"
    by (rule Cons.IH) (use Cons.prems in \<open>meson list.set_intros(2)\<close>)+
  then show ?case by (intro ext) (simp add: x p b)
qed

lemma compile_switch_cong [fundef_cong]:
  assumes "s = s'" "cs = cs'" "d = d'" "c = c'" "\<And>x. f s' x = g s' x"
    "\<And>ps gd b e x. Case ps gd b \<in> set cs' \<Longrightarrow> PConst e \<in> set ps \<Longrightarrow> f e x = g e x"
    "\<And>ps gd b x. Case ps gd b \<in> set cs' \<Longrightarrow> f b x = g b x"
    "\<And>e x. d' = Some e \<Longrightarrow> f e x = g e x"
  shows "compile_switch f s cs d c = compile_switch g s' cs' d' c'"
proof -
  have "compile_cases f tmp cs' = compile_cases g tmp cs'" for tmp
    by (rule compile_cases_cong) (use assms(6,7) in blast)+
  with assms show ?thesis by (cases d') (simp_all add: compile_switch_def)
qed

lemma compile_function_cong:
  "(\<And>d. f b d = g b d) \<Longrightarrow> compile_function f n ps b = compile_function g n ps b"
  by (simp add: compile_function_def)

lemma compile_function_literal_cong [fundef_cong]:
  "n = n' \<Longrightarrow> ps = ps' \<Longrightarrow> b = b' \<Longrightarrow> sp = sp' \<Longrightarrow> c = c' \<Longrightarrow> (\<And>e d. b' = Some e \<Longrightarrow> f e d = g e d) \<Longrightarrow>
     compile_function_literal f n ps b sp c = compile_function_literal g n' ps' b' sp' c'"
  by (cases b') (simp_all add: compile_function_literal_def compile_closure_def compile_function_def)

lemma compile_arrow_cong [fundef_cong]:
  "ps = ps' \<Longrightarrow> b = b' \<Longrightarrow> sp = sp' \<Longrightarrow> c = c' \<Longrightarrow> (\<And>d. f b' d = g b' d) \<Longrightarrow>
     compile_arrow f ps b sp c = compile_arrow g ps' b' sp' c'"
  by (simp add: compile_arrow_def compile_closure_def compile_function_def)

section \<open>Expressions\<close>

lemma member_size: "x \<in> set xs \<Longrightarrow> f x \<le> size_list f xs"
  by (induction xs) auto

lemma pair_size:
  fixes x y :: "'a::size"
  shows "(x, y) \<in> set ps \<Longrightarrow> size x + size y \<le> size_list (size_prod size size) ps"
    "(s, y) \<in> set qs \<Longrightarrow> size y \<le> size_list (size_prod (\<lambda>_. 0) size) qs"
  by (induction ps, auto) (induction qs, auto)

lemma kind_size:
  "e_kind e = EField b m opt \<Longrightarrow> size b < size e" "e_kind e = EIndex b i \<Longrightarrow> size b < size e \<and> size i < size e"
  by (cases e; simp)+

lemma field_base_size: "size (field_base e) \<le> size e"
  by (cases e) (auto simp: field_base_def split: ExprKind.splits Operation.splits)

function compile_expr :: "Expr \<Rightarrow> BytecodeCompiler \<Rightarrow> BytecodeCompiler compiled" where
  "compile_expr (Expr k sp) c0 =
     (let c = c0\<lparr>bc_chunk := add_span (length (bc_code c0)) sp (bc_chunk c0)\<rparr>
      in case k of
        EInt i \<Rightarrow>
          (if i = 0 then Inr (emits (emit_op BcPushInt0) c)
           else if i = 1 then Inr (emits (emit_op BcPushInt1) c)
           else emit_const (MInt i) c)
      | EFloat f \<Rightarrow> emit_const (MFloat f) c
      | EString s \<Rightarrow> emit_const (MString s) c
      | EBool b \<Rightarrow> Inr (emits (emit_op (if b then BcPushTrue else BcPushFalse)) c)
      | ENull \<Rightarrow> Inr (emits (emit_op BcPushNull) c)
      | EThis \<Rightarrow>
          (case resolve ''this'' c of
             Some slot \<Rightarrow> Inr (emits (emit_u16 BcLoadLocal slot) c)
           | None \<Rightarrow> Inl (CompileError ([char_of (39 :: nat)] @ ''this'' @ [char_of (39 :: nat)] @ '' not defined'') sp))
      | EIdent name \<Rightarrow> load_var name sp c
      | EVar name init \<Rightarrow>
          rbind (case init of Some e \<Rightarrow> compile_expr e c | None \<Rightarrow> Inr (emits (emit_op BcPushNull) c))
            (\<lambda>c1. Inr (define_var name c1))
      | EFinal name init \<Rightarrow>
          rbind (case init of Some e \<Rightarrow> compile_expr e c | None \<Rightarrow> Inr (emits (emit_op BcPushNull) c))
            (\<lambda>c1. Inr (define_var name c1))
      | EAssign l op r \<Rightarrow> compile_assignment compile_expr l op r sp c
      | EBinary l op r \<Rightarrow> compile_binary compile_expr l op r sp c
      | EUnary op e \<Rightarrow> compile_unary compile_expr op e sp c
      | ETernary cond t e \<Rightarrow> compile_if compile_expr cond t (Some e) c
      | EParen e \<Rightarrow> compile_expr e c
      | EBlock bs \<Rightarrow> compile_block compile_expr bs c
      | EIf cond t e \<Rightarrow> compile_if compile_expr cond t e c
      | EWhile cond body \<Rightarrow> compile_while compile_expr cond body c
      | EDoWhile body cond \<Rightarrow> compile_do_while compile_expr body cond c
      | EReturn v \<Rightarrow>
          (case v of
             Some e \<Rightarrow> rbind (compile_expr e c) (\<lambda>c1. Inr (emits (emit_op BcReturn) c1))
           | None \<Rightarrow> Inr (emits (emit_op BcReturnNull) c))
      | EBreak \<Rightarrow> Inr (compile_break c)
      | EContinue \<Rightarrow> Inr (compile_continue c)
      | EFor var key iter body \<Rightarrow> compile_for_in compile_expr var iter body c
      | EArray es \<Rightarrow>
          rbind (cfold compile_expr es c)
            (\<lambda>c1. Inr (emits (emit_u16 BcMakeArray (word_of_nat (length es))) c1))
      | EObject fs \<Rightarrow>
          rbind (cfold (compile_field compile_expr) fs c)
            (\<lambda>c1. Inr (emits (emit_u16 BcMakeObject (word_of_nat (length fs))) c1))
      | EMap es \<Rightarrow>
          rbind (cfold (compile_entry compile_expr) es c)
            (\<lambda>c1. Inr (emits (emit_u16 BcMakeMap (word_of_nat (length es))) c1))
      | EStringInterpolation parts \<Rightarrow> compile_string_interpolation compile_expr parts c
      | EField base field opt \<Rightarrow>
          rbind (compile_expr base c) (emit_named (if opt then BcGetFieldOpt else BcGetField) field)
      | EIndex base index \<Rightarrow>
          rbind (compile_expr base c) (\<lambda>c1. rbind (compile_expr index c1) (\<lambda>c2.
            Inr (emits (emit_op BcGetIndex) c2)))
      | ECall callee args \<Rightarrow> compile_call compile_expr callee args c
      | ENew path args \<Rightarrow>
          rbind (cfold compile_expr args c) (\<lambda>c1.
            rbind (pool (intern_string (join_texts ''.'' (tp_package path @ [tp_name path]))) c1) (\<lambda>(i, c2).
              Inr (emits (emit_u16_u8 BcNewObject i (word_of_nat (length args))) c2)))
      | ECast e \<Rightarrow> compile_expr e c
      | ETypeCheck e \<Rightarrow> compile_expr e c
      | EMeta e \<Rightarrow> compile_expr e c
      | EUntyped e \<Rightarrow> compile_expr e c
      | EInline e \<Rightarrow> compile_expr e c
      | EThrow e \<Rightarrow>
          rbind (compile_expr e c) (\<lambda>c1. Inr (emits (emit_u16_u8 BcCallBuiltin 0xFFFF 1) c1))
      | ESwitch e cases dflt \<Rightarrow> compile_switch compile_expr e cases dflt c
      | ETry e catches fin \<Rightarrow> compile_expr e c
      | EFunction name params body \<Rightarrow> compile_function_literal compile_expr name params body sp c
      | EArrow params body \<Rightarrow> compile_arrow compile_expr params body sp c
      | EMacro e \<Rightarrow> rbind (compile_expr e c) (\<lambda>c1. Inr (emits (emit_op BcReify) c1))
      | EReify e \<Rightarrow> rbind (compile_expr e c) (\<lambda>c1. Inr (emits (emit_op BcReify) c1))
      | EDollarIdent name arg \<Rightarrow>
          (case arg of
             Some e \<Rightarrow> rbind (compile_expr e c) (emit_named BcDollarSplice name)
           | None \<Rightarrow>
               (case resolve name c of
                  Some slot \<Rightarrow> Inr (emits (emit_u16 BcLoadLocal slot) c)
                | None \<Rightarrow> Inl (undefined_variable (CHR ''$'' # name) sp)))
      | EUnsupported u \<Rightarrow> Inl (CompileError ''unsupported expression'' sp))"
  by pat_completeness auto
termination
  by (relation "measure (size \<circ> fst)")
     (auto simp: less_Suc_eq_le intro!: order_trans [OF field_base_size] dest: kind_size pair_size
        dest!: member_size [where f = "size :: Expr \<Rightarrow> nat"] member_size [where f = "size_StringPart size"]
          member_size [where f = "size_BlockElement size"] member_size [where f = "size_Case size"]
          member_size [where f = "size_Pattern size"])

section \<open>Entry points\<close>

definition compile :: "string \<Rightarrow> MacroParam list \<Rightarrow> Expr \<Rightarrow> Chunk compiled" where
  "compile name params body = compile_function compile_expr name params body"

text \<open>A method has \<open>this\<close> in its first local, and a constructor returns it.\<close>

definition compile_method :: "string \<Rightarrow> FunctionParam list \<Rightarrow> Expr \<Rightarrow> bool \<Rightarrow> Chunk compiled" where
  "compile_method name params body is_constructor =
     (let (slot, c1) = define_local_var ''this'' (new_compiler name);
          c2 = fold (\<lambda>p. bind_param (fp_name p) (fp_optional p)) params (register_name slot ''this'' c1)
      in rbind (compile_expr body c2) (\<lambda>c3.
           Inr (finish (if is_constructor then emits (emit_u16 BcLoadLocal 0) (emits (emit_op BcPop) c3)
                        else c3))))"

definition compile_expr_standalone :: "Expr \<Rightarrow> Chunk compiled" where
  "compile_expr_standalone e = compile ''<expr>'' [] e"

declare compile_expr.simps [simp del]

lemmas compile_simps = compile_expr.simps Let_def

end
