(* ===== verification/BcSem.thy ===== *)
theory BcSem
  imports BcMachine BcCompile
begin

text \<open>
  A reference semantics of the structured part of the macro language, on names and scopes instead of
  slots and offsets: what a compiled expression has to compute. An environment is the stack of
  scopes, innermost first; a declaration binds in the innermost one, an assignment changes the
  innermost binding of its name. Beside the environment runs the number of the next allocation. The
  fuel bounds the depth of the evaluation, so that loops are covered; \<open>None\<close> is no result.
\<close>

type_synonym Env = "(string \<times> MacroValue) list list"

datatype Completion = Normal MacroValue | Returned MacroValue

type_synonym evaluation = "(Completion \<times> Env \<times> nat) option"

fun lookup_env :: "string \<Rightarrow> Env \<Rightarrow> MacroValue option" where
  "lookup_env x [] = None"
| "lookup_env x (m # ms) = (case map_of m x of Some v \<Rightarrow> Some v | None \<Rightarrow> lookup_env x ms)"

fun assign_env :: "string \<Rightarrow> MacroValue \<Rightarrow> Env \<Rightarrow> Env" where
  "assign_env x v [] = []"
| "assign_env x v (m # ms) =
     (if map_of m x = None then m # assign_env x v ms else AList.update x v m # ms)"

fun declare_env :: "string \<Rightarrow> MacroValue \<Rightarrow> Env \<Rightarrow> Env" where
  "declare_env x v [] = []"
| "declare_env x v (m # ms) = AList.update x v m # ms"

definition ebind :: "evaluation \<Rightarrow> (MacroValue \<Rightarrow> Env \<times> nat \<Rightarrow> evaluation) \<Rightarrow> evaluation" where
  "ebind r f =
     (case r of
        Some (Normal v, s) \<Rightarrow> f v s
      | x \<Rightarrow> x)"

definition enormal :: "MacroValue \<Rightarrow> Env \<times> nat \<Rightarrow> evaluation" where
  "enormal v s = Some (Normal v, s)"

definition from_result :: "'e + MacroValue \<Rightarrow> Env \<times> nat \<Rightarrow> evaluation" where
  "from_result r s = (case r of Inr v \<Rightarrow> enormal v s | Inl e \<Rightarrow> None)"

definition read_var :: "string \<Rightarrow> Env \<times> nat \<Rightarrow> evaluation" where
  "read_var x s = (case lookup_env x (fst s) of Some v \<Rightarrow> enormal v s | None \<Rightarrow> None)"

definition write_var :: "string \<Rightarrow> MacroValue \<Rightarrow> MacroValue \<Rightarrow> Env \<times> nat \<Rightarrow> evaluation" where
  "write_var x v result s =
     (if lookup_env x (fst s) = None then None else enormal result (assign_env x v (fst s), snd s))"

definition apply_binary ::
  "Host \<Rightarrow> BcOp option \<Rightarrow> MacroValue \<Rightarrow> MacroValue \<Rightarrow> Env \<times> nat \<Rightarrow> evaluation" where
  "apply_binary h bc a b s =
     (case bc of None \<Rightarrow> None
      | Some op \<Rightarrow> (case binary_fn h op of None \<Rightarrow> None | Some f \<Rightarrow> from_result (f a b) s))"

fun eval_all :: "(Expr \<Rightarrow> Env \<times> nat \<Rightarrow> evaluation) \<Rightarrow> Expr list \<Rightarrow> MacroValue list \<Rightarrow>
    (MacroValue list \<Rightarrow> Env \<times> nat \<Rightarrow> evaluation) \<Rightarrow> Env \<times> nat \<Rightarrow> evaluation" where
  "eval_all f [] vs k s = k vs s"
| "eval_all f (e # es) vs k s = ebind (f e s) (\<lambda>v. eval_all f es (vs @ [v]) k)"

text \<open>The value of a block is its last element's; imports and conditionals are null.\<close>

fun eval_elements :: "(Expr \<Rightarrow> Env \<times> nat \<Rightarrow> evaluation) \<Rightarrow> Expr BlockElement list \<Rightarrow> Env \<times> nat \<Rightarrow> evaluation" where
  "eval_elements f [] s = enormal MNull s"
| "eval_elements f [BlExpr e] s = f e s"
| "eval_elements f (BlExpr e # b # bs) s = ebind (f e s) (\<lambda>_. eval_elements f (b # bs))"
| "eval_elements f [_] s = enormal MNull s"
| "eval_elements f (_ # b # bs) s = eval_elements f (b # bs) s"

definition in_scope :: "(Env \<times> nat \<Rightarrow> evaluation) \<Rightarrow> Env \<times> nat \<Rightarrow> evaluation" where
  "in_scope f s =
     (case f ([] # fst s, snd s) of
        None \<Rightarrow> None | Some (r, env, a) \<Rightarrow> Some (r, tl env, a))"

definition increment :: "HxUnaryOp \<Rightarrow> MacroValue \<Rightarrow> string + MacroValue" where
  "increment op = unary_fn (if op \<in> {HPreIncr, HPostIncr} then BcIncr else BcDecr)"

fun eval :: "Host \<Rightarrow> nat \<Rightarrow> Expr \<Rightarrow> Env \<times> nat \<Rightarrow> evaluation" where
  "eval h 0 e s = None"
| "eval h (Suc n) (Expr k sp) s =
     (case k of
        EInt i \<Rightarrow> enormal (MInt i) s
      | EFloat f \<Rightarrow> enormal (MFloat f) s
      | EString t \<Rightarrow> enormal (MString t) s
      | EBool b \<Rightarrow> enormal (MBool b) s
      | ENull \<Rightarrow> enormal MNull s
      | EThis \<Rightarrow> read_var ''this'' s
      | EIdent x \<Rightarrow> read_var x s
      | EVar x init \<Rightarrow>
          ebind (case init of Some e \<Rightarrow> eval h n e s | None \<Rightarrow> enormal MNull s)
            (\<lambda>v (env, a). enormal v (declare_env x v env, a))
      | EFinal x init \<Rightarrow>
          ebind (case init of Some e \<Rightarrow> eval h n e s | None \<Rightarrow> enormal MNull s)
            (\<lambda>v (env, a). enormal v (declare_env x v env, a))
      | EAssign l op r \<Rightarrow>
          (case e_kind l of
             EIdent x \<Rightarrow>
               (if op = HAssign then ebind (eval h n r s) (\<lambda>v. write_var x v v)
                else ebind (read_var x s) (\<lambda>a s1. ebind (eval h n r s1) (\<lambda>b s2.
                       ebind (apply_binary h (compound_opcode op) a b s2) (\<lambda>v. write_var x v v))))
           | _ \<Rightarrow> None)
      | EBinary l op r \<Rightarrow>
          ebind (eval h n l s) (\<lambda>a s1.
            if op = HAnd then (if is_truthy a then eval h n r s1 else enormal a s1)
            else if op = HOr then (if is_truthy a then enormal a s1 else eval h n r s1)
            else ebind (eval h n r s1) (\<lambda>b. apply_binary h (binary_opcode op) a b))
      | EUnary op e \<Rightarrow>
          (if op \<in> {HPreIncr, HPreDecr, HPostIncr, HPostDecr} then
             (case e_kind e of
                EIdent x \<Rightarrow>
                  ebind (read_var x s) (\<lambda>v s1. ebind (from_result (increment op v) s1) (\<lambda>w.
                    write_var x w (if op \<in> {HPreIncr, HPreDecr} then w else v)))
              | _ \<Rightarrow> None)
           else ebind (eval h n e s) (\<lambda>v.
                  from_result (unary_fn (if op = HNot then BcNot else if op = HNeg then BcNeg else BcBitNot) v)))
      | ETernary cond t e \<Rightarrow>
          ebind (eval h n cond s) (\<lambda>v s1. if is_truthy v then eval h n t s1 else eval h n e s1)
      | EIf cond t e \<Rightarrow>
          ebind (eval h n cond s) (\<lambda>v s1.
            if is_truthy v then eval h n t s1
            else case e of Some e' \<Rightarrow> eval h n e' s1 | None \<Rightarrow> enormal MNull s1)
      | EParen e \<Rightarrow> eval h n e s
      | ECast e \<Rightarrow> eval h n e s
      | ETypeCheck e \<Rightarrow> eval h n e s
      | EUntyped e \<Rightarrow> eval h n e s
      | EMeta e \<Rightarrow> eval h n e s
      | EInline e \<Rightarrow> eval h n e s
      | EBlock bs \<Rightarrow> in_scope (eval_elements (eval h n) bs) s
      | EWhile cond body \<Rightarrow>
          ebind (eval h n cond s) (\<lambda>v s1.
            if is_truthy v then ebind (eval h n body s1) (\<lambda>_. eval h n (Expr k sp))
            else enormal MNull s1)
      | EDoWhile body cond \<Rightarrow>
          ebind (eval h n body s) (\<lambda>_ s1. ebind (eval h n cond s1) (\<lambda>v s2.
            if is_truthy v then eval h n (Expr k sp) s2 else enormal MNull s2))
      | EArray es \<Rightarrow>
          eval_all (eval h n) es [] (\<lambda>vs (env, a). enormal (MArray a vs) (env, a + 1)) s
      | EIndex base index \<Rightarrow>
          ebind (eval h n base s) (\<lambda>b s1. ebind (eval h n index s1) (\<lambda>i. from_result (get_index b i)))
      | EField base field opt \<Rightarrow>
          ebind (eval h n base s) (\<lambda>b.
            from_result (if opt \<and> b = MNull then Inr MNull else get_field b field))
      | EReturn v \<Rightarrow>
          ebind (case v of Some e \<Rightarrow> eval h n e s | None \<Rightarrow> enormal MNull s) (\<lambda>w s1. Some (Returned w, s1))
      | _ \<Rightarrow> None)"

declare eval.simps(2) [simp del]

text \<open>
  The expressions the semantics speaks of. A declaration stands directly in a block, so that whether
  a name is bound does not depend on the path taken. Calls, closures, switches, \<open>for\<close>, \<open>break\<close>,
  \<open>continue\<close>, exceptions, interpolation, and assignments to fields and elements are left out.
\<close>

inductive plain :: "Expr \<Rightarrow> bool" and stmt :: "Expr \<Rightarrow> bool" where
  plain_lit: "plain (Expr (KLit l) sp)"
| plain_unary: "op \<noteq> HPostNot \<Longrightarrow> plain e \<Longrightarrow> plain (Expr (EUnary op e) sp)"
| plain_binary: "plain l \<Longrightarrow> plain r \<Longrightarrow> plain (Expr (EBinary l op r) sp)"
| plain_assign: "e_kind l = EIdent x \<Longrightarrow> plain r \<Longrightarrow> plain (Expr (EAssign l op r) sp)"
| plain_ternary: "plain b \<Longrightarrow> plain t \<Longrightarrow> plain e \<Longrightarrow> plain (Expr (ETernary b t e) sp)"
| plain_if: "plain b \<Longrightarrow> plain t \<Longrightarrow> (\<And>x. e = Some x \<Longrightarrow> plain x) \<Longrightarrow> plain (Expr (EIf b t e) sp)"
| plain_wrap: "k \<in> {EParen e, ECast e, ETypeCheck e, EUntyped e, EMeta e, EInline e} \<Longrightarrow> plain e \<Longrightarrow>
    plain (Expr k sp)"
| plain_block: "(\<And>e. BlExpr e \<in> set bs \<Longrightarrow> stmt e) \<Longrightarrow> plain (Expr (EBlock bs) sp)"
| plain_while: "plain b \<Longrightarrow> plain t \<Longrightarrow> plain (Expr (EWhile b t) sp)"
| plain_do_while: "plain b \<Longrightarrow> plain t \<Longrightarrow> plain (Expr (EDoWhile t b) sp)"
| plain_array: "length es \<le> 65535 \<Longrightarrow> (\<And>e. e \<in> set es \<Longrightarrow> plain e) \<Longrightarrow> plain (Expr (EArray es) sp)"
| plain_index: "plain b \<Longrightarrow> plain i \<Longrightarrow> plain (Expr (EIndex b i) sp)"
| plain_field: "plain b \<Longrightarrow> plain (Expr (EField b f opt) sp)"
| plain_return: "(\<And>x. e = Some x \<Longrightarrow> plain x) \<Longrightarrow> plain (Expr (EReturn e) sp)"
| stmt_plain: "plain e \<Longrightarrow> stmt e"
| stmt_var: "(\<And>x. e = Some x \<Longrightarrow> plain x) \<Longrightarrow> stmt (Expr (EVar x1 e) sp)"
| stmt_final: "(\<And>x. e = Some x \<Longrightarrow> plain x) \<Longrightarrow> stmt (Expr (EFinal x1 e) sp)"

inductive_simps plain_simps:
  "plain (Expr (KLit l) sp)" "plain (Expr (EUnary op e) sp)" "plain (Expr (EBinary a bop b) sp)"
  "plain (Expr (EAssign a aop b) sp)" "plain (Expr (ETernary a b e) sp)" "plain (Expr (EIf a b eo) sp)"
  "plain (Expr (EBlock bs) sp)" "plain (Expr (EWhile a b) sp)" "plain (Expr (EDoWhile a b) sp)"
  "plain (Expr (EArray es) sp)" "plain (Expr (EIndex a b) sp)" "plain (Expr (EField a f opt) sp)"
  "plain (Expr (EReturn eo) sp)" "plain (Expr (KWrap w) sp)" "plain (Expr (KDecl d) sp)"

inductive_simps stmt_simps: "stmt (Expr k sp)"

text \<open>A call: the parameters, in one scope, hold the arguments or null.\<close>

definition initial_env :: "MacroParam list \<Rightarrow> MacroValue list \<Rightarrow> Env" where
  "initial_env params args =
     fold (\<lambda>(i, p). declare_env (mp_name p) (if i < length args then args ! i else MNull))
       (zip [0..<length params] params) [[]]"

definition run_function ::
  "Host \<Rightarrow> nat \<Rightarrow> MacroParam list \<Rightarrow> Expr \<Rightarrow> MacroValue list \<Rightarrow> nat \<Rightarrow> MacroValue option" where
  "run_function h n params body args a =
     (case eval h n body (initial_env params args, a) of
        Some (Normal v, s) \<Rightarrow> Some v
      | Some (Returned v, s) \<Rightarrow> Some v
      | None \<Rightarrow> None)"

section \<open>Facts\<close>

lemma ebind_Some:
  "ebind r f = Some (o1, s) \<longleftrightarrow>
     (\<exists>v s1. r = Some (Normal v, s1) \<and> f v s1 = Some (o1, s)) \<or>
     (\<exists>v. r = Some (Returned v, s) \<and> o1 = Returned v)"
  by (auto simp: ebind_def split: option.splits Completion.splits prod.splits)

lemma from_result_Some: "from_result r s = Some (o1, s') \<longleftrightarrow> (\<exists>v. r = Inr v \<and> o1 = Normal v \<and> s' = s)"
  by (auto simp: from_result_def enormal_def split: sum.splits)

lemma read_var_Some:
  "read_var x s = Some (o1, s') \<longleftrightarrow> (\<exists>v. lookup_env x (fst s) = Some v \<and> o1 = Normal v \<and> s' = s)"
  by (auto simp: read_var_def enormal_def split: option.splits)

lemma write_var_Some:
  "write_var x v w s = Some (o1, s') \<longleftrightarrow>
     lookup_env x (fst s) \<noteq> None \<and> o1 = Normal w \<and> s' = (assign_env x v (fst s), snd s)"
  by (auto simp: write_var_def enormal_def)

lemma apply_binary_Some:
  "apply_binary h bc a b s = Some (o1, s') \<longleftrightarrow>
     (\<exists>op f v. bc = Some op \<and> binary_fn h op = Some f \<and> f a b = Inr v \<and> o1 = Normal v \<and> s' = s)"
  by (auto simp: apply_binary_def from_result_Some split: option.splits)

lemma enormal_Some [simp]: "enormal v s = Some (o1, s') \<longleftrightarrow> o1 = Normal v \<and> s' = s"
  by (auto simp: enormal_def)

lemmas eval_Some = ebind_Some from_result_Some read_var_Some write_var_Some apply_binary_Some

end
