(* ===== verification/BcRel.thy ===== *)
theory BcRel
  imports BcSem
begin

text \<open>
  What relates the reference semantics to the machine: scopes of slots against scopes of values, and
  states of the machine while it runs one function. \<open>vst\<close> is the state at an offset of a chunk, with
  the locals and the operands above them on the stack.
\<close>

section \<open>Scopes and locals\<close>

definition holds_in :: "(string \<times> u16) list \<Rightarrow> (string \<times> MacroValue) list \<Rightarrow> MacroValue list \<Rightarrow> bool" where
  "holds_in m e L \<longleftrightarrow>
     (\<forall>x v. map_of e x = Some v \<longrightarrow>
        (\<exists>slot. map_of m x = Some slot \<and> unat slot < length L \<and> L ! unat slot = v))"

fun env_rel :: "(string \<times> u16) list list \<Rightarrow> Env \<Rightarrow> MacroValue list \<Rightarrow> bool" where
  "env_rel [] [] L = True"
| "env_rel (m # ms) (e # es) L =
     (env_rel ms es L \<and> holds_in m e L \<and>
      (\<forall>x. map_of m x \<noteq> None \<longrightarrow> map_of e x = None \<longrightarrow> lookup_env x es = None))"
| "env_rel _ _ L = False"

definition slots :: "(string \<times> u16) list list \<Rightarrow> u16 list" where
  "slots ms = concat (map (map snd) ms)"

definition locals_ok :: "BytecodeCompiler \<Rightarrow> nat \<Rightarrow> bool" where
  "locals_ok c K \<longleftrightarrow>
     lr_next_slot (bc_locals c) = of_nat K \<and> K \<le> 65535 \<and> lr_scopes (bc_locals c) \<noteq> [] \<and>
     distinct (slots (lr_scopes (bc_locals c))) \<and> (\<forall>x \<in> set (slots (lr_scopes (bc_locals c))). unat x < K)"

lemma slots_simps [simp]: "slots [] = []" "slots (m # ms) = map snd m @ slots ms"
  by (simp_all add: slots_def)

lemma map_of_update [simp]: "map_of (AList.update k v m) = (map_of m)(k \<mapsto> v)"
  by (rule AList.update_conv')

lemma env_rel_head:
  "env_rel (m # ms) (e # es) L \<Longrightarrow> map_of e x = Some v \<Longrightarrow>
     \<exists>slot. map_of m x = Some slot \<and> unat slot < length L \<and> L ! unat slot = v"
  by (simp add: holds_in_def)

lemma holds_in_outside:
  "holds_in m e L \<Longrightarrow> (\<And>x s. map_of m x = Some s \<Longrightarrow> unat s \<noteq> i) \<Longrightarrow> holds_in m e (L[i := v])"
  unfolding holds_in_def by (metis length_list_update nth_list_update_neq)

lemma holds_in_update:
  assumes "holds_in m e L" and "unat slot < length L"
    and "\<And>y s. map_of m y = Some s \<Longrightarrow> y \<noteq> x \<Longrightarrow> unat s \<noteq> unat slot"
  shows "holds_in (AList.update x slot m) (AList.update x v e) (L[unat slot := v])"
  unfolding holds_in_def
proof (intro allI impI)
  fix y w assume y: "map_of (AList.update x v e) y = Some w"
  show "\<exists>s. map_of (AList.update x slot m) y = Some s \<and> unat s < length (L[unat slot := v]) \<and>
      L[unat slot := v] ! unat s = w"
  proof (cases "y = x")
    case False
    with y have "map_of e y = Some w" by simp
    with assms(1) obtain s where s: "map_of m y = Some s" "unat s < length L" "L ! unat s = w"
      unfolding holds_in_def by blast
    with assms(3) [OF s(1) False] False show ?thesis by auto
  qed (use y assms(2) in auto)
qed

lemma env_rel_lookup:
  "env_rel ms es L \<Longrightarrow> lookup_env x es = Some v \<Longrightarrow>
     \<exists>slot. resolve_in x ms = Some slot \<and> unat slot < length L \<and> L ! unat slot = v"
proof (induction ms es L rule: env_rel.induct)
  case (2 m ms e es L)
  show ?case
  proof (cases "map_of e x")
    case None
    with 2 have "lookup_env x es = Some v" by simp
    moreover from this None 2 have "map_of m x = None" by auto
    ultimately show ?thesis using 2 by simp
  next
    case (Some w)
    with 2 have "map_of e x = Some v" by simp
    from env_rel_head [OF "2.prems"(1) this] show ?thesis by auto
  qed
qed auto

lemma resolve_in_slots: "resolve_in x ms = Some slot \<Longrightarrow> slot \<in> set (slots ms)"
  by (induction ms) (force split: option.splits dest: map_of_SomeD)+

lemma env_rel_outside:
  "env_rel ms es L \<Longrightarrow> slot \<notin> set (slots ms) \<Longrightarrow> env_rel ms es (L[unat slot := v])"
proof (induction ms es L rule: env_rel.induct)
  case (2 m ms e es L)
  have "unat s \<noteq> unat slot" if "map_of m x = Some s" for x s
  proof
    assume "unat s = unat slot"
    then have "s = slot" by (simp add: word_unat_eq_iff)
    with that "2.prems"(2) show False by (force dest: map_of_SomeD)
  qed
  with 2 show ?case by (simp add: holds_in_outside)
qed auto

lemma lookup_assign_env:
  "lookup_env y (assign_env x v es) =
     (if y = x \<and> lookup_env x es \<noteq> None then Some v else lookup_env y es)"
  by (induction es) (auto split: option.splits)

lemma env_rel_assign:
  "env_rel ms es L \<Longrightarrow> distinct (slots ms) \<Longrightarrow> resolve_in x ms = Some slot \<Longrightarrow> lookup_env x es \<noteq> None \<Longrightarrow>
     env_rel ms (assign_env x v es) (L[unat slot := v])"
proof (induction ms es L rule: env_rel.induct)
  case (2 m ms e es L)
  show ?case
  proof (cases "map_of e x")
    case (Some w)
    from env_rel_head [OF "2.prems"(1) this] obtain s where s: "map_of m x = Some s" "unat s < length L"
      by blast
    with "2.prems"(3) have [simp]: "s = slot" by (simp add: word_unat_eq_iff)
    have out: "slot \<notin> set (slots ms)"
      using "2.prems"(2) s(1) by (force dest: map_of_SomeD)
    have other: "unat t \<noteq> unat slot" if "map_of m y = Some t" "y \<noteq> x" for y t
    proof
      assume "unat t = unat slot"
      then have "t = slot" by (simp add: word_unat_eq_iff)
      with that s(1) have "(y, slot) \<in> set m" "(x, slot) \<in> set m" by (auto dest: map_of_SomeD)
      moreover have "distinct (map snd m)" using "2.prems"(2) by simp
      ultimately have "(y, slot) = (x, slot)" by (metis (no_types, lifting) distinct_map inj_onD snd_conv)
      with that(2) show False by simp
    qed
    have "env_rel ms es (L[unat slot := v])" using "2.prems"(1) out by (simp add: env_rel_outside)
    moreover have "holds_in m (AList.update x v e) (L[unat slot := v])"
      using holds_in_update [of m e L slot x v] "2.prems"(1) s other
      by (simp add: holds_in_def) (metis fun_upd_triv)
    ultimately show ?thesis using "2.prems"(1) Some by simp
  next
    case None
    with "2.prems" have l: "lookup_env x es \<noteq> None" by simp
    with None "2.prems"(1) have m: "map_of m x = None" by auto
    with "2.prems"(3) have r: "resolve_in x ms = Some slot" by simp
    have ih: "env_rel ms (assign_env x v es) (L[unat slot := v])"
      using 2 l r by simp
    have "slot \<notin> snd ` set m"
      using "2.prems"(2) resolve_in_slots [OF r] by auto
    then have other: "unat t \<noteq> unat slot" if "map_of m y = Some t" for y t
      using that by (force dest: map_of_SomeD simp: word_unat_eq_iff)
    have "holds_in m e (L[unat slot := v])"
      using "2.prems"(1) other by (simp add: holds_in_outside)
    with ih None "2.prems"(1) m show ?thesis by (auto simp: lookup_assign_env)
  qed
qed auto

lemma env_rel_declare:
  assumes "env_rel (m # ms) (e # es) L" and "slot \<notin> set (slots (m # ms))" and "unat slot < length L"
  shows "env_rel (AList.update x slot m # ms) (AList.update x v e # es) (L[unat slot := v])"
proof -
  have other: "unat t \<noteq> unat slot" if "map_of m y = Some t" for y t
  proof
    assume "unat t = unat slot"
    then have "t = slot" by (simp add: word_unat_eq_iff)
    with that assms(2) show False by (force dest: map_of_SomeD)
  qed
  show ?thesis
    using assms env_rel_outside [of ms es L slot v] holds_in_update [of m e L slot x v] other by auto
qed

lemma env_rel_ext:
  assumes "env_rel (m # ms) (e # es) L" and "\<And>x s. map_of m x = Some s \<Longrightarrow> map_of m' x = Some s"
    and "\<And>x. map_of m x = None \<Longrightarrow> map_of m' x \<noteq> None \<Longrightarrow> resolve_in x ms = None"
  shows "env_rel (m' # ms) (e # es) L"
proof -
  have "lookup_env x es = None" if x: "map_of m' x \<noteq> None" "map_of e x = None" for x
  proof (cases "map_of m x")
    case None
    with assms(3) x have "resolve_in x ms = None" by blast
    with env_rel_lookup [of ms es L x] assms(1) show ?thesis by (cases "lookup_env x es") auto
  qed (use assms(1) x in auto)
  moreover have "\<exists>slot. map_of m' x = Some slot \<and> unat slot < length L \<and> L ! unat slot = v"
    if "map_of e x = Some v" for x v
    using assms(1,2) that by (metis env_rel_head)
  ultimately show ?thesis using assms(1) by (simp add: holds_in_def)
qed

section \<open>Code in a chunk\<close>

definition code_at :: "Chunk \<Rightarrow> nat \<Rightarrow> u8 list \<Rightarrow> bool" where
  "code_at ch i bs \<longleftrightarrow> i + length bs \<le> length (ch_code ch) \<and> take (length bs) (drop i (ch_code ch)) = bs"

lemma code_at_append [simp]:
  "code_at ch i (a @ b) \<longleftrightarrow> code_at ch i a \<and> code_at ch (i + length a) b"
  unfolding code_at_def by (auto simp: take_add add.assoc add.commute) 

lemma code_at_Cons:
  "code_at ch i (b # bs) \<longleftrightarrow> code_at ch i [b] \<and> code_at ch (Suc i) bs"
  using code_at_append [of ch i "[b]" bs] by simp

lemma code_at_single: "code_at ch i [b] \<longleftrightarrow> i < length (ch_code ch) \<and> ch_code ch ! i = b"
  by (auto simp: code_at_def Suc_le_eq take_Suc_conv_app_nth)

lemma code_at_u16: "code_at ch i (u16_le v) \<Longrightarrow> fetch_u16 (ch_code ch) i = Some v"
  by (simp add: u16_le_def code_at_Cons [of _ _ _ "[x]" for x] code_at_single fetch_u16_def)

lemma code_at_whole: "code_at ch 0 (ch_code ch)"
  by (simp add: code_at_def)

section \<open>Running\<close>

definition steps :: "Host \<Rightarrow> MacroVm \<Rightarrow> MacroVm \<Rightarrow> bool" where
  "steps h s s' \<longleftrightarrow> (\<exists>k. \<forall>n. vm_run h (k + n) s = vm_run h n s')"

definition ends :: "Host \<Rightarrow> MacroVm \<Rightarrow> MacroValue \<Rightarrow> bool" where
  "ends h s v \<longleftrightarrow> (\<exists>k s'. \<forall>n. vm_run h (k + n) s = Inr (v, s'))"

lemma steps_refl [intro, simp]: "steps h s s"
  by (auto simp: steps_def intro: exI [of _ 0])

lemma steps_trans [trans]: "steps h s1 s2 \<Longrightarrow> steps h s2 s3 \<Longrightarrow> steps h s1 s3"
  by (metis (no_types, lifting) steps_def add.assoc)

lemma steps_ends: "steps h s1 s2 \<Longrightarrow> ends h s2 v \<Longrightarrow> ends h s1 v"
  unfolding steps_def ends_def by (metis (no_types, lifting) add.assoc)

lemma step_steps: "vm_step h s = Inr (None, s') \<Longrightarrow> steps h s s'"
  unfolding steps_def by (rule exI [of _ 1]) simp

lemma step_ends: "vm_step h s = Inr (Some v, s') \<Longrightarrow> ends h s v"
  unfolding ends_def by (rule exI [of _ 1]) simp

definition vst :: "MacroVm \<Rightarrow> Chunk \<Rightarrow> nat \<Rightarrow> MacroValue list \<Rightarrow> nat \<Rightarrow> MacroVm" where
  "vst s ch ip st a =
     s\<lparr>vm_stack := st, vm_frames := [\<lparr>cf_chunk = ch, cf_ip = ip, cf_bp = 0\<rparr>], vm_next := a\<rparr>"

lemma vst_simps [simp]:
  "vm_stack (vst s ch ip st a) = st" "vm_next (vst s ch ip st a) = a"
  "vm_frames (vst s ch ip st a) = [\<lparr>cf_chunk = ch, cf_ip = ip, cf_bp = 0\<rparr>]"
  "set_ip ip' (vst s ch ip st a) = vst s ch ip' st a"
  "(vst s ch ip st a)\<lparr>vm_stack := st'\<rparr> = vst s ch ip st' a"
  "(vst s ch ip st a)\<lparr>vm_next := a'\<rparr> = vst s ch ip st a'"
  by (simp_all add: vst_def set_ip_def)

lemma vst_actions [simp]:
  "vm_push v (vst s ch ip st a) = vst s ch ip (st @ [v]) a"
  "vm_pop (vst s ch ip (st @ [v]) a) = Inr (v, vst s ch ip st a)"
  "vm_pop (vst s ch ip (st @ [v, w]) a) = Inr (w, vst s ch ip (st @ [v]) a)"
  "vm_peek (vst s ch ip (st @ [v]) a) = v"
  "vm_jump off (vst s ch ip st a) = vst s ch (add_offset ip off) st a"
  by (simp_all add: vm_push_def vm_pop_def vm_peek_def vm_jump_def butlast_append)

lemma take_u16_vst [simp]:
  "code_at ch ip (u16_le v) \<Longrightarrow> take_u16 (vst s ch ip st a) = Inr (v, vst s ch (ip + 2) st a)"
  by (simp add: take_u16_def code_at_u16)

lemma vm_step_vst:
  "code_at ch ip [op_byte op] \<Longrightarrow> vm_step h (vst s ch ip st a) = vm_exec_op h op (vst s ch (Suc ip) st a)"
  by (simp add: vm_step_def Let_def code_at_single)

text \<open>One instruction: its byte, and a 16-bit operand.\<close>

definition ins :: "BcOp \<Rightarrow> u16 \<Rightarrow> u8 list" where
  "ins op v = op_byte op # u16_le v"

lemma length_ins [simp]: "length (ins op v) = 3"
  by (simp add: ins_def)

lemma steps_op:
  assumes "code_at ch ip [op_byte op]" and "vm_exec_op h op (vst s ch (ip + 1) st a) = Inr (None, s')"
  shows "steps h (vst s ch ip st a) s'"
  by (rule step_steps) (use assms in \<open>simp add: vm_step_vst\<close>)

lemma code_at_ins: "code_at ch ip (ins op v) \<longleftrightarrow> code_at ch ip [op_byte op] \<and> code_at ch (ip + 1) (u16_le v)"
  using code_at_append [of ch ip "[op_byte op]" "u16_le v"] by (simp add: ins_def)

lemmas exec_defs = vm_exec_op_def exec_basic_def vbind_def vreturn_def act_def with_u16_def

lemma take_u16_ins:
  "code_at ch ip (ins op v) \<Longrightarrow> take_u16 (vst s ch (Suc ip) st a) = Inr (v, vst s ch (ip + 3) st a)"
  using take_u16_vst [of ch "Suc ip" v] by (simp add: code_at_ins numeral_3_eq_3)

lemma steps_with_u16:
  assumes "code_at ch ip (ins op v)" and "exec_basic h op = with_u16 f"
    and "op \<noteq> BcReturn" "op \<noteq> BcReturnNull" and "f v (vst s ch (ip + 3) st a) = Inr ((), s')"
  shows "steps h (vst s ch ip st a) s'"
proof (rule steps_op [of _ _ op])
  show "code_at ch ip [op_byte op]" using assms(1) by (simp add: code_at_ins)
  have "vm_exec_op h op = vbind (with_u16 f) (\<lambda>_. vreturn None)"
    using assms(2-4) by (cases op) (simp_all add: vm_exec_op_def)
  then show "vm_exec_op h op (vst s ch (ip + 1) st a) = Inr (None, s')"
    using assms(5) by (simp add: vbind_def with_u16_def vreturn_def take_u16_ins [OF assms(1)])
qed

lemma steps_push:
  assumes "code_at ch ip [op_byte op]"
    and "(op, v) \<in> {(BcPushNull, MNull), (BcPushTrue, MBool True), (BcPushFalse, MBool False),
                     (BcPushInt0, MInt 0), (BcPushInt1, MInt 1)}"
  shows "steps h (vst s ch ip st a) (vst s ch (ip + 1) (st @ [v]) a)"
  by (rule steps_op [OF assms(1)]) (use assms(2) in \<open>auto simp: exec_defs\<close>)

lemma steps_const:
  assumes "code_at ch ip (ins BcConst i)" and "unat i < length (ch_constants ch)"
  shows "steps h (vst s ch ip st a) (vst s ch (ip + 3) (st @ [ch_constants ch ! unat i]) a)"
  by (rule steps_with_u16 [OF assms(1), where f = push_const]) (use assms(2) in \<open>simp_all add: exec_basic_def push_const_def Let_def\<close>)

lemma steps_pop:
  assumes "code_at ch ip [op_byte BcPop]"
  shows "steps h (vst s ch ip (st @ [v]) a) (vst s ch (ip + 1) st a)"
  by (rule steps_op [OF assms]) (simp add: exec_defs)

lemma steps_dup:
  assumes "code_at ch ip [op_byte BcDup]"
  shows "steps h (vst s ch ip (st @ [v]) a) (vst s ch (ip + 1) (st @ [v, v]) a)"
  by (rule steps_op [OF assms]) (simp add: exec_defs)

lemma steps_load:
  assumes "code_at ch ip (ins BcLoadLocal i)" and "unat i < length L"
  shows "steps h (vst s ch ip (L @ ops) a) (vst s ch (ip + 3) (L @ ops @ [L ! unat i]) a)"
  by (rule steps_with_u16 [OF assms(1), where f = load_local])
     (use assms(2) in \<open>simp_all add: exec_basic_def load_local_def local_index_def Let_def nth_append\<close>)

lemma steps_store:
  assumes "code_at ch ip (ins BcStoreLocal i)" and "unat i < length L"
  shows "steps h (vst s ch ip (L @ ops @ [v]) a) (vst s ch (ip + 3) (L[unat i := v] @ ops @ [v]) a)"
proof -
  have "vm_peek (vst s ch (ip + 3) ((L @ ops) @ [v]) a) = v" by (rule vst_actions)
  then show ?thesis
    by (intro steps_with_u16 [OF assms(1), where f = store_local])
       (use assms(2) in \<open>simp_all add: exec_basic_def store_local_def local_index_def Let_def list_update_append\<close>)
qed

lemma set_element_inside: "i < length vs \<Longrightarrow> set_element i v vs = vs[i := v]"
  by (simp add: set_element_def)

lemma steps_define:
  assumes "code_at ch ip (ins BcDefineLocal i)" and "unat i < length L"
  shows "steps h (vst s ch ip (L @ ops @ [v]) a) (vst s ch (ip + 3) (L[unat i := v] @ ops @ [v]) a)"
proof -
  have "vm_peek (vst s ch (ip + 3) ((L @ ops) @ [v]) a) = v" by (rule vst_actions)
  then show ?thesis
    by (intro steps_with_u16 [OF assms(1), where f = define_local])
       (use assms(2) in \<open>simp_all add: exec_basic_def define_local_def local_index_def Let_def
          set_element_inside list_update_append\<close>)
qed

lemma steps_binary:
  assumes "code_at ch ip [op_byte op]" and "binary_fn h op = Some f" and "f v w = Inr x"
  shows "steps h (vst s ch ip (st @ [v, w]) a) (vst s ch (ip + 1) (st @ [x]) a)"
proof (rule steps_op [OF assms(1)])
  have "vm_exec_op h op = vbind (binary_op f) (\<lambda>_. vreturn None)"
    using assms(2) by (cases op) (simp_all add: vm_exec_op_def exec_basic_def exec_binary_def)
  then show "vm_exec_op h op (vst s ch (ip + 1) (st @ [v, w]) a) = Inr (None, vst s ch (ip + 1) (st @ [x]) a)"
    using assms(3) by (simp add: vbind_def binary_op_def vreturn_def)
qed

lemma steps_unary:
  assumes "code_at ch ip [op_byte op]" and "op \<in> {BcNot, BcNeg, BcBitNot, BcIncr, BcDecr}"
    and "unary_fn op v = Inr w"
  shows "steps h (vst s ch ip (st @ [v]) a) (vst s ch (ip + 1) (st @ [w]) a)"
  by (rule steps_op [OF assms(1)]) (use assms(2,3) in \<open>auto simp: exec_defs unary_op_def\<close>)

lemma steps_get_index:
  assumes "code_at ch ip [op_byte BcGetIndex]" and "get_index v w = Inr x"
  shows "steps h (vst s ch ip (st @ [v, w]) a) (vst s ch (ip + 1) (st @ [x]) a)"
  by (rule steps_op [OF assms(1)]) (use assms(2) in \<open>simp add: exec_defs exec_get_index_def binary_op_def\<close>)

lemma steps_make_array:
  assumes "code_at ch ip (ins BcMakeArray i)" and "length vs = unat i"
  shows "steps h (vst s ch ip (st @ vs) a) (vst s ch (ip + 3) (st @ [MArray a vs]) (a + 1))"
  by (rule steps_with_u16 [OF assms(1), where f = exec_make_array])
     (use assms(2) in \<open>simp_all add: exec_basic_def exec_make_array_def drain_def Let_def alloc_def\<close>)

lemma string_constant_vst:
  "unat i < length (ch_constants ch) \<Longrightarrow> ch_constants ch ! unat i = MString x \<Longrightarrow>
     get_string_constant i (vst s ch ip st a) = Inr (x, vst s ch ip st a)"
  by (simp add: get_string_constant_def Let_def)

lemma steps_get_field:
  assumes "code_at ch ip (ins BcGetField i)" and "unat i < length (ch_constants ch)"
    and "ch_constants ch ! unat i = MString f" and "get_field v f = Inr w"
  shows "steps h (vst s ch ip (st @ [v]) a) (vst s ch (ip + 3) (st @ [w]) a)"
  by (rule steps_with_u16 [OF assms(1), where f = exec_get_field])
     (use assms(2-4) in \<open>simp_all add: exec_basic_def exec_get_field_def string_constant_vst\<close>)

lemma steps_get_field_opt:
  assumes "code_at ch ip (ins BcGetFieldOpt i)" and "unat i < length (ch_constants ch)"
    and "ch_constants ch ! unat i = MString f"
    and "(if v = MNull then Inr MNull else get_field v f) = Inr w"
  shows "steps h (vst s ch ip (st @ [v]) a) (vst s ch (ip + 3) (st @ [w]) a)"
  by (rule steps_with_u16 [OF assms(1), where f = exec_get_field_opt])
     (use assms(2-4) in \<open>auto simp: exec_basic_def exec_get_field_opt_def string_constant_vst split: if_splits\<close>)

lemma ends_return:
  assumes "code_at ch ip [op_byte BcReturn]"
  shows "ends h (vst s ch ip (st @ [v]) a) v"
  by (rule step_ends [of _ _ _ "vst s ch (ip + 1) st a"])
     (simp add: vm_step_vst [OF assms] exec_defs exec_return_def)

lemma ends_return_null:
  assumes "code_at ch ip [op_byte BcReturnNull]"
  shows "ends h (vst s ch ip st a) MNull"
  by (rule step_ends [of _ _ _ "vst s ch (ip + 1) st a"])
     (simp add: vm_step_vst [OF assms] exec_defs exec_return_def)

section \<open>Jumps\<close>

definition near :: "nat \<Rightarrow> nat \<Rightarrow> bool" where
  "near t b \<longleftrightarrow> t < 2 ^ 15 \<and> b < 2 ^ 15"

lemma near_offset: "near t b \<Longrightarrow> add_offset b (jump_offset t b) = t"
  by (rule add_jump_offset) (auto simp: near_def)

lemma steps_jump:
  assumes "code_at ch ip (ins BcJump (jump_offset t (ip + 3)))" and "near t (ip + 3)"
  shows "steps h (vst s ch ip st a) (vst s ch t st a)"
  by (rule steps_with_u16 [OF assms(1), where f = "\<lambda>off. act (vm_jump off)"])
     (use near_offset [OF assms(2)] in \<open>simp_all add: exec_basic_def act_def\<close>)

lemma steps_jump_if:
  assumes "code_at ch ip (ins op (jump_offset t (ip + 3)))" and "near t (ip + 3)"
    and "op \<in> {BcJumpIfFalse, BcJumpIfTrue}"
  shows "steps h (vst s ch ip (st @ [v]) a)
           (vst s ch (if is_truthy v = (op = BcJumpIfTrue) then t else ip + 3) st a)"
proof (rule steps_op [of _ _ op])
  show "code_at ch ip [op_byte op]" using assms(1) by (simp add: code_at_ins)
  show "vm_exec_op h op (vst s ch (ip + 1) (st @ [v]) a) =
      Inr (None, vst s ch (if is_truthy v = (op = BcJumpIfTrue) then t else ip + 3) st a)"
    using assms(3) near_offset [OF assms(2)] take_u16_ins [OF assms(1)]
    by (auto simp: exec_defs jump_if_def)
qed

lemma steps_jump_keep:
  assumes "code_at ch ip (ins op (jump_offset t (ip + 3)))" and "near t (ip + 3)"
    and "op \<in> {BcJumpIfFalseKeep, BcJumpIfTrueKeep}"
  shows "steps h (vst s ch ip (st @ [v]) a)
           (vst s ch (if is_truthy v = (op = BcJumpIfTrueKeep) then t else ip + 3) (st @ [v]) a)"
proof (rule steps_op [of _ _ op])
  show "code_at ch ip [op_byte op]" using assms(1) by (simp add: code_at_ins)
  show "vm_exec_op h op (vst s ch (ip + 1) (st @ [v]) a) =
      Inr (None, vst s ch (if is_truthy v = (op = BcJumpIfTrueKeep) then t else ip + 3) (st @ [v]) a)"
    using assms(3) near_offset [OF assms(2)] take_u16_ins [OF assms(1)]
    by (auto simp: exec_defs jump_keep_def)
qed

end
