(* ===== verification/BcGrow.thy ===== *)
theory BcGrow
  imports BcRel
begin

text \<open>
  What compiling a structured expression does to the state of the compiler: it appends code and
  constants, leaves the loops alone, numbers its locals upwards, and keeps every scope but the
  innermost, where an expression only adds names that nothing bound. \<open>growing\<close> says so of a
  compiling function, \<open>sgrowing\<close> of one that may declare names; both are closed under the constructs of
  the compiler. For each construct that jumps, the code it appends is written out around that of its
  parts.
\<close>

section \<open>Growth\<close>

abbreviation scopes_of :: "BytecodeCompiler \<Rightarrow> (string \<times> u16) list list" where
  "scopes_of c \<equiv> lr_scopes (bc_locals c)"

abbreviation consts_of :: "BytecodeCompiler \<Rightarrow> MacroValue list" where
  "consts_of c \<equiv> ch_constants (bc_chunk c)"

type_synonym compiling = "BytecodeCompiler \<Rightarrow> BytecodeCompiler compiled"

definition scope_ext :: "BytecodeCompiler \<Rightarrow> BytecodeCompiler \<Rightarrow> bool" where
  "scope_ext c c' \<longleftrightarrow>
     (case scopes_of c of
        [] \<Rightarrow> scopes_of c' = []
      | m # ms \<Rightarrow>
          (\<exists>m'. scopes_of c' = m' # ms \<and> (\<forall>x s. map_of m x = Some s \<longrightarrow> map_of m' x = Some s) \<and>
             (\<forall>x. map_of m x = None \<longrightarrow> map_of m' x \<noteq> None \<longrightarrow> resolve_in x ms = None)))"

definition scope_tl :: "BytecodeCompiler \<Rightarrow> BytecodeCompiler \<Rightarrow> bool" where
  "scope_tl c c' \<longleftrightarrow>
     (case scopes_of c of [] \<Rightarrow> scopes_of c' = [] | m # ms \<Rightarrow> \<exists>m'. scopes_of c' = m' # ms)"

text \<open>Growth by at most \<open>n\<close> locals; the code plays no part in it.\<close>

definition gro :: "nat \<Rightarrow> BytecodeCompiler \<Rightarrow> BytecodeCompiler \<Rightarrow> bool" where
  "gro n c c' \<longleftrightarrow>
     (\<exists>ks. consts_of c' = consts_of c @ ks) \<and>
     (length (consts_of c) \<le> 65536 \<longrightarrow> length (consts_of c') \<le> 65536) \<and> bc_loops c' = bc_loops c \<and>
     (\<exists>d\<le>n. \<forall>K. locals_ok c K \<longrightarrow> K + d \<le> 65535 \<longrightarrow> locals_ok c' (K + d))"

definition ext :: "nat \<Rightarrow> BytecodeCompiler \<Rightarrow> BytecodeCompiler \<Rightarrow> bool" where
  "ext n c c' \<longleftrightarrow> gro n c c' \<and> scope_ext c c'"

definition sgro :: "nat \<Rightarrow> BytecodeCompiler \<Rightarrow> BytecodeCompiler \<Rightarrow> bool" where
  "sgro n c c' \<longleftrightarrow> gro n c c' \<and> scope_tl c c'"

definition growing :: "compiling \<Rightarrow> bool" where
  "growing f \<longleftrightarrow>
     (\<forall>c c'. f c = Inr c' \<longrightarrow> (\<exists>new. bc_code c' = bc_code c @ new \<and> ext (length new) c c'))"

definition sgrowing :: "compiling \<Rightarrow> bool" where
  "sgrowing f \<longleftrightarrow>
     (\<forall>c c'. f c = Inr c' \<longrightarrow> (\<exists>new. bc_code c' = bc_code c @ new \<and> sgro (length new) c c'))"

lemma growingE:
  assumes "growing f" and "f c = Inr c'"
  obtains new where "bc_code c' = bc_code c @ new" and "ext (length new) c c'"
  using assms by (auto simp: growing_def)

lemma sgrowingE:
  assumes "sgrowing f" and "f c = Inr c'"
  obtains new where "bc_code c' = bc_code c @ new" and "sgro (length new) c c'"
  using assms by (auto simp: sgrowing_def)

lemma growingI:
  "(\<And>c c'. f c = Inr c' \<Longrightarrow> \<exists>new. bc_code c' = bc_code c @ new \<and> ext (length new) c c') \<Longrightarrow> growing f"
  by (simp add: growing_def)

lemma sgrowingI:
  "(\<And>c c'. f c = Inr c' \<Longrightarrow> \<exists>new. bc_code c' = bc_code c @ new \<and> sgro (length new) c c') \<Longrightarrow> sgrowing f"
  by (simp add: sgrowing_def)

lemma scope_ext_refl: "scopes_of c' = scopes_of c \<Longrightarrow> scope_ext c c'"
  by (auto simp: scope_ext_def split: list.splits)

lemma scope_ext_trans:
  assumes "scope_ext c1 c2" and "scope_ext c2 c3"
  shows "scope_ext c1 c3"
proof (cases "scopes_of c1")
  case Nil
  with assms show ?thesis by (simp add: scope_ext_def)
next
  case (Cons m ms)
  with assms(1) obtain m2 where m2: "scopes_of c2 = m2 # ms" "\<And>x s. map_of m x = Some s \<Longrightarrow> map_of m2 x = Some s"
    "\<And>x. map_of m x = None \<Longrightarrow> map_of m2 x \<noteq> None \<Longrightarrow> resolve_in x ms = None"
    by (auto simp: scope_ext_def)
  with assms(2) obtain m3 where m3: "scopes_of c3 = m3 # ms" "\<And>x s. map_of m2 x = Some s \<Longrightarrow> map_of m3 x = Some s"
    "\<And>x. map_of m2 x = None \<Longrightarrow> map_of m3 x \<noteq> None \<Longrightarrow> resolve_in x ms = None"
    by (auto simp: scope_ext_def)
  have "resolve_in x ms = None" if "map_of m x = None" "map_of m3 x \<noteq> None" for x
    using m2(3) m3(3) that by (cases "map_of m2 x") auto
  with Cons m2(2) m3(1,2) show ?thesis by (auto simp: scope_ext_def)
qed

lemma scope_ext_tl: "scope_ext c c' \<Longrightarrow> scope_tl c c'"
  by (auto simp: scope_ext_def scope_tl_def split: list.splits)

lemma scope_tl_trans: "scope_tl c1 c2 \<Longrightarrow> scope_tl c2 c3 \<Longrightarrow> scope_tl c1 c3"
  by (cases "scopes_of c1") (auto simp: scope_tl_def)

lemma ext_simps [simp]:
  "ext n (c\<lparr>bc_code := x\<rparr>) c' = ext n c c'" "ext n c (c'\<lparr>bc_code := x\<rparr>) = ext n c c'"
  "sgro n (c\<lparr>bc_code := x\<rparr>) c' = sgro n c c'" "sgro n c (c'\<lparr>bc_code := x\<rparr>) = sgro n c c'"
  "ext n (c\<lparr>bc_chunk := add_span i sp (bc_chunk c)\<rparr>) c' = ext n c c'"
  "sgro n (c\<lparr>bc_chunk := add_span i sp (bc_chunk c)\<rparr>) c' = sgro n c c'"
  by (simp_all add: ext_def sgro_def gro_def scope_ext_def scope_tl_def locals_ok_def cong: list.case_cong)

lemma gro_same:
  "consts_of c' = consts_of c @ ks \<Longrightarrow> (length (consts_of c) \<le> 65536 \<longrightarrow> length (consts_of c') \<le> 65536) \<Longrightarrow>
     bc_loops c' = bc_loops c \<Longrightarrow> bc_locals c' = bc_locals c \<Longrightarrow> gro n c c'"
  by (auto simp: gro_def locals_ok_def intro!: exI [of _ 0])

lemma ext_same:
  "consts_of c' = consts_of c @ ks \<Longrightarrow> (length (consts_of c) \<le> 65536 \<longrightarrow> length (consts_of c') \<le> 65536) \<Longrightarrow>
     bc_loops c' = bc_loops c \<Longrightarrow> bc_locals c' = bc_locals c \<Longrightarrow> ext n c c'"
  by (simp add: ext_def gro_same scope_ext_refl)

lemma ext_refl [simp]: "ext n c c" "sgro n c c"
  by (auto simp: ext_def sgro_def gro_same [where ks = "[]"] scope_ext_refl scope_ext_tl)

lemma gro_trans:
  assumes "gro m c1 c2" and "gro k c2 c3" and "m + k \<le> n"
  shows "gro n c1 c3"
proof -
  from assms obtain d e where d: "d \<le> m" "\<And>K. locals_ok c1 K \<Longrightarrow> K + d \<le> 65535 \<Longrightarrow> locals_ok c2 (K + d)"
    and e: "e \<le> k" "\<And>K. locals_ok c2 K \<Longrightarrow> K + e \<le> 65535 \<Longrightarrow> locals_ok c3 (K + e)"
    by (auto simp: gro_def)
  have "locals_ok c3 (K + (d + e))" if "locals_ok c1 K" "K + (d + e) \<le> 65535" for K
    using d(2) [of K] e(2) [of "K + d"] that by (simp add: add.assoc)
  moreover have "d + e \<le> n" using d(1) e(1) assms(3) by simp
  ultimately have "\<exists>d\<le>n. \<forall>K. locals_ok c1 K \<longrightarrow> K + d \<le> 65535 \<longrightarrow> locals_ok c3 (K + d)" by blast
  then show ?thesis using assms(1,2) unfolding gro_def by auto
qed

lemma ext_trans: "ext m c1 c2 \<Longrightarrow> ext k c2 c3 \<Longrightarrow> m + k \<le> n \<Longrightarrow> ext n c1 c3"
  by (auto simp: ext_def intro: gro_trans scope_ext_trans)

lemma ext_trans3:
  "ext i c1 c2 \<Longrightarrow> ext j c2 c3 \<Longrightarrow> ext k c3 c4 \<Longrightarrow> i + j + k \<le> n \<Longrightarrow> ext n c1 c4"
  by (rule ext_trans [OF ext_trans [OF _ _ order_refl]])

lemma sgro_trans: "sgro m c1 c2 \<Longrightarrow> sgro k c2 c3 \<Longrightarrow> m + k \<le> n \<Longrightarrow> sgro n c1 c3"
  by (auto simp: sgro_def intro: gro_trans scope_tl_trans)

lemma ext_mono: "ext m c c' \<Longrightarrow> m \<le> n \<Longrightarrow> ext n c c'"
  by (rule ext_trans [OF _ ext_refl(1) [of 0]]) simp_all

lemma ext_sgro: "ext n c c' \<Longrightarrow> sgro n c c'"
  by (simp add: ext_def sgro_def scope_ext_tl)

lemma growing_sgrowing: "growing f \<Longrightarrow> sgrowing f"
  unfolding growing_def sgrowing_def by (blast intro: ext_sgro)

section \<open>Emitting\<close>

lemma emits_simps:
  "emits (emit_op op) c = c\<lparr>bc_code := bc_code c @ [op_byte op]\<rparr>"
  "emits (emit_u16 op v) c = c\<lparr>bc_code := bc_code c @ ins op v\<rparr>"
  "emits (emit_loop op t) c = c\<lparr>bc_code := bc_code c @ ins op (jump_offset t (length (bc_code c) + 3))\<rparr>"
  "begin_jump op c = (length (bc_code c) + 1, c\<lparr>bc_code := bc_code c @ ins op 0\<rparr>)"
  by (simp_all add: emits_def emit_defs ins_def begin_jump_def)

lemma patch_at:
  assumes "bc_code c = a @ ins op z @ b" and "p = length a + 1" and "l = length (bc_code c)"
  shows "patch p c = Inr (c\<lparr>bc_code := a @ ins op (jump_offset l (length a + 3)) @ b\<rparr>)"
  using assms by (simp add: patch_def patch_jump_def patch_bytes_def ins_def u16_le_def numeral_3_eq_3)

lemma pool_Inr:
  "pool f c = Inr (i, c') \<longleftrightarrow> (\<exists>ch. f (bc_chunk c) = Some (i, ch) \<and> c' = c\<lparr>bc_chunk := ch\<rparr>)"
  by (auto simp: pool_def split: option.splits)

lemma emit_const_Inr:
  assumes "emit_const v c = Inr c'"
  obtains i where "bc_code c' = bc_code c @ ins BcConst i" and "\<And>n. ext n c c'"
    and "unat i < length (consts_of c')" and "consts_of c' ! unat i = v"
proof -
  from assms obtain i ch where i: "add_constant v (bc_chunk c) = Some (i, ch)"
    and c': "c' = c\<lparr>bc_chunk := ch, bc_code := bc_code c @ ins BcConst i\<rparr>"
    by (auto simp: emit_const_def rbind_Inr_iff pool_Inr emits_simps)
  show ?thesis
    by (rule that [of i]) (use i in \<open>auto simp: add_constant_Some c' intro!: ext_same [where ks = "[v]"]\<close>)
qed

lemma emit_named_Inr:
  assumes "emit_named op s c = Inr c'"
  obtains i where "bc_code c' = bc_code c @ ins op i" and "\<And>n. ext n c c'"
    and "length (consts_of c') \<le> 65536 \<longrightarrow> unat i < length (consts_of c') \<and> consts_of c' ! unat i = MString s"
proof -
  from assms obtain i ch where i: "intern_string s (bc_chunk c) = Some (i, ch)"
    and c': "c' = c\<lparr>bc_chunk := ch, bc_code := bc_code c @ ins op i\<rparr>"
    by (auto simp: emit_named_def rbind_Inr_iff pool_Inr emits_simps)
  obtain ks where ks: "ch_constants ch = consts_of c @ ks"
    using i by (auto simp: intern_string_def add_constant_Some split: option.splits)
  show ?thesis
    by (rule that [of i])
       (use ks intern_string_pool [OF i] in \<open>auto simp: c' intro!: ext_same [where ks = ks]\<close>)
qed

section \<open>Declaring\<close>

lemma map_snd_update:
  "set (map snd (AList.update k v m)) \<subseteq> insert v (set (map snd m))"
  "v \<notin> set (map snd m) \<Longrightarrow> distinct (map snd m) \<Longrightarrow> distinct (map snd (AList.update k v m))"
proof -
  show sub: "set (map snd (AList.update k v m)) \<subseteq> insert v (set (map snd m))" for m
    by (induction m) auto
  show "v \<notin> set (map snd m) \<Longrightarrow> distinct (map snd m) \<Longrightarrow> distinct (map snd (AList.update k v m))"
  proof (induction m)
    case (Cons p m)
    then show ?case using sub [of m] by (cases p) force
  qed simp
qed

text \<open>The state after \<open>define_var\<close>, and the slot it takes.\<close>

lemma define_var_eq:
  assumes "scopes_of c = m # ms"
  shows "bc_code (define_var x c) = bc_code c @ ins BcDefineLocal (lr_next_slot (bc_locals c))"
    and "scopes_of (define_var x c) = AList.update x (lr_next_slot (bc_locals c)) m # ms"
    and "lr_next_slot (bc_locals (define_var x c)) = lr_next_slot (bc_locals c) + 1"
    and "consts_of (define_var x c) = consts_of c" and "bc_loops (define_var x c) = bc_loops c"
  using assms
  by (simp_all add: define_var_def define_local_var_def define_slot_def Let_def register_name_def emits_simps)

lemma locals_ok_declare:
  assumes "locals_ok c K" and "K + 1 \<le> 65535" and "scopes_of c = m # ms"
    and "scopes_of c' = AList.update x (lr_next_slot (bc_locals c)) m # ms"
    and "lr_next_slot (bc_locals c') = lr_next_slot (bc_locals c) + 1"
  shows "locals_ok c' (K + 1)"
proof -
  let ?s = "lr_next_slot (bc_locals c)"
  have s: "unat ?s = K" using assms(1) by (simp add: locals_ok_def unat_of_nat)
  have old: "distinct (slots (m # ms))" "\<And>y. y \<in> set (slots (m # ms)) \<Longrightarrow> unat y < K"
    using assms(1,3) by (auto simp: locals_ok_def)
  have fresh: "?s \<notin> set (slots (m # ms))" using old(2) [of ?s] s by auto
  have "distinct (slots (scopes_of c'))"
  proof -
    have "set (map snd (AList.update x ?s m)) \<inter> set (slots ms) = {}"
      using map_snd_update(1) [where k = x and v = ?s and m = m] old(1) fresh by (simp del: set_map) blast
    with map_snd_update(2) [where k = x and v = ?s and m = m] old(1) fresh show ?thesis
      by (simp add: assms(4))
  qed
  moreover have "unat y < K + 1" if "y \<in> set (slots (scopes_of c'))" for y
  proof -
    have "y = ?s \<or> y \<in> set (slots (m # ms))"
      using that map_snd_update(1) [where k = x and v = ?s and m = m] by (auto simp: assms(4))
    then show ?thesis
    proof
      assume "y \<in> set (slots (m # ms))"
      from old(2) [OF this] show ?thesis by simp
    qed (use s in simp)
  qed
  moreover have "lr_next_slot (bc_locals c') = of_nat (K + 1)"
    using assms(1,5) by (simp add: locals_ok_def add.commute)
  ultimately show ?thesis using assms(2,4) by (simp add: locals_ok_def)
qed

lemma define_var_gro: "gro 1 c (define_var x c)"
proof (cases "scopes_of c")
  case (Cons m ms)
  note eq = define_var_eq [OF Cons, of x]
  have "locals_ok (define_var x c) (K + 1)" if "locals_ok c K" "K + 1 \<le> 65535" for K
    by (rule locals_ok_declare [OF that Cons eq(2,3)])
  then show ?thesis unfolding gro_def eq by auto
next
  case Nil
  then show ?thesis
    by (auto simp: gro_def locals_ok_def define_var_def define_local_var_def define_slot_def Let_def
        register_name_def emits_simps intro: exI [of _ 0])
qed

lemma define_var_code: "bc_code (define_var x c) = bc_code c @ ins BcDefineLocal (lr_next_slot (bc_locals c))"
  by (simp add: define_var_def define_local_var_def define_slot_def Let_def register_name_def emits_simps)

lemma define_var_scopes_Nil: "scopes_of c = [] \<Longrightarrow> scopes_of (define_var x c) = []"
  by (simp add: define_var_def define_local_var_def define_slot_def Let_def register_name_def emits_simps)

lemma define_var_sgro: "sgro 1 c (define_var x c)"
  using define_var_gro [of c x]
  by (cases "scopes_of c") (simp_all add: sgro_def scope_tl_def define_var_scopes_Nil define_var_eq(2))

text \<open>Defining a name that nothing binds does not hide anything.\<close>

lemma define_var_ext:
  assumes "resolve x c = None"
  shows "ext 1 c (define_var x c)"
proof (cases "scopes_of c")
  case (Cons m ms)
  with assms have "map_of m x = None" "resolve_in x ms = None"
    by (auto simp: resolve_def split: option.splits)
  with Cons define_var_eq(2) [OF Cons, of x] have "scope_ext c (define_var x c)"
    by (auto simp: scope_ext_def)
  with define_var_gro [of c x] show ?thesis by (simp add: ext_def)
qed (use define_var_gro [of c x] in \<open>simp add: ext_def scope_ext_def define_var_scopes_Nil\<close>)

text \<open>A scope of its own hides what is declared in it.\<close>

lemma in_scope_ext:
  assumes "sgro n (push_scope c) c1"
  shows "ext n c (pop_scope c1)"
proof -
  have scopes: "scopes_of (pop_scope c1) = scopes_of c"
    using assms by (auto simp: sgro_def scope_tl_def push_scope_def pop_scope_def)
  have top: "\<exists>m. scopes_of c1 = m # scopes_of c"
    using assms by (auto simp: sgro_def scope_tl_def push_scope_def)
  from assms obtain d where d: "d \<le> n"
    "\<And>K. locals_ok (push_scope c) K \<Longrightarrow> K + d \<le> 65535 \<Longrightarrow> locals_ok c1 (K + d)"
    by (auto simp: sgro_def gro_def)
  have "locals_ok (pop_scope c1) (K + d)" if "locals_ok c K" "K + d \<le> 65535" for K
  proof -
    have "locals_ok (push_scope c) K" using that(1) by (simp add: locals_ok_def push_scope_def)
    from d(2) [OF this that(2)] top that(1) show ?thesis
      by (auto simp: locals_ok_def pop_scope_def)
  qed
  then have "gro n c (pop_scope c1)"
    using assms d(1) by (auto simp: sgro_def gro_def push_scope_def pop_scope_def)
  then show ?thesis by (simp add: ext_def scopes scope_ext_refl)
qed

end
