(* ===== verification/BcParts.thy ===== *)
theory BcParts
  imports BcGrow
begin

text \<open>
  The code of each construct of the compiler in terms of that of its parts. An elimination rule per
  construct names the states in between and writes the appended code out with its jumps patched;
  growth of the construct follows from growth of its parts.
\<close>

section \<open>Sequences\<close>

lemma growing_bind:
  assumes "growing f" and "growing g"
  shows "growing (\<lambda>c. rbind (f c) g)"
proof (rule growingI)
  fix c c' assume "rbind (f c) g = Inr c'"
  then obtain c1 where f: "f c = Inr c1" and g: "g c1 = Inr c'" by (auto simp: rbind_Inr_iff)
  from growingE [OF assms(1) f] obtain a where a: "bc_code c1 = bc_code c @ a" "ext (length a) c c1" .
  from growingE [OF assms(2) g] obtain b where b: "bc_code c' = bc_code c1 @ b" "ext (length b) c1 c'" .
  show "\<exists>new. bc_code c' = bc_code c @ new \<and> ext (length new) c c'"
    by (rule exI [of _ "a @ b"]) (use a b in \<open>auto intro: ext_trans\<close>)
qed

lemma growing_emit [intro]:
  "growing (\<lambda>c. Inr (emits (emit_op op) c))" "growing (\<lambda>c. Inr (emits (emit_u16 op v) c))"
  by (rule growingI, auto simp: emits_simps)+

definition spanned :: "Span \<Rightarrow> compiling \<Rightarrow> compiling" where
  "spanned sp f c = f (c\<lparr>bc_chunk := add_span (length (bc_code c)) sp (bc_chunk c)\<rparr>)"

lemma growing_span:
  assumes "growing f"
  shows "growing (spanned sp f)"
proof (rule growingI)
  fix c c' assume "spanned sp f c = Inr c'"
  from growingE [OF assms this [unfolded spanned_def]]
  show "\<exists>new. bc_code c' = bc_code c @ new \<and> ext (length new) c c'" by auto
qed

lemma sgrowing_span:
  assumes "sgrowing f"
  shows "sgrowing (spanned sp f)"
proof (rule sgrowingI)
  fix c c' assume "spanned sp f c = Inr c'"
  from sgrowingE [OF assms this [unfolded spanned_def]]
  show "\<exists>new. bc_code c' = bc_code c @ new \<and> sgro (length new) c c'" by auto
qed

lemma growing_emit_const: "growing (emit_const v)"
  by (rule growingI) (erule emit_const_Inr, auto)

lemma growing_emit_named: "growing (emit_named op s)"
  by (rule growingI) (erule emit_named_Inr, auto)

lemma growing_cfold: "(\<And>x. x \<in> set xs \<Longrightarrow> growing (f x)) \<Longrightarrow> growing (cfold f xs)"
proof (induction xs)
  case Nil
  then show ?case by (auto intro: growingI)
next
  case (Cons x xs)
  then have "growing (\<lambda>c. rbind (f x c) (cfold f xs))" by (intro growing_bind) auto
  then show ?case by simp
qed

section \<open>Conditions\<close>

definition else_of :: "subcompiler \<Rightarrow> Expr option \<Rightarrow> compiling" where
  "else_of ce e c = (case e of Some e' \<Rightarrow> ce e' c | None \<Rightarrow> Inr (emits (emit_op BcPushNull) c))"

lemma growing_else: "(\<And>x. e = Some x \<Longrightarrow> growing (ce x)) \<Longrightarrow> growing (else_of ce e)"
  by (cases e) (auto simp: growing_def else_of_def emits_simps)

text \<open>The operand of a jump at the end of \<open>code\<close> to \<open>target\<close>.\<close>

abbreviation jump_to :: "BcOp \<Rightarrow> nat \<Rightarrow> u8 list \<Rightarrow> u8 list" where
  "jump_to op target code \<equiv> ins op (jump_offset target (length code + 3))"

lemma compile_if_Inr:
  assumes "compile_if ce b t e c = Inr c'"
    and "growing (ce b)" and "growing (ce t)" and "growing (else_of ce e)"
  obtains c1 c3 c5 c6 nb nt ne l1 l2 where
    "ce b c = Inr c1" "bc_code c1 = bc_code c @ nb" "ext (length nb) c c1"
    "ce t (c1\<lparr>bc_code := bc_code c1 @ ins BcJumpIfFalse 0\<rparr>) = Inr c3"
    "bc_code c3 = bc_code c1 @ ins BcJumpIfFalse 0 @ nt" "ext (length nt) c1 c3"
    "c5 = c3\<lparr>bc_code := bc_code c1 @ jump_to BcJumpIfFalse l1 (bc_code c1) @ nt @ ins BcJump 0\<rparr>"
    "else_of ce e c5 = Inr c6" "bc_code c6 = bc_code c5 @ ne" "ext (length ne) c3 c6"
    "l1 = length (bc_code c3) + 3" "l2 = length (bc_code c6)"
    "c' = c6\<lparr>bc_code := bc_code c1 @ jump_to BcJumpIfFalse l1 (bc_code c1) @ nt @
            jump_to BcJump l2 (bc_code c3) @ ne\<rparr>"
proof -
  from assms(1) obtain c1 c3 c5 c6 where
    b: "ce b c = Inr c1" and t: "ce t (c1\<lparr>bc_code := bc_code c1 @ ins BcJumpIfFalse 0\<rparr>) = Inr c3" and
    p1: "patch (length (bc_code c1) + 1) (c3\<lparr>bc_code := bc_code c3 @ ins BcJump 0\<rparr>) = Inr c5" and
    e: "else_of ce e c5 = Inr c6" and p2: "patch (length (bc_code c3) + 1) c6 = Inr c'"
    by (auto simp: compile_if_def rbind_Inr_iff Let_def emits_simps else_of_def)
  from growingE [OF assms(2) b] obtain nb where nb: "bc_code c1 = bc_code c @ nb" "ext (length nb) c c1" .
  from growingE [OF assms(3) t] obtain nt where nt: "bc_code c3 = bc_code c1 @ ins BcJumpIfFalse 0 @ nt"
    "ext (length nt) c1 c3" by auto
  let ?a = "bc_code c1 @ jump_to BcJumpIfFalse (length (bc_code c3) + 3) (bc_code c1) @ nt"
  have c5: "c5 = c3\<lparr>bc_code := ?a @ ins BcJump 0\<rparr>"
    using p1 patch_at [of "c3\<lparr>bc_code := bc_code c3 @ ins BcJump 0\<rparr>" "bc_code c1" BcJumpIfFalse 0
        "nt @ ins BcJump 0" _ "length (bc_code c3) + 3"] nt(1) by simp
  from growingE [OF assms(4) e] obtain ne where ne: "bc_code c6 = bc_code c5 @ ne" "ext (length ne) c3 c6"
    by (auto simp: c5)
  have len: "length (bc_code c3) = length ?a" using nt(1) by simp
  have c': "c' = c6\<lparr>bc_code := ?a @ jump_to BcJump (length (bc_code c6)) (bc_code c3) @ ne\<rparr>"
    using p2 patch_at [of c6 ?a BcJump 0 ne _ "length (bc_code c6)"] ne(1) len by (simp add: c5)
  show ?thesis
    by (rule that [OF b nb t nt _ e ne refl refl]) (use c5 c' in simp_all)
qed

lemma growing_if:
  assumes "growing (ce b)" and "growing (ce t)" and "growing (else_of ce e)"
  shows "growing (compile_if ce b t e)"
proof (rule growingI)
  fix c c' assume "compile_if ce b t e c = Inr c'"
  then show "\<exists>new. bc_code c' = bc_code c @ new \<and> ext (length new) c c'"
    by (rule compile_if_Inr [OF _ assms]) (simp, erule (2) ext_trans3, simp)
qed

section \<open>Operators\<close>

abbreviation keep_jump :: "HxBinaryOp \<Rightarrow> BcOp" where
  "keep_jump op \<equiv> (if op = HAnd then BcJumpIfFalseKeep else BcJumpIfTrueKeep)"

lemma compile_short_Inr:
  assumes "compile_binary ce l op r sp c = Inr c'" and "op = HAnd \<or> op = HOr"
    and "growing (ce l)" and "growing (ce r)"
  obtains c1 c2 nl nr where
    "ce l c = Inr c1" "bc_code c1 = bc_code c @ nl" "ext (length nl) c c1"
    "ce r (c1\<lparr>bc_code := bc_code c1 @ ins (keep_jump op) 0 @ [op_byte BcPop]\<rparr>) = Inr c2"
    "bc_code c2 = bc_code c1 @ ins (keep_jump op) 0 @ [op_byte BcPop] @ nr" "ext (length nr) c1 c2"
    "c' = c2\<lparr>bc_code := bc_code c1 @ jump_to (keep_jump op) (length (bc_code c2)) (bc_code c1) @
            [op_byte BcPop] @ nr\<rparr>"
proof -
  from assms(1,2) obtain c1 c2 where l: "ce l c = Inr c1"
    and r: "ce r (c1\<lparr>bc_code := bc_code c1 @ ins (keep_jump op) 0 @ [op_byte BcPop]\<rparr>) = Inr c2"
    and p: "patch (length (bc_code c1) + 1) c2 = Inr c'"
    by (auto simp: compile_binary_def rbind_Inr_iff Let_def emits_simps)
  from growingE [OF assms(3) l] obtain nl where nl: "bc_code c1 = bc_code c @ nl" "ext (length nl) c c1" .
  from growingE [OF assms(4) r] obtain nr where nr: "ext (length nr) c1 c2"
    "bc_code c2 = bc_code c1 @ ins (keep_jump op) 0 @ [op_byte BcPop] @ nr" by auto
  have "c' = c2\<lparr>bc_code := bc_code c1 @ jump_to (keep_jump op) (length (bc_code c2)) (bc_code c1) @
      [op_byte BcPop] @ nr\<rparr>"
    using p patch_at [of c2 "bc_code c1" "keep_jump op" 0 "[op_byte BcPop] @ nr" _ "length (bc_code c2)"] nr(2)
    by simp
  then show ?thesis by (rule that [OF l nl r nr(2,1)])
qed

lemma growing_emit_binary: "growing (emit_binary_op op sp)" "growing (emit_compound_op aop sp)"
  by (auto simp: growing_def emit_binary_op_def emit_compound_op_def emits_simps split: option.splits)

lemma growing_binary:
  assumes "growing (ce l)" and "growing (ce r)"
  shows "growing (compile_binary ce l op r sp)"
proof (cases "op = HAnd \<or> op = HOr")
  case True
  show ?thesis
  proof (rule growingI)
    fix c c' assume "compile_binary ce l op r sp c = Inr c'"
    then show "\<exists>new. bc_code c' = bc_code c @ new \<and> ext (length new) c c'"
      by (rule compile_short_Inr [OF _ True assms]) (simp, erule (1) ext_trans, simp)
  qed
next
  case False
  then have "compile_binary ce l op r sp = (\<lambda>c. rbind (ce l c) (\<lambda>c1. rbind (ce r c1) (emit_binary_op op sp)))"
    by (auto simp: compile_binary_def fun_eq_iff)
  then show ?thesis using assms by (auto intro!: growing_bind growing_emit_binary)
qed

lemma growing_pre_post:
  "growing (compile_pre_inc_dec op e sp)" "growing (compile_post_inc_dec op e sp)"
  by (auto simp: growing_def compile_pre_inc_dec_def compile_post_inc_dec_def emits_simps
      split: ExprKind.splits Literal.splits option.splits)

lemma growing_unary:
  assumes "growing (ce e)"
  shows "growing (compile_unary ce op e sp)"
proof -
  have "growing (\<lambda>c. rbind (ce e c) (\<lambda>c1. Inr (emits (emit_op x) c1)))" for x
    by (rule growing_bind [OF assms growing_emit(1)])
  moreover have "growing (\<lambda>c. Inl x)" for x by (simp add: growing_def)
  ultimately show ?thesis using growing_pre_post by (cases op) (simp_all add: compile_unary_def [abs_def])
qed

lemma growing_load_var: "growing (load_var x sp)"
  by (auto simp: growing_def load_var_def emits_simps split: option.splits)

text \<open>Assignment to a name.\<close>

lemma growing_store: "growing (\<lambda>c. case resolve x c of Some slot \<Rightarrow> Inr (emits (emit_u16 BcStoreLocal slot) c)
    | None \<Rightarrow> Inr (define_var x c))"
proof (rule growingI)
  fix c c'
  assume "(case resolve x c of Some slot \<Rightarrow> Inr (emits (emit_u16 BcStoreLocal slot) c)
    | None \<Rightarrow> Inr (define_var x c)) = Inr c'"
  then show "\<exists>new. bc_code c' = bc_code c @ new \<and> ext (length new) c c'"
    using ext_mono [OF define_var_ext, of x c 3] by (auto simp: emits_simps define_var_code split: option.splits)
qed

lemma growing_assign_ident:
  assumes "growing (ce r)"
  shows "growing (assign_ident ce x op r sp)"
proof (cases "op = HAssign")
  case True
  then have "assign_ident ce x op r sp = (\<lambda>c. rbind (ce r c) (\<lambda>c1.
      case resolve x c1 of Some slot \<Rightarrow> Inr (emits (emit_u16 BcStoreLocal slot) c1)
      | None \<Rightarrow> Inr (define_var x c1)))"
    by (simp add: assign_ident_def fun_eq_iff)
  then show ?thesis using assms by (auto intro!: growing_bind growing_store)
next
  case False
  have "growing (\<lambda>c. rbind (ce r (emits (emit_u16 BcLoadLocal slot) c)) (\<lambda>c1.
      rbind (emit_compound_op op sp c1) (\<lambda>c2. Inr (emits (emit_u16 BcStoreLocal slot) c2))))" for slot
    using growing_bind [OF growing_emit(2) growing_bind [OF assms growing_bind [OF growing_emit_binary(2) growing_emit(2)]]]
    by simp
  then show ?thesis using False by (auto simp: growing_def assign_ident_def split: option.splits)
qed

section \<open>Loops\<close>

lemma leave_loop_plain:
  assumes "ext n (enter_loop c) c1"
  shows "leave_loop (c1\<lparr>bc_code := x\<rparr>) = Inr (c1\<lparr>bc_loops := bc_loops c, bc_code := x\<rparr>)"
  using assms by (simp add: ext_def gro_def enter_loop_def leave_loop_def)

lemma ext_enter_loop: "ext n (enter_loop c) c1 \<Longrightarrow> ext n c (c1\<lparr>bc_loops := bc_loops c\<rparr>)"
  by (simp add: ext_def gro_def enter_loop_def scope_ext_def locals_ok_def cong: list.case_cong)

lemma compile_while_Inr:
  assumes "compile_while ce b t c = Inr c'" and "growing (ce b)" and "growing (ce t)"
  obtains c1 c3 nb nt where
    "ce b (enter_loop c) = Inr c1" "bc_code c1 = bc_code c @ nb" "ext (length nb) (enter_loop c) c1"
    "ce t (c1\<lparr>bc_code := bc_code c1 @ ins BcJumpIfFalse 0\<rparr>) = Inr c3"
    "bc_code c3 = bc_code c1 @ ins BcJumpIfFalse 0 @ nt" "ext (length nt) c1 c3"
    "c' = c3\<lparr>bc_loops := bc_loops c, bc_code := bc_code c1 @
            jump_to BcJumpIfFalse (length (bc_code c3) + 4) (bc_code c1) @ nt @ [op_byte BcPop] @ ins BcJump (jump_offset (length (bc_code c)) (length (bc_code c3) + 4)) @
            [op_byte BcPushNull]\<rparr>"
proof -
  let ?tail = "\<lambda>c3. [op_byte BcPop] @ ins BcJump (jump_offset (length (bc_code c)) (length (bc_code c3) + 4))"
  from assms(1) obtain c1 c3 c4 c5 where b: "ce b (enter_loop c) = Inr c1"
    and t: "ce t (c1\<lparr>bc_code := bc_code c1 @ ins BcJumpIfFalse 0\<rparr>) = Inr c3"
    and p: "patch (length (bc_code c1) + 1) (c3\<lparr>bc_code := bc_code c3 @ ?tail c3\<rparr>) = Inr c4"
    and l: "leave_loop c4 = Inr c5" and c': "c' = c5\<lparr>bc_code := bc_code c5 @ [op_byte BcPushNull]\<rparr>"
    by (auto simp: compile_while_def rbind_Inr_iff Let_def emits_simps add.commute [of "4::nat"])
  from growingE [OF assms(2) b] obtain nb where nb: "bc_code c1 = bc_code c @ nb" "ext (length nb) (enter_loop c) c1"
    by (auto simp: enter_loop_def)
  from growingE [OF assms(3) t] obtain nt where nt: "ext (length nt) c1 c3"
    "bc_code c3 = bc_code c1 @ ins BcJumpIfFalse 0 @ nt" by auto
  have c4: "c4 = c3\<lparr>bc_code := bc_code c1 @ jump_to BcJumpIfFalse (length (bc_code c3) + 4) (bc_code c1) @ nt @ ?tail c3\<rparr>"
    using p patch_at [of "c3\<lparr>bc_code := bc_code c3 @ ?tail c3\<rparr>" "bc_code c1" BcJumpIfFalse 0
        "nt @ ?tail c3" _ "length (bc_code c3) + 4"] nt(2) by simp
  have "ext (length nb + length nt) (enter_loop c) c3" using nb(2) nt(1) by (rule ext_trans) simp
  from leave_loop_plain [OF this] l have "c' = c3\<lparr>bc_loops := bc_loops c, bc_code := bc_code c1 @
      jump_to BcJumpIfFalse (length (bc_code c3) + 4) (bc_code c1) @ nt @ ?tail c3 @ [op_byte BcPushNull]\<rparr>"
    by (auto simp: c' c4)
  then show ?thesis by (intro that [OF b nb t nt(2,1)]) simp
qed

lemma growing_while:
  assumes "growing (ce b)" and "growing (ce t)"
  shows "growing (compile_while ce b t)"
proof (rule growingI)
  fix c c' assume "compile_while ce b t c = Inr c'"
  then show "\<exists>new. bc_code c' = bc_code c @ new \<and> ext (length new) c c'"
    by (rule compile_while_Inr [OF _ assms]) (simp, rule ext_enter_loop, erule (1) ext_trans, simp)
qed

lemma compile_do_while_Inr:
  assumes "compile_do_while ce t b c = Inr c'" and "growing (ce b)" and "growing (ce t)"
  obtains c1 c3 nb nt where
    "ce t (enter_loop c) = Inr c1" "bc_code c1 = bc_code c @ nt" "ext (length nt) (enter_loop c) c1"
    "ce b (c1\<lparr>bc_code := bc_code c1 @ [op_byte BcPop]\<rparr>) = Inr c3"
    "bc_code c3 = bc_code c1 @ [op_byte BcPop] @ nb" "ext (length nb) c1 c3"
    "c' = c3\<lparr>bc_loops := bc_loops c, bc_code := bc_code c3 @
            jump_to BcJumpIfFalse (length (bc_code c3) + 6) (bc_code c3) @
            ins BcJump (jump_offset (length (bc_code c)) (length (bc_code c3) + 6)) @
            [op_byte BcPushNull]\<rparr>"
proof -
  let ?tail = "\<lambda>c3. ins BcJump (jump_offset (length (bc_code c)) (length (bc_code c3) + 6))"
  from assms(1) obtain c1 c3 c4 c5 where t: "ce t (enter_loop c) = Inr c1"
    and b: "ce b (c1\<lparr>bc_code := bc_code c1 @ [op_byte BcPop]\<rparr>) = Inr c3"
    and p: "patch (length (bc_code c3) + 1) (c3\<lparr>bc_code := bc_code c3 @ ins BcJumpIfFalse 0 @ ?tail c3\<rparr>) = Inr c4"
    and l: "leave_loop c4 = Inr c5" and c': "c' = c5\<lparr>bc_code := bc_code c5 @ [op_byte BcPushNull]\<rparr>"
    by (auto simp: compile_do_while_def rbind_Inr_iff Let_def emits_simps add.commute [of "6::nat"])
  from growingE [OF assms(3) t] obtain nt where nt: "bc_code c1 = bc_code c @ nt" "ext (length nt) (enter_loop c) c1"
    by (auto simp: enter_loop_def)
  from growingE [OF assms(2) b] obtain nb where nb: "ext (length nb) c1 c3"
    "bc_code c3 = bc_code c1 @ [op_byte BcPop] @ nb" by auto
  have c4: "c4 = c3\<lparr>bc_code := bc_code c3 @ jump_to BcJumpIfFalse (length (bc_code c3) + 6) (bc_code c3) @ ?tail c3\<rparr>"
    using p patch_at [of "c3\<lparr>bc_code := bc_code c3 @ ins BcJumpIfFalse 0 @ ?tail c3\<rparr>" "bc_code c3" BcJumpIfFalse 0
        "?tail c3" _ "length (bc_code c3) + 6"] by simp
  have "ext (length nt + length nb) (enter_loop c) c3" using nt(2) nb(1) by (rule ext_trans) simp
  from leave_loop_plain [OF this] l have "c' = c3\<lparr>bc_loops := bc_loops c, bc_code := bc_code c3 @
      jump_to BcJumpIfFalse (length (bc_code c3) + 6) (bc_code c3) @ ?tail c3 @ [op_byte BcPushNull]\<rparr>"
    by (auto simp: c' c4)
  then show ?thesis by (intro that [OF t nt b nb(2,1)]) simp
qed

lemma growing_do_while:
  assumes "growing (ce b)" and "growing (ce t)"
  shows "growing (compile_do_while ce t b)"
proof (rule growingI)
  fix c c' assume "compile_do_while ce t b c = Inr c'"
  then show "\<exists>new. bc_code c' = bc_code c @ new \<and> ext (length new) c c'"
    by (rule compile_do_while_Inr [OF _ assms]) (simp, rule ext_enter_loop, erule (1) ext_trans, simp)
qed

section \<open>Blocks\<close>

definition block_code :: "subcompiler \<Rightarrow> Expr BlockElement list \<Rightarrow> compiling" where
  "block_code ce bs c = (if bs = [] then Inr (emits (emit_op BcPushNull) c) else compile_elements ce bs c)"

lemma sgrowing_bind:
  assumes "sgrowing f" and "sgrowing g"
  shows "sgrowing (\<lambda>c. rbind (f c) g)"
proof (rule sgrowingI)
  fix c c' assume "rbind (f c) g = Inr c'"
  then obtain c1 where f: "f c = Inr c1" and g: "g c1 = Inr c'" by (auto simp: rbind_Inr_iff)
  from sgrowingE [OF assms(1) f] obtain a where a: "bc_code c1 = bc_code c @ a" "sgro (length a) c c1" .
  from sgrowingE [OF assms(2) g] obtain b where b: "bc_code c' = bc_code c1 @ b" "sgro (length b) c1 c'" .
  show "\<exists>new. bc_code c' = bc_code c @ new \<and> sgro (length new) c c'"
    by (rule exI [of _ "a @ b"]) (use a b in \<open>auto intro: sgro_trans\<close>)
qed

lemma sgrowing_elements: "(\<And>e. BlExpr e \<in> set bs \<Longrightarrow> sgrowing (ce e)) \<Longrightarrow> sgrowing (compile_elements ce bs)"
proof (induction bs rule: induct_list012)
  case 1
  show ?case by (rule sgrowingI) auto
next
  case (2 x)
  have "sgrowing (\<lambda>c. Inr (emits (emit_op BcPushNull) c))" by (rule growing_sgrowing) (rule growing_emit)
  with 2 show ?case by (cases x) (auto simp: fun_eq_iff sgrowing_def)
next
  case (3 x y zs)
  have rest: "sgrowing (compile_elements ce (y # zs))" using 3 by auto
  show ?case
  proof (cases x)
    case (BlExpr e)
    have "sgrowing (\<lambda>c. rbind (Inr (emits (emit_op BcPop) c)) (compile_elements ce (y # zs)))"
      using growing_sgrowing [OF growing_emit(1)] rest by (rule sgrowing_bind)
    then have "sgrowing (\<lambda>c. compile_elements ce (y # zs) (emits (emit_op BcPop) c))" by simp
    from sgrowing_bind [OF _ this, of "ce e"] 3 BlExpr show ?thesis by (simp add: fun_eq_iff)
  qed (use rest in \<open>simp_all\<close>)
qed

lemma sgrowing_block_code:
  assumes "\<And>e. BlExpr e \<in> set bs \<Longrightarrow> sgrowing (ce e)"
  shows "sgrowing (block_code ce bs)"
  using sgrowing_elements [of bs ce] growing_sgrowing [OF growing_emit(1), of BcPushNull] assms
  by (cases "bs = []") (simp_all add: block_code_def [abs_def])

lemma compile_block_Inr:
  assumes "compile_block ce bs c = Inr c'"
  obtains c1 where "block_code ce bs (push_scope c) = Inr c1" and "c' = pop_scope c1"
  using assms by (auto simp: compile_block_def block_code_def rbind_Inr_iff split: if_splits)

lemma scope_code [simp]: "bc_code (push_scope c) = bc_code c" "bc_code (pop_scope c) = bc_code c"
  by (simp_all add: push_scope_def pop_scope_def)

lemma growing_block:
  assumes "\<And>e. BlExpr e \<in> set bs \<Longrightarrow> sgrowing (ce e)"
  shows "growing (compile_block ce bs)"
proof (rule growingI)
  fix c c' assume "compile_block ce bs c = Inr c'"
  then obtain c1 where c1: "block_code ce bs (push_scope c) = Inr c1" and c': "c' = pop_scope c1"
    by (rule compile_block_Inr)
  from sgrowingE [OF sgrowing_block_code [OF assms] c1] obtain new where
    "bc_code c1 = bc_code c @ new" "sgro (length new) (push_scope c) c1" by auto
  with in_scope_ext show "\<exists>new. bc_code c' = bc_code c @ new \<and> ext (length new) c c'" by (auto simp: c')
qed

section \<open>Expressions\<close>

text \<open>What \<open>compile_expr\<close> is on the constructs of the fragment.\<close>

definition var_code :: "string \<Rightarrow> Expr option \<Rightarrow> compiling" where
  "var_code x e c = rbind (else_of compile_expr e c) (\<lambda>c1. Inr (define_var x c1))"

definition return_code :: "Expr option \<Rightarrow> compiling" where
  "return_code e c =
     (case e of Some x \<Rightarrow> rbind (compile_expr x c) (\<lambda>c1. Inr (emits (emit_op BcReturn) c1))
      | None \<Rightarrow> Inr (emits (emit_op BcReturnNull) c))"

definition lit_code :: "Literal \<Rightarrow> Span \<Rightarrow> compiling" where
  "lit_code l sp =
     (case l of
        XInt i \<Rightarrow> (if i = 0 then (\<lambda>c. Inr (emits (emit_op BcPushInt0) c))
           else if i = 1 then (\<lambda>c. Inr (emits (emit_op BcPushInt1) c)) else emit_const (MInt i))
      | XFloat f \<Rightarrow> emit_const (MFloat f)
      | XString s \<Rightarrow> emit_const (MString s)
      | XBool b \<Rightarrow> (\<lambda>c. Inr (emits (emit_op (if b then BcPushTrue else BcPushFalse)) c))
      | XNull \<Rightarrow> (\<lambda>c. Inr (emits (emit_op BcPushNull) c))
      | XThis \<Rightarrow> (\<lambda>c. case resolve ''this'' c of
             Some slot \<Rightarrow> Inr (emits (emit_u16 BcLoadLocal slot) c)
           | None \<Rightarrow> Inl (CompileError ([char_of (39 :: nat)] @ ''this'' @ [char_of (39 :: nat)] @ '' not defined'') sp))
      | XIdent x \<Rightarrow> load_var x sp)"

lemma compile_expr_kinds:
  "compile_expr (Expr (KLit l) sp) = spanned sp (lit_code l sp)"
  "compile_expr (Expr (EUnary op e) sp) = spanned sp (compile_unary compile_expr op e sp)"
  "compile_expr (Expr (EBinary a bop b) sp) = spanned sp (compile_binary compile_expr a bop b sp)"
  "e_kind a = EIdent x \<Longrightarrow> compile_expr (Expr (EAssign a aop b) sp) = spanned sp (assign_ident compile_expr x aop b sp)"
  "compile_expr (Expr (EIf a b e1) sp) = spanned sp (compile_if compile_expr a b e1)"
  "compile_expr (Expr (ETernary a b e) sp) = spanned sp (compile_if compile_expr a b (Some e))"
  "compile_expr (Expr (EBlock bs) sp) = spanned sp (compile_block compile_expr bs)"
  "compile_expr (Expr (EWhile a b) sp) = spanned sp (compile_while compile_expr a b)"
  "compile_expr (Expr (EDoWhile a b) sp) = spanned sp (compile_do_while compile_expr a b)"
  "compile_expr (Expr (EArray es) sp) = spanned sp (\<lambda>c. rbind (cfold compile_expr es c)
     (\<lambda>c1. Inr (emits (emit_u16 BcMakeArray (word_of_nat (length es))) c1)))"
  "compile_expr (Expr (EIndex a b) sp) = spanned sp (\<lambda>c. rbind (compile_expr a c) (\<lambda>c1.
     rbind (compile_expr b c1) (\<lambda>c2. Inr (emits (emit_op BcGetIndex) c2))))"
  "compile_expr (Expr (EField a f opt) sp) = spanned sp (\<lambda>c. rbind (compile_expr a c)
     (emit_named (if opt then BcGetFieldOpt else BcGetField) f))"
  "compile_expr (Expr (EReturn e1) sp) = spanned sp (return_code e1)"
  "compile_expr (Expr (EVar x e1) sp) = spanned sp (var_code x e1)"
  "compile_expr (Expr (EFinal x e1) sp) = spanned sp (var_code x e1)"
  "k \<in> {EParen e, ECast e, ETypeCheck e, EUntyped e, EMeta e, EInline e} \<Longrightarrow>
     compile_expr (Expr k sp) = spanned sp (compile_expr e)"
  by (auto simp: fun_eq_iff compile_expr.simps spanned_def Let_def lit_code_def return_code_def var_code_def
      compile_assignment_def else_of_def split: Literal.splits)

lemma growing_lit: "growing (lit_code l sp)"
proof -
  have "growing (\<lambda>c. case resolve ''this'' c of
             Some slot \<Rightarrow> Inr (emits (emit_u16 BcLoadLocal slot) c)
           | None \<Rightarrow> Inl (CompileError ([char_of (39 :: nat)] @ ''this'' @ [char_of (39 :: nat)] @ '' not defined'') sp))"
    by (auto simp: growing_def emits_simps split: option.splits)
  then show ?thesis
    by (auto simp: lit_code_def growing_emit growing_emit_const growing_load_var split: Literal.splits)
qed

lemma growing_return: "(\<And>x. e = Some x \<Longrightarrow> growing (compile_expr x)) \<Longrightarrow> growing (return_code e)"
  using growing_emit(1) [of BcReturnNull] growing_bind [OF _ growing_emit(1) [of BcReturn], of "compile_expr (the e)"]
  by (cases e) (auto simp: return_code_def [abs_def])

lemma sgrowing_define_var: "sgrowing (\<lambda>c. Inr (define_var x c))"
  by (auto simp: sgrowing_def define_var_code intro: sgro_trans [OF define_var_sgro ext_refl(2) [of 0]])

lemma sgrowing_var: "(\<And>x. e = Some x \<Longrightarrow> growing (compile_expr x)) \<Longrightarrow> sgrowing (var_code x e)"
  unfolding var_code_def [abs_def]
  by (rule sgrowing_bind [OF growing_sgrowing [OF growing_else] sgrowing_define_var])

lemma compile_grows:
  shows plain_growing: "plain e \<Longrightarrow> growing (compile_expr e)"
    and stmt_sgrowing: "stmt e \<Longrightarrow> sgrowing (compile_expr e)"
proof (induction rule: plain_stmt.inducts)
  case (plain_array es sp)
  then show ?case
    by (simp add: compile_expr_kinds)
       (intro growing_span growing_bind [OF growing_cfold] growing_emit; simp)
next
  case (plain_assign l x r op sp)
  then show ?case by (simp add: compile_expr_kinds growing_span growing_assign_ident)
next
  case (plain_index b i sp)
  then show ?case by (simp add: compile_expr_kinds growing_span growing_bind growing_emit)
next
  case (plain_field b f opt sp)
  then show ?case by (simp add: compile_expr_kinds growing_span growing_bind growing_emit_named)
next
  case (plain_ternary b t e sp)
  then show ?case
    by (simp add: compile_expr_kinds) (intro growing_span growing_if growing_else; simp)
next
  case (plain_if b t e sp)
  then show ?case
    by (simp add: compile_expr_kinds) (intro growing_span growing_if growing_else; simp)
next
  case (plain_wrap k e sp)
  then show ?case by (simp only: compile_expr_kinds(16)) (rule growing_span)
qed (simp_all add: compile_expr_kinds growing_span sgrowing_span growing_lit growing_unary growing_binary
    growing_block growing_while growing_do_while growing_return sgrowing_var growing_sgrowing)

end
