(* ===== verification/BcSim.thy ===== *)
theory BcSim
  imports BcParts
begin

text \<open>
  Simulation of the reference semantics by compiled code. \<open>sim\<close> relates a compiling function to an
  evaluation: wherever the code it appends lies in a chunk, running it takes related locals to
  related locals and leaves the value on the stack, or returns the value. Each construct of the
  compiler preserves it.
\<close>

section \<open>Where code is compiled\<close>

definition good :: "BytecodeCompiler \<Rightarrow> bool" where
  "good c \<longleftrightarrow> (\<exists>K. locals_ok c K \<and> K \<le> 32767 + length (bc_code c))"

definition below :: "Chunk \<Rightarrow> nat \<Rightarrow> BytecodeCompiler \<Rightarrow> bool" where
  "below ch N c \<longleftrightarrow>
     unat (lr_next_slot (bc_locals c)) \<le> N \<and> (\<exists>ks. ch_constants ch = consts_of c @ ks) \<and>
     length (consts_of c) \<le> 65536 \<and> length (bc_code c) < 2 ^ 15"

lemma good_below:
  assumes "good c" and "sgro i c c1" and "sgro j c1 c'" and "below ch N c'"
    and "length (bc_code c) + i \<le> length (bc_code c1)" and "length (bc_code c1) + j \<le> length (bc_code c')"
  shows "good c1" and "below ch N c1"
proof -
  from assms(1) obtain K where K: "locals_ok c K" "K \<le> 32767 + length (bc_code c)" by (auto simp: good_def)
  from assms(2,3) obtain d e where d: "d \<le> i" "locals_ok c K \<Longrightarrow> K + d \<le> 65535 \<Longrightarrow> locals_ok c1 (K + d)"
    and e: "e \<le> j" "locals_ok c1 (K + d) \<Longrightarrow> K + d + e \<le> 65535 \<Longrightarrow> locals_ok c' (K + d + e)"
    unfolding sgro_def gro_def by metis
  have len: "length (bc_code c') < 32768" using assms(4) by (simp add: below_def)
  have c1: "locals_ok c1 (K + d)" using d K assms(5,6) len by auto
  then have c': "locals_ok c' (K + d + e)" using e K d(1) assms(5,6) len by auto
  show "good c1" unfolding good_def using c1 K(2) d(1) assms(5) by (intro exI [of _ "K + d"]) auto
  have "unat (lr_next_slot (bc_locals c1)) = K + d" "unat (lr_next_slot (bc_locals c')) = K + d + e"
    using c1 c' by (auto simp: locals_ok_def unat_of_nat simp del: of_nat_add)
  then show "below ch N c1"
    using assms(3,4,6) by (auto simp: below_def sgro_def gro_def)
qed

lemma good_code: "good c \<Longrightarrow> length (bc_code c) \<le> length x \<Longrightarrow> good (c\<lparr>bc_code := x\<rparr>)"
  by (auto simp: good_def locals_ok_def intro: le_trans)

lemma below_code: "below ch N c \<Longrightarrow> length x \<le> length (bc_code c) \<Longrightarrow> below ch N (c\<lparr>bc_code := x\<rparr>)"
  by (auto simp: below_def)

definition coded :: "compiling \<Rightarrow> Chunk \<Rightarrow> nat \<Rightarrow> BytecodeCompiler \<Rightarrow> BytecodeCompiler \<Rightarrow> bool" where
  "coded f ch N c c' \<longleftrightarrow>
     f c = Inr c' \<and> good c \<and> below ch N c' \<and>
     (\<exists>new. bc_code c' = bc_code c @ new \<and> code_at ch (length (bc_code c)) new)"

lemma coded_span:
  "coded (spanned sp f) ch N c c' \<Longrightarrow>
     coded f ch N (c\<lparr>bc_chunk := add_span (length (bc_code c)) sp (bc_chunk c)\<rparr>) c'"
  by (simp add: coded_def spanned_def good_def locals_ok_def)

section \<open>Environments over time\<close>

definition doms :: "Env \<Rightarrow> string set list" where
  "doms env = map (\<lambda>m. dom (map_of m)) env"

lemma doms_Cons [simp]: "doms (m # ms) = dom (map_of m) # doms ms"
  by (simp add: doms_def)

lemma lookup_doms: "doms e1 = doms e2 \<Longrightarrow> lookup_env x e1 = None \<longleftrightarrow> lookup_env x e2 = None"
proof (induction e1 arbitrary: e2)
  case (Cons m ms)
  then obtain m' ms' where "e2 = m' # ms'" "dom (map_of m) = dom (map_of m')" "doms ms = doms ms'"
    by (cases e2) (auto simp: doms_def)
  moreover from this have "map_of m x = None \<longleftrightarrow> map_of m' x = None" by (metis domIff)
  ultimately show ?case using Cons.IH [of ms'] by (auto split: option.splits)
qed (simp add: doms_def)

lemma doms_assign: "doms (assign_env x v e) = doms e"
  by (induction e) (auto simp: doms_def)

lemma env_rel_same:
  assumes "env_rel (m # ms) (e0 # es0) L0" and "env_rel (m' # ms) (e # es) L" and "doms (e # es) = doms (e0 # es0)"
    and "\<And>x s. map_of m x = Some s \<Longrightarrow> map_of m' x = Some s"
  shows "env_rel (m # ms) (e # es) L"
proof -
  have d: "map_of e x = None \<longleftrightarrow> map_of e0 x = None" "lookup_env x es = None \<longleftrightarrow> lookup_env x es0 = None" for x
  proof -
    have "dom (map_of e) = dom (map_of e0)" and es: "doms es = doms es0" using assms(3) by simp_all
    then show "map_of e x = None \<longleftrightarrow> map_of e0 x = None" by (metis domIff)
    show "lookup_env x es = None \<longleftrightarrow> lookup_env x es0 = None" by (rule lookup_doms [OF es])
  qed
  have "holds_in m e L" unfolding holds_in_def
  proof (intro allI impI)
    fix x v assume x: "map_of e x = Some v"
    then obtain w where "map_of e0 x = Some w" using d(1) [of x] by auto
    from env_rel_head [OF assms(1) this] obtain s where s: "map_of m x = Some s" by blast
    from env_rel_head [OF assms(2) x] assms(4) [OF s] s
    show "\<exists>slot. map_of m x = Some slot \<and> unat slot < length L \<and> L ! unat slot = v" by auto
  qed
  then show ?thesis using assms(1,2) d by auto
qed

lemma env_rel_sync:
  assumes "scope_ext c c1" and "env_rel (scopes_of c) env0 L0" and "doms env = doms env0"
  shows "env_rel (scopes_of c1) env L \<longleftrightarrow> env_rel (scopes_of c) env L"
proof (cases "scopes_of c")
  case Nil
  with assms(1) show ?thesis by (simp add: scope_ext_def)
next
  case (Cons m ms)
  with assms(1) obtain m' where m': "scopes_of c1 = m' # ms"
    "\<And>x s. map_of m x = Some s \<Longrightarrow> map_of m' x = Some s"
    "\<And>x. map_of m x = None \<Longrightarrow> map_of m' x \<noteq> None \<Longrightarrow> resolve_in x ms = None"
    by (auto simp: scope_ext_def)
  from assms(2) Cons obtain e0 es0 where e0: "env0 = e0 # es0" by (cases env0) auto
  with assms(3) obtain e es where e: "env = e # es" by (cases env) (auto simp: doms_def)
  show ?thesis
    using env_rel_ext [of m ms e es L m'] env_rel_same [of m ms e0 es0 L0 m' e es L] m' assms(2,3) Cons e e0
    by metis
qed

section \<open>Simulation\<close>

text \<open>
  From a state to offset \<open>j\<close>: a value arrives above the operands \<open>ops\<close>, with the locals related to the
  environment under the scopes of \<open>c\<close> and no name gained or lost; a returned value ends the run.
\<close>

fun outcome ::
  "Host \<Rightarrow> MacroVm \<Rightarrow> Chunk \<Rightarrow> nat \<Rightarrow> BytecodeCompiler \<Rightarrow> Env \<Rightarrow> MacroVm \<Rightarrow> nat \<Rightarrow> MacroValue list \<Rightarrow>
     Completion \<times> Env \<times> nat \<Rightarrow> bool" where
  "outcome h s ch N c env0 start j ops (Normal v, env, a) \<longleftrightarrow>
     doms env = doms env0 \<and>
     (\<exists>L. length L = N \<and> env_rel (scopes_of c) env L \<and> steps h start (vst s ch j (L @ ops @ [v]) a))"
| "outcome h s ch N c env0 start j ops (Returned v, env, a) \<longleftrightarrow> ends h start v"

definition sim :: "Host \<Rightarrow> Chunk \<Rightarrow> nat \<Rightarrow> compiling \<Rightarrow> (Env \<times> nat \<Rightarrow> evaluation) \<Rightarrow> bool" where
  "sim h ch N f g \<longleftrightarrow>
     (\<forall>s c c' env a L ops x. coded f ch N c c' \<longrightarrow> length L = N \<longrightarrow> env_rel (scopes_of c) env L \<longrightarrow>
        g (env, a) = Some x \<longrightarrow>
        outcome h s ch N c env (vst s ch (length (bc_code c)) (L @ ops) a) (length (bc_code c')) ops x)"

lemma simI:
  "(\<And>s c c' env a L ops x. coded f ch N c c' \<Longrightarrow> length L = N \<Longrightarrow> env_rel (scopes_of c) env L \<Longrightarrow>
      g (env, a) = Some x \<Longrightarrow>
      outcome h s ch N c env (vst s ch (length (bc_code c)) (L @ ops) a) (length (bc_code c')) ops x) \<Longrightarrow>
   sim h ch N f g"
  unfolding sim_def by blast

lemma simD:
  "sim h ch N f g \<Longrightarrow> coded f ch N c c' \<Longrightarrow> length L = N \<Longrightarrow> env_rel (scopes_of c) env L \<Longrightarrow>
     g (env, a) = Some x \<Longrightarrow>
     outcome h s ch N c env (vst s ch (length (bc_code c)) (L @ ops) a) (length (bc_code c')) ops x"
  unfolding sim_def by blast

lemma completion_cases [case_names Normal Returned]:
  fixes x :: "Completion \<times> Env \<times> nat"
  obtains v env a where "x = (Normal v, env, a)" | v env a where "x = (Returned v, env, a)"
  by (cases x; cases "fst x") auto

lemma outcome_steps:
  "steps h st st1 \<Longrightarrow> outcome h s ch N c env0 st1 j ops x \<Longrightarrow> outcome h s ch N c env0 st j ops x"
  by (cases x rule: completion_cases) (auto intro: steps_trans steps_ends)

lemma outcome_normal:
  "doms env = doms env0 \<Longrightarrow> length L = N \<Longrightarrow> env_rel (scopes_of c) env L \<Longrightarrow>
     steps h st (vst s ch j (L @ ops @ [v]) a) \<Longrightarrow> outcome h s ch N c env0 st j ops (Normal v, env, a)"
  by auto

lemma outcome_bind:
  assumes "ebind y k = Some x" and "\<And>z. y = Some z \<Longrightarrow> outcome h s ch N c env0 st j1 ops1 z"
    and "\<And>v env1 a1 L1. y = Some (Normal v, env1, a1) \<Longrightarrow> k v (env1, a1) = Some x \<Longrightarrow> length L1 = N \<Longrightarrow>
      env_rel (scopes_of c) env1 L1 \<Longrightarrow> doms env1 = doms env0 \<Longrightarrow>
      outcome h s ch N c env0 (vst s ch j1 (L1 @ ops1 @ [v]) a1) j ops x"
  shows "outcome h s ch N c env0 st j ops x"
proof -
  obtain r env a where x: "x = (r, env, a)" by (cases x)
  from assms(1) consider v env1 a1 where "y = Some (Normal v, env1, a1)" "k v (env1, a1) = Some x"
    | v where "y = Some (Returned v, env, a)" "r = Returned v"
    by (auto simp: x ebind_Some)
  then show ?thesis
  proof cases
    case 1
    from assms(2) [OF 1(1)] obtain L1 where "length L1 = N" "env_rel (scopes_of c) env1 L1"
      "doms env1 = doms env0" and st: "steps h st (vst s ch j1 (L1 @ ops1 @ [v]) a1)" by auto
    with assms(3) [OF 1] have "outcome h s ch N c env0 (vst s ch j1 (L1 @ ops1 @ [v]) a1) j ops x" by simp
    with st show ?thesis by (rule outcome_steps)
  next
    case 2
    from assms(2) [OF 2(1)] show ?thesis by (simp add: x 2)
  qed
qed

lemma outcome_sync:
  assumes "scope_ext c c1" and "env_rel (scopes_of c) env0 L0" and "doms env1 = doms env0"
    and "outcome h s ch N c1 env1 st j ops x"
  shows "outcome h s ch N c env0 st j ops x"
  using assms(4) env_rel_sync [OF assms(1,2)] assms(3) by (cases x rule: completion_cases) auto

lemma outcome_after:
  assumes "outcome h s ch N c env0 st j1 ops x"
    and "\<And>L v a. length L = N \<Longrightarrow> steps h (vst s ch j1 (L @ ops @ [v]) a) (vst s ch j (L @ ops @ [v]) a)"
  shows "outcome h s ch N c env0 st j ops x"
proof (cases x rule: completion_cases)
  case (Normal v env a)
  with assms(1) obtain L where "doms env = doms env0" "length L = N" "env_rel (scopes_of c) env L"
    "steps h st (vst s ch j1 (L @ ops @ [v]) a)" by auto
  with assms(2) show ?thesis unfolding Normal by (blast intro: outcome_normal steps_trans)
next
  case (Returned v env a)
  with assms(1) show ?thesis by simp
qed

text \<open>A part that is compiled at \<open>c1\<close>, seen from the state the whole is compiled at.\<close>

lemma sim_part:
  assumes "sim h ch N f g" and "coded f ch N c1 c2" and "scope_ext c c1" and "env_rel (scopes_of c) env0 L0"
    and "length L = N" and "env_rel (scopes_of c) env L" and "doms env = doms env0" and "g (env, a) = Some x"
  shows "outcome h s ch N c env0 (vst s ch (length (bc_code c1)) (L @ ops) a) (length (bc_code c2)) ops x"
  by (rule outcome_sync [OF assms(3,4,7)], rule simD [OF assms(1,2,5) _ assms(8)])
     (simp add: env_rel_sync [OF assms(3,4,7)] assms(6))

lemma sim_span: "sim h ch N f g \<Longrightarrow> sim h ch N (spanned sp f) g"
proof (rule simI)
  fix s c c' env a L ops x
  assume "sim h ch N f g" and "coded (spanned sp f) ch N c c'" and "length (L :: MacroValue list) = N"
    and "env_rel (scopes_of c) env L" and "g (env, a) = Some x"
  from simD [OF this(1) coded_span [OF this(2)] this(3) _ this(5), of s ops] this(4)
  have "outcome h s ch N (c\<lparr>bc_chunk := add_span (length (bc_code c)) sp (bc_chunk c)\<rparr>) env
    (vst s ch (length (bc_code c)) (L @ ops) a) (length (bc_code c')) ops x" by simp
  then show "outcome h s ch N c env (vst s ch (length (bc_code c)) (L @ ops) a) (length (bc_code c')) ops x"
    by (cases x rule: completion_cases) simp_all
qed

text \<open>A part of what is compiled from \<open>c\<close> to \<open>c'\<close>.\<close>

lemma coded_part:
  assumes "f c1 = Inr c2" and "bc_code c2 = bc_code c1 @ new" and "code_at ch (length (bc_code c1)) new"
    and "good c" and "below ch N c'" and "ext i c c1" and "ext j c1 c2" and "ext k c2 c'"
    and "length (bc_code c) + i \<le> length (bc_code c1)" and "j \<le> length new"
    and "length (bc_code c2) + k \<le> length (bc_code c')"
  shows "coded f ch N c1 c2"
proof -
  have "sgro (j + k) c1 c'" using ext_trans [OF assms(7,8) order_refl] by (rule ext_sgro)
  from good_below(1) [OF assms(4) ext_sgro [OF assms(6)] this assms(5,9)] assms(2,10,11) have "good c1" by simp
  moreover have "sgro (i + j) c c2" using ext_trans [OF assms(6,7) order_refl] by (rule ext_sgro)
  from good_below(2) [OF assms(4) this ext_sgro [OF assms(8)] assms(5) _ assms(11)] assms(2,9,10)
  have "below ch N c2" by simp
  ultimately show ?thesis using assms(1-3) by (auto simp: coded_def)
qed

lemma coded_first:
  assumes "f c = Inr c2" and "bc_code c2 = bc_code c @ new" and "code_at ch (length (bc_code c)) new"
    and "good c" and "below ch N c'" and "ext j c c2" and "ext k c2 c'" and "j \<le> length new"
    and "length (bc_code c2) + k \<le> length (bc_code c')"
  shows "coded f ch N c c2"
  using coded_part [where f = f and ?c1.0 = c and c = c and i = 0, OF assms(1-5) ext_refl(1) assms(6,7)] assms(8,9)
  by simp

lemma codedD:
  assumes "coded f ch N c c'"
  shows "f c = Inr c'" and "good c" and "below ch N c'"
    and "bc_code c' = bc_code c @ new \<Longrightarrow> code_at ch (length (bc_code c)) new"
  using assms by (auto simp: coded_def)

lemma below_near: "below ch N c' \<Longrightarrow> t \<le> length (bc_code c') \<Longrightarrow> b \<le> length (bc_code c') \<Longrightarrow> near t b"
  by (simp add: below_def near_def)

section \<open>Conditions\<close>

lemma sim_else:
  assumes "\<And>x. e = Some x \<Longrightarrow> sim h ch N (ce x) (g x)"
  shows "sim h ch N (else_of ce e) (\<lambda>s. case e of Some x \<Rightarrow> g x s | None \<Rightarrow> enormal MNull s)"
proof (cases e)
  case (Some x)
  with assms [OF this] show ?thesis by (simp add: else_of_def [abs_def])
next
  case None
  show ?thesis
  proof (rule simI)
    fix s c c' env a L ops x
    assume c: "coded (else_of ce e) ch N c c'" and L: "length (L :: MacroValue list) = N"
      and env: "env_rel (scopes_of c) env L"
      and x: "(case e of Some x \<Rightarrow> g x (env, a) | None \<Rightarrow> enormal MNull (env, a)) = Some x"
    from c None have "code_at ch (length (bc_code c)) [op_byte BcPushNull]" "c' = c\<lparr>bc_code := bc_code c @ [op_byte BcPushNull]\<rparr>"
      by (auto simp: coded_def else_of_def emits_simps)
    with steps_push [OF this(1), of MNull h s "L @ ops" a] L env x None
    show "outcome h s ch N c env (vst s ch (length (bc_code c)) (L @ ops) a) (length (bc_code c')) ops x"
      by (cases x) auto
  qed
qed

lemma sim_if:
  assumes gb: "growing (ce b)" and gt: "growing (ce t)" and ge: "growing (else_of ce e)"
    and sb: "sim h ch N (ce b) fb" and st: "sim h ch N (ce t) ft" and se: "sim h ch N (else_of ce e) fe"
  shows "sim h ch N (compile_if ce b t e) (\<lambda>s. ebind (fb s) (\<lambda>v s1. if is_truthy v then ft s1 else fe s1))"
proof (rule simI)
  fix s c c' env a L ops x
  assume co: "coded (compile_if ce b t e) ch N c c'" and L: "length (L :: MacroValue list) = N"
    and env: "env_rel (scopes_of c) env L"
    and x: "ebind (fb (env, a)) (\<lambda>v s1. if is_truthy v then ft s1 else fe s1) = Some x"
  note good = codedD(2) [OF co] and below = codedD(3) [OF co]
  from compile_if_Inr [OF codedD(1) [OF co] gb gt ge] obtain c1 c3 c5 c6 nb nt ne l1 l2 where
    b: "ce b c = Inr c1" "bc_code c1 = bc_code c @ nb" "ext (length nb) c c1" and
    t: "ce t (c1\<lparr>bc_code := bc_code c1 @ ins BcJumpIfFalse 0\<rparr>) = Inr c3"
      "bc_code c3 = bc_code c1 @ ins BcJumpIfFalse 0 @ nt" "ext (length nt) c1 c3" and
    c5: "c5 = c3\<lparr>bc_code := bc_code c1 @ jump_to BcJumpIfFalse l1 (bc_code c1) @ nt @ ins BcJump 0\<rparr>" and
    e: "else_of ce e c5 = Inr c6" "bc_code c6 = bc_code c5 @ ne" "ext (length ne) c3 c6" and
    l: "l1 = length (bc_code c3) + 3" "l2 = length (bc_code c6)" and
    c': "c' = c6\<lparr>bc_code := bc_code c1 @ jump_to BcJumpIfFalse l1 (bc_code c1) @ nt @
            jump_to BcJump l2 (bc_code c3) @ ne\<rparr>" .
  have "code_at ch (length (bc_code c)) (nb @ jump_to BcJumpIfFalse l1 (bc_code c1) @ nt @
      jump_to BcJump l2 (bc_code c3) @ ne)"
    by (rule codedD(4) [OF co]) (simp add: c' b(2))
  then have at: "code_at ch (length (bc_code c)) nb"
    "code_at ch (length (bc_code c1)) (jump_to BcJumpIfFalse l1 (bc_code c1))"
    "code_at ch (length (bc_code c1) + 3) nt" "code_at ch (length (bc_code c3)) (jump_to BcJump l2 (bc_code c3))"
    "code_at ch (length (bc_code c5)) ne"
    by (simp_all add: b(2) t(2) c5 add.assoc)
  have len: "length (bc_code c1) = length (bc_code c) + length nb" "length (bc_code c3) = length (bc_code c1) + 3 + length nt"
    "length (bc_code c5) = l1" "l2 = l1 + length ne" "length (bc_code c') = l2"
    by (simp_all add: b(2) t(2) c5 l c' e(2))
  have ext13: "ext (length nb + length nt) c c3" using b(3) t(3) by (rule ext_trans) simp
  have ext36: "ext (length nt + length ne) c1 c6" using t(3) e(3) by (rule ext_trans) simp
  have cb: "coded (ce b) ch N c c1"
    by (rule coded_first [where f = "ce b" and k = "length nt + length ne", OF b(1,2) at(1) good below b(3)]) (use ext36 len in \<open>auto simp: c'\<close>)
  have ct: "coded (ce t) ch N (c1\<lparr>bc_code := bc_code c1 @ ins BcJumpIfFalse 0\<rparr>) c3"
    by (rule coded_part [where f = "ce t", OF t(1) _ _ good below, where new = nt and i = "length nb" and j = "length nt" and k = "length ne"])
       (use b(3) t(2,3) e(3) at(3) len in \<open>simp_all add: c'\<close>)
  have ce: "coded (else_of ce e) ch N c5 c6"
    by (rule coded_part [where f = "else_of ce e", OF e(1,2) at(5) good below, where i = "length nb + length nt" and j = "length ne" and k = 0])
       (use ext13 e(2,3) len in \<open>simp_all add: c' c5\<close>)
  show "outcome h s ch N c env (vst s ch (length (bc_code c)) (L @ ops) a) (length (bc_code c')) ops x"
  proof (rule outcome_bind [OF x, where ?j1.0 = "length (bc_code c1)" and ?ops1.0 = ops])
    fix z assume "fb (env, a) = Some z"
    with simD [OF sb cb L env] show "outcome h s ch N c env (vst s ch (length (bc_code c)) (L @ ops) a)
      (length (bc_code c1)) ops z" by blast
  next
    fix v env1 a1 L1
    assume x: "(if is_truthy v then ft (env1, a1) else fe (env1, a1)) = Some x" and L1: "length L1 = N"
      and env1: "env_rel (scopes_of c) env1 L1" "doms env1 = doms env"
    let ?st = "vst s ch (length (bc_code c1)) (L1 @ ops @ [v]) a1"
    have scope1: "scope_ext c (c1\<lparr>bc_code := y\<rparr>)" and scope3: "scope_ext c c5" for y
      using b(3) ext13 by (simp_all add: ext_def scope_ext_def c5 cong: list.case_cong)
    have jump: "steps h ?st (vst s ch (if is_truthy v then length (bc_code c1) + 3 else l1) (L1 @ ops) a1)"
      using steps_jump_if [OF at(2) below_near [OF below], of h s "L1 @ ops" v a1] len l(1) by (cases "is_truthy v") simp_all
    have jump2: "steps h (vst s ch (length (bc_code c3)) st a) (vst s ch (length (bc_code c')) st a)" for st a
      using steps_jump [OF at(4) below_near [OF below], of h s st a] len l(1) by simp
    show "outcome h s ch N c env ?st (length (bc_code c')) ops x"
    proof (cases "is_truthy v")
      case True
      with x have "ft (env1, a1) = Some x" by simp
      from sim_part [OF st ct _ env L1 env1 this, of s ops] scope1
      have "outcome h s ch N c env (vst s ch (length (bc_code c1) + 3) (L1 @ ops) a1) (length (bc_code c3)) ops x"
        by simp
      then have "outcome h s ch N c env (vst s ch (length (bc_code c1) + 3) (L1 @ ops) a1) (length (bc_code c')) ops x"
        by (rule outcome_after) (rule jump2)
      with jump True show ?thesis by (auto intro: outcome_steps)
    next
      case False
      with x have "fe (env1, a1) = Some x" by simp
      from sim_part [OF se ce _ env L1 env1 this, of s ops] scope3
      have "outcome h s ch N c env (vst s ch l1 (L1 @ ops) a1) (length (bc_code c')) ops x"
        using len by (simp add: e(2))
      with jump False show ?thesis by (auto intro: outcome_steps)
    qed
  qed
qed

text \<open>The operators that do not evaluate their second operand.\<close>

lemma sim_short:
  assumes gl: "growing (ce l)" and gr: "growing (ce r)" and sl: "sim h ch N (ce l) fl" and sr: "sim h ch N (ce r) fr"
    and op: "op = HAnd \<or> op = HOr"
  shows "sim h ch N (compile_binary ce l op r sp)
    (\<lambda>s. ebind (fl s) (\<lambda>v s1. if is_truthy v = (op = HAnd) then fr s1 else enormal v s1))"
proof (rule simI)
  fix s c c' env a L ops x
  assume co: "coded (compile_binary ce l op r sp) ch N c c'" and L: "length (L :: MacroValue list) = N"
    and env: "env_rel (scopes_of c) env L"
    and x: "ebind (fl (env, a)) (\<lambda>v s1. if is_truthy v = (op = HAnd) then fr s1 else enormal v s1) = Some x"
  note good = codedD(2) [OF co] and below = codedD(3) [OF co]
  let ?J = "keep_jump op"
  from compile_short_Inr [OF codedD(1) [OF co] op gl gr] obtain c1 c2 nl nr where
    l: "ce l c = Inr c1" "bc_code c1 = bc_code c @ nl" "ext (length nl) c c1" and
    r: "ce r (c1\<lparr>bc_code := bc_code c1 @ ins ?J 0 @ [op_byte BcPop]\<rparr>) = Inr c2"
      "bc_code c2 = bc_code c1 @ ins ?J 0 @ [op_byte BcPop] @ nr" "ext (length nr) c1 c2" and
    c': "c' = c2\<lparr>bc_code := bc_code c1 @ jump_to ?J (length (bc_code c2)) (bc_code c1) @ [op_byte BcPop] @ nr\<rparr>" .
  have "code_at ch (length (bc_code c)) (nl @ jump_to ?J (length (bc_code c2)) (bc_code c1) @ [op_byte BcPop] @ nr)"
    by (rule codedD(4) [OF co]) (simp add: c' l(2))
  then have at: "code_at ch (length (bc_code c)) nl"
    "code_at ch (length (bc_code c1)) (jump_to ?J (length (bc_code c2)) (bc_code c1))"
    "code_at ch (length (bc_code c1) + 3) [op_byte BcPop]" "code_at ch (length (bc_code c1) + 4) nr"
    unfolding code_at_append by (simp_all add: l(2) add.assoc add.commute [of "4::nat"])
  have len: "length (bc_code c1) = length (bc_code c) + length nl"
    "length (bc_code c2) = length (bc_code c1) + 4 + length nr" "length (bc_code c') = length (bc_code c2)"
    by (simp_all add: l(2) r(2) c')
  have cl: "coded (ce l) ch N c c1"
    by (rule coded_first [where f = "ce l" and k = "length nr", OF l(1,2) at(1) good below l(3)])
       (use r(3) len in \<open>auto simp: c'\<close>)
  have cr: "coded (ce r) ch N (c1\<lparr>bc_code := bc_code c1 @ ins ?J 0 @ [op_byte BcPop]\<rparr>) c2"
    by (rule coded_part [where f = "ce r", OF r(1) _ _ good below, where new = nr and i = "length nl" and j = "length nr" and k = 0])
       (use l(3) r(2,3) at(4) len in \<open>simp_all add: c'\<close>)
  show "outcome h s ch N c env (vst s ch (length (bc_code c)) (L @ ops) a) (length (bc_code c')) ops x"
  proof (rule outcome_bind [OF x, where ?j1.0 = "length (bc_code c1)" and ?ops1.0 = ops])
    fix z assume "fl (env, a) = Some z"
    with simD [OF sl cl L env] show "outcome h s ch N c env (vst s ch (length (bc_code c)) (L @ ops) a)
      (length (bc_code c1)) ops z" by blast
  next
    fix v env1 a1 L1
    assume x: "(if is_truthy v = (op = HAnd) then fr (env1, a1) else enormal v (env1, a1)) = Some x" and L1: "length L1 = N"
      and env1: "env_rel (scopes_of c) env1 L1" "doms env1 = doms env"
    let ?st = "vst s ch (length (bc_code c1)) (L1 @ ops @ [v]) a1"
    have scope1: "scope_ext c (c1\<lparr>bc_code := y\<rparr>)" for y
      using l(3) by (simp add: ext_def scope_ext_def cong: list.case_cong)
    have jump: "steps h ?st (vst s ch (if is_truthy v = (op = HAnd) then length (bc_code c1) + 3 else length (bc_code c'))
        (L1 @ ops @ [v]) a1)"
      using steps_jump_keep [OF at(2) below_near [OF below], of h s "L1 @ ops" v a1] len op
      by (cases "is_truthy v") (auto split: if_splits)
    show "outcome h s ch N c env ?st (length (bc_code c')) ops x"
    proof (cases "is_truthy v = (op = HAnd)")
      case True
      with x have r: "fr (env1, a1) = Some x" by simp
      from steps_pop [OF at(3), of h s "L1 @ ops" v a1] jump True
      have st: "steps h ?st (vst s ch (length (bc_code c1) + 4) (L1 @ ops) a1)"
        by (auto intro: steps_trans simp: add.assoc add.commute [of "4::nat"])
      from sim_part [OF sr cr _ env L1 env1 r, of s ops] scope1 len
      have "outcome h s ch N c env (vst s ch (length (bc_code c1) + 4) (L1 @ ops) a1) (length (bc_code c')) ops x"
        by simp
      with st show ?thesis by (rule outcome_steps)
    next
      case False
      with x jump env1 L1 show ?thesis by (cases x) auto
    qed
  qed
qed

section \<open>Loops\<close>

lemma enter_loop_simps [simp]:
  "bc_code (enter_loop c) = bc_code c" "bc_locals (enter_loop c) = bc_locals c" "good (enter_loop c) = good c"
  by (simp_all add: enter_loop_def good_def locals_ok_def)

lemma scope_ext_loops [simp]:
  "scope_ext c (c1\<lparr>bc_code := y\<rparr>) = scope_ext c c1" "scope_ext (enter_loop c) c1 = scope_ext c c1"
  "scope_ext c (enter_loop c1) = scope_ext c c1"
  by (simp_all add: scope_ext_def cong: list.case_cong)

lemma ext_scope: "ext n c c1 \<Longrightarrow> scope_ext c c1"
  by (simp add: ext_def)

lemma env_rel_enter: "env_rel (scopes_of c) env L \<Longrightarrow> env_rel (scopes_of (enter_loop c)) env L"
  by simp

lemma sim_while:
  assumes gb: "growing (ce b)" and gt: "growing (ce t)" and sb: "sim h ch N (ce b) fb" and st: "sim h ch N (ce t) ft"
    and sw: "sim h ch N (compile_while ce b t) fw"
  shows "sim h ch N (compile_while ce b t)
    (\<lambda>s. ebind (fb s) (\<lambda>v s1. if is_truthy v then ebind (ft s1) (\<lambda>_. fw) else enormal MNull s1))"
proof (rule simI)
  fix s c c' env a L ops x
  assume co: "coded (compile_while ce b t) ch N c c'" and L: "length (L :: MacroValue list) = N"
    and env: "env_rel (scopes_of c) env L"
    and x: "ebind (fb (env, a)) (\<lambda>v s1. if is_truthy v then ebind (ft s1) (\<lambda>_. fw) else enormal MNull s1) = Some x"
  from compile_while_Inr [OF codedD(1) [OF co] gb gt] obtain c1 c3 nb nt where
    b: "ce b (enter_loop c) = Inr c1" "bc_code c1 = bc_code c @ nb" "ext (length nb) (enter_loop c) c1" and
    t: "ce t (c1\<lparr>bc_code := bc_code c1 @ ins BcJumpIfFalse 0\<rparr>) = Inr c3"
      "bc_code c3 = bc_code c1 @ ins BcJumpIfFalse 0 @ nt" "ext (length nt) c1 c3" and
    c': "c' = c3\<lparr>bc_loops := bc_loops c, bc_code := bc_code c1 @
      jump_to BcJumpIfFalse (length (bc_code c3) + 4) (bc_code c1) @ nt @ [op_byte BcPop] @
      ins BcJump (jump_offset (length (bc_code c)) (length (bc_code c3) + 4)) @ [op_byte BcPushNull]\<rparr>" .
  have "code_at ch (length (bc_code c)) (nb @ jump_to BcJumpIfFalse (length (bc_code c3) + 4) (bc_code c1) @ nt @
      [op_byte BcPop] @ ins BcJump (jump_offset (length (bc_code c)) (length (bc_code c3) + 4)) @ [op_byte BcPushNull])"
    by (rule codedD(4) [OF co]) (simp add: c' b(2))
  then have at: "code_at ch (length (bc_code c)) nb"
    "code_at ch (length (bc_code c1)) (jump_to BcJumpIfFalse (length (bc_code c3) + 4) (bc_code c1))"
    "code_at ch (length (bc_code c1) + 3) nt" "code_at ch (length (bc_code c3)) [op_byte BcPop]"
    "code_at ch (length (bc_code c3) + 1) (ins BcJump (jump_offset (length (bc_code c)) (length (bc_code c3) + 1 + 3)))"
    "code_at ch (length (bc_code c3) + 4) [op_byte BcPushNull]"
    unfolding code_at_append
    by (simp_all add: b(2) t(2) add.assoc add.commute [of "4::nat"] add.commute [of "6::nat"] add.commute [of "7::nat"])
  have len: "length (bc_code c1) = length (bc_code c) + length nb"
    "length (bc_code c3) = length (bc_code c1) + 3 + length nt" "length (bc_code c') = length (bc_code c3) + 5"
    by (simp_all add: b(2) t(2) c')
  note below = codedD(3) [OF co]
  have good: "good (enter_loop c)" using codedD(2) [OF co] by simp
  have below3: "below ch N (c3\<lparr>bc_code := bc_code c'\<rparr>)" using below by (simp add: below_def c')
  have cb: "coded (ce b) ch N (enter_loop c) c1"
    by (rule coded_first [where f = "ce b" and k = "length nt" and new = nb, OF b(1) _ _ good below3 b(3)])
       (use t(3) b(2) at(1) len in auto)
  have ct: "coded (ce t) ch N (c1\<lparr>bc_code := bc_code c1 @ ins BcJumpIfFalse 0\<rparr>) c3"
    by (rule coded_part [where f = "ce t", OF t(1) _ _ good below3, where new = nt and i = "length nb" and j = "length nt" and k = 0])
       (use b(3) t(2,3) at(3) len in simp_all)
  have scope1: "scope_ext c c1" using ext_scope [OF b(3)] by simp
  show "outcome h s ch N c env (vst s ch (length (bc_code c)) (L @ ops) a) (length (bc_code c')) ops x"
  proof (rule outcome_bind [OF x, where ?j1.0 = "length (bc_code c1)" and ?ops1.0 = ops])
    fix z assume "fb (env, a) = Some z"
    from sim_part [OF sb cb _ env L env refl this, of s ops]
    show "outcome h s ch N c env (vst s ch (length (bc_code c)) (L @ ops) a) (length (bc_code c1)) ops z"
      by (simp add: scope_ext_refl)
  next
    fix v env1 a1 L1
    assume x: "(if is_truthy v then ebind (ft (env1, a1)) (\<lambda>_. fw) else enormal MNull (env1, a1)) = Some x"
      and L1: "length L1 = N" and env1: "env_rel (scopes_of c) env1 L1" "doms env1 = doms env"
    let ?st = "vst s ch (length (bc_code c1)) (L1 @ ops @ [v]) a1"
    have jump: "steps h ?st (vst s ch (if is_truthy v then length (bc_code c1) + 3 else length (bc_code c3) + 4)
        (L1 @ ops) a1)"
      using steps_jump_if [OF at(2) below_near [OF below], of h s "L1 @ ops" v a1] len by (cases "is_truthy v") simp_all
    show "outcome h s ch N c env ?st (length (bc_code c')) ops x"
    proof (cases "is_truthy v")
      case True
      with x have "ebind (ft (env1, a1)) (\<lambda>_. fw) = Some x" by simp
      then have "outcome h s ch N c env (vst s ch (length (bc_code c1) + 3) (L1 @ ops) a1) (length (bc_code c')) ops x"
      proof (rule outcome_bind [where ?j1.0 = "length (bc_code c3)" and ?ops1.0 = ops])
        fix z assume "ft (env1, a1) = Some z"
        from sim_part [OF st ct _ env L1 env1 this, of s ops] scope1
        show "outcome h s ch N c env (vst s ch (length (bc_code c1) + 3) (L1 @ ops) a1) (length (bc_code c3)) ops z"
          by simp
      next
        fix w env2 a2 L2
        assume x: "fw (env2, a2) = Some x" and L2: "length L2 = N"
          and env2: "env_rel (scopes_of c) env2 L2" "doms env2 = doms env"
        have "steps h (vst s ch (length (bc_code c3)) (L2 @ ops @ [w]) a2) (vst s ch (length (bc_code c3) + 1) (L2 @ ops) a2)"
          using steps_pop [OF at(4), of h s "L2 @ ops" w a2] by simp
        also have "steps h (vst s ch (length (bc_code c3) + 1) (L2 @ ops) a2) (vst s ch (length (bc_code c)) (L2 @ ops) a2)"
          by (rule steps_jump [OF at(5) below_near [OF below]]) (simp_all add: len)
        finally show "outcome h s ch N c env (vst s ch (length (bc_code c3)) (L2 @ ops @ [w]) a2) (length (bc_code c')) ops x"
          by (rule outcome_steps) (rule sim_part [OF sw co scope_ext_refl [OF refl] env L2 env2 x])
      qed
      with jump True show ?thesis by (auto intro: outcome_steps)
    next
      case False
      from steps_push [OF at(6), of MNull h s "L1 @ ops" a1] jump False
      have "steps h ?st (vst s ch (length (bc_code c')) (L1 @ ops @ [MNull]) a1)"
        by (auto intro: steps_trans simp: len)
      with x env1 L1 False show ?thesis by (cases x) auto
    qed
  qed
qed

lemma sim_do_while:
  assumes gb: "growing (ce b)" and gt: "growing (ce t)" and sb: "sim h ch N (ce b) fb" and st: "sim h ch N (ce t) ft"
    and sw: "sim h ch N (compile_do_while ce t b) fw"
  shows "sim h ch N (compile_do_while ce t b)
    (\<lambda>s. ebind (ft s) (\<lambda>_ s1. ebind (fb s1) (\<lambda>v s2. if is_truthy v then fw s2 else enormal MNull s2)))"
proof (rule simI)
  fix s c c' env a L ops x
  assume co: "coded (compile_do_while ce t b) ch N c c'" and L: "length (L :: MacroValue list) = N"
    and env: "env_rel (scopes_of c) env L"
    and x: "ebind (ft (env, a)) (\<lambda>_ s1. ebind (fb s1) (\<lambda>v s2. if is_truthy v then fw s2 else enormal MNull s2)) = Some x"
  from compile_do_while_Inr [OF codedD(1) [OF co] gb gt] obtain c1 c3 nb nt where
    t: "ce t (enter_loop c) = Inr c1" "bc_code c1 = bc_code c @ nt" "ext (length nt) (enter_loop c) c1" and
    b: "ce b (c1\<lparr>bc_code := bc_code c1 @ [op_byte BcPop]\<rparr>) = Inr c3"
      "bc_code c3 = bc_code c1 @ [op_byte BcPop] @ nb" "ext (length nb) c1 c3" and
    c': "c' = c3\<lparr>bc_loops := bc_loops c, bc_code := bc_code c3 @
      jump_to BcJumpIfFalse (length (bc_code c3) + 6) (bc_code c3) @
      ins BcJump (jump_offset (length (bc_code c)) (length (bc_code c3) + 6)) @ [op_byte BcPushNull]\<rparr>" .
  have "code_at ch (length (bc_code c)) (nt @ [op_byte BcPop] @ nb @
      jump_to BcJumpIfFalse (length (bc_code c3) + 6) (bc_code c3) @
      ins BcJump (jump_offset (length (bc_code c)) (length (bc_code c3) + 6)) @ [op_byte BcPushNull])"
    by (rule codedD(4) [OF co]) (simp add: c' b(2) t(2))
  then have at: "code_at ch (length (bc_code c)) nt" "code_at ch (length (bc_code c1)) [op_byte BcPop]"
    "code_at ch (length (bc_code c1) + 1) nb"
    "code_at ch (length (bc_code c3)) (jump_to BcJumpIfFalse (length (bc_code c3) + 6) (bc_code c3))"
    "code_at ch (length (bc_code c3) + 3) (ins BcJump (jump_offset (length (bc_code c)) (length (bc_code c3) + 3 + 3)))"
    "code_at ch (length (bc_code c3) + 6) [op_byte BcPushNull]"
    unfolding code_at_append
    by (simp_all add: b(2) t(2) add.assoc add.commute [of "4::nat"] add.commute [of "6::nat"] add.commute [of "7::nat"])
  have len: "length (bc_code c1) = length (bc_code c) + length nt"
    "length (bc_code c3) = length (bc_code c1) + 1 + length nb" "length (bc_code c') = length (bc_code c3) + 7"
    by (simp_all add: b(2) t(2) c')
  note below = codedD(3) [OF co]
  have good: "good (enter_loop c)" using codedD(2) [OF co] by simp
  have below3: "below ch N (c3\<lparr>bc_code := bc_code c'\<rparr>)" using below by (simp add: below_def c')
  have ct: "coded (ce t) ch N (enter_loop c) c1"
    by (rule coded_first [where f = "ce t" and k = "length nb" and new = nt, OF t(1) _ _ good below3 t(3)])
       (use b(3) t(2) at(1) len in auto)
  have cb: "coded (ce b) ch N (c1\<lparr>bc_code := bc_code c1 @ [op_byte BcPop]\<rparr>) c3"
    by (rule coded_part [where f = "ce b", OF b(1) _ _ good below3, where new = nb and i = "length nt" and j = "length nb" and k = 0])
       (use t(3) b(2,3) at(3) len in simp_all)
  have scope1: "scope_ext c c1" using ext_scope [OF t(3)] by simp
  show "outcome h s ch N c env (vst s ch (length (bc_code c)) (L @ ops) a) (length (bc_code c')) ops x"
  proof (rule outcome_bind [OF x, where ?j1.0 = "length (bc_code c1)" and ?ops1.0 = ops])
    fix z assume "ft (env, a) = Some z"
    from sim_part [OF st ct _ env L env refl this, of s ops]
    show "outcome h s ch N c env (vst s ch (length (bc_code c)) (L @ ops) a) (length (bc_code c1)) ops z"
      by (simp add: scope_ext_refl)
  next
    fix w env1 a1 L1
    assume x: "ebind (fb (env1, a1)) (\<lambda>v s2. if is_truthy v then fw s2 else enormal MNull s2) = Some x"
      and L1: "length L1 = N" and env1: "env_rel (scopes_of c) env1 L1" "doms env1 = doms env"
    have pop: "steps h (vst s ch (length (bc_code c1)) (L1 @ ops @ [w]) a1) (vst s ch (length (bc_code c1) + 1) (L1 @ ops) a1)"
      using steps_pop [OF at(2), of h s "L1 @ ops" w a1] by simp
    from x have "outcome h s ch N c env (vst s ch (length (bc_code c1) + 1) (L1 @ ops) a1) (length (bc_code c')) ops x"
    proof (rule outcome_bind [where ?j1.0 = "length (bc_code c3)" and ?ops1.0 = ops])
      fix z assume "fb (env1, a1) = Some z"
      from sim_part [OF sb cb _ env L1 env1 this, of s ops] scope1
      show "outcome h s ch N c env (vst s ch (length (bc_code c1) + 1) (L1 @ ops) a1) (length (bc_code c3)) ops z"
        by simp
    next
      fix v env2 a2 L2
      assume x: "(if is_truthy v then fw (env2, a2) else enormal MNull (env2, a2)) = Some x" and L2: "length L2 = N"
        and env2: "env_rel (scopes_of c) env2 L2" "doms env2 = doms env"
      let ?st = "vst s ch (length (bc_code c3)) (L2 @ ops @ [v]) a2"
      have jump: "steps h ?st (vst s ch (length (bc_code c3) + (if is_truthy v then 3 else 6)) (L2 @ ops) a2)"
        using steps_jump_if [OF at(4) below_near [OF below], of h s "L2 @ ops" v a2] len by (cases "is_truthy v") simp_all
      show "outcome h s ch N c env ?st (length (bc_code c')) ops x"
      proof (cases "is_truthy v")
        case True
        with x have r: "fw (env2, a2) = Some x" by simp
        have "steps h (vst s ch (length (bc_code c3) + 3) (L2 @ ops) a2) (vst s ch (length (bc_code c)) (L2 @ ops) a2)"
          by (rule steps_jump [OF at(5) below_near [OF below]]) (simp_all add: len)
        with jump True have "steps h ?st (vst s ch (length (bc_code c)) (L2 @ ops) a2)" by (auto intro: steps_trans)
        then show ?thesis by (rule outcome_steps) (rule sim_part [OF sw co scope_ext_refl [OF refl] env L2 env2 r])
      next
        case False
        from steps_push [OF at(6), of MNull h s "L2 @ ops" a2] jump False
        have "steps h ?st (vst s ch (length (bc_code c')) (L2 @ ops @ [MNull]) a2)"
          by (auto intro: steps_trans simp: len)
        with x env2 L2 False show ?thesis by (cases x) auto
      qed
    qed
    with pop show "outcome h s ch N c env (vst s ch (length (bc_code c1)) (L1 @ ops @ [w]) a1) (length (bc_code c')) ops x"
      by (rule outcome_steps)
  qed
qed

end
