(* ===== verification/BcCorrect.thy ===== *)
theory BcCorrect
  imports BcSim
begin

text \<open>
  The compiler is correct on structured expressions: sequences and single instructions first, then
  statements and blocks, the induction over the fuel, and the theorem for a compiled function run by
  the virtual machine.
\<close>

section \<open>Sequences\<close>

text \<open>Code that takes the values \<open>vs\<close> from the top of the stack.\<close>

definition ksim :: "Host \<Rightarrow> Chunk \<Rightarrow> nat \<Rightarrow> compiling \<Rightarrow> MacroValue list \<Rightarrow> (Env \<times> nat \<Rightarrow> evaluation) \<Rightarrow> bool" where
  "ksim h ch N f vs g \<longleftrightarrow>
     (\<forall>s c c' env a L ops x. coded f ch N c c' \<longrightarrow> length L = N \<longrightarrow> env_rel (scopes_of c) env L \<longrightarrow>
        g (env, a) = Some x \<longrightarrow>
        outcome h s ch N c env (vst s ch (length (bc_code c)) (L @ ops @ vs) a) (length (bc_code c')) ops x)"

lemma ksimI:
  "(\<And>s c c' env a L ops x. coded f ch N c c' \<Longrightarrow> length L = N \<Longrightarrow> env_rel (scopes_of c) env L \<Longrightarrow>
      g (env, a) = Some x \<Longrightarrow>
      outcome h s ch N c env (vst s ch (length (bc_code c)) (L @ ops @ vs) a) (length (bc_code c')) ops x) \<Longrightarrow>
   ksim h ch N f vs g"
  unfolding ksim_def by blast

lemma ksimD:
  "ksim h ch N f vs g \<Longrightarrow> coded f ch N c c' \<Longrightarrow> length L = N \<Longrightarrow> env_rel (scopes_of c) env L \<Longrightarrow>
     g (env, a) = Some x \<Longrightarrow>
     outcome h s ch N c env (vst s ch (length (bc_code c)) (L @ ops @ vs) a) (length (bc_code c')) ops x"
  unfolding ksim_def by blast

lemma ksim_sim: "ksim h ch N f [] g \<longleftrightarrow> sim h ch N f g"
  by (simp add: ksim_def sim_def)

lemma ksim_fail: "ksim h ch N f vs (\<lambda>s. None)"
  by (simp add: ksim_def)

lemma scoded_bind:
  assumes "coded (\<lambda>c. rbind (f c) k) ch N c c'" and "sgrowing f" and "sgrowing k"
  obtains c1 where "coded f ch N c c1" and "coded k ch N c1 c'" and "scope_tl c c1"
proof -
  from codedD(1) [OF assms(1)] obtain c1 where f: "f c = Inr c1" and k: "k c1 = Inr c'" by (auto simp: rbind_Inr_iff)
  from sgrowingE [OF assms(2) f] obtain nf where nf: "bc_code c1 = bc_code c @ nf" "sgro (length nf) c c1" .
  from sgrowingE [OF assms(3) k] obtain nk where nk: "bc_code c' = bc_code c1 @ nk" "sgro (length nk) c1 c'" .
  have at: "code_at ch (length (bc_code c)) nf" "code_at ch (length (bc_code c1)) nk"
    using codedD(4) [OF assms(1), of "nf @ nk"] nf(1) nk(1) by simp_all
  from good_below [OF codedD(2) [OF assms(1)] nf(2) nk(2) codedD(3) [OF assms(1)]] nf(1) nk(1)
  have "good c1" "below ch N c1" by simp_all
  then have "coded f ch N c c1" and "coded k ch N c1 c'"
    using assms(1) f k nf(1) nk(1) at by (auto simp: coded_def)
  then show ?thesis by (rule that) (use nf(2) in \<open>simp add: sgro_def\<close>)
qed

lemma coded_bind:
  assumes "coded (\<lambda>c. rbind (f c) k) ch N c c'" and "growing f" and "sgrowing k"
  obtains c1 where "coded f ch N c c1" and "coded k ch N c1 c'" and "scope_ext c c1"
proof -
  from scoded_bind [OF assms(1) growing_sgrowing [OF assms(2)] assms(3)] obtain c1 where
    c1: "coded f ch N c c1" "coded k ch N c1 c'" .
  from growingE [OF assms(2) codedD(1) [OF c1(1)]] obtain new where "ext new c c1" by blast
  then show ?thesis using that [OF c1] by (simp add: ext_scope)
qed

lemma ksim_seq:
  assumes "ksim h ch N f ws g" and "growing f" and "growing k" and "\<And>v. ksim h ch N k (vs @ [v]) (gk v)"
  shows "ksim h ch N (\<lambda>c. rbind (f c) k) (vs @ ws) (\<lambda>s. ebind (g s) gk)"
proof (rule ksimI)
  fix s c c' env a L ops x
  assume co: "coded (\<lambda>c. rbind (f c) k) ch N c c'" and L: "length (L :: MacroValue list) = N"
    and env: "env_rel (scopes_of c) env L" and x: "ebind (g (env, a)) gk = Some x"
  from coded_bind [OF co assms(2) growing_sgrowing [OF assms(3)]] obtain c1 where
    f: "coded f ch N c c1" and k: "coded k ch N c1 c'" and sc: "scope_ext c c1" .
  show "outcome h s ch N c env (vst s ch (length (bc_code c)) (L @ ops @ vs @ ws) a) (length (bc_code c')) ops x"
  proof (rule outcome_bind [OF x, where ?j1.0 = "length (bc_code c1)" and ?ops1.0 = "ops @ vs"])
    fix z assume "g (env, a) = Some z"
    from ksimD [OF assms(1) f L env this, of s "ops @ vs"]
    show "outcome h s ch N c env (vst s ch (length (bc_code c)) (L @ ops @ vs @ ws) a) (length (bc_code c1)) (ops @ vs) z"
      by simp
  next
    fix v env1 a1 L1
    assume x: "gk v (env1, a1) = Some x" and L1: "length L1 = N" and env1: "env_rel (scopes_of c) env1 L1" "doms env1 = doms env"
    have "env_rel (scopes_of c1) env1 L1" using env_rel_sync [OF sc env env1(2)] env1(1) by simp
    from ksimD [OF assms(4) k L1 this x, of s ops]
    have "outcome h s ch N c1 env1 (vst s ch (length (bc_code c1)) (L1 @ (ops @ vs) @ [v]) a1) (length (bc_code c')) ops x"
      by simp
    with sc env env1(2) show "outcome h s ch N c env (vst s ch (length (bc_code c1)) (L1 @ (ops @ vs) @ [v]) a1)
        (length (bc_code c')) ops x"
      by (rule outcome_sync)
  qed
qed

lemma ksim_bind:
  "sim h ch N f g \<Longrightarrow> growing f \<Longrightarrow> growing k \<Longrightarrow> (\<And>v. ksim h ch N k (vs @ [v]) (gk v)) \<Longrightarrow>
     ksim h ch N (\<lambda>c. rbind (f c) k) vs (\<lambda>s. ebind (g s) gk)"
  using ksim_seq [where ws = "[]"] by (simp add: ksim_sim)

lemma sim_bind:
  "sim h ch N f g \<Longrightarrow> growing f \<Longrightarrow> growing k \<Longrightarrow> (\<And>v. ksim h ch N k [v] (gk v)) \<Longrightarrow>
     sim h ch N (\<lambda>c. rbind (f c) k) (\<lambda>s. ebind (g s) gk)"
  using ksim_bind [where vs = "[]"] by (simp add: ksim_sim)

section \<open>Instructions\<close>

lemma coded_op: "coded (\<lambda>c. Inr (emits (emit_op op) c)) ch N c c' \<Longrightarrow> code_at ch (length (bc_code c)) [op_byte op]"
  by (auto simp: coded_def emits_simps)

lemma coded_u16: "coded (\<lambda>c. Inr (emits (emit_u16 op v) c)) ch N c c' \<Longrightarrow> code_at ch (length (bc_code c)) (ins op v)"
  by (auto simp: coded_def emits_simps)

lemma coded_op_length: "coded (\<lambda>c. Inr (emits (emit_op op) c)) ch N c c' \<Longrightarrow> length (bc_code c') = length (bc_code c) + 1"
  by (auto simp: coded_def emits_simps)

lemma coded_u16_length:
  "coded (\<lambda>c. Inr (emits (emit_u16 op v) c)) ch N c c' \<Longrightarrow> length (bc_code c') = length (bc_code c) + 3"
  by (auto simp: coded_def emits_simps)

text \<open>One instruction that changes neither locals nor allocations.\<close>

lemma ksim_op:
  assumes "\<And>s ip st a. code_at ch ip [op_byte op] \<Longrightarrow> steps h (vst s ch ip (st @ vs) a) (vst s ch (ip + 1) (st @ [w]) a)"
  shows "ksim h ch N (\<lambda>c. Inr (emits (emit_op op) c)) vs (enormal w)"
proof (rule ksimI)
  fix s c c' env a L ops x
  assume co: "coded (\<lambda>c. Inr (emits (emit_op op) c)) ch N c c'" and L: "length (L :: MacroValue list) = N"
    and env: "env_rel (scopes_of c) env L" and x: "enormal w (env, a) = Some x"
  from assms [OF coded_op [OF co], of s "L @ ops" a] coded_op_length [OF co]
  have "steps h (vst s ch (length (bc_code c)) (L @ ops @ vs) a) (vst s ch (length (bc_code c')) (L @ ops @ [w]) a)" by simp
  with L env x show "outcome h s ch N c env (vst s ch (length (bc_code c)) (L @ ops @ vs) a) (length (bc_code c')) ops x"
    by (cases x) auto
qed

lemma sim_op:
  "(\<And>s ip st a. code_at ch ip [op_byte op] \<Longrightarrow> steps h (vst s ch ip st a) (vst s ch (ip + 1) (st @ [w]) a)) \<Longrightarrow>
     sim h ch N (\<lambda>c. Inr (emits (emit_op op) c)) (enormal w)"
  using ksim_op [of ch op h "[]" w] by (simp add: ksim_sim)

lemma ksim_result:
  assumes "\<And>w. r = Inr w \<Longrightarrow> ksim h ch N f vs (enormal w)"
  shows "ksim h ch N f vs (from_result r)"
proof (cases r)
  case (Inl e)
  then show ?thesis by (simp add: ksim_def from_result_def)
next
  case (Inr w)
  with assms show ?thesis by (simp add: from_result_def [abs_def])
qed

lemma ksim_unary:
  "op \<in> {BcNot, BcNeg, BcBitNot, BcIncr, BcDecr} \<Longrightarrow>
     ksim h ch N (\<lambda>c. Inr (emits (emit_op op) c)) [v] (from_result (unary_fn op v))"
  by (rule ksim_result, rule ksim_op) (rule steps_unary)

lemma ksim_binary:
  assumes "\<And>op. bc = Some op \<Longrightarrow> f = (\<lambda>c. Inr (emits (emit_op op) c))"
  shows "ksim h ch N f [v, w] (apply_binary h bc v w)"
proof (cases bc)
  case (Some op)
  show ?thesis
  proof (cases "binary_fn h op")
    case (Some fn)
    have "ksim h ch N (\<lambda>c. Inr (emits (emit_op op) c)) [v, w] (from_result (fn v w))"
      by (rule ksim_result, rule ksim_op) (rule steps_binary [OF _ Some])
    with Some \<open>bc = Some op\<close> assms [OF \<open>bc = Some op\<close>] show ?thesis by (simp add: apply_binary_def [abs_def])
  qed (simp add: ksim_def apply_binary_def \<open>bc = Some op\<close>)
qed (simp add: ksim_def apply_binary_def)

lemma sim_const: "sim h ch N (emit_const v) (enormal v)"
proof (rule simI)
  fix s c c' env a L ops x
  assume co: "coded (emit_const v) ch N c c'" and L: "length (L :: MacroValue list) = N"
    and env: "env_rel (scopes_of c) env L" and x: "enormal v (env, a) = Some x"
  from emit_const_Inr [OF codedD(1) [OF co]] obtain i where
    i: "bc_code c' = bc_code c @ ins BcConst i" "unat i < length (consts_of c')" "consts_of c' ! unat i = v" .
  have "unat i < length (ch_constants ch)" "ch_constants ch ! unat i = v"
    using codedD(3) [OF co] i(2,3) by (auto simp: below_def nth_append)
  with steps_const [OF codedD(4) [OF co i(1)], of h s "L @ ops" a] i(1)
  have "steps h (vst s ch (length (bc_code c)) (L @ ops) a) (vst s ch (length (bc_code c')) (L @ ops @ [v]) a)" by simp
  with L env x show "outcome h s ch N c env (vst s ch (length (bc_code c)) (L @ ops) a) (length (bc_code c')) ops x"
    by (cases x) auto
qed

text \<open>Fields: the name is in the pool.\<close>

lemma ksim_field:
  "ksim h ch N (emit_named (if opt then BcGetFieldOpt else BcGetField) f) [b]
     (from_result (if opt \<and> b = MNull then Inr MNull else get_field b f))"
proof (rule ksimI)
  fix s c c' env a L ops x
  assume co: "coded (emit_named (if opt then BcGetFieldOpt else BcGetField) f) ch N c c'"
    and L: "length (L :: MacroValue list) = N" and env: "env_rel (scopes_of c) env L"
    and x: "from_result (if opt \<and> b = MNull then Inr MNull else get_field b f) (env, a) = Some x"
  from x obtain w where w: "(if opt \<and> b = MNull then Inr MNull else get_field b f) = Inr w" "x = (Normal w, env, a)"
    by (cases x) (auto simp: from_result_Some)
  obtain i where i: "bc_code c' = bc_code c @ ins (if opt then BcGetFieldOpt else BcGetField) i"
    and i2: "length (consts_of c') \<le> 65536 \<longrightarrow> unat i < length (consts_of c') \<and> consts_of c' ! unat i = MString f"
    by (rule emit_named_Inr [OF codedD(1) [OF co]]) blast
  have k: "unat i < length (ch_constants ch)" "ch_constants ch ! unat i = MString f"
    using codedD(3) [OF co] i2 by (auto simp: below_def nth_append)
  have "steps h (vst s ch (length (bc_code c)) (L @ ops @ [b]) a) (vst s ch (length (bc_code c')) (L @ ops @ [w]) a)"
    using codedD(4) [OF co i] steps_get_field [OF _ k, of "length (bc_code c)" b w h s "L @ ops" a]
      steps_get_field_opt [OF _ k, of "length (bc_code c)" b w h s "L @ ops" a] w(1) i by (cases opt) auto
  with L env w(2) show "outcome h s ch N c env (vst s ch (length (bc_code c)) (L @ ops @ [b]) a) (length (bc_code c')) ops x"
    by auto
qed

section \<open>Variables\<close>

lemma resolve_ext: "scope_ext c c1 \<Longrightarrow> resolve x c = Some slot \<Longrightarrow> resolve x c1 = Some slot"
  by (cases "scopes_of c") (auto simp: scope_ext_def resolve_def split: option.splits)

lemma sim_load_var: "sim h ch N (load_var y sp) (read_var y)"
proof (rule simI)
  fix s c c' env a L ops x
  assume co: "coded (load_var y sp) ch N c c'" and L: "length (L :: MacroValue list) = N"
    and env: "env_rel (scopes_of c) env L" and x: "read_var y (env, a) = Some x"
  from x obtain v where v: "lookup_env y env = Some v" "x = (Normal v, env, a)" by (cases x) (auto simp: read_var_Some)
  from env_rel_lookup [OF env v(1)] obtain slot where
    slot: "resolve y c = Some slot" "unat slot < length L" "L ! unat slot = v" by (auto simp: resolve_def)
  with codedD(1) [OF co] have c': "bc_code c' = bc_code c @ ins BcLoadLocal slot"
    by (auto simp: load_var_def emits_simps)
  from steps_load [OF codedD(4) [OF co c'] slot(2), of h s ops a] slot(3) c'
  have "steps h (vst s ch (length (bc_code c)) (L @ ops) a) (vst s ch (length (bc_code c')) (L @ ops @ [v]) a)" by simp
  with L env v(2) show "outcome h s ch N c env (vst s ch (length (bc_code c)) (L @ ops) a) (length (bc_code c')) ops x"
    by auto
qed

text \<open>Storing in a variable that is bound.\<close>

definition store_code :: "string \<Rightarrow> compiling" where
  "store_code y c = (case resolve y c of Some slot \<Rightarrow> Inr (emits (emit_u16 BcStoreLocal slot) c)
     | None \<Rightarrow> Inr (define_var y c))"

lemma growing_store_code: "growing (store_code y)"
  using growing_store [of y] by (simp add: store_code_def [abs_def])

lemma ksim_store: "ksim h ch N (store_code y) [v] (write_var y v v)"
proof (rule ksimI)
  fix s c c' env a L ops x
  assume co: "coded (store_code y) ch N c c'" and L: "length (L :: MacroValue list) = N"
    and env: "env_rel (scopes_of c) env L" and x: "write_var y v v (env, a) = Some x"
  from x have bound: "lookup_env y env \<noteq> None" and x': "x = (Normal v, assign_env y v env, a)"
    by (cases x, auto simp: write_var_Some)+
  then obtain w where "lookup_env y env = Some w" by auto
  from env_rel_lookup [OF env this] obtain slot where
    slot: "resolve_in y (scopes_of c) = Some slot" "unat slot < length L" by blast
  with codedD(1) [OF co] have c': "bc_code c' = bc_code c @ ins BcStoreLocal slot"
    by (auto simp: store_code_def resolve_def emits_simps)
  have "distinct (slots (scopes_of c))" using codedD(2) [OF co] by (auto simp: good_def locals_ok_def)
  from env_rel_assign [OF env this slot(1) bound, of v]
  have "env_rel (scopes_of c) (assign_env y v env) (L[unat slot := v])" .
  moreover from steps_store [OF codedD(4) [OF co c'] slot(2), of h s ops v a] c'
  have "steps h (vst s ch (length (bc_code c)) (L @ ops @ [v]) a)
    (vst s ch (length (bc_code c')) (L[unat slot := v] @ ops @ [v]) a)" by simp
  ultimately show "outcome h s ch N c env (vst s ch (length (bc_code c)) (L @ ops @ [v]) a) (length (bc_code c')) ops x"
    unfolding x' using L by (intro outcome_normal [where L = "L[unat slot := v]"]) (simp_all add: doms_assign)
qed

lemma sim_assign:
  assumes "sim h ch N (ce r) g" and "growing (ce r)"
  shows "sim h ch N (assign_ident ce y HAssign r sp) (\<lambda>s. ebind (g s) (\<lambda>v. write_var y v v))"
proof -
  have "assign_ident ce y HAssign r sp = (\<lambda>c. rbind (ce r c) (store_code y))"
    by (simp add: assign_ident_def store_code_def [abs_def] fun_eq_iff)
  with sim_bind [OF assms growing_store_code ksim_store] show ?thesis by simp
qed

lemma coded_imp: "coded f ch N c c' \<Longrightarrow> (f c = Inr c' \<Longrightarrow> k c = Inr c') \<Longrightarrow> coded k ch N c c'"
  by (simp add: coded_def)

lemma sim_imp: "sim h ch N k g \<Longrightarrow> (\<And>c c'. f c = Inr c' \<Longrightarrow> k c = Inr c') \<Longrightarrow> sim h ch N f g"
  by (rule simI) (blast intro: simD coded_imp)

lemma ebind_assoc: "ebind (ebind r f) g = ebind r (\<lambda>v s. ebind (f v s) g)"
  by (auto simp: ebind_def split: option.splits Completion.splits)

lemma emit_compound_scopes: "emit_compound_op op sp c = Inr c1 \<Longrightarrow> scopes_of c1 = scopes_of c"
  by (auto simp: emit_compound_op_def emits_def split: option.splits)

lemma sim_assign_op:
  assumes "sim h ch N (ce r) g" and "growing (ce r)" and "op \<noteq> HAssign"
  shows "sim h ch N (assign_ident ce y op r sp)
    (\<lambda>s. ebind (read_var y s) (\<lambda>a s1. ebind (g s1) (\<lambda>b s2.
       ebind (apply_binary h (compound_opcode op) a b s2) (\<lambda>v. write_var y v v))))"
proof (rule sim_imp)
  let ?k = "\<lambda>c. rbind (emit_compound_op op sp c) (store_code y)"
  let ?r = "\<lambda>c. rbind (ce r c) ?k"
  show "(\<lambda>c. rbind (load_var y sp c) ?r) c = Inr c'" if as: "assign_ident ce y op r sp c = Inr c'" for c c'
  proof -
    from as assms(3) obtain slot c1 c2 where slot: "resolve y c = Some slot"
      and c1: "ce r (emits (emit_u16 BcLoadLocal slot) c) = Inr c1" and c2: "emit_compound_op op sp c1 = Inr c2"
      and c': "c' = emits (emit_u16 BcStoreLocal slot) c2"
      by (auto simp: assign_ident_def rbind_Inr_iff split: option.splits)
    from growingE [OF assms(2) c1] have "scope_ext c c1" by (auto simp: ext_def emits_simps scope_ext_def cong: list.case_cong)
    from resolve_ext [OF this slot] have "resolve y c2 = Some slot"
      using emit_compound_scopes [OF c2] by (simp add: resolve_def)
    with slot c1 c2 c' show ?thesis by (simp add: load_var_def store_code_def)
  qed
  have "ksim h ch N ?k [a, b] (\<lambda>s. ebind (apply_binary h (compound_opcode op) a b s) (\<lambda>v. write_var y v v))" for a b
    using ksim_seq [where vs = "[]" and ws = "[a, b]", OF ksim_binary growing_emit_binary(2) growing_store_code]
    by (simp add: emit_compound_op_def [abs_def] ksim_store)
  then have "ksim h ch N ?r [a] (\<lambda>s1. ebind (g s1) (\<lambda>b s2. ebind (apply_binary h (compound_opcode op) a b s2)
      (\<lambda>v. write_var y v v)))" for a
    by (intro ksim_bind [OF assms(1,2) growing_bind [OF growing_emit_binary(2) growing_store_code]]) simp
  then show "sim h ch N (\<lambda>c. rbind (load_var y sp c) ?r) (\<lambda>s. ebind (read_var y s) (\<lambda>a s1. ebind (g s1) (\<lambda>b s2.
       ebind (apply_binary h (compound_opcode op) a b s2) (\<lambda>v. write_var y v v))))"
    by (intro sim_bind [OF sim_load_var growing_load_var
        growing_bind [OF assms(2) growing_bind [OF growing_emit_binary(2) growing_store_code]]])
qed

text \<open>Increments.\<close>

lemma sim_pre:
  assumes "e_kind e = EIdent y"
  shows "sim h ch N (compile_pre_inc_dec op e sp)
    (\<lambda>s. ebind (read_var y s) (\<lambda>v s1. ebind (from_result (increment op v) s1) (\<lambda>w. write_var y w w)))"
proof (rule sim_imp)
  let ?i = "\<lambda>c. Inr (emits (emit_op (inc_dec_opcode op)) c) :: BytecodeCompiler compiled"
  let ?k = "\<lambda>c. rbind (?i c) (store_code y)"
  show "(\<lambda>c. rbind (load_var y sp c) ?k) c = Inr c'" if "compile_pre_inc_dec op e sp c = Inr c'" for c c'
    using that assms
    by (auto simp: compile_pre_inc_dec_def load_var_def store_code_def resolve_def emits_simps split: option.splits)
  have "ksim h ch N ?i [v] (from_result (increment op v))" for v
    unfolding increment_def inc_dec_opcode_def by (rule ksim_unary) simp
  from ksim_seq [where vs = "[]", OF this growing_emit(1) growing_store_code] ksim_store
  have "ksim h ch N ?k [v] (\<lambda>s1. ebind (from_result (increment op v) s1) (\<lambda>w. write_var y w w))" for v by simp
  then show "sim h ch N (\<lambda>c. rbind (load_var y sp c) ?k)
    (\<lambda>s. ebind (read_var y s) (\<lambda>v s1. ebind (from_result (increment op v) s1) (\<lambda>w. write_var y w w)))"
    by (intro sim_bind [OF sim_load_var growing_load_var growing_bind [OF growing_emit(1) growing_store_code]])
qed

lemma ksim_post:
  fixes y :: string and op :: HxUnaryOp
  defines "k \<equiv> \<lambda>c. case resolve y c of None \<Rightarrow> Inl CompilePanic
    | Some slot \<Rightarrow> Inr (c\<lparr>bc_code := bc_code c @ [op_byte BcDup] @ [op_byte (inc_dec_opcode op)] @
        ins BcStoreLocal slot @ [op_byte BcPop]\<rparr>)"
  shows "ksim h ch N k [v] (\<lambda>s1. ebind (from_result (increment op v) s1) (\<lambda>w. write_var y w v))"
proof (rule ksimI)
  fix s c c' env a L ops x
  assume co: "coded k ch N c c'" and L: "length (L :: MacroValue list) = N" and env: "env_rel (scopes_of c) env L"
    and x: "ebind (from_result (increment op v) (env, a)) (\<lambda>w. write_var y w v) = Some x"
  from x obtain w u where w: "increment op v = Inr w" and bound: "lookup_env y env = Some u"
    and x': "x = (Normal v, assign_env y w env, a)"
    by (cases x) (auto simp: eval_Some)
  from env_rel_lookup [OF env bound] obtain slot where
    slot: "resolve_in y (scopes_of c) = Some slot" "unat slot < length L" by blast
  let ?i = "length (bc_code c)"
  from codedD(1) [OF co] slot(1) have c': "bc_code c' = bc_code c @ [op_byte BcDup] @ [op_byte (inc_dec_opcode op)] @
      ins BcStoreLocal slot @ [op_byte BcPop]"
    by (auto simp: k_def resolve_def)
  from codedD(4) [OF co c'] have at: "code_at ch ?i [op_byte BcDup]" "code_at ch (?i + 1) [op_byte (inc_dec_opcode op)]"
    "code_at ch (?i + 2) (ins BcStoreLocal slot)" "code_at ch (?i + 5) [op_byte BcPop]"
    unfolding code_at_append by (simp_all add: add.commute)
  have "distinct (slots (scopes_of c))" using codedD(2) [OF co] by (auto simp: good_def locals_ok_def)
  from env_rel_assign [OF env this slot(1), of w] bound
  have rel: "env_rel (scopes_of c) (assign_env y w env) (L[unat slot := w])" by simp
  have "steps h (vst s ch ?i (L @ ops @ [v]) a) (vst s ch (?i + 1) (L @ ops @ [v, v]) a)"
    using steps_dup [OF at(1), of h s "L @ ops" v a] by simp
  also have "steps h (vst s ch (?i + 1) (L @ ops @ [v, v]) a) (vst s ch (?i + 2) (L @ ops @ [v, w]) a)"
    using steps_unary [OF at(2), of v w h s "L @ ops @ [v]" a] w
    by (simp add: inc_dec_opcode_def increment_def)
  also have "steps h (vst s ch (?i + 2) (L @ ops @ [v, w]) a) (vst s ch (?i + 5) (L[unat slot := w] @ ops @ [v, w]) a)"
    using steps_store [OF at(3) slot(2), of h s "ops @ [v]" w a] by (simp add: add.commute)
  also have "steps h (vst s ch (?i + 5) (L[unat slot := w] @ ops @ [v, w]) a)
      (vst s ch (?i + 6) (L[unat slot := w] @ ops @ [v]) a)"
    using steps_pop [OF at(4), of h s "L[unat slot := w] @ ops @ [v]" w a] by (simp add: add.commute)
  finally show "outcome h s ch N c env (vst s ch (length (bc_code c)) (L @ ops @ [v]) a) (length (bc_code c')) ops x"
    unfolding x' using L rel
    by (intro outcome_normal [where L = "L[unat slot := w]"]) (simp_all add: doms_assign c' add.commute)
qed

lemma sim_post:
  assumes "e_kind e = EIdent y"
  shows "sim h ch N (compile_post_inc_dec op e sp)
    (\<lambda>s. ebind (read_var y s) (\<lambda>v s1. ebind (from_result (increment op v) s1) (\<lambda>w. write_var y w v)))"
proof (rule sim_imp)
  let ?k = "\<lambda>c. case resolve y c of None \<Rightarrow> Inl CompilePanic
    | Some slot \<Rightarrow> Inr (c\<lparr>bc_code := bc_code c @ [op_byte BcDup] @ [op_byte (inc_dec_opcode op)] @
        ins BcStoreLocal slot @ [op_byte BcPop]\<rparr>)"
  have "growing ?k" by (auto simp: growing_def split: option.splits)
  then show "sim h ch N (\<lambda>c. rbind (load_var y sp c) ?k)
    (\<lambda>s. ebind (read_var y s) (\<lambda>v s1. ebind (from_result (increment op v) s1) (\<lambda>w. write_var y w v)))"
    by (intro sim_bind [OF sim_load_var growing_load_var] ksim_post)
  show "(\<lambda>c. rbind (load_var y sp c) ?k) c = Inr c'" if "compile_post_inc_dec op e sp c = Inr c'" for c c'
    using that assms
    by (auto simp: compile_post_inc_dec_def load_var_def resolve_def emits_simps split: option.splits)
qed

section \<open>Collections and returns\<close>

lemma rbind_assoc': "rbind (rbind r f) g = rbind r (\<lambda>x. rbind (f x) g)"
  by (cases r) simp_all

lemma ksim_all:
  assumes "\<And>e. e \<in> set es \<Longrightarrow> sim h ch N (ce e) (g e)" and "\<And>e. e \<in> set es \<Longrightarrow> growing (ce e)"
    and "growing K" and "\<And>ws. length ws = length vs + length es \<Longrightarrow> ksim h ch N K ws (k ws)"
  shows "ksim h ch N (\<lambda>c. rbind (cfold ce es c) K) vs (eval_all g es vs k)"
  using assms
proof (induction es arbitrary: vs)
  case Nil
  then show ?case by simp
next
  case (Cons e es)
  have "ksim h ch N (\<lambda>c. rbind (cfold ce es c) K) (vs @ [v]) (eval_all g es (vs @ [v]) k)" for v
    using Cons.prems by (intro Cons.IH) auto
  moreover have "growing (\<lambda>c. rbind (cfold ce es c) K)"
    using Cons.prems(2,3) by (intro growing_bind growing_cfold) auto
  ultimately have "ksim h ch N (\<lambda>c. rbind (ce e c) (\<lambda>c. rbind (cfold ce es c) K)) vs
      (\<lambda>s. ebind (g e s) (\<lambda>v. eval_all g es (vs @ [v]) k))"
    using Cons.prems(1,2) by (intro ksim_bind) auto
  then show ?case by (simp add: rbind_assoc' fun_eq_iff)
qed

lemma ksim_make_array:
  assumes "length vs \<le> 65535"
  shows "ksim h ch N (\<lambda>c. Inr (emits (emit_u16 BcMakeArray (word_of_nat (length vs))) c)) vs
    (\<lambda>(env, a). enormal (MArray a vs) (env, a + 1))"
proof (rule ksimI)
  fix s c c' env a L ops x
  assume co: "coded (\<lambda>c. Inr (emits (emit_u16 BcMakeArray (word_of_nat (length vs))) c)) ch N c c'"
    and L: "length (L :: MacroValue list) = N" and env: "env_rel (scopes_of c) env L"
    and x: "(case (env, a) of (env, a) \<Rightarrow> enormal (MArray a vs) (env, a + 1)) = Some x"
  have "length vs = unat (word_of_nat (length vs) :: u16)" using assms by (simp add: unat_of_nat)
  from steps_make_array [OF coded_u16 [OF co] this, of h s "L @ ops" a] coded_u16_length [OF co]
  have "steps h (vst s ch (length (bc_code c)) (L @ ops @ vs) a)
    (vst s ch (length (bc_code c')) (L @ ops @ [MArray a vs]) (a + 1))" by simp
  with L env x show "outcome h s ch N c env (vst s ch (length (bc_code c)) (L @ ops @ vs) a) (length (bc_code c')) ops x"
    by (cases x) auto
qed

lemma sim_array:
  assumes "\<And>e. e \<in> set es \<Longrightarrow> sim h ch N (ce e) (g e)" and "\<And>e. e \<in> set es \<Longrightarrow> growing (ce e)" and "length es \<le> 65535"
  shows "sim h ch N (\<lambda>c. rbind (cfold ce es c) (\<lambda>c1. Inr (emits (emit_u16 BcMakeArray (word_of_nat (length es))) c1)))
    (eval_all g es [] (\<lambda>vs (env, a). enormal (MArray a vs) (env, a + 1)))"
proof -
  have "ksim h ch N (\<lambda>c1. Inr (emits (emit_u16 BcMakeArray (word_of_nat (length es))) c1)) ws
      (\<lambda>(env, a). enormal (MArray a ws) (env, a + 1))" if "length ws = length es" for ws
    using ksim_make_array [of ws] assms(3) by (simp add: that)
  with ksim_all [of es h ch N ce g "\<lambda>c1. Inr (emits (emit_u16 BcMakeArray (word_of_nat (length es))) c1)" "[]"
      "\<lambda>vs (env, a). enormal (MArray a vs) (env, a + 1)"] assms(1,2) growing_emit(2)
  show ?thesis by (simp add: ksim_sim)
qed

lemma sim_return:
  assumes "\<And>x. e = Some x \<Longrightarrow> sim h ch N (compile_expr x) (g x)" and "\<And>x. e = Some x \<Longrightarrow> growing (compile_expr x)"
  shows "sim h ch N (return_code e)
    (\<lambda>s. ebind (case e of Some x \<Rightarrow> g x s | None \<Rightarrow> enormal MNull s) (\<lambda>w s1. Some (Returned w, s1)))"
proof (cases e)
  case None
  have "sim h ch N (\<lambda>c. Inr (emits (emit_op BcReturnNull) c)) (\<lambda>s. Some (Returned MNull, s))"
  proof (rule simI)
    fix s c c' and env :: Env and a :: nat and L ops x
    assume co: "coded (\<lambda>c. Inr (emits (emit_op BcReturnNull) c)) ch N c c'" and "Some (Returned MNull, env, a) = Some x"
    with ends_return_null [OF coded_op [OF co], of h s "L @ ops" a]
    show "outcome h s ch N c env (vst s ch (length (bc_code c)) (L @ ops) a) (length (bc_code c')) ops x" by auto
  qed
  with None show ?thesis by (simp add: return_code_def [abs_def] ebind_def enormal_def)
next
  case (Some x)
  have "ksim h ch N (\<lambda>c. Inr (emits (emit_op BcReturn) c)) [w] (\<lambda>s. Some (Returned w, s))" for w
  proof (rule ksimI)
    fix s c c' and env :: Env and a :: nat and L ops x
    assume co: "coded (\<lambda>c. Inr (emits (emit_op BcReturn) c)) ch N c c'" and "Some (Returned w, env, a) = Some x"
    with ends_return [OF coded_op [OF co], of h s "L @ ops" w a]
    show "outcome h s ch N c env (vst s ch (length (bc_code c)) (L @ ops @ [w]) a) (length (bc_code c')) ops x" by auto
  qed
  from sim_bind [OF assms(1) [OF Some] assms(2) [OF Some] growing_emit(1) this]
  show ?thesis by (simp add: Some return_code_def [abs_def])
qed

section \<open>Statements and blocks\<close>

text \<open>A statement may declare names in the innermost scope.\<close>

fun soutcome ::
  "Host \<Rightarrow> MacroVm \<Rightarrow> Chunk \<Rightarrow> nat \<Rightarrow> BytecodeCompiler \<Rightarrow> Env \<Rightarrow> MacroVm \<Rightarrow> nat \<Rightarrow> MacroValue list \<Rightarrow>
     Completion \<times> Env \<times> nat \<Rightarrow> bool" where
  "soutcome h s ch N c' env0 start j ops (Normal v, env, a) \<longleftrightarrow>
     doms (tl env) = doms (tl env0) \<and>
     (\<exists>L. length L = N \<and> env_rel (scopes_of c') env L \<and> steps h start (vst s ch j (L @ ops @ [v]) a))"
| "soutcome h s ch N c' env0 start j ops (Returned v, env, a) \<longleftrightarrow> ends h start v"

definition ssim :: "Host \<Rightarrow> Chunk \<Rightarrow> nat \<Rightarrow> compiling \<Rightarrow> (Env \<times> nat \<Rightarrow> evaluation) \<Rightarrow> bool" where
  "ssim h ch N f g \<longleftrightarrow>
     (\<forall>s c c' env a L ops x. coded f ch N c c' \<longrightarrow> length L = N \<longrightarrow> env_rel (scopes_of c) env L \<longrightarrow>
        g (env, a) = Some x \<longrightarrow>
        soutcome h s ch N c' env (vst s ch (length (bc_code c)) (L @ ops) a) (length (bc_code c')) ops x)"

lemma ssimI:
  "(\<And>s c c' env a L ops x. coded f ch N c c' \<Longrightarrow> length L = N \<Longrightarrow> env_rel (scopes_of c) env L \<Longrightarrow>
      g (env, a) = Some x \<Longrightarrow>
      soutcome h s ch N c' env (vst s ch (length (bc_code c)) (L @ ops) a) (length (bc_code c')) ops x) \<Longrightarrow>
   ssim h ch N f g"
  unfolding ssim_def by blast

lemma ssimD:
  "ssim h ch N f g \<Longrightarrow> coded f ch N c c' \<Longrightarrow> length L = N \<Longrightarrow> env_rel (scopes_of c) env L \<Longrightarrow>
     g (env, a) = Some x \<Longrightarrow>
     soutcome h s ch N c' env (vst s ch (length (bc_code c)) (L @ ops) a) (length (bc_code c')) ops x"
  unfolding ssim_def by blast

lemma soutcome_steps:
  "steps h st st1 \<Longrightarrow> soutcome h s ch N c' env0 st1 j ops x \<Longrightarrow> soutcome h s ch N c' env0 st j ops x"
  by (cases x rule: completion_cases) (auto intro: steps_trans steps_ends)

lemma soutcome_env0: "doms (tl env1) = doms (tl env0) \<Longrightarrow> soutcome h s ch N c' env1 st j ops x = soutcome h s ch N c' env0 st j ops x"
  by (cases x rule: completion_cases) auto

lemma outcome_soutcome:
  assumes "outcome h s ch N c env0 st j ops x" and "scope_ext c c'" and "env_rel (scopes_of c) env0 L0"
  shows "soutcome h s ch N c' env0 st j ops x"
proof (cases x rule: completion_cases)
  case (Normal v env a)
  with assms(1) obtain L where L: "length L = N" "env_rel (scopes_of c) env L" and d: "doms env = doms env0"
    and st: "steps h st (vst s ch j (L @ ops @ [v]) a)" by auto
  have "doms (tl env) = doms (tl env0)" using d by (simp add: doms_def map_tl)
  with L(1) st env_rel_sync [OF assms(2,3) d] L(2) show ?thesis by (auto simp: Normal)
next
  case (Returned v env a)
  with assms(1) show ?thesis by simp
qed

lemma sim_ssim:
  assumes "sim h ch N f g" and "growing f"
  shows "ssim h ch N f g"
proof (rule ssimI)
  fix s c c' env a L ops x
  assume co: "coded f ch N c c'" and L: "length (L :: MacroValue list) = N" and env: "env_rel (scopes_of c) env L"
    and x: "g (env, a) = Some x"
  from growingE [OF assms(2) codedD(1) [OF co]] obtain new where "ext new c c'" by blast
  from outcome_soutcome [OF simD [OF assms(1) co L env x] ext_scope [OF this] env]
  show "soutcome h s ch N c' env (vst s ch (length (bc_code c)) (L @ ops) a) (length (bc_code c')) ops x" .
qed

lemma ssim_span: "ssim h ch N f g \<Longrightarrow> ssim h ch N (spanned sp f) g"
proof (rule ssimI)
  fix s c c' env a L ops x
  assume "ssim h ch N f g" and "coded (spanned sp f) ch N c c'" and "length (L :: MacroValue list) = N"
    and "env_rel (scopes_of c) env L" and "g (env, a) = Some x"
  from ssimD [OF this(1) coded_span [OF this(2)] this(3) _ this(5), of s ops] this(4)
  show "soutcome h s ch N c' env (vst s ch (length (bc_code c)) (L @ ops) a) (length (bc_code c')) ops x" by simp
qed

lemma fresh_slot:
  assumes "locals_ok c K"
  shows "lr_next_slot (bc_locals c) \<notin> set (slots (scopes_of c))"
proof
  assume next_used: "lr_next_slot (bc_locals c) \<in> set (slots (scopes_of c))"
  from assms have "\<forall>x\<in>set (slots (scopes_of c)). unat x < K" and "unat (lr_next_slot (bc_locals c)) = K"
    by (simp_all add: locals_ok_def unat_of_nat)
  with next_used show False by blast
qed

text \<open>A declaration takes the value on the stack and leaves it there.\<close>

lemma define_step:
  assumes co: "coded (\<lambda>c. Inr (define_var y c)) ch N c c'" and L: "length (L :: MacroValue list) = N"
    and env: "env_rel (scopes_of c) env L"
  shows "soutcome h s ch N c' env (vst s ch (length (bc_code c)) (L @ ops @ [v]) a) (length (bc_code c')) ops
    (Normal v, declare_env y v env, a)"
proof -
  from codedD(1) [OF co] have c': "c' = define_var y c" by simp
  from codedD(2) [OF co] obtain K where K: "locals_ok c K" "K \<le> 32767 + length (bc_code c)" by (auto simp: good_def)
  then obtain m ms where m: "scopes_of c = m # ms" by (auto simp: locals_ok_def neq_Nil_conv)
  let ?s = "lr_next_slot (bc_locals c)"
  have s: "unat ?s = K" using K(1) by (simp add: locals_ok_def unat_of_nat)
  have "unat (?s + 1) \<le> N" and "length (bc_code c) < 32768"
    using codedD(3) [OF co] define_var_eq(1,3) [OF m, of y] by (auto simp: below_def c')
  moreover have "K < 65535" using K(2) calculation(2) by simp
  ultimately have lt: "unat ?s < length L" using s L by (simp add: unat_word_ariths(1))
  have fresh: "?s \<notin> set (slots (m # ms))" using fresh_slot [OF K(1)] by (simp add: m)
  from env m obtain e es where e: "env = e # es" by (cases env) auto
  from env_rel_declare [OF _ fresh lt, of e es y v] env m e define_var_eq(2) [OF m, of y]
  have "env_rel (scopes_of c') (declare_env y v env) (L[unat ?s := v])" by (simp add: c')
  moreover have "steps h (vst s ch (length (bc_code c)) (L @ ops @ [v]) a)
      (vst s ch (length (bc_code c')) (L[unat ?s := v] @ ops @ [v]) a)"
    using steps_define [OF codedD(4) [OF co] lt, of h s ops v a] define_var_eq(1) [OF m, of y] by (simp add: c')
  ultimately show ?thesis using L e by (auto intro!: exI [of _ "L[unat ?s := v]"])
qed

lemma ssim_var:
  assumes "\<And>x. e = Some x \<Longrightarrow> sim h ch N (compile_expr x) (g x)" and "\<And>x. e = Some x \<Longrightarrow> growing (compile_expr x)"
  shows "ssim h ch N (var_code y e)
    (\<lambda>s. ebind (case e of Some x \<Rightarrow> g x s | None \<Rightarrow> enormal MNull s) (\<lambda>v (env, a). enormal v (declare_env y v env, a)))"
proof (rule ssimI)
  fix s c c' env a L ops x
  let ?g = "\<lambda>s. case e of Some x \<Rightarrow> g x s | None \<Rightarrow> enormal MNull s"
  assume co: "coded (var_code y e) ch N c c'" and L: "length (L :: MacroValue list) = N"
    and env: "env_rel (scopes_of c) env L"
    and x: "ebind (?g (env, a)) (\<lambda>v (env, a). enormal v (declare_env y v env, a)) = Some x"
  from coded_bind [OF co [unfolded var_code_def] growing_else [OF assms(2)] sgrowing_define_var] obtain c1 where
    f: "coded (else_of compile_expr e) ch N c c1" and k: "coded (\<lambda>c. Inr (define_var y c)) ch N c1 c'"
    and sc: "scope_ext c c1" .
  have "sim h ch N (else_of compile_expr e) ?g" using assms(1) by (rule sim_else)
  note out = simD [OF this f L env]
  obtain r env' a' where x': "x = (r, env', a')" by (cases x)
  from x consider v env1 a1 where "?g (env, a) = Some (Normal v, env1, a1)" "x = (Normal v, declare_env y v env1, a1)"
    | v where "?g (env, a) = Some (Returned v, env', a')" "r = Returned v"
    by (auto simp: x' ebind_Some)
  then show "soutcome h s ch N c' env (vst s ch (length (bc_code c)) (L @ ops) a) (length (bc_code c')) ops x"
  proof cases
    case 1
    from out [OF 1(1), of s ops] obtain L1 where L1: "length L1 = N" "env_rel (scopes_of c) env1 L1"
      "doms env1 = doms env" and st: "steps h (vst s ch (length (bc_code c)) (L @ ops) a)
        (vst s ch (length (bc_code c1)) (L1 @ ops @ [v]) a1)" by auto
    have "env_rel (scopes_of c1) env1 L1" using env_rel_sync [OF sc env L1(3)] L1(2) by simp
    from define_step [OF k L1(1) this, of h s ops v a1] 1(2)
    have "soutcome h s ch N c' env1 (vst s ch (length (bc_code c1)) (L1 @ ops @ [v]) a1) (length (bc_code c')) ops x" by simp
    moreover have "doms (tl env1) = doms (tl env)" using L1(3) by (simp add: doms_def map_tl)
    ultimately show ?thesis using st by (simp add: soutcome_env0 [of env1 env] soutcome_steps)
  next
    case 2
    from out [OF 2(1), of s ops] show ?thesis by (simp add: x' 2(2))
  qed
qed

text \<open>The elements of a block.\<close>

lemma ssim_bind_elements:
  assumes "ssim h ch N f g" and "sgrowing f" and "ssim h ch N k gk" and "sgrowing k"
  shows "ssim h ch N (\<lambda>c. rbind (f c) (\<lambda>c1. k (emits (emit_op BcPop) c1))) (\<lambda>s. ebind (g s) (\<lambda>_. gk))"
proof (rule ssimI)
  fix s c c' env a L ops x
  let ?k = "\<lambda>c1. k (emits (emit_op BcPop) c1)" and ?p = "\<lambda>c. Inr (emits (emit_op BcPop) c) :: BytecodeCompiler compiled"
  assume co: "coded (\<lambda>c. rbind (f c) ?k) ch N c c'" and L: "length (L :: MacroValue list) = N"
    and env: "env_rel (scopes_of c) env L" and x: "ebind (g (env, a)) (\<lambda>_. gk) = Some x"
  have p: "sgrowing ?p" by (rule growing_sgrowing) (rule growing_emit)
  have k: "?k = (\<lambda>c. rbind (?p c) k)" by simp
  have "sgrowing ?k" unfolding k by (rule sgrowing_bind [OF p assms(4)])
  from scoded_bind [OF co assms(2) this] obtain c1 where f: "coded f ch N c c1" and k1: "coded ?k ch N c1 c'" .
  from scoded_bind [OF k1 [unfolded k] p assms(4)] obtain c2 where c2: "coded ?p ch N c1 c2" "coded k ch N c2 c'" .
  obtain r env' a' where x': "x = (r, env', a')" by (cases x)
  from x consider v env1 a1 where "g (env, a) = Some (Normal v, env1, a1)" "gk (env1, a1) = Some x"
    | v where "g (env, a) = Some (Returned v, env', a')" "r = Returned v"
    by (auto simp: x' ebind_Some)
  then show "soutcome h s ch N c' env (vst s ch (length (bc_code c)) (L @ ops) a) (length (bc_code c')) ops x"
  proof cases
    case 1
    from ssimD [OF assms(1) f L env 1(1), of s ops] obtain L1 where L1: "length L1 = N" "env_rel (scopes_of c1) env1 L1"
      "doms (tl env1) = doms (tl env)" and st: "steps h (vst s ch (length (bc_code c)) (L @ ops) a)
        (vst s ch (length (bc_code c1)) (L1 @ ops @ [v]) a1)" by auto
    have "env_rel (scopes_of c2) env1 L1" using L1(2) codedD(1) [OF c2(1)] by (auto simp: emits_simps)
    from ssimD [OF assms(3) c2(2) L1(1) this 1(2), of s ops]
    have out: "soutcome h s ch N c' env (vst s ch (length (bc_code c2)) (L1 @ ops) a1) (length (bc_code c')) ops x"
      by (simp add: soutcome_env0 [OF L1(3)])
    have "steps h (vst s ch (length (bc_code c1)) (L1 @ ops @ [v]) a1) (vst s ch (length (bc_code c2)) (L1 @ ops) a1)"
      using steps_pop [OF coded_op [OF c2(1)], of h s "L1 @ ops" v a1] coded_op_length [OF c2(1)] by simp
    with st have "steps h (vst s ch (length (bc_code c)) (L @ ops) a) (vst s ch (length (bc_code c2)) (L1 @ ops) a1)"
      by (rule steps_trans)
    from this out show ?thesis by (rule soutcome_steps)
  next
    case 2
    from ssimD [OF assms(1) f L env 2(1), of s ops] show ?thesis by (simp add: x' 2(2))
  qed
qed

lemma sim_null: "sim h ch N (\<lambda>c. Inr (emits (emit_op BcPushNull) c)) (enormal MNull)"
  by (rule sim_op) (rule steps_push, simp_all)

lemma ssim_elements:
  assumes "\<And>e. BlExpr e \<in> set bs \<Longrightarrow> ssim h ch N (ce e) (g e)" and "\<And>e. BlExpr e \<in> set bs \<Longrightarrow> sgrowing (ce e)"
    and "bs \<noteq> []"
  shows "ssim h ch N (compile_elements ce bs) (eval_elements g bs)"
  using assms
proof (induction bs rule: induct_list012)
  case (2 b)
  have "ssim h ch N (\<lambda>c. Inr (emits (emit_op BcPushNull) c)) (enormal MNull)"
    using sim_null growing_emit(1) by (rule sim_ssim)
  moreover have "compile_elements ce [b] = (case b of BlExpr e \<Rightarrow> ce e | _ \<Rightarrow> \<lambda>c. Inr (emits (emit_op BcPushNull) c))"
    "eval_elements g [b] = (case b of BlExpr e \<Rightarrow> g e | _ \<Rightarrow> enormal MNull)"
    by (cases b; simp add: fun_eq_iff)+
  ultimately show ?case using 2 by (cases b) auto
next
  case (3 b b' bs)
  have rest: "ssim h ch N (compile_elements ce (b' # bs)) (eval_elements g (b' # bs))"
    using 3 by auto
  show ?case
  proof (cases b)
    case (BlExpr e)
    have "compile_elements ce (b # b' # bs) =
        (\<lambda>c. rbind (ce e c) (\<lambda>c1. compile_elements ce (b' # bs) (emits (emit_op BcPop) c1)))"
      "eval_elements g (b # b' # bs) = (\<lambda>s. ebind (g e s) (\<lambda>_. eval_elements g (b' # bs)))"
      by (simp_all add: BlExpr fun_eq_iff)
    moreover have "sgrowing (compile_elements ce (b' # bs))" by (rule sgrowing_elements) (use 3 in auto)
    ultimately show ?thesis using ssim_bind_elements [OF _ _ rest] 3(3,4) [of e] BlExpr by auto
  qed (use rest in \<open>simp_all\<close>)
qed simp

lemma ssim_block_code:
  assumes "\<And>e. BlExpr e \<in> set bs \<Longrightarrow> ssim h ch N (ce e) (g e)" and "\<And>e. BlExpr e \<in> set bs \<Longrightarrow> sgrowing (ce e)"
  shows "ssim h ch N (block_code ce bs) (eval_elements g bs)"
proof (cases "bs = []")
  case True
  have "eval_elements g [] = enormal MNull" by (simp add: fun_eq_iff)
  with True sim_ssim [OF sim_null growing_emit(1)] show ?thesis by (simp add: block_code_def [abs_def])
next
  case False
  with ssim_elements [OF assms False] show ?thesis by (simp add: block_code_def [abs_def])
qed

lemma coded_scope:
  assumes "coded (compile_block ce bs) ch N c c'"
  obtains c1 where "coded (block_code ce bs) ch N (push_scope c) c1" and "c' = pop_scope c1"
proof -
  from compile_block_Inr [OF codedD(1) [OF assms]] obtain c1 where
    c1: "block_code ce bs (push_scope c) = Inr c1" "c' = pop_scope c1" .
  have "good (push_scope c)" using codedD(2) [OF assms] by (auto simp: good_def locals_ok_def push_scope_def)
  moreover have "below ch N c1" using codedD(3) [OF assms] by (simp add: c1(2) below_def pop_scope_def)
  ultimately have "coded (block_code ce bs) ch N (push_scope c) c1"
    using assms c1 by (auto simp: coded_def)
  then show ?thesis by (rule that [OF _ c1(2)])
qed

lemma sim_block:
  assumes "\<And>e. BlExpr e \<in> set bs \<Longrightarrow> ssim h ch N (ce e) (g e)" and "\<And>e. BlExpr e \<in> set bs \<Longrightarrow> sgrowing (ce e)"
  shows "sim h ch N (compile_block ce bs) (in_scope (eval_elements g bs))"
proof (rule simI)
  fix s c c' env a L ops x
  assume co: "coded (compile_block ce bs) ch N c c'" and L: "length (L :: MacroValue list) = N"
    and env: "env_rel (scopes_of c) env L" and x: "in_scope (eval_elements g bs) (env, a) = Some x"
  from coded_scope [OF co] obtain c1 where c1: "coded (block_code ce bs) ch N (push_scope c) c1" and c': "c' = pop_scope c1" .
  from sgrowingE [OF sgrowing_block_code [OF assms(2)] codedD(1) [OF c1]]
  obtain new where "bc_code c1 = bc_code (push_scope c) @ new" and ext: "sgro (length new) (push_scope c) c1" .
  from ext obtain m where m: "scopes_of c1 = m # scopes_of c" by (auto simp: sgro_def scope_tl_def push_scope_def)
  from x obtain r env' a' where y: "eval_elements g bs ([] # env, a) = Some (r, env', a')" and x': "x = (r, tl env', a')"
    by (auto simp: in_scope_def split: option.splits)
  have "env_rel (scopes_of (push_scope c)) ([] # env) L" using env by (simp add: push_scope_def holds_in_def)
  from ssimD [OF ssim_block_code [OF assms] c1 L this y, of s ops]
  have out: "soutcome h s ch N c1 ([] # env) (vst s ch (length (bc_code c)) (L @ ops) a) (length (bc_code c')) ops (r, env', a')"
    by (simp add: c')
  show "outcome h s ch N c env (vst s ch (length (bc_code c)) (L @ ops) a) (length (bc_code c')) ops x"
  proof (cases r)
    case (Normal v)
    with out obtain L' where L': "length L' = N" "env_rel (m # scopes_of c) env' L'" "doms (tl env') = doms env"
      "steps h (vst s ch (length (bc_code c)) (L @ ops) a) (vst s ch (length (bc_code c')) (L' @ ops @ [v]) a')"
      by (auto simp: m)
    then show ?thesis by (cases env') (auto simp: x' Normal)
  next
    case (Returned v)
    with out show ?thesis by (simp add: x')
  qed
qed

section \<open>Expressions\<close>

lemma sim_lit:
  "sim h ch N (lit_code l sp) (eval h (Suc n) (Expr (KLit l) sp'))"
proof (cases l)
  case XThis
  have "sim h ch N (\<lambda>c. case resolve ''this'' c of
      Some slot \<Rightarrow> Inr (emits (emit_u16 BcLoadLocal slot) c) | None \<Rightarrow> Inl x) (read_var ''this'')" for x
    by (rule sim_imp [OF sim_load_var [of h ch N "''this''" sp]]) (auto simp: load_var_def split: option.splits)
  then show ?thesis by (simp add: XThis lit_code_def eval.simps(2) [abs_def])
qed (auto simp: lit_code_def eval.simps(2) [abs_def] sim_const sim_load_var intro!: sim_op steps_push)

lemma sim_unary:
  assumes "op \<noteq> HPostNot" and "sim h ch N (compile_expr e) (eval h n e)" and "growing (compile_expr e)"
  shows "sim h ch N (compile_unary compile_expr op e sp) (eval h (Suc n) (Expr (EUnary op e) sp'))"
proof -
  have other: "sim h ch N (\<lambda>c. rbind (compile_expr e c) (\<lambda>c1. Inr (emits (emit_op bc) c1)))
      (\<lambda>s. ebind (eval h n e s) (\<lambda>v. from_result (unary_fn bc v)))" if "bc \<in> {BcNot, BcNeg, BcBitNot}" for bc
    by (rule sim_bind [OF assms(2,3) growing_emit(1)]) (rule ksim_unary, use that in auto)
  have noident: "sim h ch N (compile_unary compile_expr op e sp) (\<lambda>s. None)" by (simp add: sim_def)
  show ?thesis
  proof (cases "op \<in> {HPreIncr, HPreDecr, HPostIncr, HPostDecr}")
    case True
    show ?thesis
    proof (cases "\<exists>y. e_kind e = EIdent y")
      case True
      then obtain y where y: "e_kind e = EIdent y" by blast
      with \<open>op \<in> _\<close> sim_pre [OF y, of h ch N op sp] sim_post [OF y, of h ch N op sp] show ?thesis
        by (auto simp: compile_unary_def [abs_def] eval.simps(2) [abs_def])
    next
      case False
      with \<open>op \<in> _\<close> have "eval h (Suc n) (Expr (EUnary op e) sp') = (\<lambda>s. None)"
        by (auto simp: fun_eq_iff eval.simps(2) split: ExprKind.splits Literal.splits)
      with noident show ?thesis by simp
    qed
  next
    case False
    with assms(1) other [of BcNot] other [of BcNeg] other [of BcBitNot] show ?thesis
      by (cases op) (simp_all add: compile_unary_def [abs_def] eval.simps(2) [abs_def])
  qed
qed

lemma sim_binary:
  assumes "sim h ch N (compile_expr l) (eval h n l)" and "sim h ch N (compile_expr r) (eval h n r)"
    and "growing (compile_expr l)" and "growing (compile_expr r)"
  shows "sim h ch N (compile_binary compile_expr l op r sp) (eval h (Suc n) (Expr (EBinary l op r) sp'))"
proof (cases "op = HAnd \<or> op = HOr")
  case True
  have "eval h (Suc n) (Expr (EBinary l op r) sp') =
      (\<lambda>s. ebind (eval h n l s) (\<lambda>v s1. if is_truthy v = (op = HAnd) then eval h n r s1 else enormal v s1))"
    using True by (auto simp: fun_eq_iff eval.simps(2) intro!: arg_cong [where f = "ebind _"])
  with sim_short [OF assms(3,4,1,2) True] show ?thesis by simp
next
  case False
  have bin: "ksim h ch N (emit_binary_op op sp) [a, b] (apply_binary h (binary_opcode op) a b)" for a b
    by (rule ksim_binary) (simp add: emit_binary_op_def [abs_def])
  have "ksim h ch N (\<lambda>c1. rbind (compile_expr r c1) (emit_binary_op op sp)) [a]
      (\<lambda>s1. ebind (eval h n r s1) (\<lambda>b. apply_binary h (binary_opcode op) a b))" for a
    by (rule ksim_bind [OF assms(2,4) growing_emit_binary(1)]) (simp add: bin)
  from sim_bind [OF assms(1,3) growing_bind [OF assms(4) growing_emit_binary(1)] this] False
  show ?thesis by (simp add: compile_binary_def [abs_def] eval.simps(2) [abs_def])
qed

lemma sim_index:
  assumes "sim h ch N (compile_expr b) fb" and "sim h ch N (compile_expr i) fi"
    and "growing (compile_expr b)" and "growing (compile_expr i)"
  shows "sim h ch N (\<lambda>c. rbind (compile_expr b c) (\<lambda>c1. rbind (compile_expr i c1) (\<lambda>c2. Inr (emits (emit_op BcGetIndex) c2))))
    (\<lambda>s. ebind (fb s) (\<lambda>v s1. ebind (fi s1) (\<lambda>w. from_result (get_index v w))))"
proof -
  have "ksim h ch N (\<lambda>c. Inr (emits (emit_op BcGetIndex) c)) [v, w] (from_result (get_index v w))" for v w
    by (rule ksim_result, rule ksim_op) (rule steps_get_index)
  then have "ksim h ch N (\<lambda>c1. rbind (compile_expr i c1) (\<lambda>c2. Inr (emits (emit_op BcGetIndex) c2))) [v]
      (\<lambda>s1. ebind (fi s1) (\<lambda>w. from_result (get_index v w)))" for v
    by (intro ksim_bind [OF assms(2,4) growing_emit(1)]) simp
  then show ?thesis by (intro sim_bind [OF assms(1,3) growing_bind [OF assms(4) growing_emit(1)]])
qed

text \<open>Loops run as long as the fuel of the evaluation lasts.\<close>

lemma sim_while_fuel:
  assumes "\<And>m. m < n \<Longrightarrow> sim h ch N (compile_expr b) (eval h m b) \<and> sim h ch N (compile_expr t) (eval h m t)"
    and "growing (compile_expr b)" and "growing (compile_expr t)"
  shows "m \<le> n \<Longrightarrow> sim h ch N (compile_while compile_expr b t) (eval h m (Expr (EWhile b t) sp))"
proof (induction m)
  case 0
  then show ?case by (simp add: sim_def)
next
  case (Suc m)
  then show ?case using assms(1) [of m] sim_while [OF assms(2,3)] by (simp add: eval.simps(2) [abs_def])
qed

lemma sim_do_while_fuel:
  assumes "\<And>m. m < n \<Longrightarrow> sim h ch N (compile_expr b) (eval h m b) \<and> sim h ch N (compile_expr t) (eval h m t)"
    and "growing (compile_expr b)" and "growing (compile_expr t)"
  shows "m \<le> n \<Longrightarrow> sim h ch N (compile_do_while compile_expr t b) (eval h m (Expr (EDoWhile t b) sp))"
proof (induction m)
  case 0
  then show ?case by (simp add: sim_def)
next
  case (Suc m)
  then show ?case using assms(1) [of m] sim_do_while [OF assms(2,3)] by (simp add: eval.simps(2) [abs_def])
qed

inductive_cases stmt_elim: "stmt e"

lemma sim_plain_Suc:
  assumes IH: "\<And>m e. m \<le> n \<Longrightarrow> plain e \<Longrightarrow> sim h ch N (compile_expr e) (eval h m e)"
    and IHs: "\<And>e. stmt e \<Longrightarrow> ssim h ch N (compile_expr e) (eval h n e)" and "plain e"
  shows "sim h ch N (compile_expr e) (eval h (Suc n) e)"
proof -
  note IHn = IH [OF order_refl]
  note eval2 = eval.simps(2) [abs_def]
  have fuel: "sim h ch N (compile_expr b) (eval h m b) \<and> sim h ch N (compile_expr t) (eval h m t)"
    if "plain b" "plain t" "m < Suc n" for b t m
    using IH [of m] that by simp
  show ?thesis using \<open>plain e\<close>
  proof cases
    case (plain_lit l sp)
    then show ?thesis by (simp add: compile_expr_kinds sim_span sim_lit)
  next
    case (plain_unary op e sp)
    then show ?thesis by (simp add: compile_expr_kinds sim_span sim_unary IHn plain_growing)
  next
    case (plain_binary l r op sp)
    then show ?thesis by (simp add: compile_expr_kinds sim_span sim_binary IHn plain_growing)
  next
    case (plain_assign l x r op sp)
    then show ?thesis
      using sim_assign [of h ch N compile_expr r "eval h n r" x sp] sim_assign_op [of h ch N compile_expr r "eval h n r" op x sp]
      by (cases "op = HAssign") (simp_all add: compile_expr_kinds sim_span IHn plain_growing eval2)
  next
    case (plain_ternary b t e1 sp)
    then show ?thesis
      using sim_if [of compile_expr b t "Some e1" h ch N "eval h n b" "eval h n t" "eval h n e1"]
        sim_else [of "Some e1" h ch N compile_expr "eval h n"] growing_else [of "Some e1" compile_expr]
      by (simp add: compile_expr_kinds sim_span IHn plain_growing growing_else eval2)
  next
    case (plain_if b t e1 sp)
    then show ?thesis
      using sim_if [of compile_expr b t e1 h ch N "eval h n b" "eval h n t"
          "\<lambda>s. case e1 of Some x \<Rightarrow> eval h n x s | None \<Rightarrow> enormal MNull s"]
        sim_else [of e1 h ch N compile_expr "eval h n"] growing_else [of e1 compile_expr]
      by (simp add: compile_expr_kinds sim_span IHn plain_growing growing_else eval2)
  next
    case (plain_wrap k e sp)
    then have "eval h (Suc n) (Expr k sp) = eval h n e" by (auto simp: eval2)
    with plain_wrap show ?thesis by (simp only: compile_expr_kinds(16)) (rule sim_span, rule IHn)
  next
    case (plain_block bs sp)
    then show ?thesis by (simp add: compile_expr_kinds sim_span sim_block IHs stmt_sgrowing eval2)
  next
    case (plain_while b t sp)
    from sim_while_fuel [OF fuel [OF plain_while(2,3)] plain_growing plain_growing, of "Suc n" "Suc n" sp] plain_while
    show ?thesis by (simp add: compile_expr_kinds sim_span)
  next
    case (plain_do_while b t sp)
    from sim_do_while_fuel [OF fuel [OF plain_do_while(2,3)] plain_growing plain_growing, of "Suc n" "Suc n" sp] plain_do_while
    show ?thesis by (simp add: compile_expr_kinds sim_span)
  next
    case (plain_array es sp)
    then show ?thesis
      using sim_array [of es h ch N compile_expr "eval h n"] by (simp add: compile_expr_kinds sim_span IHn plain_growing eval2)
  next
    case (plain_index b i sp)
    then show ?thesis by (simp add: compile_expr_kinds sim_span sim_index IHn plain_growing eval2)
  next
    case (plain_field b f opt sp)
    then show ?thesis
      using sim_bind [OF IHn [of b] plain_growing [of b] growing_emit_named ksim_field [where opt = opt and f = f]]
      by (simp add: compile_expr_kinds sim_span eval2)
  next
    case (plain_return e sp)
    then show ?thesis
      using sim_return [of e h ch N "eval h n"] by (simp add: compile_expr_kinds sim_span IHn plain_growing eval2)
  qed
qed

lemma sim_stmt_Suc:
  assumes IH: "\<And>e. plain e \<Longrightarrow> sim h ch N (compile_expr e) (eval h n e)"
    and IH1: "\<And>e. plain e \<Longrightarrow> sim h ch N (compile_expr e) (eval h (Suc n) e)" and "stmt e"
  shows "ssim h ch N (compile_expr e) (eval h (Suc n) e)"
  using \<open>stmt e\<close>
proof cases
  case stmt_plain
  then show ?thesis by (intro sim_ssim IH1 plain_growing)
next
  case (stmt_var e x sp)
  then show ?thesis
    using ssim_var [of e h ch N "eval h n" x] by (simp add: compile_expr_kinds ssim_span IH plain_growing eval.simps(2) [abs_def])
next
  case (stmt_final e x sp)
  then show ?thesis
    using ssim_var [of e h ch N "eval h n" x] by (simp add: compile_expr_kinds ssim_span IH plain_growing eval.simps(2) [abs_def])
qed

lemma sim_compile_expr:
  "(\<forall>e. plain e \<longrightarrow> sim h ch N (compile_expr e) (eval h n e)) \<and> (\<forall>e. stmt e \<longrightarrow> ssim h ch N (compile_expr e) (eval h n e))"
proof (induction n rule: less_induct)
  case (less n)
  show ?case
  proof (cases n)
    case 0
    then show ?thesis by (simp add: sim_def ssim_def)
  next
    case (Suc k)
    have p: "sim h ch N (compile_expr e) (eval h m e)" if "m \<le> k" "plain e" for m e
      using less Suc that by (simp add: less_Suc_eq_le)
    have q: "ssim h ch N (compile_expr e) (eval h k e)" if "stmt e" for e
      using less Suc that by simp
    have p': "sim h ch N (compile_expr e) (eval h (Suc k) e)" if "plain e" for e
      using p q that by (rule sim_plain_Suc)
    moreover have "ssim h ch N (compile_expr e) (eval h (Suc k) e)" if "stmt e" for e
      using p [OF order_refl] p' that by (rule sim_stmt_Suc)
    ultimately show ?thesis by (simp add: Suc)
  qed
qed

section \<open>Functions\<close>

lemma initial_env_snoc:
  "initial_env (ps @ [p]) args =
     declare_env (mp_name p) (if length ps < length args then args ! length ps else MNull) (initial_env ps args)"
  by (simp add: initial_env_def)

lemma bind_param_eq:
  assumes "scopes_of c = m # ms"
  shows "bc_code (bind_param x opt c) = bc_code c" and "consts_of (bind_param x opt c) = consts_of c"
    and "scopes_of (bind_param x opt c) = AList.update x (lr_next_slot (bc_locals c)) m # ms"
    and "lr_next_slot (bc_locals (bind_param x opt c)) = lr_next_slot (bc_locals c) + 1"
  using assms
  by (simp_all add: bind_param_def define_local_var_def define_slot_def Let_def register_name_def)

abbreviation bind_all :: "MacroParam list \<Rightarrow> BytecodeCompiler \<Rightarrow> BytecodeCompiler" where
  "bind_all \<equiv> fold (\<lambda>p. bind_param (mp_name p) (mp_optional p))"

lemma bind_all_rel:
  assumes "length ps \<le> 32767" and "length ps \<le> length L"
    and "\<And>i. i < length ps \<Longrightarrow> L ! i = (if i < length args then args ! i else MNull)"
  shows "locals_ok (bind_all ps (new_compiler f)) (length ps) \<and>
    (\<exists>m e. scopes_of (bind_all ps (new_compiler f)) = [m] \<and> initial_env ps args = [e] \<and> env_rel [m] [e] L) \<and>
    bc_code (bind_all ps (new_compiler f)) = [] \<and> consts_of (bind_all ps (new_compiler f)) = []"
  using assms
proof (induction ps rule: rev_induct)
  case Nil
  show ?case
    by (auto simp: new_compiler_def new_resolver_def new_chunk_def locals_ok_def initial_env_def holds_in_def)
next
  case (snoc p ps)
  let ?c = "bind_all ps (new_compiler f)" and ?x = "mp_name p"
  let ?s = "lr_next_slot (bc_locals ?c)" and ?v = "if length ps < length args then args ! length ps else MNull"
  have get: "L ! i = (if i < length args then args ! i else MNull)" if "i \<le> length ps" for i
    using snoc.prems(3) [of i] that by simp
  from snoc.IH [OF _ _ get] snoc.prems obtain m e where ok: "locals_ok ?c (length ps)" and m: "scopes_of ?c = [m]"
    and e: "initial_env ps args = [e]" and rel: "env_rel [m] [e] L" and code: "bc_code ?c = []" "consts_of ?c = []"
    by auto
  note eq = bind_param_eq [OF m, of ?x "mp_optional p"]
  have s: "unat ?s = length ps" using ok by (simp add: locals_ok_def unat_of_nat)
  have "locals_ok (bind_param ?x (mp_optional p) ?c) (length ps + 1)"
    by (rule locals_ok_declare [OF ok _ m eq(3,4)]) (use snoc.prems(1) in simp)
  moreover have "L[length ps := ?v] = L" using get [of "length ps"] by (metis list_update_id order_refl)
  then have "env_rel [AList.update ?x ?s m] [AList.update ?x ?v e] L"
    using env_rel_declare [OF rel, of ?s ?x ?v] fresh_slot [OF ok] m s snoc.prems(2) by simp
  ultimately show ?case using eq code m e by (simp add: initial_env_snoc)
qed

lemma growing_prefix:
  assumes "growing f" and "f c = Inr c'" and "locals_ok c K" and "K + length (bc_code c') \<le> 65535 + length (bc_code c)"
  shows "\<exists>K'. locals_ok c' K' \<and> K \<le> K'" and "length (consts_of c) \<le> 65536 \<Longrightarrow> length (consts_of c') \<le> 65536"
proof -
  from growingE [OF assms(1,2)] obtain new where new: "bc_code c' = bc_code c @ new" "ext (length new) c c'" .
  then obtain d where "d \<le> length new" "locals_ok c K \<Longrightarrow> K + d \<le> 65535 \<Longrightarrow> locals_ok c' (K + d)"
    unfolding ext_def gro_def by blast
  with assms(3,4) new(1) show "\<exists>K'. locals_ok c' K' \<and> K \<le> K'" by (intro exI [of _ "K + d"]) auto
  show "length (consts_of c) \<le> 65536 \<Longrightarrow> length (consts_of c') \<le> 65536" using new(2) by (simp add: ext_def gro_def)
qed

lemma finish_simps:
  "ch_code (finish c) = bc_code c @ [op_byte BcReturn]" "ch_constants (finish c) = consts_of c"
  "ch_local_count (finish c) = lr_next_slot (bc_locals c)"
  by (simp_all add: finish_def emit_defs)

text \<open>
  For any body that grows and is simulated by \<open>g\<close>: the function started on arguments computes what \<open>g\<close>
  gives on the environment of its parameters.
\<close>

lemma simulated_runs:
  assumes comp: "compile f params body = Inr ch" and grow: "growing (compile_expr body)"
    and sims: "\<And>N. sim h ch N (compile_expr body) g" and "length params \<le> 32767"
    and "length (ch_code ch) \<le> 32768" and ev: "g (initial_env params args, vm_next s) = Some (r, e1, a1)"
    and r: "r = Normal v \<or> r = Returned v"
  shows "\<exists>k s'. \<forall>m \<ge> k. vm_execute h m ch args s = Inr (v, s')"
proof -
  let ?c = "bind_all params (new_compiler f)" and ?N = "unat (ch_local_count ch)"
  let ?L = "map (\<lambda>i. if i < length args then args ! i else MNull) [0..<?N]"
  let ?s = "s\<lparr>vm_trace := [], vm_updates := []\<rparr>"
  from comp obtain c' where c': "compile_expr body ?c = Inr c'" and ch: "ch = finish c'"
    by (auto simp: compile_def compile_function_def rbind_Inr_iff)
  from bind_all_rel [OF assms(4), of "map (\<lambda>i. if i < length args then args ! i else MNull) [0..<length params]" args f]
  have ok: "locals_ok ?c (length params)" and code: "bc_code ?c = []" "consts_of ?c = []" by simp_all
  have len: "length (bc_code c') < 32768" using assms(5) by (simp add: ch finish_simps)
  from growing_prefix [OF grow c' ok] assms(4) len code obtain K' where K': "locals_ok c' K'" "length params \<le> K'"
    and pool: "length (consts_of c') \<le> 65536" by auto
  have N: "length params \<le> ?N" using K' by (simp add: ch finish_simps locals_ok_def unat_of_nat)
  have get: "?L ! i = (if i < length args then args ! i else MNull)" if "i < length params" for i
    using N that by simp
  from bind_all_rel [OF assms(4) _ get, of f] N
  have rel: "env_rel (scopes_of ?c) (initial_env params args) ?L" by auto
  from growingE [OF grow c'] obtain new where new: "bc_code c' = bc_code ?c @ new" by blast
  have at: "code_at ch 0 (bc_code c' @ [op_byte BcReturn])" using code_at_whole [of ch] by (simp add: ch finish_simps)
  have co: "coded (compile_expr body) ch ?N ?c c'"
    unfolding coded_def
    using c' ok assms(4) K' pool len new at code
    by (auto simp: good_def below_def ch finish_simps intro!: exI [of _ "length params"])
  have sim: "outcome h ?s ch ?N ?c (initial_env params args) (vst ?s ch (length (bc_code ?c)) (?L @ []) (vm_next s))
      (length (bc_code c')) [] x" if "g (initial_env params args, vm_next s) = Some x" for x
    by (rule simD [OF sims co _ rel that]) simp
  have start: "initial_vm ch args s = vst ?s ch 0 (?L @ []) (vm_next s)"
    by (simp add: initial_vm_def vst_def)
  have out: "outcome h ?s ch ?N ?c (initial_env params args) (vst ?s ch 0 (?L @ []) (vm_next s)) (length (bc_code c')) [] (r, e1, a1)"
    using sim [OF ev] code by simp
  have "ends h (vst ?s ch 0 (?L @ []) (vm_next s)) v"
  proof (cases "r = Returned v")
    case True
    with out show ?thesis by simp
  next
    case False
    with r out obtain L' where "steps h (vst ?s ch 0 (?L @ []) (vm_next s)) (vst ?s ch (length (bc_code c')) (L' @ [v]) a1)"
      by auto
    moreover have "code_at ch (length (bc_code c')) [op_byte BcReturn]" using at by simp
    ultimately show ?thesis using ends_return steps_ends by blast
  qed
  then obtain k s' where "\<forall>j. vm_run h (k + j) (vst ?s ch 0 (?L @ []) (vm_next s)) = Inr (v, s')"
    by (auto simp: ends_def)
  then have "vm_execute h m ch args s = Inr (v, s')" if "k \<le> m" for m
    using that by (metis vm_execute_def start le_add_diff_inverse)
  then show ?thesis by blast
qed

theorem compiled_runs:
  assumes "compile f params body = Inr ch" and "plain body" and "length params \<le> 32767"
    and "length (ch_code ch) \<le> 32768" and "run_function h n params body args (vm_next s) = Some v"
  shows "\<exists>k s'. \<forall>m \<ge> k. vm_execute h m ch args s = Inr (v, s')"
proof -
  from assms(5) obtain r e1 a1 where ev: "eval h n body (initial_env params args, vm_next s) = Some (r, e1, a1)"
    and r: "r = Normal v \<or> r = Returned v"
    by (auto simp: run_function_def split: option.splits Completion.splits)
  have "sim h ch N (compile_expr body) (eval h n body)" for N using sim_compile_expr assms(2) by blast
  from simulated_runs [OF assms(1) plain_growing [OF assms(2)] this assms(3,4) ev r] show ?thesis .
qed

end
