(* ===== verification/BcExamples.thy ===== *)
theory BcExamples
  imports BcCorrect
begin

text \<open>
  Inputs of the witnesses: a host, programs in the syntax of the macro language, and what compiling
  and running them gives.
\<close>

definition example_host :: Host where
  "example_host =
     \<lparr>h_float_text = (\<lambda>f. ''float''), h_parse_float = (\<lambda>s. None), h_lower = (\<lambda>s. s), h_upper = (\<lambda>s. s),
      h_position = (\<lambda>p. None)\<rparr>"

definition node :: "Expr ExprKind \<Rightarrow> Expr" where
  "node k = Expr k \<lparr>sp_start = 0, sp_end = 0\<rparr>"

definition param :: "string \<Rightarrow> MacroParam" where
  "param x = \<lparr>mp_name = x, mp_optional = False, mp_rest = False\<rparr>"

definition block :: "Expr list \<Rightarrow> Expr" where
  "block es = node (EBlock (map BlExpr es))"

text \<open>\<open>{ var s = 0; while (n > 0) { s += n; n--; } return s; }\<close>\<close>

definition sum_body :: Expr where
  "sum_body =
     block
      [node (EVar ''s'' (Some (node (EInt 0)))),
       node (EWhile (node (EBinary (node (EIdent ''n'')) HGt (node (EInt 0))))
         (block [node (EAssign (node (EIdent ''s'')) HAddAssign (node (EIdent ''n''))),
                 node (EUnary HPostDecr (node (EIdent ''n'')))])),
       node (EReturn (Some (node (EIdent ''s''))))]"

definition sum_chunk :: Chunk where
  "sum_chunk = (case compile ''sum'' [param ''n''] sum_body of Inr ch \<Rightarrow> ch | Inl e \<Rightarrow> new_chunk [])"

lemma sum_compiles: "compile ''sum'' [param ''n''] sum_body = Inr sum_chunk"
  by code_simp

lemma sum_short: "length (ch_code sum_chunk) \<le> 32768"
  by code_simp

lemma sum_plain: "plain sum_body"
  by (auto simp: sum_body_def block_def node_def plain_simps stmt_simps)

lemma sum_runs: "run_function example_host 20 [param ''n''] sum_body [MInt 3] (vm_next new_vm) = Some (MInt 6)"
  by code_simp

text \<open>\<open>{ a[i] += x; return a[i]; }\<close>\<close>

definition element_update :: Expr where
  "element_update =
     (let e = node (EIndex (node (EIdent ''a'')) (node (EIdent ''i'')))
      in block [node (EAssign e HAddAssign (node (EIdent ''x''))), node (EReturn (Some e))])"

text \<open>\<open>{ a[0].x = v; return a[0].x; }\<close>\<close>

definition nested_field_update :: Expr where
  "nested_field_update =
     (let f = node (EField (node (EIndex (node (EIdent ''a'')) (node (EInt 0)))) ''x'' False)
      in block [node (EAssign f HAssign (node (EIdent ''v''))), node (EReturn (Some f))])"

text \<open>\<open>switch (n) { case 1, 2: true; default: false; }\<close>\<close>

definition two_patterns :: Expr where
  "two_patterns =
     node (ESwitch (node (EIdent ''n''))
       [Case [PConst (node (EInt 1)), PConst (node (EInt 2))] None (node (EBool True))]
       (Some (node (EBool False))))"

text \<open>\<open>o == o\<close>\<close>

definition same_object :: Expr where
  "same_object = node (EBinary (node (EIdent ''o'')) HEq (node (EIdent ''o'')))"

text \<open>\<open>for (x in [7]) continue\<close>\<close>

definition skipping_loop :: Expr where
  "skipping_loop = node (EFor ''x'' None (node (EArray [node (EInt 7)])) (node EContinue))"

section \<open>Runs without an end\<close>

text \<open>The state after exactly so many operations, where none of them ended the run.\<close>

fun exact_steps :: "Host \<Rightarrow> nat \<Rightarrow> MacroVm \<Rightarrow> MacroVm option" where
  "exact_steps h 0 s = Some s"
| "exact_steps h (Suc n) s = (case vm_step h s of Inr (None, s') \<Rightarrow> exact_steps h n s' | _ \<Rightarrow> None)"

lemma exact_steps_run: "exact_steps h k s = Some s' \<Longrightarrow> vm_run h (k + n) s = vm_run h n s'"
  by (induction k arbitrary: s) (auto split: sum.splits prod.splits option.splits)

lemma exact_steps_less: "exact_steps h k s = Some s' \<Longrightarrow> n \<le> k \<Longrightarrow> vm_run h n s = Inl budget_error"
proof (induction k arbitrary: s n)
  case (Suc k)
  then show ?case by (cases n) (auto split: sum.splits prod.splits option.splits)
qed simp

lemma cycle_runs_out:
  assumes "exact_steps h (Suc k) s = Some s"
  shows "vm_run h n s = Inl budget_error"
proof (induction n rule: less_induct)
  case (less n)
  show ?case
  proof (cases "n \<le> Suc k")
    case True
    with exact_steps_less [OF assms] show ?thesis .
  next
    case False
    then obtain m where m: "n = Suc k + m" "m < n" using le_Suc_ex [of "Suc k" n] by auto
    with exact_steps_run [OF assms, of m] less.IH [of m] show ?thesis by simp
  qed
qed

text \<open>A run that comes back to a state on its way is stopped by every budget.\<close>

lemma lasso_runs_out:
  assumes "exact_steps h j s0 = Some s \<and> exact_steps h (Suc k) s = Some s"
  shows "vm_run h n s0 = Inl budget_error"
proof (cases "n \<le> j")
  case True
  with assms exact_steps_less show ?thesis by blast
next
  case False
  then obtain m where "n = j + m" using le_Suc_ex [of j n] by auto
  with exact_steps_run [of h j s0 s m] cycle_runs_out [of h k s m] assms show ?thesis by simp
qed

text \<open>The compiled loop, and the state from which it repeats itself.\<close>

definition skipping_chunk :: Chunk where
  "skipping_chunk =
     Chunk
       [0, 0, 0, 72, 1, 0, 9, 0, 0, 6, 7, 0, 0, 64, 1, 0, 9, 1, 0, 6, 4, 9, 2, 0, 6, 1, 9, 3, 0, 6,
        7, 2, 0, 7, 1, 0, 23, 49, 26, 0, 7, 0, 0, 7, 2, 0, 67, 8, 3, 0, 6, 48, 232, 255,
        6, 7, 2, 0, 43, 8, 2, 0, 6, 48, 220, 255, 1, 61]
       [MInt 7, MString ''length''] 4 []
       [(0, \<lparr>sp_start = 0, sp_end = 0\<rparr>), (0, \<lparr>sp_start = 0, sp_end = 0\<rparr>),
        (0, \<lparr>sp_start = 0, sp_end = 0\<rparr>), (51, \<lparr>sp_start = 0, sp_end = 0\<rparr>)]
       [] [] ''f'' [(3, ''x'')]"

definition skipping_state :: MacroVm where
  "skipping_state =
     \<lparr>vm_stack = [MArray 0 [MInt 7], MInt 1, MInt 0, MInt 7],
      vm_frames = [\<lparr>cf_chunk = skipping_chunk, cf_ip = 30, cf_bp = 0\<rparr>],
      vm_trace = [], vm_classes = [], vm_updates = [], vm_next = 1\<rparr>"

lemma Let_weak: "x = y \<Longrightarrow> Let x f = Let y f"
  by simp

lemma rbind_weak: "r = r' \<Longrightarrow> rbind r f = rbind r' f"
  by simp

lemmas compile_eval = compile_expr.simps compile_def compile_function_def new_compiler_def new_resolver_def
  new_chunk_def finish_def push_scope_def pop_scope_def define_temp_def define_local_var_def define_slot_def
  register_name_def emits_def emit_defs begin_jump_def patch_def patch_jump_def patch_bytes_def pool_def
  emit_const_def emit_named_def intern_string_def add_constant_def enter_loop_def leave_loop_def Let_def

lemma skipping_compiles: "compile ''f'' [] skipping_loop = Inr skipping_chunk"
  unfolding skipping_loop_def node_def
  by (simp add: compile_eval compile_for_in_def compile_continue_def skipping_chunk_def u16_le_def jump_offset_def
      cong: Let_weak rbind_weak)

lemma skipping_lasso:
  "exact_steps example_host 24 (initial_vm skipping_chunk [] new_vm) = Some skipping_state \<and>
   exact_steps example_host (Suc 9) skipping_state = Some skipping_state"
  by code_simp

section \<open>Runs on arbitrary values\<close>

text \<open>The chunks of the short programs, and rules that run them on values that are not known.\<close>

definition compiled :: "string list \<Rightarrow> Expr \<Rightarrow> Chunk" where
  "compiled xs body = (case compile ''f'' (map param xs) body of Inr ch \<Rightarrow> ch | Inl e \<Rightarrow> new_chunk [])"

lemma initial_vst:
  "initial_vm ch args s =
     vst (s\<lparr>vm_trace := [], vm_updates := []\<rparr>) ch 0
       (map (\<lambda>i. if i < length args then args ! i else MNull) [0..<unat (ch_local_count ch)]) (vm_next s)"
  by (simp add: initial_vm_def vst_def)

lemma vm_run_vst:
  "vm_run h (numeral k) (vst s ch ip st a) =
     (if length (ch_code ch) \<le> ip then Inr (MNull, vst s ch ip st a)
      else case from_byte (ch_code ch ! ip) of
             None \<Rightarrow> Inl (VmError (unknown_opcode (ch_code ch ! ip) ip) (span_at ch ip))
           | Some op \<Rightarrow> rbind (vm_exec_op h op (vst s ch (ip + 1) st a))
               (\<lambda>(r, s'). case r of Some v \<Rightarrow> Inr (v, s') | None \<Rightarrow> vm_run h (pred_numeral k) s'))"
  by (simp add: numeral_eq_Suc vm_step_def split: option.splits)

lemma take_u16_any:
  "take_u16 (vst s ch ip st a) =
     rbind (ok_or VmPanic (fetch_u16 (ch_code ch) ip)) (\<lambda>v. Inr (v, vst s ch (ip + 2) st a))"
  by (simp add: take_u16_def)

lemma upt_small: "[0..<1] = [0]" "[0..<2] = [0, 1]" "[0..<3] = [0, 1, 2]"
  by (simp_all add: upt_rec)

lemmas run_eval = vm_run_vst take_u16_any from_byte_def byte_ops_def Let_def vm_exec_op_def exec_basic_def
  with_u16_def vbind_def fetch_u16_def load_local_def store_local_def local_index_def vreturn_def of_u16_le_def
  act_def vm_pop_def vm_push_def define_local_def set_element_def vm_peek_def push_const_def exec_binary_def
  binary_op_def jump_if_def vm_jump_def add_offset_def exec_return_def upt_small

lemma two_patterns_chunk:
  "compile ''f'' [param ''n''] two_patterns = Inr (compiled [''n''] two_patterns) \<and>
   ch_code (compiled [''n''] two_patterns) =
     [7, 0, 0, 9, 1, 0, 6, 7, 1, 0, 5, 21, 49, 0, 0, 7, 1, 0, 0, 0, 0, 21, 49, 4, 0, 2, 48, 1, 0, 3, 61] \<and>
   ch_constants (compiled [''n''] two_patterns) = [MInt 2] \<and> ch_local_count (compiled [''n''] two_patterns) = 2"
  by code_simp

lemma two_patterns_run:
  "\<exists>s'. vm_execute h 20 (compiled [''n''] two_patterns) [n] s = Inr (MBool (macro_eq n (MInt 2)), s')"
proof -
  note ch = two_patterns_chunk [THEN conjunct2]
  show ?thesis
    unfolding vm_execute_def initial_vst
    by (cases "macro_eq n (MInt 2)")
       (simp_all add: run_eval ch cong: Let_weak rbind_weak option.case_cong_weak)
qed

text \<open>\<open>'$a$b'\<close>\<close>

definition two_parts :: Expr where
  "two_parts =
     node (EStringInterpolation [SpInterpolation (node (EIdent ''a'')), SpInterpolation (node (EIdent ''b''))])"

lemma two_parts_chunk:
  "compile ''f'' [param ''a'', param ''b''] two_parts = Inr (compiled [''a'', ''b''] two_parts) \<and>
   ch_code (compiled [''a'', ''b''] two_parts) = [7, 0, 0, 7, 1, 0, 16, 61] \<and>
   ch_constants (compiled [''a'', ''b''] two_parts) = [] \<and> ch_local_count (compiled [''a'', ''b''] two_parts) = 2"
  by code_simp

lemma two_parts_run:
  assumes "vm_add h a b = Inr v"
  shows "\<exists>s'. vm_execute h 20 (compiled [''a'', ''b''] two_parts) [a, b] s = Inr (v, s')"
proof -
  note ch = two_parts_chunk [THEN conjunct2]
  show ?thesis
    unfolding vm_execute_def initial_vst using assms
    by (simp add: run_eval ch cong: Let_weak rbind_weak option.case_cong_weak)
qed

lemma same_object_chunk:
  "compile ''f'' [param ''o''] same_object = Inr (compiled [''o''] same_object) \<and>
   ch_code (compiled [''o''] same_object) = [7, 0, 0, 7, 0, 0, 21, 61] \<and>
   ch_constants (compiled [''o''] same_object) = [] \<and> ch_local_count (compiled [''o''] same_object) = 1"
  by code_simp

lemma same_object_run:
  "\<exists>s'. vm_execute h 20 (compiled [''o''] same_object) [x] s = Inr (MBool (macro_eq x x), s')"
proof -
  note ch = same_object_chunk [THEN conjunct2]
  show ?thesis
    unfolding vm_execute_def initial_vst
    by (simp add: run_eval ch cong: Let_weak rbind_weak option.case_cong_weak)
qed

lemma element_update_chunk:
  "compile ''f'' [param ''a'', param ''i'', param ''x''] element_update =
     Inr (compiled [''a'', ''i'', ''x''] element_update) \<and>
   ch_code (compiled [''a'', ''i'', ''x''] element_update) =
     [7, 0, 0, 7, 1, 0, 88, 7, 2, 0, 16, 68, 6, 7, 0, 0, 7, 1, 0, 67, 61, 61] \<and>
   ch_constants (compiled [''a'', ''i'', ''x''] element_update) = [] \<and>
   ch_local_count (compiled [''a'', ''i'', ''x''] element_update) = 3"
  by code_simp

lemma nested_field_update_chunk:
  "compile ''f'' [param ''a'', param ''v''] nested_field_update =
     Inr (compiled [''a'', ''v''] nested_field_update) \<and>
   ch_code (compiled [''a'', ''v''] nested_field_update) =
     [7, 0, 0, 4, 67, 7, 1, 0, 65, 0, 0, 6, 7, 0, 0, 4, 67, 64, 0, 0, 61, 61] \<and>
   ch_constants (compiled [''a'', ''v''] nested_field_update) = [MString ''x''] \<and>
   ch_local_count (compiled [''a'', ''v''] nested_field_update) = 2"
  by code_simp

lemma get_string_any:
  "get_string_constant idx (vst s ch ip st a) =
     (if unat idx < length (ch_constants ch)
      then (case ch_constants ch ! unat idx of
              MString t \<Rightarrow> Inr (t, vst s ch ip st a)
            | v \<Rightarrow> Inl (vm_err (''expected string constant at index '' @ show_nat (unat idx) @ '', got '' @ type_name v)))
      else Inl (vm_err (''constant index '' @ show_nat (unat idx) @ '' out of bounds (pool size: '' @
                  show_nat (length (ch_constants ch)) @ '')'')))"
  by (simp add: get_string_constant_def Let_def)

lemma nested_field_update_run:
  assumes "map_of fs ''__type__'' = None" and "map_of fs ''x'' = Some w"
  shows "\<exists>s'. vm_execute h 20 (compiled [''a'', ''v''] nested_field_update) [MArray p (MObject q fs # os), v] s = Inr (w, s')"
proof -
  note ch = nested_field_update_chunk [THEN conjunct2]
  show ?thesis
    unfolding vm_execute_def initial_vst using assms
    by (simp add: run_eval ch get_string_any exec_get_index_def get_index_def nth_value_def exec_set_field_def
        exec_get_field_def set_field_def get_field_def object_type_def or_null_def
        cong: Let_weak rbind_weak option.case_cong_weak)
qed

lemma replace_vst:
  assumes "p \<noteq> q"
  shows "replace_references (MArray p vs) (MArray q ws) (vst s ch ip [MArray p vs, MInt i, MInt x] a) =
    vst (s\<lparr>vm_updates := vm_updates s @ [(MArray p vs, MArray q ws)]\<rparr>) ch ip [MArray q ws, MInt i, MInt x] a"
  using assms by (simp add: replace_references_def replace_reference.simps same_reference_def vst_def)

lemma element_update_run:
  assumes "uint i < max_elements" and "p < vm_next s"
  shows "\<exists>s'. vm_execute h 20 (compiled [''a'', ''i'', ''x''] element_update) [MArray p vs, MInt i, MInt x] s =
    Inr (MInt (i + x), s')"
proof -
  note ch = element_update_chunk [THEN conjunct2]
  have e: "or_null (nth_value i ((vs @ replicate (Suc (unat i) - length vs) MNull)[unat i := v])) = v" for v
    using assms(1) by (auto simp: nth_value_def or_null_def)
  show ?thesis
    unfolding vm_execute_def initial_vst using assms
    by (simp add: run_eval ch exec_set_index_def set_index_def replace_vst exec_get_index_def get_index_def e vm_add_def
        numeric_def
        cong: Let_weak rbind_weak option.case_cong_weak)
qed

text \<open>A state about to load a local, and the state after it.\<close>

definition load_state :: MacroVm where
  "load_state =
     new_vm\<lparr>vm_stack := [MInt 5],
       vm_frames := [\<lparr>cf_chunk = with_code [0x07, 0x00, 0x00, 0x3D] (new_chunk ''f''), cf_ip = 0, cf_bp = 0\<rparr>]\<rparr>"

lemma load_steps:
  "vm_step example_host load_state =
     Inr (None, set_ip 3 (load_state\<lparr>vm_stack := [MInt 5, MInt 5]\<rparr>))"
  by code_simp

lemma load_frames:
  "vm_frames load_state = [\<lparr>cf_chunk = with_code [0x07, 0x00, 0x00, 0x3D] (new_chunk ''f''), cf_ip = 0, cf_bp = 0\<rparr>]"
  by (simp add: load_state_def)

end
