(* ===== verification/BcFrames.thy ===== *)
theory BcFrames
  imports BcExamples
begin

text \<open>
  What an operation does to the stack of frames: operations that neither jump, call nor return move
  the running frame past themselves and leave the others alone.
\<close>

definition ahead :: "nat \<Rightarrow> CallFrame list \<Rightarrow> CallFrame list" where
  "ahead k frs = (hd frs)\<lparr>cf_ip := cf_ip (hd frs) + k\<rparr> # tl frs"

definition advances :: "nat \<Rightarrow> 'a vm \<Rightarrow> bool" where
  "advances k m \<longleftrightarrow>
     (\<forall>s a s'. vm_frames s \<noteq> [] \<longrightarrow> m s = Inr (a, s') \<longrightarrow> vm_frames s' = ahead k (vm_frames s))"

definition advances_to :: "nat \<Rightarrow> (MacroVm \<Rightarrow> MacroVm) \<Rightarrow> bool" where
  "advances_to k f \<longleftrightarrow> (\<forall>s. vm_frames s \<noteq> [] \<longrightarrow> vm_frames (f s) = ahead k (vm_frames s))"

named_theorems frame_intros \<open>operations that leave the frames alone or move the running one\<close>

lemma ahead_simps [simp]: "ahead k frs \<noteq> []" "ahead j (ahead k frs) = ahead (k + j) frs"
  by (simp_all add: ahead_def add.assoc)

lemma ahead_0 [simp]: "frs \<noteq> [] \<Longrightarrow> ahead 0 frs = frs"
  by (cases frs) (simp_all add: ahead_def)

lemma advances_same:
  "(\<And>s a s'. m s = Inr (a, s') \<Longrightarrow> vm_frames s' = vm_frames s) \<Longrightarrow> advances 0 m"
  by (simp add: advances_def)

lemma advances_bind [frame_intros]:
  "advances j m \<Longrightarrow> (\<And>a. advances k (f a)) \<Longrightarrow> advances (j + k) (vbind m f)"
  unfolding advances_def
proof (intro allI impI)
  fix s b s'
  assume m: "\<forall>s a s'. vm_frames s \<noteq> [] \<longrightarrow> m s = Inr (a, s') \<longrightarrow> vm_frames s' = ahead j (vm_frames s)"
    and f: "\<And>a. \<forall>s b s'. vm_frames s \<noteq> [] \<longrightarrow> f a s = Inr (b, s') \<longrightarrow> vm_frames s' = ahead k (vm_frames s)"
    and ne: "vm_frames s \<noteq> []" and r: "vbind m f s = Inr (b, s')"
  from r obtain a s1 where a: "m s = Inr (a, s1)" "f a s1 = Inr (b, s')"
    by (auto simp: vbind_def rbind_Inr_iff)
  with m ne have s1: "vm_frames s1 = ahead j (vm_frames s)" by blast
  with f [of a] a(2) have "vm_frames s' = ahead k (vm_frames s1)" by (metis ahead_simps(1))
  with s1 show "vm_frames s' = ahead (j + k) (vm_frames s)" by simp
qed

lemma frames_pop: "vm_pop s = Inr (v, s') \<Longrightarrow> vm_frames s' = vm_frames s"
  by (auto simp: vm_pop_def split: if_splits)

lemma frames_push [simp]: "vm_frames (vm_push v s) = vm_frames s"
  by (simp add: vm_push_def)

lemma frames_string: "get_string_constant i s = Inr (t, s') \<Longrightarrow> s' = s"
  by (auto simp: get_string_constant_def Let_def split: if_splits MacroValue.splits)

lemma frames_args: "pop_args n s = Inr (vs, s') \<Longrightarrow> vm_frames s' = vm_frames s"
  by (induction n arbitrary: s vs s') (auto simp: rbind_Inr_iff dest!: frames_pop)

lemma frames_drain: "drain n s = Inr (vs, s') \<Longrightarrow> vm_frames s' = vm_frames s"
  by (auto simp: drain_def Let_def split: if_splits)

lemma frames_replace [simp]: "vm_frames (replace_references old new s) = vm_frames s"
  by (auto simp: replace_references_def split: prod.splits)

lemma frames_alloc [simp]: "vm_frames (alloc mk s) = vm_frames s"
  by (simp add: alloc_def)

lemmas frame_facts = frames_pop frames_string frames_args frames_drain

lemma advances_take [frame_intros]: "advances 2 take_u16" "advances 1 take_u8"
  by (auto simp: advances_def take_u16_def take_u8_def set_ip_def ahead_def rbind_Inr_iff)

lemma advances_act [frame_intros]: "(\<And>s. vm_frames (f s) = vm_frames s) \<Longrightarrow> advances 0 (act f)"
  by (simp add: advances_def act_def)

lemma advances_return [frame_intros]: "advances 0 (vreturn a)"
  by (simp add: advances_def vreturn_def)

lemma advances_error [frame_intros]: "advances k (vm_error m)"
  by (simp add: advances_def vm_error_def)

lemma advances_with [frame_intros]:
  "(\<And>i. advances k (f i)) \<Longrightarrow> advances (2 + k) (with_u16 f)"
  "(\<And>i j. advances k (g i j)) \<Longrightarrow> advances (3 + k) (with_u16_u8 g)"
  unfolding with_u16_def with_u16_u8_def
  using advances_bind [OF advances_take(1), of k f]
    advances_bind [OF advances_take(1) advances_bind [OF advances_take(2)], of k g]
  by (simp_all add: numeral_2_eq_2 numeral_3_eq_3)

lemma advances_unary [frame_intros]: "advances 0 (unary_op f)"
proof (rule advances_same)
  fix s a s'
  assume "unary_op f s = Inr (a, s')"
  then obtain v s1 where "vm_pop s = Inr (v, s1)" "(case f v of Inl m \<Rightarrow> vm_error m s1 | Inr w \<Rightarrow> Inr ((), vm_push w s1)) = Inr (a, s')"
    by (auto simp: unary_op_def rbind_Inr_iff)
  then show "vm_frames s' = vm_frames s"
    by (cases "f v") (auto simp: vm_error_def dest: frames_pop)
qed

lemma advances_binary [frame_intros]: "advances 0 (binary_op f)"
  by (rule advances_same) (auto simp: binary_op_def rbind_Inr_iff dest!: frame_facts)

lemma advances_exec_binary [frame_intros]: "advances 0 (exec_binary h op)"
  by (auto simp: exec_binary_def split: option.split intro: frame_intros)

lemma advances_locals [frame_intros]:
  "advances 0 (push_const i)" "advances 0 (load_local i)" "advances 0 (store_local i)" "advances 0 (define_local i)"
  by (rule advances_same; auto simp: push_const_def load_local_def store_local_def define_local_def Let_def
      split: if_splits)+

lemma advances_fields [frame_intros]:
  "advances 0 (exec_get_field i)" "advances 0 (exec_set_field i)" "advances 0 (exec_get_field_opt i)"
  by (rule advances_same; auto simp: exec_get_field_def exec_set_field_def exec_get_field_opt_def rbind_Inr_iff
      split: if_splits dest!: frame_facts)+

lemma advances_field_local [frame_intros]: "advances 0 (exec_set_field_local slot i)"
  by (rule advances_same) (auto simp: exec_set_field_local_def rbind_Inr_iff Let_def vm_error_def
      split: if_splits MacroValue.splits dest!: frame_facts)

lemma advances_index [frame_intros]: "advances 0 exec_get_index" "advances 0 exec_set_index"
  by (rule advances_same; auto simp: exec_get_index_def exec_set_index_def binary_op_def rbind_Inr_iff dest!: frame_facts)+

lemma advances_make [frame_intros]:
  "advances 0 (exec_make_array i)" "advances 0 (exec_make_object i)" "advances 0 (exec_make_map i)"
  by (rule advances_same; auto simp: exec_make_array_def exec_make_object_def exec_make_map_def rbind_Inr_iff
      dest!: frame_facts)+

lemma exec_call_fails: "exec_call n s \<noteq> Inr r"
proof
  assume "exec_call n s = Inr r"
  then obtain v s1 where "(case v of MFunction f name \<Rightarrow> vm_call_function s1
      | _ \<Rightarrow> vm_error (''cannot call '' @ type_name v) s1) = Inr r"
    by (auto simp: exec_call_def rbind_Inr_iff)
  then show False by (cases v) (simp_all add: vm_call_function_def vfail_def vm_error_def)
qed

lemma advances_call [frame_intros]: "advances 0 (exec_call n)"
  by (simp add: advances_def exec_call_fails)

lemma advances_builtin [frame_intros]: "advances 0 (exec_call_builtin h i n)"
  by (rule advances_same) (auto simp: exec_call_builtin_def rbind_Inr_iff split: if_splits dest!: frame_facts)

lemma advances_pop_args [frame_intros]: "advances 0 (pop_args n)"
  by (rule advances_same) (rule frames_args)

text \<open>The operations that are neither a jump, a call of compiled code nor a return.\<close>

definition straight :: "BcOp \<Rightarrow> bool" where
  "straight op \<longleftrightarrow>
     op \<notin> {BcJump, BcJumpIfFalse, BcJumpIfTrue, BcJumpIfFalseKeep, BcJumpIfTrueKeep, BcCallMethod, BcCallStatic,
           BcNewObject, BcReturn, BcReturnNull}"

lemma frames_swap [simp]: "vm_frames (exec_swap s) = vm_frames s"
  by (simp add: exec_swap_def Let_def)

lemma advances_short:
  "(\<And>i. advances 0 (f i)) \<Longrightarrow> advances 2 (with_u16 f)"
  "(\<And>i n. advances 0 (g i n)) \<Longrightarrow> advances 3 (with_u16_u8 g)"
  "(\<And>i j. advances 0 (p i j)) \<Longrightarrow> advances 4 (with_u16 (\<lambda>i. with_u16 (p i)))"
  "(\<And>n. advances 0 (q n)) \<Longrightarrow> advances (Suc 0) (vbind take_u8 q)"
  "advances 0 m \<Longrightarrow> (\<And>a. advances 0 (k a)) \<Longrightarrow> advances 0 (vbind m k)"
  using advances_with(1) [of 0 f] advances_with(2) [of 0 g] advances_with(1) [of 2 "\<lambda>i. with_u16 (p i)"]
    advances_with(1) [of 0 "p i" for i] advances_bind [OF advances_take(2), of 0 q] advances_bind [of 0 m 0 k]
  by simp_all

lemma advances_basic: "straight op \<Longrightarrow> advances (operand_size op) (exec_basic h op)"
  by (cases op) (simp_all add: straight_def exec_basic_def advances_short frame_intros)

section \<open>Steps\<close>

text \<open>The frames after a step: the running one has moved, has called another, or is gone.\<close>

definition frames_after :: "CallFrame list \<Rightarrow> CallFrame list \<Rightarrow> bool" where
  "frames_after old new \<longleftrightarrow>
     (\<exists>ip. let fr = (hd old)\<lparr>cf_ip := ip\<rparr> # tl old
           in new = fr \<or> (\<exists>callee. new = callee # fr \<and> cf_ip callee = 0)) \<or> (new = tl old \<and> new \<noteq> [])"

definition moves :: "'a vm \<Rightarrow> bool" where
  "moves m \<longleftrightarrow> (\<forall>s a s'. vm_frames s \<noteq> [] \<longrightarrow> m s = Inr (a, s') \<longrightarrow> frames_after (vm_frames s) (vm_frames s'))"

lemma frames_after_simps:
  "frames_after old ((hd old)\<lparr>cf_ip := ip\<rparr> # tl old)" "frames_after old (ahead k old)"
  "cf_ip callee = 0 \<Longrightarrow> old \<noteq> [] \<Longrightarrow> frames_after old (callee # old)"
  by (auto simp: frames_after_def ahead_def Let_def intro: exI [of _ "cf_ip (hd old)"])

lemma frames_after_ahead [simp]: "frames_after (ahead k old) new = frames_after old new"
  by (simp add: frames_after_def ahead_def)

lemma advancesD: "advances k m \<Longrightarrow> vm_frames s \<noteq> [] \<Longrightarrow> m s = Inr (a, s') \<Longrightarrow> vm_frames s' = ahead k (vm_frames s)"
  unfolding advances_def by blast

lemma movesD:
  "moves m \<Longrightarrow> vm_frames s \<noteq> [] \<Longrightarrow> m s = Inr (a, s') \<Longrightarrow> frames_after (vm_frames s) (vm_frames s')"
  unfolding moves_def by blast

lemma movesI:
  "(\<And>s a s'. vm_frames s \<noteq> [] \<Longrightarrow> m s = Inr (a, s') \<Longrightarrow> frames_after (vm_frames s) (vm_frames s')) \<Longrightarrow> moves m"
  unfolding moves_def by blast

lemma advances_moves:
  assumes "advances k m"
  shows "moves m"
proof (rule movesI)
  fix s a s'
  assume "vm_frames s \<noteq> []" and "m s = Inr (a, s')"
  from advancesD [OF assms this] show "frames_after (vm_frames s) (vm_frames s')"
    by (simp only: frames_after_simps)
qed

lemma moves_after:
  assumes "advances k m" and "\<And>a. moves (f a)"
  shows "moves (vbind m f)"
proof (rule movesI)
  fix s b s'
  assume ne: "vm_frames s \<noteq> []" and r: "vbind m f s = Inr (b, s')"
  from r obtain a s1 where a: "m s = Inr (a, s1)" "f a s1 = Inr (b, s')" by (auto simp: vbind_def rbind_Inr_iff)
  from advancesD [OF assms(1) ne a(1)] have s1: "vm_frames s1 = ahead k (vm_frames s)" .
  then have "vm_frames s1 \<noteq> []" by simp
  from movesD [OF assms(2) this a(2)] show "frames_after (vm_frames s) (vm_frames s')" by (simp only: s1 frames_after_ahead)
qed

lemma moves_same:
  assumes "\<And>s a s1. m s = Inr (a, s1) \<Longrightarrow> vm_frames s1 = vm_frames s" and "\<And>a. moves (f a)"
  shows "moves (\<lambda>s. rbind (m s) (\<lambda>(a, s1). f a s1))"
  using moves_after [OF advances_same [OF assms(1)] assms(2)] by (simp add: vbind_def [abs_def])

lemma moves_enter:
  assumes "vm_frames s = vm_frames s0" and "vm_frames s0 \<noteq> []"
  shows "frames_after (vm_frames s0) (vm_frames (enter_chunk ch this args s))"
  using assms by (simp add: enter_chunk_def Let_def frames_after_simps)

lemma frames_call_static: "call_static h c m args s = Inr (v, s') \<Longrightarrow> vm_frames s' = vm_frames s"
  by (auto simp: call_static_def split: if_splits)

lemma frames_call_method:
  assumes "call_method h b m args s = Inr (v, s')"
  shows "vm_frames s' = vm_frames s"
proof (cases "mutate_map b m args (vm_next s)")
  case None
  show ?thesis
  proof (cases b)
    case (MObject a fs)
    with None assms show ?thesis
      by (cases "map_of fs m"; cases "the (map_of fs m)")
         (auto simp: call_method_def vm_call_function_def vfail_def split: if_splits)
  qed (use None assms in \<open>auto simp: call_method_def rbind_Inr_iff split: option.splits\<close>)
qed (use assms in \<open>auto simp: call_method_def\<close>)

lemma same_frames: "vm_frames s' = vm_frames s \<Longrightarrow> vm_frames s \<noteq> [] \<Longrightarrow> frames_after (vm_frames s) (vm_frames s')"
  using frames_after_simps(2) [of "vm_frames s" 0] by simp

lemmas moves_args = moves_same [OF frames_args]

lemmas moves_pop = moves_same [OF frames_pop]

lemma moves_string: "(\<And>t. moves (f t)) \<Longrightarrow> moves (\<lambda>s. rbind (get_string_constant i s) (\<lambda>(t, s1). f t s1))"
  by (rule moves_same) (auto dest: frames_string)

lemma moves_static_call:
  "moves (\<lambda>s. case q s of Some ch \<Rightarrow> Inr ((), enter_chunk ch (this ch) args s)
     | None \<Rightarrow> rbind (call_static h c m args s) (\<lambda>(v, s4). Inr ((), vm_push v s4)))"
  by (auto simp: moves_def rbind_Inr_iff split: option.splits dest!: frames_call_static
      intro: moves_enter same_frames)

lemma moves_call_static: "moves (exec_call_static h c m n)"
  unfolding exec_call_static_def [abs_def] by (intro moves_args moves_string moves_static_call)

lemma moves_method_call:
  "moves (\<lambda>s. if p then vm_error e s else case q s of Some ch \<Rightarrow> Inr ((), enter_chunk ch this args s)
     | None \<Rightarrow> rbind (call_method h b m args s) (\<lambda>(v, s4). Inr ((), vm_push v s4)))"
  by (auto simp: moves_def rbind_Inr_iff vm_error_def split: option.splits if_splits dest!: frames_call_method
      intro: moves_enter same_frames)

lemma moves_call_method: "moves (exec_call_method h c n)"
  unfolding exec_call_method_def [abs_def] by (intro moves_args moves_pop moves_string moves_method_call)

lemma moves_create:
  fixes inits :: "CompiledClassInfo \<Rightarrow> (string \<times> MacroValue) list"
  shows "moves (\<lambda>s. if p then vm_error e s else if q then Inr ((), alloc mk s)
     else case g s of
       Some ci \<Rightarrow> (let fs = inits ci; obj = MObject (vm_next s) fs; s3 = s\<lparr>vm_next := vm_next s + 1\<rparr>
                  in case cc_constructor ci of
                       Some ch \<Rightarrow> Inr ((), enter_chunk ch [obj] args s3) | None \<Rightarrow> Inr ((), vm_push obj s3))
     | None \<Rightarrow> Inr ((), alloc mk2 s))"
proof (rule movesI)
  fix s a s'
  assume ne: "vm_frames s \<noteq> []"
    and r: "(if p then vm_error e s else if q then Inr ((), alloc mk s)
     else case g s of
       Some ci \<Rightarrow> (let fs = inits ci; obj = MObject (vm_next s) fs; s3 = s\<lparr>vm_next := vm_next s + 1\<rparr>
                  in case cc_constructor ci of
                       Some ch \<Rightarrow> Inr ((), enter_chunk ch [obj] args s3) | None \<Rightarrow> Inr ((), vm_push obj s3))
     | None \<Rightarrow> Inr ((), alloc mk2 s)) = Inr (a, s')"
  have enter: "frames_after (vm_frames s) (vm_frames (enter_chunk ch this args (s\<lparr>vm_next := vm_next s + 1\<rparr>)))" for ch this
    by (rule moves_enter) (use ne in simp_all)
  from r ne enter show "frames_after (vm_frames s) (vm_frames s')"
    by (auto simp: vm_error_def Let_def same_frames split: if_splits option.splits)
qed

lemma moves_new_object: "moves (exec_new_object c n)"
  unfolding exec_new_object_def [abs_def]
  by (intro moves_args moves_string moves_create)

lemma moves_jump: "moves (act (vm_jump off))"
  by (auto simp: moves_def act_def vm_jump_def set_ip_def frames_after_simps)

lemma moves_jump_if: "moves (jump_if p)"
proof -
  have "moves (\<lambda>s1. rbind (vm_pop s1) (\<lambda>(v, s2). Inr ((), if p v then vm_jump off s2 else s2)))" for off
    by (rule moves_pop) (auto simp: moves_def vm_jump_def set_ip_def frames_after_simps same_frames)
  from moves_after [OF advances_take(1) this] show ?thesis by (simp add: jump_if_def [abs_def] vbind_def [abs_def])
qed

lemma moves_jump_keep: "moves (jump_keep p)"
proof -
  have "moves (\<lambda>s1. Inr ((), if p (vm_peek s1) then vm_jump off s1 else s1))" for off
    by (auto simp: moves_def vm_jump_def set_ip_def frames_after_simps same_frames)
  from moves_after [OF advances_take(1) this] show ?thesis by (simp add: jump_keep_def [abs_def] vbind_def [abs_def])
qed

lemma moves_return: "moves (exec_return v)"
proof -
  have "frames_after (vm_frames s) (vm_frames s')" if "vm_frames s \<noteq> []" "exec_return v s = Inr (a, s')" for s a s'
  proof (cases "tl (vm_frames s)")
    case Nil
    with that have "s' = s" by (cases "vm_frames s") (auto simp: exec_return_def)
    with that same_frames show ?thesis by blast
  next
    case (Cons f fs)
    with that show ?thesis by (cases "vm_frames s") (auto simp: exec_return_def frames_after_def)
  qed
  then show ?thesis by (simp add: moves_def)
qed

lemma moves_basic: "moves (exec_basic h op)"
proof (cases "straight op")
  case True
  from advances_moves [OF advances_basic [OF this]] show ?thesis .
next
  case False
  note u8 = moves_after [OF advances_take(2)]
  note u16 = moves_after [OF advances_take(1)]
  from False show ?thesis
    by (cases op) (auto simp: straight_def exec_basic_def with_u16_def with_u16_u8_def moves_jump_if moves_jump_keep
        moves_jump moves_call_method moves_call_static moves_new_object advances_moves [OF advances_act]
        exec_binary_def advances_moves [OF advances_return]
        intro!: u8 u16 split: option.split)
qed

lemma moves_op: "moves (vm_exec_op h op)"
proof -
  have "moves (vbind vm_pop exec_return)"
    using moves_pop [where f = exec_return] moves_return by (simp add: vbind_def [abs_def])
  moreover have "moves (vbind (exec_basic h op) (\<lambda>_. vreturn None))"
  proof (rule movesI)
    fix s a s'
    assume "vm_frames s \<noteq> []" and "vbind (exec_basic h op) (\<lambda>_. vreturn None) s = Inr (a, s')"
    with movesD [OF moves_basic] show "frames_after (vm_frames s) (vm_frames s')"
      by (auto simp: vbind_def vreturn_def rbind_Inr_iff)
  qed
  ultimately show ?thesis using moves_return by (cases op) (simp_all add: vm_exec_op_def)
qed

end
