(* ===== verification/BcValues.thy ===== *)
theory BcValues
  imports BcExamples
begin

text \<open>
  Laws of the values of the macro machine: equality, the entries of maps, elements, and shared storage.
\<close>

section \<open>Equality\<close>

lemma fl_eq_sym: "fl_eq x y = fl_eq y x"
  by (cases x; cases y) (auto simp: Let_def min.commute)

lemma f64_eq_sym: "f64_eq a b = f64_eq b a"
  unfolding f64_eq_def by (rule fl_eq_sym)

lemma underlying_idem [simp]: "underlying (underlying v) = underlying v"
  by (induction v) auto

lemma underlying_no_abstract [simp]: "underlying v \<noteq> MAbstract n a x"
  by (induction v) auto

lemma macro_eq_right: "macro_eq v (underlying w) = macro_eq v w"
  by (induction v) auto

lemma macro_eq_left: "macro_eq (underlying v) w = macro_eq v w"
  by (induction v) auto

lemma macro_eq_swap:
  "macro_eq v w \<Longrightarrow> macro_eq w v"
  "macro_eqs vs ws \<Longrightarrow> macro_eqs ws vs"
proof (induction v w and vs ws rule: macro_eq_macro_eqs.induct)
  case (1 n a x w)
  then show ?case by (simp add: macro_eq_right [of w "MAbstract n a x", symmetric] macro_eq_right)
next
  case (2 a w)
  then show ?case by (cases "underlying w") (simp_all add: macro_eq_left [of w, symmetric])
next
  case (3 w)
  then show ?case by (simp add: macro_eq_left [of w, symmetric])
next
  case (4 a w)
  then show ?case by (cases "underlying w") (simp_all add: macro_eq_left [of w, symmetric])
next
  case (5 a w)
  then show ?case by (cases "underlying w") (simp_all add: macro_eq_left [of w, symmetric] f64_eq_sym)
next
  case (6 a w)
  then show ?case by (cases "underlying w") (simp_all add: macro_eq_left [of w, symmetric] f64_eq_sym)
next
  case (7 a w)
  then show ?case by (cases "underlying w") (simp_all add: macro_eq_left [of w, symmetric])
next
  case (8 a xs w)
  then show ?case by (cases "underlying w") (simp_all add: macro_eq_left [of w, symmetric])
next
  case (9 n1 v1 a xs w)
  then show ?case by (cases "underlying w") (simp_all add: macro_eq_left [of w, symmetric])
next
  case (17 x xs ys)
  then show ?case by (cases ys) auto
qed auto

lemma macro_eq_sym: "macro_eq v w = macro_eq w v"
  using macro_eq_swap by blast

lemma same_reference_sym: "same_reference v w = same_reference w v"
  by (cases v; cases w) (auto simp: same_reference_def)

section \<open>Maps\<close>

lemma map_get_insert: "map_key_eq k k \<Longrightarrow> map_get (insert_map_entry es k v) k = v"
  by (induction es k v rule: insert_map_entry.induct) (auto simp: map_get_def)

lemma map_get_insert_other:
  "(\<And>k'. k' \<in> insert k (fst ` set es) \<Longrightarrow> map_key_eq k' k \<Longrightarrow> \<not> map_key_eq k' k2) \<Longrightarrow>
   map_key_eq k k \<Longrightarrow> map_get (insert_map_entry es k v) k2 = map_get es k2"
  by (induction es k v rule: insert_map_entry.induct) (auto simp: map_get_def)

text \<open>No entry is hidden behind an earlier one.\<close>

definition distinct_entries :: "(MacroValue \<times> MacroValue) list \<Rightarrow> bool" where
  "distinct_entries es \<longleftrightarrow> sorted_wrt (\<lambda>(k1, _) (k2, _). \<not> map_key_eq k1 k2) es"

lemma set_insert_map_entry:
  "fst ` set (insert_map_entry es k v) \<subseteq> insert k (fst ` set es)"
  by (induction es k v rule: insert_map_entry.induct) auto

lemma distinct_insert: "distinct_entries es \<Longrightarrow> distinct_entries (insert_map_entry es k v)"
proof (induction es k v rule: insert_map_entry.induct)
  case (2 k' v' es k v)
  then have rest: "distinct_entries es" and above: "\<forall>x \<in> fst ` set es. \<not> map_key_eq k' x"
    by (auto simp: distinct_entries_def)
  show ?case
  proof (cases "map_key_eq k' k")
    case True
    with "2.prems" show ?thesis by (simp add: distinct_entries_def)
  next
    case False
    then have "\<forall>x \<in> fst ` set (insert_map_entry es k v). \<not> map_key_eq k' x"
      using above set_insert_map_entry [of es k v] by blast
    moreover have "distinct_entries (insert_map_entry es k v)" using 2 False rest by simp
    ultimately show ?thesis using False by (auto simp: distinct_entries_def)
  qed
qed (simp add: distinct_entries_def)

section \<open>Elements\<close>

lemma or_null_Some [simp]: "or_null (Some v) = v"
  by (simp add: or_null_def)

lemma length_set_element [simp]: "length (set_element i v vs) = max (length vs) (i + 1)"
  by (simp add: set_element_def)

lemma nth_set_element:
  "j < length (set_element i v vs) \<Longrightarrow>
   set_element i v vs ! j = (if j = i then v else if j < length vs then vs ! j else MNull)"
  by (auto simp: set_element_def nth_list_update nth_append)

lemma get_set_element:
  "or_null (nth_value j (set_element (unat i) v vs)) = (if j = i then v else or_null (nth_value j vs))"
proof (cases "unat j < max (length vs) (unat i + 1)")
  case True
  then show ?thesis
    by (auto simp: nth_value_def or_null_def nth_set_element word_unat_eq_iff)
next
  case False
  then show ?thesis by (auto simp: nth_value_def or_null_def)
qed

section \<open>Shared storage\<close>

lemma replace_reference_same: "same_reference v old \<Longrightarrow> replace_reference old new v u = (new, True, u)"
  by (simp add: replace_reference.simps)

lemma replace_reference_plain:
  "reference_key v = None \<Longrightarrow> \<not> same_reference v old \<Longrightarrow> fst (replace_reference old new v u) = v"
  by (cases v) (simp_all add: replace_reference.simps)

lemma replace_values_nth:
  "length (fst (replace_values old new vs u)) = length vs \<and>
   (\<forall>k < length vs. (same_reference (vs ! k) old \<longrightarrow> fst (replace_values old new vs u) ! k = new) \<and>
      (reference_key (vs ! k) = None \<longrightarrow> fst (replace_values old new vs u) ! k = vs ! k))"
proof (induction vs arbitrary: u)
  case (Cons v vs)
  obtain v' c1 u1 where v: "replace_reference old new v u = (v', c1, u1)" by (metis prod_cases3)
  obtain vs' c2 u2 where vs: "replace_values old new vs u1 = (vs', c2, u2)" by (metis prod_cases3)
  have "reference_key v = None \<Longrightarrow> \<not> same_reference v old"
    by (cases v; simp add: same_reference_def)
  with v have "same_reference v old \<longrightarrow> v' = new" "reference_key v = None \<longrightarrow> v' = v"
    using replace_reference_same [of v old new u] replace_reference_plain [of v old new u] by auto
  moreover from Cons.IH [of u1] have "length vs' = length vs"
    "\<forall>k < length vs. (same_reference (vs ! k) old \<longrightarrow> vs' ! k = new) \<and>
      (reference_key (vs ! k) = None \<longrightarrow> vs' ! k = vs ! k)"
    by (simp_all add: vs)
  ultimately show ?case by (simp add: v vs All_less_Suc2)
qed simp

section \<open>Division\<close>

lemma sint_word_of_int_in:
  assumes "- (2 ^ 63) \<le> i" and "i < 2 ^ 63"
  shows "sint (word_of_int i :: u64) = i"
  using assms by (simp add: int_word_sint mod_pos_pos_trivial)

lemma sint_bounds: "- (2 ^ 63) \<le> sint (x :: u64)" "sint (x :: u64) < 2 ^ 63"
  using sint_greater_eq [of x] sint_less [of x] by simp_all

lemma sint_minus_one: "sint (y :: u64) = - 1 \<longleftrightarrow> y = - 1"
  by (metis sint_n1 signed_word_eqI)

lemma sdiv_in:
  fixes x y :: u64
  assumes "y \<noteq> 0" and "\<not> (y = - 1 \<and> sint x = - (2 ^ 63))"
  shows "- (2 ^ 63) \<le> sint x sdiv sint y" and "sint x sdiv sint y < 2 ^ 63"
proof -
  have range: "\<bar>sint x sdiv sint y\<bar> \<le> \<bar>sint x\<bar>" using sdiv_int_range [of "sint x" "sint y"] by auto
  show "- (2 ^ 63) \<le> sint x sdiv sint y" using range sint_bounds [of x] by auto
  show "sint x sdiv sint y < 2 ^ 63"
  proof (cases "sint x = - (2 ^ 63)")
    case True
    with assms(2) have "sint x sdiv sint y \<noteq> - sint x"
      using int_sdiv_negated_is_minus1 [of "sint x" "sint y"] sint_minus_one [of y] by simp
    with range True show ?thesis by auto
  next
    case False
    with range sint_bounds [of x] show ?thesis by auto
  qed
qed

end
