(* ===== verification/BcShare.thy ===== *)
theory BcShare
  imports BcMachine BcValues
begin

text \<open>
  What replacing a storage means: \<open>replace_reference\<close> walks a value with a table of the storages it
  has copied, so that a storage reached twice is copied once. \<open>subst_value\<close> says what it is for:
  the new value stands wherever the old storage stood, at any depth. The two agree but for the
  numbers of the copied storages (\<open>strip\<close>), where a storage has the same contents wherever it is
  held (\<open>one_storage\<close>).
\<close>

section \<open>Substitution of a storage\<close>

primrec subst_value :: "MacroValue \<Rightarrow> MacroValue \<Rightarrow> MacroValue \<Rightarrow> MacroValue" where
  "subst_value old new MNull = MNull"
| "subst_value old new (MAbstract s a v) =
     (if same_reference (MAbstract s a v) old then new else MAbstract s a (subst_value old new v))"
| "subst_value old new (MBool b) = MBool b"
| "subst_value old new (MInt i) = MInt i"
| "subst_value old new (MFloat x) = MFloat x"
| "subst_value old new (MString s) = MString s"
| "subst_value old new (MArray a vs) =
     (if same_reference (MArray a vs) old then new else MArray a (map (subst_value old new) vs))"
| "subst_value old new (MMap a es) =
     (if same_reference (MMap a es) old then new
      else MMap a (map (map_prod (subst_value old new) (subst_value old new)) es))"
| "subst_value old new (MObject a fs) =
     (if same_reference (MObject a fs) old then new
      else MObject a (map (map_prod id (subst_value old new)) fs))"
| "subst_value old new (MEnum s t a vs) =
     (if same_reference (MEnum s t a vs) old then new else MEnum s t a (map (subst_value old new) vs))"
| "subst_value old new (MExpr a e) = (if same_reference (MExpr a e) old then new else MExpr a e)"
| "subst_value old new (MType t) = MType t"
| "subst_value old new (MClass c) = MClass c"
| "subst_value old new (MFunction a s) =
     (if same_reference (MFunction a s) old then new else MFunction a s)"
| "subst_value old new (MPosition p) = MPosition p"

text \<open>A value without the numbers of its storages, and all values inside a value.\<close>

primrec strip :: "MacroValue \<Rightarrow> MacroValue" where
  "strip MNull = MNull"
| "strip (MAbstract s a v) = MAbstract s 0 (strip v)"
| "strip (MBool b) = MBool b"
| "strip (MInt i) = MInt i"
| "strip (MFloat x) = MFloat x"
| "strip (MString s) = MString s"
| "strip (MArray a vs) = MArray 0 (map strip vs)"
| "strip (MMap a es) = MMap 0 (map (map_prod strip strip) es)"
| "strip (MObject a fs) = MObject 0 (map (map_prod id strip) fs)"
| "strip (MEnum s t a vs) = MEnum s t 0 (map strip vs)"
| "strip (MExpr a e) = MExpr 0 e"
| "strip (MType t) = MType t"
| "strip (MClass c) = MClass c"
| "strip (MFunction a s) = MFunction 0 s"
| "strip (MPosition p) = MPosition p"

primrec parts :: "MacroValue \<Rightarrow> MacroValue list" where
  "parts MNull = [MNull]"
| "parts (MAbstract s a v) = MAbstract s a v # parts v"
| "parts (MBool b) = [MBool b]"
| "parts (MInt i) = [MInt i]"
| "parts (MFloat x) = [MFloat x]"
| "parts (MString s) = [MString s]"
| "parts (MArray a vs) = MArray a vs # concat (map parts vs)"
| "parts (MMap a es) = MMap a es # concat (map (\<lambda>(x, y). x @ y) (map (map_prod parts parts) es))"
| "parts (MObject a fs) = MObject a fs # concat (map snd (map (map_prod id parts) fs))"
| "parts (MEnum s t a vs) = MEnum s t a vs # concat (map parts vs)"
| "parts (MExpr a e) = [MExpr a e]"
| "parts (MType t) = [MType t]"
| "parts (MClass c) = [MClass c]"
| "parts (MFunction a s) = [MFunction a s]"
| "parts (MPosition p) = [MPosition p]"

definition one_storage :: "MacroValue list \<Rightarrow> bool" where
  "one_storage vs \<longleftrightarrow>
     list_all (\<lambda>v. list_all (\<lambda>w. reference_key v = None \<or> reference_key v \<noteq> reference_key w \<or> v = w) vs) vs"

lemma one_storageD:
  "one_storage U \<Longrightarrow> v \<in> set U \<Longrightarrow> w \<in> set U \<Longrightarrow> reference_key v = Some k \<Longrightarrow> reference_key w = Some k \<Longrightarrow> v = w"
  unfolding one_storage_def list_all_iff by (metis option.distinct(1))

lemma part_self: "v \<in> set (parts v)"
  by (cases v) simp_all

section \<open>The walk with a table\<close>

definition table_ok ::
  "MacroValue \<Rightarrow> MacroValue \<Rightarrow> MacroValue list \<Rightarrow> ((nat \<times> nat) \<times> MacroValue \<times> bool) list \<Rightarrow> bool" where
  "table_ok old new U us \<longleftrightarrow>
     (\<forall>k w c v. map_of us k = Some (w, c) \<longrightarrow> v \<in> set U \<longrightarrow> reference_key v = Some k \<longrightarrow>
        strip (if c then w else v) = strip (subst_value old new v))"

definition value_ok ::
  "MacroValue \<Rightarrow> MacroValue \<Rightarrow> MacroValue list \<Rightarrow> MacroValue \<Rightarrow> MacroValue \<times> bool \<times> Updates \<Rightarrow> bool" where
  "value_ok old new U v r \<longleftrightarrow>
     (case r of (v', c, u') \<Rightarrow>
        table_ok old new U (fst u') \<and> strip v' = strip (subst_value old new v) \<and> (c \<or> v' = v))"

definition list_ok ::
  "MacroValue \<Rightarrow> MacroValue \<Rightarrow> MacroValue list \<Rightarrow> ('a \<Rightarrow> 'b) \<Rightarrow> ('a \<Rightarrow> 'b) \<Rightarrow> 'a list \<Rightarrow>
     'a list \<times> bool \<times> Updates \<Rightarrow> bool" where
  "list_ok old new U f g xs r \<longleftrightarrow>
     (case r of (xs', c, u') \<Rightarrow>
        table_ok old new U (fst u') \<and> map f xs' = map g xs \<and> (c \<or> xs' = xs))"

lemma visit_once_ok:
  assumes "table_ok old new U (fst u)" and "one_storage U" and "v \<in> set U"
    and "reference_key v = Some k" and "value_ok old new U v (f u)"
  shows "value_ok old new U v (visit_once v f u)"
proof (cases "map_of (fst u) k")
  case None
  obtain w c u' where f: "f u = (w, c, u')" by (metis prod_cases3)
  with assms(5) have ok: "table_ok old new U (fst u')" "strip w = strip (subst_value old new v)" "c \<or> w = v"
    by (simp_all add: value_ok_def)
  have "table_ok old new U ((k, w, c) # fst u')"
    unfolding table_ok_def
  proof (intro allI impI)
    fix k' w' c' v'
    assume m: "map_of ((k, w, c) # fst u') k' = Some (w', c')" and v': "v' \<in> set U" "reference_key v' = Some k'"
    show "strip (if c' then w' else v') = strip (subst_value old new v')"
    proof (cases "k' = k")
      case True
      then have "v' = v" using one_storageD [OF assms(2) v'(1) assms(3)] v'(2) assms(4) by simp
      with m True ok show ?thesis by auto
    next
      case False
      with m have "map_of (fst u') k' = Some (w', c')" by simp
      with ok(1) v' show ?thesis unfolding table_ok_def by blast
    qed
  qed
  with None f ok assms(4) show ?thesis by (simp add: visit_once_def value_ok_def)
next
  case (Some wc)
  then obtain w c where "map_of (fst u) k = Some (w, c)" by (cases wc) auto
  moreover from this have "strip (if c then w else v) = strip (subst_value old new v)"
    using assms(1,3,4) unfolding table_ok_def by blast
  ultimately show ?thesis using assms(1,4) by (auto simp: visit_once_def value_ok_def)
qed

lemma rebuild_ok:
  assumes "list_ok old new U f g xs r" and "v = mk a xs"
    and "\<And>n ys. map f ys = map g xs \<Longrightarrow> strip (mk n ys) = strip (subst_value old new v)"
  shows "value_ok old new U v (rebuild v mk r)"
proof -
  obtain xs' c us n where r: "r = (xs', c, us, n)" by (metis prod_cases4)
  with assms(1) have ok: "table_ok old new U us" "map f xs' = map g xs" "c \<or> xs' = xs"
    by (simp_all add: list_ok_def)
  have "strip v = strip (subst_value old new v)" if "\<not> c"
    using assms(3) [of xs' a] ok that by (simp add: assms(2))
  with ok assms(3) show ?thesis by (simp add: r rebuild_def value_ok_def)
qed

lemma replace_walk:
  shows "one_storage U \<Longrightarrow> set (parts v) \<subseteq> set U \<Longrightarrow> table_ok old new U (fst u) \<Longrightarrow>
      value_ok old new U v (replace_reference old new v u)"
    and "one_storage U \<Longrightarrow> (\<forall>v \<in> set vs. set (parts v) \<subseteq> set U) \<Longrightarrow> table_ok old new U (fst u) \<Longrightarrow>
      list_ok old new U strip (strip \<circ> subst_value old new) vs (replace_values old new vs u)"
    and "one_storage U \<Longrightarrow> (\<forall>(s, v) \<in> set fs. set (parts v) \<subseteq> set U) \<Longrightarrow> table_ok old new U (fst u) \<Longrightarrow>
      list_ok old new U (map_prod id strip) (map_prod id (strip \<circ> subst_value old new)) fs
        (replace_fields old new fs u)"
    and "one_storage U \<Longrightarrow> (\<forall>(k, v) \<in> set es. set (parts k) \<union> set (parts v) \<subseteq> set U) \<Longrightarrow>
      table_ok old new U (fst u) \<Longrightarrow>
      list_ok old new U (map_prod strip strip) (map_prod (strip \<circ> subst_value old new) (strip \<circ> subst_value old new))
        es (replace_entries old new es u)"
proof (induction old new v u and old new vs u and old new fs u and old new es u
    rule: replace_reference_replace_values_replace_fields_replace_entries.induct)
  case (1 old new v u)
  have vU: "v \<in> set U" using 1(7) part_self by blast
  show ?case
  proof (cases "same_reference v old")
    case True
    then have "subst_value old new v = new" by (cases v) (simp_all add: same_reference_def)
    with True 1(8) show ?thesis by (simp add: replace_reference.simps value_ok_def)
  next
    case False
    note U = 1(6) and vU' = 1(7) and tab = 1(8)
    have go: "value_ok old new U v (case v of
        MAbstract s a inner \<Rightarrow> rebuild v (MAbstract s) (replace_reference old new inner u)
      | MObject a fs \<Rightarrow> visit_once v (\<lambda>u. rebuild v MObject (replace_fields old new fs u)) u
      | MArray a vs \<Rightarrow> visit_once v (\<lambda>u. rebuild v MArray (replace_values old new vs u)) u
      | MEnum s t a vs \<Rightarrow> visit_once v (\<lambda>u. rebuild v (MEnum s t) (replace_values old new vs u)) u
      | MMap a es \<Rightarrow> visit_once v (\<lambda>u. rebuild v MMap (replace_entries old new es u)) u
      | _ \<Rightarrow> (v, False, u))"
    proof (cases v)
      case (MAbstract s a w)
      have "value_ok old new U w (replace_reference old new w u)"
        by (rule 1(1) [OF False MAbstract]) (use U vU' tab MAbstract in auto)
      then show ?thesis using MAbstract False
        by (auto simp: value_ok_def rebuild_def split: prod.splits)
    next
      case (MArray a vs)
      have "list_ok old new U strip (strip \<circ> subst_value old new) vs (replace_values old new vs u)"
        by (rule 1(2) [OF False MArray]) (use U vU' tab MArray in auto)
      then have "value_ok old new U v (rebuild v MArray (replace_values old new vs u))"
        by (rule rebuild_ok [where a = a]) (use False MArray in simp_all)
      with visit_once_ok [OF tab U vU, of "(1, a)" "\<lambda>u. rebuild v MArray (replace_values old new vs u)"] MArray
      show ?thesis by simp
    next
      case (MEnum s t a vs)
      have "list_ok old new U strip (strip \<circ> subst_value old new) vs (replace_values old new vs u)"
        by (rule 1(5) [OF False MEnum]) (use U vU' tab MEnum in auto)
      then have "value_ok old new U v (rebuild v (MEnum s t) (replace_values old new vs u))"
        by (rule rebuild_ok [where a = a]) (use False MEnum in simp_all)
      with visit_once_ok [OF tab U vU, of "(2, a)" "\<lambda>u. rebuild v (MEnum s t) (replace_values old new vs u)"] MEnum
      show ?thesis by simp
    next
      case (MObject a fs)
      have "list_ok old new U (map_prod id strip) (map_prod id (strip \<circ> subst_value old new)) fs
          (replace_fields old new fs u)"
        by (rule 1(4) [OF False MObject]) (use U vU' tab MObject in \<open>fastforce+\<close>)
      then have "value_ok old new U v (rebuild v MObject (replace_fields old new fs u))"
        by (rule rebuild_ok [where a = a]) (use False MObject in \<open>auto simp: map_prod_def split: prod.splits\<close>)
      with visit_once_ok [OF tab U vU, of "(0, a)" "\<lambda>u. rebuild v MObject (replace_fields old new fs u)"] MObject
      show ?thesis by simp
    next
      case (MMap a es)
      have "list_ok old new U (map_prod strip strip)
          (map_prod (strip \<circ> subst_value old new) (strip \<circ> subst_value old new)) es
          (replace_entries old new es u)"
        by (rule 1(3) [OF False MMap]) (use U vU' tab MMap in \<open>fastforce+\<close>)
      then have "value_ok old new U v (rebuild v MMap (replace_entries old new es u))"
        by (rule rebuild_ok [where a = a]) (use False MMap in \<open>auto simp: map_prod_def split: prod.splits\<close>)
      with visit_once_ok [OF tab U vU, of "(3, a)" "\<lambda>u. rebuild v MMap (replace_entries old new es u)"] MMap
      show ?thesis by simp
    qed (use False tab in \<open>simp_all add: value_ok_def\<close>)
    then show ?thesis using False by (simp add: replace_reference.simps [of old new v u])
  qed
next
  case (2 old new u)
  then show ?case by (simp add: list_ok_def)
next
  case (3 old new v vs u)
  then show ?case by (auto simp: list_ok_def value_ok_def split: prod.splits)
next
  case (4 old new u)
  then show ?case by (simp add: list_ok_def)
next
  case (5 old new s v fs u)
  then show ?case by (auto simp: list_ok_def value_ok_def split: prod.splits)
next
  case (6 old new u)
  then show ?case by (simp add: list_ok_def)
next
  case (7 old new k v es u)
  then show ?case by (auto simp: list_ok_def value_ok_def split: prod.splits)
qed

lemma replace_values_subst:
  assumes "one_storage (concat (map parts vs))" and "replace_values old new vs ([], n) = (vs', c, u')"
  shows "map strip vs' = map (strip \<circ> subst_value old new) vs"
  using replace_walk(2) [OF assms(1), of vs old new "([], n)"] assms(2)
  by (auto simp: list_ok_def table_ok_def)

section \<open>Assigning an element\<close>

lemma set_index_key:
  assumes "set_index base i v n = Inr (base', n')" and "reference_key base = Some (k, a)" and "a < n"
  shows "\<not> same_reference base base'"
  using assms by (cases base; cases i) (auto simp: set_index_def same_reference_def split: if_splits)

lemma set_index_run:
  assumes "vm_stack s = st @ [base, index, v]"
    and "set_index base index v (vm_next s) = Inr (base', n)"
    and "reference_key base = Some (k, a)" and "a < vm_next s"
    and "one_storage (concat (map parts st))"
  shows "\<exists>s' st'. exec_set_index s = Inr ((), s') \<and> vm_stack s' = st' @ [v] \<and>
     map strip st' = map (strip \<circ> subst_value base base') st \<and>
     (\<forall>j < length st. same_reference (st ! j) base \<longrightarrow> st' ! j = base')"
proof -
  obtain st' c us m where r: "replace_values base base' st ([], n) = (st', c, us, m)"
    by (metis prod_cases4)
  note nth = replace_values_nth [of base base' st "([], n)", unfolded r]
  have "\<not> same_reference base base'" by (rule set_index_key [OF assms(2,3,4)])
  then show ?thesis
    using assms(1-3) r nth replace_values_subst [OF assms(5) r]
    by (simp add: exec_set_index_def vm_pop_def replace_references_def vm_push_def butlast_append)
qed

end
