(* ===== verification/BcProperties.thy ===== *)
theory BcProperties
  imports BcFrames BcValues BcShare
begin

text \<open>
  The properties of the macro bytecode: its encoding, the pools and tables of a chunk, the values and
  operators of the virtual machine, and the compiler, each with a witness where it has hypotheses.
\<close>

section \<open>The compiler and the machine\<close>

text \<open>
  C25. A compiled function computes what the structured semantics of its body gives: with enough
  budget the machine, in whatever state it was left, returns the value and nothing else. The body may
  use variables, operators, conditions, loops, blocks, arrays, fields and returns; the bounds are
  those of 16-bit jumps and slots.
\<close>

theorem compiled_function_computes:
  assumes "compile f params body = Inr ch" and "plain body" and "length params \<le> 32767"
    and "length (ch_code ch) \<le> 32768" and "run_function h n params body args (vm_next s) = Some v"
  shows "\<exists>k s'. \<forall>m \<ge> k. vm_execute h m ch args s = Inr (v, s')"
  by (rule compiled_runs [OF assms])

theorem compiled_function_computes_witness:
  "\<exists>k s'. \<forall>m \<ge> k. vm_execute example_host m sum_chunk [MInt 3] new_vm = Inr (MInt 6, s')"
  by (rule compiled_function_computes [OF sum_compiles sum_plain _ sum_short sum_runs]) simp

text \<open>
  The budget only decides whether a run is stopped: a run that gave a result, or failed with
  anything but the budget, does the same with every larger budget.
\<close>

lemma budget_irrelevant:
  assumes "vm_execute h n ch args s = r" and "r \<noteq> Inl budget_error" and "n \<le> m"
  shows "vm_execute h m ch args s = r"
proof -
  have "vm_run h (n + k) s0 = r" if "vm_run h n s0 = r" for k s0
    using that
  proof (induction n arbitrary: s0)
    case 0
    with assms(2) show ?case by simp
  next
    case (Suc n)
    then show ?case by (cases "vm_step h s0") (auto split: option.splits prod.splits)
  qed
  from this [of "initial_vm ch args s" "m - n"] assms show ?thesis by (simp add: vm_execute_def)
qed

text \<open>
  A program: \<open>continue\<close> in a \<open>for\<close> loop jumps to the condition and passes over the increment: a loop over one
  element whose body is \<open>continue\<close> runs into every budget.
\<close>

lemma continue_in_for_never_ends:
  "compile ''f'' [] skipping_loop = Inr skipping_chunk \<and>
   vm_execute example_host n skipping_chunk [] new_vm = Inl budget_error"
  unfolding vm_execute_def using skipping_compiles lasso_runs_out [OF skipping_lasso] by blast

section \<open>The encoding and the steps\<close>

text \<open>
  C28. The offset written into a forward jump leads exactly to the end of the code exactly where fewer than
  2^15 bytes were emitted since; beyond that the 16 bits are cut off without an error.
\<close>

theorem patched_jump_lands_iff:
  assumes "emit_jump op c = (p, c1)" and "length (c1 @ d) < 2 ^ 63"
  shows "\<exists>c2 off. patch_jump p (c1 @ d) = Some c2 \<and> length c2 = length (c1 @ d) \<and>
    fetch_u16 c2 p = Some off \<and> (add_offset (p + 2) off = length c2 \<longleftrightarrow> length d < 2 ^ 15)"
proof -
  from assms(1) have p: "p = length c + 1" "length c1 = length c + 3"
    by (auto simp: emit_jump_def)
  let ?c = "c1 @ d" and ?off = "jump_offset (length (c1 @ d)) (p + 2)"
  have "patch_jump p ?c = Some (patch_bytes p (u16_le ?off) ?c)" using p by (simp add: patch_jump_def)
  moreover have "fetch_u16 (patch_bytes p (u16_le ?off) ?c) p = Some ?off"
    using p by (intro fetch_u16_patch_bytes) simp
  moreover have "add_offset (p + 2) ?off = length ?c \<longleftrightarrow> length d < 2 ^ 15"
    using jump_offset_exact [of "p + 2" "length ?c"] assms(2) p by simp
  moreover have "length (patch_bytes p (u16_le ?off) ?c) = length ?c" using p by simp
  ultimately show ?thesis by metis
qed

theorem patched_jump_lands_iff_witness:
  "\<exists>c2 off. patch_jump 1 ([op_byte BcJump, 0, 0] @ [op_byte BcPop]) = Some c2 \<and>
     length c2 = length ([op_byte BcJump, 0, 0] @ [op_byte BcPop]) \<and> fetch_u16 c2 1 = Some off \<and>
     (add_offset (1 + 2) off = length c2 \<longleftrightarrow> length [op_byte BcPop] < 2 ^ 15)"
  by (rule patched_jump_lands_iff [of BcJump "[]"]) (simp_all add: emit_jump_def u16_le_def)

text \<open>
  C29. What the emitters write, the readers take apart: the operation, then the operands in their order
  and width, for every shape of operation, jumps forward and back included.
\<close>

theorem emitted_operation_reads_back:
  "reads_back op [] c (emit_op op c) \<and>
   reads_back op [OpU8 n] c (emit_u8 op n c) \<and>
   reads_back op [OpU16 a] c (emit_u16 op a c) \<and>
   reads_back op [OpI16 a] c (emit_i16 op a c) \<and>
   reads_back op [OpU16 a, OpU8 n] c (emit_u16_u8 op a n c) \<and>
   reads_back op [OpU16 a, OpU16 b] c (emit_u16_u16 op a b c) \<and>
   reads_back op [OpU16 a, OpU16 b, OpU8 n] c (emit_u16_u16_u8 op a b n c) \<and>
   reads_back op [OpI16 0] c (snd (emit_jump op c)) \<and>
   reads_back op [OpI16 (jump_offset target (length c + 3))] c (emit_loop op target c)"
  using of_u16_le_zero
  by (simp add: reads_back_def emit_defs read_op_def read_u16_def read_i16_def read_u8_def fetch_u16_def
      fetch_u8_def u16_le_def nth_append)

text \<open>
  C30. The machine moves past as many bytes of operands as the opcode table states, for every operation that
  neither jumps, calls compiled code nor returns.
\<close>

theorem operand_sizes_agree:
  assumes "vm_frames s = fr # frs" and "cf_ip fr < length (ch_code (cf_chunk fr))"
    and "from_byte (ch_code (cf_chunk fr) ! cf_ip fr) = Some op" and "straight op" and "vm_step h s = Inr (r, s')"
  shows "vm_frames s' = fr\<lparr>cf_ip := cf_ip fr + 1 + operand_size op\<rparr> # frs \<and> r = None"
proof -
  let ?s = "set_ip (cf_ip fr + 1) s"
  have op: "op \<noteq> BcReturn" "op \<noteq> BcReturnNull" using assms(4) by (auto simp: straight_def)
  have f: "vm_frames ?s = fr\<lparr>cf_ip := cf_ip fr + 1\<rparr> # frs" using assms(1) by (simp add: set_ip_def)
  have "vm_exec_op h op ?s = Inr (r, s')" using assms by (simp add: vm_step_def Let_def)
  moreover have "vm_exec_op h op = vbind (exec_basic h op) (\<lambda>_. vreturn None)"
    using op by (cases op) (simp_all add: vm_exec_op_def)
  ultimately obtain u where "exec_basic h op ?s = Inr (u, s')" "r = None"
    by (auto simp: vbind_def vreturn_def rbind_Inr_iff)
  with advancesD [OF advances_basic [OF assms(4)] _ this(1)] f show ?thesis by (simp add: ahead_def)
qed

theorem operand_sizes_agree_witness:
  "vm_frames (set_ip 3 (load_state\<lparr>vm_stack := [MInt 5, MInt 5]\<rparr>)) =
     [\<lparr>cf_chunk = with_code [0x07, 0x00, 0x00, 0x3D] (new_chunk ''f''), cf_ip = 0, cf_bp = 0\<rparr>
        \<lparr>cf_ip := 0 + 1 + operand_size BcLoadLocal\<rparr>] \<and> (None :: MacroValue option) = None"
  using operand_sizes_agree [OF load_frames _ _ _ load_steps, of BcLoadLocal]
  by (simp add: straight_def from_byte_def byte_ops_def)

text \<open>
  C31. A step moves the running frame, puts one frame above it, or takes it away; the frames below are never
  touched, and the machine never runs without a frame.
\<close>

theorem step_frames:
  assumes "vm_frames s \<noteq> []" and "vm_step h s = Inr (r, s')"
  shows "frames_after (vm_frames s) (vm_frames s') \<and> vm_frames s' \<noteq> []"
proof -
  let ?fr = "top_frame s"
  have "frames_after (vm_frames s) (vm_frames s')"
  proof (cases "length (ch_code (cf_chunk ?fr)) \<le> cf_ip ?fr")
    case True
    with assms show ?thesis by (auto simp: vm_step_def Let_def intro: same_frames)
  next
    case False
    with assms(2) obtain op where op: "vm_exec_op h op (set_ip (cf_ip ?fr + 1) s) = Inr (r, s')"
      by (auto simp: vm_step_def Let_def split: option.splits)
    have f: "vm_frames (set_ip (cf_ip ?fr + 1) s) = ahead 1 (vm_frames s)" by (simp add: set_ip_def ahead_def)
    from movesD [OF moves_op _ op] f show ?thesis by simp
  qed
  then show ?thesis using assms(1) by (auto simp: frames_after_def Let_def)
qed

theorem step_frames_witness:
  "frames_after (vm_frames load_state) (vm_frames (set_ip 3 (load_state\<lparr>vm_stack := [MInt 5, MInt 5]\<rparr>))) \<and>
   vm_frames (set_ip 3 (load_state\<lparr>vm_stack := [MInt 5, MInt 5]\<rparr>)) \<noteq> []"
  by (rule step_frames [OF _ load_steps]) (simp add: load_frames)

section \<open>Values\<close>

text \<open>
  C32. An element assignment (\<open>SetIndex\<close>) is seen by every value of the stack that holds the array, map or
  object, at any depth: the values below the operands, variables of all frames included, become what
  they are with the new contents in every place of the old storage, but for the numbers of the
  storages copied on the way; a slot that is the old storage itself becomes the very storage that was
  written. An assignment to a field (\<open>SetField\<close>) is not: it leaves the other holders alone.
\<close>

theorem write_seen_by_aliases:
  assumes "vm_stack s = st @ [base, index, v]"
    and "set_index base index v (vm_next s) = Inr (base', n)"
    and "reference_key base = Some (k, a)" and "a < vm_next s"
    and "one_storage (concat (map parts st))"
  shows "\<exists>s' st'. exec_set_index s = Inr ((), s') \<and> vm_stack s' = st' @ [v] \<and>
     map strip st' = map (strip \<circ> subst_value base base') st \<and>
     (\<forall>j < length st. same_reference (st ! j) base \<longrightarrow> st' ! j = base')"
  by (rule set_index_run [OF assms])

theorem write_seen_by_aliases_witness:
  "let old = MArray 0 [MInt 1];
       s = new_vm\<lparr>vm_stack := [MObject 1 [(''f'', old)], MNull, old] @ [old, MInt 0, MInt 7], vm_next := 2\<rparr>
   in \<exists>s' st'. exec_set_index s = Inr ((), s') \<and> vm_stack s' = st' @ [MInt 7] \<and>
        map strip st' = [MObject 0 [(''f'', MArray 0 [MInt 7])], MNull, MArray 0 [MInt 7]]"
proof -
  let ?old = "MArray 0 [MInt 1]"
  let ?st = "[MObject 1 [(''f'', ?old)], MNull, ?old]"
  let ?s = "new_vm\<lparr>vm_stack := ?st @ [?old, MInt 0, MInt 7], vm_next := 2\<rparr>"
  have "set_index ?old (MInt 0) (MInt 7) (vm_next ?s) = Inr (MArray 2 [MInt 7], 3)"
    by (simp add: set_index_def max_elements_def set_element_def)
  from write_seen_by_aliases [of ?s ?st ?old "MInt 0" "MInt 7", OF _ this, of 1 0] show ?thesis
    by (auto simp: one_storage_def same_reference_def)
qed

text \<open>A field written through one variable, seen from another that holds the same object.\<close>

definition two_holders :: MacroVm where
  "two_holders = new_vm\<lparr>vm_stack := [MObject 1 [], MObject 1 [], MInt 5], vm_next := 2,
     vm_frames := [\<lparr>cf_chunk = with_constants [MString ''x''] (new_chunk ''f''), cf_ip = 0, cf_bp = 0\<rparr>]\<rparr>"

lemma field_write_unshared:
  "map_sum id (vm_stack \<circ> snd) (exec_set_field_local 0 0 two_holders) =
     Inr [MObject 2 [(''x'', MInt 5)], MObject 1 [], MInt 5]"
  by code_simp

text \<open>
  C33. An element that was set is read back, the storage is a fresh one of the same kind, and the other elements
  and fields stay; reading past the end gives null before and after.
\<close>

theorem element_read_back:
  assumes "set_index base i v n = Inr (base', n')" and "map_key_eq i i"
  shows "get_index base' i = Inr v \<and> n' = n + 1 \<and> reference_key base' = map_option (\<lambda>(k, _). (k, n)) (reference_key base) \<and>
    (\<forall>j w. base' = MArray n w \<and> MInt j \<noteq> i \<longrightarrow> get_index base' (MInt j) = get_index base (MInt j)) \<and>
    (\<forall>j w. base' = MObject n w \<and> MString j \<noteq> i \<longrightarrow> get_index base' (MString j) = get_index base (MString j))"
  using assms
  by (cases base; cases i)
     (auto simp: set_index_def get_index_def get_set_element map_get_insert bt_simps split: if_splits)

theorem element_read_back_witness:
  "get_index (MArray 5 [MInt 1, MNull, MInt 9]) (MInt 2) = Inr (MInt 9) \<and> (6 :: nat) = 5 + 1 \<and>
   reference_key (MArray 5 [MInt 1, MNull, MInt 9]) = map_option (\<lambda>(k, _). (k, 5)) (reference_key (MArray 0 [MInt 1]))"
proof -
  have set: "set_index (MArray 0 [MInt 1]) (MInt 2) (MInt 9) 5 = Inr (MArray 5 [MInt 1, MNull, MInt 9], 6)"
    by code_simp
  have key: "map_key_eq (MInt 2) (MInt 2)" by (simp add: map_key_eq_def)
  from element_read_back [OF set key] show ?thesis by blast
qed

text \<open>
  C34. An entry put into a map is found under its key, hides no other entry, and keys that no entry confuses with
  it are not affected. A key has to equal itself, which a NaN does not.
\<close>

theorem map_entry_found:
  assumes "map_key_eq k k" and "distinct_entries es"
  shows "map_get (insert_map_entry es k v) k = v \<and> distinct_entries (insert_map_entry es k v) \<and>
    (\<forall>k2. (\<forall>k' \<in> insert k (fst ` set es). map_key_eq k' k \<longrightarrow> \<not> map_key_eq k' k2) \<longrightarrow>
       map_get (insert_map_entry es k v) k2 = map_get es k2)"
  using map_get_insert [OF assms(1)] distinct_insert [OF assms(2)] map_get_insert_other [OF _ assms(1)]
  by blast

theorem map_entry_found_witness:
  "map_get (insert_map_entry [(MString ''x'', MInt 1)] (MString ''y'') (MInt 2)) (MString ''y'') = MInt 2 \<and>
   distinct_entries (insert_map_entry [(MString ''x'', MInt 1)] (MString ''y'') (MInt 2))"
proof -
  have key: "map_key_eq (MString ''y'') (MString ''y'')" by (simp add: map_key_eq_def)
  have entries: "distinct_entries [(MString ''x'', MInt 1)]" by (simp add: distinct_entries_def)
  from map_entry_found [OF key entries, of "MInt 2"] show ?thesis by blast
qed

text \<open>
  C35. Division and remainder of integers are those of the integers, rounded towards zero, wherever they give a
  value; a zero divisor is an error of the macro, and the least integer by -1 a panic of the compiler.
\<close>

theorem integer_division_exact:
  "(vm_div (MInt x) (MInt y) = Inl (vm_err ''division by zero'') \<longleftrightarrow> y = 0) \<and>
   (vm_div (MInt x) (MInt y) = Inl VmPanic \<longleftrightarrow> y = - 1 \<and> sint x = - (2 ^ 63)) \<and>
   ((\<exists>q r. vm_div (MInt x) (MInt y) = Inr (MInt q) \<and> vm_mod (MInt x) (MInt y) = Inr (MInt r) \<and>
       sint x = sint q * sint y + sint r \<and> \<bar>sint r\<bar> < \<bar>sint y\<bar> \<and> 0 \<le> sint r * sint x) \<longleftrightarrow>
     y \<noteq> 0 \<and> \<not> (y = - 1 \<and> sint x = - (2 ^ 63)))"
proof (cases "y = 0 \<or> y = - 1 \<and> sint x = - (2 ^ 63)")
  case True
  then show ?thesis by (auto simp: vm_div_def numeric_def rust_sdiv_def)
next
  case False
  let ?q = "word_of_int (sint x sdiv sint y) :: u64" and ?r = "word_of_int (sint x smod sint y) :: u64"
  have y: "sint y \<noteq> 0" using False by (metis signed_0 signed_word_eqI)
  have q: "sint ?q = sint x sdiv sint y" using False by (intro sint_word_of_int_in sdiv_in) auto
  have abs: "\<bar>sint x smod sint y\<bar> < \<bar>sint y\<bar>" using smod_int_range [OF y, of "sint x"] by auto
  then have r: "sint ?r = sint x smod sint y"
    using sint_bounds [of y] by (intro sint_word_of_int_in) auto
  have "0 \<le> sint x smod sint y * sint x"
    by (simp add: smod_int_alt_def mult.assoc mult.commute [of _ "sint x"])
      (use y in \<open>simp add: mult.assoc [symmetric] abs_sgn [symmetric] mult.commute mult_nonneg_nonneg pos_mod_sign\<close>)
  with abs q r have "sint x = sint ?q * sint y + sint ?r \<and> \<bar>sint ?r\<bar> < \<bar>sint y\<bar> \<and> 0 \<le> sint ?r * sint x"
    by (simp add: sdiv_mult_smod_eq)
  moreover have "vm_div (MInt x) (MInt y) = Inr (MInt ?q)" "vm_mod (MInt x) (MInt y) = Inr (MInt ?r)"
    using False by (auto simp: vm_div_def vm_mod_def numeric_def rust_sdiv_def rust_srem_def)
  ultimately show ?thesis using False by simp
qed

text \<open>
  Equality of values is symmetric, across numbers, abstracts, arrays and enumerations.
\<close>

theorem equality_symmetric:
  "macro_eq v w = macro_eq w v"
  by (rule macro_eq_sym)

section \<open>Pools and tables\<close>

text \<open>
  C36. An interned string is in the pool at the index it was given, earlier indices keep their constants, and
  interning it again gives the same index and adds nothing.
\<close>

theorem interned_string_stays:
  assumes "intern_string s ch = Some (i, ch')" and "length (ch_constants ch) \<le> 65536"
  shows "ch_constants ch' ! unat i = MString s \<and> take (length (ch_constants ch)) (ch_constants ch') = ch_constants ch \<and>
    length (ch_constants ch') \<le> 65536 \<and> intern_string s ch' = Some (i, ch')"
  using intern_string_pool [OF assms] intern_string_again [OF assms(1)] by auto

theorem interned_string_stays_witness:
  "let ch = with_constants [MInt 7, MString ''x''] (new_chunk ''f'');
       ch' = with_constants [MInt 7, MString ''x'', MString ''y''] (new_chunk ''f'')
   in ch_constants ch' ! unat (2 :: u16) = MString ''y'' \<and> take (length (ch_constants ch)) (ch_constants ch') = ch_constants ch \<and>
      length (ch_constants ch') \<le> 65536 \<and> intern_string ''y'' ch' = Some (2, ch')"
  unfolding Let_def
  by (rule interned_string_stays) (simp_all add: intern_string_def add_constant_def new_chunk_def)

text \<open>
  C37. The source position of an offset is that of the last recorded offset at or before it.
\<close>

theorem span_at_nearest:
  assumes "sorted (map fst (ch_span_map ch))"
  shows "case span_at ch off of
      Some sp \<Rightarrow> \<exists>o1. (o1, sp) \<in> set (ch_span_map ch) \<and> o1 \<le> off \<and>
        (\<forall>(o2, sp2) \<in> set (ch_span_map ch). o2 \<le> off \<longrightarrow> o2 \<le> o1)
    | None \<Rightarrow> \<forall>(o2, sp2) \<in> set (ch_span_map ch). off < o2"
  using span_at_Some [OF assms, of off] span_at_None [OF assms, of off] by (simp split: option.split)

theorem span_at_nearest_witness:
  "\<exists>sp. span_at skipping_chunk 50 = Some sp \<and> (0, sp) \<in> set (ch_span_map skipping_chunk)"
proof -
  have sorted: "sorted (map fst (ch_span_map skipping_chunk))" by (simp add: skipping_chunk_def)
  from span_at_nearest [OF sorted, of 50] show ?thesis
    by (cases "span_at skipping_chunk 50") (auto simp: skipping_chunk_def)
qed

section \<open>Programs that do not do what they say\<close>

text \<open>
  A compound assignment to an element takes the index for the old value: \<open>a[i] += x\<close> stores \<open>i + x\<close>
  whatever the element was.
\<close>

theorem compound_element_stores_index:
  assumes "uint i < max_elements" and "p < vm_next s"
  shows "compile ''f'' [param ''a'', param ''i'', param ''x''] element_update =
      Inr (compiled [''a'', ''i'', ''x''] element_update) \<and>
    (\<exists>s'. vm_execute h 20 (compiled [''a'', ''i'', ''x''] element_update) [MArray p vs, MInt i, MInt x] s =
       Inr (MInt (i + x), s'))"
  using element_update_chunk element_update_run [OF assms] by blast

theorem compound_element_stores_index_witness:
  "compile ''f'' [param ''a'', param ''i'', param ''x''] element_update =
      Inr (compiled [''a'', ''i'', ''x''] element_update) \<and>
    (\<exists>s'. vm_execute example_host 20 (compiled [''a'', ''i'', ''x''] element_update)
       [MArray 0 [MInt 7], MInt 0, MInt 1] (new_vm\<lparr>vm_next := 1\<rparr>) = Inr (MInt (0 + 1), s'))"
  by (rule compound_element_stores_index) (simp_all add: max_elements_def new_vm_def)

text \<open>
  A write to a field of an element is lost: after \<open>a[0].x = v\<close> the field reads as before.
\<close>

theorem field_of_element_write_lost:
  assumes "map_of fs ''__type__'' = None" and "map_of fs ''x'' = Some w"
  shows "compile ''f'' [param ''a'', param ''v''] nested_field_update =
      Inr (compiled [''a'', ''v''] nested_field_update) \<and>
    (\<exists>s'. vm_execute h 20 (compiled [''a'', ''v''] nested_field_update) [MArray p (MObject q fs # os), v] s =
       Inr (w, s'))"
  using nested_field_update_chunk nested_field_update_run [OF assms] by blast

theorem field_of_element_write_lost_witness:
  "compile ''f'' [param ''a'', param ''v''] nested_field_update =
      Inr (compiled [''a'', ''v''] nested_field_update) \<and>
    (\<exists>s'. vm_execute example_host 20 (compiled [''a'', ''v''] nested_field_update)
       [MArray 0 (MObject 1 [(''x'', MInt 1)] # []), MInt 2] (new_vm\<lparr>vm_next := 2\<rparr>) = Inr (MInt 1, s'))"
  by (rule field_of_element_write_lost) simp_all

text \<open>
  A \<open>case\<close> with several constant patterns matches only the last of them: \<open>switch (n) { case 1, 2: true;
  default: false; }\<close> tests for 2.
\<close>

theorem only_last_pattern_matches:
  "compile ''f'' [param ''n''] two_patterns = Inr (compiled [''n''] two_patterns) \<and>
   (\<exists>s'. vm_execute h 20 (compiled [''n''] two_patterns) [n] s = Inr (MBool (macro_eq n (MInt 2)), s'))"
  using two_patterns_chunk two_patterns_run by blast

text \<open>
  The parts of an interpolated string are added as they are: two integers give their sum, not a text.
\<close>

theorem interpolation_adds:
  "compile ''f'' [param ''a'', param ''b''] two_parts = Inr (compiled [''a'', ''b''] two_parts) \<and>
   (\<exists>s'. vm_execute h 20 (compiled [''a'', ''b''] two_parts) [MInt x, MInt y] s = Inr (MInt (x + y), s'))"
  using two_parts_chunk two_parts_run [of h "MInt x" "MInt y" "MInt (x + y)"] by (simp add: vm_add_def numeric_def)

text \<open>
  An object does not equal itself: \<open>o == o\<close> is false for objects, maps and functions.
\<close>

theorem objects_differ_from_themselves:
  "compile ''f'' [param ''o''] same_object = Inr (compiled [''o''] same_object) \<and>
   (\<exists>s'. vm_execute h 20 (compiled [''o''] same_object) [MObject a fs] s = Inr (MBool False, s')) \<and>
   (\<exists>s'. vm_execute h 20 (compiled [''o''] same_object) [MMap a es] s = Inr (MBool False, s')) \<and>
   (\<exists>s'. vm_execute h 20 (compiled [''o''] same_object) [MFunction a g] s = Inr (MBool False, s'))"
  using same_object_chunk same_object_run [of h "MObject a fs"] same_object_run [of h "MMap a es"]
    same_object_run [of h "MFunction a g"]
  by simp

end
