(* ===== verification/MacroWalk.thy ===== *)
theory MacroWalk
  imports BcCompile BcMachine
begin

text \<open>
  Parts of the tree-walking macro interpreter: its operators and the conversion of values back to
  expressions (\<open>macro_system/ast_bridge.rs\<close>), its unary operators (\<open>interpreter.rs\<close>) and its scoped
  variables (\<open>environment.rs\<close>). The walker runs a macro until it is promoted to bytecode, and again
  whenever the machine fails, so both have to agree. Shifts take the count modulo 64 and integers
  wrap, as in a release build; \<open>MacroPanic\<close> is a panic in every build.
\<close>

section \<open>Operators\<close>

datatype MacroError =
    DivisionByZero SourceLocation
  | TypeError string SourceLocation
  | UnsupportedOperation string SourceLocation
  | MacroPanic

text \<open>
  \<open>unwrap_expr_value\<close>. The constant of an object that stands for an expression is found by
  \<open>expr_adt\<close>, whose answer is the argument \<open>c\<close>. The number is the next free storage.
\<close>

fun unwrap_expr_value ::
  "(MacroValue \<Rightarrow> MacroValue option) \<Rightarrow> MacroValue \<Rightarrow> nat \<Rightarrow> MacroValue \<times> nat" where
  "unwrap_expr_value c (MAbstract s a inner) n = unwrap_expr_value c inner n"
| "unwrap_expr_value c (MObject a fs) n =
     (if map_of fs ''expr'' \<noteq> None \<and> map_of fs ''pos'' \<noteq> None
      then (case c (MObject a fs) of Some v \<Rightarrow> (v, n) | None \<Rightarrow> (MObject a fs, n))
      else (MObject a fs, n))"
| "unwrap_expr_value c (MExpr a e) n =
     (case expr_to_value e n of (MExpr b e', n') \<Rightarrow> (MExpr a e, n) | (v, n') \<Rightarrow> (v, n'))"
| "unwrap_expr_value c v n = (v, n)"

definition type_error :: "string \<Rightarrow> SourceLocation \<Rightarrow> MacroError + 'a" where
  "type_error m loc = Inl (TypeError m loc)"

definition apply_add ::
  "Host \<Rightarrow> MacroValue \<Rightarrow> MacroValue \<Rightarrow> SourceLocation \<Rightarrow> nat \<Rightarrow> MacroError + MacroValue \<times> nat" where
  "apply_add h l r loc n =
     (case (l, r) of
        (MString a, b) \<Rightarrow> Inr (MString (a @ to_display_string h b), n)
      | (a, MString b) \<Rightarrow> Inr (MString (to_display_string h a @ b), n)
      | (MInt a, MInt b) \<Rightarrow> Inr (MInt (a + b), n)
      | (MFloat a, MFloat b) \<Rightarrow> Inr (MFloat (f64_add a b), n)
      | (MInt a, MFloat b) \<Rightarrow> Inr (MFloat (f64_add (f64_of_int (sint a)) b), n)
      | (MFloat a, MInt b) \<Rightarrow> Inr (MFloat (f64_add a (f64_of_int (sint b))), n)
      | (MArray _ a, MArray _ b) \<Rightarrow> Inr (MArray n (a @ b), n + 1)
      | _ \<Rightarrow> type_error (''cannot add '' @ type_name l @ '' and '' @ type_name r) loc)"

definition apply_numeric_op ::
  "MacroValue \<Rightarrow> MacroValue \<Rightarrow> (u64 \<Rightarrow> u64 \<Rightarrow> u64 option) \<Rightarrow> (u64 \<Rightarrow> u64 \<Rightarrow> u64) \<Rightarrow> SourceLocation \<Rightarrow>
   MacroError + MacroValue" where
  "apply_numeric_op l r int_op float_op loc =
     (case (l, r) of
        (MInt a, MInt b) \<Rightarrow> map_sum id MInt (ok_or MacroPanic (int_op a b))
      | (MFloat a, MFloat b) \<Rightarrow> Inr (MFloat (float_op a b))
      | (MInt a, MFloat b) \<Rightarrow> Inr (MFloat (float_op (f64_of_int (sint a)) b))
      | (MFloat a, MInt b) \<Rightarrow> Inr (MFloat (float_op a (f64_of_int (sint b))))
      | _ \<Rightarrow> type_error (''arithmetic operation requires numeric types, found '' @ type_name l @
                        '' and '' @ type_name r) loc)"

definition apply_int_op ::
  "MacroValue \<Rightarrow> MacroValue \<Rightarrow> (u64 \<Rightarrow> u64 \<Rightarrow> u64) \<Rightarrow> SourceLocation \<Rightarrow> MacroError + MacroValue" where
  "apply_int_op l r f loc =
     rbind (ok_or (TypeError (''bitwise operation requires Int, found '' @ type_name l) loc) (as_int l))
       (\<lambda>a. rbind (ok_or (TypeError (''bitwise operation requires Int, found '' @ type_name r) loc) (as_int r))
         (\<lambda>b. Inr (MInt (f a b))))"

definition values_equal :: "MacroValue \<Rightarrow> MacroValue \<Rightarrow> bool" where
  "values_equal l r = macro_eq l r"

definition compare_values ::
  "MacroValue \<Rightarrow> MacroValue \<Rightarrow> (Ordering \<Rightarrow> bool) \<Rightarrow> SourceLocation \<Rightarrow> MacroError + MacroValue" where
  "compare_values l r pred loc =
     map_sum id (MBool \<circ> pred)
       (case (l, r) of
          (MInt a, MInt b) \<Rightarrow> Inr (cmp_of (sint a < sint b) (sint b < sint a))
        | (MFloat a, MFloat b) \<Rightarrow> Inr (f64_cmp a b)
        | (MInt a, MFloat b) \<Rightarrow> Inr (f64_cmp (f64_of_int (sint a)) b)
        | (MFloat a, MInt b) \<Rightarrow> Inr (f64_cmp a (f64_of_int (sint b)))
        | (MString a, MString b) \<Rightarrow> Inr (cmp_of (a < b) (b < a))
        | _ \<Rightarrow> type_error (''cannot compare '' @ type_name l @ '' and '' @ type_name r) loc)"

definition walk_shift :: "u64 \<Rightarrow> nat" where
  "walk_shift b = unat (b AND 63)"

definition is_zero_float :: "MacroValue \<Rightarrow> bool" where
  "is_zero_float v = (case v of MFloat f \<Rightarrow> f64_eq f 0 | _ \<Rightarrow> False)"

definition int_interval :: "MacroValue \<Rightarrow> MacroValue \<Rightarrow> SourceLocation \<Rightarrow> nat \<Rightarrow> MacroError + MacroValue \<times> nat" where
  "int_interval l r loc n =
     rbind (ok_or (TypeError ''interval start must be Int'' loc) (as_int l))
       (\<lambda>s. rbind (ok_or (TypeError ''interval end must be Int'' loc) (as_int r))
         (\<lambda>e. Inr (MObject n [(''__type__'', MString ''IntIterator''), (''max'', MInt e), (''min'', MInt s)],
                   n + 1)))"

definition keep_next :: "nat \<Rightarrow> MacroError + MacroValue \<Rightarrow> MacroError + MacroValue \<times> nat" where
  "keep_next n r = map_sum id (\<lambda>v. (v, n)) r"

definition operate ::
  "Host \<Rightarrow> HxBinaryOp \<Rightarrow> MacroValue \<Rightarrow> MacroValue \<Rightarrow> SourceLocation \<Rightarrow> nat \<Rightarrow>
   MacroError + MacroValue \<times> nat" where
  "operate h oper l r loc n =
     (case oper of
        HAdd \<Rightarrow> apply_add h l r loc n
      | HSub \<Rightarrow> keep_next n (apply_numeric_op l r (\<lambda>a b. Some (a - b)) f64_sub loc)
      | HMul \<Rightarrow> keep_next n (apply_numeric_op l r (\<lambda>a b. Some (a * b)) f64_mul loc)
      | HDiv \<Rightarrow>
          if r = MInt 0 \<or> is_zero_float r then Inl (DivisionByZero loc)
          else keep_next n (apply_numeric_op l r rust_sdiv f64_div loc)
      | HMod \<Rightarrow>
          if r = MInt 0 then Inl (DivisionByZero loc)
          else keep_next n (apply_numeric_op l r rust_srem f64_fmod loc)
      | HEq \<Rightarrow> Inr (MBool (values_equal l r), n)
      | HNotEq \<Rightarrow> Inr (MBool (\<not> values_equal l r), n)
      | HLt \<Rightarrow> keep_next n (compare_values l r (\<lambda>c. c = OLess) loc)
      | HLe \<Rightarrow> keep_next n (compare_values l r (\<lambda>c. c \<noteq> OGreater) loc)
      | HGt \<Rightarrow> keep_next n (compare_values l r (\<lambda>c. c = OGreater) loc)
      | HGe \<Rightarrow> keep_next n (compare_values l r (\<lambda>c. c \<noteq> OLess) loc)
      | HAnd \<Rightarrow> Inr (MBool (is_truthy l \<and> is_truthy r), n)
      | HOr \<Rightarrow> Inr (MBool (is_truthy l \<or> is_truthy r), n)
      | HBitAnd \<Rightarrow> keep_next n (apply_int_op l r (\<lambda>a b. a AND b) loc)
      | HBitOr \<Rightarrow> keep_next n (apply_int_op l r (\<lambda>a b. a OR b) loc)
      | HBitXor \<Rightarrow> keep_next n (apply_int_op l r (\<lambda>a b. a XOR b) loc)
      | HShl \<Rightarrow> keep_next n (apply_int_op l r (\<lambda>a b. push_bit (walk_shift b) a) loc)
      | HShr \<Rightarrow> keep_next n (apply_int_op l r (\<lambda>a b. signed_drop_bit (walk_shift b) a) loc)
      | HUshr \<Rightarrow> keep_next n (apply_int_op l r (\<lambda>a b. drop_bit (walk_shift b) a) loc)
      | HRange \<Rightarrow> int_interval l r loc n
      | HArrow \<Rightarrow> Inl (UnsupportedOperation ''arrow operator in macro context'' loc)
      | HNullCoal \<Rightarrow> Inr (if l = MNull then r else l, n)
      | HIs \<Rightarrow> Inl (UnsupportedOperation ''binary operator Is'' loc)
      | HIn \<Rightarrow> Inl (UnsupportedOperation ''binary operator In'' loc))"

definition apply_binary_op ::
  "Host \<Rightarrow> (MacroValue \<Rightarrow> MacroValue option) \<Rightarrow> HxBinaryOp \<Rightarrow> MacroValue \<Rightarrow> MacroValue \<Rightarrow>
   SourceLocation \<Rightarrow> nat \<Rightarrow> MacroError + MacroValue \<times> nat" where
  "apply_binary_op h c oper l r loc n =
     (let (l', n1) = unwrap_expr_value c l n; (r', n2) = unwrap_expr_value c r n1
      in operate h oper l' r' loc n2)"

text \<open>\<open>apply_unary_op\<close>; an increment or decrement goes elsewhere and fails here.\<close>

definition apply_unary_op :: "HxUnaryOp \<Rightarrow> MacroValue \<Rightarrow> SourceLocation \<Rightarrow> MacroError + MacroValue" where
  "apply_unary_op oper v loc =
     (let inc_dec = (\<lambda>nm. type_error (''internal: apply_unary_op called with inc/dec '' @ nm @
                                     ''; should be routed through eval_inc_dec'') loc)
      in case oper of
        HNot \<Rightarrow> Inr (MBool (\<not> is_truthy v))
      | HNeg \<Rightarrow> (case v of MInt i \<Rightarrow> Inr (MInt (- i)) | MFloat f \<Rightarrow> Inr (MFloat (f64_neg f))
                 | _ \<Rightarrow> type_error (''cannot negate '' @ type_name v) loc)
      | HBitNot \<Rightarrow> (case v of MInt i \<Rightarrow> Inr (MInt (NOT i))
                    | _ \<Rightarrow> type_error (''cannot bit-not '' @ type_name v) loc)
      | HPostNot \<Rightarrow> type_error (''cannot apply postfix `!` to '' @ type_name v) loc
      | HPreIncr \<Rightarrow> inc_dec ''PreIncr''
      | HPostIncr \<Rightarrow> inc_dec ''PostIncr''
      | HPreDecr \<Rightarrow> inc_dec ''PreDecr''
      | HPostDecr \<Rightarrow> inc_dec ''PostDecr'')"

section \<open>The walker and the machine agree\<close>

text \<open>
  A binary expression on operands with values. The compiler gives \<open>&&\<close> and \<open>||\<close> a jump that keeps the
  left operand where it decides and leaves the right one otherwise, every other operator its operation,
  or none. The walker (\<open>eval_expr\<close>) stops at a left operand that decides only where it is a Bool or
  null, and calls \<open>apply_binary_op\<close> otherwise.
\<close>

definition machine_binary ::
  "Host \<Rightarrow> HxBinaryOp \<Rightarrow> MacroValue \<Rightarrow> MacroValue \<Rightarrow> (VmFail + MacroValue) option" where
  "machine_binary h oper l r =
     (case oper of
        HAnd \<Rightarrow> Some (Inr (if is_truthy l then r else l))
      | HOr \<Rightarrow> Some (Inr (if is_truthy l then l else r))
      | _ \<Rightarrow> (case binary_opcode oper of
                None \<Rightarrow> None
              | Some bc \<Rightarrow> map_option (\<lambda>f. f l r) (binary_fn h bc)))"

definition bool_or_null :: "MacroValue \<Rightarrow> bool" where
  "bool_or_null v = (case v of MBool _ \<Rightarrow> True | MNull \<Rightarrow> True | _ \<Rightarrow> False)"

definition left_decides :: "HxBinaryOp \<Rightarrow> MacroValue \<Rightarrow> bool option" where
  "left_decides oper l =
     (if bool_or_null l \<and> oper = HAnd \<and> \<not> is_truthy l then Some False
      else if bool_or_null l \<and> oper = HOr \<and> is_truthy l then Some True
      else None)"

definition walk_binary ::
  "Host \<Rightarrow> (MacroValue \<Rightarrow> MacroValue option) \<Rightarrow> HxBinaryOp \<Rightarrow> MacroValue \<Rightarrow> MacroValue \<Rightarrow>
   SourceLocation \<Rightarrow> nat \<Rightarrow> MacroError + MacroValue \<times> nat" where
  "walk_binary h c oper l r loc n =
     (case left_decides oper l of
        Some b \<Rightarrow> Inr (MBool b, n)
      | None \<Rightarrow> apply_binary_op h c oper l r loc n)"

text \<open>
  Where the answers differ: \<open>&&\<close> and \<open>||\<close> whose deciding operand is not a Bool, a shift by more than
  31, and division of or by a float by zero.
\<close>

definition is_bool :: "MacroValue \<Rightarrow> bool" where
  "is_bool v = (case v of MBool _ \<Rightarrow> True | _ \<Rightarrow> False)"

definition operators_differ :: "HxBinaryOp \<Rightarrow> MacroValue \<Rightarrow> MacroValue \<Rightarrow> bool" where
  "operators_differ oper l r \<longleftrightarrow>
     oper = HAnd \<and> \<not> is_bool (if is_truthy l then r else l) \<or>
     oper = HOr \<and> \<not> is_bool (if is_truthy l then l else r) \<or>
     oper \<in> {HShl, HShr, HUshr} \<and> (\<exists>b. as_int r = Some b \<and> shift_count b \<noteq> walk_shift b) \<or>
     oper = HDiv \<and> (r = MInt 0 \<or> is_zero_float r) \<or>
     oper = HMod \<and> r = MInt 0"

lemma walk_add: "vm_add h a b = Inr v \<Longrightarrow> apply_add h a b loc n = Inr (v, n)"
  by (cases a; cases b)
     (auto simp: vm_add_def numeric_def apply_add_def to_display_string_def)

lemma walk_numeric:
  "numeric (\<lambda>x y. rbind (ok_or e (f x y)) (\<lambda>z. Inr (MInt z))) ff (Inl e') a b = Inr v \<Longrightarrow>
   apply_numeric_op a b f ff loc = Inr v"
  by (cases a; cases b) (auto simp: numeric_def apply_numeric_op_def rbind_Inr_iff ok_or_def split: option.splits)

lemma walk_checked:
  "numeric (\<lambda>x y. if y = 0 then Inl e else rbind (ok_or e'' (f x y)) (\<lambda>z. Inr (MInt z))) ff (Inl e') a b
     = Inr v \<Longrightarrow>
   apply_numeric_op a b f ff loc = Inr v"
  by (cases a; cases b)
     (auto simp: numeric_def apply_numeric_op_def rbind_Inr_iff ok_or_def split: option.splits if_splits)

lemma walk_int_op:
  "int_binary f a b = Inr v \<Longrightarrow> (\<And>x y. as_int b = Some y \<Longrightarrow> g x y = f x y) \<Longrightarrow>
   apply_int_op a b g loc = Inr v"
  by (auto simp: int_binary_def int_operand_def apply_int_op_def rbind_Inr_iff ok_or_def split: option.splits)

lemma walk_compare: "vm_compare a b p = Inr v \<Longrightarrow> compare_values a b p loc = Inr v"
  by (cases a; cases b) (auto simp: vm_compare_def vm_ordering_def compare_values_def rbind_Inr_iff)

lemma operate_agrees:
  assumes "binary_opcode oper = Some bc" "binary_fn h bc = Some f" "f a b = Inr v"
    and "\<not> operators_differ oper a b"
  shows "operate h oper a b loc n = Inr (v, n)"
proof (cases oper)
  case HAdd
  then show ?thesis using assms(1-3) walk_add by (auto simp: operate_def)
next
  case HSub
  then have "numeric (\<lambda>x y. rbind (ok_or VmPanic (Some (x - y))) (\<lambda>z. Inr (MInt z))) f64_sub
      (Inl (fl_fail ''subtract'' a ''and'' b)) a b = Inr v"
    using assms(1-3) by (auto simp: vm_sub_def)
  then show ?thesis using HSub walk_numeric by (auto simp: operate_def keep_next_def)
next
  case HMul
  then have "numeric (\<lambda>x y. rbind (ok_or VmPanic (Some (x * y))) (\<lambda>z. Inr (MInt z))) f64_mul
      (Inl (fl_fail ''multiply'' a ''and'' b)) a b = Inr v"
    using assms(1-3) by (auto simp: vm_mul_def)
  then show ?thesis using HMul walk_numeric by (auto simp: operate_def keep_next_def)
next
  case HDiv
  then have "vm_div a b = Inr v" "b \<noteq> MInt 0" "\<not> is_zero_float b"
    using assms by (auto simp: operators_differ_def)
  then show ?thesis using HDiv by (simp add: operate_def keep_next_def vm_div_def walk_checked)
next
  case HMod
  then have "vm_mod a b = Inr v" "b \<noteq> MInt 0" using assms by (auto simp: operators_differ_def)
  then show ?thesis using HMod by (simp add: operate_def keep_next_def vm_mod_def walk_checked)
next
  case HLt
  then have "vm_compare a b (\<lambda>c. c = OLess) = Inr v" using assms(1-3) by auto
  then show ?thesis using HLt by (simp add: operate_def keep_next_def walk_compare)
next
  case HLe
  then have "vm_compare a b (\<lambda>c. c \<noteq> OGreater) = Inr v" using assms(1-3) by auto
  then show ?thesis using HLe by (simp add: operate_def keep_next_def walk_compare)
next
  case HGt
  then have "vm_compare a b (\<lambda>c. c = OGreater) = Inr v" using assms(1-3) by auto
  then show ?thesis using HGt by (simp add: operate_def keep_next_def walk_compare)
next
  case HGe
  then have "vm_compare a b (\<lambda>c. c \<noteq> OLess) = Inr v" using assms(1-3) by auto
  then show ?thesis using HGe by (simp add: operate_def keep_next_def walk_compare)
next
  case HBitAnd
  then have "int_binary (\<lambda>a b. a AND b) a b = Inr v" using assms(1-3) by auto
  then have "apply_int_op a b (\<lambda>a b. a AND b) loc = Inr v"
    by (rule walk_int_op) (use HBitAnd assms(4) in \<open>auto simp: operators_differ_def\<close>)
  then show ?thesis using HBitAnd by (simp add: operate_def keep_next_def)
next
  case HBitOr
  then have "int_binary (\<lambda>a b. a OR b) a b = Inr v" using assms(1-3) by auto
  then have "apply_int_op a b (\<lambda>a b. a OR b) loc = Inr v"
    by (rule walk_int_op) (use HBitOr assms(4) in \<open>auto simp: operators_differ_def\<close>)
  then show ?thesis using HBitOr by (simp add: operate_def keep_next_def)
next
  case HBitXor
  then have "int_binary (\<lambda>a b. a XOR b) a b = Inr v" using assms(1-3) by auto
  then have "apply_int_op a b (\<lambda>a b. a XOR b) loc = Inr v"
    by (rule walk_int_op) (use HBitXor assms(4) in \<open>auto simp: operators_differ_def\<close>)
  then show ?thesis using HBitXor by (simp add: operate_def keep_next_def)
next
  case HShl
  then have "int_binary (\<lambda>a b. push_bit (shift_count b) a) a b = Inr v" using assms(1-3) by auto
  then have "apply_int_op a b (\<lambda>a b. push_bit (walk_shift b) a) loc = Inr v"
    by (rule walk_int_op) (use HShl assms(4) in \<open>auto simp: operators_differ_def\<close>)
  then show ?thesis using HShl by (simp add: operate_def keep_next_def)
next
  case HShr
  then have "int_binary (\<lambda>a b. signed_drop_bit (shift_count b) a) a b = Inr v" using assms(1-3) by auto
  then have "apply_int_op a b (\<lambda>a b. signed_drop_bit (walk_shift b) a) loc = Inr v"
    by (rule walk_int_op) (use HShr assms(4) in \<open>auto simp: operators_differ_def\<close>)
  then show ?thesis using HShr by (simp add: operate_def keep_next_def)
next
  case HUshr
  then have "int_binary (\<lambda>a b. drop_bit (shift_count b) a) a b = Inr v" using assms(1-3) by auto
  then have "apply_int_op a b (\<lambda>a b. drop_bit (walk_shift b) a) loc = Inr v"
    by (rule walk_int_op) (use HUshr assms(4) in \<open>auto simp: operators_differ_def\<close>)
  then show ?thesis using HUshr by (simp add: operate_def keep_next_def)
qed (use assms(1-3) in \<open>auto simp: operate_def values_equal_def\<close>)

text \<open>\<open>&&\<close> and \<open>||\<close>: the same answer exactly where the machine leaves a Bool.\<close>

lemma logical_agrees_iff:
  assumes "machine_binary h oper a b = Some (Inr v)" and "oper = HAnd \<or> oper = HOr"
    and "unwrap_expr_value c a n = (a, n)" "unwrap_expr_value c b n = (b, n)"
  shows "walk_binary h c oper a b loc n = Inr (v, n) \<longleftrightarrow> \<not> operators_differ oper a b"
proof -
  have d: "left_decides oper a = Some d \<Longrightarrow>
      d = (if oper = HAnd then is_truthy a \<and> is_truthy b else is_truthy a \<or> is_truthy b)" for d
    using assms(2) by (auto simp: left_decides_def split: if_splits)
  have "walk_binary h c oper a b loc n =
      Inr (MBool (if oper = HAnd then is_truthy a \<and> is_truthy b else is_truthy a \<or> is_truthy b), n)"
  proof (cases "left_decides oper a")
    case None
    then show ?thesis using assms(2)
      by (auto simp: walk_binary_def apply_binary_op_def assms(3,4) operate_def)
  qed (simp add: walk_binary_def d)
  moreover have "is_truthy v \<longleftrightarrow> (if oper = HAnd then is_truthy a \<and> is_truthy b else is_truthy a \<or> is_truthy b)"
    using assms(1,2) by (auto simp: machine_binary_def split: if_splits)
  moreover have "operators_differ oper a b \<longleftrightarrow> \<not> is_bool v"
    using assms(1,2) by (auto simp: machine_binary_def operators_differ_def split: if_splits)
  moreover have "MBool (is_truthy v) = v \<longleftrightarrow> is_bool v"
    by (cases v) (simp_all add: is_bool_def)
  ultimately show ?thesis by simp
qed

lemma walk_binary_agrees:
  assumes "machine_binary h oper a b = Some (Inr v)" and "\<not> operators_differ oper a b"
    and "unwrap_expr_value c a n = (a, n)" "unwrap_expr_value c b n = (b, n)"
  shows "walk_binary h c oper a b loc n = Inr (v, n)"
proof (cases "oper = HAnd \<or> oper = HOr")
  case True
  then show ?thesis using logical_agrees_iff [OF assms(1) True assms(3,4)] assms(2) by blast
next
  case False
  then obtain bc f where "binary_opcode oper = Some bc" "binary_fn h bc = Some f" "f a b = Inr v"
    using assms(1) by (cases oper) (simp_all add: machine_binary_def)
  from operate_agrees [OF this assms(2)] False assms(3,4) show ?thesis
    by (simp add: walk_binary_def left_decides_def apply_binary_op_def)
qed

end
