(* ===== verification/MacroTree.thy ===== *)
theory MacroTree
  imports BcVm
begin

text \<open>
  Values back to expressions (\<open>value_to_expr\<close> of \<open>macro_system/ast_bridge.rs\<close>), with which the result
  of a macro enters the syntax tree, and the round trip through \<open>expr_to_value\<close>. What stands for an
  expression of \<open>haxe.macro\<close> is rebuilt by \<open>expr_adt\<close>: its answer \<open>try_expr_of\<close> is the argument \<open>adt\<close>.
\<close>

definition default_span :: Span where
  "default_span = \<lparr>sp_start = 0, sp_end = 0\<rparr>"

abbreviation plain_expr :: "Expr ExprKind \<Rightarrow> Expr" where
  "plain_expr k \<equiv> Expr k default_span"

definition f64_negative :: "u64 \<Rightarrow> bool" where
  "f64_negative f = fl_lt (f64_of f) (f64_of 0)"

definition int_expr :: "u64 \<Rightarrow> Expr" where
  "int_expr i =
     (if sint i < 0 then plain_expr (EUnary HNeg (plain_expr (EInt (- i)))) else plain_expr (EInt i))"

definition float_expr :: "u64 \<Rightarrow> Expr" where
  "float_expr f =
     (if f64_negative f then plain_expr (EUnary HNeg (plain_expr (EFloat (f64_neg f))))
      else plain_expr (EFloat f))"

text \<open>An object in the shape \<open>haxe.macro.Expr\<close> has, and the enums that stand for syntax.\<close>

definition expr_shaped :: "(string \<times> MacroValue) list \<Rightarrow> bool" where
  "expr_shaped fs \<longleftrightarrow>
     length fs \<le> 3 \<and> (case map_of fs ''expr'' of Some (MEnum e v a vs) \<Rightarrow> e = ''ExprDef'' | _ \<Rightarrow> False)"

definition syntax_enum :: "string \<Rightarrow> bool" where
  "syntax_enum e \<longleftrightarrow> e = ''ExprDef'' \<or> e = ''Constant''"

definition or_null_expr :: "Expr option \<Rightarrow> Expr" where
  "or_null_expr e = (case e of Some x \<Rightarrow> x | None \<Rightarrow> plain_expr ENull)"

definition class_expr :: "string \<Rightarrow> Expr" where
  "class_expr name =
     (case split_str name ''.'' of
        [] \<Rightarrow> plain_expr (EIdent [])
      | p # ps \<Rightarrow> foldl (\<lambda>e q. plain_expr (EField e q False)) (plain_expr (EIdent p)) ps)"

definition position_expr :: "SourceLocation \<Rightarrow> Expr" where
  "position_expr loc =
     (let off = plain_expr (EInt (of_nat (loc_byte_offset loc)))
      in plain_expr (EObject
           [(''file'', plain_expr (EString (''file_'' @ show_nat (loc_file loc)))),
            (''min'', off), (''max'', off)]))"

definition enum_expr :: "string \<Rightarrow> string \<Rightarrow> Expr list \<Rightarrow> Expr" where
  "enum_expr e v args =
     (let base = plain_expr (EField (plain_expr (EIdent e)) v False)
      in if args = [] then base else plain_expr (ECall base args))"

function value_to_expr :: "(MacroValue \<Rightarrow> Expr option) \<Rightarrow> MacroValue \<Rightarrow> Expr" where
  "value_to_expr adt (MAbstract s a inner) = value_to_expr adt inner"
| "value_to_expr adt MNull = plain_expr ENull"
| "value_to_expr adt (MBool b) = plain_expr (EBool b)"
| "value_to_expr adt (MInt i) = int_expr i"
| "value_to_expr adt (MFloat f) = float_expr f"
| "value_to_expr adt (MString s) = plain_expr (EString s)"
| "value_to_expr adt (MArray a vs) = plain_expr (EArray (map (value_to_expr adt) vs))"
| "value_to_expr adt (MMap a es) =
     plain_expr (EMap (map (\<lambda>e. (value_to_expr adt (fst e), value_to_expr adt (snd e))) es))"
| "value_to_expr adt (MObject a fs) =
     (if expr_shaped fs then or_null_expr (adt (MObject a fs))
      else plain_expr (EObject (map (\<lambda>f. (fst f, value_to_expr adt (snd f))) fs)))"
| "value_to_expr adt (MEnum e v a vs) =
     (if syntax_enum e then or_null_expr (adt (MEnum e v a vs))
      else enum_expr e v (map (value_to_expr adt) vs))"
| "value_to_expr adt (MExpr a e) = e"
| "value_to_expr adt (MClass name) = class_expr name"
| "value_to_expr adt (MType t) = plain_expr ENull"
| "value_to_expr adt (MFunction a n) = plain_expr ENull"
| "value_to_expr adt (MPosition loc) = position_expr loc"
  by pat_completeness auto

lemma size_in_values: "v \<in> set vs \<Longrightarrow> size v < Suc (size_list size vs)"
  by (induction vs) auto

lemma size_in_fields: "(k, v) \<in> set fs \<Longrightarrow> size v < Suc (size_list (size_prod g size) fs)"
  by (induction fs) auto

lemma size_in_entries:
  "(k, v) \<in> set es \<Longrightarrow> size k < Suc (size_list (size_prod size size) es)"
  by (induction es) auto

lemmas size_inside = size_in_values size_in_fields size_in_entries

termination value_to_expr
  by (relation "measure (\<lambda>(adt, v). size v)")
     (auto dest: size_inside simp: less_Suc_eq_le)

section \<open>The round trip\<close>

text \<open>
  Literal values: what a literal expression can denote. The keys of a map are scalars, no two of
  them the same key; the fields of an object are in order, as a \<open>BTreeMap\<close> keeps them.
\<close>

fun scalar :: "MacroValue \<Rightarrow> bool" where
  "scalar MNull = True"
| "scalar (MBool b) = True"
| "scalar (MInt i) = True"
| "scalar (MFloat f) = True"
| "scalar (MString s) = True"
| "scalar v = False"

definition keys_differ :: "(MacroValue \<times> 'a) list \<Rightarrow> bool" where
  "keys_differ es = sorted_wrt (\<lambda>k k'. \<not> map_key_eq k k') (map fst es)"

inductive literal_value :: "MacroValue \<Rightarrow> bool" where
  "scalar v \<Longrightarrow> literal_value v"
| "(\<forall>v \<in> set vs. literal_value v) \<Longrightarrow> literal_value (MArray a vs)"
| "bt_wf fs \<Longrightarrow> (\<forall>f \<in> set fs. literal_value (snd f)) \<Longrightarrow> literal_value (MObject a fs)"
| "keys_differ es \<Longrightarrow> (\<forall>e \<in> set es. scalar (fst e) \<and> literal_value (snd e)) \<Longrightarrow>
   literal_value (MMap a es)"

inductive_simps literal_simps [simp]:
  "literal_value MNull" "literal_value (MBool b)" "literal_value (MInt i)" "literal_value (MFloat f)"
  "literal_value (MString s)" "literal_value (MArray a vs)" "literal_value (MObject a fs)"
  "literal_value (MMap a es)" "literal_value (MEnum e u a vs)"

text \<open>A value without the numbers of its storages.\<close>

function contents :: "MacroValue \<Rightarrow> MacroValue" where
  "contents (MArray a vs) = MArray 0 (map contents vs)"
| "contents (MMap a es) = MMap 0 (map (\<lambda>e. (contents (fst e), contents (snd e))) es)"
| "contents (MObject a fs) = MObject 0 (map (\<lambda>f. (fst f, contents (snd f))) fs)"
| "contents (MEnum e v a vs) = MEnum e v 0 (map contents vs)"
| "contents (MAbstract s a v) = MAbstract s 0 (contents v)"
| "contents (MExpr a e) = MExpr 0 e"
| "contents (MFunction a n) = MFunction 0 n"
| "contents MNull = MNull"
| "contents (MBool b) = MBool b"
| "contents (MInt i) = MInt i"
| "contents (MFloat f) = MFloat f"
| "contents (MString s) = MString s"
| "contents (MType t) = MType t"
| "contents (MClass n) = MClass n"
| "contents (MPosition p) = MPosition p"
  by pat_completeness auto

termination contents
  by (relation "measure size")
     (auto dest: size_inside simp: less_Suc_eq_le)

lemma int_round_trip [simp]: "expr_to_value (int_expr i) n = (MInt i, n)"
  by (simp add: int_expr_def)

lemma float_round_trip [simp]: "expr_to_value (float_expr f) n = (MFloat f, n)"
  by (simp add: float_expr_def f64_neg_def xor.assoc)

lemma scalar_round_trip: "scalar v \<Longrightarrow> expr_to_value (value_to_expr adt v) n = (v, n)"
  by (cases v) auto

text \<open>\<open>survives adt v\<close>: the round trip gives the value in new storage.\<close>

definition survives :: "(MacroValue \<Rightarrow> Expr option) \<Rightarrow> MacroValue \<Rightarrow> bool" where
  "survives adt v \<longleftrightarrow> (\<forall>n. contents (fst (expr_to_value (value_to_expr adt v) n)) = contents v)"

lemma survivesE:
  assumes "survives adt v"
  obtains w n' where "expr_to_value (value_to_expr adt v) n = (w, n')" "contents w = contents v"
  using assms by (metis prod.collapse survives_def)

lemma values_survive:
  assumes "\<forall>v \<in> set vs. survives adt v"
  shows "\<exists>ws n'. exprs_to_values (map (value_to_expr adt) vs) n = (ws, n') \<and> map contents ws = map contents vs"
  using assms
proof (induction vs arbitrary: n)
  case (Cons v vs)
  obtain w n1 where w: "expr_to_value (value_to_expr adt v) n = (w, n1)" "contents w = contents v"
    using Cons.prems survivesE by (metis list.set_intros(1))
  obtain ws n2 where "exprs_to_values (map (value_to_expr adt) vs) n1 = (ws, n2)"
      "map contents ws = map contents vs"
    using Cons by force
  then show ?case using w by simp
qed simp

lemma bt_insert_last: "\<forall>x \<in> fst ` set m. x < k \<Longrightarrow> bt_insert k v m = m @ [(k, v)]"
  by (induction m) (force simp: order_less_not_sym)+

lemma fields_survive:
  assumes "\<forall>f \<in> set fs. survives adt (snd f)" "sorted_wrt (<) (map fst m @ map fst fs)"
  shows "\<exists>gs n'. fields_to_values (map (\<lambda>f. (fst f, value_to_expr adt (snd f))) fs) m n = (m @ gs, n') \<and>
           map (\<lambda>f. (fst f, contents (snd f))) gs = map (\<lambda>f. (fst f, contents (snd f))) fs"
  using assms
proof (induction fs arbitrary: m n)
  case (Cons f fs)
  obtain k v where f: "f = (k, v)" by force
  obtain w n1 where w: "expr_to_value (value_to_expr adt v) n = (w, n1)" "contents w = contents v"
    using Cons.prems(1) f survivesE by (metis list.set_intros(1) snd_conv)
  have ins: "bt_insert k w m = m @ [(k, w)]"
    using Cons.prems f by (intro bt_insert_last) (auto simp: sorted_wrt_append)
  have "sorted_wrt (<) (map fst (m @ [(k, w)]) @ map fst fs)" using Cons.prems f by simp
  then obtain gs n2 where
      "fields_to_values (map (\<lambda>f. (fst f, value_to_expr adt (snd f))) fs) (m @ [(k, w)]) n1
         = ((m @ [(k, w)]) @ gs, n2)"
      "map (\<lambda>f. (fst f, contents (snd f))) gs = map (\<lambda>f. (fst f, contents (snd f))) fs"
    using Cons.IH [of "m @ [(k, w)]" n1] Cons.prems(1) by auto
  then show ?case using w ins f by simp
qed simp

lemma insert_map_entry_last:
  "\<forall>x \<in> fst ` set m. \<not> map_key_eq x k \<Longrightarrow> insert_map_entry m k v = m @ [(k, v)]"
  by (induction m) auto

lemma entries_survive:
  assumes "\<forall>e \<in> set es. scalar (fst e) \<and> survives adt (snd e)" "keys_differ (m @ es)"
  shows "\<exists>gs n'. entries_to_values
             (map (\<lambda>e. (value_to_expr adt (fst e), value_to_expr adt (snd e))) es) m n = (m @ gs, n') \<and>
           map (\<lambda>e. (contents (fst e), contents (snd e))) gs = map (\<lambda>e. (contents (fst e), contents (snd e))) es"
  using assms
proof (induction es arbitrary: m n)
  case (Cons e es)
  obtain k v where e: "e = (k, v)" by force
  have k: "expr_to_value (value_to_expr adt k) n = (k, n)" using Cons.prems e by (simp add: scalar_round_trip)
  obtain w n1 where w: "expr_to_value (value_to_expr adt v) n = (w, n1)" "contents w = contents v"
    using Cons.prems(1) e survivesE by (metis list.set_intros(1) snd_conv)
  have ins: "insert_map_entry m k w = m @ [(k, w)]"
    using Cons.prems e by (intro insert_map_entry_last) (auto simp: keys_differ_def sorted_wrt_append)
  have "keys_differ ((m @ [(k, w)]) @ es)" using Cons.prems e by (simp add: keys_differ_def)
  then obtain gs n2 where
      "entries_to_values (map (\<lambda>e. (value_to_expr adt (fst e), value_to_expr adt (snd e))) es) (m @ [(k, w)]) n1
         = ((m @ [(k, w)]) @ gs, n2)"
      "map (\<lambda>e. (contents (fst e), contents (snd e))) gs = map (\<lambda>e. (contents (fst e), contents (snd e))) es"
    using Cons.IH [of "m @ [(k, w)]" n1] Cons.prems(1) by auto
  then show ?case using k w ins e by simp
qed simp

lemma literal_survives: "literal_value v \<Longrightarrow> survives adt v"
proof (induction rule: literal_value.induct)
  case (1 v)
  then show ?case by (simp add: survives_def scalar_round_trip)
next
  case (2 vs a)
  then have "\<forall>v \<in> set vs. survives adt v" by blast
  show ?case unfolding survives_def
  proof
    fix n
    show "contents (fst (expr_to_value (value_to_expr adt (MArray a vs)) n)) = contents (MArray a vs)"
      using values_survive [OF \<open>\<forall>v \<in> set vs. survives adt v\<close>, of n] by auto
  qed
next
  case (3 fs a)
  then have sub: "\<forall>f \<in> set fs. survives adt (snd f)" by blast
  have "literal_value v" if "map_of fs k = Some v" for k v using 3(2) that by (force dest: map_of_SomeD)
  then have "\<not> expr_shaped fs"
    by (fastforce simp: expr_shaped_def split: option.splits MacroValue.splits)
  moreover have "sorted_wrt (<) (map fst [] @ map fst fs)" using 3(1) by (simp add: bt_wf_def)
  ultimately have "contents (fst (expr_to_value (value_to_expr adt (MObject a fs)) n)) = contents (MObject a fs)"
    for n using fields_survive [OF sub, of "[]" n] by auto
  then show ?case by (simp add: survives_def)
next
  case (4 es a)
  then have sub: "\<forall>e \<in> set es. scalar (fst e) \<and> survives adt (snd e)" by blast
  have "keys_differ ([] @ es)" using 4(1) by simp
  show ?case unfolding survives_def
  proof
    fix n
    show "contents (fst (expr_to_value (value_to_expr adt (MMap a es)) n)) = contents (MMap a es)"
      using entries_survive [OF sub \<open>keys_differ ([] @ es)\<close>, of n] by auto
  qed
qed

end
