(* ===== verification/MacroEnv.thy ===== *)
theory MacroEnv
  imports MacroVal
begin

text \<open>
  The variables of the tree-walking macro interpreter (\<open>macro_system/environment.rs\<close>). A variable is a
  cell (\<open>Arc<Mutex<MacroValue>>\<close>), its number an index into the list of all cells, so that a closure
  that captured the cell and the scope that declared it see the same value. A scope is a \<open>BTreeMap\<close>
  from names to cells; the innermost scope is the last.
\<close>

type_synonym Cells = "MacroValue list"
type_synonym Scope = "(string \<times> nat) list"

record Environment =
  env_scopes :: "Scope list"

definition new_environment :: Environment where
  "new_environment = \<lparr>env_scopes = [[]]\<rparr>"

definition env_push_scope :: "Environment \<Rightarrow> Environment" where
  "env_push_scope env = env\<lparr>env_scopes := env_scopes env @ [[]]\<rparr>"

definition env_pop_scope :: "Environment \<Rightarrow> Environment \<times> Scope option" where
  "env_pop_scope env =
     (if 1 < length (env_scopes env)
      then (env\<lparr>env_scopes := butlast (env_scopes env)\<rparr>, Some (last (env_scopes env)))
      else (env, None))"

text \<open>The search of \<open>get\<close> and \<open>set\<close>, from the innermost scope out.\<close>

definition find_cell :: "Environment \<Rightarrow> string \<Rightarrow> nat option" where
  "find_cell env name = first_some (\<lambda>scope. map_of scope name) (rev (env_scopes env))"

definition env_get :: "Cells \<Rightarrow> Environment \<Rightarrow> string \<Rightarrow> MacroValue option" where
  "env_get cells env name = map_option (\<lambda>c. cells ! c) (find_cell env name)"

definition env_set :: "Cells \<Rightarrow> Environment \<Rightarrow> string \<Rightarrow> MacroValue \<Rightarrow> Cells \<times> bool" where
  "env_set cells env name v =
     (case find_cell env name of Some c \<Rightarrow> (cells[c := v], True) | None \<Rightarrow> (cells, False))"

definition define_binding :: "Environment \<Rightarrow> string \<Rightarrow> nat \<Rightarrow> Environment" where
  "define_binding env name c =
     (if env_scopes env = [] then env
      else env\<lparr>env_scopes := butlast (env_scopes env) @ [bt_insert name c (last (env_scopes env))]\<rparr>)"

text \<open>\<open>define\<close> and \<open>define_owned\<close>: a new cell for the name in the innermost scope.\<close>

definition env_define :: "Cells \<Rightarrow> Environment \<Rightarrow> string \<Rightarrow> MacroValue \<Rightarrow> Cells \<times> Environment" where
  "env_define cells env name v = (cells @ [v], define_binding env name (length cells))"

definition env_contains :: "Environment \<Rightarrow> string \<Rightarrow> bool" where
  "env_contains env name = (\<exists>scope \<in> set (env_scopes env). map_of scope name \<noteq> None)"

definition env_depth :: "Environment \<Rightarrow> nat" where
  "env_depth env = length (env_scopes env) - 1"

definition visible_names :: "Environment \<Rightarrow> string list" where
  "visible_names env = sort (remdups (concat (map (map fst) (rev (env_scopes env)))))"

text \<open>The snapshots closures take: from the outermost scope in, so that inner bindings win.\<close>

definition capture_bindings :: "(string \<Rightarrow> bool) \<Rightarrow> Environment \<Rightarrow> Scope" where
  "capture_bindings p env =
     foldl (\<lambda>m (name, c). if p name then bt_insert name c m else m) [] (concat (env_scopes env))"

definition capture_used :: "string set \<Rightarrow> Environment \<Rightarrow> Scope" where
  "capture_used used env = capture_bindings (\<lambda>name. name \<in> used) env"

definition capture_all :: "Cells \<Rightarrow> Environment \<Rightarrow> (string \<times> MacroValue) list" where
  "capture_all cells env = bt_map (\<lambda>c. cells ! c) (capture_bindings (\<lambda>_. True) env)"

text \<open>
  \<open>call_function\<close> of \<open>interpreter.rs\<close> runs a body in a fresh environment with one scope: the captures,
  over them the function's own name where it is a plain name, over that the parameters. The default of
  a parameter and the conversion to its type are the evaluator's: a call that needs one is \<open>None\<close> here.
\<close>

record ClosureParam =
  cp_name :: string
  cp_rest :: bool
  cp_default :: "Expr option"
  cp_typed :: bool

record Closure =
  cl_name :: string
  cl_params :: "ClosureParam list"
  cl_captures :: Scope

definition closure_environment :: "Scope \<Rightarrow> Environment" where
  "closure_environment captures =
     foldl (\<lambda>env (name, c). define_binding env name c) (env_push_scope new_environment) captures"

definition names_itself :: "Closure \<Rightarrow> bool" where
  "names_itself f \<longleftrightarrow>
     cl_name f \<noteq> [] \<and> CHR ''.'' \<notin> set (cl_name f) \<and> hd (cl_name f) \<noteq> CHR ''<''"

definition param_value :: "ClosureParam \<Rightarrow> nat \<Rightarrow> MacroValue list \<Rightarrow> nat \<Rightarrow> (MacroValue \<times> nat) option" where
  "param_value p i args n =
     (if cp_typed p then None
      else if cp_rest p then Some (MArray n (drop i args), n + 1)
      else if i < length args \<and> (cp_default p = None \<or> args ! i \<noteq> MNull) then Some (args ! i, n)
      else if cp_default p \<noteq> None then None
      else Some (MNull, n))"

fun bind_closure_params ::
  "nat \<Rightarrow> ClosureParam list \<Rightarrow> MacroValue list \<Rightarrow> Cells \<times> Environment \<times> nat \<Rightarrow>
   (Cells \<times> Environment \<times> nat) option" where
  "bind_closure_params i [] args st = Some st"
| "bind_closure_params i (p # ps) args (cells, env, n) =
     (case param_value p i args n of
        None \<Rightarrow> None
      | Some (v, n') \<Rightarrow>
          (case env_define cells env (cp_name p) v of
             (cells', env') \<Rightarrow> bind_closure_params (i + 1) ps args (cells', env', n')))"

definition call_environment ::
  "Closure \<Rightarrow> MacroValue list \<Rightarrow> Cells \<Rightarrow> nat \<Rightarrow> (Cells \<times> Environment \<times> nat) option" where
  "call_environment f args cells n =
     (let env = closure_environment (cl_captures f)
      in if names_itself f
         then (case env_define cells env (cl_name f) (MFunction n (cl_name f)) of
                 (cells', env') \<Rightarrow> bind_closure_params 0 (cl_params f) args (cells', env', n + 1))
         else bind_closure_params 0 (cl_params f) args (cells, env, n))"

text \<open>The names a call declares over the captures.\<close>

definition bound_names :: "Closure \<Rightarrow> string list" where
  "bound_names f = (if names_itself f then [cl_name f] else []) @ map cp_name (cl_params f)"

section \<open>Well-formed environments\<close>

definition env_ok :: "Cells \<Rightarrow> Environment \<Rightarrow> bool" where
  "env_ok cells env \<longleftrightarrow>
     env_scopes env \<noteq> [] \<and>
     (\<forall>scope \<in> set (env_scopes env). bt_wf scope \<and> (\<forall>c \<in> snd ` set scope. c < length cells))"

lemma env_ok_new: "env_ok cells new_environment"
  by (simp add: env_ok_def new_environment_def bt_wf_def)

lemma env_ok_push: "env_ok cells env \<Longrightarrow> env_ok cells (env_push_scope env)"
  by (auto simp: env_ok_def env_push_scope_def bt_wf_def)

lemma env_ok_pop: "env_ok cells env \<Longrightarrow> env_ok cells (fst (env_pop_scope env))"
  by (cases "env_scopes env" rule: rev_cases) (auto simp: env_ok_def env_pop_scope_def)

lemma env_ok_set: "env_ok cells env \<Longrightarrow> env_ok (fst (env_set cells env name v)) env"
  by (simp add: env_ok_def env_set_def split: option.splits)

lemma set_bt_insert: "set (bt_insert k v m) \<subseteq> insert (k, v) (set m)"
  by (induction k v m rule: bt_insert.induct) auto

lemma env_ok_binding: "env_ok cells env \<Longrightarrow> c < length cells \<Longrightarrow> env_ok cells (define_binding env name c)"
  by (cases "env_scopes env" rule: rev_cases)
     (use set_bt_insert in \<open>fastforce simp: env_ok_def define_binding_def intro: bt_wf_insert\<close>)+

lemma env_ok_more: "env_ok cells env \<Longrightarrow> env_ok (cells @ xs) env"
  by (force simp: env_ok_def)

lemma env_ok_define: "env_ok cells env \<Longrightarrow> env_define cells env name v = (cells', env') \<Longrightarrow> env_ok cells' env'"
  by (metis Pair_inject env_define_def env_ok_binding env_ok_more length_append_singleton lessI)

section \<open>Lookups\<close>

lemma first_some_map_add: "first_some (\<lambda>s. map_of s x) ss = map_of (concat ss) x"
  by (induction ss) (auto simp: map_add_def split: option.splits)

lemma map_of_rev_distinct: "distinct (map fst m) \<Longrightarrow> map_of (rev m) = map_of m"
  by (simp add: map_of_inject_set rev_map [symmetric])

lemma find_cell_map: "find_cell env x = map_of (concat (rev (env_scopes env))) x"
  by (simp add: find_cell_def first_some_map_add)

lemma find_cell_bound: "env_ok cells env \<Longrightarrow> find_cell env x = Some c \<Longrightarrow> c < length cells"
  by (force simp: find_cell_map env_ok_def dest!: map_of_SomeD)

lemma find_cell_binding:
  "env_scopes env \<noteq> [] \<Longrightarrow> find_cell (define_binding env x c) y = (if y = x then Some c else find_cell env y)"
  by (cases "env_scopes env" rule: rev_cases)
     (auto simp: find_cell_map define_binding_def bt_simps map_add_def split: option.splits)

lemma find_cell_push [simp]: "find_cell (env_push_scope env) x = find_cell env x"
  by (simp add: find_cell_map env_push_scope_def)

lemma env_contains_iff: "env_contains env x \<longleftrightarrow> find_cell env x \<noteq> None"
  by (force simp: env_contains_def find_cell_map map_of_eq_None_iff)

text \<open>What is captured is what a lookup finds.\<close>

lemma fold_captures:
  "map_of (foldl (\<lambda>m (name, c). if p name then bt_insert name c m else m) m es) x =
     (if p x then (map_of m ++ map_of (rev es)) x else map_of m x)"
  by (induction es arbitrary: m) (auto simp: bt_simps map_add_def split: option.splits)

lemma bt_wf_captures:
  "bt_wf m \<Longrightarrow> bt_wf (foldl (\<lambda>m (name, c). if p name then bt_insert name c m else m) m es)"
  by (induction es arbitrary: m) (auto simp: bt_wf_insert)

lemma map_of_rev_concat:
  "\<forall>s \<in> set ss. bt_wf s \<Longrightarrow> map_of (rev (concat ss)) x = map_of (concat (rev ss)) x"
proof (induction ss)
  case (Cons s ss)
  have "map_of (rev s) = map_of s" using Cons.prems bt_wf_distinct by (auto intro: map_of_rev_distinct)
  then show ?case using Cons by (simp add: map_add_def)
qed simp

lemma capture_used_lookup:
  assumes "env_ok cells env"
  shows "map_of (capture_used used env) x = (if x \<in> used then find_cell env x else None)"
  using assms
  by (simp add: capture_used_def capture_bindings_def fold_captures find_cell_map map_of_rev_concat env_ok_def)

lemma find_cell_closure:
  assumes "distinct (map fst captures)"
  shows "find_cell (closure_environment captures) x = map_of captures x"
proof -
  have "find_cell (foldl (\<lambda>env (name, c). define_binding env name c) env captures) x =
      (find_cell env ++ map_of (rev captures)) x" if "env_scopes env \<noteq> []" for env
    using that
  proof (induction captures arbitrary: env)
    case (Cons e es)
    have "env_scopes (define_binding env (fst e) (snd e)) \<noteq> []"
      using Cons.prems by (simp add: define_binding_def)
    then show ?case using Cons find_cell_binding [OF Cons.prems]
      by (cases e) (auto simp: map_add_def split: option.splits)
  qed simp
  from this [of "env_push_scope new_environment"]
  have "find_cell (closure_environment captures) x =
      (find_cell (env_push_scope new_environment) ++ map_of (rev captures)) x"
    by (simp add: closure_environment_def env_push_scope_def)
  moreover have "find_cell (env_push_scope new_environment) = Map.empty"
    by (simp add: fun_eq_iff find_cell_map env_push_scope_def new_environment_def)
  ultimately show ?thesis using assms by (simp add: map_of_rev_distinct)
qed

lemma bt_wf_capture_used: "bt_wf (capture_used used env)"
  unfolding capture_used_def capture_bindings_def by (rule bt_wf_captures) (simp add: bt_wf_def)

text \<open>A call of the closure looks up what its declaration saw.\<close>

lemma closure_lookup:
  assumes "env_ok cells env"
  shows "find_cell (closure_environment (capture_used used env)) x =
     (if x \<in> used then find_cell env x else None)"
  using assms bt_wf_capture_used bt_wf_distinct by (metis capture_used_lookup find_cell_closure)

lemma env_get_set:
  assumes "env_ok cells env" "env_set cells env x v = (cells', True)"
  shows "env_get cells' other y =
     (if find_cell other y = find_cell env x then Some v else env_get cells other y)"
proof -
  obtain c where "find_cell env x = Some c" "cells' = cells[c := v]"
    using assms(2) by (auto simp: env_set_def split: option.splits)
  then show ?thesis using find_cell_bound [OF assms(1)]
    by (cases "find_cell other y") (auto simp: env_get_def nth_list_update)
qed

text \<open>Declarations over the captures: cells of their own, the other names as before.\<close>

definition declared_over ::
  "string list \<Rightarrow> Cells \<times> Environment \<Rightarrow> Cells \<times> Environment \<Rightarrow> bool" where
  "declared_over names s s' \<longleftrightarrow>
     (case (s, s') of ((cells, env), (cells', env')) \<Rightarrow>
        (\<exists>new. cells' = cells @ new) \<and> env_scopes env' \<noteq> [] \<and>
        (\<forall>x \<in> set names. \<exists>c. find_cell env' x = Some c \<and> length cells \<le> c \<and> c < length cells') \<and>
        (\<forall>x. x \<notin> set names \<longrightarrow> find_cell env' x = find_cell env x))"

lemma declared_over_trans:
  assumes "declared_over xs s s'" and "declared_over ys s' s''"
  shows "declared_over (xs @ ys) s s''"
proof -
  obtain cells env cells' env' cells'' env'' where s: "s = (cells, env)" "s' = (cells', env')" "s'' = (cells'', env'')"
    by (cases s; cases s'; cases s'') blast
  from assms(1) obtain new where a: "cells' = cells @ new"
      "\<And>x. x \<in> set xs \<Longrightarrow> \<exists>c. find_cell env' x = Some c \<and> length cells \<le> c \<and> c < length cells'"
      "\<And>x. x \<notin> set xs \<Longrightarrow> find_cell env' x = find_cell env x"
    by (auto simp: s declared_over_def)
  from assms(2) obtain new' where b: "cells'' = cells' @ new'" "env_scopes env'' \<noteq> []"
      "\<And>x. x \<in> set ys \<Longrightarrow> \<exists>c. find_cell env'' x = Some c \<and> length cells' \<le> c \<and> c < length cells''"
      "\<And>x. x \<notin> set ys \<Longrightarrow> find_cell env'' x = find_cell env' x"
    by (auto simp: s declared_over_def)
  have "\<exists>c. find_cell env'' x = Some c \<and> length cells \<le> c \<and> c < length cells''" if "x \<in> set (xs @ ys)" for x
  proof (cases "x \<in> set ys")
    case True
    from b(3) [OF this] a(1) show ?thesis by auto
  next
    case False
    with that a(2) [of x] b(1) b(4) [OF False] show ?thesis by auto
  qed
  moreover have "find_cell env'' x = find_cell env x" if "x \<notin> set (xs @ ys)" for x
    using that a(3) b(4) by simp
  moreover have "cells'' = cells @ new @ new'" using a(1) b(1) by simp
  ultimately show ?thesis using b(2) by (simp only: s declared_over_def prod.case) blast
qed

lemma declared_over_define:
  assumes "env_define cells env x v = (cells', env')" and "env_scopes env \<noteq> []"
  shows "declared_over [x] (cells, env) (cells', env')"
proof -
  have e: "cells' = cells @ [v]" "env' = define_binding env x (length cells)"
    using assms(1) by (simp_all add: env_define_def)
  have "env_scopes env' \<noteq> []" using assms(2) by (simp add: e define_binding_def)
  then show ?thesis using find_cell_binding [OF assms(2)] by (simp add: declared_over_def e)
qed

lemma declared_over_params:
  assumes "bind_closure_params i ps args (cells, env, n) = Some (cells', env', n')" and "env_scopes env \<noteq> []"
  shows "declared_over (map cp_name ps) (cells, env) (cells', env')"
  using assms
proof (induction ps arbitrary: i cells env n)
  case Nil
  then show ?case by (simp add: declared_over_def)
next
  case (Cons p ps)
  from Cons.prems(1) obtain v n1 where v: "param_value p i args n = Some (v, n1)"
    by (auto split: option.splits)
  obtain c1 e1 where d: "env_define cells env (cp_name p) v = (c1, e1)" by fastforce
  have one: "declared_over [cp_name p] (cells, env) (c1, e1)"
    by (rule declared_over_define [OF d Cons.prems(2)])
  from one have "env_scopes e1 \<noteq> []" by (simp add: declared_over_def)
  with Cons.prems(1) v d have "declared_over (map cp_name ps) (c1, e1) (cells', env')"
    by (intro Cons.IH) simp_all
  from declared_over_trans [OF one this] show ?case by simp
qed

lemma closure_environment_scopes: "env_scopes (closure_environment captures) \<noteq> []"
proof -
  have "env_scopes env \<noteq> [] \<Longrightarrow>
      env_scopes (foldl (\<lambda>env (name, c). define_binding env name c) env captures) \<noteq> []" for env
  proof (induction captures arbitrary: env)
    case (Cons e es)
    have "env_scopes (define_binding env (fst e) (snd e)) \<noteq> []"
      using Cons.prems by (simp add: define_binding_def)
    from Cons.IH [OF this] show ?case by (simp add: case_prod_beta)
  qed simp
  then show ?thesis by (simp add: closure_environment_def env_push_scope_def)
qed

lemma declared_over_call:
  assumes "call_environment f args cells n = Some (cells', env', n')"
  shows "declared_over (bound_names f) (cells, closure_environment (cl_captures f)) (cells', env')"
proof (cases "names_itself f")
  case True
  let ?env = "closure_environment (cl_captures f)"
  obtain c1 e1 where d: "env_define cells ?env (cl_name f) (MFunction n (cl_name f)) = (c1, e1)" by fastforce
  have one: "declared_over [cl_name f] (cells, ?env) (c1, e1)"
    by (rule declared_over_define [OF d closure_environment_scopes])
  from one have e1: "env_scopes e1 \<noteq> []" by (simp add: declared_over_def)
  from assms True d have "bind_closure_params 0 (cl_params f) args (c1, e1, n + 1) = Some (cells', env', n')"
    by (simp add: call_environment_def Let_def)
  from declared_over_trans [OF one declared_over_params [OF this e1]] True show ?thesis
    by (simp add: bound_names_def)
next
  case False
  with assms declared_over_params [OF _ closure_environment_scopes] show ?thesis
    by (simp add: call_environment_def bound_names_def Let_def)
qed

lemma closure_assignment:
  assumes "env_ok cells env" and "cl_captures f = capture_used used env"
    and "call_environment f args cells n = Some (cells1, env1, n1)"
    and "x \<in> used \<and> env_contains env x \<or> x \<in> set (bound_names f)"
  shows "\<exists>cells2. env_set cells1 env1 x v = (cells2, True) \<and>
     (\<forall>y. env_get cells2 env y =
        (if x \<notin> set (bound_names f) \<and> find_cell env y = find_cell env x then Some v
         else env_get cells env y))"
proof -
  have d: "declared_over (bound_names f) (cells, closure_environment (capture_used used env)) (cells1, env1)"
    using declared_over_call [OF assms(3)] assms(2) by simp
  then obtain new where new: "cells1 = cells @ new" by (auto simp: declared_over_def)
  have bound: "find_cell env y = Some c \<Longrightarrow> c < length cells" for y c
    by (rule find_cell_bound [OF assms(1)])
  have old: "env_get (cells1[k := w]) env y = (if find_cell env y = Some k then Some w else env_get cells env y)"
    if "k < length cells1" for k w y
    using that bound by (cases "find_cell env y") (auto simp: env_get_def new nth_list_update nth_append)
  show ?thesis
  proof (cases "x \<in> set (bound_names f)")
    case True
    with d obtain c where c: "find_cell env1 x = Some c" "length cells \<le> c" "c < length cells1"
      unfolding declared_over_def by blast
    have "find_cell env y \<noteq> Some c" for y using bound c(2) by force
    then show ?thesis using True c old [OF c(3)] by (auto simp: env_set_def)
  next
    case False
    with assms(4) have x: "x \<in> used" "env_contains env x" by auto
    then obtain c where c: "find_cell env x = Some c" by (auto simp: env_contains_iff)
    have "find_cell env1 x = Some c"
      using d False x(1) c by (auto simp: declared_over_def closure_lookup [OF assms(1)])
    moreover have "c < length cells1" using bound [OF c] by (simp add: new)
    ultimately show ?thesis using False c old by (auto simp: env_set_def)
  qed
qed

text \<open>A scope's variables end with the scope.\<close>

lemma pop_restores:
  "env_scopes env \<noteq> [] \<Longrightarrow>
   fst (env_pop_scope (foldl (\<lambda>e (x, c). define_binding e x c) (env_push_scope env) bs)) = env"
proof -
  assume "env_scopes env \<noteq> []"
  have "\<exists>s. foldl (\<lambda>e (x, c). define_binding e x c) (env\<lparr>env_scopes := env_scopes env @ [t]\<rparr>) bs =
      env\<lparr>env_scopes := env_scopes env @ [s]\<rparr>" for t
    by (induction bs arbitrary: t) (auto simp: define_binding_def)
  then obtain s where "foldl (\<lambda>e (x, c). define_binding e x c) (env_push_scope env) bs =
      env\<lparr>env_scopes := env_scopes env @ [s]\<rparr>"
    by (auto simp: env_push_scope_def)
  then show ?thesis using \<open>env_scopes env \<noteq> []\<close> by (simp add: env_pop_scope_def)
qed

end
