(* ===== verification/WalkProperties.thy ===== *)
theory WalkProperties
  imports MacroWalk MacroTree MacroEnv
begin

text \<open>
  Properties of the parts of the tree-walking macro interpreter that are modelled: its operators beside
  those of the machine, values turned back into syntax, and variables shared with closures.
\<close>

section \<open>Operators\<close>


text \<open>
  The exceptions are real: \<open>1 && 2\<close>, whose right operand the machine skips after a left one that is
  false without being a Bool and the walker does not, \<open>1 << 32\<close>, and \<open>1.0 / 0.0\<close>.
\<close>

lemma logical_operand_differs:
  "machine_binary h HAnd (MInt 1) (MInt 2) = Some (Inr (MInt 2))"
  "walk_binary h c HAnd (MInt 1) (MInt 2) loc n = Inr (MBool True, n)"
  "left_decides HAnd (MInt 0) = None"
  by (simp_all add: machine_binary_def walk_binary_def left_decides_def bool_or_null_def apply_binary_op_def
      operate_def)

lemma wide_shift_differs:
  "int_binary (\<lambda>a b. push_bit (shift_count b) a) (MInt 1) (MInt 32) = Inr (MInt 1)"
  "apply_binary_op h c HShl (MInt 1) (MInt 32) loc n = Inr (MInt 0x100000000, n)"
  by (simp_all add: int_binary_def int_operand_def shift_count_def walk_shift_def apply_binary_op_def operate_def
      keep_next_def apply_int_op_def)

lemma zero_equals_itself: "f64_eq 0 0"
  by code_simp

lemma float_division_differs:
  "vm_div (MFloat x) (MFloat 0) = Inr (MFloat (f64_div x 0))"
  "apply_binary_op h c HDiv (MFloat x) (MFloat 0) loc n = Inl (DivisionByZero loc)"
  by (simp_all add: vm_div_def numeric_def apply_binary_op_def operate_def is_zero_float_def zero_equals_itself)

lemma promoted_unary_agrees:
  "(oper, bc) \<in> {(HNot, BcNot), (HNeg, BcNeg), (HBitNot, BcBitNot)} \<Longrightarrow> unary_fn bc v = Inr w \<Longrightarrow>
   apply_unary_op oper v loc = Inr w"
  by (auto simp: apply_unary_op_def split: MacroValue.splits)



section \<open>Values in the syntax tree\<close>

text \<open>
  C39. A literal value that a macro returns survives the syntax tree: the expression \<open>value_to_expr\<close>
  builds for it evaluates to the same value, in new storage. That covers negative integers, the least
  \<open>i64\<close> among them, negative floats and NaNs, and arrays, objects and maps of such values to any depth.
\<close>

theorem literal_values_survive:
  assumes "literal_value v"
  shows "contents (fst (expr_to_value (value_to_expr adt v) n)) = contents v"
  using literal_survives [OF assms] by (simp add: survives_def)

definition example_literal :: MacroValue where
  "example_literal =
     MObject 7 [(''a'', MArray 3 [MInt (- 5), MNull]), (''b'', MMap 4 [(MString ''k'', MBool True)])]"

theorem literal_values_survive_witness:
  "contents (fst (expr_to_value (value_to_expr (\<lambda>_. None) example_literal) 9)) = contents example_literal"
  by (rule literal_values_survive)
     (simp add: example_literal_def bt_wf_def keys_differ_def)

section \<open>Variables\<close>

text \<open>
  C40. A closure shares the variables it captured: an assignment in its body, which runs in an
  environment of its own, is seen by the environment that declared the variable, and no other variable
  changes. A captured variable with the name of a parameter, or of the function itself where it has a
  plain name, is shadowed: an assignment to it stays inside the call.
\<close>

theorem closure_shares_variables:
  assumes "env_ok cells env" and "cl_captures f = capture_used used env"
    and "call_environment f args cells n = Some (cells1, env1, n1)"
    and "x \<in> used \<and> env_contains env x \<or> x \<in> set (bound_names f)"
  shows "\<exists>cells2. env_set cells1 env1 x v = (cells2, True) \<and>
     (\<forall>y. env_get cells2 env y =
        (if x \<notin> set (bound_names f) \<and> find_cell env y = find_cell env x then Some v
         else env_get cells env y))"
  using closure_assignment [OF assms] .

definition example_scopes :: Environment where
  "example_scopes = \<lparr>env_scopes = [[(''x'', 0), (''y'', 1)], [(''x'', 2)]]\<rparr>"

definition example_closure :: Closure where
  "example_closure =
     \<lparr>cl_name = ''f'', cl_params = [\<lparr>cp_name = ''p'', cp_rest = False, cp_default = None, cp_typed = False\<rparr>],
      cl_captures = [(''x'', 2)]\<rparr>"

theorem closure_shares_variables_witness:
  "\<exists>cells1 env1 n1 cells2. call_environment example_closure [MInt 7] [MInt 1, MInt 2, MInt 3] 0 = Some (cells1, env1, n1) \<and>
     env_set cells1 env1 ''x'' MNull = (cells2, True) \<and> env_get cells2 example_scopes ''x'' = Some MNull \<and>
     env_get cells2 example_scopes ''y'' = Some (MInt 2)"
proof -
  let ?cells = "[MInt 1, MInt 2, MInt 3]"
  have ok: "env_ok ?cells example_scopes"
    by (auto simp: example_scopes_def env_ok_def bt_wf_def)
  have cap: "cl_captures example_closure = capture_used {''x''} example_scopes"
    by code_simp
  obtain cells1 env1 n1 where call: "call_environment example_closure [MInt 7] ?cells 0 = Some (cells1, env1, n1)"
    by (simp add: call_environment_def example_closure_def names_itself_def param_value_def env_define_def Let_def)
  have "''x'' \<in> {''x''} \<and> env_contains example_scopes ''x'' \<or> ''x'' \<in> set (bound_names example_closure)"
    by (simp add: example_scopes_def env_contains_def)
  from closure_shares_variables [OF ok cap call this, of MNull] obtain cells2
    where set: "env_set cells1 env1 ''x'' MNull = (cells2, True)"
      and get: "\<forall>y. env_get cells2 example_scopes y =
        (if ''x'' \<notin> set (bound_names example_closure) \<and>
            find_cell example_scopes y = find_cell example_scopes ''x'' then Some MNull
         else env_get ?cells example_scopes y)" by blast
  have "''x'' \<notin> set (bound_names example_closure)" "find_cell example_scopes ''y'' \<noteq> find_cell example_scopes ''x''"
    "env_get ?cells example_scopes ''y'' = Some (MInt 2)"
    by (code_simp | simp add: example_scopes_def find_cell_map env_get_def)+
  with call set get [THEN spec, of "''x''"] get [THEN spec, of "''y''"] show ?thesis by auto
qed

text \<open>The lookups are those of the innermost declaration, which a block that ended has left alone.\<close>

lemma example_lookups:
  "env_get [MInt 1, MInt 2, MInt 3] example_scopes ''x'' = Some (MInt 3)"
  "env_get [MInt 1, MInt 2, MInt 3] (fst (env_pop_scope example_scopes)) ''x'' = Some (MInt 1)"
  "visible_names example_scopes = [''x'', ''y'']"
  by (simp_all add: example_scopes_def env_get_def find_cell_map env_pop_scope_def visible_names_def)

end
