(* ===== verification/Spec2Isabelle.thy ===== *)
theory Spec2Isabelle
  imports MirProperties LoopProperties PassProperties BcProperties WalkProperties
begin

text \<open>
  A model of two cores of the rayzor Haxe compiler: its mid-level intermediate representation (MIR) with
  the passes and analyses over it and the interpreter that runs it; and the bytecode in which macros run
  during compilation, with its compiler, its virtual machine and parts of the tree walker beside it.

  \<^bold>\<open>The program.\<close> rayzor parses Haxe, types it, lowers it to MIR (\<open>compiler/src/ir\<close>), runs passes
  over the MIR, and either interprets the result (\<open>compiler/src/codegen/mir_interpreter\<close>) or hands
  it to a code generator. A function of the MIR is a control flow graph of basic blocks in SSA form.
  The passes rewrite one function at a time and rely on what \<open>IrInstruction::uses\<close>, \<open>dest\<close> and
  \<open>has_side_effects\<close> report. The interpreter first decodes a function into operations on 64-bit
  registers, each with its machine type, in reverse post order of the blocks, and then runs the
  operations on a stack of frames and a byte-addressed memory. The passes over loops rest on
  \<open>ir/loop_analysis.rs\<close>: the dominator tree by Cooper, Harvey and Kennedy's iteration, the natural loops
  with their nesting, and the trip counts of \<open>ir/loop_unrolling.rs\<close>.

  Macros run earlier, on the syntax tree. \<open>compiler/src/macro_system/bytecode\<close> compiles the body of a macro
  function to a chunk (bytes of code, a pool of constants, spans, closures) and runs it on a stack of
  values and a stack of frames. Values share storage by \<open>Arc\<close>; a write copies the storage and then replaces
  every reference to the old one on the stack, and reports the replacement to the host. A macro starts
  in the tree-walking interpreter, is promoted to bytecode, and goes back to the walker when the machine
  fails; its result returns to the syntax tree as an expression.

  \<^bold>\<open>Theories, in the order of their imports.\<close>
  \<^item> \<open>Prelude\<close>: Rust's results (\<open>error + 'a\<close> with \<open>rbind\<close>), signed division as Rust has it, ordered
    tables (\<open>BTreeMap\<close>) as association lists in ascending order, the collections of simplification rules.
  \<^item> \<open>FloatBits\<close>: the IEEE operations of \<open>f32\<close> and \<open>f64\<close> on their bits, round to nearest even, as
    Rust's standard library documents them; executable, so that constants can be folded in the model.
  \<^item> \<open>MirTypes\<close>, \<open>MirInstr\<close>, \<open>MirUses\<close>: \<open>ir/types.rs\<close>, \<open>ir/instructions.rs\<close> and the operand
    functions of \<open>ir/optimization.rs\<close>: every type, constant and instruction variant with its operands.
  \<^item> \<open>MirCfg\<close>: \<open>ir/blocks.rs\<close>, \<open>ir/functions.rs\<close>: blocks, terminators, the graph with its creation of
    blocks and edges, recomputation of predecessors, verification, functions and their builders.
  \<^item> \<open>MirAbi\<close>: \<open>ir/modules.rs\<close> and \<open>ir/abi.rs\<close>: modules, functions reached indirectly, hidden
    environment parameters.
  \<^item> \<open>OptPasses\<close>: \<open>ir/optimization.rs\<close>: dead code elimination, constant folding, copy propagation,
    unreachable block elimination, control flow simplification; \<open>ir/trivial_phi.rs\<close>.
  \<^item> \<open>MirOps\<close>: \<open>mir_interpreter/mod.rs\<close> and the operation type, operators and conversions of
    \<open>mir_interpreter/exec.rs\<close>. \<open>MirDecode\<close>, \<open>MirDecodeInst\<close>, \<open>MirDecodeFn\<close>: \<open>mir_interpreter/decode.rs\<close>,
    \<open>Decoder\<close> as the record \<open>Dec\<close> threaded through the steps.
  \<^item> \<open>MirExec\<close>: \<open>mir_interpreter/exec.rs\<close>: frames, memory, calls, edges, the loop.
  \<^item> \<open>MirSem\<close>: a small-step meaning of graphs over an arbitrary meaning of instructions, and the locales
    \<open>mir_sem\<close> and \<open>mir_fold\<close> in which the passes are shown to keep it. \<open>MirInterp\<close> and \<open>MirFold\<close>
    interpret them on the operations the decoder emits and the machine runs. \<open>MirFoldCert\<close>: what constant
    folding makes of a function in single assignment form.
  \<^item> \<open>MirDom\<close>: \<open>DominatorTree\<close> of \<open>ir/loop_analysis.rs\<close>. \<open>MirTrip\<close>: \<open>analyze_loop_trip_count\<close> and
    what it calls in \<open>ir/loop_unrolling.rs\<close>. \<open>MirLoops\<close>: \<open>NaturalLoop\<close> and \<open>LoopNestInfo\<close> of
    \<open>ir/loop_analysis.rs\<close>. \<open>MirDomDfs\<close>, \<open>MirDomCorrect\<close>, \<open>MirDomTree\<close>: the depth-first order, the fixpoint
    of the iteration and its tree; \<open>MirLoopBody\<close>, \<open>MirLoopNest\<close>, \<open>MirLoopInfo\<close>: the bodies of loops, their
    nesting and the maps that \<open>analyze\<close> returns.
  \<^item> \<open>MirNumber\<close>: more of \<open>ir/optimization.rs\<close>: common subexpressions, global value numbering, the marking
    of tail calls, the removal of calls that record source positions; \<open>MirNumberOk\<close>: what the first two
    rest on. \<open>MirInit\<close>: \<open>ir/init_order.rs\<close>, the order of initialisers.
  \<^item> \<open>MirFrame\<close>: what the operations of an instruction read and write. \<open>MirMachine\<close>: decoded functions
    are well formed, the machine keeps its stack inside them, memory laws. \<open>MirExamples\<close>: the inputs
    of the witnesses.
  \<^item> \<open>HaxeAst\<close>: the expressions of \<open>parser/src/haxe_ast.rs\<close>. \<open>MacroVal\<close>: \<open>macro_system/value.rs\<close> and the
    literals of \<open>ast_bridge.rs\<close>. \<open>BcOpcode\<close>, \<open>BcChunk\<close>, \<open>BcCompile\<close>: \<open>bytecode/opcode.rs\<close>, \<open>chunk.rs\<close> and
    \<open>compiler.rs\<close>. \<open>BcVm\<close>, \<open>BcMachine\<close>: \<open>bytecode/vm.rs\<close>, the operators and methods and then the steps.
  \<^item> \<open>BcSem\<close>: a structured semantics of expressions over environments, with completions (a value or
    a return) and fuel. \<open>BcRel\<close>: single operations as steps of the machine. \<open>BcGrow\<close> and
    \<open>BcParts\<close>: compiling only appends code, and what each construct appends. \<open>BcSim\<close> and \<open>BcCorrect\<close>: the
    code of an expression simulates its semantics, construct by construct.
  \<^item> \<open>BcFrames\<close>: what operations do to the frames. \<open>BcValues\<close>: laws of equality, maps, elements and
    division. \<open>BcShare\<close>: replacing a storage is a substitution at any depth. \<open>BcExamples\<close>: inputs of the
    witnesses and runs of small programs.
  \<^item> \<open>MacroWalk\<close>: the operators of the tree walker (\<open>ast_bridge.rs\<close>, \<open>interpreter.rs\<close>). \<open>MacroTree\<close>:
    values back to expressions. \<open>MacroEnv\<close>: \<open>macro_system/environment.rs\<close>, scopes of shared cells, and the
    scope that \<open>call_function\<close> of \<open>interpreter.rs\<close> sets up.
  \<^item> \<open>MirProperties\<close> (C1 to C5, C12 to C16 and C18 to C24), \<open>LoopProperties\<close> (C6 to C11), \<open>PassProperties\<close>
    (C17, C26 and C27), \<open>BcProperties\<close> (C25 and C28 to C37) and \<open>WalkProperties\<close> (C38 to C40): the properties
    with their witnesses.

  \<^bold>\<open>Correspondence.\<close> Definitions keep the names of the Rust items; constructors are prefixed where
  two enums share a variant (\<open>I\<close> for instructions, \<open>T\<close> for terminators, \<open>V\<close> for values, \<open>Op\<close> for
  operations). A \<open>BTreeMap\<close> is an association list; mutation returns the new record; \<open>Result\<close> is a sum
  with the error on the left; a panic of the compiler is \<open>Panic\<close>. Machine integers are words; block,
  function and register ids are \<open>nat\<close>. Registers of a frame are a function from numbers to words, and
  memory is a function from addresses to bytes; the address space below 4096 is refused as in the code.

  In the bytecode part the operations of the machine carry the prefix \<open>Bc\<close>, values the prefix \<open>M\<close>, the
  operators of the syntax the prefix \<open>H\<close>. An \<open>Arc\<close> is the number of its allocation beside its contents, and
  \<open>vm_next\<close> is the next free number; the value stack has its top at the end, as the \<open>Vec\<close> has; the list of
  frames has the running one at its head. \<open>VmError\<close> is the machine's error, \<open>VmPanic\<close> and \<open>CompilePanic\<close> the
  panics. \<open>compile_expr\<close> is split like the source: each method is a definition over the function that
  compiles a subexpression.

  \<^bold>\<open>What the lemmas show.\<close> C1 to C4 and C18 to C20: what the passes preserve of every run of the
  interpreter, and where folding departs from it; what C3 and C4 ask for is asked of the function given to
  the pass. C5, C12 and C13: decoding is faithful to \<open>uses\<close> and \<open>dest\<close>, orders the blocks and resolves the
  edges. C6 to C8: the dominator tree is right on every graph that \<open>verify\<close> accepts, without an assumption on
  the iteration. C9 and C10: the loops found are the natural loops and the depth of a block is the number
  of loops around it. C11: trip counts. C14 to C16: invariants and laws of the machine. C17 and C26: what
  common subexpressions and value numbering put in place of a register. C21 to C24: the graph, its
  verification and the rewriting of operands. C25: compiled macro functions compute what the structured
  semantics gives. C27: the order of initialisers. C28 to C31: jumps, operands and frames. C32 to C37:
  values, pools and spans. C38 to C40: the walker beside the machine, values in the syntax tree, variables
  of closures. The lemmas at the ends of the property theories: programs that do something else than they
  say: a \<open>continue\<close> that never ends, compound assignment to an element, writes to fields of elements and of
  shared objects, cases with several patterns, interpolation, identity of objects, preheaders, wrapped
  counts, logical operators after promotion, initialisers beside a circle.

  \<^bold>\<open>Bounds and fuel.\<close> \<open>mrun\<close>, \<open>machine_run\<close> and \<open>interp_call\<close> take the number of steps: programs of the
  MIR need not end, and what has not ended is its own outcome (\<open>MFuel\<close>, \<open>OutNext\<close>), so a statement about
  all step counts speaks of every finite part of a run. The work lists of \<open>find_reachable\<close> and
  \<open>reverse_post_order\<close> are total functions with their measures. The machine of the macros stops at a time
  budget; \<open>vm_run\<close> counts operations instead, and C25 gives a count from which on the run ends. C25 holds for
  code of at most 2^15 bytes and 2^15 - 1 parameters, because offsets of jumps have 16 bits; C28 shows that
  the bound on offsets is exact. \<open>eval\<close> of \<open>BcSem\<close> takes fuel for nesting and iterations. The climbs and walks
  of the dominator tree and the nesting of loops, which the source bounds only by the shape of its data,
  are partial functions, and C6 to C10 show that they return; the bound of \<open>2 n + 10\<close> passes is the code's,
  and C7 shows that it is not reached.

  \<^bold>\<open>Parameters.\<close> Native functions, the loader of other functions, the allocator and the machine code
  behind a call are the fields of \<open>Runtime\<close>; the state they keep is the type variable of \<open>World\<close>. The texts
  of floats, their parsing, the cases of letters and the names of files are the fields of \<open>Host\<close>. Theorems
  hold for all of them.

  \<^bold>\<open>Not modelled.\<close> The parser and typer, the lowering to MIR, and the code generators, which drive
  third-party libraries; of the interpreter, regions protected by \<open>setjmp\<close>, suspension and resumption
  in compiled code, and profiling; of the MIR, printing, the builder, and the passes not named above, unrolling among them. Of
  the macro system: the tree walker apart from its operators and variables (the default of a parameter and the
  conversion to its type, which a call may need, are its evaluator's), \<open>expr_adt\<close>; the index that lets replacement of
  references skip old storages, and the variables captured by function values, which the machine hands to
  that interpreter; the disassembler. The structured semantics of C25 has no \<open>switch\<close>, \<open>for\<close>, \<open>break\<close>, calls, maps,
  objects or closures; these are compiled and run by the model but not part of that theorem.
\<close>

end
